(* ===== verification/Prelude.thy ===== *)
theory Prelude
  imports Main "HOL-Library.AList" "HOL-Library.Char_ord" "HOL-Library.List_Lexorder"
begin

text \<open>
  Shared ground of the development: Go's clock values and durations, Go maps, the
  storage error type of \<^verbatim>\<open>internal/domain/storage/errors.go\<close>, and the generic lemmas
  the component theories use.

  A Go map is an association list whose keys are distinct; the order of the list is the
  order in which one \<^verbatim>\<open>range\<close> loop visits the entries. Go leaves that order open, so a
  theorem about a loop over a map is stated for every list.
\<close>

section \<open>Collections of facts\<close>

named_theorems go_map_simps
named_theorems store_defs

section \<open>Time\<close>

text \<open>
  A \<^verbatim>\<open>time.Time\<close> is the number of nanoseconds since Go's zero time (1 January of the year
  1), so the zero value is 0 and \<^verbatim>\<open>After\<close>, \<^verbatim>\<open>Before\<close> and \<^verbatim>\<open>Equal\<close> compare integers. A
  \<^verbatim>\<open>time.Duration\<close> is an int64 number of nanoseconds, and \<^verbatim>\<open>Time.Sub\<close> saturates at the
  ends of that range.
\<close>

type_synonym time = int
type_synonym duration = int

definition max_int64 :: int where
  "max_int64 = 9223372036854775807"

definition min_int64 :: int where
  "min_int64 = - 9223372036854775808"

definition time_after :: "time \<Rightarrow> time \<Rightarrow> bool" where
  "time_after a b \<longleftrightarrow> b < a"

definition time_before :: "time \<Rightarrow> time \<Rightarrow> bool" where
  "time_before a b \<longleftrightarrow> a < b"

definition time_is_zero :: "time \<Rightarrow> bool" where
  "time_is_zero t \<longleftrightarrow> t = 0"

definition time_sub :: "time \<Rightarrow> time \<Rightarrow> duration" where
  "time_sub a b = max min_int64 (min max_int64 (a - b))"

definition wrap_int64 :: "int \<Rightarrow> int" where
  "wrap_int64 x = (x + 9223372036854775808) mod 18446744073709551616 - 9223372036854775808"

lemmas time_defs = time_after_def time_before_def time_is_zero_def

lemma wrap_int64_range: "min_int64 \<le> wrap_int64 x \<and> wrap_int64 x \<le> max_int64"
proof -
  have "0 \<le> (x + 9223372036854775808) mod 18446744073709551616"
    by simp
  moreover have "(x + 9223372036854775808) mod 18446744073709551616 < (18446744073709551616::int)"
    by simp
  ultimately show ?thesis
    by (auto simp: wrap_int64_def min_int64_def max_int64_def)
qed

lemma wrap_int64_id [simp]:
  "min_int64 \<le> x \<Longrightarrow> x \<le> max_int64 \<Longrightarrow> wrap_int64 x = x"
  by (simp add: wrap_int64_def min_int64_def max_int64_def)

section \<open>Storage errors\<close>

text \<open>\<^verbatim>\<open>storage.ErrorKind\<close> and the operation and kind of a \<^verbatim>\<open>storage.StorageError\<close>.\<close>

datatype ErrorKind =
    ErrorKindConnection
  | ErrorKindTimeout
  | ErrorKindValidation
  | ErrorKindNotFound
  | ErrorKindConflict
  | ErrorKindUnknown

datatype StorageError = StorageError (seOperation: string) (seKind: ErrorKind) (seMessage: string)

text \<open>\<^verbatim>\<open>StorageError.Is\<close>: two storage errors are the same when operation and kind agree.\<close>

definition StorageError_Is :: "StorageError \<Rightarrow> StorageError \<Rightarrow> bool" where
  "StorageError_Is se target \<longleftrightarrow>
     seOperation se = seOperation target \<and> seKind se = seKind target"

section \<open>Lists\<close>

lemma find_SomeD: "find P xs = Some x \<Longrightarrow> x \<in> set xs \<and> P x"
  by (induction xs) (auto split: if_splits)

section \<open>Go maps\<close>

type_synonym ('k, 'v) gomap = "('k \<times> 'v) list"

abbreviation wf_gomap :: "('k, 'v) gomap \<Rightarrow> bool" where
  "wf_gomap m \<equiv> distinct (map fst m)"

lemma map_of_update [go_map_simps]: "map_of (AList.update k v m) = (map_of m)(k \<mapsto> v)"
  by (rule AList.update_conv')

lemma map_of_delete [go_map_simps]: "map_of (AList.delete k m) = (map_of m)(k := None)"
  by (simp add: AList.delete_conv')

lemma wf_update [intro, simp]: "wf_gomap m \<Longrightarrow> wf_gomap (AList.update k v m)"
  by (rule AList.distinct_update)

lemma wf_delete [intro, simp]: "wf_gomap m \<Longrightarrow> wf_gomap (AList.delete k m)"
  by (rule AList.distinct_delete)

lemma wf_filter [intro, simp]: "wf_gomap m \<Longrightarrow> wf_gomap (filter P m)"
  by (rule distinct_map_filter)

text \<open>Rewriting the values of a map keeps its keys.\<close>

lemma fst_comp_values [simp]: "fst \<circ> (\<lambda>(k, v). (k, f k v)) = fst"
  by (simp add: fun_eq_iff split: prod.splits)

lemma map_of_map_values [go_map_simps]:
  "map_of (map (\<lambda>(k, v). (k, f k v)) m) k = map_option (f k) (map_of m k)"
  by (induction m) auto

lemma map_of_filter_kv:
  "wf_gomap m \<Longrightarrow>
   map_of (filter P m) k = (case map_of m k of None \<Rightarrow> None | Some v \<Rightarrow> if P (k, v) then Some v else None)"
proof (induction m)
  case Nil
  then show ?case by simp
next
  case (Cons a m)
  show ?case
  proof (cases "fst a = k")
    case True
    with Cons.prems have "map_of m k = None"
      by (auto simp: map_of_eq_None_iff)
    with Cons True show ?thesis
      by (cases a) auto
  next
    case False
    with Cons show ?thesis
      by (cases a) auto
  qed
qed

lemma map_of_mem_iff: "wf_gomap m \<Longrightarrow> (k, v) \<in> set m \<longleftrightarrow> map_of m k = Some v"
  by (auto dest: map_of_SomeD)

end
