(* ===== verification/Go_Strings.thy ===== *)
theory Go_Strings
  imports Prelude
begin

text \<open>
  The functions of Go's \<^verbatim>\<open>strings\<close> and \<^verbatim>\<open>strconv\<close> packages that the modelled code calls.
  A Go string is its list of bytes.
\<close>

abbreviation backslash :: char where "backslash \<equiv> CHR 0x5C"
abbreviation dquote :: char where "dquote \<equiv> CHR 0x22"

definition HasPrefix :: "string \<Rightarrow> string \<Rightarrow> bool" where
  "HasPrefix s p \<longleftrightarrow> take (length p) s = p"

definition HasSuffix :: "string \<Rightarrow> string \<Rightarrow> bool" where
  "HasSuffix s p \<longleftrightarrow> length p \<le> length s \<and> drop (length s - length p) s = p"

definition TrimPrefix :: "string \<Rightarrow> string \<Rightarrow> string" where
  "TrimPrefix s p = (if HasPrefix s p then drop (length p) s else s)"

fun Join :: "string list \<Rightarrow> string \<Rightarrow> string" where
  "Join [] sep = []"
| "Join [x] sep = x"
| "Join (x # y # xs) sep = x @ sep @ Join (y # xs) sep"

text \<open>
  \<^verbatim>\<open>strings.TrimSpace\<close> removes the code points for which \<^verbatim>\<open>unicode.IsSpace\<close> holds. The
  list holds their UTF-8 encodings: the ASCII spaces, U+0085, U+00A0, U+1680, U+2000 to
  U+200A, U+2028, U+2029, U+202F, U+205F and U+3000.
\<close>

definition utf8_spaces :: "string list" where
  "utf8_spaces =
     [[CHR 0x09], [CHR 0x0A], [CHR 0x0B], [CHR 0x0C], [CHR 0x0D], [CHR 0x20],
      [CHR 0xC2, CHR 0x85], [CHR 0xC2, CHR 0xA0], [CHR 0xE1, CHR 0x9A, CHR 0x80],
      [CHR 0xE2, CHR 0x80, CHR 0x80], [CHR 0xE2, CHR 0x80, CHR 0x81],
      [CHR 0xE2, CHR 0x80, CHR 0x82], [CHR 0xE2, CHR 0x80, CHR 0x83],
      [CHR 0xE2, CHR 0x80, CHR 0x84], [CHR 0xE2, CHR 0x80, CHR 0x85],
      [CHR 0xE2, CHR 0x80, CHR 0x86], [CHR 0xE2, CHR 0x80, CHR 0x87],
      [CHR 0xE2, CHR 0x80, CHR 0x88], [CHR 0xE2, CHR 0x80, CHR 0x89],
      [CHR 0xE2, CHR 0x80, CHR 0x8A], [CHR 0xE2, CHR 0x80, CHR 0xA8],
      [CHR 0xE2, CHR 0x80, CHR 0xA9], [CHR 0xE2, CHR 0x80, CHR 0xAF],
      [CHR 0xE2, CHR 0x81, CHR 0x9F], [CHR 0xE3, CHR 0x80, CHR 0x80]]"

definition leading_space :: "string \<Rightarrow> nat option" where
  "leading_space s = map_option length (find (HasPrefix s) utf8_spaces)"

definition trailing_space :: "string \<Rightarrow> nat option" where
  "trailing_space s = map_option length (find (HasSuffix s) utf8_spaces)"

lemma utf8_spaces_nonempty: "w \<in> set utf8_spaces \<Longrightarrow> 0 < length w"
  by (auto simp: utf8_spaces_def)

lemma leading_space_pos: "leading_space s = Some n \<Longrightarrow> 0 < n \<and> s \<noteq> []"
proof -
  assume "leading_space s = Some n"
  then obtain w where w: "w \<in> set utf8_spaces" "HasPrefix s w" "n = length w"
    by (auto simp: leading_space_def dest: find_SomeD)
  from utf8_spaces_nonempty [OF w(1)] w(2,3) show ?thesis
    by (auto simp: HasPrefix_def)
qed

lemma trailing_space_pos: "trailing_space s = Some n \<Longrightarrow> 0 < n \<and> s \<noteq> []"
proof -
  assume "trailing_space s = Some n"
  then obtain w where w: "w \<in> set utf8_spaces" "HasSuffix s w" "n = length w"
    by (auto simp: trailing_space_def dest: find_SomeD)
  from utf8_spaces_nonempty [OF w(1)] w(2,3) show ?thesis
    by (auto simp: HasSuffix_def)
qed

function trim_left :: "string \<Rightarrow> string" where
  "trim_left s = (case leading_space s of None \<Rightarrow> s | Some n \<Rightarrow> trim_left (drop n s))"
  by pat_completeness auto
termination
  by (relation "measure length") (auto dest: leading_space_pos)

function trim_right :: "string \<Rightarrow> string" where
  "trim_right s =
     (case trailing_space s of None \<Rightarrow> s | Some n \<Rightarrow> trim_right (take (length s - n) s))"
  by pat_completeness auto
termination
  by (relation "measure length") (auto dest: trailing_space_pos)

declare trim_left.simps [simp del] trim_right.simps [simp del]

definition TrimSpace :: "string \<Rightarrow> string" where
  "TrimSpace s = trim_right (trim_left s)"

text \<open>\<^verbatim>\<open>strings.Trim(s, cutset)\<close> for a cutset of one ASCII character.\<close>

definition TrimByte :: "char \<Rightarrow> string \<Rightarrow> string" where
  "TrimByte c s = rev (dropWhile ((=) c) (rev (dropWhile ((=) c) s)))"

text \<open>
  \<^verbatim>\<open>strings.ToLower\<close>, as far as its result is compared with ASCII words: the ASCII
  letters, and the two code points outside ASCII whose lower case is an ASCII letter
  (U+0130 and U+212A). Every other code point stays outside ASCII.
\<close>

definition lower_ascii :: "char \<Rightarrow> char" where
  "lower_ascii c =
     (if CHR ''A'' \<le> c \<and> c \<le> CHR ''Z'' then char_of ((of_char c :: nat) + 32) else c)"

fun ToLower :: "string \<Rightarrow> string" where
  "ToLower [] = []"
| "ToLower (c # s) =
     (if c = CHR 0xC4 \<and> HasPrefix s [CHR 0xB0] then CHR ''i'' # ToLower (drop 1 s)
      else if c = CHR 0xE2 \<and> HasPrefix s [CHR 0x84, CHR 0xAA] then CHR ''k'' # ToLower (drop 2 s)
      else lower_ascii c # ToLower s)"

section \<open>Decimal numbers\<close>

definition is_digit :: "char \<Rightarrow> bool" where
  "is_digit c \<longleftrightarrow> CHR ''0'' \<le> c \<and> c \<le> CHR ''9''"

definition digit_char :: "nat \<Rightarrow> char" where
  "digit_char d = char_of (48 + d)"

definition digit_val :: "char \<Rightarrow> nat" where
  "digit_val c = (of_char c :: nat) - 48"

fun FormatUint :: "nat \<Rightarrow> string" where
  "FormatUint n =
     (if n < 10 then [digit_char n] else FormatUint (n div 10) @ [digit_char (n mod 10)])"

declare FormatUint.simps [simp del]

definition FormatInt :: "int \<Rightarrow> string" where
  "FormatInt i = (if i < 0 then CHR ''-'' # FormatUint (nat (- i)) else FormatUint (nat i))"

definition digits_val :: "string \<Rightarrow> nat" where
  "digits_val ds = foldl (\<lambda>n c. 10 * n + digit_val c) 0 ds"

text \<open>\<^verbatim>\<open>strconv.ParseInt(s, 10, 64)\<close>: an optional sign, at least one digit, in range.\<close>

definition ParseInt64 :: "string \<Rightarrow> int option" where
  "ParseInt64 s =
     (let neg = HasPrefix s ''-'';
          ds = (if HasPrefix s ''-'' \<or> HasPrefix s ''+'' then drop 1 s else s);
          v = int (digits_val ds)
      in if ds = [] \<or> \<not> list_all is_digit ds then None
         else if neg then (if - v < min_int64 then None else Some (- v))
         else (if max_int64 < v then None else Some v))"

lemma digit_char_digit:
  assumes "d < 10"
  shows "is_digit (digit_char d)" and "digit_val (digit_char d) = d"
proof -
  have "d = 0 \<or> d = 1 \<or> d = 2 \<or> d = 3 \<or> d = 4 \<or> d = 5 \<or> d = 6 \<or> d = 7 \<or> d = 8 \<or> d = 9"
    using assms by arith
  then show "is_digit (digit_char d)" and "digit_val (digit_char d) = d"
    by (auto simp: is_digit_def digit_char_def digit_val_def less_eq_char_def)
qed

lemma FormatUint_nonempty: "FormatUint n \<noteq> []"
  by (subst FormatUint.simps) simp

lemma FormatUint_digits: "list_all is_digit (FormatUint n)"
proof (induction n rule: FormatUint.induct)
  case (1 n)
  then show ?case
    by (subst FormatUint.simps) (simp add: digit_char_digit)
qed

lemma digits_val_FormatUint: "digits_val (FormatUint n) = n"
proof (induction n rule: FormatUint.induct)
  case (1 n)
  then show ?case
    by (subst FormatUint.simps) (simp add: digits_val_def digit_char_digit)
qed

lemma FormatUint_hd: "is_digit (hd (FormatUint n))"
  using FormatUint_digits [of n] FormatUint_nonempty [of n]
  by (cases "FormatUint n") auto

lemma FormatUint_no_sign:
  shows "HasPrefix (FormatUint n) ''-'' = False" and "HasPrefix (FormatUint n) ''+'' = False"
  using FormatUint_hd [of n] FormatUint_nonempty [of n]
  by (cases "FormatUint n"; auto simp: HasPrefix_def is_digit_def less_eq_char_def)+

text \<open>Printing an int64 and reading it back is the identity.\<close>

lemma ParseInt64_FormatInt:
  assumes "min_int64 \<le> i" and "i \<le> max_int64"
  shows "ParseInt64 (FormatInt i) = Some i"
proof (cases "i < 0")
  case True
  with assms show ?thesis
    by (simp add: ParseInt64_def FormatInt_def HasPrefix_def Let_def FormatUint_nonempty
        FormatUint_digits digits_val_FormatUint)
next
  case False
  with assms show ?thesis
    by (simp add: ParseInt64_def FormatInt_def Let_def FormatUint_nonempty FormatUint_digits
        FormatUint_no_sign digits_val_FormatUint)
qed

lemma ParseInt64_range:
  "ParseInt64 s = Some v \<Longrightarrow> min_int64 \<le> v \<and> v \<le> max_int64"
  by (auto simp: ParseInt64_def Let_def min_int64_def max_int64_def split: if_splits)

end
