(* ===== verification/Tool_Pattern.thy ===== *)
theory Tool_Pattern
  imports Go_Strings "HOL-Library.Word"
begin

text \<open>
  The approval-pattern grammar of \<^verbatim>\<open>internal/domain/approval/toolpattern/toolpattern.go\<close>:
  glob matching, escaping, canonical rendering of argument values, pattern validation,
  matching of an invocation and the human-readable form.

  The matcher is the source's index loop with one backtracking point. It is compared with
  \<^verbatim>\<open>glob_lang\<close>, the reading of a glob as a language: a star stands for any string, a
  backslash makes the next character literal.
\<close>

section \<open>Glob matching\<close>

function skip_stars :: "string \<Rightarrow> nat \<Rightarrow> bool" where
  "skip_stars glob globIndex =
     (if globIndex < length glob \<and> glob ! globIndex = CHR ''*''
      then skip_stars glob (globIndex + 1)
      else globIndex = length glob)"
  by pat_completeness auto
termination
  by (relation "measure (\<lambda>(glob, globIndex). length glob - globIndex)") auto

text \<open>
  The loop of \<^verbatim>\<open>match\<close>. The source's \<^verbatim>\<open>star = -1\<close> is \<open>None\<close>. What shrinks: the loop ends
  once the string index reaches the end; a new star lies behind the old one; a retry moves
  the retry index on; a literal step moves both indices on.
\<close>

function match_loop :: "string \<Rightarrow> string \<Rightarrow> nat \<Rightarrow> nat \<Rightarrow> nat option \<Rightarrow> nat \<Rightarrow> bool" where
  "match_loop glob s globIndex stringIndex star retryIndex =
     (if stringIndex < length s then
        (if globIndex < length glob \<and> glob ! globIndex = CHR ''*'' then
           match_loop glob s (globIndex + 1) stringIndex (Some globIndex) stringIndex
         else if globIndex < length glob \<and> glob ! globIndex = backslash \<and>
                 globIndex + 1 < length glob \<and> glob ! (globIndex + 1) = s ! stringIndex then
           match_loop glob s (globIndex + 2) (stringIndex + 1) star retryIndex
         else if globIndex < length glob \<and> glob ! globIndex \<noteq> backslash \<and>
                 glob ! globIndex = s ! stringIndex then
           match_loop glob s (globIndex + 1) (stringIndex + 1) star retryIndex
         else (case star of
             None \<Rightarrow> False
           | Some k \<Rightarrow> match_loop glob s (k + 1) (retryIndex + 1) (Some k) (retryIndex + 1)))
      else skip_stars glob globIndex)"
  by pat_completeness auto
termination
  by (relation "measures
      [\<lambda>(glob, s, gi, si, star, retry). if si < length s then 1 else 0,
       \<lambda>(glob, s, gi, si, star, retry). case star of None \<Rightarrow> 0 | Some k \<Rightarrow> if k < gi then 0 else 1,
       \<lambda>(glob, s, gi, si, star, retry). case star of None \<Rightarrow> Suc (length glob) | Some k \<Rightarrow> length glob - k,
       \<lambda>(glob, s, gi, si, star, retry). length s - retry,
       \<lambda>(glob, s, gi, si, star, retry). length glob - gi + (length s - si)]")
    (auto split: option.splits)

declare skip_stars.simps [simp del] match_loop.simps [simp del]

definition match :: "string \<Rightarrow> string \<Rightarrow> bool" where
  "match glob s = match_loop glob s 0 0 None 0"

text \<open>The language of a glob.\<close>

fun glob_lang :: "string \<Rightarrow> string \<Rightarrow> bool" where
  "glob_lang [] t = (t = [])"
| "glob_lang (g # p) t =
     (if g = CHR ''*'' then \<exists>n \<le> length t. glob_lang p (drop n t)
      else if g = backslash then
        (case p of [] \<Rightarrow> False | x # q \<Rightarrow> (case t of [] \<Rightarrow> False | c # t' \<Rightarrow> x = c \<and> glob_lang q t'))
      else (case t of [] \<Rightarrow> False | c # t' \<Rightarrow> g = c \<and> glob_lang p t'))"

text \<open>What the loop has established: the part of the glob between the last star and the
  current position consumes exactly \<open>n\<close> characters.\<close>

definition consumes :: "string \<Rightarrow> string \<Rightarrow> nat \<Rightarrow> bool" where
  "consumes p q n \<longleftrightarrow>
     (\<forall>t. glob_lang p t \<longrightarrow> n \<le> length t \<and> glob_lang q (drop n t))"

lemma consumes_refl: "consumes p p 0"
  by (simp add: consumes_def)

lemma consumes_lit:
  assumes "consumes p (g # q) n" and "g \<noteq> CHR ''*''" and "g \<noteq> backslash"
  shows "consumes p q (Suc n)"
  unfolding consumes_def
proof (intro allI impI)
  fix t assume "glob_lang p t"
  with assms have "n \<le> length t" and gl: "glob_lang (g # q) (drop n t)"
    by (auto simp: consumes_def)
  then obtain c t' where "drop n t = c # t'" and "glob_lang q t'"
    using assms(2,3) by (auto split: list.splits)
  then show "Suc n \<le> length t \<and> glob_lang q (drop (Suc n) t)"
    by (metis drop_Suc drop_eq_Nil2 list.distinct(1) list.sel(3) not_less_eq_eq tl_drop)
qed

lemma consumes_esc:
  assumes "consumes p (backslash # x # q) n"
  shows "consumes p q (Suc n)"
  unfolding consumes_def
proof (intro allI impI)
  fix t assume "glob_lang p t"
  with assms have "n \<le> length t" and gl: "glob_lang (backslash # x # q) (drop n t)"
    by (auto simp: consumes_def)
  then obtain c t' where "drop n t = c # t'" and "glob_lang q t'"
    by (auto split: list.splits)
  then show "Suc n \<le> length t \<and> glob_lang q (drop (Suc n) t)"
    by (metis drop_Suc drop_eq_Nil2 list.distinct(1) list.sel(3) not_less_eq_eq tl_drop)
qed

lemma glob_lang_star: "glob_lang (CHR ''*'' # p) t \<longleftrightarrow> (\<exists>n \<le> length t. glob_lang p (drop n t))"
  by simp

lemma glob_lang_star_drop:
  assumes "glob_lang (CHR ''*'' # p) (drop m t)" and "k \<le> m" and "m \<le> length t"
  shows "glob_lang (CHR ''*'' # p) (drop k t)"
proof -
  from assms(1) obtain n where "n \<le> length t - m" and "glob_lang p (drop n (drop m t))"
    by auto
  then have "n + (m - k) \<le> length (drop k t)" and "glob_lang p (drop (n + (m - k)) (drop k t))"
    using assms(2,3) by (auto simp: add.commute)
  then show ?thesis
    unfolding glob_lang_star by blast
qed

lemma skip_stars_glob_lang:
  "gi \<le> length glob \<Longrightarrow> skip_stars glob gi \<longleftrightarrow> glob_lang (drop gi glob) []"
proof (induction glob gi rule: skip_stars.induct)
  case (1 glob gi)
  show ?case
  proof (cases "gi < length glob \<and> glob ! gi = CHR ''*''")
    case True
    then have "drop gi glob = CHR ''*'' # drop (Suc gi) glob"
      by (metis Cons_nth_drop_Suc)
    with True 1 show ?thesis
      by (subst skip_stars.simps) simp
  next
    case False
    show ?thesis
    proof (cases "gi < length glob")
      case True
      then have "drop gi glob = glob ! gi # drop (Suc gi) glob"
        by (metis Cons_nth_drop_Suc)
      with True False show ?thesis
        by (subst skip_stars.simps) (auto split: list.splits)
    next
      case gi: False
      with "1.prems" show ?thesis
        by (subst skip_stars.simps) simp
    qed
  qed
qed

text \<open>The alternatives the backtracking point still holds.\<close>

definition retries :: "string \<Rightarrow> string \<Rightarrow> nat option \<Rightarrow> nat \<Rightarrow> bool" where
  "retries glob s star retry \<longleftrightarrow>
     (\<exists>k j. star = Some k \<and> retry < j \<and> j \<le> length s \<and> glob_lang (drop (Suc k) glob) (drop j s))"

definition match_inv :: "string \<Rightarrow> string \<Rightarrow> nat \<Rightarrow> nat \<Rightarrow> nat option \<Rightarrow> nat \<Rightarrow> bool" where
  "match_inv glob s gi si star retry \<longleftrightarrow>
     gi \<le> length glob \<and> si \<le> length s \<and> retry \<le> si \<and>
     (\<forall>k. star = Some k \<longrightarrow>
        k < length glob \<and> consumes (drop (Suc k) glob) (drop gi glob) (si - retry))"

lemma match_done:
  assumes "match_inv glob s gi si star retry" and "\<not> si < length s"
  shows "\<not> retries glob s star retry"
proof
  assume "retries glob s star retry"
  then obtain k j where k: "star = Some k" and j: "retry < j" "j \<le> length s"
    and gl: "glob_lang (drop (Suc k) glob) (drop j s)"
    by (auto simp: retries_def)
  from assms(1) k have "consumes (drop (Suc k) glob) (drop gi glob) (si - retry)"
    by (auto simp: match_inv_def)
  with gl have "si - retry \<le> length (drop j s)"
    by (auto simp: consumes_def)
  with assms j show False
    by (auto simp: match_inv_def)
qed

lemma match_star_absorbs:
  assumes inv: "match_inv glob s gi si star retry" and "si < length s"
    and gi: "gi < length glob" "glob ! gi = CHR ''*''"
    and re: "retries glob s star retry"
  shows "glob_lang (drop gi glob) (drop si s)"
proof -
  from gi have d: "drop gi glob = CHR ''*'' # drop (Suc gi) glob"
    by (metis Cons_nth_drop_Suc)
  from re obtain k j where k: "star = Some k" and j: "retry < j" "j \<le> length s"
    and gl: "glob_lang (drop (Suc k) glob) (drop j s)"
    by (auto simp: retries_def)
  from inv k have "consumes (drop (Suc k) glob) (drop gi glob) (si - retry)" and "retry \<le> si"
    by (auto simp: match_inv_def)
  with gl have n: "si - retry \<le> length s - j" and "glob_lang (drop gi glob) (drop (si - retry) (drop j s))"
    by (auto simp: consumes_def)
  then have "glob_lang (CHR ''*'' # drop (Suc gi) glob) (drop (j + (si - retry)) s)"
    by (simp add: d add.commute)
  moreover have "si \<le> j + (si - retry)" and "j + (si - retry) \<le> length s"
    using j n \<open>retry \<le> si\<close> by auto
  ultimately show ?thesis
    unfolding d by (rule glob_lang_star_drop)
qed

lemma retries_star:
  "si < length s \<Longrightarrow> retries glob s (Some gi) si \<or> glob_lang (drop (Suc gi) glob) (drop si s) \<longleftrightarrow>
   (\<exists>n \<le> length (drop si s). glob_lang (drop (Suc gi) glob) (drop n (drop si s)))"
  (is "_ \<Longrightarrow> ?L \<longleftrightarrow> ?R")
proof
  assume si: "si < length s" and L: ?L
  from L show ?R
  proof
    assume "retries glob s (Some gi) si"
    then obtain j where "si < j" "j \<le> length s" "glob_lang (drop (Suc gi) glob) (drop j s)"
      by (auto simp: retries_def)
    then show ?R
      by (intro exI [of _ "j - si"]) auto
  next
    assume "glob_lang (drop (Suc gi) glob) (drop si s)"
    then show ?R by (intro exI [of _ 0]) simp
  qed
next
  assume si: "si < length s" and ?R
  then obtain n where n: "n \<le> length s - si" "glob_lang (drop (Suc gi) glob) (drop (n + si) s)"
    by auto
  show ?L
  proof (cases n)
    case 0
    with n show ?thesis by simp
  next
    case (Suc m)
    with n si have "retries glob s (Some gi) si"
      unfolding retries_def by (intro exI [of _ gi] exI [of _ "n + si"]) auto
    then show ?thesis ..
  qed
qed

lemma retries_next:
  "retry < length s \<Longrightarrow>
   retries glob s (Some k) retry \<longleftrightarrow>
   glob_lang (drop (Suc k) glob) (drop (Suc retry) s) \<or> retries glob s (Some k) (Suc retry)"
  by (auto simp: retries_def Suc_le_eq intro: Suc_lessD) (metis Suc_lessI Suc_lessD)+

lemma drop_nth_Cons: "i < length xs \<Longrightarrow> drop i xs = xs ! i # drop (Suc i) xs"
  by (metis Cons_nth_drop_Suc)

text \<open>Where no step of the loop applies, the current alternative fails.\<close>

lemma glob_lang_stuck:
  assumes "si < length s"
    and "\<not> (gi < length glob \<and> glob ! gi = CHR ''*'')"
    and "\<not> (gi < length glob \<and> glob ! gi = backslash \<and> gi + 1 < length glob \<and> glob ! (gi + 1) = s ! si)"
    and "\<not> (gi < length glob \<and> glob ! gi \<noteq> backslash \<and> glob ! gi = s ! si)"
  shows "\<not> glob_lang (drop gi glob) (drop si s)"
proof (cases "gi < length glob")
  case True
  with assms show ?thesis
    by (cases "Suc gi < length glob") (auto simp: drop_nth_Cons)
next
  case False
  with assms(1) show ?thesis by simp
qed

lemma match_loop_correct:
  "match_inv glob s gi si star retry \<Longrightarrow>
   match_loop glob s gi si star retry \<longleftrightarrow>
   glob_lang (drop gi glob) (drop si s) \<or> retries glob s star retry"
proof (induction glob s gi si star retry rule: match_loop.induct)
  case (1 glob s gi si star retry)
  note eq = match_loop.simps [of glob s gi si star retry]
  consider (fin) "\<not> si < length s"
    | (star) "si < length s" "gi < length glob \<and> glob ! gi = CHR ''*''"
    | (esc) "si < length s" "\<not> (gi < length glob \<and> glob ! gi = CHR ''*'')"
        "gi < length glob \<and> glob ! gi = backslash \<and> gi + 1 < length glob \<and> glob ! (gi + 1) = s ! si"
    | (lit) "si < length s" "\<not> (gi < length glob \<and> glob ! gi = CHR ''*'')"
        "\<not> (gi < length glob \<and> glob ! gi = backslash \<and> gi + 1 < length glob \<and> glob ! (gi + 1) = s ! si)"
        "gi < length glob \<and> glob ! gi \<noteq> backslash \<and> glob ! gi = s ! si"
    | (fail) "si < length s" "\<not> (gi < length glob \<and> glob ! gi = CHR ''*'')"
        "\<not> (gi < length glob \<and> glob ! gi = backslash \<and> gi + 1 < length glob \<and> glob ! (gi + 1) = s ! si)"
        "\<not> (gi < length glob \<and> glob ! gi \<noteq> backslash \<and> glob ! gi = s ! si)"
    by blast
  then show ?case
  proof cases
    case fin
    with "1.prems" have "gi \<le> length glob" "si = length s"
      by (auto simp: match_inv_def)
    with match_done [OF "1.prems" fin] show ?thesis
      unfolding eq by (simp add: skip_stars_glob_lang)
  next
    case star
    have "match_inv glob s (gi + 1) si (Some gi) si"
      using "1.prems" star by (auto simp: match_inv_def consumes_refl)
    note IH = "1.IH"(1) [OF star this]
    have "glob_lang (drop gi glob) (drop si s) \<longleftrightarrow>
        retries glob s (Some gi) si \<or> glob_lang (drop (Suc gi) glob) (drop si s)"
      using star retries_star [OF star(1), of glob gi] by (simp add: drop_nth_Cons)
    with IH star match_star_absorbs [OF "1.prems"] show ?thesis
      by (simp add: eq) blast
  next
    case esc
    then have d: "drop gi glob = backslash # glob ! (gi + 1) # drop (gi + 2) glob"
      by (simp add: drop_nth_Cons)
    have "match_inv glob s (gi + 2) (si + 1) star retry"
      using "1.prems" esc d by (auto simp: match_inv_def Suc_diff_le intro: consumes_esc)
    note IH = "1.IH"(2) [OF esc this]
    with esc d show ?thesis
      by (simp add: eq drop_nth_Cons [of si])
  next
    case lit
    then have d: "drop gi glob = glob ! gi # drop (gi + 1) glob"
      by (simp add: drop_nth_Cons)
    have "match_inv glob s (gi + 1) (si + 1) star retry"
      using "1.prems" lit d by (auto simp: match_inv_def Suc_diff_le intro: consumes_lit)
    note IH = "1.IH"(3) [OF lit this]
    have "s ! si \<noteq> backslash"
      using lit by auto
    with IH lit d show ?thesis
      by (simp add: eq drop_nth_Cons [of si])
  next
    case fail
    note stuck = glob_lang_stuck [OF fail]
    show ?thesis
    proof (cases star)
      case None
      with fail stuck show ?thesis
        unfolding eq by (auto simp: retries_def)
    next
      case (Some k)
      have inv: "match_inv glob s (k + 1) (retry + 1) (Some k) (retry + 1)"
        using "1.prems" fail Some by (auto simp: match_inv_def consumes_refl)
      have "retry < length s"
        using "1.prems" fail by (simp add: match_inv_def)
      with "1.IH"(4) [OF fail Some inv] fail stuck Some show ?thesis
        unfolding eq by (auto simp: retries_next)
    qed
  qed
qed

lemma match_glob_lang: "match glob s \<longleftrightarrow> glob_lang glob s"
proof -
  have "match_inv glob s 0 0 None 0" by (simp add: match_inv_def)
  from match_loop_correct [OF this] show ?thesis
    by (simp add: match_def retries_def)
qed

section \<open>Escaping\<close>

text \<open>
  \<^verbatim>\<open>EscapeLiteral\<close>: the replacer works on one byte at a time.
\<close>

fun EscapeLiteral :: "string \<Rightarrow> string" where
  "EscapeLiteral [] = []"
| "EscapeLiteral (c # s) =
     (if c = backslash \<or> c = CHR ''*'' then backslash # c # EscapeLiteral s
      else c # EscapeLiteral s)"

lemma glob_lang_EscapeLiteral: "glob_lang (EscapeLiteral s) t \<longleftrightarrow> t = s"
proof (induction s arbitrary: t)
  case Nil
  then show ?case by simp
next
  case (Cons c s)
  then show ?case by (cases t) auto
qed

lemma match_EscapeLiteral [simp]: "match (EscapeLiteral s) t \<longleftrightarrow> t = s"
  by (simp add: match_glob_lang glob_lang_EscapeLiteral)

lemma EscapeLiteral_eq_Nil [simp]: "EscapeLiteral s = [] \<longleftrightarrow> s = []"
  by (cases s) auto

lemma EscapeLiteral_inject [simp]: "EscapeLiteral s = EscapeLiteral t \<longleftrightarrow> s = t"
  by (metis match_EscapeLiteral)

section \<open>Argument values\<close>

text \<open>
  The dynamic values an argument map can hold. JSON decoding gives strings, float64,
  booleans, nil, maps and slices; the other constructors are the remaining cases of the
  type switches: float32, \<^verbatim>\<open>json.Number\<close>, the signed and unsigned integer types, maps whose
  key is not a string, pointers, and any other kind.
\<close>

datatype goval =
    GString string
  | GFloat64 "64 word"
  | GFloat32 "32 word"
  | GNumber string
  | GInt int
  | GUint nat
  | GBool bool
  | GNil
  | GMap "(string \<times> goval) list"
  | GMapOther
  | GSlice "goval list"
  | GPtr "goval option"
  | GOther

text \<open>
  Floating-point numbers are their IEEE bit patterns. How \<^verbatim>\<open>strconv.FormatFloat(v, 'f', -1, 64)\<close>
  prints one, and what \<^verbatim>\<open>json.Number.Float64\<close> reads, are parameters of the model; no theorem
  needs a property of them.
\<close>

record float_io =
  FormatFloat :: "64 word \<Rightarrow> string"
  WidenFloat32 :: "32 word \<Rightarrow> 64 word"
  NumberFloat64 :: "string \<Rightarrow> 64 word option"

definition FormatBool :: "bool \<Rightarrow> string" where
  "FormatBool b = (if b then ''true'' else ''false'')"

definition hex_digit :: "nat \<Rightarrow> char" where
  "hex_digit n = ''0123456789abcdef'' ! n"

definition quote_byte :: "char \<Rightarrow> string" where
  "quote_byte c =
     (if c = dquote then [backslash, dquote]
      else if c = backslash then [backslash, backslash]
      else if c = CHR 0x08 then [backslash, CHR ''b'']
      else if c = CHR 0x09 then [backslash, CHR ''t'']
      else if c = CHR 0x0A then [backslash, CHR ''n'']
      else if c = CHR 0x0C then [backslash, CHR ''f'']
      else if c = CHR 0x0D then [backslash, CHR ''r'']
      else if (of_char c :: nat) < 32 then
        [backslash, CHR ''u'', CHR ''0'', CHR ''0'',
         hex_digit (of_char c div 16), hex_digit (of_char c mod 16)]
      else [c])"

definition quoteJSON :: "string \<Rightarrow> string" where
  "quoteJSON s = dquote # concat (map quote_byte s) @ [dquote]"

definition format_number :: "float_io \<Rightarrow> string \<Rightarrow> string" where
  "format_number io n = (case NumberFloat64 io n of Some f \<Rightarrow> FormatFloat io f | None \<Rightarrow> n)"

definition render_object :: "(string \<times> string) list \<Rightarrow> string" where
  "render_object parts =
     ''{'' @ Join (map (\<lambda>(k, v). quoteJSON k @ '':'' @ v) (sort_key fst parts)) '','' @ ''}''"

definition render_array :: "string list \<Rightarrow> string" where
  "render_array parts = ''['' @ Join parts '','' @ '']''"

text \<open>The values for which the kind switch behind the pointer loop does not give null.\<close>

fun is_container :: "goval \<Rightarrow> bool" where
  "is_container (GMap m) = True"
| "is_container (GSlice vs) = True"
| "is_container (GPtr p) = True"
| "is_container _ = False"

primrec canonicalJSON :: "float_io \<Rightarrow> goval \<Rightarrow> string" where
  "canonicalJSON io (GString s) = quoteJSON s"
| "canonicalJSON io (GFloat64 f) = FormatFloat io f"
| "canonicalJSON io (GFloat32 f) = FormatFloat io (WidenFloat32 io f)"
| "canonicalJSON io (GNumber n) = format_number io n"
| "canonicalJSON io (GInt i) = FormatInt i"
| "canonicalJSON io (GUint n) = FormatUint n"
| "canonicalJSON io (GBool b) = FormatBool b"
| "canonicalJSON io GNil = ''null''"
| "canonicalJSON io (GMap m) = render_object (map (map_prod id (canonicalJSON io)) m)"
| "canonicalJSON io GMapOther = ''null''"
| "canonicalJSON io (GSlice vs) = render_array (map (canonicalJSON io) vs)"
| "canonicalJSON io (GPtr p) =
     (case (p, map_option (canonicalJSON io) p) of
        (Some v, Some r) \<Rightarrow> if is_container v then r else ''null''
      | _ \<Rightarrow> ''null'')"
| "canonicalJSON io GOther = ''null''"

definition Canonical :: "float_io \<Rightarrow> goval \<Rightarrow> string" where
  "Canonical io v = (case v of GString s \<Rightarrow> s | _ \<Rightarrow> canonicalJSON io v)"

type_synonym arguments = "(string, goval) gomap"
type_synonym params_pattern = "(string, string) gomap"

definition ExactParams :: "float_io \<Rightarrow> arguments \<Rightarrow> params_pattern" where
  "ExactParams io args = map (\<lambda>(key, v). (key, EscapeLiteral (Canonical io v))) args"

section \<open>Validation\<close>

datatype pattern_error =
    ToolLength
  | ToolTrailingEscape
  | ToolInvalidCharacter char
  | ParamsTooMany
  | ParamsInvalidKey string
  | ParamsValueTooLong string
  | ParamsTrailingEscape string

definition tool_char :: "char \<Rightarrow> bool" where
  "tool_char c \<longleftrightarrow>
     c = CHR ''*'' \<or> (CHR ''A'' \<le> c \<and> c \<le> CHR ''Z'') \<or> (CHR ''a'' \<le> c \<and> c \<le> CHR ''z'') \<or>
     (CHR ''0'' \<le> c \<and> c \<le> CHR ''9'') \<or> c \<in> set ''_.:/-''"

fun validate_tool_chars :: "string \<Rightarrow> pattern_error option" where
  "validate_tool_chars [] = None"
| "validate_tool_chars (c # p) =
     (if c = backslash then
        (case p of [] \<Rightarrow> Some ToolTrailingEscape | _ # q \<Rightarrow> validate_tool_chars q)
      else if tool_char c then validate_tool_chars p
      else Some (ToolInvalidCharacter c))"

definition ValidateToolPattern :: "string \<Rightarrow> pattern_error option" where
  "ValidateToolPattern p =
     (if p = [] \<or> 255 < length p then Some ToolLength else validate_tool_chars p)"

text \<open>The number of backslashes at the end of a string.\<close>

definition trailing_backslashes :: "string \<Rightarrow> nat" where
  "trailing_backslashes s = length (takeWhile ((=) backslash) (rev s))"

definition hasEscapedTrailingBackslash :: "string \<Rightarrow> bool" where
  "hasEscapedTrailingBackslash s \<longleftrightarrow> trailing_backslashes s mod 2 = 0"

fun validate_param_entries :: "params_pattern \<Rightarrow> pattern_error option" where
  "validate_param_entries [] = None"
| "validate_param_entries ((key, v) # m) =
     (if key = [] \<or> 255 < length key then Some (ParamsInvalidKey key)
      else if 1024 < length v then Some (ParamsValueTooLong key)
      else if HasSuffix v [backslash] \<and> \<not> hasEscapedTrailingBackslash v
        then Some (ParamsTrailingEscape key)
      else validate_param_entries m)"

definition ValidateParamsPattern :: "params_pattern \<Rightarrow> pattern_error option" where
  "ValidateParamsPattern m =
     (if 64 < length m then Some ParamsTooMany else validate_param_entries m)"

section \<open>Matching an invocation\<close>

fun match_params :: "float_io \<Rightarrow> params_pattern \<Rightarrow> arguments \<Rightarrow> bool" where
  "match_params io [] args = True"
| "match_params io ((key, pattern) # m) args =
     (case map_of args key of
        None \<Rightarrow> False
      | Some v \<Rightarrow> if \<not> match pattern (Canonical io v) then False else match_params io m args)"

definition Matches :: "float_io \<Rightarrow> string \<Rightarrow> params_pattern \<Rightarrow> string \<Rightarrow> arguments \<Rightarrow> bool" where
  "Matches io toolPattern paramsPattern toolName args =
     (if \<not> match toolPattern toolName then False else match_params io paramsPattern args)"

definition Format :: "string \<Rightarrow> params_pattern \<Rightarrow> string" where
  "Format toolPattern paramsPattern =
     (if paramsPattern = [] then toolPattern
      else toolPattern @ ''('' @
        Join (map (\<lambda>key. key @ ''='' @ the (map_of paramsPattern key))
          (sort (map fst paramsPattern))) '','' @ '')'')"

section \<open>Facts about patterns\<close>

lemma match_params_iff:
  "match_params io m args \<longleftrightarrow>
   (\<forall>(key, pattern) \<in> set m. \<exists>v. map_of args key = Some v \<and> match pattern (Canonical io v))"
  by (induction m) (auto split: option.splits if_splits)

lemma Matches_iff:
  "Matches io tp pp tool args \<longleftrightarrow>
   match tp tool \<and>
   (\<forall>(key, pattern) \<in> set pp. \<exists>v. map_of args key = Some v \<and> match pattern (Canonical io v))"
  by (simp add: Matches_def match_params_iff)

lemma set_ExactParams:
  "set (ExactParams io args) = (\<lambda>(key, v). (key, EscapeLiteral (Canonical io v))) ` set args"
  by (simp add: ExactParams_def)

lemma fst_ExactParams [simp]: "map fst (ExactParams io args) = map fst args"
  by (simp add: ExactParams_def case_prod_beta)

lemma Matches_exact:
  "Matches io (EscapeLiteral tool) (ExactParams io args) tool' args' \<longleftrightarrow>
   tool' = tool \<and>
   (\<forall>(key, v) \<in> set args. \<exists>v'. map_of args' key = Some v' \<and> Canonical io v' = Canonical io v)"
  by (auto simp: Matches_iff set_ExactParams)

lemma Matches_exact_self:
  "wf_gomap args \<Longrightarrow> Matches io (EscapeLiteral tool) (ExactParams io args) tool args"
  by (auto simp: Matches_exact)

subsection \<open>Trailing escapes\<close>

text \<open>A glob ends in the middle of an escape: read from the left.\<close>

fun dangling :: "string \<Rightarrow> bool" where
  "dangling [] = False"
| "dangling (c # s) =
     (if c = backslash then (case s of [] \<Rightarrow> True | _ # t \<Rightarrow> dangling t) else dangling s)"

lemma trailing_backslashes_Cons:
  "trailing_backslashes (c # s) =
     (if list_all ((=) backslash) s then length s + (if c = backslash then 1 else 0)
      else trailing_backslashes s)"
proof (cases "list_all ((=) backslash) s")
  case True
  then have "takeWhile ((=) backslash) (rev s @ [c]) = rev s @ takeWhile ((=) backslash) [c]"
    by (intro takeWhile_append2) (simp add: list_all_iff)
  with True show ?thesis
    by (simp add: trailing_backslashes_def)
next
  case False
  then obtain x where "x \<in> set (rev s)" "\<not> backslash = x"
    by (auto simp: list_all_iff)
  then have "takeWhile ((=) backslash) (rev s @ [c]) = takeWhile ((=) backslash) (rev s)"
    by (rule takeWhile_append1)
  with False show ?thesis
    by (simp add: trailing_backslashes_def)
qed

lemma trailing_backslashes_all:
  "list_all ((=) backslash) s \<Longrightarrow> trailing_backslashes s = length s"
  by (cases s) (simp_all add: trailing_backslashes_Cons trailing_backslashes_def [of "[]"])

lemma dangling_odd: "dangling s \<longleftrightarrow> odd (trailing_backslashes s)"
proof (induction s rule: dangling.induct)
  case 1
  then show ?case by (simp add: trailing_backslashes_def)
next
  case (2 c s)
  then show ?case
    by (cases s) (auto simp: trailing_backslashes_Cons trailing_backslashes_all)
qed

lemma HasSuffix_backslash: "HasSuffix s [backslash] \<longleftrightarrow> 0 < trailing_backslashes s"
  by (cases s rule: rev_cases) (auto simp: HasSuffix_def trailing_backslashes_def)

lemma trailing_escape_iff:
  "HasSuffix v [backslash] \<and> \<not> hasEscapedTrailingBackslash v \<longleftrightarrow> dangling v"
  by (auto simp: HasSuffix_backslash hasEscapedTrailingBackslash_def dangling_odd odd_pos
      odd_iff_mod_2_eq_one)

lemma dangling_EscapeLiteral: "\<not> dangling (EscapeLiteral s)"
  by (induction s) auto

definition valid_param :: "string \<times> string \<Rightarrow> bool" where
  "valid_param = (\<lambda>(key, v). key \<noteq> [] \<and> length key \<le> 255 \<and> length v \<le> 1024 \<and> \<not> dangling v)"

lemma validate_param_entries_iff:
  "validate_param_entries m = None \<longleftrightarrow> list_all valid_param m"
  by (induction m) (auto simp: valid_param_def trailing_escape_iff [symmetric] split: if_splits)

lemma validate_tool_chars_EscapeLiteral:
  "validate_tool_chars (EscapeLiteral t) = None \<longleftrightarrow> (\<forall>c \<in> set t. tool_char c \<or> c = backslash)"
  by (induction t) (auto simp: tool_char_def)

subsection \<open>JSON strings\<close>

text \<open>Reading a string as \<^verbatim>\<open>quoteJSON\<close> writes it.\<close>

definition hex_val :: "char \<Rightarrow> nat" where
  "hex_val c = (if is_digit c then of_char c - 48 else of_char c - 87)"

fun unquote_body :: "string \<Rightarrow> string option" where
  "unquote_body [] = None"
| "unquote_body (c # s) =
     (if c = dquote then (if s = [] then Some [] else None)
      else if c = backslash then
        (case s of
           [] \<Rightarrow> None
         | e # t \<Rightarrow>
             if e = CHR ''u'' then
               (case t of
                  z # z' # h # l # u \<Rightarrow> map_option ((#) (char_of (16 * hex_val h + hex_val l))) (unquote_body u)
                | _ \<Rightarrow> None)
             else map_option ((#) (if e = CHR ''b'' then CHR 0x08 else if e = CHR ''t'' then CHR 0x09
                    else if e = CHR ''n'' then CHR 0x0A else if e = CHR ''f'' then CHR 0x0C
                    else if e = CHR ''r'' then CHR 0x0D else e)) (unquote_body t))
      else map_option ((#) c) (unquote_body s))"

definition unquoteJSON :: "string \<Rightarrow> string option" where
  "unquoteJSON s = (case s of [] \<Rightarrow> None | c # t \<Rightarrow> if c = dquote then unquote_body t else None)"

lemma hex_digit_val: "n < 16 \<Longrightarrow> hex_val (hex_digit n) = n"
proof -
  assume "n < 16"
  then have "n \<in> set [0..<16]" by simp
  then show ?thesis
    by (auto simp: upt_rec hex_val_def hex_digit_def is_digit_def less_eq_char_def)
qed

lemma unquote_body_quote_byte:
  "unquote_body (quote_byte c @ s) = map_option ((#) c) (unquote_body s)"
proof -
  have "of_char c div 16 < (16 :: nat)" if "of_char c < (32 :: nat)"
    using that by simp
  moreover have "16 * (of_char c div 16) + of_char c mod 16 = (of_char c :: nat)"
    by simp
  ultimately show ?thesis
    by (simp add: quote_byte_def hex_digit_val)
qed

lemma unquote_quoteJSON: "unquoteJSON (quoteJSON s) = Some s"
proof -
  have "unquote_body (concat (map quote_byte s) @ [dquote]) = Some s"
    by (induction s) (simp_all add: unquote_body_quote_byte)
  then show ?thesis
    by (simp add: unquoteJSON_def quoteJSON_def)
qed

lemma hex_digit_printable: "n < 16 \<Longrightarrow> 32 \<le> (of_char (hex_digit n) :: nat)"
proof -
  assume "n < 16"
  then have "n \<in> set [0..<16]" by simp
  then show ?thesis
    by (auto simp: upt_rec hex_digit_def)
qed

lemma quote_byte_printable: "x \<in> set (quote_byte c) \<Longrightarrow> 32 \<le> (of_char x :: nat)"
  by (auto simp: quote_byte_def hex_digit_printable split: if_splits)

section \<open>Properties\<close>

text \<open>
  C21. The matcher of \<^verbatim>\<open>match\<close>, an index loop with a single backtracking point that ends for
  every input, accepts exactly the language of the glob: a star stands for any string, a
  backslash for the character behind it, every other character for itself.
\<close>

theorem match_accepts_glob_language: "match glob s \<longleftrightarrow> glob_lang glob s"
  by (rule match_glob_lang)

text \<open>
  \<^verbatim>\<open>EscapeLiteral\<close> gives a glob that matches the string it was made from and no other.
\<close>

theorem EscapeLiteral_matches_only_itself: "match (EscapeLiteral s) t \<longleftrightarrow> t = s"
  by (rule match_EscapeLiteral)

text \<open>
  C22. The exact pattern of a tool call (the escaped tool name and \<^verbatim>\<open>ExactParams\<close> of its
  arguments) covers an invocation precisely when the tool is the same and every argument of
  the reviewed call is present with the same canonical rendering.
\<close>

theorem exact_pattern_scope:
  "Matches io (EscapeLiteral tool) (ExactParams io args) tool' args' \<longleftrightarrow>
   tool' = tool \<and>
   (\<forall>key v. (key, v) \<in> set args \<longrightarrow>
      (\<exists>v'. map_of args' key = Some v' \<and> Canonical io v' = Canonical io v))"
  by (auto simp: Matches_exact)

theorem exact_pattern_scope_witness:
  "Matches \<lparr>FormatFloat = (\<lambda>_. ''0''), WidenFloat32 = ucast, NumberFloat64 = (\<lambda>_. None)\<rparr>
     (EscapeLiteral ''get*'')
     (ExactParams \<lparr>FormatFloat = (\<lambda>_. ''0''), WidenFloat32 = ucast, NumberFloat64 = (\<lambda>_. None)\<rparr>
       [(''id'', GString ''a*b'')]) ''get*'' [(''x'', GNil), (''id'', GString ''a*b'')]"
  by (subst exact_pattern_scope) simp

text \<open>
  \<^verbatim>\<open>ValidateParamsPattern\<close>, which counts backslashes from the end of a value, accepts a
  pattern exactly when it has at most 64 entries, every key has 1 to 255 bytes and every value
  has at most 1024 bytes and does not end inside an escape when read from the left.
\<close>

theorem ValidateParamsPattern_accepts:
  "ValidateParamsPattern m = None \<longleftrightarrow> length m \<le> 64 \<and> list_all valid_param m"
  by (auto simp: ValidateParamsPattern_def validate_param_entries_iff)

text \<open>
  \<^verbatim>\<open>quoteJSON\<close> can be read back: every string is recovered from its quoted form, so the
  canonical rendering of nested values never confuses two strings.
\<close>

theorem quoteJSON_roundtrip: "unquoteJSON (quoteJSON s) = Some s"
  by (rule unquote_quoteJSON)

text \<open>
  The tool pattern an approval gets, the escaped tool name, passes \<^verbatim>\<open>ValidateToolPattern\<close>
  exactly when the name is not empty, its escaped form has at most 255 bytes, and every byte
  is one of the permitted characters or a backslash.
\<close>

theorem ValidateToolPattern_EscapeLiteral:
  "ValidateToolPattern (EscapeLiteral t) = None \<longleftrightarrow>
   t \<noteq> [] \<and> length (EscapeLiteral t) \<le> 255 \<and> list_all (\<lambda>c. tool_char c \<or> c = backslash) t"
  by (auto simp: ValidateToolPattern_def validate_tool_chars_EscapeLiteral list_all_iff)

end
