(* ===== verification/Tool_Approval.thy ===== *)
theory Tool_Approval
  imports Tool_Pattern
begin

text \<open>
  The aggregate of \<^verbatim>\<open>internal/domain/storage/tool_approval.go\<close>: status and persistence of an
  approval, the record itself, and its three transitions. A Go pointer field is an option;
  a nil \<^verbatim>\<open>ParamsPattern\<close> map is \<open>None\<close>. A nil argument map and an empty one are identified:
  the loops over it treat them alike, and the HTTP handler refuses nil arguments.
\<close>

type_synonym approval_id = string
type_synonym principal = string
type_synonym agent_id = string

datatype ApprovalStatus =
    ApprovalStatusPending
  | ApprovalStatusApproved
  | ApprovalStatusDenied
  | ApprovalStatusOther string

datatype ApprovalPersistence =
    ApprovalPersistenceOnce
  | ApprovalPersistenceSession
  | ApprovalPersistencePermanent
  | ApprovalPersistenceOther string

fun ApprovalStatus_IsValid :: "ApprovalStatus \<Rightarrow> bool" where
  "ApprovalStatus_IsValid ApprovalStatusPending = True"
| "ApprovalStatus_IsValid ApprovalStatusApproved = True"
| "ApprovalStatus_IsValid ApprovalStatusDenied = True"
| "ApprovalStatus_IsValid (ApprovalStatusOther s) = False"

fun ApprovalPersistence_IsValid :: "ApprovalPersistence \<Rightarrow> bool" where
  "ApprovalPersistence_IsValid ApprovalPersistenceOnce = True"
| "ApprovalPersistence_IsValid ApprovalPersistenceSession = True"
| "ApprovalPersistence_IsValid ApprovalPersistencePermanent = True"
| "ApprovalPersistence_IsValid (ApprovalPersistenceOther s) = False"

record ApprovalDecision =
  adPersistence :: ApprovalPersistence
  adToolPattern :: string
  adParamsPattern :: "params_pattern option"

datatype approval_error =
    AErrNotPending
  | AErrExpired
  | AErrPrincipalMismatch
  | AErrNotApproved
  | AErrNotOnce

record ToolApproval =
  taID :: approval_id
  taPrincipal :: principal
  taAgentID :: agent_id
  taGatewayClientID :: string
  taToolName :: string
  taArguments :: arguments
  taArgumentsHash :: string
  taToolPattern :: string
  taParamsPattern :: "params_pattern option"
  taDescription :: string
  taRiskLevel :: string
  taMCPSessionID :: "string option"
  taAgentSessionID :: "string option"
  taToolInvocationID :: "string option"
  taTraceparent :: "string option"
  taStatus :: ApprovalStatus
  taPersistence :: "ApprovalPersistence option"
  taConsumed :: bool
  taApprovalURL :: string
  taCreatedAt :: time
  taApprovedAt :: "time option"
  taDeniedAt :: "time option"
  taConsumedAt :: "time option"
  taExpiresAt :: time

definition IsExpired :: "ToolApproval \<Rightarrow> time \<Rightarrow> bool" where
  "IsExpired a now = time_after now (taExpiresAt a)"

definition IsActionable :: "ToolApproval \<Rightarrow> time \<Rightarrow> bool" where
  "IsActionable a now \<longleftrightarrow> taStatus a = ApprovalStatusPending \<and> \<not> IsExpired a now"

definition EnsureApprovable :: "ToolApproval \<Rightarrow> principal \<Rightarrow> time \<Rightarrow> approval_error option" where
  "EnsureApprovable a actingPrincipal now =
     (if taPrincipal a \<noteq> actingPrincipal then Some AErrPrincipalMismatch
      else if taStatus a \<noteq> ApprovalStatusPending then Some AErrNotPending
      else if IsExpired a now then Some AErrExpired
      else None)"

text \<open>The field updates of a decision, shared by the aggregate and the in-memory repository.\<close>

definition decide_approve :: "ApprovalDecision \<Rightarrow> time \<Rightarrow> ToolApproval \<Rightarrow> ToolApproval" where
  "decide_approve d now a =
     a\<lparr>taStatus := ApprovalStatusApproved, taPersistence := Some (adPersistence d),
       taToolPattern := adToolPattern d, taParamsPattern := adParamsPattern d,
       taApprovedAt := Some now\<rparr>"

definition decide_deny :: "ApprovalPersistence option \<Rightarrow> time \<Rightarrow> ToolApproval \<Rightarrow> ToolApproval" where
  "decide_deny p now a =
     (let b = a\<lparr>taStatus := ApprovalStatusDenied, taPersistence := p, taDeniedAt := Some now\<rparr>
      in if p = Some ApprovalPersistencePermanent then b\<lparr>taParamsPattern := Some []\<rparr> else b)"

definition decide_consume :: "time \<Rightarrow> ToolApproval \<Rightarrow> ToolApproval" where
  "decide_consume now a = a\<lparr>taConsumed := True, taConsumedAt := Some now\<rparr>"

definition Approve :: "ToolApproval \<Rightarrow> principal \<Rightarrow> ApprovalDecision \<Rightarrow> time \<Rightarrow> approval_error + ToolApproval" where
  "Approve a actingPrincipal d now =
     (case EnsureApprovable a actingPrincipal now of
        Some e \<Rightarrow> Inl e
      | None \<Rightarrow> Inr (decide_approve d now a))"

definition Deny :: "ToolApproval \<Rightarrow> principal \<Rightarrow> ApprovalPersistence option \<Rightarrow> time \<Rightarrow> approval_error + ToolApproval" where
  "Deny a actingPrincipal p now =
     (if taPrincipal a \<noteq> actingPrincipal then Inl AErrPrincipalMismatch
      else if taStatus a \<noteq> ApprovalStatusPending then Inl AErrNotPending
      else if IsExpired a now then Inl AErrExpired
      else Inr (decide_deny p now a))"

definition Consume :: "ToolApproval \<Rightarrow> time \<Rightarrow> approval_error + ToolApproval" where
  "Consume a now =
     (if taStatus a \<noteq> ApprovalStatusApproved then Inl AErrNotApproved
      else if taPersistence a \<noteq> Some ApprovalPersistenceOnce then Inl AErrNotOnce
      else if taConsumed a then Inr a
      else Inr (decide_consume now a))"

lemmas decide_defs = decide_approve_def decide_deny_def decide_consume_def

text \<open>The identity of an approval: what no transition touches.\<close>

definition same_request :: "ToolApproval \<Rightarrow> ToolApproval \<Rightarrow> bool" where
  "same_request a b \<longleftrightarrow>
     taID a = taID b \<and> taPrincipal a = taPrincipal b \<and> taAgentID a = taAgentID b \<and>
     taToolName a = taToolName b \<and> taArguments a = taArguments b \<and>
     taArgumentsHash a = taArgumentsHash b \<and> taExpiresAt a = taExpiresAt b \<and>
     taAgentSessionID a = taAgentSessionID b"

lemma same_request_refl [simp]: "same_request a a"
  by (simp add: same_request_def)

lemma same_request_trans: "same_request a b \<Longrightarrow> same_request b c \<Longrightarrow> same_request a c"
  by (simp add: same_request_def)

lemma same_request_decide [simp]:
  "same_request a (decide_approve d now a)"
  "same_request a (decide_deny p now a)"
  "same_request a (decide_consume now a)"
  "same_request a (a\<lparr>taConsumed := c\<rparr>)"
  by (simp_all add: same_request_def decide_defs Let_def)

lemma decide_approve_fields [simp]:
  "taID (decide_approve d now a) = taID a"
  "taPrincipal (decide_approve d now a) = taPrincipal a"
  "taAgentID (decide_approve d now a) = taAgentID a"
  "taToolName (decide_approve d now a) = taToolName a"
  "taArguments (decide_approve d now a) = taArguments a"
  "taArgumentsHash (decide_approve d now a) = taArgumentsHash a"
  "taStatus (decide_approve d now a) = ApprovalStatusApproved"
  "taPersistence (decide_approve d now a) = Some (adPersistence d)"
  "taToolPattern (decide_approve d now a) = adToolPattern d"
  "taParamsPattern (decide_approve d now a) = adParamsPattern d"
  "taConsumed (decide_approve d now a) = taConsumed a"
  "taExpiresAt (decide_approve d now a) = taExpiresAt a"
  by (simp_all add: decide_approve_def)

lemma decide_deny_fields [simp]:
  "taID (decide_deny p now a) = taID a"
  "taPrincipal (decide_deny p now a) = taPrincipal a"
  "taAgentID (decide_deny p now a) = taAgentID a"
  "taToolName (decide_deny p now a) = taToolName a"
  "taArguments (decide_deny p now a) = taArguments a"
  "taArgumentsHash (decide_deny p now a) = taArgumentsHash a"
  "taStatus (decide_deny p now a) = ApprovalStatusDenied"
  "taPersistence (decide_deny p now a) = p"
  "taConsumed (decide_deny p now a) = taConsumed a"
  "taExpiresAt (decide_deny p now a) = taExpiresAt a"
  by (simp_all add: decide_deny_def Let_def)

lemma decide_consume_fields [simp]:
  "taID (decide_consume now a) = taID a"
  "taPrincipal (decide_consume now a) = taPrincipal a"
  "taAgentID (decide_consume now a) = taAgentID a"
  "taToolName (decide_consume now a) = taToolName a"
  "taArguments (decide_consume now a) = taArguments a"
  "taArgumentsHash (decide_consume now a) = taArgumentsHash a"
  "taStatus (decide_consume now a) = taStatus a"
  "taPersistence (decide_consume now a) = taPersistence a"
  "taToolPattern (decide_consume now a) = taToolPattern a"
  "taParamsPattern (decide_consume now a) = taParamsPattern a"
  "taConsumed (decide_consume now a) = True"
  "taExpiresAt (decide_consume now a) = taExpiresAt a"
  by (simp_all add: decide_consume_def)

lemma EnsureApprovable_None:
  "EnsureApprovable a p now = None \<longleftrightarrow> taPrincipal a = p \<and> IsActionable a now"
  by (auto simp: EnsureApprovable_def IsActionable_def)

lemma Approve_Inr:
  "Approve a p d now = Inr b \<longleftrightarrow>
   taPrincipal a = p \<and> IsActionable a now \<and> b = decide_approve d now a"
  by (auto simp: Approve_def EnsureApprovable_def IsActionable_def split: option.splits if_splits)

lemma Deny_Inr:
  "Deny a p per now = Inr b \<longleftrightarrow>
   taPrincipal a = p \<and> IsActionable a now \<and> b = decide_deny per now a"
  by (auto simp: Deny_def IsActionable_def)

end
