(* ===== verification/Approval_Port.thy ===== *)
theory Approval_Port
  imports Tool_Approval
begin

text \<open>
  The storage ports the approval service depends on (\<^verbatim>\<open>internal/ports/storage.go\<close>):
  \<^verbatim>\<open>ToolApprovalRepository\<close>, \<^verbatim>\<open>ToolApprovalQueryRepository\<close>,
  \<^verbatim>\<open>ToolApprovalMetricsRepository\<close>, \<^verbatim>\<open>ApprovalSyncStateRepository\<close> and
  \<^verbatim>\<open>ApprovalMutationSyncRepository\<close>. A Go interface value is a record of its methods over
  a state type; an operation that reads the clock takes the reading as its first argument.

  The locale \<open>approval_repository\<close> is the contract an adapter promises, over an
  abstraction function from the adapter's state to a map of approvals.
\<close>

record 'st approval_port =
  port_Create :: "time \<Rightarrow> ToolApproval \<Rightarrow> 'st \<Rightarrow> (StorageError + ToolApproval) \<times> 'st"
  port_Get :: "approval_id \<Rightarrow> 'st \<Rightarrow> StorageError + ToolApproval"
  port_Approve :: "time \<Rightarrow> approval_id \<Rightarrow> ApprovalDecision \<Rightarrow> time \<Rightarrow> 'st \<Rightarrow> (StorageError + ToolApproval) \<times> 'st"
  port_Deny :: "time \<Rightarrow> approval_id \<Rightarrow> ApprovalPersistence option \<Rightarrow> time \<Rightarrow> 'st \<Rightarrow> (StorageError + ToolApproval) \<times> 'st"
  port_RevokePermanent :: "approval_id \<Rightarrow> time \<Rightarrow> 'st \<Rightarrow> (StorageError + ToolApproval) \<times> 'st"
  port_Consume :: "approval_id \<Rightarrow> time \<Rightarrow> 'st \<Rightarrow> (StorageError + ToolApproval) \<times> 'st"
  port_ListAllActive :: "time \<Rightarrow> principal option \<Rightarrow> string list \<Rightarrow> 'st \<Rightarrow> StorageError + ToolApproval list"
  port_FindPendingByKey :: "time \<Rightarrow> principal \<Rightarrow> agent_id \<Rightarrow> string \<Rightarrow> string \<Rightarrow> 'st \<Rightarrow> StorageError + ToolApproval option"
  port_ListPermanentByPrincipal :: "principal \<Rightarrow> 'st \<Rightarrow> StorageError + ToolApproval list"
  port_CountPending :: "time \<Rightarrow> principal \<Rightarrow> agent_id \<Rightarrow> 'st \<Rightarrow> StorageError + int"
  port_GetVersion :: "'st \<Rightarrow> StorageError + int"
  port_IncrementVersion :: "'st \<Rightarrow> (StorageError + int) \<times> 'st"
  port_SyncAtomically :: bool

text \<open>Open approvals and the key the partial unique index is about.\<close>

definition pending_open :: "ToolApproval \<Rightarrow> bool" where
  "pending_open a \<longleftrightarrow> taStatus a = ApprovalStatusPending \<and> \<not> taConsumed a"

definition dedup_key :: "ToolApproval \<Rightarrow> principal \<times> agent_id \<times> string \<times> string" where
  "dedup_key a = (taPrincipal a, taAgentID a, taToolName a, taArgumentsHash a)"

definition unique_open :: "(approval_id \<rightharpoonup> ToolApproval) \<Rightarrow> bool" where
  "unique_open m \<longleftrightarrow>
     (\<forall>i j a b. m i = Some a \<longrightarrow> m j = Some b \<longrightarrow> pending_open a \<longrightarrow> pending_open b \<longrightarrow>
        dedup_key a = dedup_key b \<longrightarrow> i = j)"

definition copyParamsPattern :: "params_pattern option \<Rightarrow> params_pattern" where
  "copyParamsPattern params = (case params of None \<Rightarrow> [] | Some m \<Rightarrow> m)"

definition stored_decision :: "ApprovalDecision \<Rightarrow> ApprovalDecision" where
  "stored_decision d = d\<lparr>adParamsPattern := Some (copyParamsPattern (adParamsPattern d))\<rparr>"

definition revoke_permanent :: "time \<Rightarrow> ToolApproval \<Rightarrow> ToolApproval" where
  "revoke_permanent now a =
     a\<lparr>taStatus := ApprovalStatusDenied, taPersistence := None, taDeniedAt := Some now\<rparr>"

definition revocable :: "ToolApproval \<Rightarrow> bool" where
  "revocable a \<longleftrightarrow>
     taPersistence a = Some ApprovalPersistencePermanent \<and>
     (taStatus a = ApprovalStatusApproved \<or> taStatus a = ApprovalStatusDenied)"

definition consumable :: "ToolApproval \<Rightarrow> bool" where
  "consumable a \<longleftrightarrow>
     taStatus a = ApprovalStatusApproved \<and> taPersistence a = Some ApprovalPersistenceOnce"

text \<open>What a create does to an older approval of the same key that has run out.\<close>

definition retire :: "time \<Rightarrow> ToolApproval \<Rightarrow> ToolApproval \<Rightarrow> ToolApproval" where
  "retire now a e =
     (if pending_open e \<and> dedup_key e = dedup_key a \<and> IsExpired e now
      then e\<lparr>taConsumed := True\<rparr> else e)"

definition with_patterns :: "ToolApproval \<Rightarrow> ToolApproval" where
  "with_patterns a = a\<lparr>taParamsPattern := Some (copyParamsPattern (taParamsPattern a))\<rparr>"

text \<open>The approvals a sync response shows.\<close>

definition active :: "time \<Rightarrow> principal option \<Rightarrow> string list \<Rightarrow> ToolApproval \<Rightarrow> bool" where
  "active now filt sessions a \<longleftrightarrow>
     (case filt of None \<Rightarrow> True | Some p \<Rightarrow> taPrincipal a = p) \<and>
     \<not> (taStatus a = ApprovalStatusPending \<and> IsExpired a now) \<and>
     \<not> taConsumed a \<and>
     (taPersistence a = Some ApprovalPersistenceSession \<longrightarrow>
        (\<exists>sid. taAgentSessionID a = Some sid \<and> sid \<noteq> [] \<and> sid \<in> set sessions))"

lemma pending_open_retire: "pending_open (retire now a e) \<Longrightarrow> pending_open e"
  by (auto simp: retire_def pending_open_def split: if_splits)

lemma retire_fields [simp]:
  "taID (retire now a e) = taID e"
  "taPrincipal (retire now a e) = taPrincipal e"
  "taStatus (retire now a e) = taStatus e"
  "taPersistence (retire now a e) = taPersistence e"
  "taToolName (retire now a e) = taToolName e"
  "taArguments (retire now a e) = taArguments e"
  "taToolPattern (retire now a e) = taToolPattern e"
  "taParamsPattern (retire now a e) = taParamsPattern e"
  "taExpiresAt (retire now a e) = taExpiresAt e"
  "dedup_key (retire now a e) = dedup_key e"
  by (simp_all add: retire_def dedup_key_def)

lemma stored_decision_fields [simp]:
  "adPersistence (stored_decision d) = adPersistence d"
  "adToolPattern (stored_decision d) = adToolPattern d"
  "adParamsPattern (stored_decision d) = Some (copyParamsPattern (adParamsPattern d))"
  by (simp_all add: stored_decision_def)

lemma revoke_permanent_fields [simp]:
  "taID (revoke_permanent now a) = taID a"
  "taPrincipal (revoke_permanent now a) = taPrincipal a"
  "taToolName (revoke_permanent now a) = taToolName a"
  "taArguments (revoke_permanent now a) = taArguments a"
  "taStatus (revoke_permanent now a) = ApprovalStatusDenied"
  "taPersistence (revoke_permanent now a) = None"
  "taConsumed (revoke_permanent now a) = taConsumed a"
  "taExpiresAt (revoke_permanent now a) = taExpiresAt a"
  "dedup_key (revoke_permanent now a) = dedup_key a"
  by (simp_all add: revoke_permanent_def dedup_key_def)

lemma with_patterns_fields [simp]:
  "taID (with_patterns a) = taID a"
  "taPrincipal (with_patterns a) = taPrincipal a"
  "taStatus (with_patterns a) = taStatus a"
  "taPersistence (with_patterns a) = taPersistence a"
  "taConsumed (with_patterns a) = taConsumed a"
  "taToolName (with_patterns a) = taToolName a"
  "taArguments (with_patterns a) = taArguments a"
  "taToolPattern (with_patterns a) = taToolPattern a"
  "taParamsPattern (with_patterns a) = Some (copyParamsPattern (taParamsPattern a))"
  "taExpiresAt (with_patterns a) = taExpiresAt a"
  "dedup_key (with_patterns a) = dedup_key a"
  "pending_open (with_patterns a) = pending_open a"
  by (simp_all add: with_patterns_def dedup_key_def pending_open_def)

lemma copyParamsPattern_Some [simp]: "copyParamsPattern (Some m) = m"
  by (simp add: copyParamsPattern_def)

text \<open>Replacing an approval by one that is no longer open keeps open approvals unique.\<close>

lemma unique_open_update:
  "unique_open m \<Longrightarrow> \<not> pending_open b \<Longrightarrow> unique_open (m(i \<mapsto> b))"
  by (auto simp: unique_open_def split: if_splits)

locale approval_repository =
  fixes R :: "'st approval_port"
    and absr :: "'st \<Rightarrow> approval_id \<rightharpoonup> ToolApproval"
    and ver :: "'st \<Rightarrow> int"
    and invar :: "'st \<Rightarrow> bool"
  assumes invar_unique: "invar s \<Longrightarrow> unique_open (absr s)"
    and invar_id: "invar s \<Longrightarrow> absr s i = Some a \<Longrightarrow> taID a = i"
    and get_Some: "invar s \<Longrightarrow> absr s i = Some a \<Longrightarrow> port_Get R i s = Inr a"
    and get_None: "invar s \<Longrightarrow> absr s i = None \<Longrightarrow>
        \<exists>e. port_Get R i s = Inl e \<and> seKind e = ErrorKindNotFound"
    and approve_Inl: "port_Approve R t i d now s = (Inl e, s') \<Longrightarrow> s' = s"
    and approve_Inr: "invar s \<Longrightarrow> port_Approve R t i d now s = (Inr b, s') \<Longrightarrow>
        \<exists>a. absr s i = Some a \<and> IsActionable a t \<and> b = decide_approve (stored_decision d) now a \<and>
            invar s' \<and> absr s' = (absr s)(i \<mapsto> b) \<and> ver s' = ver s"
    and approve_live: "invar s \<Longrightarrow> absr s i = Some a \<Longrightarrow> IsActionable a t \<Longrightarrow> adToolPattern d \<noteq> [] \<Longrightarrow>
        \<exists>b s'. port_Approve R t i d now s = (Inr b, s')"
    and deny_Inl: "port_Deny R t i p now s = (Inl e, s') \<Longrightarrow> s' = s"
    and deny_Inr: "invar s \<Longrightarrow> port_Deny R t i p now s = (Inr b, s') \<Longrightarrow>
        \<exists>a. absr s i = Some a \<and> IsActionable a t \<and> b = decide_deny p now a \<and>
            invar s' \<and> absr s' = (absr s)(i \<mapsto> b) \<and> ver s' = ver s"
    and revoke_Inl: "port_RevokePermanent R i now s = (Inl e, s') \<Longrightarrow> s' = s"
    and revoke_Inr: "invar s \<Longrightarrow> port_RevokePermanent R i now s = (Inr b, s') \<Longrightarrow>
        \<exists>a. absr s i = Some a \<and> revocable a \<and> b = revoke_permanent now a \<and>
            invar s' \<and> absr s' = (absr s)(i \<mapsto> b) \<and> ver s' = ver s"
    and consume_Inl: "port_Consume R i now s = (Inl e, s') \<Longrightarrow> s' = s"
    and consume_Inr: "invar s \<Longrightarrow> port_Consume R i now s = (Inr b, s') \<Longrightarrow>
        \<exists>a. absr s i = Some a \<and> consumable a \<and>
            b = (if taConsumed a then a else decide_consume now a) \<and>
            invar s' \<and> absr s' = (absr s)(i \<mapsto> b) \<and> ver s' = ver s"
    and create_Inl: "port_Create R t a s = (Inl e, s') \<Longrightarrow> s' = s"
    and create_Inr: "invar s \<Longrightarrow> absr s (taID a) = None \<Longrightarrow> port_Create R t a s = (Inr b, s') \<Longrightarrow>
        invar s' \<and> ver s' = ver s \<and>
        (if taID b = taID a
         then b = with_patterns a \<and>
              absr s' = (\<lambda>i. map_option (retire t a) (absr s i))(taID a \<mapsto> b)
         else s' = s \<and> absr s (taID b) = Some b \<and> pending_open b \<and> dedup_key b = dedup_key a \<and>
              \<not> IsExpired b t)"
    and find_Inr: "invar s \<Longrightarrow> port_FindPendingByKey R t pr ag tool h s = Inr r \<Longrightarrow>
        (case r of
           Some b \<Rightarrow> absr s (taID b) = Some b \<and> pending_open b \<and> \<not> IsExpired b t \<and>
             dedup_key b = (pr, ag, tool, h)
         | None \<Rightarrow> \<nexists>i b. absr s i = Some b \<and> pending_open b \<and> \<not> IsExpired b t \<and>
             dedup_key b = (pr, ag, tool, h))"
    and list_Inr: "invar s \<Longrightarrow> port_ListAllActive R t filt sess s = Inr l \<Longrightarrow>
        set l = {a. \<exists>i. absr s i = Some a \<and> active t filt sess a} \<and> distinct (map taID l)"
    and version: "port_GetVersion R s = Inr v \<Longrightarrow> v = ver s"
    and increment_Inl: "port_IncrementVersion R s = (Inl e, s') \<Longrightarrow> s' = s"
    and increment_Inr: "invar s \<Longrightarrow> port_IncrementVersion R s = (Inr v, s') \<Longrightarrow>
        invar s' \<and> absr s' = absr s \<and> ver s' = wrap_int64 (ver s + 1) \<and> v = ver s'"

end
