(* ===== verification/Approval_Store.thy ===== *)
theory Approval_Store
  imports Approval_Port
begin

text \<open>
  The in-memory adapter: \<^verbatim>\<open>internal/adapters/storage/memory/tool_approval_repository.go\<close> and
  \<^verbatim>\<open>approval_sync_state_repository.go\<close>. The mutex makes every method one step. The
  repository hands out deep copies, which are the values themselves here. A method reads the
  clock once; \<^verbatim>\<open>Create\<close> reads it per duplicate it meets, and one reading stands for all.
\<close>

record approval_mem =
  amApprovals :: "(approval_id, ToolApproval) gomap"
  amVersion :: int

definition new_approval_mem :: approval_mem where
  "new_approval_mem = \<lparr>amApprovals = [], amVersion = 0\<rparr>"

definition not_found :: "string \<Rightarrow> string \<Rightarrow> StorageError" where
  "not_found op msg = StorageError op ErrorKindNotFound msg"

text \<open>The loop of \<^verbatim>\<open>Create\<close>: the live duplicate, if one is met, and the entries as the loop
  leaves them.\<close>

fun create_scan ::
  "time \<Rightarrow> ToolApproval \<Rightarrow> (approval_id, ToolApproval) gomap \<Rightarrow>
   ToolApproval option \<times> (approval_id, ToolApproval) gomap" where
  "create_scan now a [] = (None, [])"
| "create_scan now a ((k, existing) # m) =
     (if taPrincipal existing = taPrincipal a \<and> taAgentID existing = taAgentID a \<and>
         taToolName existing = taToolName a \<and> taArgumentsHash existing = taArgumentsHash a \<and>
         taStatus existing = ApprovalStatusPending \<and> \<not> taConsumed existing
      then if IsExpired existing now
           then let (r, m') = create_scan now a m in (r, (k, existing\<lparr>taConsumed := True\<rparr>) # m')
           else (Some existing, (k, existing) # m)
      else let (r, m') = create_scan now a m in (r, (k, existing) # m'))"

definition repo_Create :: "time \<Rightarrow> ToolApproval \<Rightarrow> approval_mem \<Rightarrow> (StorageError + ToolApproval) \<times> approval_mem" where
  "repo_Create now approval s =
     (if taToolPattern approval = [] then
        (Inl (StorageError ''Create'' ErrorKindValidation ''approval tool pattern is required''), s)
      else
        let a = (if taParamsPattern approval = None then approval\<lparr>taParamsPattern := Some []\<rparr> else approval)
        in case create_scan now a (amApprovals s) of
             (Some existing, m) \<Rightarrow> (Inr existing, s\<lparr>amApprovals := m\<rparr>)
           | (None, m) \<Rightarrow> (Inr a, s\<lparr>amApprovals := AList.update (taID a) a m\<rparr>))"

definition repo_Get :: "approval_id \<Rightarrow> approval_mem \<Rightarrow> StorageError + ToolApproval" where
  "repo_Get approvalID s =
     (case map_of (amApprovals s) approvalID of
        None \<Rightarrow> Inl (not_found ''Get'' ''approval not found'')
      | Some a \<Rightarrow> Inr a)"

definition put :: "approval_id \<Rightarrow> ToolApproval \<Rightarrow> approval_mem \<Rightarrow> approval_mem" where
  "put i a s = s\<lparr>amApprovals := AList.update i a (amApprovals s)\<rparr>"

definition repo_Approve ::
  "time \<Rightarrow> approval_id \<Rightarrow> ApprovalDecision \<Rightarrow> time \<Rightarrow> approval_mem \<Rightarrow> (StorageError + ToolApproval) \<times> approval_mem" where
  "repo_Approve now approvalID decision approvedAt s =
     (if adToolPattern decision = [] then
        (Inl (StorageError ''Approve'' ErrorKindValidation ''approval tool pattern is required''), s)
      else case map_of (amApprovals s) approvalID of
        None \<Rightarrow> (Inl (not_found ''Approve'' ''approval not found or not pending''), s)
      | Some a \<Rightarrow>
          if taStatus a \<noteq> ApprovalStatusPending \<or> IsExpired a now
          then (Inl (not_found ''Approve'' ''approval not found or not pending''), s)
          else let b = a\<lparr>taStatus := ApprovalStatusApproved,
                         taPersistence := Some (adPersistence decision),
                         taToolPattern := adToolPattern decision,
                         taParamsPattern := Some (copyParamsPattern (adParamsPattern decision)),
                         taApprovedAt := Some approvedAt\<rparr>
               in (Inr b, put approvalID b s))"

definition repo_Deny ::
  "time \<Rightarrow> approval_id \<Rightarrow> ApprovalPersistence option \<Rightarrow> time \<Rightarrow> approval_mem \<Rightarrow> (StorageError + ToolApproval) \<times> approval_mem" where
  "repo_Deny now approvalID persistence deniedAt s =
     (case map_of (amApprovals s) approvalID of
        None \<Rightarrow> (Inl (not_found ''Deny'' ''approval not found or not pending''), s)
      | Some a \<Rightarrow>
          if taStatus a \<noteq> ApprovalStatusPending \<or> IsExpired a now
          then (Inl (not_found ''Deny'' ''approval not found or not pending''), s)
          else let b = a\<lparr>taStatus := ApprovalStatusDenied, taPersistence := persistence,
                         taDeniedAt := Some deniedAt\<rparr>;
                   c = (if persistence = Some ApprovalPersistencePermanent
                        then b\<lparr>taParamsPattern := Some []\<rparr> else b)
               in (Inr c, put approvalID c s))"

definition repo_RevokePermanent ::
  "approval_id \<Rightarrow> time \<Rightarrow> approval_mem \<Rightarrow> (StorageError + ToolApproval) \<times> approval_mem" where
  "repo_RevokePermanent approvalID revokedAt s =
     (case map_of (amApprovals s) approvalID of
        None \<Rightarrow> (Inl (not_found ''RevokePermanent'' ''approval not found or not permanently approved or denied''), s)
      | Some a \<Rightarrow>
          if taPersistence a \<noteq> Some ApprovalPersistencePermanent \<or>
             (taStatus a \<noteq> ApprovalStatusApproved \<and> taStatus a \<noteq> ApprovalStatusDenied)
          then (Inl (not_found ''RevokePermanent'' ''approval not found or not permanently approved or denied''), s)
          else let b = a\<lparr>taStatus := ApprovalStatusDenied, taPersistence := None,
                         taDeniedAt := Some revokedAt\<rparr>
               in (Inr b, put approvalID b s))"

definition repo_Consume ::
  "approval_id \<Rightarrow> time \<Rightarrow> approval_mem \<Rightarrow> (StorageError + ToolApproval) \<times> approval_mem" where
  "repo_Consume approvalID consumedAt s =
     (case map_of (amApprovals s) approvalID of
        None \<Rightarrow> (Inl (not_found ''Consume'' ''approval not found''), s)
      | Some a \<Rightarrow>
          if taStatus a \<noteq> ApprovalStatusApproved \<or> taPersistence a \<noteq> Some ApprovalPersistenceOnce
          then (Inl (StorageError ''Consume'' ErrorKindValidation
                  ''only once-persistence approved approvals can be consumed''), s)
          else if taConsumed a then (Inr a, s)
          else let b = a\<lparr>taConsumed := True, taConsumedAt := Some consumedAt\<rparr>
               in (Inr b, put approvalID b s))"

text \<open>One pass of the loop of \<^verbatim>\<open>ListAllActive\<close>: the sequence of its \<^verbatim>\<open>continue\<close> tests.\<close>

definition list_keeps :: "time \<Rightarrow> principal option \<Rightarrow> string list \<Rightarrow> ToolApproval \<Rightarrow> bool" where
  "list_keeps now principalFilter activeSessions a =
     (if (case principalFilter of None \<Rightarrow> False | Some p \<Rightarrow> taPrincipal a \<noteq> p) then False
      else if taStatus a = ApprovalStatusPending \<and> IsExpired a now then False
      else if taConsumed a then False
      else if taPersistence a = Some ApprovalPersistenceSession \<and>
              (taAgentSessionID a = None \<or> taAgentSessionID a = Some []) then False
      else if taPersistence a = Some ApprovalPersistenceSession \<and>
              \<not> (the (taAgentSessionID a) \<in> set activeSessions) then False
      else True)"

definition repo_ListAllActive ::
  "time \<Rightarrow> principal option \<Rightarrow> string list \<Rightarrow> approval_mem \<Rightarrow> StorageError + ToolApproval list" where
  "repo_ListAllActive now principalFilter activeAgentSessionIDs s =
     Inr (filter (list_keeps now principalFilter activeAgentSessionIDs) (map snd (amApprovals s)))"

definition repo_FindPendingByKey ::
  "time \<Rightarrow> principal \<Rightarrow> agent_id \<Rightarrow> string \<Rightarrow> string \<Rightarrow> approval_mem \<Rightarrow> StorageError + ToolApproval option" where
  "repo_FindPendingByKey now p agentID toolName argumentsHash s =
     Inr (find (\<lambda>a. taPrincipal a = p \<and> taAgentID a = agentID \<and> taToolName a = toolName \<and>
            taArgumentsHash a = argumentsHash \<and> taStatus a = ApprovalStatusPending \<and>
            \<not> taConsumed a \<and> \<not> IsExpired a now) (map snd (amApprovals s)))"

definition repo_ListPermanentByPrincipal ::
  "principal \<Rightarrow> approval_mem \<Rightarrow> StorageError + ToolApproval list" where
  "repo_ListPermanentByPrincipal p s =
     Inr (filter (\<lambda>a. taPrincipal a = p \<and> taPersistence a = Some ApprovalPersistencePermanent)
            (map snd (amApprovals s)))"

definition repo_CountPending :: "time \<Rightarrow> principal \<Rightarrow> agent_id \<Rightarrow> approval_mem \<Rightarrow> StorageError + int" where
  "repo_CountPending now p agentID s =
     Inr (int (length (filter (\<lambda>a. taPrincipal a = p \<and> taAgentID a = agentID \<and>
            taStatus a = ApprovalStatusPending \<and> \<not> IsExpired a now) (map snd (amApprovals s)))))"

definition repo_GetVersion :: "approval_mem \<Rightarrow> StorageError + int" where
  "repo_GetVersion s = Inr (amVersion s)"

definition repo_IncrementVersion :: "approval_mem \<Rightarrow> (StorageError + int) \<times> approval_mem" where
  "repo_IncrementVersion s =
     (let v = wrap_int64 (amVersion s + 1) in (Inr v, s\<lparr>amVersion := v\<rparr>))"

definition memory_port :: "approval_mem approval_port" where
  "memory_port =
     \<lparr>port_Create = repo_Create, port_Get = repo_Get, port_Approve = repo_Approve,
      port_Deny = repo_Deny, port_RevokePermanent = repo_RevokePermanent,
      port_Consume = repo_Consume, port_ListAllActive = repo_ListAllActive,
      port_FindPendingByKey = repo_FindPendingByKey,
      port_ListPermanentByPrincipal = repo_ListPermanentByPrincipal,
      port_CountPending = repo_CountPending, port_GetVersion = repo_GetVersion,
      port_IncrementVersion = repo_IncrementVersion, port_SyncAtomically = False\<rparr>"

lemmas repo_defs =
  repo_Create_def repo_Get_def repo_Approve_def repo_Deny_def repo_RevokePermanent_def
  repo_Consume_def repo_ListAllActive_def repo_FindPendingByKey_def
  repo_ListPermanentByPrincipal_def repo_CountPending_def repo_GetVersion_def
  repo_IncrementVersion_def put_def

section \<open>The store as a map\<close>

definition mem_abs :: "approval_mem \<Rightarrow> approval_id \<rightharpoonup> ToolApproval" where
  "mem_abs s = map_of (amApprovals s)"

definition mem_invar :: "approval_mem \<Rightarrow> bool" where
  "mem_invar s \<longleftrightarrow>
     wf_gomap (amApprovals s) \<and> (\<forall>i a. mem_abs s i = Some a \<longrightarrow> taID a = i) \<and>
     unique_open (mem_abs s)"

lemma mem_abs_put [simp]: "mem_abs (put i a s) = (mem_abs s)(i \<mapsto> a)"
  by (simp add: mem_abs_def put_def go_map_simps)

lemma amVersion_put [simp]: "amVersion (put i a s) = amVersion s"
  by (simp add: put_def)

lemma mem_invar_put:
  "mem_invar s \<Longrightarrow> taID a = i \<Longrightarrow> \<not> pending_open a \<Longrightarrow> mem_invar (put i a s)"
  by (auto simp: mem_invar_def put_def mem_abs_def go_map_simps
      intro: unique_open_update)

lemma dup_test:
  "taPrincipal e = taPrincipal a \<and> taAgentID e = taAgentID a \<and> taToolName e = taToolName a \<and>
   taArgumentsHash e = taArgumentsHash a \<and> taStatus e = ApprovalStatusPending \<and> \<not> taConsumed e \<longleftrightarrow>
   pending_open e \<and> dedup_key e = dedup_key a"
  by (auto simp: pending_open_def dedup_key_def)

lemma create_scan_Cons:
  "create_scan now a ((k, e) # m) =
     (if pending_open e \<and> dedup_key e = dedup_key a
      then if IsExpired e now
           then let (r, m') = create_scan now a m in (r, (k, e\<lparr>taConsumed := True\<rparr>) # m')
           else (Some e, (k, e) # m)
      else let (r, m') = create_scan now a m in (r, (k, e) # m'))"
  by (simp only: create_scan.simps dup_test)

declare create_scan.simps(2) [simp del]

lemma create_scan_None:
  "create_scan now a m = (None, m') \<Longrightarrow>
   m' = map (\<lambda>(k, e). (k, retire now a e)) m \<and>
   (\<forall>(k, e) \<in> set m. pending_open e \<longrightarrow> dedup_key e = dedup_key a \<longrightarrow> IsExpired e now)"
proof (induction m arbitrary: m')
  case Nil
  then show ?case by simp
next
  case (Cons x m)
  obtain k e where x: "x = (k, e)" by force
  with Cons.prems obtain m'' where m'': "create_scan now a m = (None, m'')"
    by (auto simp: create_scan_Cons Let_def split: if_splits prod.splits)
  with Cons.prems x Cons.IH [OF m''] show ?case
    by (auto simp: create_scan_Cons retire_def split: if_splits)
qed

lemma create_scan_Some:
  assumes "create_scan now a m = (Some b, m')" and "wf_gomap m" and "unique_open (map_of m)"
  shows "m' = m \<and> b \<in> snd ` set m \<and> pending_open b \<and> dedup_key b = dedup_key a \<and> \<not> IsExpired b now"
  using assms
proof (induction m arbitrary: m')
  case Nil
  then show ?case by simp
next
  case (Cons x m)
  obtain k e where x: "x = (k, e)" by force
  have uniq: "unique_open (map_of m)"
    unfolding unique_open_def
  proof (intro allI impI)
    fix i j c d
    assume h: "map_of m i = Some c" "map_of m j = Some d" "pending_open c" "pending_open d"
      "dedup_key c = dedup_key d"
    then have "i \<in> fst ` set m" "j \<in> fst ` set m"
      by (auto simp: dom_map_of_conv_image_fst [symmetric])
    with Cons.prems(2) x have "i \<noteq> k" "j \<noteq> k" by auto
    with Cons.prems(3) h x show "i = j"
      unfolding unique_open_def by (metis fun_upd_other map_of_Cons_code(2))
  qed
  show ?case
  proof (cases "pending_open e \<and> dedup_key e = dedup_key a")
    case False
    with Cons.prems(1) x obtain m'' where "create_scan now a m = (Some b, m'')" "m' = (k, e) # m''"
      by (auto simp: create_scan_Cons Let_def split: prod.splits)
    with Cons.IH Cons.prems(2) uniq x show ?thesis by auto
  next
    case True
    show ?thesis
    proof (cases "IsExpired e now")
      case False
      with True Cons.prems(1) x show ?thesis
        by (auto simp: create_scan_Cons)
    next
      case exp: True
      with True Cons.prems(1) x obtain m'' where "create_scan now a m = (Some b, m'')"
        by (auto simp: create_scan_Cons Let_def split: prod.splits)
      with Cons.IH Cons.prems(2) uniq x have b: "b \<in> snd ` set m" "pending_open b" "dedup_key b = dedup_key a"
        by auto
      then obtain j where j: "(j, b) \<in> set m" by auto
      with Cons.prems(2) x have "map_of (x # m) j = Some b" "map_of (x # m) k = Some e" "j \<noteq> k"
        by (auto intro: map_of_is_SomeI simp: rev_image_eqI)
      with Cons.prems(3) b True show ?thesis
        unfolding unique_open_def by metis
    qed
  qed
qed

lemma unique_open_create:
  assumes "unique_open m"
    and "\<forall>i e. m i = Some e \<longrightarrow> pending_open e \<longrightarrow> dedup_key e = dedup_key a \<longrightarrow> IsExpired e now"
    and "dedup_key b = dedup_key a"
  shows "unique_open ((\<lambda>i. map_option (retire now a) (m i))(k \<mapsto> b))"
  unfolding unique_open_def
proof (intro allI impI)
  fix i j c d
  assume c: "((\<lambda>i. map_option (retire now a) (m i))(k \<mapsto> b)) i = Some c"
    and d: "((\<lambda>i. map_option (retire now a) (m i))(k \<mapsto> b)) j = Some d"
    and o: "pending_open c" "pending_open d" and key: "dedup_key c = dedup_key d"
  have other: "dedup_key c' \<noteq> dedup_key a"
    if "m i' = Some e" "c' = retire now a e" "pending_open c'" for i' e c'
    using that assms(2) by (auto simp: retire_def pending_open_def split: if_splits)
  show "i = j"
  proof (cases "i = k \<or> j = k")
    case True
    with c d o key other assms(3) show ?thesis
      by (auto split: if_splits)
  next
    case False
    with c d o key assms(1) show ?thesis
      by (auto simp: unique_open_def) (metis pending_open_retire)
  qed
qed

lemma repo_Create_spec:
  assumes inv: "mem_invar s" and fresh: "mem_abs s (taID a) = None"
    and eq: "repo_Create t a s = (Inr b, s')"
  shows "mem_invar s' \<and> amVersion s' = amVersion s \<and>
    (if taID b = taID a
     then b = with_patterns a \<and> mem_abs s' = (\<lambda>i. map_option (retire t a) (mem_abs s i))(taID a \<mapsto> b)
     else s' = s \<and> mem_abs s (taID b) = Some b \<and> pending_open b \<and> dedup_key b = dedup_key a \<and>
          \<not> IsExpired b t)"
proof -
  let ?a = "if taParamsPattern a = None then a\<lparr>taParamsPattern := Some []\<rparr> else a"
  have a': "?a = with_patterns a"
    by (auto simp: with_patterns_def copyParamsPattern_def split: option.splits)
  have key: "dedup_key (with_patterns a) = dedup_key a" by simp
  have ret: "retire t (with_patterns a) = retire t a"
    by (simp add: fun_eq_iff retire_def)
  obtain r m where scan: "create_scan t (with_patterns a) (amApprovals s) = (r, m)" by force
  show ?thesis
  proof (cases r)
    case None
    with eq scan have b: "b = with_patterns a"
      and s': "s' = s\<lparr>amApprovals := AList.update (taID a) b m\<rparr>"
      by (auto simp: repo_Create_def a' Let_def split: if_splits)
    from create_scan_None [OF scan [unfolded None]]
    have m: "m = map (\<lambda>(k, e). (k, retire t a e)) (amApprovals s)"
      and exp: "\<forall>(k, e) \<in> set (amApprovals s). pending_open e \<longrightarrow> dedup_key e = dedup_key a \<longrightarrow> IsExpired e t"
      by (auto simp: ret)
    have abs': "mem_abs s' = (\<lambda>i. map_option (retire t a) (mem_abs s i))(taID a \<mapsto> b)"
      by (simp add: mem_abs_def s' m go_map_simps fun_eq_iff)
    have "\<forall>i e. mem_abs s i = Some e \<longrightarrow> pending_open e \<longrightarrow> dedup_key e = dedup_key a \<longrightarrow> IsExpired e t"
      using exp by (auto simp: mem_abs_def dest!: map_of_SomeD)
    then have "unique_open (mem_abs s')"
      unfolding abs' using inv b by (intro unique_open_create) (auto simp: mem_invar_def)
    moreover have "wf_gomap (amApprovals s')"
      using inv by (simp add: s' m mem_invar_def)
    ultimately have "mem_invar s'"
      using inv by (auto simp: mem_invar_def abs' b split: if_splits)
    with abs' b s' show ?thesis by simp
  next
    case (Some e)
    from inv have "wf_gomap (amApprovals s)" "unique_open (map_of (amApprovals s))"
      by (auto simp: mem_invar_def mem_abs_def)
    from create_scan_Some [OF scan [unfolded Some] this] eq scan Some
    have b: "b = e" "s' = s" "b \<in> snd ` set (amApprovals s)" "pending_open b" "dedup_key b = dedup_key a"
      "\<not> IsExpired b t"
      by (auto simp: repo_Create_def a' split: if_splits)
    then obtain i where "mem_abs s i = Some b"
      using inv by (auto simp: mem_abs_def mem_invar_def)
    with inv have "mem_abs s (taID b) = Some b"
      by (auto simp: mem_invar_def)
    with b inv fresh show ?thesis by auto
  qed
qed

lemma mem_active: "list_keeps = active"
  by (auto simp: fun_eq_iff list_keeps_def active_def split: option.splits)

lemma find_None_iff_snd:
  "find P (map snd m) = None \<longleftrightarrow> (\<forall>(k, v) \<in> set m. \<not> P v)"
  by (auto simp: find_None_iff)

lemma distinct_ids:
  "wf_gomap m \<Longrightarrow> (\<forall>i a. map_of m i = Some a \<longrightarrow> taID a = i) \<Longrightarrow> map taID (map snd m) = map fst m"
  by (auto simp: map_of_mem_iff [symmetric])

lemma memory_port_sel [simp]:
  "port_Create memory_port = repo_Create"
  "port_Get memory_port = repo_Get"
  "port_Approve memory_port = repo_Approve"
  "port_Deny memory_port = repo_Deny"
  "port_RevokePermanent memory_port = repo_RevokePermanent"
  "port_Consume memory_port = repo_Consume"
  "port_ListAllActive memory_port = repo_ListAllActive"
  "port_FindPendingByKey memory_port = repo_FindPendingByKey"
  "port_ListPermanentByPrincipal memory_port = repo_ListPermanentByPrincipal"
  "port_CountPending memory_port = repo_CountPending"
  "port_GetVersion memory_port = repo_GetVersion"
  "port_IncrementVersion memory_port = repo_IncrementVersion"
  "port_SyncAtomically memory_port = False"
  by (simp_all add: memory_port_def)

lemma repo_Approve_Inr:
  assumes "mem_invar s" and "repo_Approve t i d now s = (Inr b, s')"
  shows "\<exists>a. mem_abs s i = Some a \<and> IsActionable a t \<and> b = decide_approve (stored_decision d) now a \<and>
    mem_invar s' \<and> mem_abs s' = (mem_abs s)(i \<mapsto> b) \<and> amVersion s' = amVersion s"
proof -
  from assms(2) obtain a where a: "mem_abs s i = Some a" "IsActionable a t"
    "b = decide_approve (stored_decision d) now a" "s' = put i b s"
    by (auto simp: repo_Approve_def mem_abs_def IsActionable_def decide_approve_def Let_def
        split: if_splits option.splits)
  moreover have "taID b = i" "\<not> pending_open b"
    using assms(1) a by (auto simp: mem_invar_def pending_open_def)
  ultimately show ?thesis
    using assms(1) by (auto intro: mem_invar_put)
qed

lemma repo_Deny_Inr:
  assumes "mem_invar s" and "repo_Deny t i p now s = (Inr b, s')"
  shows "\<exists>a. mem_abs s i = Some a \<and> IsActionable a t \<and> b = decide_deny p now a \<and>
    mem_invar s' \<and> mem_abs s' = (mem_abs s)(i \<mapsto> b) \<and> amVersion s' = amVersion s"
proof -
  from assms(2) obtain a where a: "mem_abs s i = Some a" "IsActionable a t"
    "b = decide_deny p now a" "s' = put i b s"
    by (auto simp: repo_Deny_def mem_abs_def IsActionable_def decide_deny_def Let_def
        split: if_splits option.splits)
  moreover have "taID b = i" "\<not> pending_open b"
    using assms(1) a by (auto simp: mem_invar_def pending_open_def)
  ultimately show ?thesis
    using assms(1) by (auto intro: mem_invar_put)
qed

lemma repo_RevokePermanent_Inr:
  assumes "mem_invar s" and "repo_RevokePermanent i now s = (Inr b, s')"
  shows "\<exists>a. mem_abs s i = Some a \<and> revocable a \<and> b = revoke_permanent now a \<and>
    mem_invar s' \<and> mem_abs s' = (mem_abs s)(i \<mapsto> b) \<and> amVersion s' = amVersion s"
proof -
  from assms(2) obtain a where a: "mem_abs s i = Some a" "revocable a"
    "b = revoke_permanent now a" "s' = put i b s"
    by (auto simp: repo_RevokePermanent_def mem_abs_def revocable_def revoke_permanent_def Let_def
        split: if_splits option.splits)
  moreover have "taID b = i" "\<not> pending_open b"
    using assms(1) a by (auto simp: mem_invar_def pending_open_def)
  ultimately show ?thesis
    using assms(1) by (auto intro: mem_invar_put)
qed

lemma repo_Consume_Inr:
  assumes "mem_invar s" and "repo_Consume i now s = (Inr b, s')"
  shows "\<exists>a. mem_abs s i = Some a \<and> consumable a \<and> b = (if taConsumed a then a else decide_consume now a) \<and>
    mem_invar s' \<and> mem_abs s' = (mem_abs s)(i \<mapsto> b) \<and> amVersion s' = amVersion s"
proof -
  from assms(2) obtain a where a: "mem_abs s i = Some a" "consumable a"
    "b = (if taConsumed a then a else decide_consume now a)" "s' = (if taConsumed a then s else put i b s)"
    by (auto simp: repo_Consume_def mem_abs_def consumable_def decide_consume_def Let_def
        split: if_splits option.splits)
  moreover have "taID b = i" "\<not> pending_open b"
    using assms(1) a by (auto simp: mem_invar_def pending_open_def consumable_def)
  ultimately show ?thesis
    using assms(1) by (auto intro: mem_invar_put simp: fun_upd_idem)
qed

lemma repo_Find_spec:
  assumes "mem_invar s" and "repo_FindPendingByKey t pr ag tool h s = Inr r"
  shows "case r of
      Some b \<Rightarrow> mem_abs s (taID b) = Some b \<and> pending_open b \<and> \<not> IsExpired b t \<and>
        dedup_key b = (pr, ag, tool, h)
    | None \<Rightarrow> \<nexists>i b. mem_abs s i = Some b \<and> pending_open b \<and> \<not> IsExpired b t \<and>
        dedup_key b = (pr, ag, tool, h)"
proof (cases r)
  case None
  with assms(2) show ?thesis
    by (auto simp: repo_FindPendingByKey_def find_None_iff_snd mem_abs_def pending_open_def dedup_key_def
        dest!: map_of_SomeD)
next
  case (Some b)
  with assms(2) have "b \<in> snd ` set (amApprovals s)"
    and b: "pending_open b" "\<not> IsExpired b t" "dedup_key b = (pr, ag, tool, h)"
    by (auto simp: repo_FindPendingByKey_def pending_open_def dedup_key_def dest!: find_SomeD)
  then obtain i where "mem_abs s i = Some b"
    using assms(1) by (auto simp: mem_abs_def mem_invar_def)
  with assms(1) have "mem_abs s (taID b) = Some b"
    by (auto simp: mem_invar_def)
  with b Some show ?thesis by simp
qed

lemma repo_List_spec:
  assumes "mem_invar s" and "repo_ListAllActive t filt sess s = Inr l"
  shows "set l = {a. \<exists>i. mem_abs s i = Some a \<and> active t filt sess a} \<and> distinct (map taID l)"
proof -
  from assms(2) have l: "l = filter (active t filt sess) (map snd (amApprovals s))"
    by (simp add: repo_ListAllActive_def mem_active)
  from assms(1) have ids: "map taID (map snd (amApprovals s)) = map fst (amApprovals s)"
    by (intro distinct_ids) (auto simp: mem_invar_def mem_abs_def)
  have "distinct (map taID (map snd (amApprovals s)))"
    unfolding ids using assms(1) by (simp add: mem_invar_def)
  then have "distinct (map taID l)"
    unfolding l by (rule distinct_map_filter)
  moreover have "set l = {a. \<exists>i. mem_abs s i = Some a \<and> active t filt sess a}"
    using assms(1) by (force simp: l mem_abs_def mem_invar_def)
  ultimately show ?thesis by simp
qed

text \<open>A method that fails leaves the store as it was.\<close>

lemma repo_Inl_unchanged:
  "repo_Approve t i d now s = (Inl e, s') \<Longrightarrow> s' = s"
  "repo_Deny t i p now s = (Inl e, s') \<Longrightarrow> s' = s"
  "repo_RevokePermanent i now s = (Inl e, s') \<Longrightarrow> s' = s"
  "repo_Consume i now s = (Inl e, s') \<Longrightarrow> s' = s"
  "repo_Create t a s = (Inl e, s') \<Longrightarrow> s' = s"
  by (auto simp: repo_Approve_def repo_Deny_def repo_RevokePermanent_def repo_Consume_def
      repo_Create_def Let_def split: if_splits option.splits prod.splits)

text \<open>The in-memory adapter keeps the contract of the port.\<close>

interpretation mem: approval_repository memory_port mem_abs amVersion mem_invar
proof (unfold_locales, goal_cases)
  case (1 s) then show ?case by (simp add: mem_invar_def)
next
  case (2 s i a) then show ?case by (simp add: mem_invar_def)
next
  case (3 s i a) then show ?case by (simp add: repo_Get_def mem_abs_def)
next
  case (4 s i) then show ?case by (simp add: repo_Get_def mem_abs_def not_found_def)
next
  case (5 t i d now s e s') then show ?case using repo_Inl_unchanged(1) by simp
next
  case (6 s t i d now b s') then show ?case using repo_Approve_Inr by simp
next
  case (7 s i a t d now)
  then show ?case by (simp add: repo_Approve_def mem_abs_def IsActionable_def Let_def)
next
  case (8 t i p now s e s') then show ?case using repo_Inl_unchanged(2) by simp
next
  case (9 s t i p now b s') then show ?case using repo_Deny_Inr by simp
next
  case (10 i now s e s') then show ?case using repo_Inl_unchanged(3) by simp
next
  case (11 s i now b s') then show ?case using repo_RevokePermanent_Inr by simp
next
  case (12 i now s e s') then show ?case using repo_Inl_unchanged(4) by simp
next
  case (13 s i now b s') then show ?case using repo_Consume_Inr by simp
next
  case (14 t a s e s') then show ?case using repo_Inl_unchanged(5) by simp
next
  case (15 s a t b s') then show ?case using repo_Create_spec [of s a t b s'] by simp
next
  case (16 s t pr ag tool h r) then show ?case using repo_Find_spec [of s t pr ag tool h r] by simp
next
  case (17 s t filt sess l) then show ?case using repo_List_spec by simp
next
  case (18 s v) then show ?case by (simp add: repo_GetVersion_def)
next
  case (19 s e s') then show ?case by (simp add: repo_IncrementVersion_def Let_def)
next
  case (20 s v s')
  then show ?case by (auto simp: repo_IncrementVersion_def Let_def mem_invar_def mem_abs_def)
qed

end
