(* ===== verification/Approval_Broadcast.thy ===== *)
theory Approval_Broadcast
  imports Go_Strings
begin

text \<open>
  \<^verbatim>\<open>internal/domain/approval/sync_broadcaster.go\<close> and \<^verbatim>\<open>rate_limiter.go\<close>.

  A subscriber channel has a buffer of one signal, so its state is a boolean: a signal is
  waiting or not. A pending coalesce timer is the flag \<open>coalescePending\<close>; its firing is a
  step of its own. The token bucket of \<^verbatim>\<open>golang.org/x/time/rate\<close> is a parameter.
\<close>

section \<open>Broadcaster\<close>

type_synonym chan = nat

record broadcaster =
  subscribers :: "(chan, bool) gomap"
  coalesceWindow :: duration
  coalescePending :: bool
  nextChan :: chan

definition NewApprovalSyncBroadcaster :: "duration \<Rightarrow> broadcaster" where
  "NewApprovalSyncBroadcaster w =
     \<lparr>subscribers = [], coalesceWindow = w, coalescePending = False, nextChan = 0\<rparr>"

definition Subscribe :: "broadcaster \<Rightarrow> chan \<times> broadcaster" where
  "Subscribe b =
     (let ch = nextChan b
      in (ch, b\<lparr>subscribers := AList.update ch False (subscribers b), nextChan := Suc ch\<rparr>))"

definition Unsubscribe :: "chan \<Rightarrow> broadcaster \<Rightarrow> broadcaster" where
  "Unsubscribe ch b = b\<lparr>subscribers := AList.delete ch (subscribers b)\<rparr>"

text \<open>A send to a channel that already holds a signal is dropped: the signal stays.\<close>

definition notifyAll :: "broadcaster \<Rightarrow> broadcaster" where
  "notifyAll b = b\<lparr>subscribers := map (\<lambda>(ch, _). (ch, True)) (subscribers b)\<rparr>"

definition Broadcast :: "broadcaster \<Rightarrow> broadcaster" where
  "Broadcast b =
     (if coalesceWindow b \<le> 0 then notifyAll b
      else if coalescePending b then b
      else b\<lparr>coalescePending := True\<rparr>)"

text \<open>The function the timer runs when the coalesce window is over.\<close>

definition coalesce_fire :: "broadcaster \<Rightarrow> broadcaster" where
  "coalesce_fire b = notifyAll (b\<lparr>coalescePending := False\<rparr>)"

text \<open>A waiting handler takes the signal out of its channel.\<close>

definition receive :: "chan \<Rightarrow> broadcaster \<Rightarrow> broadcaster" where
  "receive ch b = b\<lparr>subscribers := AList.update ch False (subscribers b)\<rparr>"

definition signalled :: "chan \<Rightarrow> broadcaster \<Rightarrow> bool" where
  "signalled ch b \<longleftrightarrow> map_of (subscribers b) ch = Some True"

lemma subscribers_notifyAll:
  "map_of (subscribers (notifyAll b)) ch = map_option (\<lambda>_. True) (map_of (subscribers b) ch)"
  using map_of_map_values [of "\<lambda>_ _. True" "subscribers b" ch] by (simp add: notifyAll_def)

lemma notifyAll_signals: "ch \<in> dom (map_of (subscribers b)) \<Longrightarrow> signalled ch (notifyAll b)"
  by (auto simp: signalled_def subscribers_notifyAll)

text \<open>What may happen between a broadcast and the firing of its timer.\<close>

datatype bcast_event =
    EvSubscribe
  | EvUnsubscribe chan
  | EvBroadcast
  | EvReceive chan

fun bcast_step :: "bcast_event \<Rightarrow> broadcaster \<Rightarrow> broadcaster" where
  "bcast_step EvSubscribe b = snd (Subscribe b)"
| "bcast_step (EvUnsubscribe ch) b = Unsubscribe ch b"
| "bcast_step EvBroadcast b = Broadcast b"
| "bcast_step (EvReceive ch) b = (if signalled ch b then receive ch b else b)"

definition bcast_run :: "bcast_event list \<Rightarrow> broadcaster \<Rightarrow> broadcaster" where
  "bcast_run evs b = fold bcast_step evs b"

lemma bcast_step_keeps:
  assumes "ev \<noteq> EvUnsubscribe ch" and "ch \<in> dom (map_of (subscribers b))"
  shows "ch \<in> dom (map_of (subscribers (bcast_step ev b)))"
  using assms
  by (cases ev)
    (auto simp: Subscribe_def Unsubscribe_def Broadcast_def receive_def Let_def go_map_simps
      subscribers_notifyAll)

lemma bcast_step_pending:
  "coalescePending b \<Longrightarrow> coalesceWindow b > 0 \<Longrightarrow>
   coalescePending (bcast_step ev b) \<and> coalesceWindow (bcast_step ev b) > 0"
  by (cases ev) (auto simp: Subscribe_def Unsubscribe_def Broadcast_def receive_def Let_def)

lemma bcast_run_keeps:
  "EvUnsubscribe ch \<notin> set evs \<Longrightarrow> ch \<in> dom (map_of (subscribers b)) \<Longrightarrow>
   ch \<in> dom (map_of (subscribers (bcast_run evs b)))"
proof (induction evs arbitrary: b)
  case Nil
  then show ?case by (simp add: bcast_run_def)
next
  case (Cons ev evs)
  then have "ev \<noteq> EvUnsubscribe ch" by auto
  from bcast_step_keeps [OF this Cons.prems(2)] Cons show ?case
    by (simp add: bcast_run_def)
qed

lemma bcast_run_pending:
  "coalescePending b \<Longrightarrow> coalesceWindow b > 0 \<Longrightarrow> coalescePending (bcast_run evs b)"
proof (induction evs arbitrary: b)
  case Nil
  then show ?case by (simp add: bcast_run_def)
next
  case (Cons ev evs)
  from bcast_step_pending [OF Cons.prems, of ev] Cons.IH show ?case
    by (simp add: bcast_run_def)
qed

text \<open>
  No wake-up is lost. Without a coalesce window a broadcast leaves a signal in the channel
  of every subscriber. With one, a timer is pending after the broadcast, stays pending whatever
  other steps come before it fires, and firing it signals every subscriber of the broadcast
  that has not unsubscribed in between.
\<close>

theorem broadcast_reaches_subscribers:
  assumes "ch \<in> dom (map_of (subscribers b))" and "EvUnsubscribe ch \<notin> set evs"
  shows "if coalesceWindow b \<le> 0 then signalled ch (Broadcast b)
    else coalescePending (bcast_run evs (Broadcast b)) \<and>
         signalled ch (coalesce_fire (bcast_run evs (Broadcast b)))"
proof (cases "coalesceWindow b \<le> 0")
  case True
  with assms(1) show ?thesis
    by (simp add: Broadcast_def notifyAll_signals)
next
  case False
  then have "coalescePending (Broadcast b)" "coalesceWindow (Broadcast b) > 0"
    by (auto simp: Broadcast_def)
  from bcast_run_pending [OF this] have "coalescePending (bcast_run evs (Broadcast b))" .
  moreover have "ch \<in> dom (map_of (subscribers (Broadcast b)))"
    using bcast_step_keeps [of EvBroadcast ch b] assms(1) by simp
  from bcast_run_keeps [OF assms(2) this]
  have "signalled ch (coalesce_fire (bcast_run evs (Broadcast b)))"
    unfolding coalesce_fire_def by (intro notifyAll_signals) simp
  ultimately show ?thesis using False by simp
qed

theorem broadcast_reaches_subscribers_witness:
  "signalled 0 (coalesce_fire (bcast_run [EvBroadcast, EvSubscribe]
     (Broadcast (snd (Subscribe (NewApprovalSyncBroadcaster 5))))))"
  using broadcast_reaches_subscribers
    [of 0 "snd (Subscribe (NewApprovalSyncBroadcaster 5))" "[EvBroadcast, EvSubscribe]"]
  by (simp add: Subscribe_def NewApprovalSyncBroadcaster_def Let_def)

section \<open>Rate limiter\<close>

text \<open>\<open>'l\<close> is the state of one token bucket; \<open>rlNew\<close> makes a full one for the configured
  rate, \<open>rlAllow\<close> takes a token at a point in time if there is one.\<close>

record 'l rate_limiter =
  maxPending :: int
  ratePerMin :: int
  rlNew :: "int \<Rightarrow> 'l"
  rlAllow :: "time \<Rightarrow> 'l \<Rightarrow> bool \<times> 'l"

definition limiter_key :: "string \<Rightarrow> string \<Rightarrow> string" where
  "limiter_key p agentID = p @ ''|'' @ agentID"

definition AllowCreation ::
  "'l rate_limiter \<Rightarrow> time \<Rightarrow> string \<Rightarrow> string \<Rightarrow> (string, 'l) gomap \<Rightarrow> bool \<times> (string, 'l) gomap" where
  "AllowCreation rl now p agentID limiters =
     (let key = limiter_key p agentID;
          limiter = (case map_of limiters key of
                       Some l \<Rightarrow> l
                     | None \<Rightarrow> rlNew rl (ratePerMin rl));
          (ok, limiter') = rlAllow rl now limiter
      in (ok, AList.update key limiter' limiters))"

lemma limiter_key_inject:
  assumes "CHR ''|'' \<notin> set a" and "CHR ''|'' \<notin> set a'"
  shows "limiter_key p a = limiter_key p' a' \<longleftrightarrow> p = p' \<and> a = a'"
proof
  assume "limiter_key p a = limiter_key p' a'"
  then have eq: "rev a @ CHR ''|'' # rev p = rev a' @ CHR ''|'' # rev p'"
    unfolding limiter_key_def by (metis append.assoc append_Cons append_Nil rev.simps(2) rev_append rev_rev_ident)
  have "takeWhile (\<lambda>c. c \<noteq> CHR ''|'') (rev a @ CHR ''|'' # rev p) = rev a"
    and "takeWhile (\<lambda>c. c \<noteq> CHR ''|'') (rev a' @ CHR ''|'' # rev p') = rev a'"
    using assms by (subst takeWhile_append2; auto)+
  with eq have "a = a'" by simp
  with eq show "p = p' \<and> a = a'" by simp
qed auto

text \<open>
  One principal and agent pair never spends the tokens of another: agent identifiers are
  UUIDs and hold no bar, so the keys of two different pairs differ and a creation check leaves
  the bucket of every other pair untouched.
\<close>

theorem AllowCreation_other_pairs:
  assumes "CHR ''|'' \<notin> set ag" and "CHR ''|'' \<notin> set ag'" and "(p, ag) \<noteq> (p', ag')"
  shows "map_of (snd (AllowCreation rl now p ag ls)) (limiter_key p' ag') = map_of ls (limiter_key p' ag')"
proof -
  from assms have "limiter_key p ag \<noteq> limiter_key p' ag'"
    using limiter_key_inject by blast
  then show ?thesis
    by (auto simp: AllowCreation_def Let_def go_map_simps split: prod.splits)
qed

theorem AllowCreation_other_pairs_witness:
  "map_of (snd (AllowCreation \<lparr>maxPending = 3, ratePerMin = 2, rlNew = nat, rlAllow = (\<lambda>_ l. (0 < l, l - 1))\<rparr>
      0 ''al'' ''x'' [(''bo|x'', 1)])) (limiter_key ''bo'' ''x'') = Some 1"
  using AllowCreation_other_pairs
    [of "''x''" "''x''" "''al''" "''bo''"
      "\<lparr>maxPending = 3, ratePerMin = 2, rlNew = nat, rlAllow = (\<lambda>_ l. (0 < l, l - 1))\<rparr>" 0 "[(''bo|x'', 1)]"]
  by (simp add: limiter_key_def)

end
