(* ===== verification/Approval_Service.thy ===== *)
theory Approval_Service
  imports Approval_Store Approval_Broadcast
begin

text \<open>
  \<^verbatim>\<open>internal/domain/approval/service.go\<close> and \<^verbatim>\<open>exact_patterns.go\<close>: the operations of the
  approval service over the storage ports. The service holds a port value \<open>R\<close>; its world is
  the adapter's state, the buckets of the rate limiter and the broadcaster. Clock readings
  are arguments: \<open>now\<close> is the service's own, \<open>rnow\<close> the one the repository takes, \<open>xnow\<close>
  the one taken when a failed mutation is explained. Spans, metrics and log lines have no
  effect on the result and are left out.
\<close>

section \<open>Data\<close>

datatype service_error =
    ErrApprovalNotFound
  | ErrApprovalForbidden
  | ErrApprovalGone
  | ErrApprovalNotPending
  | ErrApprovalRateLimit
  | ErrApprovalNotConsumable
  | ErrApprovalNotRevocable
  | ErrPatternNotAllowedForOnce
  | ErrPatternMalformed pattern_error
  | ErrPatternNotCovering
  | ErrStorage StorageError
  | ErrDomain approval_error

record CreateApprovalRequest =
  crPrincipal :: principal
  crAgentID :: agent_id
  crGatewayClientID :: string
  crToolName :: string
  crArguments :: arguments
  crDescription :: string
  crRiskLevel :: string
  crMCPSessionID :: "string option"
  crAgentSessionID :: "string option"
  crToolInvocationID :: "string option"
  crTraceparent :: "string option"

record ApproveRequest =
  arPersistence :: ApprovalPersistence
  arParamsPattern :: "params_pattern option"

record CreateApprovalResult =
  carApproval :: ToolApproval
  carIsNew :: bool

record ('st, 'l) approval_world =
  awRepo :: 'st
  awLimiters :: "(string, 'l) gomap"
  awBroadcaster :: "broadcaster option"

text \<open>
  The fields of \<^verbatim>\<open>Service\<close> that do not change, and the functions that are parameters: the
  hash of an argument map (JSON encoding and SHA-256) and float formatting.
\<close>

record 'l approval_config =
  acHasQueries :: bool
  acHasMetrics :: bool
  acRateLimiter :: "'l rate_limiter option"
  acAgents :: "(agent_id \<Rightarrow> string option) option"
  acPendingTTL :: duration
  acPublicURL :: string
  acFloats :: float_io
  acArgumentsHash :: "arguments \<Rightarrow> string"

definition canonicalRiskLevel :: "string \<Rightarrow> string \<times> bool" where
  "canonicalRiskLevel riskLevel =
     (let normalized = ToLower (TrimSpace riskLevel)
      in if normalized = [] then ([], True)
         else if normalized \<in> {''low'', ''medium'', ''critical''} then (normalized, True)
         else (''critical'', False))"

section \<open>Mutation helpers\<close>

definition broadcast_world :: "('st, 'l) approval_world \<Rightarrow> ('st, 'l) approval_world" where
  "broadcast_world w = w\<lparr>awBroadcaster := map_option Broadcast (awBroadcaster w)\<rparr>"

definition syncApprovalMutation ::
  "'st approval_port \<Rightarrow> ('st, 'l) approval_world \<Rightarrow> service_error option \<times> ('st, 'l) approval_world" where
  "syncApprovalMutation R w =
     (if port_SyncAtomically R then (None, broadcast_world w)
      else case port_IncrementVersion R (awRepo w) of
          (Inl e, s) \<Rightarrow> (Some (ErrStorage e), w\<lparr>awRepo := s\<rparr>)
        | (Inr _, s) \<Rightarrow> (None, broadcast_world (w\<lparr>awRepo := s\<rparr>)))"

definition get_error :: "StorageError \<Rightarrow> service_error" where
  "get_error e = (if seKind e = ErrorKindNotFound then ErrApprovalNotFound else ErrStorage e)"

definition resolveApprovalMutationError ::
  "'st approval_port \<Rightarrow> time \<Rightarrow> approval_id \<Rightarrow> StorageError \<Rightarrow> ('st, 'l) approval_world \<Rightarrow> service_error" where
  "resolveApprovalMutationError R xnow approvalID err w =
     (if seKind err \<noteq> ErrorKindNotFound then ErrStorage err
      else case port_Get R approvalID (awRepo w) of
          Inl reloadErr \<Rightarrow> get_error reloadErr
        | Inr a \<Rightarrow>
            if taStatus a = ApprovalStatusPending \<and> IsExpired a xnow then ErrApprovalGone
            else ErrApprovalNotPending)"

section \<open>Patterns of a decision\<close>

definition ApplyExactPatterns :: "float_io \<Rightarrow> ToolApproval \<Rightarrow> service_error + ToolApproval" where
  "ApplyExactPatterns io approval =
     (let toolPattern = EscapeLiteral (taToolName approval);
          paramsPattern = ExactParams io (taArguments approval)
      in case ValidateToolPattern toolPattern of
           Some e \<Rightarrow> Inl (ErrPatternMalformed e)
         | None \<Rightarrow>
             (case ValidateParamsPattern paramsPattern of
                Some e \<Rightarrow> Inl (ErrPatternMalformed e)
              | None \<Rightarrow> Inr (approval\<lparr>taToolPattern := toolPattern, taParamsPattern := Some paramsPattern\<rparr>)))"

definition resolveApprovalDecision ::
  "float_io \<Rightarrow> ToolApproval \<Rightarrow> ApproveRequest \<Rightarrow> service_error + ApprovalDecision" where
  "resolveApprovalDecision io approval req =
     (if arPersistence req = ApprovalPersistenceOnce \<and> arParamsPattern req \<noteq> None
      then Inl ErrPatternNotAllowedForOnce
      else
        let toolPattern = EscapeLiteral (taToolName approval);
            paramsPattern = (case arParamsPattern req of
                               None \<Rightarrow> ExactParams io (taArguments approval)
                             | Some m \<Rightarrow> m)
        in case ValidateToolPattern toolPattern of
             Some e \<Rightarrow> Inl (ErrPatternMalformed e)
           | None \<Rightarrow>
               (case ValidateParamsPattern paramsPattern of
                  Some e \<Rightarrow> Inl (ErrPatternMalformed e)
                | None \<Rightarrow>
                    if \<not> Matches io toolPattern paramsPattern (taToolName approval) (taArguments approval)
                    then Inl ErrPatternNotCovering
                    else Inr \<lparr>adPersistence = arPersistence req, adToolPattern = toolPattern,
                              adParamsPattern = Some paramsPattern\<rparr>))"

section \<open>Approve, deny, consume, revoke\<close>

definition domain_error :: "approval_error \<Rightarrow> service_error" where
  "domain_error e =
     (if e = AErrExpired then ErrApprovalGone
      else if e = AErrNotPending then ErrApprovalNotPending
      else ErrDomain e)"

text \<open>The end of every mutation: the version is raised and the subscribers are woken; the
  caller gets the stored approval unless that fails.\<close>

definition finish_mutation ::
  "'st approval_port \<Rightarrow> ToolApproval \<Rightarrow> ('st, 'l) approval_world \<Rightarrow>
   (service_error + ToolApproval) \<times> ('st, 'l) approval_world" where
  "finish_mutation R result w =
     (case syncApprovalMutation R w of
        (Some e, w') \<Rightarrow> (Inl e, w')
      | (None, w') \<Rightarrow> (Inr result, w'))"

text \<open>Each operation reads the approval and decides before it calls the repository. What it does up to
  that call is its \<open>prepare\<close> phase: an error, or what the repository is asked to do.\<close>

definition prepare_approve ::
  "'st approval_port \<Rightarrow> float_io \<Rightarrow> time \<Rightarrow> approval_id \<Rightarrow> principal \<Rightarrow> ApproveRequest \<Rightarrow> 'st \<Rightarrow>
   service_error + ApprovalDecision" where
  "prepare_approve R io now approvalID actingPrincipal req s =
     (case port_Get R approvalID s of
        Inl e \<Rightarrow> Inl (get_error e)
      | Inr approval \<Rightarrow>
          if taPrincipal approval \<noteq> actingPrincipal then Inl ErrApprovalForbidden
          else case EnsureApprovable approval actingPrincipal now of
            Some e \<Rightarrow> Inl (domain_error e)
          | None \<Rightarrow>
            (case resolveApprovalDecision io approval req of
               Inl e \<Rightarrow> Inl e
             | Inr decision \<Rightarrow>
               (case Approve approval actingPrincipal decision now of
                  Inl e \<Rightarrow> Inl (ErrDomain e)
                | Inr _ \<Rightarrow> Inr decision)))"

definition ApproveApproval ::
  "'st approval_port \<Rightarrow> float_io \<Rightarrow> time \<Rightarrow> time \<Rightarrow> time \<Rightarrow> approval_id \<Rightarrow> principal \<Rightarrow> ApproveRequest \<Rightarrow>
   ('st, 'l) approval_world \<Rightarrow> (service_error + ToolApproval) \<times> ('st, 'l) approval_world" where
  "ApproveApproval R io now rnow xnow approvalID actingPrincipal req w =
     (case prepare_approve R io now approvalID actingPrincipal req (awRepo w) of
        Inl e \<Rightarrow> (Inl e, w)
      | Inr decision \<Rightarrow>
          (case port_Approve R rnow approvalID decision now (awRepo w) of
             (Inl e, s) \<Rightarrow>
               (let w' = w\<lparr>awRepo := s\<rparr>
                in (Inl (resolveApprovalMutationError R xnow approvalID e w'), w'))
           | (Inr result, s) \<Rightarrow> finish_mutation R result (w\<lparr>awRepo := s\<rparr>)))"

definition prepare_deny ::
  "'st approval_port \<Rightarrow> time \<Rightarrow> approval_id \<Rightarrow> principal \<Rightarrow> ApprovalPersistence option \<Rightarrow> 'st \<Rightarrow> service_error option" where
  "prepare_deny R now approvalID actingPrincipal persistence s =
     (case port_Get R approvalID s of
        Inl e \<Rightarrow> Some (get_error e)
      | Inr approval \<Rightarrow>
          if taPrincipal approval \<noteq> actingPrincipal then Some ErrApprovalForbidden
          else case Deny approval actingPrincipal persistence now of
            Inl e \<Rightarrow> Some (domain_error e)
          | Inr _ \<Rightarrow> None)"

definition DenyApproval ::
  "'st approval_port \<Rightarrow> time \<Rightarrow> time \<Rightarrow> time \<Rightarrow> approval_id \<Rightarrow> principal \<Rightarrow> ApprovalPersistence option \<Rightarrow>
   ('st, 'l) approval_world \<Rightarrow> (service_error + ToolApproval) \<times> ('st, 'l) approval_world" where
  "DenyApproval R now rnow xnow approvalID actingPrincipal persistence w =
     (case prepare_deny R now approvalID actingPrincipal persistence (awRepo w) of
        Some e \<Rightarrow> (Inl e, w)
      | None \<Rightarrow>
          (case port_Deny R rnow approvalID persistence now (awRepo w) of
             (Inl e, s) \<Rightarrow>
               (let w' = w\<lparr>awRepo := s\<rparr>
                in (Inl (resolveApprovalMutationError R xnow approvalID e w'), w'))
           | (Inr result, s) \<Rightarrow> finish_mutation R result (w\<lparr>awRepo := s\<rparr>)))"

text \<open>A consumed approval is handed back at once; \<open>Inr None\<close> goes on to the repository.\<close>

definition prepare_consume ::
  "'st approval_port \<Rightarrow> approval_id \<Rightarrow> principal \<Rightarrow> 'st \<Rightarrow> service_error + ToolApproval option" where
  "prepare_consume R approvalID actingPrincipal s =
     (case port_Get R approvalID s of
        Inl e \<Rightarrow> Inl (get_error e)
      | Inr existing \<Rightarrow>
          if taPrincipal existing \<noteq> actingPrincipal then Inl ErrApprovalForbidden
          else if taConsumed existing then Inr (Some existing)
          else if taStatus existing \<noteq> ApprovalStatusApproved \<or>
                  taPersistence existing \<noteq> Some ApprovalPersistenceOnce
          then Inl ErrApprovalNotConsumable
          else Inr None)"

definition ConsumeApproval ::
  "'st approval_port \<Rightarrow> time \<Rightarrow> approval_id \<Rightarrow> principal \<Rightarrow>
   ('st, 'l) approval_world \<Rightarrow> (service_error + ToolApproval) \<times> ('st, 'l) approval_world" where
  "ConsumeApproval R now approvalID actingPrincipal w =
     (case prepare_consume R approvalID actingPrincipal (awRepo w) of
        Inl e \<Rightarrow> (Inl e, w)
      | Inr (Some existing) \<Rightarrow> (Inr existing, w)
      | Inr None \<Rightarrow>
          (case port_Consume R approvalID now (awRepo w) of
              (Inl e, s) \<Rightarrow>
                (let w' = w\<lparr>awRepo := s\<rparr>
                 in if seKind e = ErrorKindNotFound then
                      (case port_Get R approvalID s of
                         Inl reloadErr \<Rightarrow> (Inl (get_error reloadErr), w')
                       | Inr reloaded \<Rightarrow>
                           if taPrincipal reloaded \<noteq> actingPrincipal then (Inl ErrApprovalForbidden, w')
                           else if taConsumed reloaded then (Inr reloaded, w')
                           else (Inl ErrApprovalNotFound, w'))
                    else (Inl (ErrStorage e), w'))
            | (Inr result, s) \<Rightarrow> finish_mutation R result (w\<lparr>awRepo := s\<rparr>)))"

definition prepare_revoke ::
  "'st approval_port \<Rightarrow> approval_id \<Rightarrow> principal \<Rightarrow> 'st \<Rightarrow> service_error option" where
  "prepare_revoke R approvalID actingPrincipal s =
     (case port_Get R approvalID s of
        Inl e \<Rightarrow> Some (get_error e)
      | Inr existing \<Rightarrow>
          if taPrincipal existing \<noteq> actingPrincipal then Some ErrApprovalForbidden
          else if taPersistence existing \<noteq> Some ApprovalPersistencePermanent
          then Some ErrApprovalNotRevocable
          else None)"

definition RevokePermanentApproval ::
  "'st approval_port \<Rightarrow> time \<Rightarrow> approval_id \<Rightarrow> principal \<Rightarrow>
   ('st, 'l) approval_world \<Rightarrow> (service_error + ToolApproval) \<times> ('st, 'l) approval_world" where
  "RevokePermanentApproval R now approvalID actingPrincipal w =
     (case prepare_revoke R approvalID actingPrincipal (awRepo w) of
        Some e \<Rightarrow> (Inl e, w)
      | None \<Rightarrow>
          (case port_RevokePermanent R approvalID now (awRepo w) of
              (Inl e, s) \<Rightarrow>
                (let w' = w\<lparr>awRepo := s\<rparr>
                 in if seKind e = ErrorKindNotFound then
                      (case port_Get R approvalID s of
                         Inl _ \<Rightarrow> (Inl ErrApprovalNotFound, w')
                       | Inr current \<Rightarrow>
                           if taPrincipal current = actingPrincipal then (Inl ErrApprovalNotRevocable, w')
                           else (Inl ErrApprovalNotFound, w'))
                    else (Inl (ErrStorage e), w'))
            | (Inr result, s) \<Rightarrow> finish_mutation R result (w\<lparr>awRepo := s\<rparr>)))"

section \<open>Create\<close>

definition findExistingPendingApproval ::
  "'st approval_port \<Rightarrow> 'l approval_config \<Rightarrow> time \<Rightarrow> time \<Rightarrow> principal \<Rightarrow> agent_id \<Rightarrow> string \<Rightarrow> string \<Rightarrow>
   'st \<Rightarrow> service_error + ToolApproval option" where
  "findExistingPendingApproval R cfg now rnow p agentID toolName argumentsHash s =
     (if \<not> acHasQueries cfg then Inr None
      else case port_FindPendingByKey R rnow p agentID toolName argumentsHash s of
          Inl e \<Rightarrow> Inl (ErrStorage e)
        | Inr None \<Rightarrow> Inr None
        | Inr (Some a) \<Rightarrow> if IsExpired a now then Inr None else Inr (Some a))"

definition existing_result :: "ToolApproval \<Rightarrow> CreateApprovalResult" where
  "existing_result a = \<lparr>carApproval = a, carIsNew = False\<rparr>"

text \<open>The per-minute bucket of the pair; without a rate limiter every creation is allowed.\<close>

definition allow_creation ::
  "'l approval_config \<Rightarrow> time \<Rightarrow> CreateApprovalRequest \<Rightarrow> ('st, 'l) approval_world \<Rightarrow> bool \<times> ('st, 'l) approval_world" where
  "allow_creation cfg now req w =
     (case acRateLimiter cfg of
        None \<Rightarrow> (True, w)
      | Some rl \<Rightarrow>
          (case AllowCreation rl now (crPrincipal req) (crAgentID req) (awLimiters w) of
             (ok, ls) \<Rightarrow> (ok, w\<lparr>awLimiters := ls\<rparr>)))"

text \<open>The bound on pending approvals of the pair; a failing count does not block.\<close>

definition too_many_pending ::
  "'st approval_port \<Rightarrow> 'l approval_config \<Rightarrow> time \<Rightarrow> CreateApprovalRequest \<Rightarrow> 'st \<Rightarrow> bool" where
  "too_many_pending R cfg rnow req s =
     (case acRateLimiter cfg of
        None \<Rightarrow> False
      | Some rl \<Rightarrow>
          if \<not> acHasMetrics cfg then False
          else case port_CountPending R rnow (crPrincipal req) (crAgentID req) s of
              Inl _ \<Rightarrow> False
            | Inr pendingCount \<Rightarrow> maxPending rl \<le> pendingCount)"

definition new_approval ::
  "'l approval_config \<Rightarrow> time \<Rightarrow> approval_id \<Rightarrow> CreateApprovalRequest \<Rightarrow> ToolApproval" where
  "new_approval cfg now approvalID req =
     \<lparr>taID = approvalID, taPrincipal = crPrincipal req, taAgentID = crAgentID req,
      taGatewayClientID = crGatewayClientID req, taToolName = crToolName req,
      taArguments = crArguments req, taArgumentsHash = acArgumentsHash cfg (crArguments req),
      taToolPattern = [], taParamsPattern = None,
      taDescription = crDescription req, taRiskLevel = fst (canonicalRiskLevel (crRiskLevel req)),
      taMCPSessionID = crMCPSessionID req, taAgentSessionID = crAgentSessionID req,
      taToolInvocationID = crToolInvocationID req, taTraceparent = crTraceparent req,
      taStatus = ApprovalStatusPending, taPersistence = None, taConsumed = False,
      taApprovalURL = acPublicURL cfg @ ''/approvals/'' @ approvalID,
      taCreatedAt = now, taApprovedAt = None, taDeniedAt = None, taConsumedAt = None,
      taExpiresAt = now + acPendingTTL cfg\<rparr>"

text \<open>The checks under \<^verbatim>\<open>creationMu\<close> up to the repository call: an answer without a new approval, or
  the approval to store. The first look-up sees the state before the rate limiter is asked.\<close>

definition prepare_create ::
  "'st approval_port \<Rightarrow> 'l approval_config \<Rightarrow> time \<Rightarrow> time \<Rightarrow> approval_id \<Rightarrow> CreateApprovalRequest \<Rightarrow>
   ('st, 'l) approval_world \<Rightarrow>
   ((service_error + CreateApprovalResult) + ToolApproval) \<times> ('st, 'l) approval_world" where
  "prepare_create R cfg now rnow approvalID req w =
     (let argsHash = acArgumentsHash cfg (crArguments req);
          findExisting = (\<lambda>u. findExistingPendingApproval R cfg now rnow (crPrincipal req)
                                (crAgentID req) (crToolName req) argsHash (awRepo u))
      in case findExisting w of
           Inl e \<Rightarrow> (Inl (Inl e), w)
         | Inr (Some existing) \<Rightarrow> (Inl (Inr (existing_result existing)), w)
         | Inr None \<Rightarrow>
             (case allow_creation cfg now req w of
                (False, w') \<Rightarrow>
                  (case findExisting w' of
                     Inl e \<Rightarrow> (Inl (Inl e), w')
                   | Inr (Some existing) \<Rightarrow> (Inl (Inr (existing_result existing)), w')
                   | Inr None \<Rightarrow> (Inl (Inl ErrApprovalRateLimit), w'))
              | (True, w') \<Rightarrow>
                  if too_many_pending R cfg rnow req (awRepo w') then (Inl (Inl ErrApprovalRateLimit), w')
                  else case ApplyExactPatterns (acFloats cfg) (new_approval cfg now approvalID req) of
                      Inl e \<Rightarrow> (Inl (Inl e), w')
                    | Inr newApproval \<Rightarrow> (Inr newApproval, w')))"

text \<open>The repository call and what follows it.\<close>

definition store_new_approval ::
  "'st approval_port \<Rightarrow> time \<Rightarrow> ToolApproval \<Rightarrow>
   ('st, 'l) approval_world \<Rightarrow> (service_error + CreateApprovalResult) \<times> ('st, 'l) approval_world" where
  "store_new_approval R rnow newApproval w =
     (case port_Create R rnow newApproval (awRepo w) of
        (Inl e, s) \<Rightarrow> (Inl (ErrStorage e), w\<lparr>awRepo := s\<rparr>)
      | (Inr result, s) \<Rightarrow>
          let w' = w\<lparr>awRepo := s\<rparr>
          in if taID result = taID newApproval then
               (case syncApprovalMutation R w' of
                  (Some e, w'') \<Rightarrow> (Inl e, w'')
                | (None, w'') \<Rightarrow> (Inr \<lparr>carApproval = result, carIsNew = True\<rparr>, w''))
             else (Inr (existing_result result), w'))"

text \<open>\<open>now\<close> stands for the readings of the clock in the service, \<open>rnow\<close> for those in the repository;
  the source reads the clock again at each look-up.\<close>

definition CreatePendingApproval ::
  "'st approval_port \<Rightarrow> 'l approval_config \<Rightarrow> time \<Rightarrow> time \<Rightarrow> approval_id \<Rightarrow> CreateApprovalRequest \<Rightarrow>
   ('st, 'l) approval_world \<Rightarrow> (service_error + CreateApprovalResult) \<times> ('st, 'l) approval_world" where
  "CreatePendingApproval R cfg now rnow approvalID req w =
     (case prepare_create R cfg now rnow approvalID req w of
        (Inl answer, w') \<Rightarrow> (answer, w')
      | (Inr newApproval, w') \<Rightarrow> store_new_approval R rnow newApproval w')"

section \<open>Reads\<close>

record SyncPair =
  spPrincipal :: principal
  spAgentID :: agent_id
  spApprovals :: "ToolApproval list"

record SyncState =
  ssVersion :: int
  ssPairs :: "SyncPair list"

text \<open>The grouping loop of \<^verbatim>\<open>GetSyncState\<close>: an approval joins the pair of its key, a new key
  opens a pair.\<close>

fun add_to_pairs :: "ToolApproval \<Rightarrow> SyncPair list \<Rightarrow> SyncPair list" where
  "add_to_pairs a [] = [\<lparr>spPrincipal = taPrincipal a, spAgentID = taAgentID a, spApprovals = [a]\<rparr>]"
| "add_to_pairs a (p # ps) =
     (if spPrincipal p = taPrincipal a \<and> spAgentID p = taAgentID a
      then p\<lparr>spApprovals := spApprovals p @ [a]\<rparr> # ps
      else p # add_to_pairs a ps)"

definition group_pairs :: "ToolApproval list \<Rightarrow> SyncPair list" where
  "group_pairs approvals = fold add_to_pairs approvals []"

text \<open>The version and the list are read from one state; the source makes two repository calls, the
  version first, so a change in between shows in the list and is announced again by its version.\<close>

definition GetSyncState ::
  "'st approval_port \<Rightarrow> time \<Rightarrow> principal option \<Rightarrow> string list \<Rightarrow> 'st \<Rightarrow> service_error + SyncState" where
  "GetSyncState R rnow principalFilter activeAgentSessionIDs s =
     (case port_GetVersion R s of
        Inl e \<Rightarrow> Inl (ErrStorage e)
      | Inr version \<Rightarrow>
          (case port_ListAllActive R rnow principalFilter activeAgentSessionIDs s of
             Inl e \<Rightarrow> Inl (ErrStorage e)
           | Inr approvals \<Rightarrow> Inr \<lparr>ssVersion = version, ssPairs = group_pairs approvals\<rparr>))"

record ScopePreview =
  svToolPattern :: string
  svParamsPattern :: params_pattern
  svPreview :: string

text \<open>The preview loop: at the first key whose pattern is not the exact one, the exact
  pattern of all arguments is shown with the requested patterns laid over it.\<close>

definition preview_params :: "params_pattern \<Rightarrow> params_pattern \<Rightarrow> params_pattern" where
  "preview_params exact params =
     (if list_ex (\<lambda>(key, pattern). pattern \<noteq> (case map_of exact key of None \<Rightarrow> [] | Some x \<Rightarrow> x)) params
      then fold (\<lambda>(key, pattern) m. AList.update key pattern m) params exact
      else params)"

definition PreviewApprovalScope ::
  "'st approval_port \<Rightarrow> float_io \<Rightarrow> approval_id \<Rightarrow> principal \<Rightarrow> ApproveRequest \<Rightarrow> 'st \<Rightarrow> service_error + ScopePreview" where
  "PreviewApprovalScope R io approvalID actingPrincipal req s =
     (case port_Get R approvalID s of
        Inl e \<Rightarrow> Inl (get_error e)
      | Inr approval \<Rightarrow>
          if taPrincipal approval \<noteq> actingPrincipal then Inl ErrApprovalForbidden
          else case resolveApprovalDecision io approval req of
            Inl e \<Rightarrow> Inl e
          | Inr decision \<Rightarrow>
              let params = copyParamsPattern (adParamsPattern decision);
                  shown = preview_params (ExactParams io (taArguments approval)) params
              in Inr \<lparr>svToolPattern = adToolPattern decision, svParamsPattern = params,
                      svPreview = Format (adToolPattern decision) shown\<rparr>)"

record ApprovalDetail =
  dtID :: approval_id
  dtPrincipal :: principal
  dtAgentID :: agent_id
  dtAgentDisplayName :: string
  dtMCPSessionID :: "string option"
  dtAgentSessionID :: "string option"
  dtToolInvocationID :: "string option"
  dtToolName :: string
  dtArguments :: arguments
  dtToolPattern :: string
  dtParamsPattern :: "params_pattern option"
  dtPatternPreview :: string
  dtDescription :: string
  dtRiskLevel :: string
  dtStatus :: ApprovalStatus
  dtPersistence :: "ApprovalPersistence option"
  dtConsumed :: bool
  dtApprovalURL :: string
  dtCreatedAt :: time
  dtApprovedAt :: "time option"
  dtDeniedAt :: "time option"
  dtConsumedAt :: "time option"
  dtExpiresAt :: time

definition newApprovalDetail :: "ToolApproval \<Rightarrow> string \<Rightarrow> ApprovalDetail" where
  "newApprovalDetail a agentDisplayName =
     \<lparr>dtID = taID a, dtPrincipal = taPrincipal a, dtAgentID = taAgentID a,
      dtAgentDisplayName = agentDisplayName, dtMCPSessionID = taMCPSessionID a,
      dtAgentSessionID = taAgentSessionID a, dtToolInvocationID = taToolInvocationID a,
      dtToolName = taToolName a, dtArguments = taArguments a, dtToolPattern = taToolPattern a,
      dtParamsPattern = taParamsPattern a,
      dtPatternPreview = Format (taToolPattern a) (copyParamsPattern (taParamsPattern a)),
      dtDescription = taDescription a, dtRiskLevel = taRiskLevel a, dtStatus = taStatus a,
      dtPersistence = taPersistence a, dtConsumed = taConsumed a, dtApprovalURL = taApprovalURL a,
      dtCreatedAt = taCreatedAt a, dtApprovedAt = taApprovedAt a, dtDeniedAt = taDeniedAt a,
      dtConsumedAt = taConsumedAt a, dtExpiresAt = taExpiresAt a\<rparr>"

definition agent_display_name :: "'l approval_config \<Rightarrow> agent_id \<Rightarrow> string" where
  "agent_display_name cfg ag =
     (case acAgents cfg of
        None \<Rightarrow> []
      | Some look \<Rightarrow> (case look ag of None \<Rightarrow> [] | Some n \<Rightarrow> n))"

definition enrichApproval :: "'l approval_config \<Rightarrow> ToolApproval \<Rightarrow> ApprovalDetail" where
  "enrichApproval cfg a = newApprovalDetail a (agent_display_name cfg (taAgentID a))"

text \<open>\<^verbatim>\<open>enrichApprovals\<close> looks every distinct agent up once and then renders the list.\<close>

definition enrichApprovals :: "'l approval_config \<Rightarrow> ToolApproval list \<Rightarrow> ApprovalDetail list" where
  "enrichApprovals cfg approvals =
     (let agentNames = map (\<lambda>ag. (ag, agent_display_name cfg ag)) (remdups (map taAgentID approvals))
      in map (\<lambda>a. newApprovalDetail a (case map_of agentNames (taAgentID a) of None \<Rightarrow> [] | Some n \<Rightarrow> n))
           approvals)"

definition GetApproval ::
  "'st approval_port \<Rightarrow> 'l approval_config \<Rightarrow> time \<Rightarrow> approval_id \<Rightarrow> principal \<Rightarrow> 'st \<Rightarrow> service_error + ApprovalDetail" where
  "GetApproval R cfg now approvalID actingPrincipal s =
     (case port_Get R approvalID s of
        Inl e \<Rightarrow> Inl (get_error e)
      | Inr approval \<Rightarrow>
          if taPrincipal approval \<noteq> actingPrincipal then Inl ErrApprovalForbidden
          else if IsExpired approval now \<and> taStatus approval = ApprovalStatusPending
          then Inl ErrApprovalGone
          else Inr (enrichApproval cfg approval))"

definition ListPendingApprovals ::
  "'st approval_port \<Rightarrow> 'l approval_config \<Rightarrow> time \<Rightarrow> principal \<Rightarrow> 'st \<Rightarrow> service_error + ApprovalDetail list" where
  "ListPendingApprovals R cfg rnow p s =
     (case port_ListAllActive R rnow (Some p) [] s of
        Inl e \<Rightarrow> Inl (ErrStorage e)
      | Inr approvals \<Rightarrow>
          Inr (enrichApprovals cfg
            (sort_key (\<lambda>a. - taCreatedAt a)
              (filter (\<lambda>a. taStatus a = ApprovalStatusPending) approvals))))"

definition ListPermanentApprovals ::
  "'st approval_port \<Rightarrow> 'l approval_config \<Rightarrow> principal \<Rightarrow> 'st \<Rightarrow> service_error + ApprovalDetail list" where
  "ListPermanentApprovals R cfg p s =
     (case port_ListPermanentByPrincipal R p s of
        Inl e \<Rightarrow> Inl (ErrStorage e)
      | Inr approvals \<Rightarrow> Inr (enrichApprovals cfg approvals))"

end
