(* ===== verification/Client_Keys.thy ===== *)
theory Client_Keys
  imports Go_Strings
begin

text \<open>
  \<^verbatim>\<open>internal/domain/oauth2/cimd/keyset.go\<close>: the public keys a client publishes in its metadata
  document, inline or at a URL, filtered and cached. A JWK is a record of the accessors the code
  reads. What the JWK library and the HTTP fetcher do (\<^verbatim>\<open>jwk.Parse\<close>, \<^verbatim>\<open>PublicKey\<close>, \<^verbatim>\<open>AddKey\<close>,
  \<^verbatim>\<open>Fetch\<close>) is the record \<open>jwk_lib\<close>, an argument; it never changes the cache. One call of the
  service is one step, with its clock readings as arguments: callers that arrive while the same
  key set is being fetched share the result of that one step (\<^verbatim>\<open>singleflight\<close>).
\<close>

section \<open>Keys\<close>

record jwk =
  jkKeyID :: "string option"
  jkAlgorithm :: "string option"
  jkKeyUsage :: "string option"
  jkKeyOps :: "string list option"
  jkKeyType :: string
  jkMembers :: "string list"
  jkRSAPublic :: bool
  jkN :: "nat option"
  jkECPublic :: bool
  jkCrv :: "string option"

definition hasPrivateKeyMaterial :: "jwk \<Rightarrow> bool" where
  "hasPrivateKeyMaterial key \<longleftrightarrow>
     list_ex (\<lambda>member. List.member [''d'', ''p'', ''q'', ''dp'', ''dq'', ''qi'', ''k''] member) (jkMembers key)"

text \<open>\<^verbatim>\<open>BitLen\<close> of the modulus.\<close>

definition bitLen_at_least :: "nat \<Rightarrow> nat \<Rightarrow> bool" where
  "bitLen_at_least k n \<longleftrightarrow> 2 ^ (k - 1) \<le> n"

definition clientKeyEligible :: "jwk option \<Rightarrow> string \<Rightarrow> bool" where
  "clientKeyEligible k signingAlgorithm =
     (case k of
        None \<Rightarrow> False
      | Some key \<Rightarrow>
          if hasPrivateKeyMaterial key then False
          else if jkKeyUsage key \<noteq> None \<and> jkKeyUsage key \<noteq> Some ''sig'' then False
          else if (case jkKeyOps key of None \<Rightarrow> False | Some operations \<Rightarrow> \<not> List.member operations ''verify'') then False
          else if (signingAlgorithm = ''RS256'' \<or> signingAlgorithm = []) \<and> jkKeyType key = ''RSA''
          then jkRSAPublic key \<and> (case jkN key of None \<Rightarrow> False | Some n \<Rightarrow> bitLen_at_least 2048 n)
          else if (signingAlgorithm = ''ES256'' \<or> signingAlgorithm = []) \<and> jkKeyType key = ''EC''
          then jkECPublic key \<and> jkCrv key = Some ''P-256''
          else False)"

definition LookupKeyID :: "string \<Rightarrow> jwk list \<Rightarrow> jwk option" where
  "LookupKeyID kid keys = find (\<lambda>k. jkKeyID k = Some kid) keys"

section \<open>The service\<close>

record CIMDMetadata =
  cmClientID :: string
  cmAuthMethod :: string
  cmSigningAlg :: string
  cmJWKSURI :: string
  cmKeySet :: "jwk list option"
  cmRedirectURIs :: "string list"
  cmGrantTypes :: "string list"

record jwk_lib =
  jlFetch :: "string \<Rightarrow> string option option"
  jlParse :: "string \<Rightarrow> jwk list option"
  jlPublicKey :: "jwk \<Rightarrow> jwk option"
  jlAddKey :: "jwk list \<Rightarrow> jwk \<Rightarrow> jwk list option"

record clientKeySetCacheEntry =
  ceKeys :: "jwk list"
  ceFetchedAt :: time
  ceLastRefetchAt :: time

type_synonym clientKeySetCacheKey = "string \<times> string"
type_synonym key_cache = "(clientKeySetCacheKey, clientKeySetCacheEntry) gomap"

record key_set_config =
  kcKeySetCacheTTL :: duration
  kcKeySetMaxBytes :: int
  kcKeySetMinRefetchInterval :: duration

definition maxClientKeySetCacheEntries :: nat where
  "maxClientKeySetCacheEntries = 1000"

text \<open>The loop of \<^verbatim>\<open>eligibleClientKeys\<close>; None is its error.\<close>

definition eligibleClientKeys :: "jwk_lib \<Rightarrow> jwk list option \<Rightarrow> string \<Rightarrow> jwk list option" where
  "eligibleClientKeys L source signingAlgorithm =
     (case source of
        None \<Rightarrow> Some []
      | Some keys \<Rightarrow>
          fold (\<lambda>key filtered. case filtered of
              None \<Rightarrow> None
            | Some fs \<Rightarrow>
                if \<not> clientKeyEligible (Some key) signingAlgorithm then Some fs
                else case jlPublicKey L key of
                    None \<Rightarrow> Some fs
                  | Some publicKey \<Rightarrow> jlAddKey L fs publicKey) keys (Some []))"

text \<open>The oldest entry, found by the loop of \<^verbatim>\<open>storeCacheEntry\<close>.\<close>

definition oldest_key :: "key_cache \<Rightarrow> clientKeySetCacheKey" where
  "oldest_key cache =
     fst (fold (\<lambda>(candidate, entry) (oldestKey, oldestTime).
         if oldestKey = ([], []) \<or> time_before (ceFetchedAt entry) oldestTime
         then (candidate, ceFetchedAt entry) else (oldestKey, oldestTime)) cache (([], []), 0))"

definition storeCacheEntry ::
  "clientKeySetCacheKey \<Rightarrow> jwk list \<Rightarrow> time \<Rightarrow> time \<Rightarrow> key_cache \<Rightarrow> key_cache" where
  "storeCacheEntry key keys fetchedAt lastRefetchAt cache =
     (case map_of cache key of
        Some previous \<Rightarrow>
          AList.update key \<lparr>ceKeys = keys, ceFetchedAt = fetchedAt, ceLastRefetchAt = ceLastRefetchAt previous\<rparr> cache
      | None \<Rightarrow>
          AList.update key \<lparr>ceKeys = keys, ceFetchedAt = fetchedAt, ceLastRefetchAt = lastRefetchAt\<rparr>
            (if maxClientKeySetCacheEntries \<le> length cache then AList.delete (oldest_key cache) cache else cache))"

definition ErrKeySetUnavailable :: string where
  "ErrKeySetUnavailable = ''client key set unavailable''"

text \<open>Fetch, size check, parse and filter: the part both flights share. The answer is the eligible
  keys of every supported algorithm.\<close>

definition fetch_keys :: "jwk_lib \<Rightarrow> key_set_config \<Rightarrow> string \<Rightarrow> jwk list option" where
  "fetch_keys L config uri =
     (case jlFetch L uri of
        Some (Some body) \<Rightarrow>
          if body = [] \<or> kcKeySetMaxBytes config < int (length body) then None
          else (case jlParse L body of None \<Rightarrow> None | Some parsed \<Rightarrow> eligibleClientKeys L (Some parsed) [])
      | _ \<Rightarrow> None)"

definition document_algorithm :: "CIMDMetadata \<Rightarrow> string" where
  "document_algorithm document = (if cmSigningAlg document = [] then ''RS256'' else cmSigningAlg document)"

definition cached_keys ::
  "jwk_lib \<Rightarrow> key_set_config \<Rightarrow> clientKeySetCacheKey \<Rightarrow> string \<Rightarrow> time \<Rightarrow> key_cache \<Rightarrow> jwk list option option" where
  "cached_keys L config key algorithm now cache =
     (case map_of cache key of
        None \<Rightarrow> None
      | Some entry \<Rightarrow>
          if time_sub now (ceFetchedAt entry) < kcKeySetCacheTTL config
          then Some (eligibleClientKeys L (Some (ceKeys entry)) algorithm) else None)"

definition lift_keys :: "jwk list option \<Rightarrow> string + jwk list" where
  "lift_keys r = (case r of None \<Rightarrow> Inl ErrKeySetUnavailable | Some keys \<Rightarrow> Inr keys)"

definition KeysFor ::
  "jwk_lib \<Rightarrow> key_set_config \<Rightarrow> time \<times> time \<times> time \<Rightarrow> CIMDMetadata option \<Rightarrow> key_cache \<Rightarrow>
   (string + jwk list) \<times> key_cache" where
  "KeysFor L config clocks doc cache =
     (let (now, flightNow, fetchedAt) = clocks in
      case doc of
        None \<Rightarrow> (Inl ErrKeySetUnavailable, cache)
      | Some document \<Rightarrow>
          if cmClientID document = [] then (Inl ErrKeySetUnavailable, cache)
          else case cmKeySet document of
              Some keys \<Rightarrow> (lift_keys (eligibleClientKeys L (Some keys) (document_algorithm document)), cache)
            | None \<Rightarrow>
                if cmJWKSURI document = [] then (Inl ErrKeySetUnavailable, cache)
                else
                  let key = (cmClientID document, cmJWKSURI document);
                      algorithm = document_algorithm document
                  in case cached_keys L config key algorithm now cache of
                      Some r \<Rightarrow> (lift_keys r, cache)
                    | None \<Rightarrow>
                        (case cached_keys L config key algorithm flightNow cache of
                           Some r \<Rightarrow> (lift_keys r, cache)
                         | None \<Rightarrow>
                             (case fetch_keys L config (cmJWKSURI document) of
                                None \<Rightarrow> (Inl ErrKeySetUnavailable, cache)
                              | Some eligible \<Rightarrow>
                                  (lift_keys (eligibleClientKeys L (Some eligible) algorithm),
                                   storeCacheEntry key eligible fetchedAt fetchedAt cache))))"

definition RefreshForKID ::
  "jwk_lib \<Rightarrow> key_set_config \<Rightarrow> time \<times> time \<times> time \<Rightarrow> time \<Rightarrow> time \<Rightarrow> CIMDMetadata option \<Rightarrow> string \<Rightarrow> key_cache \<Rightarrow>
   (string + jwk list) \<times> key_cache" where
  "RefreshForKID L config clocks now fetchedAt doc kid cache0 =
     (case KeysFor L config clocks doc cache0 of
        (Inl e, cache) \<Rightarrow> (Inl e, cache)
      | (Inr keys, cache) \<Rightarrow>
          (case doc of
             None \<Rightarrow> (Inr keys, cache)
           | Some document \<Rightarrow>
               if LookupKeyID kid keys \<noteq> None \<or> cmKeySet document \<noteq> None \<or> cmJWKSURI document = []
               then (Inr keys, cache)
               else
                 let key = (cmClientID document, cmJWKSURI document);
                     algorithm = document_algorithm document
                 in case map_of cache key of
                     None \<Rightarrow> (Inr keys, cache)
                   | Some entry \<Rightarrow>
                       if time_sub now (ceLastRefetchAt entry) < kcKeySetMinRefetchInterval config
                       then (lift_keys (eligibleClientKeys L (Some (ceKeys entry)) algorithm), cache)
                       else
                         let cache' = AList.update key (entry\<lparr>ceLastRefetchAt := now\<rparr>) cache
                         in (case fetch_keys L config (cmJWKSURI document) of
                               None \<Rightarrow> (Inl ErrKeySetUnavailable, cache')
                             | Some eligible \<Rightarrow>
                                 (lift_keys (eligibleClientKeys L (Some eligible) algorithm),
                                  storeCacheEntry key eligible fetchedAt now cache'))))"

section \<open>The cache is bounded\<close>

definition cache_ok :: "key_cache \<Rightarrow> bool" where
  "cache_ok cache \<longleftrightarrow> wf_gomap cache \<and> length cache \<le> maxClientKeySetCacheEntries"

lemma oldest_loop:
  "fst (fold (\<lambda>(candidate, entry) (oldestKey, oldestTime).
      if oldestKey = ([], []) \<or> time_before (ceFetchedAt entry) oldestTime
      then (candidate, ceFetchedAt entry) else (oldestKey, oldestTime)) cache (k, t)) \<in> insert k (fst ` set cache)"
  by (induction cache arbitrary: k t) (auto, fastforce+)

lemma oldest_key_mem: "cache \<noteq> [] \<Longrightarrow> oldest_key cache \<in> fst ` set cache"
proof (cases cache)
  case (Cons e l)
  obtain k entry where "e = (k, entry)" by (cases e)
  with Cons oldest_loop [of l k "ceFetchedAt entry"] show ?thesis by (simp add: oldest_key_def)
qed simp

lemma length_delete: "wf_gomap m \<Longrightarrow> k \<in> fst ` set m \<Longrightarrow> length (AList.delete k m) = length m - 1"
proof (induction m)
  case (Cons e m)
  show ?case
  proof (cases "fst e = k")
    case True
    with Cons.prems have "k \<notin> fst ` set m" by (metis distinct.simps(2) list.set_map list.simps(9))
    with True show ?thesis by (simp add: AList.delete_notin_dom)
  next
    case False
    with Cons have "length (AList.delete k m) = length m - 1" "m \<noteq> []" by auto
    with False show ?thesis by (cases m) auto
  qed
qed simp

lemma length_update: "length (AList.update k v m) = length m + (if k \<in> fst ` set m then 0 else 1)"
  by (induction m) auto

lemma map_of_key: "map_of m k = Some v \<Longrightarrow> k \<in> fst ` set m"
  by (metis domI dom_map_of_conv_image_fst)

lemma storeCacheEntry_ok: "cache_ok cache \<Longrightarrow> cache_ok (storeCacheEntry key keys t t' cache)"
proof -
  assume ok: "cache_ok cache"
  then have wf: "wf_gomap cache" by (simp add: cache_ok_def)
  show ?thesis
  proof (cases "map_of cache key")
    case None
    then have new: "key \<notin> fst ` set cache" by (simp add: map_of_eq_None_iff)
    show ?thesis
    proof (cases "maxClientKeySetCacheEntries \<le> length cache")
      case True
      then have "cache \<noteq> []" by (auto simp: maxClientKeySetCacheEntries_def)
      with True None ok length_delete [OF wf oldest_key_mem] show ?thesis
        by (auto simp: storeCacheEntry_def cache_ok_def length_update maxClientKeySetCacheEntries_def)
    next
      case False
      with None new ok show ?thesis by (simp add: storeCacheEntry_def cache_ok_def length_update)
    qed
  next
    case (Some previous)
    then have "key \<in> fst ` set cache" by (rule map_of_key)
    with Some ok show ?thesis by (simp add: storeCacheEntry_def cache_ok_def length_update)
  qed
qed

lemma KeysFor_cases:
  "snd (KeysFor L config clocks doc cache) = cache \<or>
   (\<exists>document eligible t. doc = Some document \<and> fetch_keys L config (cmJWKSURI document) = Some eligible \<and>
      snd (KeysFor L config clocks doc cache) =
        storeCacheEntry (cmClientID document, cmJWKSURI document) eligible t t cache)"
  by (auto simp: KeysFor_def Let_def split: option.splits if_splits prod.splits)

lemma KeysFor_ok: "cache_ok cache \<Longrightarrow> cache_ok (snd (KeysFor L config clocks doc cache))"
  using KeysFor_cases [of L config clocks doc cache] storeCacheEntry_ok [of cache] by auto

lemma RefreshForKID_ok: "cache_ok cache \<Longrightarrow> cache_ok (snd (RefreshForKID L config clocks now t doc kid cache))"
proof -
  assume ok: "cache_ok cache"
  obtain r cache1 where k: "KeysFor L config clocks doc cache = (r, cache1)" by force
  with KeysFor_ok [OF ok, of L config clocks doc] have ok1: "cache_ok cache1" by simp
  have upd: "cache_ok (AList.update key e cache1)" if "map_of cache1 key = Some e'" for key e e'
    using ok1 that by (simp add: cache_ok_def length_update map_of_key [OF that])
  show ?thesis
    using ok1 upd
    by (auto simp: RefreshForKID_def k Let_def storeCacheEntry_ok split: option.splits sum.splits if_splits)
qed

text \<open>Any sequence of calls on a new cache, for any documents, fetch results and clocks.\<close>

inductive key_cache_run :: "key_cache \<Rightarrow> bool" where
  new: "key_cache_run []"
| keys: "key_cache_run cache \<Longrightarrow> key_cache_run (snd (KeysFor L config clocks doc cache))"
| refresh: "key_cache_run cache \<Longrightarrow> key_cache_run (snd (RefreshForKID L config clocks now t doc kid cache))"

lemma key_cache_run_ok: "key_cache_run cache \<Longrightarrow> cache_ok cache"
  by (induction rule: key_cache_run.induct) (simp_all add: KeysFor_ok RefreshForKID_ok, simp add: cache_ok_def)

section \<open>Only eligible keys are served\<close>

text \<open>What is relied on of the JWK library: the public part of an eligible key is eligible, and
  adding a key to a set adds nothing else.\<close>

definition jwk_lib_ok :: "jwk_lib \<Rightarrow> bool" where
  "jwk_lib_ok L \<longleftrightarrow>
     (\<forall>key pub alg. jlPublicKey L key = Some pub \<longrightarrow> clientKeyEligible (Some key) alg \<longrightarrow> clientKeyEligible (Some pub) alg) \<and>
     (\<forall>fs key fs'. jlAddKey L fs key = Some fs' \<longrightarrow> set fs' \<subseteq> insert key (set fs))"

lemma eligible_loop:
  assumes "jwk_lib_ok L"
    and "fold (\<lambda>key filtered. case filtered of None \<Rightarrow> None | Some fs \<Rightarrow>
        if \<not> clientKeyEligible (Some key) alg then Some fs
        else case jlPublicKey L key of None \<Rightarrow> Some fs | Some publicKey \<Rightarrow> jlAddKey L fs publicKey) keys acc = Some out"
    and "\<forall>fs. acc = Some fs \<longrightarrow> (\<forall>k \<in> set fs. clientKeyEligible (Some k) alg)"
  shows "\<forall>k \<in> set out. clientKeyEligible (Some k) alg"
  using assms(2,3)
proof (induction keys arbitrary: acc)
  case (Cons key keys)
  let ?acc = "case acc of None \<Rightarrow> None | Some fs \<Rightarrow> if \<not> clientKeyEligible (Some key) alg then Some fs
        else case jlPublicKey L key of None \<Rightarrow> Some fs | Some publicKey \<Rightarrow> jlAddKey L fs publicKey"
  have "\<forall>fs. ?acc = Some fs \<longrightarrow> (\<forall>k \<in> set fs. clientKeyEligible (Some k) alg)"
  proof (intro allI impI ballI)
    fix fs k assume a: "?acc = Some fs" "k \<in> set fs"
    then obtain gs where gs: "acc = Some gs" by (cases acc) auto
    with a consider "k \<in> set gs" | pub where "clientKeyEligible (Some key) alg" "jlPublicKey L key = Some pub" "jlAddKey L gs pub = Some fs"
      by (auto split: if_splits option.splits)
    then show "clientKeyEligible (Some k) alg"
    proof cases
      case 1
      with gs Cons.prems(2) show ?thesis by blast
    next
      case 2
      from assms(1) 2(3) have "set fs \<subseteq> insert pub (set gs)" unfolding jwk_lib_ok_def by blast
      moreover from assms(1) 2(1,2) have "clientKeyEligible (Some pub) alg" unfolding jwk_lib_ok_def by blast
      ultimately show ?thesis using a(2) gs Cons.prems(2) by blast
    qed
  qed
  with Cons.IH [of ?acc] Cons.prems(1) show ?case by simp
qed simp

lemma eligibleClientKeys_eligible:
  "jwk_lib_ok L \<Longrightarrow> eligibleClientKeys L source alg = Some out \<Longrightarrow> k \<in> set out \<Longrightarrow> clientKeyEligible (Some k) alg"
  using eligible_loop [of L alg _ "Some []" out] by (auto simp: eligibleClientKeys_def split: option.splits)

lemma lift_keys_Inr: "lift_keys r = Inr keys \<longleftrightarrow> r = Some keys"
  by (auto simp: lift_keys_def split: option.splits)

lemma KeysFor_filtered:
  "fst (KeysFor L config clocks (Some document) cache) = Inr keys \<Longrightarrow>
   \<exists>source. eligibleClientKeys L source (document_algorithm document) = Some keys"
  by (auto simp: KeysFor_def cached_keys_def Let_def lift_keys_Inr split: option.splits if_splits prod.splits)

lemma RefreshForKID_filtered:
  assumes "fst (RefreshForKID L config clocks now t (Some document) kid cache) = Inr keys"
  shows "\<exists>source. eligibleClientKeys L source (document_algorithm document) = Some keys"
proof -
  obtain r cache1 where k: "KeysFor L config clocks (Some document) cache = (r, cache1)" by force
  with assms KeysFor_filtered [of L config clocks document cache] show ?thesis
    by (auto simp: RefreshForKID_def Let_def lift_keys_Inr split: option.splits if_splits sum.splits)
qed

section \<open>Properties\<close>

definition demo_jwk :: jwk where
  "demo_jwk = \<lparr>jkKeyID = Some ''k'', jkAlgorithm = None, jkKeyUsage = Some ''sig'', jkKeyOps = None, jkKeyType = ''EC'',
     jkMembers = [''kty'', ''crv'', ''x'', ''y''], jkRSAPublic = False, jkN = None, jkECPublic = True, jkCrv = Some ''P-256''\<rparr>"

definition demo_jwk_lib :: jwk_lib where
  "demo_jwk_lib = \<lparr>jlFetch = (\<lambda>_. None), jlParse = (\<lambda>_. None), jlPublicKey = Some, jlAddKey = (\<lambda>fs k. Some (fs @ [k]))\<rparr>"

definition demo_document :: CIMDMetadata where
  "demo_document = \<lparr>cmClientID = ''https://c'', cmAuthMethod = ''private_key_jwt'', cmSigningAlg = ''ES256'', cmJWKSURI = [],
     cmKeySet = Some [demo_jwk], cmRedirectURIs = [], cmGrantTypes = []\<rparr>"

definition demo_config :: key_set_config where
  "demo_config = \<lparr>kcKeySetCacheTTL = 10, kcKeySetMaxBytes = 100, kcKeySetMinRefetchInterval = 5\<rparr>"

text \<open>
  Whatever a client publishes, inline or at its URL, every key the service hands out is a public
  signature verification key of the algorithm of the client's document: RSA with a modulus of at
  least 2048 bits, or P-256; never one with private members.
\<close>

theorem served_keys_eligible:
  assumes "jwk_lib_ok L"
    and "fst (KeysFor L config clocks (Some document) cache) = Inr keys \<or>
      fst (RefreshForKID L config clocks now t (Some document) kid cache) = Inr keys"
    and "k \<in> set keys"
  shows "\<not> hasPrivateKeyMaterial k \<and> (jkKeyUsage k = None \<or> jkKeyUsage k = Some ''sig'') \<and>
    (document_algorithm document = ''RS256'' \<and> jkKeyType k = ''RSA'' \<and> (\<exists>n. jkN k = Some n \<and> 2 ^ 2047 \<le> n) \<or>
     document_algorithm document = ''ES256'' \<and> jkKeyType k = ''EC'' \<and> jkCrv k = Some ''P-256'')"
proof -
  from assms(2) obtain source where "eligibleClientKeys L source (document_algorithm document) = Some keys"
    using KeysFor_filtered RefreshForKID_filtered by blast
  from eligibleClientKeys_eligible [OF assms(1) this assms(3)] have e: "clientKeyEligible (Some k) (document_algorithm document)" .
  have "document_algorithm document \<noteq> []" by (simp add: document_algorithm_def)
  with e show ?thesis
    by (auto simp: clientKeyEligible_def bitLen_at_least_def simp del: power_numeral split: if_splits option.splits)
qed

theorem served_keys_eligible_witness:
  "jkCrv demo_jwk = Some ''P-256'' \<and> \<not> hasPrivateKeyMaterial demo_jwk"
proof -
  have ok: "jwk_lib_ok demo_jwk_lib" by (auto simp: jwk_lib_ok_def demo_jwk_lib_def)
  have keys: "fst (KeysFor demo_jwk_lib demo_config (0, 0, 0) (Some demo_document) []) = Inr [demo_jwk]"
    by (simp add: KeysFor_def demo_document_def document_algorithm_def lift_keys_def eligibleClientKeys_def demo_jwk_lib_def
        clientKeyEligible_def demo_jwk_def hasPrivateKeyMaterial_def)
  from served_keys_eligible [OF ok disjI1 [OF keys]] show ?thesis
    by (auto simp: demo_document_def document_algorithm_def)
qed

text \<open>
  No sequence of calls, for however many clients, makes the key cache hold more than 1000 key
  sets.
\<close>

theorem key_cache_bounded:
  assumes "key_cache_run cache"
  shows "length cache \<le> 1000"
  using key_cache_run_ok [OF assms] by (simp add: cache_ok_def maxClientKeySetCacheEntries_def)

theorem key_cache_bounded_witness:
  "length (snd (KeysFor demo_jwk_lib demo_config (0, 0, 0) (Some demo_document) [])) \<le> 1000"
  by (rule key_cache_bounded [OF key_cache_run.keys [OF key_cache_run.new]])

end
