(* ===== verification/Token_Stores.thy ===== *)
theory Token_Stores
  imports Tool_Approval
begin

text \<open>
  The records the local OAuth2 issuer keeps and their in-memory stores: authorization codes, PKCE
  sessions, refresh token sessions, spent client assertions and client credentials
  (\<^verbatim>\<open>internal/domain/storage\<close>, \<^verbatim>\<open>internal/adapters/storage/memory\<close>), and the sweep of
  \<^verbatim>\<open>internal/domain/oauth2server/session_cleanup.go\<close>. Every method holds the store's lock, so
  it is one step; the clock it reads is an argument.

  An authorization code is reached through two maps and changed in place through one of them, so
  its store has a heap of codes and maps to addresses. The other stores replace or change an
  entry through the only map that reaches it, or never change it, and their maps hold values. An
  UUID is its canonical text; the zero UUID is the one of zeros.
\<close>

section \<open>Records\<close>

definition uuid_nil :: string where
  "uuid_nil = ''00000000-0000-0000-0000-000000000000''"

definition invalid :: "string \<Rightarrow> string \<Rightarrow> StorageError option" where
  "invalid op msg = Some (StorageError op ErrorKindValidation msg)"

record AuthorizationCode =
  acID :: string
  acCodeHash :: string
  acAgentID :: agent_id
  acClientID :: string
  acPrincipal :: principal
  acEmail :: "string option"
  acDisplayName :: string
  acRedirectURI :: string
  acCodeChallenge :: string
  acScope :: string
  acExpiresAt :: time
  acUsedAt :: "time option"
  acCreatedAt :: time

definition AuthorizationCode_Validate :: "AuthorizationCode \<Rightarrow> StorageError option" where
  "AuthorizationCode_Validate c =
     (if acCodeHash c = [] then invalid ''AuthorizationCode.Validate'' ''code_hash is required''
      else if acAgentID c = uuid_nil then invalid ''AuthorizationCode.Validate'' ''agent_id is required''
      else if acPrincipal c = [] then invalid ''AuthorizationCode.Validate'' ''principal is required''
      else if acRedirectURI c = [] then invalid ''AuthorizationCode.Validate'' ''redirect_uri is required''
      else if acCodeChallenge c = [] then invalid ''AuthorizationCode.Validate'' ''code_challenge is required''
      else if time_is_zero (acExpiresAt c) then invalid ''AuthorizationCode.Validate'' ''expires_at is required''
      else None)"

record PKCESession =
  pkSignature :: string
  pkCodeChallenge :: string
  pkCodeChallengeMethod :: string
  pkExpiresAt :: time
  pkCreatedAt :: time

definition PKCESession_Validate :: "PKCESession \<Rightarrow> StorageError option" where
  "PKCESession_Validate p =
     (if pkSignature p = [] then invalid ''PKCESession.Validate'' ''signature is required''
      else if pkCodeChallenge p = [] then invalid ''PKCESession.Validate'' ''code_challenge is required''
      else if time_is_zero (pkExpiresAt p) then invalid ''PKCESession.Validate'' ''expires_at is required''
      else None)"

record RefreshTokenSession =
  rtSignature :: string
  rtRequestID :: string
  rtAgentID :: agent_id
  rtClientID :: string
  rtPrincipal :: principal
  rtGrantID :: "string option"
  rtEmail :: "string option"
  rtDisplayName :: string
  rtScope :: string
  rtClientAuthMethod :: "string option"
  rtExpiresAt :: time
  rtUsedAt :: "time option"
  rtCreatedAt :: time

definition RefreshTokenSession_Validate :: "RefreshTokenSession \<Rightarrow> StorageError option" where
  "RefreshTokenSession_Validate s =
     (if rtSignature s = [] then invalid ''RefreshTokenSession.Validate'' ''signature is required''
      else if rtRequestID s = [] then invalid ''RefreshTokenSession.Validate'' ''request_id is required''
      else if rtAgentID s = uuid_nil then invalid ''RefreshTokenSession.Validate'' ''agent_id is required''
      else if rtClientID s = [] then invalid ''RefreshTokenSession.Validate'' ''client_id is required''
      else if rtPrincipal s = [] then invalid ''RefreshTokenSession.Validate'' ''principal is required''
      else if time_is_zero (rtExpiresAt s) then invalid ''RefreshTokenSession.Validate'' ''expires_at is required''
      else if rtClientAuthMethod s \<noteq> None \<and> rtClientAuthMethod s \<noteq> Some ''private_key_jwt''
      then invalid ''RefreshTokenSession.Validate'' ''client_auth_method is unsupported''
      else None)"

record ClientAssertionReplay =
  carClientID :: string
  carJTI :: string
  carExpiresAt :: time

definition ClientAssertionReplay_Validate :: "ClientAssertionReplay \<Rightarrow> StorageError option" where
  "ClientAssertionReplay_Validate r =
     (if carClientID r = [] then invalid ''ClientAssertionReplay.Validate'' ''client_id is required''
      else if carJTI r = [] then invalid ''ClientAssertionReplay.Validate'' ''jti is required''
      else if time_is_zero (carExpiresAt r) then invalid ''ClientAssertionReplay.Validate'' ''expires_at is required''
      else None)"

record ClientCredential =
  ccID :: string
  ccAgentID :: agent_id
  ccSecretHash :: string
  ccCreatedAt :: time
  ccRotatedAt :: "time option"

definition ClientCredential_Validate :: "ClientCredential \<Rightarrow> StorageError option" where
  "ClientCredential_Validate c =
     (if ccAgentID c = uuid_nil then invalid ''ClientCredential.Validate'' ''agent_id is required''
      else if ccSecretHash c = [] then invalid ''ClientCredential.Validate'' ''secret_hash is required''
      else None)"

section \<open>Removing what has expired\<close>

text \<open>The loop of the \<^verbatim>\<open>DeleteExpired\<close> methods over one map: the number of removed entries and
  the map that is left.\<close>

definition sweep_expired :: "('v \<Rightarrow> time) \<Rightarrow> time \<Rightarrow> ('k, 'v) gomap \<Rightarrow> nat \<times> ('k, 'v) gomap" where
  "sweep_expired expiry now m =
     fold (\<lambda>(k, v) (count, left). if time_before (expiry v) now then (count + 1, AList.delete k left) else (count, left))
       m (0, m)"

lemma sweep_loop:
  "fold (\<lambda>(k, v) (count, left). if time_before (expiry v) now then (count + 1, AList.delete k left) else (count, left)) l (n, m) =
   (n + length (filter (\<lambda>(k, v). time_before (expiry v) now) l),
    filter (\<lambda>(k, _). \<forall>v. (k, v) \<in> set l \<longrightarrow> \<not> time_before (expiry v) now) m)"
proof (induction l arbitrary: n m)
  case (Cons e l)
  obtain k v where e: "e = (k, v)" by force
  show ?case
  proof (cases "time_before (expiry v) now")
    case True
    have "filter (\<lambda>(j, _). \<forall>w. (j, w) \<in> set l \<longrightarrow> \<not> time_before (expiry w) now) (AList.delete k m) =
        filter (\<lambda>(j, _). \<forall>w. (j, w) \<in> set (e # l) \<longrightarrow> \<not> time_before (expiry w) now) m"
      unfolding AList.delete_eq filter_filter by (rule filter_cong) (auto simp: e True)
    with Cons True show ?thesis by (simp add: e)
  next
    case False
    then have "(\<forall>w. (j, w) \<in> set (e # l) \<longrightarrow> \<not> time_before (expiry w) now) \<longleftrightarrow>
        (\<forall>w. (j, w) \<in> set l \<longrightarrow> \<not> time_before (expiry w) now)" for j
      by (auto simp: e)
    with Cons False show ?thesis by (simp add: e)
  qed
qed simp

lemma sweep_expired_filter:
  assumes "wf_gomap m"
  shows "sweep_expired expiry now m =
    (length (filter (\<lambda>(k, v). time_before (expiry v) now) m), filter (\<lambda>(k, v). \<not> time_before (expiry v) now) m)"
proof -
  have "filter (\<lambda>(k, _). \<forall>v. (k, v) \<in> set m \<longrightarrow> \<not> time_before (expiry v) now) m =
      filter (\<lambda>(k, v). \<not> time_before (expiry v) now) m"
  proof (rule filter_cong [OF refl], clarify)
    fix k v assume kv: "(k, v) \<in> set m"
    have "v' = v" if "(k, v') \<in> set m" for v'
    proof -
      from kv that have "map_of m k = Some v" "map_of m k = Some v'" unfolding map_of_mem_iff [OF assms] by simp_all
      then show ?thesis by simp
    qed
    with kv show "(\<forall>v. (k, v) \<in> set m \<longrightarrow> \<not> time_before (expiry v) now) \<longleftrightarrow> \<not> time_before (expiry v) now"
      by blast
  qed
  then show ?thesis by (simp add: sweep_expired_def sweep_loop)
qed

section \<open>The stores\<close>

subsection \<open>Authorization codes\<close>

record code_store =
  csHeap :: "AuthorizationCode list"
  csByID :: "(string, nat) gomap"
  csByCodeHash :: "(string, nat) gomap"

definition NewAuthorizationCodeStore :: code_store where
  "NewAuthorizationCodeStore = \<lparr>csHeap = [], csByID = [], csByCodeHash = []\<rparr>"

definition cs_Create :: "AuthorizationCode \<Rightarrow> code_store \<Rightarrow> StorageError option \<times> code_store" where
  "cs_Create code s =
     (if map_of (csByCodeHash s) (acCodeHash code) \<noteq> None
      then (Some (StorageError ''AuthorizationCodeStore.Create'' ErrorKindConflict
              (''authorization code with hash '' @ acCodeHash code @ '' already exists'')), s)
      else (None, \<lparr>csHeap = csHeap s @ [code],
                   csByID = AList.update (acID code) (length (csHeap s)) (csByID s),
                   csByCodeHash = AList.update (acCodeHash code) (length (csHeap s)) (csByCodeHash s)\<rparr>))"

definition cs_FindByCodeHash :: "time \<Rightarrow> string \<Rightarrow> code_store \<Rightarrow> StorageError + AuthorizationCode" where
  "cs_FindByCodeHash now codeHash s =
     (case map_of (csByCodeHash s) codeHash of
        Some a \<Rightarrow>
          if time_after (acExpiresAt (csHeap s ! a)) now then Inr (csHeap s ! a)
          else Inl (StorageError ''AuthorizationCodeStore.FindByCodeHash'' ErrorKindNotFound
                 (''authorization code with hash '' @ codeHash @ '' not found''))
      | None \<Rightarrow> Inl (StorageError ''AuthorizationCodeStore.FindByCodeHash'' ErrorKindNotFound
                 (''authorization code with hash '' @ codeHash @ '' not found'')))"

definition cs_MarkUsed :: "time \<Rightarrow> string \<Rightarrow> code_store \<Rightarrow> StorageError option \<times> code_store" where
  "cs_MarkUsed now codeID s =
     (case map_of (csByID s) codeID of
        None \<Rightarrow> (Some (StorageError ''AuthorizationCodeStore.MarkUsed'' ErrorKindNotFound
                   (''authorization code '' @ codeID @ '' not found'')), s)
      | Some a \<Rightarrow> (None, s\<lparr>csHeap := (csHeap s)[a := (csHeap s ! a)\<lparr>acUsedAt := Some now\<rparr>]\<rparr>))"

definition cs_DeleteExpired :: "time \<Rightarrow> code_store \<Rightarrow> nat \<times> code_store" where
  "cs_DeleteExpired now s =
     fold (\<lambda>(hash, a) (count, s').
         if time_before (acExpiresAt (csHeap s ! a)) now
         then (count + 1, s'\<lparr>csByID := AList.delete (acID (csHeap s ! a)) (csByID s'),
                             csByCodeHash := AList.delete hash (csByCodeHash s')\<rparr>)
         else (count, s')) (csByCodeHash s) (0, s)"

subsection \<open>PKCE sessions\<close>

type_synonym pkce_store = "(string, PKCESession) gomap"

definition NewPKCESessionStore :: pkce_store where
  "NewPKCESessionStore = []"

definition pkce_not_found :: "string \<Rightarrow> string \<Rightarrow> StorageError" where
  "pkce_not_found op signature =
     StorageError op ErrorKindNotFound (''PKCE session with signature '' @ signature @ '' not found'')"

definition pkce_Create :: "PKCESession \<Rightarrow> pkce_store \<Rightarrow> StorageError option \<times> pkce_store" where
  "pkce_Create session s =
     (if map_of s (pkSignature session) \<noteq> None
      then (Some (StorageError ''PKCESessionStore.Create'' ErrorKindConflict
              (''PKCE session with signature '' @ pkSignature session @ '' already exists'')), s)
      else (None, AList.update (pkSignature session) session s))"

definition pkce_FindBySignature :: "string \<Rightarrow> pkce_store \<Rightarrow> StorageError + PKCESession" where
  "pkce_FindBySignature signature s =
     (case map_of s signature of
        None \<Rightarrow> Inl (pkce_not_found ''PKCESessionStore.FindBySignature'' signature)
      | Some session \<Rightarrow> Inr session)"

definition pkce_Delete :: "string \<Rightarrow> pkce_store \<Rightarrow> StorageError option \<times> pkce_store" where
  "pkce_Delete signature s =
     (if map_of s signature = None then (Some (pkce_not_found ''PKCESessionStore.Delete'' signature), s)
      else (None, AList.delete signature s))"

definition pkce_DeleteExpired :: "time \<Rightarrow> pkce_store \<Rightarrow> nat \<times> pkce_store" where
  "pkce_DeleteExpired now s = sweep_expired pkExpiresAt now s"

subsection \<open>Refresh token sessions\<close>

text \<open>The store's own entry: the session and whether its chain was revoked.\<close>

record refreshTokenSession =
  reSession :: RefreshTokenSession
  reRevoked :: bool

type_synonym refresh_store = "(string, refreshTokenSession) gomap"

definition NewRefreshTokenSessionStore :: refresh_store where
  "NewRefreshTokenSessionStore = []"

definition refresh_createLocked :: "RefreshTokenSession \<Rightarrow> refresh_store \<Rightarrow> StorageError option \<times> refresh_store" where
  "refresh_createLocked session s =
     (if map_of s (rtSignature session) \<noteq> None
      then (Some (StorageError ''RefreshTokenSessionStore.Create'' ErrorKindConflict
              (''refresh token session with signature '' @ rtSignature session @ '' already exists'')), s)
      else (None, AList.update (rtSignature session) \<lparr>reSession = session, reRevoked = False\<rparr> s))"

definition refresh_Create :: "RefreshTokenSession \<Rightarrow> refresh_store \<Rightarrow> StorageError option \<times> refresh_store" where
  "refresh_Create session s = refresh_createLocked session s"

definition refresh_CreateSuccessor ::
  "RefreshTokenSession \<Rightarrow> string \<Rightarrow> refresh_store \<Rightarrow> StorageError option \<times> refresh_store" where
  "refresh_CreateSuccessor session previousSignature s =
     (case map_of s previousSignature of
        None \<Rightarrow> (Some (StorageError ''RefreshTokenSessionStore.CreateSuccessor'' ErrorKindNotFound
                   ''refresh chain is no longer active''), s)
      | Some previous \<Rightarrow>
          if reRevoked previous \<or> rtUsedAt (reSession previous) = None \<or>
             rtRequestID (reSession previous) \<noteq> rtRequestID session
          then (Some (StorageError ''RefreshTokenSessionStore.CreateSuccessor'' ErrorKindNotFound
                  ''refresh chain is no longer active''), s)
          else refresh_createLocked session s)"

definition refresh_FindBySignature :: "string \<Rightarrow> refresh_store \<Rightarrow> StorageError + RefreshTokenSession" where
  "refresh_FindBySignature signature s =
     (case map_of s signature of
        None \<Rightarrow> Inl (StorageError ''RefreshTokenSessionStore.FindBySignature'' ErrorKindNotFound
                   (''refresh token session with signature '' @ signature @ '' not found''))
      | Some e \<Rightarrow> Inr (reSession e))"

definition refresh_MarkUsed :: "time \<Rightarrow> string \<Rightarrow> refresh_store \<Rightarrow> StorageError option \<times> refresh_store" where
  "refresh_MarkUsed now signature s =
     (case map_of s signature of
        None \<Rightarrow> (Some (StorageError ''RefreshTokenSessionStore.MarkUsed'' ErrorKindNotFound
                   (''refresh token session with signature '' @ signature @ '' not found'')), s)
      | Some e \<Rightarrow>
          if rtUsedAt (reSession e) \<noteq> None
          then (Some (StorageError ''RefreshTokenSessionStore.MarkUsed'' ErrorKindNotFound
                  ''refresh token session not found or already used''), s)
          else (None, AList.update signature (e\<lparr>reSession := (reSession e)\<lparr>rtUsedAt := Some now\<rparr>\<rparr>) s))"

text \<open>The body of the two revocation loops for a session they pick.\<close>

definition revoke_entry :: "time \<Rightarrow> refreshTokenSession \<Rightarrow> refreshTokenSession" where
  "revoke_entry now e =
     (if rtUsedAt (reSession e) = None
      then e\<lparr>reRevoked := True, reSession := (reSession e)\<lparr>rtUsedAt := Some now\<rparr>\<rparr>
      else e\<lparr>reRevoked := True\<rparr>)"

definition refresh_RevokeByRequestID :: "time \<Rightarrow> string \<Rightarrow> refresh_store \<Rightarrow> refresh_store" where
  "refresh_RevokeByRequestID now requestID s =
     map (\<lambda>(sig, e). (sig, if rtRequestID (reSession e) = requestID then revoke_entry now e else e)) s"

definition agent_session :: "agent_id \<Rightarrow> principal option \<Rightarrow> refreshTokenSession \<Rightarrow> bool" where
  "agent_session agentID prin e \<longleftrightarrow>
     rtAgentID (reSession e) = agentID \<and> (prin = None \<or> prin = Some (rtPrincipal (reSession e)))"

definition revokeByAgent :: "time \<Rightarrow> agent_id \<Rightarrow> principal option \<Rightarrow> refresh_store \<Rightarrow> nat \<times> refresh_store" where
  "revokeByAgent now agentID prin s =
     (length (filter (\<lambda>(_, e). agent_session agentID prin e \<and> rtUsedAt (reSession e) = None) s),
      map (\<lambda>(sig, e). (sig, if agent_session agentID prin e then revoke_entry now e else e)) s)"

definition refresh_RevokeByPrincipalAndAgent ::
  "time \<Rightarrow> principal \<Rightarrow> agent_id \<Rightarrow> refresh_store \<Rightarrow> nat \<times> refresh_store" where
  "refresh_RevokeByPrincipalAndAgent now prin agentID s = revokeByAgent now agentID (Some prin) s"

definition refresh_RevokeByAgent :: "time \<Rightarrow> agent_id \<Rightarrow> refresh_store \<Rightarrow> nat \<times> refresh_store" where
  "refresh_RevokeByAgent now agentID s = revokeByAgent now agentID None s"

definition refresh_DeleteExpired :: "time \<Rightarrow> refresh_store \<Rightarrow> nat \<times> refresh_store" where
  "refresh_DeleteExpired now s = sweep_expired (\<lambda>e. rtExpiresAt (reSession e)) now s"

subsection \<open>Spent client assertions\<close>

type_synonym replay_store = "(string \<times> string, time) gomap"

definition NewClientAssertionReplayStore :: replay_store where
  "NewClientAssertionReplayStore = []"

definition replay_Consume :: "string \<Rightarrow> string \<Rightarrow> time \<Rightarrow> replay_store \<Rightarrow> StorageError option \<times> replay_store" where
  "replay_Consume clientID jti expiresAt s =
     (case ClientAssertionReplay_Validate \<lparr>carClientID = clientID, carJTI = jti, carExpiresAt = expiresAt\<rparr> of
        Some e \<Rightarrow> (Some e, s)
      | None \<Rightarrow>
          if map_of s (clientID, jti) \<noteq> None
          then (Some (StorageError ''ClientAssertionReplayStore.Consume'' ErrorKindConflict
                  ''client assertion jti was already consumed''), s)
          else (None, AList.update (clientID, jti) expiresAt s))"

definition replay_DeleteExpired :: "time \<Rightarrow> replay_store \<Rightarrow> nat \<times> replay_store" where
  "replay_DeleteExpired now s = sweep_expired (\<lambda>t. t) now s"

subsection \<open>Client credentials\<close>

record credential_store =
  crByID :: "(string, ClientCredential) gomap"
  crByAgentID :: "(agent_id, ClientCredential) gomap"

definition NewClientCredentialStore :: credential_store where
  "NewClientCredentialStore = \<lparr>crByID = [], crByAgentID = []\<rparr>"

definition cred_Create :: "ClientCredential \<Rightarrow> credential_store \<Rightarrow> StorageError option \<times> credential_store" where
  "cred_Create credential s =
     (if map_of (crByAgentID s) (ccAgentID credential) \<noteq> None
      then (Some (StorageError ''ClientCredentialStore.Create'' ErrorKindConflict
              (''credential for agent '' @ ccAgentID credential @ '' already exists'')), s)
      else (None, \<lparr>crByID = AList.update (ccID credential) credential (crByID s),
                   crByAgentID = AList.update (ccAgentID credential) credential (crByAgentID s)\<rparr>))"

definition cred_GetByAgentID :: "agent_id \<Rightarrow> credential_store \<Rightarrow> StorageError + ClientCredential" where
  "cred_GetByAgentID agentID s =
     (case map_of (crByAgentID s) agentID of
        None \<Rightarrow> Inl (StorageError ''ClientCredentialStore.GetByAgentID'' ErrorKindNotFound
                   (''no credential for agent '' @ agentID))
      | Some cred \<Rightarrow> Inr cred)"

text \<open>\<^verbatim>\<open>uuid.Parse\<close> is the argument \<open>parse\<close>.\<close>

definition cred_GetByClientID ::
  "(string \<Rightarrow> string option) \<Rightarrow> string \<Rightarrow> credential_store \<Rightarrow> StorageError + ClientCredential" where
  "cred_GetByClientID parse clientID s =
     (case parse clientID of
        None \<Rightarrow> Inl (StorageError ''ClientCredentialStore.GetByClientID'' ErrorKindNotFound
                   (''invalid client_id '' @ clientID))
      | Some agentID \<Rightarrow> cred_GetByAgentID agentID s)"

definition cred_Delete :: "agent_id \<Rightarrow> credential_store \<Rightarrow> StorageError option \<times> credential_store" where
  "cred_Delete agentID s =
     (case map_of (crByAgentID s) agentID of
        None \<Rightarrow> (Some (StorageError ''ClientCredentialStore.Delete'' ErrorKindNotFound
                   (''no credential for agent '' @ agentID)), s)
      | Some cred \<Rightarrow> (None, \<lparr>crByID = AList.delete (ccID cred) (crByID s),
                            crByAgentID = AList.delete agentID (crByAgentID s)\<rparr>))"

definition cred_Rotate :: "agent_id \<Rightarrow> ClientCredential \<Rightarrow> credential_store \<Rightarrow> StorageError option \<times> credential_store" where
  "cred_Rotate agentID newCredential s =
     (case map_of (crByAgentID s) agentID of
        None \<Rightarrow> (Some (StorageError ''ClientCredentialStore.Rotate'' ErrorKindNotFound
                   (''no existing credential for agent '' @ agentID)), s)
      | Some old \<Rightarrow> (None, \<lparr>crByID = AList.update (ccID newCredential) newCredential (AList.delete (ccID old) (crByID s)),
                           crByAgentID = AList.update agentID newCredential (crByAgentID s)\<rparr>))"

section \<open>The codes as a map\<close>

definition cs_invar :: "code_store \<Rightarrow> bool" where
  "cs_invar s \<longleftrightarrow> wf_gomap (csByID s) \<and> wf_gomap (csByCodeHash s) \<and>
     (\<forall>i a. map_of (csByID s) i = Some a \<longrightarrow> a < length (csHeap s) \<and> acID (csHeap s ! a) = i \<and>
        map_of (csByCodeHash s) (acCodeHash (csHeap s ! a)) = Some a) \<and>
     (\<forall>h a. map_of (csByCodeHash s) h = Some a \<longrightarrow> a < length (csHeap s) \<and> acCodeHash (csHeap s ! a) = h \<and>
        map_of (csByID s) (acID (csHeap s ! a)) = Some a)"

definition cs_abs :: "code_store \<Rightarrow> string \<rightharpoonup> AuthorizationCode" where
  "cs_abs s h = map_option (\<lambda>a. csHeap s ! a) (map_of (csByCodeHash s) h)"

definition fresh_code_id :: "code_store \<Rightarrow> string \<Rightarrow> bool" where
  "fresh_code_id s i \<longleftrightarrow> map_of (csByID s) i = None"

lemma cs_hashD:
  "cs_invar s \<Longrightarrow> map_of (csByCodeHash s) h = Some a \<Longrightarrow>
   a < length (csHeap s) \<and> acCodeHash (csHeap s ! a) = h \<and> map_of (csByID s) (acID (csHeap s ! a)) = Some a"
  unfolding cs_invar_def by blast

lemma cs_idD:
  "cs_invar s \<Longrightarrow> map_of (csByID s) i = Some a \<Longrightarrow>
   a < length (csHeap s) \<and> acID (csHeap s ! a) = i \<and> map_of (csByCodeHash s) (acCodeHash (csHeap s ! a)) = Some a"
  unfolding cs_invar_def by blast

lemma cs_Create_spec:
  assumes inv: "cs_invar s" and fresh: "fresh_code_id s (acID code)" and ok: "cs_Create code s = (None, s')"
  shows "cs_invar s' \<and> cs_abs s (acCodeHash code) = None \<and> cs_abs s' = (cs_abs s)(acCodeHash code \<mapsto> code)"
proof -
  let ?n = "length (csHeap s)" and ?h = "csHeap s @ [code]"
  from ok have new: "map_of (csByCodeHash s) (acCodeHash code) = None"
    and s': "s' = \<lparr>csHeap = ?h, csByID = AList.update (acID code) ?n (csByID s),
      csByCodeHash = AList.update (acCodeHash code) ?n (csByCodeHash s)\<rparr>"
    by (auto simp: cs_Create_def split: if_splits)
  have id: "a < Suc ?n \<and> acID (?h ! a) = i \<and> ((map_of (csByCodeHash s))(acCodeHash code \<mapsto> ?n)) (acCodeHash (?h ! a)) = Some a"
    if "((map_of (csByID s))(acID code \<mapsto> ?n)) i = Some a" for i a
    using cs_idD [OF inv, of i a] that new by (cases "i = acID code") (auto simp: nth_append)
  have hash: "a < Suc ?n \<and> acCodeHash (?h ! a) = h \<and> ((map_of (csByID s))(acID code \<mapsto> ?n)) (acID (?h ! a)) = Some a"
    if "((map_of (csByCodeHash s))(acCodeHash code \<mapsto> ?n)) h = Some a" for h a
    using cs_hashD [OF inv, of h a] that fresh by (cases "h = acCodeHash code") (auto simp: nth_append fresh_code_id_def)
  have "cs_invar s'"
    using inv id hash unfolding cs_invar_def s' by (simp add: go_map_simps del: fun_upd_apply)
  moreover have "cs_abs s' h = ((cs_abs s)(acCodeHash code \<mapsto> code)) h" for h
    using cs_hashD [OF inv, of h]
    by (cases "map_of (csByCodeHash s) h") (auto simp: cs_abs_def s' go_map_simps nth_append)
  ultimately show ?thesis using new by (auto simp: cs_abs_def)
qed

text \<open>A mark set through the identifier is seen through the hash.\<close>

lemma cs_MarkUsed_spec:
  assumes inv: "cs_invar s" and ok: "cs_MarkUsed now i s = (None, s')"
  shows "cs_invar s' \<and> (\<exists>c. acID c = i \<and> cs_abs s (acCodeHash c) = Some c \<and>
    cs_abs s' = (cs_abs s)(acCodeHash c \<mapsto> c\<lparr>acUsedAt := Some now\<rparr>))"
proof -
  from ok obtain a where a: "map_of (csByID s) i = Some a"
    and s': "s' = s\<lparr>csHeap := (csHeap s)[a := (csHeap s ! a)\<lparr>acUsedAt := Some now\<rparr>]\<rparr>"
    by (auto simp: cs_MarkUsed_def split: option.splits)
  note d = cs_idD [OF inv a]
  let ?c = "csHeap s ! a"
  have same: "acID (csHeap s' ! b) = acID (csHeap s ! b) \<and> acCodeHash (csHeap s' ! b) = acCodeHash (csHeap s ! b)" for b
    using d by (cases "b = a") (simp_all add: s')
  have "cs_invar s'" using inv same unfolding cs_invar_def by (simp add: s')
  moreover have "cs_abs s' h = ((cs_abs s)(acCodeHash ?c \<mapsto> ?c\<lparr>acUsedAt := Some now\<rparr>)) h" for h
    using cs_hashD [OF inv, of h] d
    by (cases "map_of (csByCodeHash s) h") (auto simp: cs_abs_def s' nth_list_update)
  moreover have "acID ?c = i" "cs_abs s (acCodeHash ?c) = Some ?c" using d by (simp_all add: cs_abs_def)
  ultimately show ?thesis by blast
qed

lemma cs_sweep_loop:
  "fold (\<lambda>(hash, a) (count, s'). if time_before (acExpiresAt (hp ! a)) now
      then (count + 1, s'\<lparr>csByID := AList.delete (acID (hp ! a)) (csByID s'), csByCodeHash := AList.delete hash (csByCodeHash s')\<rparr>)
      else (count, s')) l (n, s) =
   (n + length (filter (\<lambda>(_, a). time_before (acExpiresAt (hp ! a)) now) l),
    s\<lparr>csByID := filter (\<lambda>(i, _). \<forall>h a. (h, a) \<in> set l \<longrightarrow> time_before (acExpiresAt (hp ! a)) now \<longrightarrow> acID (hp ! a) \<noteq> i) (csByID s),
      csByCodeHash := filter (\<lambda>(h, _). \<forall>a. (h, a) \<in> set l \<longrightarrow> \<not> time_before (acExpiresAt (hp ! a)) now) (csByCodeHash s)\<rparr>)"
proof (induction l arbitrary: n s)
  case (Cons e l)
  obtain h a where e: "e = (h, a)" by force
  show ?case
  proof (cases "time_before (acExpiresAt (hp ! a)) now")
    case True
    have "filter (\<lambda>(i, _). \<forall>h a. (h, a) \<in> set l \<longrightarrow> time_before (acExpiresAt (hp ! a)) now \<longrightarrow> acID (hp ! a) \<noteq> i)
          (AList.delete (acID (hp ! a)) (csByID s)) =
        filter (\<lambda>(i, _). \<forall>h a. (h, a) \<in> set (e # l) \<longrightarrow> time_before (acExpiresAt (hp ! a)) now \<longrightarrow> acID (hp ! a) \<noteq> i) (csByID s)"
      unfolding AList.delete_eq filter_filter by (rule filter_cong) (auto simp: e True)
    moreover have "filter (\<lambda>(h, _). \<forall>a. (h, a) \<in> set l \<longrightarrow> \<not> time_before (acExpiresAt (hp ! a)) now) (AList.delete h (csByCodeHash s)) =
        filter (\<lambda>(h, _). \<forall>a. (h, a) \<in> set (e # l) \<longrightarrow> \<not> time_before (acExpiresAt (hp ! a)) now) (csByCodeHash s)"
      unfolding AList.delete_eq filter_filter by (rule filter_cong) (auto simp: e True)
    ultimately show ?thesis using Cons True by (simp add: e)
  next
    case False
    then have "(\<forall>h' a'. (h', a') \<in> set (e # l) \<longrightarrow> time_before (acExpiresAt (hp ! a')) now \<longrightarrow> acID (hp ! a') \<noteq> i) \<longleftrightarrow>
        (\<forall>h' a'. (h', a') \<in> set l \<longrightarrow> time_before (acExpiresAt (hp ! a')) now \<longrightarrow> acID (hp ! a') \<noteq> i)"
      "(\<forall>a'. (h', a') \<in> set (e # l) \<longrightarrow> \<not> time_before (acExpiresAt (hp ! a')) now) \<longleftrightarrow>
        (\<forall>a'. (h', a') \<in> set l \<longrightarrow> \<not> time_before (acExpiresAt (hp ! a')) now)" for i h'
      by (auto simp: e)
    with Cons False show ?thesis by (simp add: e)
  qed
qed simp

lemma cs_DeleteExpired_spec:
  assumes inv: "cs_invar s" and d: "cs_DeleteExpired now s = (n, s')"
  shows "cs_invar s' \<and>
    cs_abs s' h = (case cs_abs s h of None \<Rightarrow> None | Some c \<Rightarrow> if time_before (acExpiresAt c) now then None else Some c)"
proof -
  let ?E = "\<lambda>a. time_before (acExpiresAt (csHeap s ! a)) now"
  from inv have wf: "wf_gomap (csByID s)" "wf_gomap (csByCodeHash s)" by (simp_all add: cs_invar_def)
  from d have s': "s' = s\<lparr>
      csByID := filter (\<lambda>(i, _). \<forall>h a. (h, a) \<in> set (csByCodeHash s) \<longrightarrow> ?E a \<longrightarrow> acID (csHeap s ! a) \<noteq> i) (csByID s),
      csByCodeHash := filter (\<lambda>(h, _). \<forall>a. (h, a) \<in> set (csByCodeHash s) \<longrightarrow> \<not> ?E a) (csByCodeHash s)\<rparr>"
    by (simp add: cs_DeleteExpired_def cs_sweep_loop)
  have hash: "map_of (csByCodeHash s') h = (case map_of (csByCodeHash s) h of None \<Rightarrow> None | Some a \<Rightarrow> if ?E a then None else Some a)" for h
    using map_of_mem_iff [OF wf(2)] by (auto simp: s' map_of_filter_kv [OF wf(2)] split: option.splits)
  have id: "map_of (csByID s') i = (case map_of (csByID s) i of None \<Rightarrow> None | Some a \<Rightarrow> if ?E a then None else Some a)" for i
  proof (cases "map_of (csByID s) i")
    case (Some a)
    have "(\<forall>h b. (h, b) \<in> set (csByCodeHash s) \<longrightarrow> ?E b \<longrightarrow> acID (csHeap s ! b) \<noteq> i) \<longleftrightarrow> \<not> ?E a"
      unfolding map_of_mem_iff [OF wf(2)] using cs_idD [OF inv Some] cs_hashD [OF inv] Some
      by (metis option.inject)
    with Some show ?thesis by (simp add: s' map_of_filter_kv [OF wf(1)])
  qed (simp add: s' map_of_filter_kv [OF wf(1)])
  have heap: "csHeap s' = csHeap s" by (simp add: s')
  have "a < length (csHeap s') \<and> acID (csHeap s' ! a) = i \<and> map_of (csByCodeHash s') (acCodeHash (csHeap s' ! a)) = Some a"
    if "map_of (csByID s') i = Some a" for i a
    using that cs_idD [OF inv, of i a] by (auto simp: heap hash id split: option.splits if_splits)
  moreover have "a < length (csHeap s') \<and> acCodeHash (csHeap s' ! a) = h \<and> map_of (csByID s') (acID (csHeap s' ! a)) = Some a"
    if "map_of (csByCodeHash s') h = Some a" for h a
    using that cs_hashD [OF inv, of h a] by (auto simp: heap hash id split: option.splits if_splits)
  moreover have "wf_gomap (csByID s')" "wf_gomap (csByCodeHash s')" using wf by (simp_all add: s' distinct_map_filter)
  ultimately have "cs_invar s'" unfolding cs_invar_def by blast
  moreover have "cs_abs s' h = (case cs_abs s h of None \<Rightarrow> None | Some c \<Rightarrow> if time_before (acExpiresAt c) now then None else Some c)"
    by (simp add: cs_abs_def hash heap split: option.splits)
  ultimately show ?thesis ..
qed

section \<open>The contract of an expiring store\<close>

text \<open>A sweep at a moment removes the records that had expired before it and keeps all others.\<close>

locale expiring_store =
  fixes lookup :: "'s \<Rightarrow> 'k \<Rightarrow> 'v option"
    and expiry :: "'v \<Rightarrow> time"
    and sweep :: "time \<Rightarrow> 's \<Rightarrow> nat \<times> 's"
    and ok :: "'s \<Rightarrow> bool"
  assumes sweep_ok: "ok s \<Longrightarrow> ok (snd (sweep now s))"
    and sweep_lookup: "ok s \<Longrightarrow> lookup (snd (sweep now s)) k =
      (case lookup s k of None \<Rightarrow> None | Some v \<Rightarrow> if time_before (expiry v) now then None else Some v)"
begin

lemma keeps_live:
  "ok s \<Longrightarrow> lookup (snd (sweep now s)) k = Some v \<longleftrightarrow> lookup s k = Some v \<and> now \<le> expiry v"
  by (auto simp: sweep_lookup time_before_def split: option.splits)

lemma sweep_later:
  "ok s \<Longrightarrow> now \<le> now' \<Longrightarrow>
   lookup (snd (sweep now' (snd (sweep now s)))) = lookup (snd (sweep now' s))"
  by (rule ext) (auto simp: sweep_lookup sweep_ok time_before_def split: option.splits)

end

lemma sweep_expired_lookup:
  assumes "wf_gomap s"
  shows "wf_gomap (snd (sweep_expired expiry now s))"
    and "map_of (snd (sweep_expired expiry now s)) k =
      (case map_of s k of None \<Rightarrow> None | Some v \<Rightarrow> if time_before (expiry v) now then None else Some v)"
  using assms by (auto simp: sweep_expired_filter map_of_filter_kv distinct_map_filter split: option.splits)

interpretation codes: expiring_store cs_abs acExpiresAt cs_DeleteExpired cs_invar
proof (unfold_locales, goal_cases)
  case (1 s now) then show ?case using cs_DeleteExpired_spec [OF _ prod.collapse [symmetric]] by blast
next
  case (2 s now k) then show ?case using cs_DeleteExpired_spec [OF _ prod.collapse [symmetric]] by blast
qed

interpretation pkce: expiring_store map_of pkExpiresAt pkce_DeleteExpired "\<lambda>s. wf_gomap s"
  by unfold_locales (simp_all add: pkce_DeleteExpired_def sweep_expired_lookup)

interpretation refreshes: expiring_store map_of "\<lambda>e. rtExpiresAt (reSession e)" refresh_DeleteExpired "\<lambda>s. wf_gomap s"
  by unfold_locales (simp_all add: refresh_DeleteExpired_def sweep_expired_lookup)

interpretation replays: expiring_store map_of "\<lambda>t. t" replay_DeleteExpired "\<lambda>s. wf_gomap s"
  by unfold_locales (simp_all add: replay_DeleteExpired_def sweep_expired_lookup)

section \<open>The periodic cleanup\<close>

record issuer_store =
  isCodes :: code_store
  isPKCE :: pkce_store
  isRefresh :: refresh_store
  isReplays :: replay_store
  isCredentials :: credential_store

definition issuer_ok :: "issuer_store \<Rightarrow> bool" where
  "issuer_ok i \<longleftrightarrow> cs_invar (isCodes i) \<and> wf_gomap (isPKCE i) \<and> wf_gomap (isRefresh i) \<and> wf_gomap (isReplays i)"

definition NewSessionCleanup :: "(time \<Rightarrow> issuer_store \<Rightarrow> issuer_store) list" where
  "NewSessionCleanup =
     [\<lambda>now i. i\<lparr>isCodes := snd (cs_DeleteExpired now (isCodes i))\<rparr>,
      \<lambda>now i. i\<lparr>isPKCE := snd (pkce_DeleteExpired now (isPKCE i))\<rparr>,
      \<lambda>now i. i\<lparr>isRefresh := snd (refresh_DeleteExpired now (isRefresh i))\<rparr>,
      \<lambda>now i. i\<lparr>isReplays := snd (replay_DeleteExpired now (isReplays i))\<rparr>]"

text \<open>\<^verbatim>\<open>SessionCleanup.sweep\<close>: before each repository the context is asked, and a cancelled one
  ends the sweep. \<open>cancelled k\<close> and \<open>now k\<close> are the context and the clock at the \<open>k\<close>-th repository.
  The in-memory repositories report no error.\<close>

fun cleanup_sweep ::
  "(nat \<Rightarrow> bool) \<Rightarrow> (nat \<Rightarrow> time) \<Rightarrow> nat \<Rightarrow> (time \<Rightarrow> issuer_store \<Rightarrow> issuer_store) list \<Rightarrow> issuer_store \<Rightarrow> issuer_store" where
  "cleanup_sweep cancelled now k [] i = i"
| "cleanup_sweep cancelled now k (deleteExpired # rest) i =
     (if cancelled k then i else cleanup_sweep cancelled now (Suc k) rest (deleteExpired (now k) i))"

definition sweep :: "(nat \<Rightarrow> bool) \<Rightarrow> (nat \<Rightarrow> time) \<Rightarrow> issuer_store \<Rightarrow> issuer_store" where
  "sweep cancelled now i = cleanup_sweep cancelled now 0 NewSessionCleanup i"

definition demo_issuer :: issuer_store where
  "demo_issuer = \<lparr>isCodes = NewAuthorizationCodeStore, isPKCE = [(''s'', \<lparr>pkSignature = ''s'', pkCodeChallenge = ''c'',
       pkCodeChallengeMethod = ''S256'', pkExpiresAt = 7, pkCreatedAt = 1\<rparr>)],
     isRefresh = [], isReplays = [((''c'', ''j''), 3)], isCredentials = NewClientCredentialStore\<rparr>"

text \<open>
  A cleanup keeps the stores well formed and removes from each store it reaches exactly the
  records that had expired: codes, PKCE sessions, refresh sessions and spent assertions whose
  expiry had not passed are all still there, unchanged.
\<close>

theorem sweep_keeps_live:
  assumes "issuer_ok i" and "i' = sweep cancelled now i"
  shows "issuer_ok i' \<and> isCredentials i' = isCredentials i \<and>
    (\<forall>h c. cs_abs (isCodes i') h = Some c \<longleftrightarrow>
       cs_abs (isCodes i) h = Some c \<and> (cancelled 0 \<or> now 0 \<le> acExpiresAt c)) \<and>
    (\<forall>k v. map_of (isPKCE i') k = Some v \<longleftrightarrow>
       map_of (isPKCE i) k = Some v \<and> ((\<exists>j \<le> 1. cancelled j) \<or> now 1 \<le> pkExpiresAt v)) \<and>
    (\<forall>k e. map_of (isRefresh i') k = Some e \<longleftrightarrow>
       map_of (isRefresh i) k = Some e \<and> ((\<exists>j \<le> 2. cancelled j) \<or> now 2 \<le> rtExpiresAt (reSession e))) \<and>
    (\<forall>k t. map_of (isReplays i') k = Some t \<longleftrightarrow>
       map_of (isReplays i) k = Some t \<and> ((\<exists>j \<le> 3. cancelled j) \<or> now 3 \<le> t))"
proof -
  have ok: "cs_invar (isCodes i)" "wf_gomap (isPKCE i)" "wf_gomap (isRefresh i)" "wf_gomap (isReplays i)"
    using assms(1) by (simp_all add: issuer_ok_def)
  have ex: "(\<exists>j \<le> 1. cancelled j) \<longleftrightarrow> cancelled 0 \<or> cancelled 1"
    "(\<exists>j \<le> 2. cancelled j) \<longleftrightarrow> cancelled 0 \<or> cancelled 1 \<or> cancelled 2"
    "(\<exists>j \<le> 3. cancelled j) \<longleftrightarrow> cancelled 0 \<or> cancelled 1 \<or> cancelled 2 \<or> cancelled 3" for cancelled :: "nat \<Rightarrow> bool"
    by (auto simp: numeral_3_eq_3 numeral_2_eq_2 le_Suc_eq)
  note live = codes.keeps_live [OF ok(1)] pkce.keeps_live [OF ok(2)] refreshes.keeps_live [OF ok(3)] replays.keeps_live [OF ok(4)]
    codes.sweep_ok [OF ok(1)] pkce.sweep_ok [OF ok(2)] refreshes.sweep_ok [OF ok(3)] replays.sweep_ok [OF ok(4)]
  consider "cancelled 0" | "\<not> cancelled 0" "cancelled 1" | "\<not> cancelled 0" "\<not> cancelled 1" "cancelled 2"
    | "\<not> cancelled 0" "\<not> cancelled 1" "\<not> cancelled 2" "cancelled 3"
    | "\<not> cancelled 0" "\<not> cancelled 1" "\<not> cancelled 2" "\<not> cancelled 3" by blast
  then show ?thesis
    unfolding ex assms(2)
    by cases (simp_all add: sweep_def NewSessionCleanup_def issuer_ok_def ok live numeral_3_eq_3 numeral_2_eq_2)
qed

theorem sweep_keeps_live_witness:
  "issuer_ok (sweep (\<lambda>_. False) (\<lambda>_. 5) demo_issuer) \<and>
   map_of (isPKCE (sweep (\<lambda>_. False) (\<lambda>_. 5) demo_issuer)) ''s'' \<noteq> None \<and>
   map_of (isReplays (sweep (\<lambda>_. False) (\<lambda>_. 5) demo_issuer)) (''c'', ''j'') = None"
proof -
  let ?i = "sweep (\<lambda>_. False) (\<lambda>_. 5) demo_issuer"
  have "issuer_ok demo_issuer"
    by (simp add: issuer_ok_def demo_issuer_def NewAuthorizationCodeStore_def cs_invar_def)
  from sweep_keeps_live [OF this refl, where cancelled = "\<lambda>_. False" and now = "\<lambda>_. 5"]
  have s: "issuer_ok ?i" "\<And>k v. map_of (isPKCE ?i) k = Some v \<longleftrightarrow> map_of (isPKCE demo_issuer) k = Some v \<and> 5 \<le> pkExpiresAt v"
    "\<And>a b t. map_of (isReplays ?i) (a, b) = Some t \<longleftrightarrow> map_of (isReplays demo_issuer) (a, b) = Some t \<and> 5 \<le> t" by simp_all
  have "map_of (isReplays ?i) (''c'', ''j'') = None"
    using s(3) [of "''c''" "''j''"] by (cases "map_of (isReplays ?i) (''c'', ''j'')") (auto simp: demo_issuer_def split: if_splits)
  moreover have "map_of (isPKCE ?i) ''s'' \<noteq> None"
    using s(2) [of "''s''"] by (auto simp: demo_issuer_def)
  ultimately show ?thesis using s(1) by simp
qed

end
