(* ===== verification/Client_Assertion.thy ===== *)
theory Client_Assertion
  imports Client_Keys Token_Stores
begin

text \<open>
  \<^verbatim>\<open>internal/domain/oauth2server/client_assertion.go\<close>: the authentication of a client by a signed
  assertion (\<^verbatim>\<open>private_key_jwt\<close>), over the key set service and the store of spent assertions. The
  JOSE library is the record \<open>jose\<close>, an argument: the protected header of a parsed assertion,
  whether a signature verifies under a key, and the claims an assertion carries, which are a
  function of its text. A call of \<^verbatim>\<open>Verify\<close> reads its clock once for the claims and is one step.
\<close>

section \<open>The verifier\<close>

record jwt_token =
  tkIssuer :: "string option"
  tkSubject :: "string option"
  tkAudience :: "string list option"
  tkExpiration :: "time option"
  tkIssuedAt :: "time option"
  tkNotBefore :: "time option"
  tkJwtID :: "string option"

record jose =
  joHeader :: "string \<Rightarrow> (nat \<times> string option \<times> string option) option"
  joVerifies :: "string \<Rightarrow> string \<Rightarrow> jwk \<Rightarrow> bool"
  joClaims :: "string \<Rightarrow> jwt_token"

definition ClientAssertionTypeJWTBearer :: string where
  "ClientAssertionTypeJWTBearer = ''urn:ietf:params:oauth:client-assertion-type:jwt-bearer''"

definition MaxAssertionLifetime :: duration where
  "MaxAssertionLifetime = 300000000000"

definition ClockSkew :: duration where
  "ClockSkew = 30000000000"

datatype client_auth_error = ErrClientAuthentication | ErrClientAuthenticationUnavailable

record VerifiedAssertion =
  vaClientID :: string
  vaJTI :: string
  vaExpiresAt :: time
  vaMethod :: string

text \<open>\<^verbatim>\<open>ClientKeySource\<close>: the interface the verifier calls, with the state of its implementation.\<close>

record 'k key_source =
  srKeysFor :: "CIMDMetadata \<Rightarrow> 'k \<Rightarrow> (string + jwk list) \<times> 'k"
  srRefreshForKID :: "CIMDMetadata \<Rightarrow> string \<Rightarrow> 'k \<Rightarrow> (string + jwk list option) \<times> 'k"

definition assertionJTI :: "jwt_token \<Rightarrow> string" where
  "assertionJTI token = (case tkJwtID token of None \<Rightarrow> [] | Some jti \<Rightarrow> jti)"

definition assertionSigningAlgorithm :: "string \<Rightarrow> string option" where
  "assertionSigningAlgorithm name =
     (if name = [] \<or> name = ''RS256'' then Some ''RS256'' else if name = ''ES256'' then Some ''ES256'' else None)"

definition partial_assertion :: "jwt_token \<Rightarrow> time \<Rightarrow> VerifiedAssertion" where
  "partial_assertion token expiresAt =
     \<lparr>vaClientID = [], vaJTI = assertionJTI token, vaExpiresAt = expiresAt, vaMethod = []\<rparr>"

definition validateClaims ::
  "string list \<Rightarrow> time \<Rightarrow> CIMDMetadata \<Rightarrow> jwt_token \<Rightarrow> VerifiedAssertion option \<times> string" where
  "validateClaims audiences now document token =
     (if tkIssuer token \<noteq> Some (cmClientID document) \<or> tkSubject token \<noteq> Some (cmClientID document)
      then (None, ''claims'')
      else if \<not> (case tkAudience token of None \<Rightarrow> False
                 | Some auds \<Rightarrow> list_ex (\<lambda>a. List.member audiences a) auds)
      then (None, ''audience'')
      else case tkExpiration token of
          None \<Rightarrow> (None, ''claims'')
        | Some expiresAt \<Rightarrow>
            if time_before expiresAt (now + (- ClockSkew)) then (Some (partial_assertion token expiresAt), ''expired'')
            else if time_after expiresAt (now + (MaxAssertionLifetime + ClockSkew))
            then (Some (partial_assertion token expiresAt), ''claims'')
            else if (case tkIssuedAt token of
                       None \<Rightarrow> False
                     | Some issuedAt \<Rightarrow>
                         time_after issuedAt (now + ClockSkew) \<or> \<not> time_after expiresAt issuedAt \<or>
                         MaxAssertionLifetime < time_sub expiresAt issuedAt)
            then (Some (partial_assertion token expiresAt), ''claims'')
            else if (case tkNotBefore token of None \<Rightarrow> False | Some notBefore \<Rightarrow> time_after notBefore (now + ClockSkew))
            then (Some (partial_assertion token expiresAt), ''claims'')
            else if assertionJTI token = [] then (Some (partial_assertion token expiresAt), ''claims'')
            else (Some \<lparr>vaClientID = cmClientID document, vaJTI = assertionJTI token, vaExpiresAt = expiresAt,
                         vaMethod = ''private_key_jwt''\<rparr>, []))"

text \<open>The audiences the constructor keeps.\<close>

definition NewClientAssertionVerifier :: "string list \<Rightarrow> string list" where
  "NewClientAssertionVerifier audiences = filter (\<lambda>a. a \<noteq> []) audiences"

text \<open>The key for the header's \<^verbatim>\<open>kid\<close>: from the set at hand, else from a refreshed one. The outer
  error is an unavailable source, None a key that is not there.\<close>

definition lookup_key ::
  "'k key_source \<Rightarrow> CIMDMetadata \<Rightarrow> string \<Rightarrow> 'k \<Rightarrow> (string + jwk option) \<times> 'k" where
  "lookup_key K document kid st =
     (case srKeysFor K document st of
        (Inl e, st1) \<Rightarrow> (Inl e, st1)
      | (Inr keySet, st1) \<Rightarrow>
          (case LookupKeyID kid keySet of
             Some key \<Rightarrow> (Inr (Some key), st1)
           | None \<Rightarrow>
               (case srRefreshForKID K document kid st1 of
                  (Inl e, st2) \<Rightarrow> (Inl e, st2)
                | (Inr None, st2) \<Rightarrow> (Inr None, st2)
                | (Inr (Some refreshed), st2) \<Rightarrow> (Inr (LookupKeyID kid refreshed), st2))))"

text \<open>Spending the identifier of a verified assertion.\<close>

definition consume_assertion ::
  "CIMDMetadata \<Rightarrow> VerifiedAssertion \<Rightarrow> replay_store \<Rightarrow> (client_auth_error + VerifiedAssertion) \<times> replay_store" where
  "consume_assertion document verified rs =
     (case replay_Consume (cmClientID document) (vaJTI verified) (vaExpiresAt verified + ClockSkew) rs of
        (None, rs') \<Rightarrow> (Inr verified, rs')
      | (Some e, rs') \<Rightarrow>
          (Inl (if seKind e = ErrorKindConflict then ErrClientAuthentication else ErrClientAuthenticationUnavailable), rs'))"

definition Verify ::
  "jose \<Rightarrow> 'k key_source option \<Rightarrow> bool \<Rightarrow> string list \<Rightarrow> time \<Rightarrow> CIMDMetadata option \<Rightarrow> string \<Rightarrow> string \<Rightarrow> 'k \<Rightarrow> replay_store \<Rightarrow>
   (client_auth_error + VerifiedAssertion) \<times> 'k \<times> replay_store" where
  "Verify J keys hasReplay audiences now doc assertionType assertion st rs =
     (case doc of
        None \<Rightarrow> (Inl ErrClientAuthentication, st, rs)
      | Some document \<Rightarrow>
          if cmClientID document = [] \<or> assertionType = [] \<or> assertion = [] then (Inl ErrClientAuthentication, st, rs)
          else if cmAuthMethod document \<noteq> ''private_key_jwt'' \<or> assertionType \<noteq> ClientAssertionTypeJWTBearer
          then (Inl ErrClientAuthentication, st, rs)
          else case assertionSigningAlgorithm (cmSigningAlg document) of
              None \<Rightarrow> (Inl ErrClientAuthentication, st, rs)
            | Some algorithm \<Rightarrow>
                (case joHeader J assertion of
                   None \<Rightarrow> (Inl ErrClientAuthentication, st, rs)
                 | Some (signatures, headerAlgorithm, headerKid) \<Rightarrow>
                     if signatures \<noteq> 1 then (Inl ErrClientAuthentication, st, rs)
                     else if headerAlgorithm \<noteq> Some algorithm then (Inl ErrClientAuthentication, st, rs)
                     else if headerKid = None \<or> headerKid = Some [] then (Inl ErrClientAuthentication, st, rs)
                     else (case keys of
                         None \<Rightarrow> (Inl ErrClientAuthenticationUnavailable, st, rs)
                       | Some K \<Rightarrow>
                           (case lookup_key K document (the headerKid) st of
                              (Inl _, st') \<Rightarrow> (Inl ErrClientAuthenticationUnavailable, st', rs)
                            | (Inr k, st') \<Rightarrow>
                                if \<not> clientKeyEligible k algorithm then (Inl ErrClientAuthentication, st', rs)
                                else if jkAlgorithm (the k) \<noteq> None \<and> jkAlgorithm (the k) \<noteq> Some algorithm
                                then (Inl ErrClientAuthentication, st', rs)
                                else if \<not> joVerifies J assertion algorithm (the k) then (Inl ErrClientAuthentication, st', rs)
                                else (case validateClaims audiences now document (joClaims J assertion) of
                                    (Some verified, []) \<Rightarrow>
                                      if \<not> hasReplay then (Inl ErrClientAuthenticationUnavailable, st', rs)
                                      else (let (r, rs') = consume_assertion document verified rs in (r, st', rs'))
                                  | _ \<Rightarrow> (Inl ErrClientAuthentication, st', rs))))))"

text \<open>The key set service as the source of keys.\<close>

definition key_set_source ::
  "jwk_lib \<Rightarrow> key_set_config \<Rightarrow> time \<times> time \<times> time \<Rightarrow> time \<times> time \<times> time \<Rightarrow> time \<Rightarrow> time \<Rightarrow> key_cache key_source" where
  "key_set_source L config clocks clocks' now fetchedAt =
     \<lparr>srKeysFor = (\<lambda>document cache. KeysFor L config clocks (Some document) cache),
      srRefreshForKID = (\<lambda>document kid cache.
        (case RefreshForKID L config clocks' now fetchedAt (Some document) kid cache of
           (Inl e, cache') \<Rightarrow> (Inl e, cache') | (Inr keys, cache') \<Rightarrow> (Inr (Some keys), cache')))\<rparr>"

section \<open>What an accepted assertion has\<close>

lemma validateClaims_ok:
  assumes "validateClaims audiences now document token = (Some v, [])"
  shows "tkIssuer token = Some (cmClientID document) \<and> tkSubject token = Some (cmClientID document) \<and>
    (\<exists>auds a. tkAudience token = Some auds \<and> a \<in> set auds \<and> a \<in> set audiences) \<and>
    tkExpiration token = Some (vaExpiresAt v) \<and> now \<le> vaExpiresAt v + ClockSkew \<and>
    vaExpiresAt v \<le> now + MaxAssertionLifetime + ClockSkew \<and>
    vaJTI v = assertionJTI token \<and> vaJTI v \<noteq> [] \<and> vaClientID v = cmClientID document"
  using assms
  by (auto simp: validateClaims_def partial_assertion_def time_before_def time_after_def list_ex_iff
      split: if_splits option.splits)

lemma consume_assertion_ok:
  assumes "consume_assertion document v rs = (Inr w, rs')"
  shows "w = v \<and> map_of rs (cmClientID document, vaJTI v) = None \<and>
    rs' = AList.update (cmClientID document, vaJTI v) (vaExpiresAt v + ClockSkew) rs"
  using assms by (auto simp: consume_assertion_def replay_Consume_def split: option.splits if_splits prod.splits)

lemma consume_assertion_fail: "consume_assertion document v rs = (Inl e, rs') \<Longrightarrow> rs' = rs"
  by (auto simp: consume_assertion_def replay_Consume_def split: option.splits if_splits prod.splits)

lemma Verify_ok:
  assumes "Verify J keys hasReplay audiences now doc assertionType assertion st rs = (Inr v, st', rs')"
  shows "\<exists>document K kid k alg. doc = Some document \<and> keys = Some K \<and>
    assertionSigningAlgorithm (cmSigningAlg document) = Some alg \<and> joHeader J assertion = Some (1, Some alg, Some kid) \<and>
    lookup_key K document kid st = (Inr (Some k), st') \<and> clientKeyEligible (Some k) alg \<and> joVerifies J assertion alg k \<and>
    validateClaims audiences now document (joClaims J assertion) = (Some v, []) \<and>
    consume_assertion document v rs = (Inr v, rs')"
proof -
  from assms obtain document where d: "doc = Some document" by (cases doc) (auto simp: Verify_def)
  from assms d obtain alg where a: "assertionSigningAlgorithm (cmSigningAlg document) = Some alg"
    by (cases "assertionSigningAlgorithm (cmSigningAlg document)") (auto simp: Verify_def split: if_splits)
  from assms d a obtain kid where h: "joHeader J assertion = Some (1, Some alg, Some kid)"
    by (cases "joHeader J assertion") (auto simp: Verify_def split: if_splits)
  from assms d a h obtain K where K: "keys = Some K" by (cases keys) (auto simp: Verify_def split: if_splits)
  obtain r st1 where l: "lookup_key K document kid st = (r, st1)" by force
  with assms d a h K obtain k0 where "r = Inr k0" "clientKeyEligible k0 alg" "joVerifies J assertion alg (the k0)"
    by (cases r) (simp_all add: Verify_def split: if_splits)
  then obtain k where r: "r = Inr (Some k)" "clientKeyEligible (Some k) alg" "joVerifies J assertion alg k"
    by (cases k0) (simp_all add: clientKeyEligible_def)
  obtain w c where v: "validateClaims audiences now document (joClaims J assertion) = (w, c)" by force
  with assms d a h K l r obtain w' where w: "w = Some w'" "c = []"
    by (cases w; cases c) (simp_all add: Verify_def split: if_splits)
  with assms d a h K l r v have "consume_assertion document w' rs = (Inr v, rs')" "st' = st1"
    by (simp_all add: Verify_def Let_def split: if_splits prod.splits)
  with d a h K l r v w consume_assertion_ok show ?thesis by blast
qed

lemma Verify_fail:
  assumes "Verify J keys hasReplay audiences now doc assertionType assertion st rs = (Inl e, st', rs')"
  shows "rs' = rs"
  using assms
  by (auto simp: Verify_def Let_def dest: consume_assertion_fail
      split: option.splits if_splits prod.splits sum.splits list.splits)

section \<open>No assertion is accepted twice\<close>

text \<open>A history of the issuer: verifications of any clients' assertions with any keys, and cleanups of
  the spent assertions, at moments that never go back. The log holds the accepted assertions with
  the moment, newest first.\<close>

inductive assertion_run ::
  "jose \<Rightarrow> string list \<Rightarrow> time \<Rightarrow> replay_store \<Rightarrow> (string \<times> time) list \<Rightarrow> bool" for J audiences where
  start: "assertion_run J audiences now NewClientAssertionReplayStore []"
| accepted: "assertion_run J audiences now rs log \<Longrightarrow> now \<le> now' \<Longrightarrow>
    Verify J (K :: key_cache key_source option) hasReplay audiences now' doc assertionType a cache rs = (Inr v, cache', rs') \<Longrightarrow>
    assertion_run J audiences now' rs' ((a, now') # log)"
| rejected: "assertion_run J audiences now rs log \<Longrightarrow> now \<le> now' \<Longrightarrow>
    Verify J (K :: key_cache key_source option) hasReplay audiences now' doc assertionType a cache rs = (Inl e, cache', rs') \<Longrightarrow>
    assertion_run J audiences now' rs' log"
| cleaned: "assertion_run J audiences now rs log \<Longrightarrow> now \<le> now' \<Longrightarrow>
    assertion_run J audiences now' (snd (replay_DeleteExpired now' rs)) log"

definition same_id :: "jose \<Rightarrow> string \<Rightarrow> string \<Rightarrow> bool" where
  "same_id J a b \<longleftrightarrow> tkIssuer (joClaims J a) = tkIssuer (joClaims J b) \<and>
     assertionJTI (joClaims J a) = assertionJTI (joClaims J b)"

definition expired_at :: "jose \<Rightarrow> string \<Rightarrow> time \<Rightarrow> bool" where
  "expired_at J a now \<longleftrightarrow> (\<exists>e. tkExpiration (joClaims J a) = Some e \<and> e + ClockSkew < now)"

text \<open>What is remembered of an accepted assertion until it has expired.\<close>

definition remembered :: "jose \<Rightarrow> replay_store \<Rightarrow> string \<Rightarrow> bool" where
  "remembered J rs a \<longleftrightarrow> (\<exists>c e. tkIssuer (joClaims J a) = Some c \<and> tkExpiration (joClaims J a) = Some e \<and>
     map_of rs (c, assertionJTI (joClaims J a)) = Some (e + ClockSkew))"

lemma accepted_facts:
  assumes "Verify J K hasReplay audiences now doc assertionType a cache rs = (Inr v, cache', rs')"
  shows "remembered J rs' a" and "\<not> expired_at J a now" and "same_id J a b \<Longrightarrow> \<not> remembered J rs b"
    and "remembered J rs b \<Longrightarrow> remembered J rs' b" and "wf_gomap rs \<Longrightarrow> wf_gomap rs'"
proof -
  from Verify_ok [OF assms] obtain document where
    v: "validateClaims audiences now document (joClaims J a) = (Some v, [])"
    and c: "consume_assertion document v rs = (Inr v, rs')" by blast
  note f = validateClaims_ok [OF v] and s = consume_assertion_ok [OF c]
  show "remembered J rs' a" using f s by (auto simp: remembered_def go_map_simps)
  show "\<not> expired_at J a now" using f by (auto simp: expired_at_def)
  show "\<not> remembered J rs b" if "same_id J a b"
    using that f s by (auto simp: remembered_def same_id_def)
  show "remembered J rs' b" if "remembered J rs b"
  proof -
    from that obtain d e where e: "tkIssuer (joClaims J b) = Some d" "tkExpiration (joClaims J b) = Some e"
      "map_of rs (d, assertionJTI (joClaims J b)) = Some (e + ClockSkew)" unfolding remembered_def by blast
    with s have "map_of rs' (d, assertionJTI (joClaims J b)) = Some (e + ClockSkew)"
      by (cases "(d, assertionJTI (joClaims J b)) = (cmClientID document, vaJTI v)") (simp_all add: go_map_simps, blast?)
    with e show ?thesis unfolding remembered_def by blast
  qed
  show "wf_gomap rs'" if "wf_gomap rs" using that s by simp
qed

lemma assertion_run_invar:
  assumes "assertion_run J audiences now rs log"
  shows "wf_gomap rs \<and> (\<forall>(a, t) \<in> set log. expired_at J a now \<or> remembered J rs a) \<and>
    sorted_wrt (\<lambda>(b, t') (a, t). same_id J b a \<longrightarrow> expired_at J a t') log \<and>
    (\<forall>(a, t) \<in> set log. \<not> expired_at J a t)"
  using assms
proof (induction rule: assertion_run.induct)
  case (start now)
  then show ?case by (simp add: NewClientAssertionReplayStore_def)
next
  case (accepted now rs log now' K hasReplay doc assertionType a cache v cache' rs')
  note f = accepted_facts [OF accepted.hyps(3)]
  have wf: "wf_gomap rs'" by (rule f(5)) (use accepted.IH in blast)
  have later: "expired_at J b now \<Longrightarrow> expired_at J b now'" for b
    using accepted.hyps(2) by (auto simp: expired_at_def)
  have old: "\<forall>(b, t) \<in> set log. expired_at J b now' \<or> remembered J rs b" using accepted.IH later by blast
  have "\<forall>(b, t) \<in> set log. expired_at J b now' \<or> remembered J rs' b" using old f(4) by blast
  moreover have "\<forall>(b, t) \<in> set log. same_id J a b \<longrightarrow> expired_at J b now'" using old f(3) by blast
  ultimately show ?case using wf f(1,2) accepted.IH by auto
next
  case (rejected now rs log now' K hasReplay doc assertionType a cache e cache' rs')
  have "rs' = rs" by (rule Verify_fail [OF rejected.hyps(3)])
  moreover have "expired_at J b now \<Longrightarrow> expired_at J b now'" for b
    using rejected.hyps(2) by (auto simp: expired_at_def)
  ultimately show ?case using rejected.IH by blast
next
  case (cleaned now rs log now')
  let ?rs = "snd (replay_DeleteExpired now' rs)"
  from cleaned.IH have wf: "wf_gomap rs" by blast
  have "expired_at J b now' \<or> remembered J ?rs b" if "expired_at J b now \<or> remembered J rs b" for b
    using that
  proof
    assume "expired_at J b now"
    with cleaned.hyps(2) show ?thesis by (auto simp: expired_at_def)
  next
    assume "remembered J rs b"
    then obtain c e where e: "tkIssuer (joClaims J b) = Some c" "tkExpiration (joClaims J b) = Some e"
      "map_of rs (c, assertionJTI (joClaims J b)) = Some (e + ClockSkew)" by (auto simp: remembered_def)
    with replays.keeps_live [OF wf, of now' "(c, assertionJTI (joClaims J b))" "e + ClockSkew"] show ?thesis
      by (cases "e + ClockSkew < now'") (simp_all add: expired_at_def remembered_def)
  qed
  moreover have "wf_gomap ?rs" using cleaned.IH replays.sweep_ok by blast
  ultimately show ?case using cleaned.IH by blast
qed

text \<open>
  C15. No client assertion authenticates twice: in any history of verifications and cleanups an
  assertion is accepted at most once, and another assertion with the issuer and identifier of an
  accepted one is accepted only after that one has expired, the clock skew included.
\<close>

theorem assertion_never_replayed:
  assumes "assertion_run J audiences now rs log"
  shows "distinct (map fst log) \<and> sorted_wrt (\<lambda>(b, t') (a, t). same_id J b a \<longrightarrow> expired_at J a t') log"
proof -
  note i = assertion_run_invar [OF assms]
  have "sorted_wrt (\<lambda>(b, t') (a, t). same_id J b a \<longrightarrow> expired_at J a t') l \<Longrightarrow>
      \<forall>(a, t) \<in> set l. \<not> expired_at J a t \<Longrightarrow> distinct (map fst l)" for l
  proof (induction l)
    case (Cons e l)
    obtain a t where e: "e = (a, t)" by force
    have "a \<notin> fst ` set l"
    proof
      assume "a \<in> fst ` set l"
      then obtain t' where "(a, t') \<in> set l" by force
      with Cons.prems(1) have "expired_at J a t" by (auto simp: e same_id_def)
      with Cons.prems(2) show False by (simp add: e)
    qed
    with Cons show ?case by (simp add: e)
  qed simp
  with i show ?thesis by blast
qed

definition demo_jose :: jose where
  "demo_jose = \<lparr>joHeader = (\<lambda>_. Some (1, Some ''ES256'', Some ''k'')), joVerifies = (\<lambda>_ _ _. True),
     joClaims = (\<lambda>_. \<lparr>tkIssuer = Some ''https://c'', tkSubject = Some ''https://c'', tkAudience = Some [''aud''],
       tkExpiration = Some 100, tkIssuedAt = None, tkNotBefore = None, tkJwtID = Some ''j''\<rparr>)\<rparr>"

definition demo_verify :: "time \<Rightarrow> replay_store \<Rightarrow> (client_auth_error + VerifiedAssertion) \<times> key_cache \<times> replay_store" where
  "demo_verify now rs = Verify demo_jose (Some (key_set_source demo_jwk_lib demo_config (0, 0, 0) (0, 0, 0) 0 0)) True [''aud''] now
     (Some demo_document) ClientAssertionTypeJWTBearer ''jwt'' [] rs"

lemmas demo_verify_simps = demo_verify_def Verify_def demo_jose_def demo_document_def key_set_source_def lookup_key_def
  KeysFor_def document_algorithm_def lift_keys_def eligibleClientKeys_def demo_jwk_lib_def demo_jwk_def clientKeyEligible_def
  hasPrivateKeyMaterial_def LookupKeyID_def assertionSigningAlgorithm_def ClientAssertionTypeJWTBearer_def validateClaims_def
  assertionJTI_def ClockSkew_def MaxAssertionLifetime_def time_before_def time_after_def consume_assertion_def replay_Consume_def
  ClientAssertionReplay_Validate_def time_is_zero_def

lemma demo_verify_accepts:
  "demo_verify 50 [] = (Inr \<lparr>vaClientID = ''https://c'', vaJTI = ''j'', vaExpiresAt = 100, vaMethod = ''private_key_jwt''\<rparr>,
     [], [((''https://c'', ''j''), 30000000100)])"
  by (simp add: demo_verify_simps)

theorem assertion_never_replayed_witness:
  "distinct (map fst [(''jwt'', 50 :: time)]) \<and>
   demo_verify 60 (snd (snd (demo_verify 50 []))) = (Inl ErrClientAuthentication, [], snd (snd (demo_verify 50 [])))"
proof -
  have "assertion_run demo_jose [''aud''] 50 [((''https://c'', ''j''), 30000000100)] [(''jwt'', 50)]"
  proof (rule assertion_run.accepted)
    show "assertion_run demo_jose [''aud''] 40 [] []"
      using assertion_run.start [of demo_jose "[''aud'']" 40] by (simp add: NewClientAssertionReplayStore_def)
  qed (use demo_verify_accepts [unfolded demo_verify_def] in simp_all)
  from assertion_never_replayed [OF this] have "distinct (map fst [(''jwt'', 50 :: time)])" by blast
  moreover have "demo_verify 60 [((''https://c'', ''j''), 30000000100)] = (Inl ErrClientAuthentication, [], [((''https://c'', ''j''), 30000000100)])"
    by (simp add: demo_verify_simps)
  ultimately show ?thesis by (simp add: demo_verify_accepts)
qed

end
