(* ===== verification/Exchange_Tokens.thy ===== *)
theory Exchange_Tokens
  imports Client_Assertion Tool_Pattern
begin

text \<open>
  What the token exchange and the approval endpoints establish about the tokens of a request
  (\<^verbatim>\<open>internal/domain/tokenexchange\<close>): the failure diagnostics (\<^verbatim>\<open>diagnostic.go\<close>), the errors
  (\<^verbatim>\<open>errors.go\<close>), the validation of subject tokens and client assertions (\<^verbatim>\<open>jwt_validator.go\<close>),
  the claims map (\<^verbatim>\<open>internal/domain/jwtclaims\<close>), the evaluation of the configured expressions
  (\<^verbatim>\<open>cel_evaluator.go\<close>, \<^verbatim>\<open>human_subject.go\<close>) and the request (\<^verbatim>\<open>request.go\<close>).

  The JWT library is the record \<open>jwt_lib\<close>, the compiled programs of the CEL library are functions
  on their variables, and a key set provider is the answer it gives during the call. An error
  chain is the list of the sentinels and library errors \<^verbatim>\<open>errors.Is\<close> can find in it.
\<close>

section \<open>Diagnostics\<close>

datatype Outcome_kind =
    OutcomeSuccess | OutcomeAuthorizationDenied | OutcomeAuthenticationFailed | OutcomeReauthRequired
  | OutcomeInvalidRequest | OutcomeConfigurationError | OutcomeInfrastructureError | OutcomeCanceled

datatype FailureStage =
    StageNone | StageRequestValidation | StageExchangeRouting | StageSubjectValidation | StageClientValidation
  | StageIdentityResolution | StageClientAuthorization | StageResourceResolution | StageGrantAuthorization
  | StageSessionLookup | StageRefresh | StageScopeValidation | StageResponseWrite | StageOther string

datatype FailureDetail =
    DetailNone | DetailResourceMissing | DetailRequestMalformed | DetailSubjectInvalid | DetailSubjectExpired
  | DetailClientInvalid | DetailClientExpired | DetailJWKSUnavailable | DetailJWTConfiguration
  | DetailClientPolicyDenied | DetailCELConfiguration | DetailCELEvaluationFailed | DetailAgentMissing
  | DetailAgentInvalid | DetailAgentRepositoryUnavailable | DetailResourceUnregistered
  | DetailResourceAmbiguous | DetailResourceRepositoryUnavailable | DetailGrantMissing
  | DetailGrantExpired | DetailGrantEmpty | DetailGrantPermissionSetUndeclared
  | DetailGrantPermissionSetMissing | DetailGrantServiceOmitted | DetailGrantServiceDefinitionMissing
  | DetailGrantServiceRequirementExcluded | DetailGrantScopeIntersectionEmpty
  | DetailGrantRepositoryUnavailable | DetailSessionMissing | DetailAccessTokenExpired
  | DetailRefreshUnavailable | DetailRefreshRejected | DetailProviderClientRejected
  | DetailProviderRejected | DetailProviderUnavailable | DetailProviderResponseInvalid
  | DetailSessionRepositoryUnavailable | DetailSessionDecryptionFailed | DetailSessionEncryptionFailed
  | DetailSessionPersistenceFailed | DetailSessionConfiguration | DetailCredentialSourceUnavailable
  | DetailCredentialIdentityChanged | DetailSessionScopeInsufficient | DetailResponseWriteFailed
  | DetailInternalUnclassified | DetailCallerCanceled | DetailSubjectCategoryIneligible
  | DetailSubjectCategoryUnsupported | DetailOther string

datatype RecoveryAction = RecoveryNone | RecoveryReconsent | RecoveryReauthenticate | RecoveryFixConfiguration | RecoveryRetry

datatype RecoveryTarget =
    TargetNone | TargetConsent | TargetSubjectIdentity | TargetCallingClient | TargetProviderSession
  | TargetBrokerConfiguration

datatype ExchangeKind = ExchangeThirdParty | ExchangeImpersonation | ExchangeOther string

record Diagnostic =
  dgOutcome :: Outcome_kind
  dgStage :: FailureStage
  dgDetail :: FailureDetail
  dgAction :: RecoveryAction
  dgTarget :: RecoveryTarget
  dgKind :: ExchangeKind

definition boundedStage :: "FailureStage \<Rightarrow> FailureStage" where
  "boundedStage stage =
     (case stage of StageNone \<Rightarrow> StageExchangeRouting | StageOther _ \<Rightarrow> StageExchangeRouting | _ \<Rightarrow> stage)"

definition boundedExchangeKind :: "ExchangeKind \<Rightarrow> ExchangeKind" where
  "boundedExchangeKind kind = (if kind = ExchangeImpersonation then kind else ExchangeThirdParty)"

definition NewDiagnostic :: "FailureStage \<Rightarrow> FailureDetail \<Rightarrow> Diagnostic" where
  "NewDiagnostic stage detail =
     (let d = \<lparr>dgOutcome = OutcomeInfrastructureError, dgStage = boundedStage stage, dgDetail = detail,
               dgAction = RecoveryRetry, dgTarget = TargetNone, dgKind = ExchangeThirdParty\<rparr>;
          set1 = (\<lambda>stage outcome action. d\<lparr>dgStage := stage, dgOutcome := outcome, dgAction := action\<rparr>);
          set2 = (\<lambda>stage outcome action target.
                    d\<lparr>dgStage := stage, dgOutcome := outcome, dgAction := action, dgTarget := target\<rparr>);
          here = (\<lambda>outcome action target. d\<lparr>dgOutcome := outcome, dgAction := action, dgTarget := target\<rparr>);
          regrant = set2 StageGrantAuthorization OutcomeAuthorizationDenied RecoveryReconsent TargetConsent
      in case detail of
           DetailResourceMissing \<Rightarrow> set1 StageRequestValidation OutcomeInvalidRequest RecoveryNone
         | DetailRequestMalformed \<Rightarrow> set1 StageRequestValidation OutcomeInvalidRequest RecoveryNone
         | DetailSubjectInvalid \<Rightarrow> set2 StageSubjectValidation OutcomeAuthenticationFailed RecoveryReauthenticate TargetSubjectIdentity
         | DetailSubjectExpired \<Rightarrow> set2 StageSubjectValidation OutcomeAuthenticationFailed RecoveryReauthenticate TargetSubjectIdentity
         | DetailClientInvalid \<Rightarrow> set2 StageClientValidation OutcomeAuthenticationFailed RecoveryReauthenticate TargetCallingClient
         | DetailClientExpired \<Rightarrow> set2 StageClientValidation OutcomeAuthenticationFailed RecoveryReauthenticate TargetCallingClient
         | DetailSubjectCategoryUnsupported \<Rightarrow> set1 StageIdentityResolution OutcomeAuthorizationDenied RecoveryNone
         | DetailClientPolicyDenied \<Rightarrow> set1 StageClientAuthorization OutcomeAuthorizationDenied RecoveryNone
         | DetailSubjectCategoryIneligible \<Rightarrow> set1 StageClientAuthorization OutcomeAuthorizationDenied RecoveryNone
         | DetailCELConfiguration \<Rightarrow> here OutcomeConfigurationError RecoveryFixConfiguration TargetBrokerConfiguration
         | DetailJWTConfiguration \<Rightarrow> here OutcomeConfigurationError RecoveryFixConfiguration TargetBrokerConfiguration
         | DetailAgentMissing \<Rightarrow> set2 StageIdentityResolution OutcomeConfigurationError RecoveryFixConfiguration TargetBrokerConfiguration
         | DetailAgentInvalid \<Rightarrow> set2 StageIdentityResolution OutcomeConfigurationError RecoveryFixConfiguration TargetBrokerConfiguration
         | DetailAgentRepositoryUnavailable \<Rightarrow> d\<lparr>dgStage := StageIdentityResolution\<rparr>
         | DetailResourceUnregistered \<Rightarrow> set1 StageResourceResolution OutcomeInvalidRequest RecoveryNone
         | DetailResourceAmbiguous \<Rightarrow> set2 StageResourceResolution OutcomeConfigurationError RecoveryFixConfiguration TargetBrokerConfiguration
         | DetailResourceRepositoryUnavailable \<Rightarrow> d\<lparr>dgStage := StageResourceResolution\<rparr>
         | DetailGrantMissing \<Rightarrow> regrant | DetailGrantExpired \<Rightarrow> regrant | DetailGrantEmpty \<Rightarrow> regrant
         | DetailGrantPermissionSetUndeclared \<Rightarrow> regrant | DetailGrantPermissionSetMissing \<Rightarrow> regrant
         | DetailGrantServiceOmitted \<Rightarrow> regrant | DetailGrantServiceDefinitionMissing \<Rightarrow> regrant
         | DetailGrantServiceRequirementExcluded \<Rightarrow> regrant | DetailGrantScopeIntersectionEmpty \<Rightarrow> regrant
         | DetailGrantRepositoryUnavailable \<Rightarrow> d\<lparr>dgStage := StageGrantAuthorization\<rparr>
         | DetailSessionMissing \<Rightarrow> set2 StageSessionLookup OutcomeReauthRequired RecoveryReauthenticate TargetProviderSession
         | DetailAccessTokenExpired \<Rightarrow> here OutcomeReauthRequired RecoveryReauthenticate TargetProviderSession
         | DetailRefreshUnavailable \<Rightarrow> here OutcomeReauthRequired RecoveryReauthenticate TargetProviderSession
         | DetailCredentialIdentityChanged \<Rightarrow> here OutcomeReauthRequired RecoveryReauthenticate TargetProviderSession
         | DetailRefreshRejected \<Rightarrow> set2 StageRefresh OutcomeReauthRequired RecoveryReauthenticate TargetProviderSession
         | DetailProviderClientRejected \<Rightarrow> here OutcomeConfigurationError RecoveryFixConfiguration TargetBrokerConfiguration
         | DetailSessionConfiguration \<Rightarrow> here OutcomeConfigurationError RecoveryFixConfiguration TargetBrokerConfiguration
         | DetailProviderRejected \<Rightarrow> d\<lparr>dgStage := StageRefresh\<rparr>
         | DetailProviderUnavailable \<Rightarrow> d\<lparr>dgStage := StageRefresh\<rparr>
         | DetailProviderResponseInvalid \<Rightarrow> d\<lparr>dgStage := StageRefresh\<rparr>
         | DetailSessionScopeInsufficient \<Rightarrow> set2 StageScopeValidation OutcomeReauthRequired RecoveryReauthenticate TargetProviderSession
         | DetailResponseWriteFailed \<Rightarrow> d\<lparr>dgStage := StageResponseWrite\<rparr>
         | DetailCallerCanceled \<Rightarrow> d\<lparr>dgOutcome := OutcomeCanceled, dgAction := RecoveryNone\<rparr>
         | DetailNone \<Rightarrow> d\<lparr>dgDetail := DetailInternalUnclassified\<rparr>
         | DetailOther _ \<Rightarrow> d\<lparr>dgDetail := DetailInternalUnclassified\<rparr>
         | _ \<Rightarrow> d)"

definition SuccessDiagnostic :: "ExchangeKind \<Rightarrow> Diagnostic" where
  "SuccessDiagnostic kind = \<lparr>dgOutcome = OutcomeSuccess, dgStage = StageNone, dgDetail = DetailNone,
     dgAction = RecoveryNone, dgTarget = TargetNone, dgKind = boundedExchangeKind kind\<rparr>"

definition WithExchangeKind :: "ExchangeKind \<Rightarrow> Diagnostic \<Rightarrow> Diagnostic" where
  "WithExchangeKind kind d = d\<lparr>dgKind := boundedExchangeKind kind\<rparr>"

section \<open>Errors\<close>

text \<open>What a cause chain can carry that the code asks for.\<close>

datatype error_cause =
    ErrAgentSubjectToken
  | ErrAgentSubjectDetection
  | ErrResourceUnregistered
  | ErrResourceAmbiguous
  | CallerCanceled
  | OtherCause string

record ServiceRef =
  sfID :: string

record AuthorizationRef =
  auAgentID :: agent_id
  auGrantID :: string
  auGrantUpdatedAt :: time
  auGrantValidUntil :: time
  auGrantHasValidUntil :: bool

record TokenExchangeError =
  teCode :: string
  teDescription :: string
  teHTTPStatus :: int
  teCause :: "error_cause list"
  teErrorURI :: string
  teDiagnostic :: "Diagnostic option"
  teService :: "ServiceRef option"
  teAuthorization :: "AuthorizationRef option"

definition exchange_error :: "string \<Rightarrow> int \<Rightarrow> string \<Rightarrow> TokenExchangeError" where
  "exchange_error code status description =
     \<lparr>teCode = code, teDescription = description, teHTTPStatus = status, teCause = [], teErrorURI = [],
      teDiagnostic = None, teService = None, teAuthorization = None\<rparr>"

definition NewInvalidRequestError :: "string \<Rightarrow> TokenExchangeError" where
  "NewInvalidRequestError = exchange_error ''invalid_request'' 400"

definition NewInvalidScopeError :: "string \<Rightarrow> TokenExchangeError" where
  "NewInvalidScopeError = exchange_error ''invalid_scope'' 400"

definition NewInvalidClientError :: "string \<Rightarrow> TokenExchangeError" where
  "NewInvalidClientError = exchange_error ''invalid_client'' 401"

definition NewInvalidGrantError :: "string \<Rightarrow> TokenExchangeError" where
  "NewInvalidGrantError = exchange_error ''invalid_grant'' 400"

definition NewInvalidTargetError :: "string \<Rightarrow> TokenExchangeError" where
  "NewInvalidTargetError = exchange_error ''invalid_target'' 400"

definition NewAccessDeniedError :: "string \<Rightarrow> TokenExchangeError" where
  "NewAccessDeniedError = exchange_error ''access_denied'' 403"

definition NewServerError :: "string \<Rightarrow> TokenExchangeError" where
  "NewServerError = exchange_error ''server_error'' 500"

definition NewServerErrorWithCause :: "string \<Rightarrow> error_cause list \<Rightarrow> TokenExchangeError" where
  "NewServerErrorWithCause description cause = (exchange_error ''server_error'' 500 description)\<lparr>teCause := cause\<rparr>"

definition WithCause :: "error_cause list \<Rightarrow> TokenExchangeError \<Rightarrow> TokenExchangeError" where
  "WithCause cause e = e\<lparr>teCause := cause\<rparr>"

definition WithErrorURI :: "string \<Rightarrow> TokenExchangeError \<Rightarrow> TokenExchangeError" where
  "WithErrorURI uri e = e\<lparr>teErrorURI := uri\<rparr>"

definition WithDiagnostic :: "Diagnostic \<Rightarrow> TokenExchangeError \<Rightarrow> TokenExchangeError" where
  "WithDiagnostic d e = e\<lparr>teDiagnostic := Some d\<rparr>"

definition WithObservation :: "Diagnostic \<Rightarrow> ServiceRef option \<Rightarrow> AuthorizationRef \<Rightarrow> TokenExchangeError \<Rightarrow> TokenExchangeError" where
  "WithObservation d service authorization e =
     e\<lparr>teDiagnostic := Some d, teService := service, teAuthorization := Some authorization\<rparr>"

definition Diagnostic_of :: "TokenExchangeError \<Rightarrow> Diagnostic" where
  "Diagnostic_of e =
     (case teDiagnostic e of None \<Rightarrow> NewDiagnostic StageExchangeRouting DetailInternalUnclassified | Some d \<Rightarrow> d)"

definition NewResourceUnregisteredError :: TokenExchangeError where
  "NewResourceUnregisteredError =
     WithDiagnostic (NewDiagnostic StageResourceResolution DetailResourceUnregistered)
       (WithCause [ErrResourceUnregistered] (NewInvalidTargetError ''no service configured for the requested resource''))"

definition NewResourceAmbiguousError :: TokenExchangeError where
  "NewResourceAmbiguousError =
     WithDiagnostic (NewDiagnostic StageResourceResolution DetailResourceAmbiguous)
       (WithCause [ErrResourceAmbiguous] (NewServerError ''registered resource configuration is ambiguous''))"

definition IsResourceNotConfigured :: "TokenExchangeError \<Rightarrow> bool" where
  "IsResourceNotConfigured e \<longleftrightarrow> ErrResourceUnregistered \<in> set (teCause e)"

definition IsResourceAmbiguous :: "TokenExchangeError \<Rightarrow> bool" where
  "IsResourceAmbiguous e \<longleftrightarrow> ErrResourceAmbiguous \<in> set (teCause e)"

lemmas exchange_error_defs = exchange_error_def NewInvalidRequestError_def NewInvalidScopeError_def
  NewInvalidClientError_def NewInvalidGrantError_def NewInvalidTargetError_def NewAccessDeniedError_def
  NewServerError_def NewServerErrorWithCause_def WithCause_def WithErrorURI_def WithDiagnostic_def

section \<open>JWT validation\<close>

record claims_token = jwt_token +
  tkClaims :: "(string, goval) gomap"

datatype jwt_error = TokenExpiredError | InvalidIssuerError | OtherJWTError string

text \<open>\<^verbatim>\<open>jwt.ParseString\<close> with signature verification against a key set and without claim
  validation, and \<^verbatim>\<open>jwt.Validate\<close> with an issuer, an audience and an acceptable skew at a time.\<close>

record 'ks jwt_lib =
  jlParse :: "string \<Rightarrow> 'ks \<Rightarrow> jwt_error + claims_token"
  jlValidate :: "time \<Rightarrow> claims_token \<Rightarrow> string \<Rightarrow> string \<Rightarrow> duration \<Rightarrow> jwt_error option"

text \<open>A policy; the provider is absent, or the answer of its \<^verbatim>\<open>GetKeySet\<close>.\<close>

record 'ks JWTValidationPolicy =
  vpJWKSProvider :: "(string + 'ks) option"
  vpExpectedIssuers :: "string list"
  vpExpectedAudience :: string

record 'ks JWTValidator =
  jvSubjectTokenPolicy :: "'ks JWTValidationPolicy"
  jvClientAssertionPolicy :: "'ks JWTValidationPolicy"
  jvClockSkewSeconds :: int

definition MaxClockSkewTolerance :: int where
  "MaxClockSkewTolerance = 300"

text \<open>The loop that keeps the first occurrence of every issuer; \<open>None\<close> is the error.\<close>

fun keep_issuers :: "string list \<Rightarrow> string list \<Rightarrow> string list option" where
  "keep_issuers issuers [] = Some issuers"
| "keep_issuers issuers (issuer # rest) =
     (if issuer = [] then None
      else keep_issuers (if List.member issuers issuer then issuers else issuers @ [issuer]) rest)"

definition normalizeValidationPolicy :: "string \<Rightarrow> 'ks JWTValidationPolicy \<Rightarrow> string + 'ks JWTValidationPolicy" where
  "normalizeValidationPolicy name policy =
     (if vpJWKSProvider policy = None then Inl (name @ '' jwks_provider cannot be nil'')
      else case keep_issuers [] (vpExpectedIssuers policy) of
          None \<Rightarrow> Inl (name @ '' expected_issuer cannot be empty'')
        | Some issuers \<Rightarrow>
            if issuers = [] then Inl (name @ '' expected_issuer cannot be empty'')
            else Inr (policy\<lparr>vpExpectedIssuers := issuers\<rparr>))"

definition default_audience :: "string \<Rightarrow> 'ks JWTValidationPolicy \<Rightarrow> 'ks JWTValidationPolicy" where
  "default_audience aud policy =
     (if vpExpectedAudience policy = [] then policy\<lparr>vpExpectedAudience := aud\<rparr> else policy)"

definition NewJWTValidatorWithPolicies ::
  "'ks JWTValidationPolicy \<Rightarrow> 'ks JWTValidationPolicy \<Rightarrow> string \<Rightarrow> int \<Rightarrow> TokenExchangeError + 'ks JWTValidator" where
  "NewJWTValidatorWithPolicies subjectTokenPolicy clientAssertionPolicy brokerAudience clockSkewSeconds =
     (case normalizeValidationPolicy ''subject_token'' subjectTokenPolicy of
        Inl err \<Rightarrow> Inl (WithDiagnostic (NewDiagnostic StageSubjectValidation DetailJWTConfiguration)
                         (NewServerErrorWithCause ''subject token validation policy is invalid'' [OtherCause err]))
      | Inr sp \<Rightarrow>
        (case normalizeValidationPolicy ''client_assertion'' clientAssertionPolicy of
           Inl err \<Rightarrow> Inl (WithDiagnostic (NewDiagnostic StageClientValidation DetailJWTConfiguration)
                            (NewServerErrorWithCause ''client assertion validation policy is invalid'' [OtherCause err]))
         | Inr cp \<Rightarrow>
           let refuse = (\<lambda>msg. Inl (WithDiagnostic (NewDiagnostic StageSubjectValidation DetailJWTConfiguration) (NewServerError msg)))
           in if brokerAudience = [] then refuse ''JWT validation audience is not configured''
              else if clockSkewSeconds < 0 then refuse ''JWT validation clock skew cannot be negative''
              else if MaxClockSkewTolerance < clockSkewSeconds
              then refuse ''JWT validation clock skew exceeds the maximum tolerance''
              else Inr \<lparr>jvSubjectTokenPolicy = default_audience brokerAudience sp,
                        jvClientAssertionPolicy = default_audience brokerAudience cp,
                        jvClockSkewSeconds = clockSkewSeconds\<rparr>))"

definition NewJWTValidator :: "(string + 'ks) option \<Rightarrow> string \<Rightarrow> string \<Rightarrow> int \<Rightarrow> TokenExchangeError + 'ks JWTValidator" where
  "NewJWTValidator provider expectedIssuer brokerAudience clockSkewSeconds =
     (let policy = \<lparr>vpJWKSProvider = provider, vpExpectedIssuers = [expectedIssuer], vpExpectedAudience = []\<rparr>
      in NewJWTValidatorWithPolicies policy policy brokerAudience clockSkewSeconds)"

text \<open>The loop over the accepted issuers: the first that validates decides, else the last error
  that is not about the issuer, else the first error.\<close>

fun try_issuers ::
  "(string \<Rightarrow> jwt_error option) \<Rightarrow> jwt_error option \<Rightarrow> jwt_error option \<Rightarrow> string list \<Rightarrow> jwt_error option" where
  "try_issuers validate firstErr preferredErr [] = (if preferredErr \<noteq> None then preferredErr else firstErr)"
| "try_issuers validate firstErr preferredErr (issuer # rest) =
     (case validate issuer of
        None \<Rightarrow> None
      | Some err \<Rightarrow>
          try_issuers validate (if firstErr = None then Some err else firstErr)
            (if err \<noteq> InvalidIssuerError then Some err else preferredErr) rest)"

text \<open>With no accepted issuer the source returns a nil token and a nil error; the constructor
  rules that policy out.\<close>

definition parseWithPolicy ::
  "'ks jwt_lib \<Rightarrow> time \<Rightarrow> 'ks JWTValidator \<Rightarrow> string \<Rightarrow> 'ks \<Rightarrow> 'ks JWTValidationPolicy \<Rightarrow> jwt_error + claims_token" where
  "parseWithPolicy lib now v tokenString keyset policy =
     (case jlParse lib tokenString keyset of
        Inl err \<Rightarrow> Inl err
      | Inr token \<Rightarrow>
          (case try_issuers (\<lambda>issuer. jlValidate lib now token issuer (vpExpectedAudience policy) (jvClockSkewSeconds v * 1000000000))
                  None None (vpExpectedIssuers policy) of
             Some err \<Rightarrow> Inl err
           | None \<Rightarrow> Inr token))"

text \<open>The cause is the error of the library; its text is not modelled.\<close>

definition mapParseError :: "jwt_error \<Rightarrow> TokenExchangeError" where
  "mapParseError err =
     WithDiagnostic (NewDiagnostic StageSubjectValidation
         (if err = TokenExpiredError then DetailSubjectExpired else DetailSubjectInvalid))
       (WithCause [OtherCause ''jwt''] (NewInvalidGrantError ''subject_token validation failed''))"

definition mapClientAssertionParseError :: "jwt_error \<Rightarrow> TokenExchangeError" where
  "mapClientAssertionParseError err =
     WithDiagnostic (NewDiagnostic StageClientValidation
         (if err = TokenExpiredError then DetailClientExpired else DetailClientInvalid))
       (WithCause [OtherCause ''jwt''] (NewInvalidClientError ''client_assertion validation failed''))"

text \<open>The common course of both validations; \<open>canceled\<close> is whether the caller has gone when the
  key set cannot be fetched.\<close>

definition validate_token ::
  "'ks jwt_lib \<Rightarrow> time \<Rightarrow> bool \<Rightarrow> FailureStage \<Rightarrow> string \<Rightarrow> (jwt_error \<Rightarrow> TokenExchangeError) \<Rightarrow> 'ks JWTValidator \<Rightarrow>
   'ks JWTValidationPolicy \<Rightarrow> string \<Rightarrow> TokenExchangeError + claims_token" where
  "validate_token lib now canceled stage fetch_msg map_err v policy tokenString =
     (case vpJWKSProvider policy of
        None \<Rightarrow> Inl (NewServerError fetch_msg)
      | Some (Inl err) \<Rightarrow>
          Inl (WithDiagnostic (NewDiagnostic stage (if canceled then DetailCallerCanceled else DetailJWKSUnavailable))
                 (NewServerErrorWithCause fetch_msg (OtherCause err # (if canceled then [CallerCanceled] else []))))
      | Some (Inr keyset) \<Rightarrow>
          (case parseWithPolicy lib now v tokenString keyset policy of
             Inl err \<Rightarrow> Inl (map_err err)
           | Inr token \<Rightarrow> Inr token))"

definition ValidateSubjectToken ::
  "'ks jwt_lib \<Rightarrow> time \<Rightarrow> bool \<Rightarrow> 'ks JWTValidator \<Rightarrow> string \<Rightarrow> TokenExchangeError + claims_token" where
  "ValidateSubjectToken lib now canceled v tokenString =
     (if tokenString = []
      then Inl (WithDiagnostic (NewDiagnostic StageRequestValidation DetailRequestMalformed)
                 (NewInvalidRequestError ''subject_token is required''))
      else validate_token lib now canceled StageSubjectValidation ''failed to fetch JWKS for token validation''
             mapParseError v (jvSubjectTokenPolicy v) tokenString)"

definition ValidateClientAssertion ::
  "'ks jwt_lib \<Rightarrow> time \<Rightarrow> bool \<Rightarrow> 'ks JWTValidator \<Rightarrow> string \<Rightarrow> TokenExchangeError + claims_token" where
  "ValidateClientAssertion lib now canceled v tokenString =
     (if tokenString = []
      then Inl (WithDiagnostic (NewDiagnostic StageRequestValidation DetailRequestMalformed)
                 (NewInvalidRequestError ''client_assertion is required''))
      else validate_token lib now canceled StageClientValidation ''failed to fetch JWKS for client assertion validation''
             mapClientAssertionParseError v (jvClientAssertionPolicy v) tokenString)"

section \<open>Claims\<close>

type_synonym claims = "(string, goval) gomap"

definition set_claim :: "string \<Rightarrow> goval option \<Rightarrow> claims \<Rightarrow> claims" where
  "set_claim key v m = (case v of None \<Rightarrow> m | Some x \<Rightarrow> AList.update key x m)"

definition text_claim :: "string option \<Rightarrow> goval option" where
  "text_claim t = (case t of None \<Rightarrow> None | Some s \<Rightarrow> if s = [] then None else Some (GString s))"

text \<open>\<^verbatim>\<open>Unix()\<close> of a time, in whole seconds since 1970; \<open>0\<close> is the zero time.\<close>

definition Unix :: "time \<Rightarrow> int" where
  "Unix t = (t - 62135596800000000000) div 1000000000"

definition time_claim :: "time option \<Rightarrow> goval option" where
  "time_claim t = (case t of None \<Rightarrow> None | Some x \<Rightarrow> if time_is_zero x then None else Some (GInt (Unix x)))"

definition FromToken :: "claims_token \<Rightarrow> claims" where
  "FromToken token =
     (let c1 = set_claim ''iss'' (text_claim (tkIssuer token)) [];
          c2 = set_claim ''sub'' (text_claim (tkSubject token)) c1;
          c3 = set_claim ''aud'' (case tkAudience token of
                 None \<Rightarrow> None
               | Some aud \<Rightarrow> if aud = [] then None
                             else if length aud = 1 then Some (GString (hd aud))
                             else Some (GSlice (map GString aud))) c2;
          c4 = set_claim ''exp'' (time_claim (tkExpiration token)) c3;
          c5 = set_claim ''iat'' (time_claim (tkIssuedAt token)) c4;
          c6 = set_claim ''nbf'' (time_claim (tkNotBefore token)) c5;
          c7 = set_claim ''jti'' (text_claim (tkJwtID token)) c6
      in fold (\<lambda>(key, v) m. if map_of m key = None then AList.update key v m else m) (tkClaims token) c7)"

section \<open>Configured expressions\<close>

text \<open>What \<^verbatim>\<open>program.Eval\<close> gives: a value of the CEL library (its own strings and booleans, or
  native ones), or an error, which may carry the error of the agent resolver the expression
  called. Running out of time is one of the errors.\<close>

datatype cel_value = CelString string | CelBool bool | NativeString string | NativeBool bool | CelOther

datatype cel_error = CelResolver TokenExchangeError | CelFailure string

record CELRequestContext =
  cxResource :: string
  cxGrantType :: string
  cxScope :: string
  cxPrincipal :: principal
  cxAgentID :: string

definition ToMap :: "CELRequestContext \<Rightarrow> (string, string) gomap" where
  "ToMap r = [(''resource'', cxResource r), (''grant_type'', cxGrantType r), (''scope'', cxScope r),
     (''principal'', cxPrincipal r), (''agent_id'', cxAgentID r)]"

record CELEvaluator =
  ceAgentSubjectProgram :: "claims \<Rightarrow> cel_error + cel_value"
  cePrincipalProgram :: "claims \<Rightarrow> cel_error + cel_value"
  ceAgentIDProgram :: "claims \<Rightarrow> cel_error + cel_value"
  ceAuthorizationProgram :: "claims \<Rightarrow> claims \<Rightarrow> (string, string) gomap \<Rightarrow> cel_error + cel_value"

definition celEvaluationError :: "string \<Rightarrow> FailureStage \<Rightarrow> cel_error \<Rightarrow> TokenExchangeError" where
  "celEvaluationError description stage cause =
     (let own = NewDiagnostic stage DetailCELEvaluationFailed
      in case cause of
           CelResolver origin \<Rightarrow>
             WithDiagnostic (if dgDetail (Diagnostic_of origin) \<noteq> DetailInternalUnclassified then Diagnostic_of origin else own)
               (NewServerErrorWithCause description (teCause origin))
         | CelFailure msg \<Rightarrow> WithDiagnostic own (NewServerErrorWithCause description [OtherCause msg]))"

definition cel_misconfigured :: "FailureStage \<Rightarrow> string \<Rightarrow> TokenExchangeError" where
  "cel_misconfigured stage msg = WithDiagnostic (NewDiagnostic stage DetailCELConfiguration) (NewServerError msg)"

definition IsAgentSubject :: "CELEvaluator \<Rightarrow> claims \<Rightarrow> TokenExchangeError + bool" where
  "IsAgentSubject e subjectTokenClaims =
     (case ceAgentSubjectProgram e subjectTokenClaims of
        Inl err \<Rightarrow> Inl (celEvaluationError ''agent-subject detection failed'' StageIdentityResolution err)
      | Inr (CelBool b) \<Rightarrow> Inr b
      | Inr _ \<Rightarrow> Inl (cel_misconfigured StageIdentityResolution ''agent-subject expression did not return a boolean''))"

definition cel_text :: "cel_value \<Rightarrow> string option" where
  "cel_text v = (case v of NativeString s \<Rightarrow> Some s | CelString s \<Rightarrow> Some s | _ \<Rightarrow> None)"

definition cel_truth :: "cel_value \<Rightarrow> bool option" where
  "cel_truth v = (case v of NativeBool b \<Rightarrow> Some b | CelBool b \<Rightarrow> Some b | _ \<Rightarrow> None)"

definition ExtractPrincipal :: "CELEvaluator \<Rightarrow> claims \<Rightarrow> TokenExchangeError + principal" where
  "ExtractPrincipal e subjectTokenClaims =
     (case cePrincipalProgram e subjectTokenClaims of
        Inl err \<Rightarrow> Inl (celEvaluationError ''failed to extract principal from subject_token'' StageIdentityResolution err)
      | Inr v \<Rightarrow>
          (case cel_text v of
             None \<Rightarrow> Inl (cel_misconfigured StageIdentityResolution ''principal extraction did not return a string'')
           | Some p \<Rightarrow>
               if p = [] then Inl (cel_misconfigured StageIdentityResolution ''principal extraction returned empty value'')
               else Inr p))"

definition ExtractAgentID :: "CELEvaluator \<Rightarrow> claims \<Rightarrow> TokenExchangeError + string" where
  "ExtractAgentID e subjectTokenClaims =
     (case ceAgentIDProgram e subjectTokenClaims of
        Inl err \<Rightarrow> Inl (celEvaluationError ''failed to extract agent ID from subject_token'' StageIdentityResolution err)
      | Inr v \<Rightarrow>
          (case cel_text v of
             None \<Rightarrow> Inl (cel_misconfigured StageIdentityResolution ''agent ID extraction did not return a string'')
           | Some agentID \<Rightarrow>
               if agentID = [] then Inl (cel_misconfigured StageIdentityResolution ''agent ID extraction returned empty value'')
               else Inr agentID))"

definition AuthorizePrivilegedClient ::
  "CELEvaluator \<Rightarrow> claims \<Rightarrow> claims \<Rightarrow> CELRequestContext \<Rightarrow> TokenExchangeError + bool" where
  "AuthorizePrivilegedClient e clientAssertionClaims subjectTokenClaims request =
     (case ceAuthorizationProgram e clientAssertionClaims subjectTokenClaims (ToMap request) of
        Inl err \<Rightarrow> Inl (celEvaluationError ''CEL authorization expression evaluation failed'' StageClientAuthorization err)
      | Inr v \<Rightarrow>
          (case cel_truth v of
             None \<Rightarrow> Inl (cel_misconfigured StageClientAuthorization ''authorization expression did not return a boolean'')
           | Some authorized \<Rightarrow>
               if \<not> authorized
               then Inl (WithDiagnostic (NewDiagnostic StageClientAuthorization DetailClientPolicyDenied)
                           (NewAccessDeniedError ''privileged client authorization denied by CEL policy''))
               else Inr True))"

text \<open>The principal, the agent and the error of \<^verbatim>\<open>ResolveHumanSubject\<close>: the principal is returned
  with an error too, once it is known.\<close>

definition ResolveHumanSubject ::
  "CELEvaluator \<Rightarrow> claims \<Rightarrow> principal \<times> string \<times> TokenExchangeError option" where
  "ResolveHumanSubject e subjectTokenClaims =
     (case ExtractPrincipal e subjectTokenClaims of
        Inl err \<Rightarrow> ([], [], Some err)
      | Inr p \<Rightarrow>
          (case IsAgentSubject e subjectTokenClaims of
             Inl err \<Rightarrow> (p, [], Some (WithCause (ErrAgentSubjectDetection # teCause err) err))
           | Inr True \<Rightarrow>
               (p, [], Some (WithCause [ErrAgentSubjectToken]
                 (WithDiagnostic (NewDiagnostic StageIdentityResolution DetailSubjectCategoryUnsupported)
                   (NewAccessDeniedError ''agent-subject tokens cannot be exchanged for third-party service tokens''))))
           | Inr False \<Rightarrow>
               (case ExtractAgentID e subjectTokenClaims of
                  Inl err \<Rightarrow> (p, [], Some err)
                | Inr agentID \<Rightarrow> (p, agentID, None))))"

section \<open>The request\<close>

record TokenExchangeRequest =
  trGrantType :: string
  trSubjectToken :: string
  trSubjectTokenType :: string
  trClientAssertion :: string
  trClientAssertionType :: string
  trResource :: string
  trScope :: string

definition TokenExchangeGrantType :: string where
  "TokenExchangeGrantType = ''urn:ietf:params:oauth:grant-type:token-exchange''"

definition AccessTokenType :: string where
  "AccessTokenType = ''urn:ietf:params:oauth:token-type:access_token''"

definition JWTBearerType :: string where
  "JWTBearerType = ''urn:ietf:params:oauth:client-assertion-type:jwt-bearer''"

definition malformed :: "string \<Rightarrow> TokenExchangeError" where
  "malformed msg = WithDiagnostic (NewDiagnostic StageRequestValidation DetailRequestMalformed) (NewInvalidRequestError msg)"

text \<open>\<open>resource_ok\<close> is whether \<^verbatim>\<open>NewResourceURI\<close> accepts a text.\<close>

definition TokenExchangeRequest_Validate :: "(string \<Rightarrow> bool) \<Rightarrow> TokenExchangeRequest \<Rightarrow> TokenExchangeError option" where
  "TokenExchangeRequest_Validate resource_ok req =
     (if trGrantType req = [] then Some (malformed ''grant_type parameter is required'')
      else if trGrantType req \<noteq> TokenExchangeGrantType then Some (malformed ''grant_type must identify token exchange'')
      else if trSubjectToken req = [] then Some (malformed ''subject_token parameter is required'')
      else if trSubjectTokenType req \<noteq> AccessTokenType
      then Some (malformed ''subject_token_type must be the access-token type'')
      else if trClientAssertion req = [] then Some (malformed ''client_assertion parameter is required'')
      else if trClientAssertionType req \<noteq> JWTBearerType
      then Some (malformed ''client_assertion_type must be the JWT bearer type'')
      else if trResource req = []
      then Some (WithDiagnostic (NewDiagnostic StageRequestValidation DetailResourceMissing)
                   (NewInvalidRequestError ''resource parameter is required''))
      else if \<not> resource_ok (trResource req)
      then Some (WithCause [OtherCause ''resource URI''] (malformed ''resource parameter is invalid''))
      else None)"

section \<open>Facts\<close>

lemma error_codes [simp]:
  "teHTTPStatus (NewInvalidRequestError m) = 400" "teHTTPStatus (NewInvalidClientError m) = 401"
  "teHTTPStatus (NewInvalidGrantError m) = 400" "teHTTPStatus (NewAccessDeniedError m) = 403"
  "teHTTPStatus (NewServerError m) = 500" "teHTTPStatus (NewServerErrorWithCause m c) = 500"
  "teHTTPStatus (WithDiagnostic d e) = teHTTPStatus e" "teHTTPStatus (WithCause c e) = teHTTPStatus e"
  "teHTTPStatus (WithErrorURI u e) = teHTTPStatus e"
  "teCause (WithDiagnostic d e) = teCause e" "teCause (WithCause c e) = c" "teCause (WithErrorURI u e) = teCause e"
  "teCause (NewAccessDeniedError m) = []" "teCause (NewServerError m) = []" "teCause (NewServerErrorWithCause m c) = c"
  by (simp_all add: exchange_error_defs)

text \<open>The issuer loop accepts exactly when one of the issuers validates.\<close>

lemma try_issuers_None:
  assumes "issuers \<noteq> [] \<or> firstErr \<noteq> None"
  shows "try_issuers validate firstErr preferredErr issuers = None \<longleftrightarrow> (\<exists>i \<in> set issuers. validate i = None)"
  using assms
proof (induction validate firstErr preferredErr issuers rule: try_issuers.induct)
  case (2 validate firstErr preferredErr issuer rest)
  then show ?case by (cases "validate issuer") auto
qed auto

lemma try_issuers_Some:
  assumes "try_issuers validate None preferredErr issuers = Some e" and "i \<in> set issuers"
  shows "\<exists>err. validate i = Some err"
  using assms try_issuers_None [of issuers None validate preferredErr] by (cases "validate i") force+

lemma keep_issuers_set:
  assumes "keep_issuers acc xs = Some ys" and "distinct acc" and "[] \<notin> set acc"
  shows "set ys = set acc \<union> set xs \<and> distinct ys \<and> [] \<notin> set ys"
  using assms
proof (induction acc xs rule: keep_issuers.induct)
  case (2 acc x xs)
  then show ?case by (cases "x \<in> set acc") (auto split: if_splits)
qed auto

lemma ResolveHumanSubject_ok:
  assumes "ResolveHumanSubject e c = (p, agentID, None)"
  shows "ExtractPrincipal e c = Inr p" "IsAgentSubject e c = Inr False" "ExtractAgentID e c = Inr agentID"
    "p \<noteq> []" "agentID \<noteq> []"
  using assms
  by (auto simp: ResolveHumanSubject_def ExtractPrincipal_def ExtractAgentID_def
      split: sum.splits bool.splits option.splits if_splits)

lemma AuthorizePrivilegedClient_Inr: "AuthorizePrivilegedClient e c s r \<noteq> Inr False"
  by (auto simp: AuthorizePrivilegedClient_def split: sum.splits option.splits)

text \<open>Custom claims only fill keys that are still free.\<close>

definition add_free :: "string \<times> goval \<Rightarrow> claims \<Rightarrow> claims" where
  "add_free = (\<lambda>(key, v) m. if map_of m key = None then AList.update key v m else m)"

lemma fold_add_free: "map_of m k = Some v \<Longrightarrow> map_of (fold add_free xs m) k = Some v"
proof (induction xs arbitrary: m)
  case (Cons x xs)
  have "map_of (add_free x m) k = Some v"
    using Cons.prems by (cases x) (auto simp: add_free_def go_map_simps)
  then show ?case using Cons.IH by simp
qed simp

lemma map_of_set_claim:
  "map_of (set_claim key v m) k = (if k = key \<and> v \<noteq> None then v else map_of m k)"
  by (cases v) (auto simp: set_claim_def go_map_simps)

lemma FromToken_standard:
  "text_claim (tkIssuer token) = Some v \<Longrightarrow> map_of (FromToken token) ''iss'' = Some v"
  "text_claim (tkSubject token) = Some v \<Longrightarrow> map_of (FromToken token) ''sub'' = Some v"
  "text_claim (tkJwtID token) = Some v \<Longrightarrow> map_of (FromToken token) ''jti'' = Some v"
  "time_claim (tkExpiration token) = Some v \<Longrightarrow> map_of (FromToken token) ''exp'' = Some v"
  unfolding FromToken_def Let_def add_free_def [symmetric]
  by (rule fold_add_free, simp add: map_of_set_claim)+

section \<open>What an accepted token is\<close>

lemma normalized_policy:
  assumes "normalizeValidationPolicy name policy = Inr p"
  shows "vpExpectedIssuers p \<noteq> []" "set (vpExpectedIssuers p) = set (vpExpectedIssuers policy)"
    "vpJWKSProvider p = vpJWKSProvider policy" "vpExpectedAudience p = vpExpectedAudience policy"
proof -
  from assms obtain issuers where k: "keep_issuers [] (vpExpectedIssuers policy) = Some issuers"
    and p: "issuers \<noteq> []" "p = policy\<lparr>vpExpectedIssuers := issuers\<rparr>"
    by (auto simp: normalizeValidationPolicy_def split: if_splits option.splits)
  with keep_issuers_set [OF k] show "vpExpectedIssuers p \<noteq> []"
    "set (vpExpectedIssuers p) = set (vpExpectedIssuers policy)"
    "vpJWKSProvider p = vpJWKSProvider policy" "vpExpectedAudience p = vpExpectedAudience policy"
    by simp_all
qed

text \<open>The audience a policy asks for.\<close>

definition wanted_audience :: "string \<Rightarrow> 'ks JWTValidationPolicy \<Rightarrow> string" where
  "wanted_audience aud policy = (if vpExpectedAudience policy = [] then aud else vpExpectedAudience policy)"

lemma default_audience_fields [simp]:
  "vpExpectedIssuers (default_audience aud p) = vpExpectedIssuers p"
  "vpJWKSProvider (default_audience aud p) = vpJWKSProvider p"
  "vpExpectedAudience (default_audience aud p) = wanted_audience aud p"
  by (simp_all add: default_audience_def wanted_audience_def)

lemma built_validator:
  assumes "NewJWTValidatorWithPolicies sp cp aud skew = Inr v"
  shows "jvClockSkewSeconds v = skew" "0 \<le> skew" "skew \<le> 300" "aud \<noteq> []"
    "vpExpectedIssuers (jvSubjectTokenPolicy v) \<noteq> []" "vpExpectedIssuers (jvClientAssertionPolicy v) \<noteq> []"
    "set (vpExpectedIssuers (jvSubjectTokenPolicy v)) = set (vpExpectedIssuers sp)"
    "set (vpExpectedIssuers (jvClientAssertionPolicy v)) = set (vpExpectedIssuers cp)"
    "vpJWKSProvider (jvSubjectTokenPolicy v) = vpJWKSProvider sp"
    "vpJWKSProvider (jvClientAssertionPolicy v) = vpJWKSProvider cp"
    "vpExpectedAudience (jvSubjectTokenPolicy v) = wanted_audience aud sp"
    "vpExpectedAudience (jvClientAssertionPolicy v) = wanted_audience aud cp"
proof -
  from assms obtain sp' cp' where n: "normalizeValidationPolicy ''subject_token'' sp = Inr sp'"
      "normalizeValidationPolicy ''client_assertion'' cp = Inr cp'"
    and v: "v = \<lparr>jvSubjectTokenPolicy = default_audience aud sp', jvClientAssertionPolicy = default_audience aud cp',
        jvClockSkewSeconds = skew\<rparr>" and s: "0 \<le> skew" "skew \<le> 300" "aud \<noteq> []"
    by (auto simp: NewJWTValidatorWithPolicies_def Let_def MaxClockSkewTolerance_def
        split: sum.splits if_splits)
  note ps = normalized_policy [OF n(1)] and pc = normalized_policy [OF n(2)]
  from ps pc v s show "jvClockSkewSeconds v = skew" "0 \<le> skew" "skew \<le> 300" "aud \<noteq> []"
    "vpExpectedIssuers (jvSubjectTokenPolicy v) \<noteq> []" "vpExpectedIssuers (jvClientAssertionPolicy v) \<noteq> []"
    "set (vpExpectedIssuers (jvSubjectTokenPolicy v)) = set (vpExpectedIssuers sp)"
    "set (vpExpectedIssuers (jvClientAssertionPolicy v)) = set (vpExpectedIssuers cp)"
    "vpJWKSProvider (jvSubjectTokenPolicy v) = vpJWKSProvider sp"
    "vpJWKSProvider (jvClientAssertionPolicy v) = vpJWKSProvider cp"
    "vpExpectedAudience (jvSubjectTokenPolicy v) = wanted_audience aud sp"
    "vpExpectedAudience (jvClientAssertionPolicy v) = wanted_audience aud cp"
    by (simp_all add: wanted_audience_def)
qed

text \<open>A token is genuine for a policy: its signature verifies under the policy's keys and it
  validates for one of the accepted issuers and the wanted audience.\<close>

definition genuine :: "'ks jwt_lib \<Rightarrow> time \<Rightarrow> int \<Rightarrow> string \<Rightarrow> 'ks JWTValidationPolicy \<Rightarrow> string \<Rightarrow> claims_token \<Rightarrow> bool" where
  "genuine lib now skew aud policy text token \<longleftrightarrow>
     (\<exists>keyset issuer. vpJWKSProvider policy = Some (Inr keyset) \<and> jlParse lib text keyset = Inr token \<and>
        issuer \<in> set (vpExpectedIssuers policy) \<and>
        jlValidate lib now token issuer (wanted_audience aud policy) (skew * 1000000000) = None)"

lemma validate_token_genuine:
  assumes "vpExpectedIssuers policy \<noteq> []"
  shows "validate_token lib now canceled stage msg map_err v policy text = Inr token \<longleftrightarrow>
    (\<exists>keyset issuer. vpJWKSProvider policy = Some (Inr keyset) \<and> jlParse lib text keyset = Inr token \<and>
        issuer \<in> set (vpExpectedIssuers policy) \<and>
        jlValidate lib now token issuer (vpExpectedAudience policy) (jvClockSkewSeconds v * 1000000000) = None)"
  using assms
  by (auto simp: validate_token_def parseWithPolicy_def try_issuers_None split: option.splits sum.splits
      dest: try_issuers_Some)

lemma ValidateSubjectToken_genuine:
  assumes "NewJWTValidatorWithPolicies sp cp aud skew = Inr v"
  shows "ValidateSubjectToken lib now canceled v text = Inr token \<longleftrightarrow> text \<noteq> [] \<and> genuine lib now skew aud sp text token"
  using built_validator [OF assms]
  by (simp add: ValidateSubjectToken_def validate_token_genuine genuine_def)

lemma ValidateClientAssertion_genuine:
  assumes "NewJWTValidatorWithPolicies sp cp aud skew = Inr v"
  shows "ValidateClientAssertion lib now canceled v text = Inr token \<longleftrightarrow> text \<noteq> [] \<and> genuine lib now skew aud cp text token"
  using built_validator [OF assms]
  by (simp add: ValidateClientAssertion_def validate_token_genuine genuine_def)

end
