(* ===== verification/Request_Auth.thy ===== *)
theory Request_Auth
  imports Exchange_Tokens
begin

text \<open>
  Who a request speaks for. \<^verbatim>\<open>internal/adapters/http/middleware/principal_middleware.go\<close> admits
  the users of the web interface; \<^verbatim>\<open>approval_auth.go\<close> admits the gateway's calls to the approval
  endpoints by the subject token of the user and the assertion of the gateway. A middleware either
  answers the request itself, with a status and a text, or passes it on with the values it put
  into the request context (\<^verbatim>\<open>internal/domain/principal\<close>). \<^verbatim>\<open>JWTAuthenticator\<close> is an interface: an
  argument.
\<close>

section \<open>The request context\<close>

record PrincipalProfile =
  ppPrincipal :: principal
  ppDisplayName :: string
  ppEmail :: "string option"
  ppPictureURL :: "string option"

definition NewProfile :: "principal \<Rightarrow> PrincipalProfile" where
  "NewProfile p = \<lparr>ppPrincipal = p, ppDisplayName = p, ppEmail = None, ppPictureURL = None\<rparr>"

definition WithDisplayName :: "string \<Rightarrow> PrincipalProfile \<Rightarrow> PrincipalProfile" where
  "WithDisplayName displayName p = (if displayName \<noteq> [] then p\<lparr>ppDisplayName := displayName\<rparr> else p)"

record ApprovalAuthContext =
  aaPrincipal :: principal
  aaAgentID :: agent_id
  aaGatewayClientID :: string

record request_context =
  rxPrincipal :: "principal option"
  rxProfile :: "PrincipalProfile option"
  rxApprovalAuth :: "ApprovalAuthContext option"

text \<open>\<^verbatim>\<open>principal.FromContext\<close> and the test the handlers make on it.\<close>

definition acting_principal :: "request_context \<Rightarrow> principal option" where
  "acting_principal ctx =
     (case rxPrincipal ctx of None \<Rightarrow> None | Some p \<Rightarrow> if p = [] then None else Some p)"

type_synonym 'a guarded = "(int \<times> string) + 'a"

section \<open>Users of the web interface\<close>

definition maxPrincipalLength :: nat where
  "maxPrincipalLength = 200"

datatype jwt_auth_error =
    ErrJWKSUnavailable | ErrInvalidSignature | ErrTokenExpired | ErrAudienceMismatch | ErrIssuerMismatch
  | ErrMissingExpiry | ErrMalformedToken | ErrClaimExtraction | JWTAuthFailure string

record AuthResult =
  arsPrincipal :: principal
  arsDisplayName :: "string option"
  arsEmail :: "string option"
  arsPictureURL :: "string option"

text \<open>The configuration: the plain header, and with JWT authentication the header name of the token
  and the authenticator.\<close>

record principal_auth =
  paPrincipalHeaderName :: string
  paJWT :: "(string \<times> (string \<Rightarrow> jwt_auth_error + AuthResult)) option"

definition jwt_header_name :: "string \<Rightarrow> string" where
  "jwt_header_name configured = (if configured = [] then ''Authorization'' else configured)"

definition mapJWTError :: "jwt_auth_error \<Rightarrow> string" where
  "mapJWTError err =
     (case err of
        ErrJWKSUnavailable \<Rightarrow> ''JWKS endpoint unavailable''
      | ErrInvalidSignature \<Rightarrow> ''invalid JWT signature''
      | ErrTokenExpired \<Rightarrow> ''JWT token expired''
      | ErrAudienceMismatch \<Rightarrow> ''JWT audience mismatch''
      | ErrIssuerMismatch \<Rightarrow> ''JWT issuer mismatch''
      | ErrMissingExpiry \<Rightarrow> ''JWT missing expiry''
      | ErrMalformedToken \<Rightarrow> ''malformed JWT token''
      | ErrClaimExtraction \<Rightarrow> ''JWT claim extraction failed''
      | JWTAuthFailure _ \<Rightarrow> ''JWT authentication failed'')"

definition jwt_profile :: "AuthResult \<Rightarrow> PrincipalProfile" where
  "jwt_profile result =
     (let p0 = NewProfile (arsPrincipal result);
          p1 = (case arsDisplayName result of None \<Rightarrow> p0 | Some n \<Rightarrow> WithDisplayName n p0);
          p2 = (if arsEmail result \<noteq> None then p1\<lparr>ppEmail := arsEmail result\<rparr> else p1)
      in if arsPictureURL result \<noteq> None then p2\<lparr>ppPictureURL := arsPictureURL result\<rparr> else p2)"

definition with_profile :: "PrincipalProfile \<Rightarrow> request_context \<Rightarrow> request_context" where
  "with_profile profile ctx = ctx\<lparr>rxPrincipal := Some (ppPrincipal profile), rxProfile := Some profile\<rparr>"

text \<open>\<open>header\<close> gives the value of a request header, empty when it is absent.\<close>

definition RequirePrincipalMiddleware ::
  "principal_auth \<Rightarrow> (string \<Rightarrow> string) \<Rightarrow> request_context \<Rightarrow> request_context guarded" where
  "RequirePrincipalMiddleware cfg header ctx =
     (case paJWT cfg of
        Some (configured, authenticate) \<Rightarrow>
          (let value = header (jwt_header_name configured)
           in if value = [] then Inl (401, ''missing principal'')
              else case authenticate value of
                  Inl err \<Rightarrow> Inl (if err = ErrJWKSUnavailable then 503 else 401, mapJWTError err)
                | Inr result \<Rightarrow>
                    if maxPrincipalLength < length (arsPrincipal result) then Inl (400, ''principal too long'')
                    else Inr (with_profile (jwt_profile result) ctx))
      | None \<Rightarrow>
          (let p = TrimSpace (header (paPrincipalHeaderName cfg))
           in if p = [] then Inl (401, ''missing principal'')
              else if maxPrincipalLength < length p then Inl (400, ''principal too long'')
              else Inr (with_profile (NewProfile p) ctx)))"

definition OptionalPrincipalMiddleware ::
  "principal_auth \<Rightarrow> (string \<Rightarrow> string) \<Rightarrow> request_context \<Rightarrow> request_context" where
  "OptionalPrincipalMiddleware cfg header ctx =
     (case paJWT cfg of
        Some (configured, authenticate) \<Rightarrow>
          (let value = header (jwt_header_name configured)
           in if value = [] then ctx
              else case authenticate value of
                  Inl _ \<Rightarrow> ctx
                | Inr result \<Rightarrow>
                    if length (arsPrincipal result) \<le> maxPrincipalLength then with_profile (jwt_profile result) ctx else ctx)
      | None \<Rightarrow>
          (let p = TrimSpace (header (paPrincipalHeaderName cfg))
           in if p \<noteq> [] \<and> length p \<le> maxPrincipalLength then with_profile (NewProfile p) ctx else ctx))"

section \<open>The gateway's calls\<close>

record approvalAuthError =
  aeStatus :: int
  aeCode :: string
  aeMessage :: string

definition unauthorized_error :: "string \<Rightarrow> approvalAuthError" where
  "unauthorized_error msg = \<lparr>aeStatus = 401, aeCode = ''unauthorized'', aeMessage = msg\<rparr>"

definition forbidden_error :: "string \<Rightarrow> approvalAuthError" where
  "forbidden_error msg = \<lparr>aeStatus = 403, aeCode = ''forbidden'', aeMessage = msg\<rparr>"

definition unavailable_error :: "string \<Rightarrow> approvalAuthError" where
  "unavailable_error msg = \<lparr>aeStatus = 503, aeCode = ''service_unavailable'', aeMessage = msg\<rparr>"

text \<open>The authenticator; both parts may be missing. \<open>agParse\<close> is \<^verbatim>\<open>uuid.Parse\<close> followed by
  \<^verbatim>\<open>String\<close>.\<close>

record 'ks ApprovalRequestAuthenticator =
  raJWTValidator :: "'ks JWTValidator option"
  raCELEvaluator :: "CELEvaluator option"
  raParseAgentID :: "string \<Rightarrow> agent_id option"

definition isServerSideTokenExchangeError :: "TokenExchangeError \<Rightarrow> bool" where
  "isServerSideTokenExchangeError e \<longleftrightarrow> 500 \<le> teHTTPStatus e"

definition bearer_prefix :: string where
  "bearer_prefix = ''bearer ''"

definition extractBearerToken :: "string \<Rightarrow> string \<Rightarrow> approvalAuthError + string" where
  "extractBearerToken headerValue label =
     (if TrimSpace headerValue = [] then Inl (unauthorized_error (''missing '' @ label))
      else if \<not> HasPrefix (ToLower headerValue) bearer_prefix
      then Inl (unauthorized_error (label @ '' must be supplied as a Bearer token''))
      else
        let tokenValue = TrimSpace (drop (length bearer_prefix) headerValue)
        in if tokenValue = [] then Inl (unauthorized_error (''missing '' @ label)) else Inr tokenValue)"

definition extractTokenValue :: "string \<Rightarrow> string \<Rightarrow> approvalAuthError + string" where
  "extractTokenValue rawValue label =
     (let trimmed = TrimSpace rawValue
      in if trimmed = [] then Inl (unauthorized_error (''missing '' @ label))
         else
           let value = (if HasPrefix (ToLower trimmed) bearer_prefix
                        then TrimSpace (drop (length bearer_prefix) trimmed) else trimmed)
           in if value = [] then Inl (unauthorized_error (''missing '' @ label)) else Inr value)"

definition authenticateSubjectToken ::
  "'ks jwt_lib \<Rightarrow> time \<Rightarrow> bool \<Rightarrow> 'ks ApprovalRequestAuthenticator option \<Rightarrow> string \<Rightarrow>
   approvalAuthError + principal \<times> agent_id \<times> claims" where
  "authenticateSubjectToken lib now canceled a authorizationHeader =
     (case (Option.bind a raJWTValidator, Option.bind a raCELEvaluator) of
        (Some v, Some e) \<Rightarrow>
          (case extractBearerToken authorizationHeader ''subject token'' of
             Inl err \<Rightarrow> Inl err
           | Inr subjectToken \<Rightarrow>
             (case ValidateSubjectToken lib now canceled v subjectToken of
                Inl err \<Rightarrow>
                  Inl (if isServerSideTokenExchangeError err
                       then unavailable_error ''subject token validation is unavailable''
                       else unauthorized_error ''invalid subject token'')
              | Inr subjectJWT \<Rightarrow>
                (let subjectClaims = FromToken subjectJWT
                in case ResolveHumanSubject e subjectClaims of
                     (p, agentIDValue, Some err) \<Rightarrow>
                       Inl (if ErrAgentSubjectToken \<in> set (teCause err)
                            then forbidden_error ''agent-subject tokens cannot authenticate approval requests''
                            else if ErrAgentSubjectDetection \<in> set (teCause err)
                            then unavailable_error ''agent-subject detection is unavailable''
                            else if p = [] then unauthorized_error ''subject token principal extraction failed''
                            else unauthorized_error ''subject token agent extraction failed'')
                   | (p, agentIDValue, None) \<Rightarrow>
                       (case raParseAgentID (the a) agentIDValue of
                          None \<Rightarrow> Inl (unauthorized_error ''subject token agent identity is invalid'')
                        | Some agentID \<Rightarrow> Inr (p, agentID, subjectClaims)))))
      | _ \<Rightarrow> Inl (unavailable_error ''approval subject token validation is not configured''))"

definition authorizeClientAssertion ::
  "'ks jwt_lib \<Rightarrow> time \<Rightarrow> bool \<Rightarrow> 'ks ApprovalRequestAuthenticator option \<Rightarrow> string \<Rightarrow> claims \<Rightarrow> CELRequestContext \<Rightarrow>
   approvalAuthError + string" where
  "authorizeClientAssertion lib now canceled a clientAssertion subjectClaims requestContext =
     (case (Option.bind a raJWTValidator, Option.bind a raCELEvaluator) of
        (Some v, Some e) \<Rightarrow>
          (case ValidateClientAssertion lib now canceled v clientAssertion of
             Inl err \<Rightarrow>
               Inl (if isServerSideTokenExchangeError err
                    then unavailable_error ''client assertion validation is unavailable''
                    else unauthorized_error ''invalid client assertion'')
           | Inr clientAssertionJWT \<Rightarrow>
             (case AuthorizePrivilegedClient e (FromToken clientAssertionJWT) subjectClaims requestContext of
                Inl err \<Rightarrow>
                  Inl (if isServerSideTokenExchangeError err
                       then unavailable_error ''client assertion authorization is unavailable''
                       else unauthorized_error ''client assertion not authorized'')
              | Inr False \<Rightarrow> Inl (unauthorized_error ''client assertion not authorized'')
              | Inr True \<Rightarrow>
                  (case tkSubject clientAssertionJWT of
                     None \<Rightarrow> Inl (unauthorized_error ''client assertion subject is missing'')
                   | Some gatewayClientID \<Rightarrow>
                       if gatewayClientID = [] then Inl (unauthorized_error ''client assertion subject is missing'')
                       else Inr gatewayClientID)))
      | _ \<Rightarrow> Inl (unavailable_error ''approval client assertion validation is not configured''))"

definition authenticateClientAssertion ::
  "'ks jwt_lib \<Rightarrow> time \<Rightarrow> bool \<Rightarrow> 'ks ApprovalRequestAuthenticator option \<Rightarrow> string \<Rightarrow> claims \<Rightarrow> CELRequestContext \<Rightarrow>
   approvalAuthError + string" where
  "authenticateClientAssertion lib now canceled a tokenSource subjectClaims requestContext =
     (case extractTokenValue tokenSource ''client assertion'' of
        Inl err \<Rightarrow> Inl err
      | Inr clientAssertion \<Rightarrow> authorizeClientAssertion lib now canceled a clientAssertion subjectClaims requestContext)"

definition authenticateCreate ::
  "'ks jwt_lib \<Rightarrow> time \<Rightarrow> bool \<Rightarrow> 'ks ApprovalRequestAuthenticator option \<Rightarrow> string \<Rightarrow> string \<Rightarrow>
   approvalAuthError + principal \<times> agent_id \<times> string" where
  "authenticateCreate lib now canceled a authorizationHeader clientAssertionHeader =
     (case authenticateSubjectToken lib now canceled a authorizationHeader of
        Inl err \<Rightarrow> Inl err
      | Inr (p, agentID, subjectClaims) \<Rightarrow>
          (case authenticateClientAssertion lib now canceled a clientAssertionHeader subjectClaims
                  \<lparr>cxResource = [], cxGrantType = ''approval_create'', cxScope = [], cxPrincipal = p, cxAgentID = agentID\<rparr> of
             Inl err \<Rightarrow> Inl err
           | Inr gatewayClientID \<Rightarrow> Inr (p, agentID, gatewayClientID)))"

definition authenticateSync ::
  "'ks jwt_lib \<Rightarrow> time \<Rightarrow> bool \<Rightarrow> 'ks ApprovalRequestAuthenticator option \<Rightarrow> string \<Rightarrow> principal option \<Rightarrow>
   approvalAuthError + string" where
  "authenticateSync lib now canceled a authorizationHeader principalFilter =
     (case extractBearerToken authorizationHeader ''client assertion'' of
        Inl err \<Rightarrow> Inl err
      | Inr clientAssertion \<Rightarrow>
          authorizeClientAssertion lib now canceled a clientAssertion []
            \<lparr>cxResource = [], cxGrantType = ''approval_sync'', cxScope = [],
             cxPrincipal = (case principalFilter of None \<Rightarrow> [] | Some p \<Rightarrow> p), cxAgentID = []\<rparr>)"

definition authenticateConsume ::
  "'ks jwt_lib \<Rightarrow> time \<Rightarrow> bool \<Rightarrow> 'ks ApprovalRequestAuthenticator option \<Rightarrow> string \<Rightarrow> approvalAuthError + principal" where
  "authenticateConsume lib now canceled a authorizationHeader =
     (case authenticateSubjectToken lib now canceled a authorizationHeader of
        Inl err \<Rightarrow> Inl err
      | Inr (p, _, _) \<Rightarrow> Inr p)"

text \<open>The three middlewares. The error of \<^verbatim>\<open>authenticate...\<close> is always an \<^verbatim>\<open>approvalAuthError\<close>, so
  the 500 branch of the source is never taken.\<close>

definition uuid_zero :: agent_id where
  "uuid_zero = ''00000000-0000-0000-0000-000000000000''"

definition RequireApprovalSubjectTokenAndClientAssertion ::
  "'ks jwt_lib \<Rightarrow> time \<Rightarrow> bool \<Rightarrow> 'ks ApprovalRequestAuthenticator option \<Rightarrow> (string \<Rightarrow> string) \<Rightarrow> request_context \<Rightarrow>
   approvalAuthError + request_context" where
  "RequireApprovalSubjectTokenAndClientAssertion lib now canceled a header ctx =
     (case authenticateCreate lib now canceled a (header ''Authorization'') (header ''X-Client-Assertion'') of
        Inl err \<Rightarrow> Inl err
      | Inr (p, agentID, gatewayClientID) \<Rightarrow>
          Inr (ctx\<lparr>rxPrincipal := Some p,
                   rxApprovalAuth := Some \<lparr>aaPrincipal = p, aaAgentID = agentID, aaGatewayClientID = gatewayClientID\<rparr>\<rparr>))"

definition RequireApprovalClientAssertion ::
  "'ks jwt_lib \<Rightarrow> time \<Rightarrow> bool \<Rightarrow> 'ks ApprovalRequestAuthenticator option \<Rightarrow> (string \<Rightarrow> string) \<Rightarrow> string \<Rightarrow> request_context \<Rightarrow>
   approvalAuthError + request_context" where
  "RequireApprovalClientAssertion lib now canceled a header principal_query ctx =
     (let p = TrimSpace principal_query
      in case authenticateSync lib now canceled a (header ''Authorization'') (if p \<noteq> [] then Some p else None) of
           Inl err \<Rightarrow> Inl err
         | Inr gatewayClientID \<Rightarrow>
             Inr (ctx\<lparr>rxApprovalAuth := Some \<lparr>aaPrincipal = [], aaAgentID = uuid_zero, aaGatewayClientID = gatewayClientID\<rparr>\<rparr>))"

definition RequireApprovalSubjectToken ::
  "'ks jwt_lib \<Rightarrow> time \<Rightarrow> bool \<Rightarrow> 'ks ApprovalRequestAuthenticator option \<Rightarrow> (string \<Rightarrow> string) \<Rightarrow> request_context \<Rightarrow>
   approvalAuthError + request_context" where
  "RequireApprovalSubjectToken lib now canceled a header ctx =
     (case authenticateConsume lib now canceled a (header ''Authorization'') of
        Inl err \<Rightarrow> Inl err
      | Inr p \<Rightarrow>
          Inr (ctx\<lparr>rxPrincipal := Some p,
                   rxApprovalAuth := Some \<lparr>aaPrincipal = p, aaAgentID = uuid_zero, aaGatewayClientID = []\<rparr>\<rparr>))"

section \<open>Properties\<close>

lemma authenticateSubjectToken_Inr:
  assumes "authenticateSubjectToken lib now canceled a header = Inr (p, ag, c)"
  shows "\<exists>x v e text token agentIDValue. a = Some x \<and> raJWTValidator x = Some v \<and> raCELEvaluator x = Some e \<and>
    extractBearerToken header ''subject token'' = Inr text \<and> ValidateSubjectToken lib now canceled v text = Inr token \<and>
    c = FromToken token \<and> ResolveHumanSubject e c = (p, agentIDValue, None) \<and> raParseAgentID x agentIDValue = Some ag"
  using assms
  by (cases a) (auto simp: authenticateSubjectToken_def Let_def split: option.splits sum.splits prod.splits)

text \<open>
  C17. A request passes the subject token middleware of the approval endpoints only when its
  \<^verbatim>\<open>Authorization\<close> header carries a token whose signature verifies under the configured keys, whose
  issuer is one of the accepted ones and whose audience validates, and which speaks for a human:
  the principal the middleware puts into the request is the one the configured expression reads from
  the claims of that token, is not empty, and the token is not an agent's own. Nothing else of the
  request changes. The clock skew allowed is at most five minutes.
\<close>

theorem approval_subject_is_human:
  assumes "NewJWTValidatorWithPolicies sp cp aud skew = Inr v"
    and "raJWTValidator a = Some v" and "raCELEvaluator a = Some e"
    and "RequireApprovalSubjectToken lib now canceled (Some a) header ctx = Inr ctx'"
  shows "\<exists>text token p. extractBearerToken (header ''Authorization'') ''subject token'' = Inr text \<and>
    genuine lib now skew aud sp text token \<and> 0 \<le> skew \<and> skew \<le> 300 \<and>
    ExtractPrincipal e (FromToken token) = Inr p \<and> p \<noteq> [] \<and> IsAgentSubject e (FromToken token) = Inr False \<and>
    ctx' = ctx\<lparr>rxPrincipal := Some p,
      rxApprovalAuth := Some \<lparr>aaPrincipal = p, aaAgentID = uuid_zero, aaGatewayClientID = []\<rparr>\<rparr>"
proof -
  from assms(4) obtain p ag c where auth: "authenticateSubjectToken lib now canceled (Some a) (header ''Authorization'') = Inr (p, ag, c)"
    and ctx: "ctx' = ctx\<lparr>rxPrincipal := Some p, rxApprovalAuth := Some \<lparr>aaPrincipal = p, aaAgentID = uuid_zero, aaGatewayClientID = []\<rparr>\<rparr>"
    by (auto simp: RequireApprovalSubjectToken_def authenticateConsume_def split: sum.splits prod.splits)
  from authenticateSubjectToken_Inr [OF auth] assms(2,3) obtain raw token agentIDValue where
    t: "extractBearerToken (header ''Authorization'') ''subject token'' = Inr raw" "ValidateSubjectToken lib now canceled v raw = Inr token"
      "c = FromToken token" "ResolveHumanSubject e c = (p, agentIDValue, None)"
    by auto
  from t(2) have "genuine lib now skew aud sp raw token" using ValidateSubjectToken_genuine [OF assms(1)] by blast
  with t ctx ResolveHumanSubject_ok [OF t(4)] built_validator(2,3) [OF assms(1)] show ?thesis by blast
qed

definition demo_lib :: "string jwt_lib" where
  "demo_lib = \<lparr>jlParse = (\<lambda>text ks. if ks = ''k'' then Inr \<lparr>tkIssuer = Some ''iss'', tkSubject = Some text, tkAudience = Some [''aib''],
       tkExpiration = None, tkIssuedAt = None, tkNotBefore = None, tkJwtID = None, tkClaims = []\<rparr> else Inl (OtherJWTError ''sig'')),
     jlValidate = (\<lambda>now t iss aud skew. if tkIssuer t = Some iss then None else Some InvalidIssuerError)\<rparr>"

definition demo_policy :: "string JWTValidationPolicy" where
  "demo_policy = \<lparr>vpJWKSProvider = Some (Inr ''k''), vpExpectedIssuers = [''other'', ''iss''], vpExpectedAudience = []\<rparr>"

definition demo_validator :: "string JWTValidator" where
  "demo_validator = projr (NewJWTValidatorWithPolicies demo_policy demo_policy ''aib'' 60)"

definition demo_cel :: CELEvaluator where
  "demo_cel = \<lparr>ceAgentSubjectProgram = (\<lambda>_. Inr (CelBool False)),
     cePrincipalProgram = (\<lambda>c. case map_of c ''sub'' of Some (GString s) \<Rightarrow> Inr (CelString s) | _ \<Rightarrow> Inl (CelFailure ''no sub'')),
     ceAgentIDProgram = (\<lambda>_. Inr (CelString ''agent'')), ceAuthorizationProgram = (\<lambda>_ _ _. Inr (CelBool True))\<rparr>"

definition demo_authenticator :: "string ApprovalRequestAuthenticator" where
  "demo_authenticator = \<lparr>raJWTValidator = Some demo_validator, raCELEvaluator = Some demo_cel, raParseAgentID = Some\<rparr>"

lemma demo_validator_built: "NewJWTValidatorWithPolicies demo_policy demo_policy ''aib'' 60 = Inr demo_validator"
proof -
  have "\<not> isl (NewJWTValidatorWithPolicies demo_policy demo_policy ''aib'' 60)"
    by code_simp
  then show ?thesis unfolding demo_validator_def by simp
qed

definition no_context :: request_context where
  "no_context = \<lparr>rxPrincipal = None, rxProfile = None, rxApprovalAuth = None\<rparr>"

definition demo_subject_header :: "string \<Rightarrow> string" where
  "demo_subject_header h = (if h = ''Authorization'' then ''Bearer alice'' else [])"

lemma demo_authenticated:
  "RequireApprovalSubjectToken demo_lib 7 False (Some demo_authenticator) demo_subject_header no_context =
     Inr (no_context\<lparr>rxPrincipal := Some ''alice'',
       rxApprovalAuth := Some \<lparr>aaPrincipal = ''alice'', aaAgentID = uuid_zero, aaGatewayClientID = []\<rparr>\<rparr>)"
  by code_simp

theorem approval_subject_is_human_witness:
  "\<exists>text token. extractBearerToken ''Bearer alice'' ''subject token'' = Inr text \<and>
     genuine demo_lib 7 60 ''aib'' demo_policy text token \<and> ExtractPrincipal demo_cel (FromToken token) = Inr ''alice'' \<and>
     IsAgentSubject demo_cel (FromToken token) = Inr False"
proof -
  have "raJWTValidator demo_authenticator = Some demo_validator" "raCELEvaluator demo_authenticator = Some demo_cel"
    by (simp_all add: demo_authenticator_def)
  from approval_subject_is_human [OF demo_validator_built this demo_authenticated] show ?thesis
    by (auto simp: demo_subject_header_def no_context_def)
qed

text \<open>
  With JWT authentication configured the plain header is never consulted: two requests that
  agree on the token header get the same answer from both middlewares, whatever else they send,
  and without the token header no request gets in.
\<close>

theorem jwt_mode_ignores_plain_header:
  assumes "paJWT cfg = Some (name, authenticate)" and "header (jwt_header_name name) = header' (jwt_header_name name)"
  shows "RequirePrincipalMiddleware cfg header ctx = RequirePrincipalMiddleware cfg header' ctx \<and>
    OptionalPrincipalMiddleware cfg header ctx = OptionalPrincipalMiddleware cfg header' ctx \<and>
    (header (jwt_header_name name) = [] \<longrightarrow>
       RequirePrincipalMiddleware cfg header ctx = Inl (401, ''missing principal'') \<and>
       OptionalPrincipalMiddleware cfg header ctx = ctx)"
  using assms by (simp add: RequirePrincipalMiddleware_def OptionalPrincipalMiddleware_def Let_def)

definition demo_principal_auth :: principal_auth where
  "demo_principal_auth = \<lparr>paPrincipalHeaderName = ''X-Remote-User'',
     paJWT = Some ([], \<lambda>t. if t = ''good'' then Inr \<lparr>arsPrincipal = ''alice'', arsDisplayName = Some [], arsEmail = None, arsPictureURL = None\<rparr>
                           else Inl ErrInvalidSignature)\<rparr>"

theorem jwt_mode_ignores_plain_header_witness:
  "RequirePrincipalMiddleware demo_principal_auth (\<lambda>h. if h = ''X-Remote-User'' then ''root'' else []) no_context =
     Inl (401, ''missing principal'')"
proof -
  obtain authenticate where "paJWT demo_principal_auth = Some ([], authenticate)"
    by (simp add: demo_principal_auth_def)
  from jwt_mode_ignores_plain_header [OF this, of "\<lambda>h. if h = ''X-Remote-User'' then ''root'' else []"
      "\<lambda>h. if h = ''X-Remote-User'' then ''root'' else []" no_context]
  show ?thesis by (simp add: jwt_header_name_def)
qed

text \<open>
  C32. A request that passes carries a principal of at most 200 bytes and the profile of that same
  principal; the display name is the one the token gives, else the principal, so it is empty only
  when the principal is; a plain header never yields an empty principal.
\<close>

theorem RequirePrincipalMiddleware_profile:
  assumes "RequirePrincipalMiddleware cfg header ctx = Inr ctx'"
  shows "\<exists>profile. ctx' = with_profile profile ctx \<and> length (ppPrincipal profile) \<le> 200 \<and>
    (ppDisplayName profile = [] \<longrightarrow> ppPrincipal profile = []) \<and>
    (paJWT cfg = None \<longrightarrow> ppPrincipal profile = TrimSpace (header (paPrincipalHeaderName cfg)) \<and> ppPrincipal profile \<noteq> [])"
  using assms
  by (auto simp: RequirePrincipalMiddleware_def Let_def maxPrincipalLength_def jwt_profile_def NewProfile_def
      WithDisplayName_def not_less split: option.splits sum.splits prod.splits if_splits)

theorem RequirePrincipalMiddleware_profile_witness:
  "\<exists>profile. rxProfile (with_profile profile no_context) = Some profile \<and> length (ppPrincipal profile) \<le> 200 \<and>
     RequirePrincipalMiddleware demo_principal_auth (\<lambda>_. ''good'') no_context = Inr (with_profile profile no_context)"
proof -
  have "RequirePrincipalMiddleware demo_principal_auth (\<lambda>_. ''good'') no_context =
      Inr (with_profile (NewProfile ''alice'') no_context)"
    by (simp add: RequirePrincipalMiddleware_def demo_principal_auth_def Let_def maxPrincipalLength_def jwt_profile_def
        NewProfile_def WithDisplayName_def)
  from RequirePrincipalMiddleware_profile [OF this] this show ?thesis
    by (auto simp: with_profile_def)
qed

end
