(* ===== verification/Approval_Handlers.thy ===== *)
theory Approval_Handlers
  imports Approval_Service Request_Auth
begin

text \<open>
  \<^verbatim>\<open>internal/adapters/http/handlers/approval\<close>: the HTTP interface of the approval service. A handler
  takes the context the middleware left, the path parameter and the decoded body, and gives the
  reply: a status with its data, or a status with an error code and a message. \<open>parse\<close> is
  \<^verbatim>\<open>uuid.Parse\<close> followed by \<^verbatim>\<open>String\<close>. A decoded body says what the JSON decoder found, including
  that the text was no JSON. The response encoder writes what it is given.
\<close>

section \<open>Replies\<close>

datatype 'd reply = Reply (repStatus: int) 'd | ErrorReply (repStatus: int) string string

definition mapDomainError :: "service_error \<Rightarrow> 'd reply" where
  "mapDomainError err =
     (case err of
        ErrApprovalNotFound \<Rightarrow> ErrorReply 404 ''not_found'' ''approval not found''
      | ErrApprovalForbidden \<Rightarrow> ErrorReply 403 ''forbidden'' ''you do not have access to this approval''
      | ErrApprovalGone \<Rightarrow> ErrorReply 410 ''gone'' ''approval has expired''
      | ErrApprovalNotPending \<Rightarrow> ErrorReply 409 ''conflict'' ''approval has already been resolved''
      | _ \<Rightarrow> ErrorReply 500 ''internal_error'' ''an unexpected error occurred'')"

text \<open>\<^verbatim>\<open>errors.Is(err, ErrApprovalInvalidPattern)\<close>.\<close>

definition is_invalid_pattern :: "service_error \<Rightarrow> bool" where
  "is_invalid_pattern err =
     (case err of ErrPatternNotAllowedForOnce \<Rightarrow> True | ErrPatternMalformed _ \<Rightarrow> True | ErrPatternNotCovering \<Rightarrow> True | _ \<Rightarrow> False)"

abbreviation unauthenticated :: "'d reply" where
  "unauthenticated \<equiv> ErrorReply 401 ''unauthorized'' ''authentication required''"

definition bad_request :: "string \<Rightarrow> 'd reply" where
  "bad_request msg = ErrorReply 400 ''bad_request'' msg"

abbreviation bad_id :: "'d reply" where
  "bad_id \<equiv> bad_request ''approval ID must be a valid UUID''"

fun status_string :: "ApprovalStatus \<Rightarrow> string" where
  "status_string ApprovalStatusPending = ''pending''"
| "status_string ApprovalStatusApproved = ''approved''"
| "status_string ApprovalStatusDenied = ''denied''"
| "status_string (ApprovalStatusOther s) = s"

fun persistence_string :: "ApprovalPersistence \<Rightarrow> string" where
  "persistence_string ApprovalPersistenceOnce = ''once''"
| "persistence_string ApprovalPersistenceSession = ''session''"
| "persistence_string ApprovalPersistencePermanent = ''permanent''"
| "persistence_string (ApprovalPersistenceOther s) = s"

definition persistence_of :: "string \<Rightarrow> ApprovalPersistence" where
  "persistence_of s =
     (if s = ''once'' then ApprovalPersistenceOnce
      else if s = ''session'' then ApprovalPersistenceSession
      else if s = ''permanent'' then ApprovalPersistencePermanent
      else ApprovalPersistenceOther s)"

section \<open>The user's requests\<close>

definition GetHandler ::
  "'st approval_port \<Rightarrow> 'l approval_config \<Rightarrow> (string \<Rightarrow> approval_id option) \<Rightarrow> time \<Rightarrow> request_context \<Rightarrow> string \<Rightarrow>
   'st \<Rightarrow> ApprovalDetail reply" where
  "GetHandler R cfg parse now ctx rawID s =
     (case acting_principal ctx of
        None \<Rightarrow> unauthenticated
      | Some p \<Rightarrow>
          (case parse rawID of
             None \<Rightarrow> bad_id
           | Some approvalID \<Rightarrow>
               (case GetApproval R cfg now approvalID p s of
                  Inl err \<Rightarrow> mapDomainError err
                | Inr result \<Rightarrow> Reply 200 result)))"

datatype raw_params = ParamsAbsent | ParamsNull | ParamsMalformed | ParamsObject params_pattern

text \<open>\<^verbatim>\<open>Inl True\<close> is \<^verbatim>\<open>errNullParamsPattern\<close>.\<close>

definition decodeParamsPattern :: "raw_params \<Rightarrow> bool + params_pattern option" where
  "decodeParamsPattern raw =
     (case raw of
        ParamsAbsent \<Rightarrow> Inr None
      | ParamsNull \<Rightarrow> Inl True
      | ParamsMalformed \<Rightarrow> Inl False
      | ParamsObject m \<Rightarrow> Inr (Some m))"

definition bad_params :: "bool \<Rightarrow> 'd reply" where
  "bad_params is_null =
     (if is_null then ErrorReply 422 ''invalid_pattern'' ''params_pattern must be an object''
      else ErrorReply 400 ''invalid_request'' ''params_pattern must be an object'')"

record approveRequest =
  aqPersistence :: string
  aqHasToolPattern :: bool
  aqParamsPattern :: raw_params

record approveResponseData =
  apID :: approval_id
  apStatus :: string
  apPersistence :: string
  apApprovedAt :: time

definition ApproveHandler ::
  "'st approval_port \<Rightarrow> float_io \<Rightarrow> (string \<Rightarrow> approval_id option) \<Rightarrow> time \<Rightarrow> time \<Rightarrow> time \<Rightarrow> request_context \<Rightarrow> string \<Rightarrow>
   approveRequest option \<Rightarrow> ('st, 'l) approval_world \<Rightarrow> approveResponseData reply \<times> ('st, 'l) approval_world" where
  "ApproveHandler R io parse now rnow xnow ctx rawID body w =
     (case acting_principal ctx of
        None \<Rightarrow> (unauthenticated, w)
      | Some p \<Rightarrow>
        (case parse rawID of
           None \<Rightarrow> (bad_id, w)
         | Some approvalID \<Rightarrow>
           (case body of
              None \<Rightarrow> (bad_request ''request body must be valid JSON'', w)
            | Some req \<Rightarrow>
              let persistence = persistence_of (aqPersistence req)
              in if \<not> ApprovalPersistence_IsValid persistence
                 then (bad_request ''persistence must be one of: once, session, permanent'', w)
                 else if aqHasToolPattern req then (ErrorReply 400 ''invalid_request'' ''tool_pattern is not allowed'', w)
                 else case decodeParamsPattern (aqParamsPattern req) of
                     Inl is_null \<Rightarrow> (bad_params is_null, w)
                   | Inr paramsPattern \<Rightarrow>
                       (case ApproveApproval R io now rnow xnow approvalID p
                               \<lparr>arPersistence = persistence, arParamsPattern = paramsPattern\<rparr> w of
                          (Inl err, w') \<Rightarrow>
                            (if is_invalid_pattern err then ErrorReply 422 ''invalid_pattern'' ''requested approval pattern is invalid''
                             else mapDomainError err, w')
                        | (Inr result, w') \<Rightarrow>
                            (case (taPersistence result, taApprovedAt result) of
                               (Some per, Some at) \<Rightarrow>
                                 (Reply 200 \<lparr>apID = taID result, apStatus = status_string (taStatus result),
                                    apPersistence = persistence_string per, apApprovedAt = at\<rparr>, w')
                             | _ \<Rightarrow> (ErrorReply 500 ''internal_error'' ''approved approval is missing required fields'', w'))))))"

text \<open>The body of a denial may be missing or empty, no JSON, or an object.\<close>

datatype deny_body = DenyEmpty | DenyMalformed | DenyObject "string option"

record denyResponseData =
  dnID :: approval_id
  dnStatus :: string
  dnPersistence :: "string option"
  dnDeniedAt :: time

definition deny_persistence :: "deny_body \<Rightarrow> string + ApprovalPersistence option" where
  "deny_persistence body =
     (case body of
        DenyMalformed \<Rightarrow> Inl ''request body must be valid JSON''
      | DenyEmpty \<Rightarrow> Inr None
      | DenyObject None \<Rightarrow> Inr None
      | DenyObject (Some s) \<Rightarrow>
          if persistence_of s \<noteq> ApprovalPersistencePermanent
          then Inl ''persistence for deny must be permanent if provided''
          else Inr (Some ApprovalPersistencePermanent))"

definition DenyHandler ::
  "'st approval_port \<Rightarrow> (string \<Rightarrow> approval_id option) \<Rightarrow> time \<Rightarrow> time \<Rightarrow> time \<Rightarrow> request_context \<Rightarrow> string \<Rightarrow> deny_body \<Rightarrow>
   ('st, 'l) approval_world \<Rightarrow> denyResponseData reply \<times> ('st, 'l) approval_world" where
  "DenyHandler R parse now rnow xnow ctx rawID body w =
     (case acting_principal ctx of
        None \<Rightarrow> (unauthenticated, w)
      | Some p \<Rightarrow>
        (case parse rawID of
           None \<Rightarrow> (bad_id, w)
         | Some approvalID \<Rightarrow>
           (case deny_persistence body of
              Inl msg \<Rightarrow> (bad_request msg, w)
            | Inr persistence \<Rightarrow>
              (case DenyApproval R now rnow xnow approvalID p persistence w of
                 (Inl err, w') \<Rightarrow> (mapDomainError err, w')
               | (Inr result, w') \<Rightarrow>
                   (case taDeniedAt result of
                      None \<Rightarrow> (ErrorReply 500 ''internal_error'' ''denied approval is missing denied_at'', w')
                    | Some at \<Rightarrow>
                        (Reply 200 \<lparr>dnID = taID result, dnStatus = status_string (taStatus result),
                           dnPersistence = map_option persistence_string (taPersistence result), dnDeniedAt = at\<rparr>, w'))))))"

definition ConsumeHandler ::
  "'st approval_port \<Rightarrow> (string \<Rightarrow> approval_id option) \<Rightarrow> time \<Rightarrow> request_context \<Rightarrow> string \<Rightarrow>
   ('st, 'l) approval_world \<Rightarrow> (approval_id \<times> bool \<times> time option) reply \<times> ('st, 'l) approval_world" where
  "ConsumeHandler R parse now ctx rawID w =
     (case acting_principal ctx of
        None \<Rightarrow> (unauthenticated, w)
      | Some p \<Rightarrow>
        (case parse rawID of
           None \<Rightarrow> (bad_request ''invalid approval ID format'', w)
         | Some approvalID \<Rightarrow>
           (case ConsumeApproval R now approvalID p w of
              (Inl err, w') \<Rightarrow>
                (if err = ErrApprovalNotConsumable
                 then ErrorReply 422 ''not_consumable'' ''only once-persistence approved approvals can be consumed''
                 else mapDomainError err, w')
            | (Inr result, w') \<Rightarrow> (Reply 200 (taID result, taConsumed result, taConsumedAt result), w'))))"

text \<open>\<^verbatim>\<open>RevokeHandler\<close>, \<^verbatim>\<open>PendingHandler\<close> and \<^verbatim>\<open>PermanentHandler\<close> test only that a principal is present.\<close>

definition RevokeHandler ::
  "'st approval_port \<Rightarrow> (string \<Rightarrow> approval_id option) \<Rightarrow> time \<Rightarrow> request_context \<Rightarrow> string \<Rightarrow>
   ('st, 'l) approval_world \<Rightarrow> denyResponseData reply \<times> ('st, 'l) approval_world" where
  "RevokeHandler R parse now ctx rawID w =
     (case rxPrincipal ctx of
        None \<Rightarrow> (ErrorReply 401 ''unauthorized'' ''missing principal'', w)
      | Some p \<Rightarrow>
        (case parse rawID of
           None \<Rightarrow> (bad_request ''invalid approval ID format'', w)
         | Some approvalID \<Rightarrow>
           (case RevokePermanentApproval R now approvalID p w of
              (Inl err, w') \<Rightarrow>
                (if err = ErrApprovalNotRevocable
                 then ErrorReply 422 ''not_revocable'' ''only permanent approvals can be revoked''
                 else mapDomainError err, w')
            | (Inr result, w') \<Rightarrow>
                (Reply 200 \<lparr>dnID = taID result, dnStatus = status_string (taStatus result),
                   dnPersistence = map_option persistence_string (taPersistence result),
                   dnDeniedAt = (case taDeniedAt result of None \<Rightarrow> 0 | Some t \<Rightarrow> t)\<rparr>, w'))))"

definition PendingHandler ::
  "'st approval_port \<Rightarrow> 'l approval_config \<Rightarrow> time \<Rightarrow> request_context \<Rightarrow> 'st \<Rightarrow> ApprovalDetail list reply" where
  "PendingHandler R cfg rnow ctx s =
     (case rxPrincipal ctx of
        None \<Rightarrow> ErrorReply 401 ''unauthorized'' ''missing principal''
      | Some p \<Rightarrow>
          (case ListPendingApprovals R cfg rnow p s of
             Inl _ \<Rightarrow> ErrorReply 500 ''internal_error'' ''failed to list pending approvals''
           | Inr approvals \<Rightarrow> Reply 200 approvals))"

definition PermanentHandler ::
  "'st approval_port \<Rightarrow> 'l approval_config \<Rightarrow> request_context \<Rightarrow> 'st \<Rightarrow> ApprovalDetail list reply" where
  "PermanentHandler R cfg ctx s =
     (case rxPrincipal ctx of
        None \<Rightarrow> ErrorReply 401 ''unauthorized'' ''missing principal''
      | Some p \<Rightarrow>
          (case ListPermanentApprovals R cfg p s of
             Inl _ \<Rightarrow> ErrorReply 500 ''internal_error'' ''failed to list permanent approvals''
           | Inr approvals \<Rightarrow> Reply 200 approvals))"

record scopePreviewRequest =
  spqHasToolPattern :: bool
  spqParamsPattern :: raw_params

text \<open>The persistence of the previewed request is the empty string.\<close>

definition ScopePreviewHandler ::
  "'st approval_port \<Rightarrow> float_io \<Rightarrow> (string \<Rightarrow> approval_id option) \<Rightarrow> request_context \<Rightarrow> string \<Rightarrow> scopePreviewRequest option \<Rightarrow>
   'st \<Rightarrow> ScopePreview reply" where
  "ScopePreviewHandler R io parse ctx rawID body s =
     (case acting_principal ctx of
        None \<Rightarrow> unauthenticated
      | Some p \<Rightarrow>
        (case parse rawID of
           None \<Rightarrow> bad_id
         | Some approvalID \<Rightarrow>
           (case body of
              None \<Rightarrow> bad_request ''request body must be valid JSON''
            | Some req \<Rightarrow>
              if spqHasToolPattern req then ErrorReply 400 ''invalid_request'' ''tool_pattern is not allowed''
              else case decodeParamsPattern (spqParamsPattern req) of
                  Inl is_null \<Rightarrow> bad_params is_null
                | Inr paramsPattern \<Rightarrow>
                    (case PreviewApprovalScope R io approvalID p
                            \<lparr>arPersistence = ApprovalPersistenceOther [], arParamsPattern = paramsPattern\<rparr> s of
                       Inl err \<Rightarrow>
                         (if is_invalid_pattern err then ErrorReply 422 ''invalid_pattern'' ''requested approval pattern is invalid''
                          else mapDomainError err)
                     | Inr preview \<Rightarrow> Reply 200 preview))))"

section \<open>The gateway's requests\<close>

record createMetadata =
  cmMCPSessionID :: "string option"
  cmAgentSessionID :: "string option"
  cmToolInvocationID :: "string option"
  cmDescription :: "string option"

record createRequest =
  cqMetadata :: "createMetadata option"
  cqToolName :: string
  cqArguments :: "arguments option"
  cqRiskLevel :: string

record createResponseData =
  crdID :: approval_id
  crdStatus :: string
  crdApprovalURL :: string
  crdCreatedAt :: time

definition create_reply :: "CreateApprovalResult \<Rightarrow> createResponseData reply" where
  "create_reply result =
     Reply (if carIsNew result then 201 else 200)
       \<lparr>crdID = taID (carApproval result), crdStatus = status_string (taStatus (carApproval result)),
        crdApprovalURL = taApprovalURL (carApproval result), crdCreatedAt = taCreatedAt (carApproval result)\<rparr>"

definition create_refused :: "service_error \<Rightarrow> createResponseData reply" where
  "create_refused err =
     (if err = ErrApprovalRateLimit
      then ErrorReply 429 ''rate_limit_exceeded'' ''rate limit exceeded for this principal/agent pair''
      else if is_invalid_pattern err
      then ErrorReply 422 ''invalid_pattern'' ''requested approval pattern is invalid''
      else ErrorReply 500 ''internal_error'' ''failed to create approval'')"

text \<open>\<open>traceparent\<close> is what \<^verbatim>\<open>traceparentFromRequest\<close> reads from the headers; \<open>newID\<close> the identifier
  the service draws.\<close>

definition CreateHandler ::
  "'st approval_port \<Rightarrow> 'l approval_config \<Rightarrow> time \<Rightarrow> time \<Rightarrow> approval_id \<Rightarrow> request_context \<Rightarrow> string option \<Rightarrow>
   createRequest option \<Rightarrow> ('st, 'l) approval_world \<Rightarrow> createResponseData reply \<times> ('st, 'l) approval_world" where
  "CreateHandler R cfg now rnow newID ctx traceparent body w =
     (let unconfigured = (ErrorReply 503 ''service_unavailable'' ''approval create authentication is not configured'', w)
      in case body of
           None \<Rightarrow> (bad_request ''invalid request body'', w)
         | Some req \<Rightarrow>
             if cqToolName req = [] then (bad_request ''tool_name is required'', w)
             else case cqArguments req of
                 None \<Rightarrow> (bad_request ''arguments is required'', w)
               | Some args \<Rightarrow>
                   (case Option.bind (cqMetadata req) cmDescription of
                      None \<Rightarrow> (bad_request ''metadata.description is required'', w)
                    | Some description \<Rightarrow>
                        (case (acting_principal ctx, rxApprovalAuth ctx) of
                           (Some p, Some auth) \<Rightarrow>
                             if aaAgentID auth = uuid_zero \<or> aaGatewayClientID auth = [] then unconfigured
                             else
                               let metadata = the (cqMetadata req)
                               in (case CreatePendingApproval R cfg now rnow newID
                                       \<lparr>crPrincipal = p, crAgentID = aaAgentID auth, crGatewayClientID = aaGatewayClientID auth,
                                        crToolName = cqToolName req, crArguments = args, crDescription = description,
                                        crRiskLevel = cqRiskLevel req, crMCPSessionID = cmMCPSessionID metadata,
                                        crAgentSessionID = cmAgentSessionID metadata,
                                        crToolInvocationID = cmToolInvocationID metadata, crTraceparent = traceparent\<rparr> w of
                                     (Inl err, w') \<Rightarrow> (create_refused err, w')
                                   | (Inr result, w') \<Rightarrow> (create_reply result, w'))
                         | _ \<Rightarrow> unconfigured)))"

section \<open>Sync\<close>

definition defaultLongPollTimeout :: duration where "defaultLongPollTimeout = 30000000000"

definition maxLongPollTimeout :: duration where "maxLongPollTimeout = 120000000000"

record toolApprovalSummary =
  tsID :: string
  tsToolName :: string
  tsArgumentsHash :: string
  tsToolPattern :: string
  tsParamsPattern :: params_pattern
  tsStatus :: string
  tsPersistence :: "string option"
  tsConsumed :: bool
  tsAgentSessionID :: "string option"
  tsApprovedAt :: "time option"

definition toSummary :: "ToolApproval \<Rightarrow> toolApprovalSummary" where
  "toSummary a =
     \<lparr>tsID = taID a, tsToolName = taToolName a, tsArgumentsHash = taArgumentsHash a, tsToolPattern = taToolPattern a,
      tsParamsPattern = (case taParamsPattern a of None \<Rightarrow> [] | Some m \<Rightarrow> m),
      tsStatus = status_string (taStatus a), tsPersistence = map_option persistence_string (taPersistence a),
      tsConsumed = taConsumed a, tsAgentSessionID = taAgentSessionID a,
      tsApprovedAt = (if taStatus a = ApprovalStatusApproved then taApprovedAt a else None)\<rparr>"

record syncResponsePair =
  syPrincipal :: string
  syAgentID :: string
  syApprovals :: "toolApprovalSummary list"

definition sync_pairs :: "SyncState \<Rightarrow> syncResponsePair list" where
  "sync_pairs st =
     map (\<lambda>p. \<lparr>syPrincipal = spPrincipal p, syAgentID = spAgentID p, syApprovals = map toSummary (spApprovals p)\<rparr>) (ssPairs st)"

text \<open>The entity tag of a version, and what \<^verbatim>\<open>If-None-Match\<close> says.\<close>

definition sync_etag :: "int \<Rightarrow> string" where
  "sync_etag version = [dquote] @ ''v'' @ FormatInt version @ [dquote]"

definition client_version :: "string \<Rightarrow> int option" where
  "client_version etag =
     (if etag = [] then None
      else
        let etag1 = (if 2 \<le> length etag \<and> hd etag = dquote \<and> last etag = dquote
                     then take (length etag - 2) (drop 1 etag) else etag);
            etag2 = (if 1 < length etag1 \<and> hd etag1 = CHR ''v'' then drop 1 etag1 else etag1)
        in ParseInt64 etag2)"

text \<open>The product of the seconds and \<^verbatim>\<open>time.Second\<close> is an int64.\<close>

definition long_poll_timeout :: "string \<Rightarrow> duration" where
  "long_poll_timeout timeoutStr =
     (if timeoutStr = [] then defaultLongPollTimeout
      else case ParseInt64 timeoutStr of
          None \<Rightarrow> defaultLongPollTimeout
        | Some secs \<Rightarrow>
            if secs \<le> 0 then defaultLongPollTimeout
            else let timeout = wrap_int64 (secs * 1000000000)
                 in if maxLongPollTimeout < timeout then maxLongPollTimeout else timeout)"

record sync_request =
  sqPrincipal :: string
  sqAgentSessionIDs :: "string list"
  sqIfNoneMatch :: string
  sqLongPollTimeout :: string

datatype sync_reply =
    SyncFull string "syncResponsePair list"
  | SyncNotModified
  | SyncFailed
  | SyncNoAnswer

text \<open>The first part of the handler, up to the wait: an answer, a wait on a channel for at most a
  time, or straight to the read. The channel is the subscription the handler holds, if any.\<close>

datatype sync_phase =
    SyncAnswer sync_reply
  | SyncWait chan duration
  | SyncRead "chan option"

text \<open>The subscription and the look at the version are one step here; the source subscribes first, so
  that a change in between is signalled.\<close>

definition SyncHandler_start ::
  "'st approval_port \<Rightarrow> sync_request \<Rightarrow> ('st, 'l) approval_world \<Rightarrow> sync_phase \<times> ('st, 'l) approval_world" where
  "SyncHandler_start R req w =
     (case client_version (sqIfNoneMatch req) of
        None \<Rightarrow> (SyncRead None, w)
      | Some clientVersion \<Rightarrow>
          (case awBroadcaster w of
             Some bc \<Rightarrow>
               (case Subscribe bc of
                  (ch, bc') \<Rightarrow>
                    (case port_GetVersion R (awRepo w) of
                       Inl _ \<Rightarrow> (SyncAnswer SyncFailed, w\<lparr>awBroadcaster := Some (Unsubscribe ch bc')\<rparr>)
                     | Inr currentVersion \<Rightarrow>
                         (if currentVersion = clientVersion
                          then SyncWait ch (long_poll_timeout (sqLongPollTimeout req))
                          else SyncRead (Some ch), w\<lparr>awBroadcaster := Some bc'\<rparr>)))
           | None \<Rightarrow>
               (case port_GetVersion R (awRepo w) of
                  Inl _ \<Rightarrow> (SyncAnswer SyncFailed, w)
                | Inr currentVersion \<Rightarrow>
                    (if currentVersion = clientVersion then SyncAnswer SyncNotModified else SyncRead None, w))))"

definition release_subscription :: "chan option \<Rightarrow> ('st, 'l) approval_world \<Rightarrow> ('st, 'l) approval_world" where
  "release_subscription ch w =
     (case ch of None \<Rightarrow> w | Some c \<Rightarrow> w\<lparr>awBroadcaster := map_option (Unsubscribe c) (awBroadcaster w)\<rparr>)"

text \<open>The three ways out of the wait: a signal takes the token from the channel and leads to the
  read; the timer answers 304; a caller that is gone gets no answer.\<close>

datatype wait_event = Signal | Timer | CallerGone

definition SyncHandler_wake ::
  "wait_event \<Rightarrow> chan \<Rightarrow> ('st, 'l) approval_world \<Rightarrow> sync_phase \<times> ('st, 'l) approval_world" where
  "SyncHandler_wake ev ch w =
     (case ev of
        Signal \<Rightarrow> (SyncRead (Some ch), w\<lparr>awBroadcaster := map_option (receive ch) (awBroadcaster w)\<rparr>)
      | Timer \<Rightarrow> (SyncAnswer SyncNotModified, release_subscription (Some ch) w)
      | CallerGone \<Rightarrow> (SyncAnswer SyncNoAnswer, release_subscription (Some ch) w))"

definition SyncHandler_read ::
  "'st approval_port \<Rightarrow> time \<Rightarrow> sync_request \<Rightarrow> chan option \<Rightarrow> ('st, 'l) approval_world \<Rightarrow> sync_reply \<times> ('st, 'l) approval_world" where
  "SyncHandler_read R rnow req ch w =
     (case GetSyncState R rnow (if sqPrincipal req \<noteq> [] then Some (sqPrincipal req) else None) (sqAgentSessionIDs req) (awRepo w) of
        Inl _ \<Rightarrow> (SyncFailed, release_subscription ch w)
      | Inr st \<Rightarrow> (SyncFull (sync_etag (ssVersion st)) (sync_pairs st), release_subscription ch w))"

text \<open>A request that does not have to wait.\<close>

definition SyncHandler_ServeHTTP ::
  "'st approval_port \<Rightarrow> time \<Rightarrow> sync_request \<Rightarrow> ('st, 'l) approval_world \<Rightarrow> (sync_reply option) \<times> ('st, 'l) approval_world" where
  "SyncHandler_ServeHTTP R rnow req w =
     (case SyncHandler_start R req w of
        (SyncAnswer a, w') \<Rightarrow> (Some a, w')
      | (SyncRead ch, w') \<Rightarrow> (case SyncHandler_read R rnow req ch w' of (a, w'') \<Rightarrow> (Some a, w''))
      | (SyncWait ch timeout, w') \<Rightarrow> (None, w'))"

section \<open>Facts\<close>

lemma FormatInt_nonempty: "FormatInt v \<noteq> []"
  by (simp add: FormatInt_def FormatUint_nonempty)

lemma client_version_etag:
  assumes "min_int64 \<le> v" and "v \<le> max_int64"
  shows "client_version (sync_etag v) = Some v"
  using ParseInt64_FormatInt [OF assms] FormatInt_nonempty
  by (simp add: client_version_def sync_etag_def Let_def)

lemma long_poll_bound: "long_poll_timeout t \<le> maxLongPollTimeout"
  by (auto simp: long_poll_timeout_def Let_def defaultLongPollTimeout_def maxLongPollTimeout_def split: option.splits)

end
