(* ===== verification/Precedence.thy ===== *)
theory Precedence
  imports Tool_Pattern "HOL-Library.Multiset"
begin

text \<open>
  \<^verbatim>\<open>internal/extproc/approval/precedence.go\<close>: which of several matching approvals decides a
  call. \<^verbatim>\<open>compareRank\<close> is a total order on ranks, so the type of ranks is an instance of
  \<open>linorder\<close>; \<^verbatim>\<open>selectBest\<close> returns an index, with \<open>None\<close> for \<open>-1\<close>.
\<close>

section \<open>Ranks\<close>

datatype candidateRank =
  CandidateRank (exactTool: bool) (constrainedParams: nat) (rankWildcards: nat)

fun countWildcards :: "string \<Rightarrow> nat" where
  "countWildcards [] = 0"
| "countWildcards [c] = (if c = CHR ''*'' then 1 else 0)"
| "countWildcards (c # d # s) =
     (if c = backslash then countWildcards s
      else (if c = CHR ''*'' then 1 else 0) + countWildcards (d # s))"

definition add_param :: "string \<Rightarrow> candidateRank \<Rightarrow> candidateRank" where
  "add_param pattern rank =
     CandidateRank (exactTool rank)
       (if pattern \<noteq> ''*'' then constrainedParams rank + 1 else constrainedParams rank)
       (rankWildcards rank + countWildcards pattern)"

definition specificity :: "string \<Rightarrow> params_pattern \<Rightarrow> candidateRank" where
  "specificity toolPattern paramsPattern =
     fold (\<lambda>(_, pattern). add_param pattern) paramsPattern
       (CandidateRank (countWildcards toolPattern = 0) 0 (countWildcards toolPattern))"

definition compareRank :: "candidateRank \<Rightarrow> candidateRank \<Rightarrow> int" where
  "compareRank a b =
     (if exactTool a \<noteq> exactTool b then (if exactTool a then 1 else -1)
      else if constrainedParams a \<noteq> constrainedParams b then
        (if constrainedParams a > constrainedParams b then 1 else -1)
      else if rankWildcards a \<noteq> rankWildcards b then
        (if rankWildcards a < rankWildcards b then 1 else -1)
      else 0)"

lemma compareRank_le:
  "compareRank a b \<le> 0 \<longleftrightarrow>
     (exactTool a \<longrightarrow> exactTool b) \<and> (exactTool a = exactTool b \<longrightarrow>
        constrainedParams a \<le> constrainedParams b \<and>
        (constrainedParams a = constrainedParams b \<longrightarrow> rankWildcards b \<le> rankWildcards a))"
  by (simp add: compareRank_def)

instantiation candidateRank :: linorder
begin

definition less_eq_candidateRank :: "candidateRank \<Rightarrow> candidateRank \<Rightarrow> bool" where
  "less_eq_candidateRank a b \<longleftrightarrow> compareRank a b \<le> 0"

definition less_candidateRank :: "candidateRank \<Rightarrow> candidateRank \<Rightarrow> bool" where
  "less_candidateRank a b \<longleftrightarrow> compareRank a b < 0"

instance
proof
  fix x y z :: candidateRank
  show "x < y \<longleftrightarrow> x \<le> y \<and> \<not> y \<le> x"
    by (auto simp: less_eq_candidateRank_def less_candidateRank_def compareRank_def)
  show "x \<le> x"
    by (simp add: less_eq_candidateRank_def compareRank_def)
  show "x \<le> y \<Longrightarrow> y \<le> z \<Longrightarrow> x \<le> z"
    unfolding less_eq_candidateRank_def compareRank_le by (cases x; cases y; cases z) auto
  show "x \<le> y \<Longrightarrow> y \<le> x \<Longrightarrow> x = y"
    unfolding less_eq_candidateRank_def compareRank_le by (cases x; cases y) auto
  show "x \<le> y \<or> y \<le> x"
    unfolding less_eq_candidateRank_def compareRank_le by (cases x; cases y) auto
qed

end

lemma compareRank_pos: "0 < compareRank a b \<longleftrightarrow> b < a"
  by (auto simp: less_candidateRank_def compareRank_def)

lemma compareRank_zero: "compareRank a b = 0 \<longleftrightarrow> a = b"
  by (auto simp: compareRank_def intro: candidateRank.expand)

section \<open>Selection\<close>

record candidate =
  cnId :: string
  cnToolPattern :: string
  cnParamsPattern :: params_pattern
  cnDecidedAt :: time

definition cnRank :: "candidate \<Rightarrow> candidateRank" where
  "cnRank c = specificity (cnToolPattern c) (cnParamsPattern c)"

text \<open>The condition under which a matching candidate replaces the best one so far.\<close>

definition beats :: "candidate \<Rightarrow> candidate \<Rightarrow> bool" where
  "beats c best =
     (let comparison = compareRank (cnRank c) (cnRank best)
      in 0 < comparison \<or>
         (comparison = 0 \<and>
            (time_after (cnDecidedAt c) (cnDecidedAt best) \<or>
             (cnDecidedAt c = cnDecidedAt best \<and> cnId c < cnId best))))"

definition cnMatches :: "float_io \<Rightarrow> string \<Rightarrow> arguments \<Rightarrow> candidate \<Rightarrow> bool" where
  "cnMatches io toolName args c = Matches io (cnToolPattern c) (cnParamsPattern c) toolName args"

definition select_step ::
  "float_io \<Rightarrow> candidate list \<Rightarrow> string \<Rightarrow> arguments \<Rightarrow> nat \<Rightarrow> nat option \<Rightarrow> nat option" where
  "select_step io candidates toolName args i best =
     (if \<not> cnMatches io toolName args (candidates ! i) then best
      else case best of
          None \<Rightarrow> Some i
        | Some b \<Rightarrow> if beats (candidates ! i) (candidates ! b) then Some i else best)"

definition selectBest :: "float_io \<Rightarrow> candidate list \<Rightarrow> string \<Rightarrow> arguments \<Rightarrow> nat option" where
  "selectBest io candidates toolName args =
     fold (select_step io candidates toolName args) [0..<length candidates] None"

section \<open>Facts\<close>

lemma beats_iff:
  "beats c b \<longleftrightarrow> cnRank b < cnRank c \<or>
     cnRank c = cnRank b \<and> (cnDecidedAt b < cnDecidedAt c \<or> cnDecidedAt c = cnDecidedAt b \<and> cnId c < cnId b)"
  by (simp add: beats_def Let_def compareRank_pos compareRank_zero time_after_def)

lemma beats_irrefl: "\<not> beats c c"
  by (simp add: beats_iff)

lemma beats_trans: "beats a b \<Longrightarrow> beats b c \<Longrightarrow> beats a c"
  by (auto simp: beats_iff)

lemma beats_total: "cnId a \<noteq> cnId b \<Longrightarrow> beats a b \<or> beats b a"
  by (auto simp: beats_iff not_less_iff_gr_or_eq)

lemma select_prefix:
  assumes "n \<le> length cs"
  shows "case fold (select_step io cs t args) [0..<n] None of
      None \<Rightarrow> \<forall>j < n. \<not> cnMatches io t args (cs ! j)
    | Some i \<Rightarrow> i < n \<and> cnMatches io t args (cs ! i) \<and>
        (\<forall>j < n. cnMatches io t args (cs ! j) \<longrightarrow> \<not> beats (cs ! j) (cs ! i))"
  using assms
proof (induction n)
  case (Suc n)
  then have IH: "case fold (select_step io cs t args) [0..<n] None of
      None \<Rightarrow> \<forall>j < n. \<not> cnMatches io t args (cs ! j)
    | Some i \<Rightarrow> i < n \<and> cnMatches io t args (cs ! i) \<and>
        (\<forall>j < n. cnMatches io t args (cs ! j) \<longrightarrow> \<not> beats (cs ! j) (cs ! i))"
    by simp
  have step: "fold (select_step io cs t args) [0..<Suc n] None =
      select_step io cs t args n (fold (select_step io cs t args) [0..<n] None)"
    by simp
  show ?case
  proof (cases "fold (select_step io cs t args) [0..<n] None")
    case None
    with IH have "\<forall>j < n. \<not> cnMatches io t args (cs ! j)" by simp
    then show ?thesis
      unfolding step None by (auto simp: select_step_def less_Suc_eq beats_irrefl)
  next
    case (Some i)
    with IH have "i < n" "cnMatches io t args (cs ! i)"
      "\<forall>j < n. cnMatches io t args (cs ! j) \<longrightarrow> \<not> beats (cs ! j) (cs ! i)" by simp_all
    then show ?thesis
      unfolding step Some by (auto simp: select_step_def less_Suc_eq beats_irrefl dest: beats_trans)
  qed
qed simp

lemma selectBest_spec:
  "case selectBest io cs t args of
      None \<Rightarrow> \<forall>c \<in> set cs. \<not> cnMatches io t args c
    | Some i \<Rightarrow> i < length cs \<and> cnMatches io t args (cs ! i) \<and>
        (\<forall>c \<in> set cs. cnMatches io t args c \<longrightarrow> \<not> beats c (cs ! i))"
  using select_prefix [of "length cs" cs io t args]
  by (auto simp: selectBest_def in_set_conv_nth split: option.splits)

lemma selectBest_Some:
  "selectBest io cs t args = Some i \<Longrightarrow> i < length cs \<and> cnMatches io t args (cs ! i)"
  using selectBest_spec [of cs io t args] by simp

lemma countWildcards_Cons:
  "c \<noteq> backslash \<Longrightarrow> countWildcards (c # s) = (if c = CHR ''*'' then 1 else 0) + countWildcards s"
  by (cases s) auto

lemma countWildcards_escaped: "countWildcards (EscapeLiteral s) = 0"
  by (induction s) (auto simp: countWildcards_Cons)

lemma EscapeLiteral_not_star: "EscapeLiteral s \<noteq> ''*''"
  by (cases s) auto

lemma specificity_closed:
  "specificity tp pp = CandidateRank (countWildcards tp = 0)
     (length (filter (\<lambda>(_, p). p \<noteq> ''*'') pp)) (countWildcards tp + (\<Sum>(_, p) \<leftarrow> pp. countWildcards p))"
proof -
  have "fold (\<lambda>(_, p). add_param p) pp (CandidateRank e c w) =
      CandidateRank e (c + length (filter (\<lambda>(_, p). p \<noteq> ''*'') pp)) (w + (\<Sum>(_, p) \<leftarrow> pp. countWildcards p))" for e c w
    by (induction pp arbitrary: c w) (auto simp: add_param_def)
  then show ?thesis by (simp add: specificity_def)
qed

section \<open>Properties\<close>

text \<open>
  C29. The selected approval is a best one: it matches the call, no matching candidate is more
  specific, or equally specific and decided later, and none is selected only when none matches.
  With distinct ids the choice does not depend on the order of the candidates, so on the
  order in which the broker lists its approvals.
\<close>

theorem selectBest_best:
  assumes "mset cs = mset cs'" and "distinct (map cnId cs)"
  shows "(case selectBest io cs t args of
      None \<Rightarrow> \<forall>c \<in> set cs. \<not> cnMatches io t args c
    | Some i \<Rightarrow> i < length cs \<and> cnMatches io t args (cs ! i) \<and>
        (\<forall>c \<in> set cs. cnMatches io t args c \<longrightarrow> c = cs ! i \<or> beats (cs ! i) c)) \<and>
    map_option (\<lambda>i. cs ! i) (selectBest io cs t args) = map_option (\<lambda>i. cs' ! i) (selectBest io cs' t args)"
proof -
  have set: "set cs = set cs'" using assms(1) by (metis set_mset_mset)
  have uniq: "c = d \<or> beats c d \<or> beats d c" if "c \<in> set cs" "d \<in> set cs" for c d
    using assms(2) that beats_total by (metis distinct_map inj_onD)
  show ?thesis
  proof (cases "selectBest io cs t args")
    case None
    with selectBest_spec [of cs io t args] selectBest_spec [of cs' io t args] set show ?thesis
      by (auto split: option.splits)
  next
    case (Some i)
    with selectBest_spec [of cs io t args] have i: "i < length cs" "cnMatches io t args (cs ! i)"
      "\<forall>c \<in> set cs. cnMatches io t args c \<longrightarrow> \<not> beats c (cs ! i)" by simp_all
    from i(1) have "cs ! i \<in> set cs" by simp
    with i(2) set selectBest_spec [of cs' io t args] obtain j where
      j: "selectBest io cs' t args = Some j" "j < length cs'" "cnMatches io t args (cs' ! j)"
      "\<not> beats (cs ! i) (cs' ! j)"
      by (cases "selectBest io cs' t args") auto
    with set have "cs' ! j \<in> set cs" by simp
    with i(3) j(3,4) uniq \<open>cs ! i \<in> set cs\<close> have "cs ! i = cs' ! j" by blast
    with Some i j uniq \<open>cs ! i \<in> set cs\<close> show ?thesis by auto
  qed
qed

definition sample_candidates :: "candidate list" where
  "sample_candidates =
     [\<lparr>cnId = ''a'', cnToolPattern = ''p*'', cnParamsPattern = [], cnDecidedAt = 9\<rparr>,
      \<lparr>cnId = ''b'', cnToolPattern = ''pay'', cnParamsPattern = [(''to'', ''*'')], cnDecidedAt = 1\<rparr>,
      \<lparr>cnId = ''c'', cnToolPattern = ''pay'', cnParamsPattern = [(''to'', ''bob'')], cnDecidedAt = 1\<rparr>]"

theorem selectBest_best_witness:
  "map_option (\<lambda>i. sample_candidates ! i) (selectBest \<lparr>FormatFloat = (\<lambda>_. ''0''), WidenFloat32 = ucast,
      NumberFloat64 = (\<lambda>_. None)\<rparr> sample_candidates ''pay'' [(''to'', GString ''bob'')]) =
   map_option (\<lambda>i. rev sample_candidates ! i) (selectBest \<lparr>FormatFloat = (\<lambda>_. ''0''), WidenFloat32 = ucast,
      NumberFloat64 = (\<lambda>_. None)\<rparr> (rev sample_candidates) ''pay'' [(''to'', GString ''bob'')])"
  using selectBest_best [of sample_candidates "rev sample_candidates"]
  by (simp add: sample_candidates_def)

text \<open>
  A pattern an approval stores for its reviewed call ranks as specific as can be: the
  escaped tool name and exact arguments count no wildcard, every argument counts as constrained,
  and no pattern for the same number of arguments ranks higher.
\<close>

theorem exact_pattern_rank:
  "specificity (EscapeLiteral tool) (ExactParams io args) = CandidateRank True (length args) 0 \<and>
   (length pp = length args \<longrightarrow> specificity tp pp \<le> specificity (EscapeLiteral tool) (ExactParams io args))"
proof -
  have "map_option snd (find (\<lambda>(_, p). p = ''*'') (ExactParams io args)) = None"
    by (auto simp: find_None_iff set_ExactParams EscapeLiteral_not_star)
  then have n: "filter (\<lambda>(_, p). p \<noteq> ''*'') (ExactParams io args) = ExactParams io args"
    by (auto simp: filter_id_conv find_None_iff)
  have "(\<Sum>(_, p) \<leftarrow> ExactParams io args. countWildcards p) = 0"
    by (auto simp: ExactParams_def countWildcards_escaped sum_list_eq_0_iff)
  with n have e: "specificity (EscapeLiteral tool) (ExactParams io args) = CandidateRank True (length args) 0"
    by (simp add: specificity_closed countWildcards_escaped ExactParams_def)
  have "length (filter (\<lambda>(_, p). p \<noteq> ''*'') pp) \<le> length pp" by (rule length_filter_le)
  then have "specificity tp pp \<le> CandidateRank True (length args) 0" if "length pp = length args"
    using that unfolding specificity_closed less_eq_candidateRank_def compareRank_def by auto
  with e show ?thesis by simp
qed

theorem exact_pattern_rank_witness:
  "specificity ''p*'' [(''to'', ''b*'')] \<le>
     specificity (EscapeLiteral ''pay'') (ExactParams \<lparr>FormatFloat = (\<lambda>_. ''0''), WidenFloat32 = ucast,
       NumberFloat64 = (\<lambda>_. None)\<rparr> [(''to'', GString ''bob'')])"
  using exact_pattern_rank [of "''pay''" "\<lparr>FormatFloat = (\<lambda>_. ''0''), WidenFloat32 = ucast,
       NumberFloat64 = (\<lambda>_. None)\<rparr>" "[(''to'', GString ''bob'')]" "[(''to'', ''b*'')]" "''p*''"] by auto

end
