(* ===== verification/Approval_Cache.thy ===== *)
theory Approval_Cache
  imports Precedence
begin

text \<open>
  \<^verbatim>\<open>internal/extproc/approval/cache.go\<close>: the gateway's copy of the broker's approvals, one
  entry per principal and agent. Every method holds the cache's lock, so it is one function on
  the cache; the clock reading it takes is its first argument. A record is the JSON object of a
  sync response plus the local reservation flag; \<^verbatim>\<open>cloneRecord\<close> and \<^verbatim>\<open>cloneStringMap\<close>
  copy values and are the identity here.
\<close>

section \<open>Data\<close>

record Identity =
  idPrincipal :: string
  idAgentID :: string

definition Valid :: "Identity \<Rightarrow> bool" where
  "Valid i \<longleftrightarrow> idPrincipal i \<noteq> [] \<and> idAgentID i \<noteq> []"

record Record =
  rcID :: string
  rcToolName :: string
  rcToolPattern :: string
  rcParamsPattern :: params_pattern
  rcStatus :: string
  rcPersistence :: "string option"
  rcConsumed :: bool
  rcAgentSessionID :: "string option"
  rcApprovedAt :: "time option"
  rcReserved :: bool

type_synonym pairKey = "string \<times> string"

record pairEntry =
  peRecords :: "Record list"
  peLastSeen :: time
  peSyncedAt :: time

record Cache =
  caPairs :: "(pairKey, pairEntry) gomap"
  caSessions :: "(string, time) gomap"
  caETag :: string
  caVersion :: int
  caLastSync :: time
  caCreatedAt :: time
  caIdleTTL :: duration
  caMaxStaleness :: duration

record Pair =
  paIdentity :: Identity
  paApprovals :: "Record list"

definition key_of :: "Identity \<Rightarrow> pairKey" where
  "key_of i = (idPrincipal i, idAgentID i)"

definition NewCache :: "time \<Rightarrow> duration \<Rightarrow> duration \<Rightarrow> Cache" where
  "NewCache now idleTTL maxStaleness =
     \<lparr>caPairs = [], caSessions = [], caETag = [], caVersion = 0, caLastSync = 0, caCreatedAt = now,
      caIdleTTL = idleTTL, caMaxStaleness = maxStaleness\<rparr>"

section \<open>Freshness, sessions, eviction\<close>

definition freshLocked :: "Cache \<Rightarrow> pairEntry \<Rightarrow> time \<Rightarrow> bool" where
  "freshLocked c entry now =
     (let freshest = (if time_after (peSyncedAt entry) (caLastSync c) then peSyncedAt entry else caLastSync c)
      in \<not> time_is_zero freshest \<and> time_sub now freshest \<le> caMaxStaleness c)"

definition filterSessionRecords :: "Record list \<Rightarrow> string \<Rightarrow> Record list" where
  "filterSessionRecords records sessionID =
     filter (\<lambda>r. \<not> (rcPersistence r = Some ''session'' \<and> rcAgentSessionID r = Some sessionID)) records"

text \<open>One pass of the loop over the sessions.\<close>

definition evict_session :: "time \<Rightarrow> string \<times> time \<Rightarrow> Cache \<Rightarrow> Cache" where
  "evict_session now = (\<lambda>(sessionID, lastSeen) c.
     if time_sub now lastSeen \<le> caIdleTTL c then c
     else c\<lparr>caSessions := AList.delete sessionID (caSessions c),
            caPairs := map (\<lambda>(k, entry).
              (k, entry\<lparr>peRecords := filterSessionRecords (peRecords entry) sessionID\<rparr>)) (caPairs c)\<rparr>)"

definition evictIdleLocked :: "time \<Rightarrow> Cache \<Rightarrow> Cache" where
  "evictIdleLocked now c =
     (let c' = fold (evict_session now) (caSessions c) c
      in c'\<lparr>caPairs := filter (\<lambda>(_, entry). \<not> (caIdleTTL c' < time_sub now (peLastSeen entry))) (caPairs c')\<rparr>)"

definition EvictIdle :: "time \<Rightarrow> Cache \<Rightarrow> Cache" where
  "EvictIdle now c = evictIdleLocked now c"

definition RecordSession :: "time \<Rightarrow> string \<Rightarrow> Cache \<Rightarrow> Cache" where
  "RecordSession now sessionID c =
     (if sessionID = [] then c
      else let c' = evictIdleLocked now c in c'\<lparr>caSessions := AList.update sessionID now (caSessions c')\<rparr>)"

definition ActiveSessions :: "Cache \<Rightarrow> string list" where
  "ActiveSessions c = sort (map fst (caSessions c))"

section \<open>Versions and snapshots\<close>

definition parseSyncVersion :: "string \<Rightarrow> int option" where
  "parseSyncVersion etag0 =
     (let etag1 = TrimSpace etag0;
          etag2 = (if HasPrefix etag1 ''W/'' then TrimSpace (TrimPrefix etag1 ''W/'') else etag1);
          etag3 = TrimByte CHR 0x22 (TrimSpace etag2);
          etag4 = TrimPrefix etag3 ''v''
      in ParseInt64 etag4)"

definition MarkSynced :: "time \<Rightarrow> Cache \<Rightarrow> Cache" where
  "MarkSynced now c =
     (case parseSyncVersion (caETag c) of
        Some version \<Rightarrow> if version < caVersion c then c else c\<lparr>caLastSync := now\<rparr>
      | None \<Rightarrow> c\<lparr>caLastSync := now\<rparr>)"

text \<open>\<^verbatim>\<open>int64(d / time.Second)\<close> truncates towards zero.\<close>

definition SyncAgeSeconds :: "time \<Rightarrow> Cache \<Rightarrow> int" where
  "SyncAgeSeconds now c =
     (let lastSync = (if time_is_zero (caLastSync c) then caCreatedAt c else caLastSync c);
          d = time_sub now lastSync
      in if 0 \<le> d then d div 1000000000 else - ((- d) div 1000000000))"

definition acceptVersionLocked :: "string \<Rightarrow> Cache \<Rightarrow> bool \<times> Cache" where
  "acceptVersionLocked etag c =
     (case parseSyncVersion etag of
        Some version \<Rightarrow> if version < caVersion c then (False, c) else (True, c\<lparr>caVersion := version\<rparr>)
      | None \<Rightarrow> (True, c))"

text \<open>The inner loop of \<^verbatim>\<open>snapshotRecords\<close>: the first previous record of the same id passes
  on that it was consumed or is reserved.\<close>

definition carry_over :: "Record list \<Rightarrow> Record \<Rightarrow> Record" where
  "carry_over previous r =
     (if rcID r = [] then r
      else case find (\<lambda>old. rcID old = rcID r) previous of
          None \<Rightarrow> r
        | Some old \<Rightarrow>
            let consumed = (rcConsumed r \<or> rcConsumed old)
            in r\<lparr>rcConsumed := consumed, rcReserved := (\<not> consumed \<and> rcReserved old)\<rparr>)"

definition snapshotRecords :: "Record list \<Rightarrow> Record list \<Rightarrow> Record list" where
  "snapshotRecords records previous = map (carry_over previous) records"

definition snapshotEntry :: "Record list \<Rightarrow> pairEntry option \<Rightarrow> time \<Rightarrow> pairEntry" where
  "snapshotEntry records current now =
     (let lastSeen = (case current of None \<Rightarrow> now | Some e \<Rightarrow> peLastSeen e);
          previous = (case current of None \<Rightarrow> [] | Some e \<Rightarrow> peRecords e)
      in \<lparr>peRecords = snapshotRecords records previous,
          peLastSeen = (if time_is_zero lastSeen then now else lastSeen), peSyncedAt = now\<rparr>)"

text \<open>The loop that builds the replacement map; \<open>ok\<close> is the loop's filter on the pair.\<close>

definition build_replacement ::
  "(Identity \<Rightarrow> bool) \<Rightarrow> time \<Rightarrow> (pairKey, pairEntry) gomap \<Rightarrow> Pair list \<Rightarrow> (pairKey, pairEntry) gomap" where
  "build_replacement ok now old pairs =
     fold (\<lambda>pair m.
        if \<not> ok (paIdentity pair) then m
        else let key = key_of (paIdentity pair)
             in AList.update key (snapshotEntry (paApprovals pair) (map_of old key) now) m) pairs []"

definition Replace :: "time \<Rightarrow> Pair list \<Rightarrow> string \<Rightarrow> Cache \<Rightarrow> Cache" where
  "Replace now pairs etag c =
     (case acceptVersionLocked etag c of
        (False, c') \<Rightarrow> c'
      | (True, c') \<Rightarrow>
          c'\<lparr>caPairs := build_replacement Valid now (caPairs c') pairs, caETag := etag, caLastSync := now\<rparr>)"

definition ReplaceForPrincipal :: "time \<Rightarrow> string \<Rightarrow> Pair list \<Rightarrow> string \<Rightarrow> Cache \<Rightarrow> bool \<times> Cache" where
  "ReplaceForPrincipal now p pairs etag c =
     (if p = [] then (True, c)
      else case acceptVersionLocked etag c of
          (False, c') \<Rightarrow> (False, c')
        | (True, c') \<Rightarrow>
            let replacement = build_replacement (\<lambda>i. Valid i \<and> idPrincipal i = p) now (caPairs c') pairs;
                kept = filter (\<lambda>(key, _). fst key \<noteq> p) (caPairs c')
            in (True, c'\<lparr>caPairs := fold (\<lambda>(key, entry) m. AList.update key entry m) replacement kept\<rparr>))"

section \<open>Matching\<close>

definition matchable :: "string \<Rightarrow> Record \<Rightarrow> bool" where
  "matchable sessionID r =
     (if rcID r = [] \<or> rcToolPattern r = [] \<or> rcStatus r \<noteq> ''approved'' \<or> rcConsumed r \<or> rcReserved r \<or>
         rcApprovedAt r = None \<or> rcPersistence r = None then False
      else case rcPersistence r of
          None \<Rightarrow> False
        | Some p \<Rightarrow>
            if p = ''permanent'' \<or> p = ''once'' then True
            else if p = ''session'' then rcAgentSessionID r = Some sessionID
            else False)"

definition permanently_denies :: "string \<Rightarrow> Record \<Rightarrow> bool" where
  "permanently_denies tool r \<longleftrightarrow>
     rcID r \<noteq> [] \<and> rcStatus r = ''denied'' \<and> rcPersistence r = Some ''permanent'' \<and> rcToolName r = tool"

definition candidate_of :: "Record \<Rightarrow> candidate" where
  "candidate_of r = \<lparr>cnId = rcID r, cnToolPattern = rcToolPattern r, cnParamsPattern = rcParamsPattern r,
     cnDecidedAt = (case rcApprovedAt r of None \<Rightarrow> 0 | Some t \<Rightarrow> t)\<rparr>"

text \<open>The two loops over the records of an entry: the record that decides and the records as
  the match leaves them.\<close>

definition match_records ::
  "float_io \<Rightarrow> string \<Rightarrow> string \<Rightarrow> arguments \<Rightarrow> Record list \<Rightarrow> Record option \<times> Record list" where
  "match_records io sessionID tool args records =
     (case find (permanently_denies tool) records of
        Some r \<Rightarrow> (Some r, records)
      | None \<Rightarrow>
          let indices = filter (\<lambda>i. matchable sessionID (records ! i)) [0..<length records];
              candidates = map (\<lambda>i. candidate_of (records ! i)) indices
          in case selectBest io candidates tool args of
               None \<Rightarrow> (None, records)
             | Some best \<Rightarrow>
                 let i = indices ! best;
                     r = (if rcPersistence (records ! i) = Some ''once''
                          then (records ! i)\<lparr>rcReserved := True\<rparr> else records ! i)
                 in (Some r, records[i := r]))"

definition Match ::
  "float_io \<Rightarrow> time \<Rightarrow> Identity \<Rightarrow> string \<Rightarrow> string \<Rightarrow> arguments \<Rightarrow> Cache \<Rightarrow> Record option \<times> Cache" where
  "Match io now identity sessionID tool args c =
     (if \<not> Valid identity then (None, c)
      else
        let c' = evictIdleLocked now c; key = key_of identity
        in case map_of (caPairs c') key of
             None \<Rightarrow> (None, c')
           | Some entry \<Rightarrow>
               if \<not> freshLocked c' entry now
               then (None, c'\<lparr>caPairs := AList.update key (entry\<lparr>peLastSeen := now\<rparr>) (caPairs c')\<rparr>)
               else case match_records io sessionID tool args (peRecords entry) of
                   (r, records) \<Rightarrow>
                     (r, c'\<lparr>caPairs := AList.update key
                           (entry\<lparr>peLastSeen := now, peRecords := records\<rparr>) (caPairs c')\<rparr>))"

text \<open>The loop of \<^verbatim>\<open>setReservation\<close> stops at the first record of the id.\<close>

fun set_first :: "string \<Rightarrow> bool \<Rightarrow> Record list \<Rightarrow> Record list" where
  "set_first approvalID consumed [] = []"
| "set_first approvalID consumed (r # rs) =
     (if rcID r \<noteq> approvalID then r # set_first approvalID consumed rs
      else (if consumed then r\<lparr>rcReserved := False, rcConsumed := True\<rparr> else r\<lparr>rcReserved := False\<rparr>) # rs)"

definition setReservation :: "Identity \<Rightarrow> string \<Rightarrow> bool \<Rightarrow> Cache \<Rightarrow> Cache" where
  "setReservation identity approvalID consumed c =
     (if \<not> Valid identity \<or> approvalID = [] then c
      else case map_of (caPairs c) (key_of identity) of
          None \<Rightarrow> c
        | Some entry \<Rightarrow>
            c\<lparr>caPairs := AList.update (key_of identity)
                (entry\<lparr>peRecords := set_first approvalID consumed (peRecords entry)\<rparr>) (caPairs c)\<rparr>)"

definition ConfirmConsumed :: "Identity \<Rightarrow> string \<Rightarrow> Cache \<Rightarrow> Cache" where
  "ConfirmConsumed identity approvalID c = setReservation identity approvalID True c"

definition Release :: "Identity \<Rightarrow> string \<Rightarrow> Cache \<Rightarrow> Cache" where
  "Release identity approvalID c = setReservation identity approvalID False c"

section \<open>Facts\<close>

definition wf_cache :: "Cache \<Rightarrow> bool" where
  "wf_cache c \<longleftrightarrow> wf_gomap (caPairs c) \<and> wf_gomap (caSessions c)"

text \<open>What eviction may do to an entry that survives it.\<close>

definition shrunk :: "pairEntry \<Rightarrow> pairEntry \<Rightarrow> bool" where
  "shrunk e e' \<longleftrightarrow> (\<exists>P. e' = e\<lparr>peRecords := filter P (peRecords e)\<rparr>)"

lemma shrunk_refl [simp]: "shrunk e e"
  unfolding shrunk_def by (rule exI [of _ "\<lambda>_. True"]) simp

lemma shrunk_trans: "shrunk a b \<Longrightarrow> shrunk b c \<Longrightarrow> shrunk a c"
  unfolding shrunk_def by (elim exE) (auto intro!: exI simp: conj_commute)

lemma shrunkD:
  "shrunk e e' \<Longrightarrow> set (peRecords e') \<subseteq> set (peRecords e) \<and> peSyncedAt e' = peSyncedAt e \<and> peLastSeen e' = peLastSeen e"
  by (auto simp: shrunk_def)

lemma evict_session_fields [simp]:
  "caETag (evict_session now x c) = caETag c" "caVersion (evict_session now x c) = caVersion c"
  "caLastSync (evict_session now x c) = caLastSync c" "caIdleTTL (evict_session now x c) = caIdleTTL c"
  "caMaxStaleness (evict_session now x c) = caMaxStaleness c" "caCreatedAt (evict_session now x c) = caCreatedAt c"
  by (auto simp: evict_session_def split: prod.splits)

lemma evict_session_wf: "wf_cache c \<Longrightarrow> wf_cache (evict_session now x c)"
  by (auto simp: evict_session_def wf_cache_def comp_def case_prod_unfold distinct_delete split: prod.splits)

lemma shrunk_filter: "shrunk e (e\<lparr>peRecords := filter P (peRecords e)\<rparr>)"
  by (auto simp: shrunk_def)

lemma evict_session_pairs:
  "map_of (caPairs (evict_session now x c)) k = Some e' \<Longrightarrow> \<exists>e. map_of (caPairs c) k = Some e \<and> shrunk e e'"
  by (auto simp: evict_session_def map_of_map_values shrunk_filter filterSessionRecords_def
      split: prod.splits if_splits)

lemma evict_sessions:
  "wf_cache c \<Longrightarrow> wf_cache (fold (evict_session now) xs c) \<and>
   caETag (fold (evict_session now) xs c) = caETag c \<and> caVersion (fold (evict_session now) xs c) = caVersion c \<and>
   caLastSync (fold (evict_session now) xs c) = caLastSync c \<and> caIdleTTL (fold (evict_session now) xs c) = caIdleTTL c \<and>
   caMaxStaleness (fold (evict_session now) xs c) = caMaxStaleness c \<and>
   (\<forall>k e'. map_of (caPairs (fold (evict_session now) xs c)) k = Some e' \<longrightarrow>
      (\<exists>e. map_of (caPairs c) k = Some e \<and> shrunk e e'))"
proof (induction xs arbitrary: c)
  case (Cons x xs)
  from Cons.IH [OF evict_session_wf [OF Cons.prems, of now x]] show ?case
    using evict_session_pairs [of now x c] shrunk_trans by simp blast
qed auto

lemma evict_fields:
  assumes "wf_cache c"
  shows "wf_cache (evictIdleLocked now c)" "caETag (evictIdleLocked now c) = caETag c"
    "caVersion (evictIdleLocked now c) = caVersion c" "caLastSync (evictIdleLocked now c) = caLastSync c"
    "caMaxStaleness (evictIdleLocked now c) = caMaxStaleness c" "caIdleTTL (evictIdleLocked now c) = caIdleTTL c"
  using evict_sessions [OF assms, of now "caSessions c"] by (auto simp: evictIdleLocked_def Let_def wf_cache_def)

lemma evict_pairs:
  assumes "wf_cache c" and "map_of (caPairs (evictIdleLocked now c)) k = Some e'"
  shows "\<exists>e. map_of (caPairs c) k = Some e \<and> shrunk e e'"
proof -
  let ?c = "fold (evict_session now) (caSessions c) c"
  have "wf_gomap (caPairs ?c)" using evict_sessions [OF assms(1)] by (simp add: wf_cache_def)
  with assms(2) have "map_of (caPairs ?c) k = Some e'"
    by (auto simp: evictIdleLocked_def Let_def map_of_filter_kv split: option.splits if_splits)
  with evict_sessions [OF assms(1)] show ?thesis by blast
qed

section \<open>What a match returns\<close>

lemma match_records_Some:
  assumes "match_records io sid tool args rs = (Some r, rs')"
  shows "(r \<in> set rs \<and> permanently_denies tool r \<and> rs' = rs) \<or>
    (\<exists>i. i < length rs \<and> matchable sid (rs ! i) \<and>
       Matches io (rcToolPattern (rs ! i)) (rcParamsPattern (rs ! i)) tool args \<and>
       r = (if rcPersistence (rs ! i) = Some ''once'' then (rs ! i)\<lparr>rcReserved := True\<rparr> else rs ! i) \<and>
       rs' = rs[i := r] \<and> (\<forall>q \<in> set rs. \<not> permanently_denies tool q))"
proof (cases "find (permanently_denies tool) rs")
  case (Some q)
  with assms show ?thesis by (auto simp: match_records_def dest: find_SomeD)
next
  case None
  let ?is = "filter (\<lambda>i. matchable sid (rs ! i)) [0..<length rs]"
  let ?cs = "map (\<lambda>i. candidate_of (rs ! i)) ?is"
  from assms None obtain b where b: "selectBest io ?cs tool args = Some b"
    and r: "r = (if rcPersistence (rs ! (?is ! b)) = Some ''once''
      then (rs ! (?is ! b))\<lparr>rcReserved := True\<rparr> else rs ! (?is ! b))" "rs' = rs[?is ! b := r]"
    by (auto simp: match_records_def Let_def split: option.splits)
  from selectBest_Some [OF b] have "b < length ?is" "cnMatches io tool args (candidate_of (rs ! (?is ! b)))"
    by auto
  then have "?is ! b \<in> set ?is" by (meson nth_mem)
  then have "?is ! b < length rs" "matchable sid (rs ! (?is ! b))" by auto
  moreover have "Matches io (rcToolPattern (rs ! (?is ! b))) (rcParamsPattern (rs ! (?is ! b))) tool args"
    using \<open>cnMatches io tool args _\<close> by (simp add: cnMatches_def candidate_of_def)
  ultimately show ?thesis
    using r None by (auto simp: find_None_iff)
qed

lemma match_records_denied:
  "find (permanently_denies tool) rs = Some r \<Longrightarrow> match_records io sid tool args rs = (Some r, rs)"
  by (simp add: match_records_def)

lemma Match_Some:
  assumes "wf_cache c" and "Match io now i sid tool args c = (Some r, c')"
  shows "Valid i \<and> (\<exists>e e' rs. map_of (caPairs c) (key_of i) = Some e \<and> shrunk e e' \<and>
    map_of (caPairs (evictIdleLocked now c)) (key_of i) = Some e' \<and>
    freshLocked c e' now \<and> match_records io sid tool args (peRecords e') = (Some r, rs) \<and>
    c' = (evictIdleLocked now c)\<lparr>caPairs := AList.update (key_of i) (e'\<lparr>peLastSeen := now, peRecords := rs\<rparr>)
            (caPairs (evictIdleLocked now c))\<rparr>)"
proof -
  from assms(2) obtain e' rs where e': "Valid i" "map_of (caPairs (evictIdleLocked now c)) (key_of i) = Some e'"
    "freshLocked (evictIdleLocked now c) e' now" "match_records io sid tool args (peRecords e') = (Some r, rs)"
    "c' = (evictIdleLocked now c)\<lparr>caPairs := AList.update (key_of i) (e'\<lparr>peLastSeen := now, peRecords := rs\<rparr>)
            (caPairs (evictIdleLocked now c))\<rparr>"
    by (auto simp: Match_def Let_def split: if_splits option.splits prod.splits)
  moreover have "freshLocked c e' now"
    using e'(3) evict_fields [OF assms(1)] by (simp add: freshLocked_def Let_def split: if_splits)
  ultimately show ?thesis using evict_pairs [OF assms(1) e'(2)] by blast
qed

section \<open>Snapshots\<close>

lemma build_replacement_Some:
  assumes "map_of (build_replacement ok now old pairs) k = Some e"
  shows "\<exists>pair \<in> set pairs. ok (paIdentity pair) \<and> key_of (paIdentity pair) = k \<and>
    e = snapshotEntry (paApprovals pair) (map_of old k) now"
proof -
  have "map_of (fold (\<lambda>pair m. if \<not> ok (paIdentity pair) then m
        else let key = key_of (paIdentity pair)
             in AList.update key (snapshotEntry (paApprovals pair) (map_of old key) now) m) ps m) k = Some e \<Longrightarrow>
      map_of m k = Some e \<or> (\<exists>pair \<in> set ps. ok (paIdentity pair) \<and> key_of (paIdentity pair) = k \<and>
        e = snapshotEntry (paApprovals pair) (map_of old k) now)" for ps m
    by (induction ps arbitrary: m) (fastforce simp: Let_def go_map_simps split: if_splits)+
  from this [of pairs "[]"] assms show ?thesis by (simp add: build_replacement_def)
qed

lemma build_replacement_wf: "wf_gomap (build_replacement ok now old pairs)"
proof -
  have "wf_gomap m \<Longrightarrow> wf_gomap (fold (\<lambda>pair m. if \<not> ok (paIdentity pair) then m
        else let key = key_of (paIdentity pair)
             in AList.update key (snapshotEntry (paApprovals pair) (map_of old key) now) m) ps m)" for ps m
    by (induction ps arbitrary: m) (auto simp: Let_def)
  from this [of "[]" pairs] show ?thesis unfolding build_replacement_def by simp
qed

lemma fold_update_map_of:
  "wf_gomap xs \<Longrightarrow> map_of (fold (\<lambda>(k, e) m. AList.update k e m) xs m) k =
     (case map_of xs k of Some e \<Rightarrow> Some e | None \<Rightarrow> map_of m k)"
proof (induction xs arbitrary: m)
  case (Cons x xs)
  obtain k' e' where x: "x = (k', e')" by force
  with Cons.prems have "map_of xs k' = None" by (auto simp: map_of_eq_None_iff)
  with Cons x show ?case by (auto simp: go_map_simps split: option.splits)
qed simp

lemma fold_update_wf: "wf_gomap m \<Longrightarrow> wf_gomap (fold (\<lambda>(k, e) m. AList.update k e m) xs m)"
  by (induction xs arbitrary: m) auto

lemma acceptVersion_cases:
  "acceptVersionLocked etag c = (ok, c') \<Longrightarrow>
   c' = c\<lparr>caVersion := caVersion c'\<rparr> \<and> caVersion c \<le> caVersion c' \<and> (\<not> ok \<longrightarrow> c' = c) \<and>
   (case parseSyncVersion etag of None \<Rightarrow> ok | Some v \<Rightarrow> ok = (caVersion c \<le> v) \<and> (ok \<longrightarrow> caVersion c' = v))"
  by (auto simp: acceptVersionLocked_def split: option.splits if_splits)

lemma Replace_accepted:
  assumes "fst (acceptVersionLocked etag c)"
  shows "caPairs (Replace now pairs etag c) = build_replacement Valid now (caPairs c) pairs"
proof -
  obtain c' where a: "acceptVersionLocked etag c = (True, c')" using assms by (metis prod.collapse)
  with acceptVersion_cases [OF a] have "caPairs c' = caPairs c" by (metis Cache.select_convs(1) Cache.surjective Cache.update_convs(4))
  with a show ?thesis by (simp add: Replace_def)
qed

lemma ReplaceForPrincipal_pairs:
  assumes wf: "wf_cache c" and p: "p \<noteq> []" and r: "ReplaceForPrincipal now p pairs etag c = (True, c')"
  shows "map_of (caPairs c') k =
    (if fst k = p then map_of (build_replacement (\<lambda>i. Valid i \<and> idPrincipal i = p) now (caPairs c) pairs) k
     else map_of (caPairs c) k) \<and> caETag c' = caETag c \<and> caLastSync c' = caLastSync c \<and> caSessions c' = caSessions c \<and>
     wf_cache c'"
proof -
  let ?rep = "build_replacement (\<lambda>i. Valid i \<and> idPrincipal i = p) now (caPairs c) pairs"
  let ?kept = "filter (\<lambda>(key, _). fst key \<noteq> p) (caPairs c)"
  obtain ok c1 where a: "acceptVersionLocked etag c = (ok, c1)" by force
  from acceptVersion_cases [OF a] have c1: "c1 = c\<lparr>caVersion := caVersion c1\<rparr>" by blast
  then have same: "caPairs c1 = caPairs c" "caETag c1 = caETag c" "caLastSync c1 = caLastSync c" "caSessions c1 = caSessions c"
    by (metis Cache.select_convs Cache.surjective Cache.update_convs(4))+
  from r p a have ok: "ok" by (cases ok) (auto simp: ReplaceForPrincipal_def)
  with r p a same have c': "c' = c1\<lparr>caPairs := fold (\<lambda>(key, entry) m. AList.update key entry m) ?rep ?kept\<rparr>"
    by (simp add: ReplaceForPrincipal_def Let_def)
  have "fst k = p" if "map_of ?rep k = Some e" for e
    using build_replacement_Some [OF that] by (auto simp: key_of_def)
  moreover have "map_of ?kept k = (if fst k = p then None else map_of (caPairs c) k)"
    using wf by (subst map_of_filter_kv) (auto simp: wf_cache_def split: option.splits)
  ultimately have "map_of (caPairs c') k = (if fst k = p then map_of ?rep k else map_of (caPairs c) k)"
    using build_replacement_wf by (auto simp: c' fold_update_map_of split: option.splits)
  with same c' wf show ?thesis by (simp add: wf_cache_def fold_update_wf)
qed

section \<open>Sequences of operations\<close>

datatype cache_op =
    OpSession string
  | OpMark
  | OpReplace "Pair list" string
  | OpReplaceFor string "Pair list" string
  | OpMatch Identity string string arguments
  | OpConfirm Identity string
  | OpRelease Identity string
  | OpEvict

definition cache_step :: "float_io \<Rightarrow> time \<times> cache_op \<Rightarrow> Cache \<Rightarrow> Cache" where
  "cache_step io = (\<lambda>(now, op) c.
     case op of
       OpSession sid \<Rightarrow> RecordSession now sid c
     | OpMark \<Rightarrow> MarkSynced now c
     | OpReplace pairs etag \<Rightarrow> Replace now pairs etag c
     | OpReplaceFor p pairs etag \<Rightarrow> snd (ReplaceForPrincipal now p pairs etag c)
     | OpMatch i sid tool args \<Rightarrow> snd (Match io now i sid tool args c)
     | OpConfirm i a \<Rightarrow> ConfirmConsumed i a c
     | OpRelease i a \<Rightarrow> Release i a c
     | OpEvict \<Rightarrow> EvictIdle now c)"

text \<open>A record is taken when every copy of it in the entry is consumed or reserved.\<close>

definition rs_has :: "string \<Rightarrow> Record list \<Rightarrow> bool" where
  "rs_has a rs \<longleftrightarrow> (\<exists>r \<in> set rs. rcID r = a)"

definition rs_taken :: "string \<Rightarrow> Record list \<Rightarrow> bool" where
  "rs_taken a rs \<longleftrightarrow> (\<forall>r \<in> set rs. rcID r = a \<longrightarrow> rcConsumed r \<or> rcReserved r)"

definition cache_has :: "Cache \<Rightarrow> pairKey \<Rightarrow> string \<Rightarrow> bool" where
  "cache_has c k a \<longleftrightarrow> (\<exists>e. map_of (caPairs c) k = Some e \<and> rs_has a (peRecords e))"

definition taken :: "Cache \<Rightarrow> pairKey \<Rightarrow> string \<Rightarrow> bool" where
  "taken c k a \<longleftrightarrow> (\<exists>e. map_of (caPairs c) k = Some e \<and> rs_has a (peRecords e) \<and> rs_taken a (peRecords e))"

lemma rs_taken_subset: "rs_taken a rs \<Longrightarrow> set rs' \<subseteq> set rs \<Longrightarrow> rs_taken a rs'"
  by (auto simp: rs_taken_def)

lemma rs_taken_snapshot:
  assumes "rs_has a previous" and "rs_taken a previous" and "a \<noteq> []"
  shows "rs_taken a (snapshotRecords records previous)"
proof -
  have "rcConsumed (carry_over previous r) \<or> rcReserved (carry_over previous r)" if "rcID r = a" for r
  proof -
    have "find (\<lambda>old. rcID old = rcID r) previous \<noteq> None"
      using assms(1) that by (auto simp: find_None_iff rs_has_def)
    then obtain old where old: "find (\<lambda>old. rcID old = rcID r) previous = Some old" by blast
    from find_SomeD [OF this] assms(2) that have "rcConsumed old \<or> rcReserved old"
      by (auto simp: rs_taken_def)
    with old assms(3) that show ?thesis by (auto simp: carry_over_def Let_def)
  qed
  moreover have "rcID (carry_over previous r) = rcID r" for r
    by (auto simp: carry_over_def Let_def split: option.splits)
  ultimately show ?thesis by (auto simp: rs_taken_def snapshotRecords_def)
qed

lemma rs_taken_set_first:
  "rs_taken a rs \<Longrightarrow> consumed \<or> b \<noteq> a \<Longrightarrow> rs_taken a (set_first b consumed rs)"
  by (induction rs) (auto simp: rs_taken_def)

lemma rs_taken_match:
  assumes "rs_taken a rs" and "match_records io sid tool args rs = (r, rs')"
  shows "rs_taken a rs'"
proof (cases r)
  case None
  with assms show ?thesis
    by (auto simp: match_records_def Let_def split: option.splits)
next
  case (Some q)
  from match_records_Some [OF assms(2) [unfolded Some]] show ?thesis
  proof (elim disjE exE conjE)
    assume "rs' = rs"
    with assms(1) show ?thesis by simp
  next
    fix i
    assume i: "i < length rs" "rs' = rs[i := q]"
      "q = (if rcPersistence (rs ! i) = Some ''once'' then (rs ! i)\<lparr>rcReserved := True\<rparr> else rs ! i)"
    then have "rcID q = a \<longrightarrow> rcConsumed q \<or> rcReserved q"
      using assms(1) nth_mem [OF i(1)] by (simp add: rs_taken_def)
    with i(2) assms(1) set_update_subset_insert [of rs i q] show ?thesis
      unfolding rs_taken_def by blast
  qed
qed

lemma taken_evict:
  assumes "wf_cache c" and "taken c k a" and "map_of (caPairs (evictIdleLocked now c)) k = Some e"
  shows "rs_taken a (peRecords e)"
  using evict_pairs [OF assms(1,3)] assms(2) shrunkD rs_taken_subset by (fastforce simp: taken_def)

lemma Replace_wf: "wf_cache c \<Longrightarrow> wf_cache (Replace now pairs etag c)"
proof -
  assume wf: "wf_cache c"
  obtain ok c' where a: "acceptVersionLocked etag c = (ok, c')" by force
  from acceptVersion_cases [OF a] have "c' = c\<lparr>caVersion := caVersion c'\<rparr>" by blast
  with wf have "wf_cache c'" by (metis Cache.select_convs(1,2) Cache.surjective Cache.update_convs(4) wf_cache_def)
  with a build_replacement_wf show ?thesis by (cases ok) (auto simp: Replace_def wf_cache_def)
qed

lemma ReplaceForPrincipal_refused:
  "ReplaceForPrincipal now p pairs etag c = (False, c') \<Longrightarrow> c' = c"
  using acceptVersion_cases [of etag c] by (auto simp: ReplaceForPrincipal_def Let_def split: if_splits prod.splits bool.splits)

lemma setReservation_wf: "wf_cache c \<Longrightarrow> wf_cache (setReservation i a b c)"
  by (auto simp: setReservation_def wf_cache_def split: option.splits)

lemma Match_wf: "wf_cache c \<Longrightarrow> wf_cache (snd (Match io now i sid tool args c))"
  using evict_fields(1) [of c now] by (auto simp: Match_def wf_cache_def Let_def split: option.splits prod.splits)

lemma RecordSession_wf: "wf_cache c \<Longrightarrow> wf_cache (RecordSession now sid c)"
  using evict_fields(1) [of c now] by (auto simp: RecordSession_def wf_cache_def Let_def)

lemma MarkSynced_wf: "wf_cache c \<Longrightarrow> wf_cache (MarkSynced now c)"
  by (auto simp: MarkSynced_def wf_cache_def split: option.splits)

lemma cache_step_wf:
  assumes "wf_cache c"
  shows "wf_cache (cache_step io x c)"
proof (cases x)
  case (Pair now op)
  show ?thesis
  proof (cases op)
    case (OpReplaceFor p pairs etag)
    obtain ok c' where r: "ReplaceForPrincipal now p pairs etag c = (ok, c')" by force
    have "wf_cache c'"
    proof (cases "p \<noteq> [] \<and> ok")
      case True
      then show ?thesis using ReplaceForPrincipal_pairs [OF assms, of p now pairs etag c'] r by simp
    next
      case False
      then have "c' = c"
        using r ReplaceForPrincipal_refused [of now p pairs etag c c'] by (auto simp: ReplaceForPrincipal_def)
      with assms show ?thesis by simp
    qed
    with r Pair OpReplaceFor show ?thesis by (simp add: cache_step_def)
  qed (use assms in \<open>simp_all add: Pair cache_step_def RecordSession_wf Replace_wf Match_wf ConfirmConsumed_def
      Release_def setReservation_wf EvictIdle_def evict_fields MarkSynced_wf\<close>)
qed

text \<open>Only a release frees a taken record, as long as the entry keeps the record.\<close>

lemma taken_setReservation:
  assumes "taken c k a" and "consumed \<or> (key_of i, b) \<noteq> (k, a)"
  shows "\<forall>e. map_of (caPairs (setReservation i b consumed c)) k = Some e \<longrightarrow> rs_taken a (peRecords e)"
proof -
  from assms(1) obtain e where e: "map_of (caPairs c) k = Some e" "rs_taken a (peRecords e)"
    by (auto simp: taken_def)
  show ?thesis
  proof (cases "key_of i = k")
    case True
    with e assms(2) rs_taken_set_first [OF e(2), of consumed b] show ?thesis
      by (simp add: setReservation_def go_map_simps)
  next
    case False
    with e show ?thesis by (simp add: setReservation_def go_map_simps split: option.split)
  qed
qed

lemma taken_Match:
  assumes "wf_cache c" and "taken c k a"
  shows "\<forall>e. map_of (caPairs (snd (Match io now i sid tool args c))) k = Some e \<longrightarrow> rs_taken a (peRecords e)"
proof -
  have ev: "\<forall>e. map_of (caPairs (evictIdleLocked now c)) k = Some e \<longrightarrow> rs_taken a (peRecords e)"
    using taken_evict [OF assms] by blast
  moreover have "\<forall>e. map_of (caPairs c) k = Some e \<longrightarrow> rs_taken a (peRecords e)"
    using assms(2) by (auto simp: taken_def)
  ultimately show ?thesis
    by (simp add: Match_def Let_def go_map_simps split: option.splits prod.split if_split)
      (blast intro: rs_taken_match)
qed

lemma taken_snapshot:
  assumes "taken c k a" and "a \<noteq> []"
  shows "rs_taken a (peRecords (snapshotEntry rs (map_of (caPairs c) k) now))"
  using assms rs_taken_snapshot by (auto simp: taken_def snapshotEntry_def Let_def)

lemma taken_replacement:
  assumes "taken c k a" and "a \<noteq> []" and "map_of (build_replacement ok now (caPairs c) pairs) k = Some e"
  shows "rs_taken a (peRecords e)"
proof -
  from build_replacement_Some [OF assms(3)] obtain pair :: Pair where
    "e = snapshotEntry (paApprovals pair) (map_of (caPairs c) k) now" by blast
  with taken_snapshot [OF assms(1,2)] show ?thesis by simp
qed

lemma taken_Replace:
  assumes "taken c k a" and "a \<noteq> []"
  shows "\<forall>e. map_of (caPairs (Replace now pairs etag c)) k = Some e \<longrightarrow> rs_taken a (peRecords e)"
proof (cases "fst (acceptVersionLocked etag c)")
  case True
  show ?thesis
    unfolding Replace_accepted [OF True] using taken_replacement [OF assms] by simp
next
  case False
  then obtain c' where ac: "acceptVersionLocked etag c = (False, c')" by (metis prod.collapse)
  with acceptVersion_cases [OF ac] have "Replace now pairs etag c = c" by (simp add: Replace_def)
  with assms(1) show ?thesis by (auto simp: taken_def)
qed

lemma taken_ReplaceForPrincipal:
  assumes "wf_cache c" and "taken c k a" and "a \<noteq> []"
  shows "\<forall>e. map_of (caPairs (snd (ReplaceForPrincipal now p pairs etag c))) k = Some e \<longrightarrow> rs_taken a (peRecords e)"
proof (cases "p \<noteq> [] \<and> fst (ReplaceForPrincipal now p pairs etag c)")
  case True
  then obtain c' where r: "p \<noteq> []" "ReplaceForPrincipal now p pairs etag c = (True, c')" by (metis prod.collapse)
  show ?thesis
  proof (intro allI impI)
    fix e
    assume "map_of (caPairs (snd (ReplaceForPrincipal now p pairs etag c))) k = Some e"
    with ReplaceForPrincipal_pairs [OF assms(1) r, of k] r(2) consider
      (own) "map_of (build_replacement (\<lambda>i. Valid i \<and> idPrincipal i = p) now (caPairs c) pairs) k = Some e"
      | (other) "map_of (caPairs c) k = Some e"
      by (auto split: if_splits)
    then show "rs_taken a (peRecords e)"
    proof cases
      case own
      with taken_replacement [OF assms(2,3)] show ?thesis by simp
    next
      case other
      with assms(2) show ?thesis by (auto simp: taken_def)
    qed
  qed
next
  case False
  then have "snd (ReplaceForPrincipal now p pairs etag c) = c"
    using ReplaceForPrincipal_refused [of now p pairs etag c]
    by (cases "ReplaceForPrincipal now p pairs etag c") (auto simp: ReplaceForPrincipal_def)
  with assms(2) show ?thesis by (auto simp: taken_def)
qed

lemma taken_step:
  assumes wf: "wf_cache c" and tk: "taken c k a" and ne: "a \<noteq> []"
    and rel: "\<forall>i. snd x = OpRelease i a \<longrightarrow> key_of i \<noteq> k"
    and has: "cache_has (cache_step io x c) k a"
  shows "taken (cache_step io x c) k a"
proof -
  obtain now op where x: "x = (now, op)" by force
  have "\<forall>e. map_of (caPairs (cache_step io x c)) k = Some e \<longrightarrow> rs_taken a (peRecords e)"
  proof (cases op)
    case (OpRelease i b)
    with rel x have "(key_of i, b) \<noteq> (k, a)" by auto
    with taken_setReservation [OF tk, of False i b] OpRelease x show ?thesis
      by (simp add: cache_step_def Release_def)
  next
    case (OpConfirm i b)
    with taken_setReservation [OF tk, of True i b] x show ?thesis
      by (simp add: cache_step_def ConfirmConsumed_def)
  next
    case OpMark
    with tk x show ?thesis by (auto simp: cache_step_def MarkSynced_def taken_def split: option.splits)
  next
    case (OpSession sid)
    have "\<forall>e. map_of (caPairs c) k = Some e \<longrightarrow> rs_taken a (peRecords e)" using tk by (auto simp: taken_def)
    with OpSession x taken_evict [OF wf tk] show ?thesis
      by (auto simp: cache_step_def RecordSession_def Let_def split: if_splits)
  qed (use x taken_evict [OF wf tk] in \<open>auto simp: cache_step_def EvictIdle_def
      taken_Replace [OF tk ne, rule_format] taken_ReplaceForPrincipal [OF wf tk ne, rule_format]
      taken_Match [OF wf tk, rule_format]\<close>)
  with has show ?thesis by (auto simp: cache_has_def taken_def)
qed

section \<open>Properties\<close>

text \<open>
  The cache never invents a permission. A match is for a valid identity and comes from that
  identity's own entry, which was refreshed within the staleness bound; the record either
  permanently denies this very tool, or is approved, neither consumed nor reserved, covers the
  call, and a session approval is from the calling session.
\<close>

theorem Match_sound:
  assumes "wf_cache c" and "Match io now i sid tool args c = (Some r, c')"
  shows "Valid i \<and> (\<exists>e q. map_of (caPairs c) (key_of i) = Some e \<and> q \<in> set (peRecords e) \<and> freshLocked c e now \<and>
    r = q\<lparr>rcReserved := rcReserved r\<rparr> \<and>
    (permanently_denies tool r \<or>
     rcStatus r = ''approved'' \<and> \<not> rcConsumed r \<and> \<not> rcReserved q \<and>
     Matches io (rcToolPattern r) (rcParamsPattern r) tool args \<and>
     (rcPersistence r = Some ''session'' \<longrightarrow> rcAgentSessionID r = Some sid) \<and>
     (rcPersistence r = Some ''once'' \<longrightarrow> rcReserved r)))"
proof -
  from Match_Some [OF assms] obtain e e' rs where v: "Valid i" "map_of (caPairs c) (key_of i) = Some e"
    and e: "shrunk e e'" "freshLocked c e' now"
    and m: "match_records io sid tool args (peRecords e') = (Some r, rs)"
    by blast
  from e shrunkD have fresh: "freshLocked c e now" and sub: "set (peRecords e') \<subseteq> set (peRecords e)"
    by (auto simp: freshLocked_def)
  from match_records_Some [OF m] show ?thesis
  proof (elim disjE exE conjE)
    assume "r \<in> set (peRecords e')" "permanently_denies tool r"
    with v fresh sub show ?thesis by (intro conjI exI [of _ e] exI [of _ r]) auto
  next
    fix j
    assume j: "j < length (peRecords e')" "matchable sid (peRecords e' ! j)"
      "Matches io (rcToolPattern (peRecords e' ! j)) (rcParamsPattern (peRecords e' ! j)) tool args"
      "r = (if rcPersistence (peRecords e' ! j) = Some ''once''
            then (peRecords e' ! j)\<lparr>rcReserved := True\<rparr> else peRecords e' ! j)"
    with sub have "peRecords e' ! j \<in> set (peRecords e)" by auto
    with v fresh j show ?thesis
      by (intro conjI exI [of _ e] exI [of _ "peRecords e' ! j"]) (auto simp: matchable_def split: if_splits)
  qed
qed

definition sample_identity :: Identity where
  "sample_identity = \<lparr>idPrincipal = ''alice'', idAgentID = ''agent''\<rparr>"

definition once_record :: Record where
  "once_record = \<lparr>rcID = ''id1'', rcToolName = ''pay'', rcToolPattern = ''pay'', rcParamsPattern = [(''to'', ''bob'')],
     rcStatus = ''approved'', rcPersistence = Some ''once'', rcConsumed = False, rcAgentSessionID = None,
     rcApprovedAt = Some 20, rcReserved = False\<rparr>"

definition denied_record :: Record where
  "denied_record = once_record\<lparr>rcID := ''id0'', rcStatus := ''denied'', rcPersistence := Some ''permanent'',
     rcApprovedAt := None, rcParamsPattern := []\<rparr>"

definition cache_of :: "Record list \<Rightarrow> Cache" where
  "cache_of rs = (NewCache 1 1000 100)\<lparr>caPairs := [(key_of sample_identity,
     \<lparr>peRecords = rs, peLastSeen = 30, peSyncedAt = 30\<rparr>)], caLastSync := 30\<rparr>"

definition cache_io :: float_io where
  "cache_io = \<lparr>FormatFloat = (\<lambda>_. ''0''), WidenFloat32 = ucast, NumberFloat64 = (\<lambda>_. None)\<rparr>"

lemma sample_identity_valid [simp]: "Valid sample_identity"
  by (simp add: Valid_def sample_identity_def)

lemma wf_cache_of [simp]: "wf_cache (cache_of rs)"
  by (simp add: wf_cache_def cache_of_def NewCache_def)

lemma evict_cache_of [simp]: "evictIdleLocked 40 (cache_of rs) = cache_of rs"
  by (simp add: evictIdleLocked_def cache_of_def NewCache_def time_sub_def min_int64_def max_int64_def)

lemma cache_of_entry [simp]:
  "map_of (caPairs (cache_of rs)) (key_of sample_identity) = Some \<lparr>peRecords = rs, peLastSeen = 30, peSyncedAt = 30\<rparr>"
  by (simp add: cache_of_def)

lemma cache_of_fresh [simp]: "freshLocked (cache_of rs) \<lparr>peRecords = rs', peLastSeen = 30, peSyncedAt = 30\<rparr> 40"
  by (simp add: freshLocked_def cache_of_def NewCache_def time_sub_def min_int64_def max_int64_def
      time_after_def time_is_zero_def)

lemma match_once_record:
  "match_records cache_io [] ''pay'' [(''to'', GString ''bob'')] [once_record] =
     (Some (once_record\<lparr>rcReserved := True\<rparr>), [once_record\<lparr>rcReserved := True\<rparr>])"
  by code_simp

theorem Match_sound_witness:
  "Matches cache_io ''pay'' [(''to'', ''bob'')] ''pay'' [(''to'', GString ''bob'')]"
proof -
  let ?r = "once_record\<lparr>rcReserved := True\<rparr>"
  obtain c' where run: "Match cache_io 40 sample_identity [] ''pay'' [(''to'', GString ''bob'')] (cache_of [once_record]) =
      (Some ?r, c')"
    by (simp add: Match_def Let_def match_once_record)
  have "\<not> permanently_denies ''pay'' ?r" by (simp add: permanently_denies_def once_record_def)
  with Match_sound [OF wf_cache_of run] show ?thesis by (auto simp: once_record_def)
qed

text \<open>
  A permanent denial wins: whenever the caller's fresh entry holds a permanent denial of the
  tool, the match returns such a denial, whatever approvals match as well and whatever the
  arguments are.
\<close>

theorem permanent_denial_wins:
  assumes "wf_cache c" and "Valid i"
    and "map_of (caPairs (evictIdleLocked now c)) (key_of i) = Some e" and "freshLocked c e now"
    and "d \<in> set (peRecords e)" and "permanently_denies tool d"
  shows "\<exists>r c'. Match io now i sid tool args c = (Some r, c') \<and> permanently_denies tool r"
proof -
  have "find (permanently_denies tool) (peRecords e) \<noteq> None"
    using assms(5,6) by (auto simp: find_None_iff)
  then obtain r where r: "find (permanently_denies tool) (peRecords e) = Some r" by blast
  have "freshLocked (evictIdleLocked now c) e now"
    using assms(4) evict_fields [OF assms(1)] by (simp add: freshLocked_def Let_def split: if_splits)
  with assms(2,3) match_records_denied [OF r] show ?thesis
    using find_SomeD [OF r] by (simp add: Match_def Let_def)
qed

theorem permanent_denial_wins_witness:
  "\<exists>r c'. Match cache_io 40 sample_identity [] ''pay'' [(''to'', GString ''bob'')]
     (cache_of [once_record, denied_record]) = (Some r, c') \<and> permanently_denies ''pay'' r"
  by (rule permanent_denial_wins [where e = "\<lparr>peRecords = [once_record, denied_record], peLastSeen = 30, peSyncedAt = 30\<rparr>"
      and d = denied_record])
    (simp_all add: permanently_denies_def denied_record_def once_record_def)

text \<open>
  A sync installs what the broker sent and nothing else. After an accepted full sync every
  cached record is one of the response, for the same identity, at most marked consumed or
  reserved; an approval the broker no longer lists is gone. After a sync for one principal the
  same holds of that principal's entries, and no other principal's entry, the global sync time
  or the ETag changes.
\<close>

definition from_response :: "Pair list \<Rightarrow> pairKey \<Rightarrow> Record \<Rightarrow> bool" where
  "from_response pairs k r \<longleftrightarrow> (\<exists>pair \<in> set pairs. Valid (paIdentity pair) \<and> key_of (paIdentity pair) = k \<and>
     (\<exists>q \<in> set (paApprovals pair). r = q\<lparr>rcConsumed := rcConsumed r, rcReserved := rcReserved r\<rparr> \<and>
        (rcConsumed q \<longrightarrow> rcConsumed r)))"

lemma carry_over_same:
  "carry_over previous q = q\<lparr>rcConsumed := rcConsumed (carry_over previous q), rcReserved := rcReserved (carry_over previous q)\<rparr> \<and>
   (rcConsumed q \<longrightarrow> rcConsumed (carry_over previous q))"
  by (simp add: carry_over_def Let_def split: option.splits)

lemma replacement_from_response:
  assumes "map_of (build_replacement ok now old pairs) k = Some e" and "\<forall>i. ok i \<longrightarrow> Valid i" and "r \<in> set (peRecords e)"
  shows "from_response pairs k r"
proof -
  from build_replacement_Some [OF assms(1)] obtain pair :: Pair where
    pair: "pair \<in> set pairs" "ok (paIdentity pair)" "key_of (paIdentity pair) = k"
      "e = snapshotEntry (paApprovals pair) (map_of old k) now" by blast
  with assms(3) obtain previous q where "q \<in> set (paApprovals pair)" "r = carry_over previous q"
    by (auto simp: snapshotEntry_def snapshotRecords_def Let_def)
  with pair assms(2) carry_over_same show ?thesis unfolding from_response_def by blast
qed

theorem sync_installs_response:
  assumes "wf_cache c"
  shows "(fst (acceptVersionLocked etag c) \<longrightarrow>
       (\<forall>k e r. map_of (caPairs (Replace now pairs etag c)) k = Some e \<longrightarrow> r \<in> set (peRecords e) \<longrightarrow>
          from_response pairs k r)) \<and>
    (p \<noteq> [] \<and> ReplaceForPrincipal now p pairs etag c = (True, c') \<longrightarrow>
       (\<forall>k. if fst k = p
            then \<forall>e r. map_of (caPairs c') k = Some e \<longrightarrow> r \<in> set (peRecords e) \<longrightarrow> from_response pairs k r
            else map_of (caPairs c') k = map_of (caPairs c) k) \<and>
       caLastSync c' = caLastSync c \<and> caETag c' = caETag c)"
proof (intro conjI impI, goal_cases)
  case 1
  then show ?case using replacement_from_response [of Valid] Replace_accepted by simp
next
  case 2
  then have p: "p \<noteq> []" "ReplaceForPrincipal now p pairs etag c = (True, c')" by auto
  show ?case
    using ReplaceForPrincipal_pairs [OF assms p]
      replacement_from_response [where ok = "\<lambda>i. Valid i \<and> idPrincipal i = p" and old = "caPairs c"] by auto
next
  case 3
  then show ?case using ReplaceForPrincipal_pairs [OF assms] by blast
next
  case 4
  then show ?case using ReplaceForPrincipal_pairs [OF assms] by blast
qed

theorem sync_installs_response_witness:
  "from_response [\<lparr>paIdentity = sample_identity, paApprovals = [once_record]\<rparr>] (''alice'', ''agent'') once_record"
proof -
  let ?pairs = "[\<lparr>paIdentity = sample_identity, paApprovals = [once_record]\<rparr>]"
  let ?c = "Replace 50 ?pairs ''v3'' (cache_of [denied_record])"
  have accepted: "fst (acceptVersionLocked ''v3'' (cache_of [denied_record]))" by code_simp
  have installed: "map_option (\<lambda>e. list_ex (\<lambda>r. r = once_record) (peRecords e)) (map_of (caPairs ?c) (''alice'', ''agent'')) = Some True"
    by code_simp
  then obtain e where "map_of (caPairs ?c) (''alice'', ''agent'') = Some e" "once_record \<in> set (peRecords e)"
    by (cases "map_of (caPairs ?c) (''alice'', ''agent'')") (auto simp: list_ex_iff)
  with accepted sync_installs_response [OF wf_cache_of, of "''v3''" "[denied_record]"] show ?thesis by blast
qed

text \<open>
  The cache never goes back in time: no operation lowers the version it has seen, and a
  response whose version is lower is refused and changes nothing.
\<close>

theorem cache_version_monotone:
  assumes "wf_cache c"
  shows "caVersion c \<le> caVersion (cache_step io x c) \<and>
    (parseSyncVersion etag = Some v \<and> v < caVersion c \<longrightarrow>
       Replace now pairs etag c = c \<and> (p \<noteq> [] \<longrightarrow> ReplaceForPrincipal now p pairs etag c = (False, c)))"
proof -
  have acc: "caVersion c \<le> caVersion c'" if "acceptVersionLocked et c = (ok, c')" for et ok c'
    using acceptVersion_cases [OF that] by blast
  obtain now' op where x: "x = (now', op)" by force
  have "caVersion c \<le> caVersion (cache_step io x c)"
    using evict_fields(3) [OF assms] acc
    by (cases op) (force simp: x cache_step_def RecordSession_def MarkSynced_def Replace_def ReplaceForPrincipal_def
        Match_def ConfirmConsumed_def Release_def setReservation_def EvictIdle_def Let_def
        split: option.splits prod.splits bool.splits)+
  moreover have "Replace now pairs etag c = c \<and> (p \<noteq> [] \<longrightarrow> ReplaceForPrincipal now p pairs etag c = (False, c))"
    if "parseSyncVersion etag = Some v \<and> v < caVersion c"
    using that by (auto simp: Replace_def ReplaceForPrincipal_def acceptVersionLocked_def)
  ultimately show ?thesis by blast
qed

theorem cache_version_monotone_witness:
  "Replace 50 [] ''v3'' ((cache_of [])\<lparr>caVersion := 4\<rparr>) = (cache_of [])\<lparr>caVersion := 4\<rparr>"
proof -
  have "parseSyncVersion ''v3'' = Some 3" by code_simp
  moreover have "wf_cache ((cache_of [])\<lparr>caVersion := 4\<rparr>)"
    using wf_cache_of [of "[]"] by (simp add: wf_cache_def)
  ultimately show ?thesis
    using cache_version_monotone [of "(cache_of [])\<lparr>caVersion := 4\<rparr>" cache_io "(1, OpEvict)" "''v3''" 3 50 "[]" "[]"] by simp
qed

text \<open>
  C25. A one-use approval is handed out once. After a match returned it, no later match returns
  it again, whatever syncs, sessions, evictions, confirmations and matches happen in between, as
  long as nobody releases the reservation and the entry keeps the record.
\<close>

definition cache_run :: "float_io \<Rightarrow> (time \<times> cache_op) list \<Rightarrow> Cache \<Rightarrow> Cache" where
  "cache_run io ops c = fold (cache_step io) ops c"

lemma cache_run_taken:
  assumes "wf_cache c" and "taken c k a" and "a \<noteq> []"
    and "\<forall>i x. x \<in> set ops \<longrightarrow> snd x = OpRelease i a \<longrightarrow> key_of i \<noteq> k"
    and "\<forall>n \<le> length ops. cache_has (cache_run io (take n ops) c) k a"
  shows "wf_cache (cache_run io ops c) \<and> taken (cache_run io ops c) k a"
  using assms
proof (induction ops rule: rev_induct)
  case (snoc x ops)
  have n: "cache_has (cache_run io (take n ops) c) k a" if "n \<le> length ops" for n
    using snoc.prems(5) [rule_format, of n] that by simp
  have IH: "wf_cache (cache_run io ops c)" "taken (cache_run io ops c) k a"
    using snoc.IH [OF snoc.prems(1-3)] snoc.prems(4) n by auto
  have "cache_has (cache_step io x (cache_run io ops c)) k a"
    using snoc.prems(5) [rule_format, of "Suc (length ops)"] by (simp add: cache_run_def)
  moreover have "\<forall>i. snd x = OpRelease i a \<longrightarrow> key_of i \<noteq> k"
    using snoc.prems(4) [rule_format, of x] by simp
  ultimately have "taken (cache_step io x (cache_run io ops c)) k a"
    using taken_step [OF IH snoc.prems(3)] by blast
  with cache_step_wf [OF IH(1)] show ?case by (simp add: cache_run_def)
qed (simp add: cache_run_def)

lemma match_records_taken:
  assumes "match_records io sid tool args rs = (Some r, rs')" and "rs_taken (rcID r) rs"
  shows "permanently_denies tool r"
  using match_records_Some [OF assms(1)] assms(2)
  by (auto simp: rs_taken_def matchable_def split: if_splits)

lemma Match_takes:
  assumes wf: "wf_cache c" and m: "Match io now i sid tool args c = (Some r, c')"
    and once: "rcPersistence r = Some ''once''"
    and ids: "\<forall>e. map_of (caPairs c) (key_of i) = Some e \<longrightarrow> distinct (map rcID (peRecords e))"
  shows "wf_cache c' \<and> taken c' (key_of i) (rcID r) \<and> rcID r \<noteq> []"
proof -
  from Match_Some [OF wf m] obtain e e' rs where e: "map_of (caPairs c) (key_of i) = Some e" "shrunk e e'"
    and mr: "match_records io sid tool args (peRecords e') = (Some r, rs)"
    and c': "map_of (caPairs c') (key_of i) = Some (e'\<lparr>peLastSeen := now, peRecords := rs\<rparr>)"
    by (auto simp: go_map_simps)
  from e ids have d: "distinct (map rcID (peRecords e'))"
    by (auto simp: shrunk_def distinct_map_filter)
  from match_records_Some [OF mr] once obtain j where j: "j < length (peRecords e')" "matchable sid (peRecords e' ! j)"
    "r = (peRecords e' ! j)\<lparr>rcReserved := True\<rparr>" "rs = (peRecords e')[j := r]"
    by (auto simp: permanently_denies_def split: if_splits)
  have "q = r" if q: "q \<in> set rs" "rcID q = rcID r" for q
  proof -
    from q(1) j(4) obtain l where l: "l < length rs" "q = rs ! l" by (auto simp: in_set_conv_nth)
    with q(2) j(1,3,4) have "map rcID (peRecords e') ! l = map rcID (peRecords e') ! j"
      by (cases "l = j") auto
    with nth_eq_iff_index_eq [OF d, of l j] l(1) j(1,4) have "l = j" by simp
    with l j show ?thesis by simp
  qed
  moreover have "r \<in> set rs" using j by (simp add: set_update_memI)
  ultimately have "rs_has (rcID r) rs" "rs_taken (rcID r) rs"
    unfolding rs_has_def rs_taken_def j(3) by (blast, metis Record.select_convs(10) Record.surjective Record.update_convs(10))
  moreover have "rcID r \<noteq> []" using j(2,3) by (auto simp: matchable_def split: if_splits)
  ultimately show ?thesis using c' Match_wf [OF wf, of io now i sid tool args] m by (auto simp: taken_def)
qed

theorem once_matched_once:
  assumes wf: "wf_cache c" and m: "Match io now i sid tool args c = (Some r, c')"
    and once: "rcPersistence r = Some ''once''"
    and ids: "\<forall>e. map_of (caPairs c) (key_of i) = Some e \<longrightarrow> distinct (map rcID (peRecords e))"
    and rel: "\<forall>i' x. x \<in> set ops \<longrightarrow> snd x = OpRelease i' (rcID r) \<longrightarrow> key_of i' \<noteq> key_of i"
    and kept: "\<forall>n \<le> length ops. cache_has (cache_run io (take n ops) c') (key_of i) (rcID r)"
    and again: "Match io now' i sid' tool' args' (cache_run io ops c') = (Some r', c'')"
  shows "rcID r' \<noteq> rcID r \<or> permanently_denies tool' r'"
proof -
  from Match_takes [OF wf m once ids] have t: "wf_cache c'" "taken c' (key_of i) (rcID r)" "rcID r \<noteq> []" by auto
  from cache_run_taken [OF t rel kept] have u: "wf_cache (cache_run io ops c')" "taken (cache_run io ops c') (key_of i) (rcID r)"
    by auto
  from Match_Some [OF u(1) again] obtain e' rs where
    "map_of (caPairs (evictIdleLocked now' (cache_run io ops c'))) (key_of i) = Some e'"
    and mr: "match_records io sid' tool' args' (peRecords e') = (Some r', rs)" by blast
  with taken_evict [OF u] have "rs_taken (rcID r) (peRecords e')" by blast
  with match_records_taken [OF mr] show ?thesis by metis
qed

definition permanent_record :: Record where
  "permanent_record = once_record\<lparr>rcID := ''id2'', rcPersistence := Some ''permanent'', rcParamsPattern := []\<rparr>"

definition resync :: "(time \<times> cache_op) list" where
  "resync = [(41, OpReplace [\<lparr>paIdentity = sample_identity, paApprovals = [once_record, permanent_record]\<rparr>] ''v3'')]"

definition reserved_record :: Record where
  "reserved_record = once_record\<lparr>rcReserved := True\<rparr>"

definition cache_matched :: Cache where
  "cache_matched = (NewCache 1 1000 100)\<lparr>caPairs := [(key_of sample_identity,
     \<lparr>peRecords = [reserved_record, permanent_record], peLastSeen = 40, peSyncedAt = 30\<rparr>)], caLastSync := 30\<rparr>"

definition cache_resynced :: Cache where
  "cache_resynced = (NewCache 1 1000 100)\<lparr>caPairs := [(key_of sample_identity,
     \<lparr>peRecords = [reserved_record, permanent_record], peLastSeen = 40, peSyncedAt = 41\<rparr>)],
     caETag := ''v3'', caVersion := 3, caLastSync := 41\<rparr>"

lemma sample_first_match:
  "Match cache_io 40 sample_identity [] ''pay'' [(''to'', GString ''bob'')] (cache_of [once_record, permanent_record]) =
     (Some reserved_record, cache_matched)"
proof -
  have "match_records cache_io [] ''pay'' [(''to'', GString ''bob'')] [once_record, permanent_record] =
      (Some reserved_record, [reserved_record, permanent_record])"
    by code_simp
  then show ?thesis
    by (simp add: Match_def Let_def) (simp add: cache_of_def cache_matched_def NewCache_def)
qed

lemma sample_resync: "cache_run cache_io resync cache_matched = cache_resynced"
proof -
  have v: "parseSyncVersion ''v3'' = Some 3" by code_simp
  have c: "carry_over [reserved_record, permanent_record] once_record = reserved_record"
    "carry_over [reserved_record, permanent_record] permanent_record = permanent_record"
    by (simp_all add: carry_over_def reserved_record_def permanent_record_def once_record_def)
  show ?thesis
    by (simp add: cache_run_def resync_def cache_step_def Replace_def acceptVersionLocked_def v build_replacement_def
        snapshotEntry_def snapshotRecords_def Let_def cache_matched_def NewCache_def time_is_zero_def c cache_resynced_def)
qed

lemma sample_second_match:
  "\<exists>c''. Match cache_io 42 sample_identity [] ''pay'' [(''to'', GString ''bob'')] cache_resynced =
     (Some permanent_record, c'')"
proof -
  have "match_records cache_io [] ''pay'' [(''to'', GString ''bob'')] [reserved_record, permanent_record] =
      (Some permanent_record, [reserved_record, permanent_record])"
    by code_simp
  then show ?thesis
    by (simp add: Match_def Let_def evictIdleLocked_def cache_resynced_def NewCache_def freshLocked_def
        time_sub_def min_int64_def max_int64_def time_after_def time_is_zero_def)
qed

theorem once_matched_once_witness: "rcID permanent_record \<noteq> rcID reserved_record"
proof -
  obtain c'' where n: "Match cache_io 42 sample_identity [] ''pay'' [(''to'', GString ''bob'')]
      (cache_run cache_io resync cache_matched) = (Some permanent_record, c'')"
    using sample_second_match by (auto simp: sample_resync)
  have "cache_has (cache_run cache_io (take n resync) cache_matched) (key_of sample_identity) (rcID reserved_record)"
    if "n \<le> length resync" for n
  proof (cases n)
    case 0
    then show ?thesis by (simp add: cache_run_def cache_has_def rs_has_def cache_matched_def)
  next
    case (Suc m)
    with that have "take n resync = resync" by (simp add: resync_def)
    then show ?thesis by (simp add: sample_resync cache_has_def rs_has_def cache_resynced_def)
  qed
  moreover have "\<not> permanently_denies ''pay'' permanent_record" "rcPersistence reserved_record = Some ''once''"
    "distinct (map rcID [once_record, permanent_record])"
    by (simp_all add: permanently_denies_def permanent_record_def reserved_record_def once_record_def)
  ultimately show ?thesis
    using once_matched_once [OF wf_cache_of sample_first_match _ _ _ _ n] by (simp add: resync_def)
qed

end
