(* ===== verification/Approval_Gate.thy ===== *)
theory Approval_Gate
  imports Approval_Cache
begin

text \<open>
  \<^verbatim>\<open>internal/extproc/approval/gate.go\<close>, \<^verbatim>\<open>syncer.go\<close> and the response handling of
  \<^verbatim>\<open>client.go\<close>: the decision the gateway takes for one tool call. The \<^verbatim>\<open>Broker\<close> interface is
  a record of its methods over a state type; \<open>'b\<close> is the state of whatever answers the calls.
  A clock reading is an argument per cache call. Spans and counters are left out.
\<close>

section \<open>The broker interface\<close>

datatype client_error =
    StatusError (seOp: string) (seStatusCode: int)
  | OtherError string

record CreateRequest =
  crqMCPSessionID :: string
  crqAgentSessionID :: string
  crqInvocationID :: string
  crqDescription :: string
  crqToolName :: string
  crqArguments :: arguments
  crqRiskLevel :: string

record 'b broker_client =
  bcRead :: "string \<Rightarrow> string list \<Rightarrow> 'b \<Rightarrow> (client_error + Pair list \<times> string) \<times> 'b"
  bcCreate :: "string \<Rightarrow> CreateRequest \<Rightarrow> 'b \<Rightarrow> (client_error + string) \<times> 'b"
  bcConsume :: "string \<Rightarrow> string \<Rightarrow> 'b \<Rightarrow> client_error option \<times> 'b"

definition isRateLimited :: "client_error option \<Rightarrow> bool" where
  "isRateLimited err = (case err of Some (StatusError _ code) \<Rightarrow> code = 429 | _ \<Rightarrow> False)"

section \<open>The response handling of the client\<close>

text \<open>What the HTTP layer hands to \<^verbatim>\<open>Client.read\<close>: status, ETag header, and the decoded body
  (\<open>None\<close> when reading or decoding fails; the pairs are missing when the JSON has none).\<close>

record sync_pair =
  sxPrincipal :: string
  sxAgentID :: string
  sxApprovals :: "Record list"

record http_reply =
  hrStatus :: int
  hrETag :: string
  hrBody :: "sync_pair list option option"

definition read_pair :: "sync_pair \<Rightarrow> Pair" where
  "read_pair p = \<lparr>paIdentity = \<lparr>idPrincipal = sxPrincipal p, idAgentID = sxAgentID p\<rparr>, paApprovals = sxApprovals p\<rparr>"

definition client_read :: "string \<Rightarrow> http_reply \<Rightarrow> client_error + Pair list \<times> string \<times> bool" where
  "client_read etag resp =
     (if hrStatus resp = 304 then
        (if etag = [] then Inl (StatusError ''sync'' 304) else Inr ([], [], True))
      else if hrStatus resp \<noteq> 200 then Inl (StatusError ''sync'' (hrStatus resp))
      else if hrETag resp = [] then Inl (OtherError ''approval sync response missing ETag'')
      else case hrBody resp of
          None \<Rightarrow> Inl (OtherError ''decoding approval sync response'')
        | Some None \<Rightarrow> Inl (OtherError ''approval sync response missing data.pairs'')
        | Some (Some pairs) \<Rightarrow>
            if list_ex (\<lambda>p. \<not> Valid (paIdentity (read_pair p))) pairs
            then Inl (OtherError ''approval sync response contains pair without principal or agent_id'')
            else Inr (map read_pair pairs, hrETag resp, False))"

definition client_Read :: "http_reply \<Rightarrow> client_error + Pair list \<times> string" where
  "client_Read resp =
     (case client_read [] resp of
        Inl e \<Rightarrow> Inl e
      | Inr (pairs, etag, unchanged) \<Rightarrow>
          if unchanged then Inl (StatusError ''sync'' 304) else Inr (pairs, etag))"

definition client_Consume :: "string \<Rightarrow> string \<Rightarrow> int \<Rightarrow> client_error option" where
  "client_Consume subjectToken approvalID status =
     (if TrimSpace subjectToken = [] then Some (OtherError ''approval subject token must not be empty'')
      else if approvalID = [] then Some (OtherError ''approval ID must not be empty'')
      else if status \<noteq> 200 then Some (StatusError ''consume'' status)
      else None)"

section \<open>The gate\<close>

record Invocation =
  ivIdentity :: Identity
  ivToolName :: string
  ivArguments :: arguments
  ivAgentSessionID :: string
  ivMCPSessionID :: string
  ivRequestID :: string
  ivSubjectToken :: string
  ivDescription :: string
  ivRiskLevel :: string

record Outcome =
  ouProceed :: bool
  ouURL :: string
  ouReason :: string

definition deny_outcome :: "string \<Rightarrow> Outcome" where
  "deny_outcome reason = \<lparr>ouProceed = False, ouURL = [], ouReason = reason\<rparr>"

definition proceed_outcome :: Outcome where
  "proceed_outcome = \<lparr>ouProceed = True, ouURL = [], ouReason = []\<rparr>"

definition url_outcome :: "string \<Rightarrow> Outcome" where
  "url_outcome url = \<lparr>ouProceed = False, ouURL = url, ouReason = []\<rparr>"

definition em_dash :: string where
  "em_dash = [CHR 0xE2, CHR 0x80, CHR 0x94]"

definition enforceDecision ::
  "'b broker_client \<Rightarrow> Invocation \<Rightarrow> Record \<Rightarrow> Cache \<times> 'b \<Rightarrow> Outcome \<times> Cache \<times> 'b" where
  "enforceDecision B invocation rec = (\<lambda>(cache, b).
     if rcStatus rec = ''denied'' then (deny_outcome ''tool permanently denied'', cache, b)
     else if rcPersistence rec \<noteq> Some ''once'' then (proceed_outcome, cache, b)
     else case bcConsume B (ivSubjectToken invocation) (rcID rec) b of
         (Some _, b') \<Rightarrow>
           (deny_outcome ''approval could not be consumed'', Release (ivIdentity invocation) (rcID rec) cache, b')
       | (None, b') \<Rightarrow> (proceed_outcome, ConfirmConsumed (ivIdentity invocation) (rcID rec) cache, b'))"

definition create_request :: "Invocation \<Rightarrow> CreateRequest" where
  "create_request invocation =
     \<lparr>crqMCPSessionID = ivMCPSessionID invocation, crqAgentSessionID = ivAgentSessionID invocation,
      crqInvocationID = ivRequestID invocation,
      crqDescription = (if ivDescription invocation = [] then ''Approval required for '' @ ivToolName invocation
                        else ivDescription invocation),
      crqToolName = ivToolName invocation, crqArguments = ivArguments invocation, crqRiskLevel = ivRiskLevel invocation\<rparr>"

text \<open>The end of \<^verbatim>\<open>Evaluate\<close>: no decision is known, an approval is asked for.\<close>

definition elicit :: "'b broker_client \<Rightarrow> Invocation \<Rightarrow> Cache \<times> 'b \<Rightarrow> Outcome \<times> Cache \<times> 'b" where
  "elicit B invocation = (\<lambda>(cache, b).
     case bcCreate B (ivSubjectToken invocation) (create_request invocation) b of
       (Inl e, b') \<Rightarrow>
         (deny_outcome (if isRateLimited (Some e)
            then ''approval could not be initiated '' @ em_dash @ '' broker rate limit; retry shortly''
            else ''approval could not be initiated''), cache, b')
     | (Inr url, b') \<Rightarrow>
         if TrimSpace url = [] then (deny_outcome ''approval could not be initiated'', cache, b')
         else (url_outcome url, cache, b'))"

text \<open>The middle of \<^verbatim>\<open>Evaluate\<close>: the caller's approvals are read from the broker and matched
  again.\<close>

definition refresh ::
  "float_io \<Rightarrow> time \<Rightarrow> time \<Rightarrow> 'b broker_client \<Rightarrow> Invocation \<Rightarrow> Cache \<times> 'b \<Rightarrow> Outcome \<times> Cache \<times> 'b" where
  "refresh io t3 t4 B invocation = (\<lambda>(cache, b).
     case bcRead B (idPrincipal (ivIdentity invocation)) (ActiveSessions cache) b of
       (Inl e, b') \<Rightarrow>
         (deny_outcome (if isRateLimited (Some e)
            then ''approval state could not be refreshed '' @ em_dash @ '' broker rate limit; retry shortly''
            else ''approval state could not be refreshed''), cache, b')
     | (Inr (pairs, etag), b') \<Rightarrow>
         (case ReplaceForPrincipal t3 (idPrincipal (ivIdentity invocation)) pairs etag cache of
            (False, cache') \<Rightarrow> (deny_outcome ''approval state could not be refreshed'', cache', b')
          | (True, cache') \<Rightarrow>
              (case Match io t4 (ivIdentity invocation) (ivAgentSessionID invocation) (ivToolName invocation) (ivArguments invocation) cache' of
                 (Some rec, cache'') \<Rightarrow> enforceDecision B invocation rec (cache'', b')
               | (None, cache'') \<Rightarrow> elicit B invocation (cache'', b'))))"

definition Evaluate ::
  "float_io \<Rightarrow> time \<Rightarrow> time \<Rightarrow> time \<Rightarrow> time \<Rightarrow> 'b broker_client option \<Rightarrow> Invocation \<Rightarrow>
   Cache option \<times> 'b \<Rightarrow> Outcome \<times> Cache option \<times> 'b" where
  "Evaluate io t1 t2 t3 t4 broker invocation = (\<lambda>(gcache, b).
     case (gcache, broker) of
       (Some cache0, Some B) \<Rightarrow>
         if \<not> Valid (ivIdentity invocation) then (deny_outcome ''approval identity unavailable'', gcache, b)
         else if TrimSpace (ivSubjectToken invocation) = []
         then (deny_outcome ''approval subject token unavailable'', gcache, b)
         else
           let cache1 = RecordSession t1 (ivAgentSessionID invocation) cache0;
               (out, cache', b') =
                 (case Match io t2 (ivIdentity invocation) (ivAgentSessionID invocation) (ivToolName invocation) (ivArguments invocation) cache1 of
                    (Some rec, cache2) \<Rightarrow> enforceDecision B invocation rec (cache2, b)
                  | (None, cache2) \<Rightarrow> refresh io t3 t4 B invocation (cache2, b))
           in (out, Some cache', b')
     | _ \<Rightarrow> (deny_outcome ''approval gate unavailable'', gcache, b))"

section \<open>The sync loop\<close>

definition second :: duration where "second = 1000000000"

definition initialBackoff :: duration where "initialBackoff = second"

definition maximumBackoff :: duration where "maximumBackoff = 60 * second"

type_synonym poll_reply = "client_error + Pair list \<times> string \<times> bool"

definition Bootstrap :: "time \<Rightarrow> poll_reply \<Rightarrow> Cache \<Rightarrow> Cache" where
  "Bootstrap now reply cache =
     (case reply of Inl _ \<Rightarrow> cache | Inr (pairs, etag, _) \<Rightarrow> Replace now pairs etag cache)"

text \<open>One round of \<^verbatim>\<open>Run\<close>: the poll's reply is applied; the result is the next backoff, the
  time to wait before the next round, and the cache. Evictions by the ticker are
  \<^verbatim>\<open>EvictIdle\<close> steps between rounds.\<close>

definition sync_round :: "time \<Rightarrow> poll_reply \<Rightarrow> duration \<times> Cache \<Rightarrow> duration \<times> duration \<times> Cache" where
  "sync_round now reply = (\<lambda>(backoff, cache).
     case reply of
       Inr (pairs, etag, unchanged) \<Rightarrow>
         (second, 0, if unchanged then MarkSynced now cache else Replace now pairs etag cache)
     | Inl _ \<Rightarrow> (min (backoff * 2) maximumBackoff, backoff, cache))"

section \<open>Facts\<close>

lemma RecordSession_pairs:
  assumes "wf_cache c" and "map_of (caPairs (RecordSession t sid c)) k = Some e'"
  shows "\<exists>e. map_of (caPairs c) k = Some e \<and> shrunk e e'"
  using assms evict_pairs [OF assms(1), of t k e']
  by (auto simp: RecordSession_def Let_def split: if_splits)

lemma enforceDecision_proceeds:
  assumes "enforceDecision B invocation r (c, b) = (out, c', b')" and "ouProceed out"
  shows "rcStatus r \<noteq> ''denied'' \<and>
    (if rcPersistence r = Some ''once'' then bcConsume B (ivSubjectToken invocation) (rcID r) b = (None, b') else b' = b)"
  using assms
  by (auto simp: enforceDecision_def deny_outcome_def split: if_splits option.splits prod.splits)

lemma elicit_never_proceeds: "elicit B invocation (c, b) = (out, c', b') \<Longrightarrow> \<not> ouProceed out"
  by (auto simp: elicit_def deny_outcome_def url_outcome_def split: sum.splits prod.splits if_splits)

lemma refresh_proceeds:
  assumes "refresh io t3 t4 B invocation (c, b) = (out, c', b')" and "ouProceed out"
  shows "\<exists>pairs etag b1 c1 r c2. bcRead B (idPrincipal (ivIdentity invocation)) (ActiveSessions c) b = (Inr (pairs, etag), b1) \<and>
    ReplaceForPrincipal t3 (idPrincipal (ivIdentity invocation)) pairs etag c = (True, c1) \<and>
    Match io t4 (ivIdentity invocation) (ivAgentSessionID invocation) (ivToolName invocation) (ivArguments invocation) c1 = (Some r, c2) \<and>
    enforceDecision B invocation r (c2, b1) = (out, c', b')"
  using assms elicit_never_proceeds
  by (fastforce simp: refresh_def deny_outcome_def split: sum.splits prod.splits bool.splits option.splits if_splits)

lemma Evaluate_cases:
  assumes "Evaluate io t1 t2 t3 t4 (Some B) invocation (Some c, b) = (out, c', b')" and "ouProceed out"
  obtains (hit) r c2 c3 where "Valid (ivIdentity invocation)" "TrimSpace (ivSubjectToken invocation) \<noteq> []"
    "Match io t2 (ivIdentity invocation) (ivAgentSessionID invocation) (ivToolName invocation) (ivArguments invocation)
      (RecordSession t1 (ivAgentSessionID invocation) c) = (Some r, c2)"
    "enforceDecision B invocation r (c2, b) = (out, c3, b')" "c' = Some c3"
  | (miss) c2 c3 where "Valid (ivIdentity invocation)" "TrimSpace (ivSubjectToken invocation) \<noteq> []"
    "Match io t2 (ivIdentity invocation) (ivAgentSessionID invocation) (ivToolName invocation) (ivArguments invocation)
      (RecordSession t1 (ivAgentSessionID invocation) c) = (None, c2)"
    "refresh io t3 t4 B invocation (c2, b) = (out, c3, b')" "c' = Some c3"
  using assms
  by (auto simp: Evaluate_def Let_def deny_outcome_def split: if_splits prod.splits option.splits)

lemma from_response_reserved:
  assumes "from_response pairs k r"
  shows "from_response pairs k (r\<lparr>rcReserved := x\<rparr>)"
proof -
  from assms obtain pair :: Pair and q where q: "pair \<in> set pairs" "Valid (paIdentity pair)" "key_of (paIdentity pair) = k"
    "q \<in> set (paApprovals pair)" "r = q\<lparr>rcConsumed := rcConsumed r, rcReserved := rcReserved r\<rparr>" "rcConsumed q \<longrightarrow> rcConsumed r"
    unfolding from_response_def by blast
  have "r\<lparr>rcReserved := x\<rparr> = (q\<lparr>rcConsumed := rcConsumed r, rcReserved := rcReserved r\<rparr>)\<lparr>rcReserved := x\<rparr>"
    using q(5) by (rule arg_cong)
  then have "r\<lparr>rcReserved := x\<rparr> = q\<lparr>rcConsumed := rcConsumed (r\<lparr>rcReserved := x\<rparr>), rcReserved := rcReserved (r\<lparr>rcReserved := x\<rparr>)\<rparr>"
    by simp
  moreover have "rcConsumed q \<longrightarrow> rcConsumed (r\<lparr>rcReserved := x\<rparr>)" using q(6) by simp
  ultimately show ?thesis unfolding from_response_def using q(1-4) by blast
qed

text \<open>What licenses a call: an approved, unconsumed record that covers it, for this session.\<close>

definition licenses :: "float_io \<Rightarrow> Invocation \<Rightarrow> Record \<Rightarrow> bool" where
  "licenses io invocation r \<longleftrightarrow> rcStatus r = ''approved'' \<and> rcApprovedAt r \<noteq> None \<and> \<not> rcConsumed r \<and>
     Matches io (rcToolPattern r) (rcParamsPattern r) (ivToolName invocation) (ivArguments invocation) \<and>
     (rcPersistence r = Some ''session'' \<longrightarrow> rcAgentSessionID r = Some (ivAgentSessionID invocation))"

lemma Match_licenses:
  assumes "wf_cache c" and "Match io t (ivIdentity invocation) (ivAgentSessionID invocation) (ivToolName invocation) (ivArguments invocation) c = (Some r, c')"
    and "rcStatus r \<noteq> ''denied''"
  shows "licenses io invocation r \<and> (\<exists>e q. map_of (caPairs c) (key_of (ivIdentity invocation)) = Some e \<and>
    q \<in> set (peRecords e) \<and> freshLocked c e t \<and> r = q\<lparr>rcReserved := rcReserved r\<rparr>)"
proof -
  have "\<not> permanently_denies (ivToolName invocation) r" using assms(3) by (simp add: permanently_denies_def)
  from Match_Some [OF assms(1,2)] obtain e e' rs where v: "Valid (ivIdentity invocation)" "map_of (caPairs c) (key_of (ivIdentity invocation)) = Some e"
    and e: "shrunk e e'" "freshLocked c e' t"
    and m: "match_records io (ivAgentSessionID invocation) (ivToolName invocation) (ivArguments invocation) (peRecords e') = (Some r, rs)"
    by blast
  from e shrunkD have fresh: "freshLocked c e t" and sub: "set (peRecords e') \<subseteq> set (peRecords e)"
    by (auto simp: freshLocked_def)
  from match_records_Some [OF m] \<open>\<not> permanently_denies _ r\<close> obtain j where
    j: "j < length (peRecords e')" "matchable (ivAgentSessionID invocation) (peRecords e' ! j)"
      "Matches io (rcToolPattern (peRecords e' ! j)) (rcParamsPattern (peRecords e' ! j)) (ivToolName invocation) (ivArguments invocation)"
      "r = (if rcPersistence (peRecords e' ! j) = Some ''once''
            then (peRecords e' ! j)\<lparr>rcReserved := True\<rparr> else peRecords e' ! j)"
    by blast
  then have "licenses io invocation r" by (auto simp: licenses_def matchable_def split: if_splits)
  moreover have "r = (peRecords e' ! j)\<lparr>rcReserved := rcReserved r\<rparr>" using j(4) by simp
  moreover have "peRecords e' ! j \<in> set (peRecords e)" using j(1) sub by auto
  ultimately show ?thesis using v(2) fresh by blast
qed

lemma Evaluate_proceeds:
  assumes wf: "wf_cache c"
    and ev: "Evaluate io t1 t2 t3 t4 (Some B) invocation (Some c, b) = (out, c', b')" and ok: "ouProceed out"
  shows "Valid (ivIdentity invocation) \<and> TrimSpace (ivSubjectToken invocation) \<noteq> [] \<and>
    (\<exists>r b1. licenses io invocation r \<and>
       ((\<exists>e q. b1 = b \<and> map_of (caPairs c) (key_of (ivIdentity invocation)) = Some e \<and> q \<in> set (peRecords e) \<and>
           r = q\<lparr>rcReserved := rcReserved r\<rparr>) \<or>
        (\<exists>sessions pairs etag. bcRead B (idPrincipal (ivIdentity invocation)) sessions b = (Inr (pairs, etag), b1) \<and>
           from_response pairs (key_of (ivIdentity invocation)) r)) \<and>
       (if rcPersistence r = Some ''once''
        then bcConsume B (ivSubjectToken invocation) (rcID r) b1 = (None, b') else b' = b1))"
  using ev ok
proof (cases rule: Evaluate_cases)
  case (hit r c2 c3)
  note en = enforceDecision_proceeds [OF hit(4) ok]
  have wf1: "wf_cache (RecordSession t1 (ivAgentSessionID invocation) c)" using RecordSession_wf [OF wf] .
  from Match_licenses [OF wf1 hit(3)] en obtain e q where
    "licenses io invocation r" and e: "map_of (caPairs (RecordSession t1 (ivAgentSessionID invocation) c)) (key_of (ivIdentity invocation)) = Some e"
    and q: "q \<in> set (peRecords e)" "r = q\<lparr>rcReserved := rcReserved r\<rparr>" by blast
  moreover from RecordSession_pairs [OF wf e] q(1) shrunkD obtain e0 where
    "map_of (caPairs c) (key_of (ivIdentity invocation)) = Some e0" "q \<in> set (peRecords e0)" by blast
  ultimately show ?thesis using hit(1,2) en by blast
next
  case (miss c2 c3)
  from refresh_proceeds [OF miss(4) ok] obtain pairs etag b1 c4 r c5 where
    rd: "bcRead B (idPrincipal (ivIdentity invocation)) (ActiveSessions c2) b = (Inr (pairs, etag), b1)"
    and rp: "ReplaceForPrincipal t3 (idPrincipal (ivIdentity invocation)) pairs etag c2 = (True, c4)"
    and ma: "Match io t4 (ivIdentity invocation) (ivAgentSessionID invocation) (ivToolName invocation) (ivArguments invocation) c4 = (Some r, c5)"
    and en: "enforceDecision B invocation r (c5, b1) = (out, c3, b')" by blast
  have wf2: "wf_cache c2"
    using Match_wf [OF RecordSession_wf [OF wf]] miss(3) by (metis snd_conv)
  have p: "idPrincipal (ivIdentity invocation) \<noteq> []" using miss(1) by (simp add: Valid_def)
  have wf4: "wf_cache c4" using ReplaceForPrincipal_pairs [OF wf2 p rp] by blast
  note en' = enforceDecision_proceeds [OF en ok]
  from Match_licenses [OF wf4 ma] en' obtain e q where l: "licenses io invocation r"
    and e: "map_of (caPairs c4) (key_of (ivIdentity invocation)) = Some e" "q \<in> set (peRecords e)"
    and q: "r = q\<lparr>rcReserved := rcReserved r\<rparr>" by blast
  have "fst (key_of (ivIdentity invocation)) = idPrincipal (ivIdentity invocation)" by (simp add: key_of_def)
  with ReplaceForPrincipal_pairs [OF wf2 p rp, of "key_of (ivIdentity invocation)"] e(1)
  have "map_of (build_replacement (\<lambda>i. Valid i \<and> idPrincipal i = idPrincipal (ivIdentity invocation)) t3 (caPairs c2) pairs)
      (key_of (ivIdentity invocation)) = Some e" by simp
  from replacement_from_response [OF this _ e(2)] have "from_response pairs (key_of (ivIdentity invocation)) q" by blast
  from from_response_reserved [OF this, of "rcReserved r"] q
  have "from_response pairs (key_of (ivIdentity invocation)) r" by simp
  with l rd en' miss(1,2) show ?thesis by blast
qed

section \<open>Properties\<close>

text \<open>
  C6. The gate lets a call through only on an approval. When \<^verbatim>\<open>Evaluate\<close> says proceed, the
  caller is identified and has a subject token, and there is an approved, unconsumed record that
  covers the tool and its arguments and, if it is a session approval, is from this session; the
  record was in the caller's own cache entry or in what the broker just returned for the caller;
  and a one-use approval was consumed at the broker for this call.
\<close>

theorem Evaluate_proceeds_on_approval:
  assumes wf: "wf_cache c"
    and ev: "Evaluate io t1 t2 t3 t4 (Some B) invocation (Some c, b) = (out, c', b')" and ok: "ouProceed out"
  shows "Valid (ivIdentity invocation) \<and> TrimSpace (ivSubjectToken invocation) \<noteq> [] \<and>
    (\<exists>r b1. licenses io invocation r \<and>
       ((\<exists>e q. b1 = b \<and> map_of (caPairs c) (key_of (ivIdentity invocation)) = Some e \<and> q \<in> set (peRecords e) \<and>
           r = q\<lparr>rcReserved := rcReserved r\<rparr>) \<or>
        (\<exists>sessions pairs etag. bcRead B (idPrincipal (ivIdentity invocation)) sessions b = (Inr (pairs, etag), b1) \<and>
           from_response pairs (key_of (ivIdentity invocation)) r)) \<and>
       (if rcPersistence r = Some ''once''
        then bcConsume B (ivSubjectToken invocation) (rcID r) b1 = (None, b') else b' = b1))"
  by (rule Evaluate_proceeds [OF wf ev ok])

definition sample_invocation :: Invocation where
  "sample_invocation = \<lparr>ivIdentity = sample_identity, ivToolName = ''pay'', ivArguments = [(''to'', GString ''bob'')],
     ivAgentSessionID = [], ivMCPSessionID = [], ivRequestID = ''r1'', ivSubjectToken = ''tok'', ivDescription = [],
     ivRiskLevel = ''low''\<rparr>"

text \<open>A broker that counts the calls it answers.\<close>

definition counting_broker :: "Pair list \<Rightarrow> nat broker_client" where
  "counting_broker pairs = \<lparr>bcRead = (\<lambda>_ _ n. (Inr (pairs, ''v3''), n + 1)),
     bcCreate = (\<lambda>_ _ n. (Inr ''https://b/approvals/x'', n + 1)), bcConsume = (\<lambda>_ _ n. (None, n + 1))\<rparr>"

lemma sample_token: "TrimSpace ''tok'' \<noteq> []"
  by code_simp

lemma sample_evaluate:
  "\<exists>c'. Evaluate cache_io 40 40 41 42 (Some (counting_broker [])) sample_invocation (Some (cache_of [once_record]), 0) =
     (proceed_outcome, Some c', 1)"
proof -
  have "Match cache_io 40 sample_identity [] ''pay'' [(''to'', GString ''bob'')] (cache_of [once_record]) =
      (Some (once_record\<lparr>rcReserved := True\<rparr>),
       (cache_of [once_record])\<lparr>caPairs := AList.update (key_of sample_identity)
         \<lparr>peRecords = [once_record\<lparr>rcReserved := True\<rparr>], peLastSeen = 40, peSyncedAt = 30\<rparr> (caPairs (cache_of [once_record]))\<rparr>)"
    by (simp add: Match_def Let_def match_once_record)
  then show ?thesis
    using sample_token
    by (simp add: Evaluate_def sample_invocation_def RecordSession_def enforceDecision_def counting_broker_def
        once_record_def)
qed

theorem Evaluate_proceeds_on_approval_witness:
  "\<exists>c'. Evaluate cache_io 40 40 41 42 (Some (counting_broker [])) sample_invocation (Some (cache_of [once_record]), 0) =
     (proceed_outcome, Some c', 1) \<and> Valid (ivIdentity sample_invocation)"
proof -
  obtain c' where run: "Evaluate cache_io 40 40 41 42 (Some (counting_broker [])) sample_invocation (Some (cache_of [once_record]), 0) =
     (proceed_outcome, Some c', 1)"
    using sample_evaluate by blast
  have "ouProceed proceed_outcome" by (simp add: proceed_outcome_def)
  from Evaluate_proceeds_on_approval [OF wf_cache_of run this] run show ?thesis by blast
qed

text \<open>
  A permanent denial in the caller's fresh cache entry stops the call: the gate answers with
  the denial, makes no call to the broker and hands out no approval link, whatever approvals
  would also match.
\<close>

theorem Evaluate_denied:
  assumes wf: "wf_cache c" and v: "Valid (ivIdentity invocation)" and tok: "TrimSpace (ivSubjectToken invocation) \<noteq> []"
    and seen: "seen = RecordSession t1 (ivAgentSessionID invocation) c"
    and e: "map_of (caPairs (evictIdleLocked t2 seen)) (key_of (ivIdentity invocation)) = Some e" "freshLocked seen e t2"
    and d: "d \<in> set (peRecords e)" "permanently_denies (ivToolName invocation) d"
  shows "\<exists>c'. Evaluate io t1 t2 t3 t4 (Some B) invocation (Some c, b) =
    (deny_outcome ''tool permanently denied'', Some c', b)"
proof -
  have wf1: "wf_cache seen" unfolding seen using RecordSession_wf [OF wf] .
  have "find (permanently_denies (ivToolName invocation)) (peRecords e) \<noteq> None"
    using d by (auto simp: find_None_iff)
  then obtain r where r: "find (permanently_denies (ivToolName invocation)) (peRecords e) = Some r" by blast
  have "freshLocked (evictIdleLocked t2 seen) e t2"
    using e(2) evict_fields [OF wf1] by (simp add: freshLocked_def Let_def split: if_splits)
  with v e(1) match_records_denied [OF r] obtain c2 where
    "Match io t2 (ivIdentity invocation) (ivAgentSessionID invocation) (ivToolName invocation) (ivArguments invocation) seen = (Some r, c2)"
    by (simp add: Match_def Let_def)
  moreover have "rcStatus r = ''denied''" using find_SomeD [OF r] by (simp add: permanently_denies_def)
  ultimately show ?thesis
    using v tok seen by (simp add: Evaluate_def enforceDecision_def)
qed

theorem Evaluate_denied_witness:
  "\<exists>c'. Evaluate cache_io 40 40 41 42 (Some (counting_broker [])) sample_invocation
     (Some (cache_of [once_record, denied_record]), 0) = (deny_outcome ''tool permanently denied'', Some c', 0)"
  by (rule Evaluate_denied [where seen = "cache_of [once_record, denied_record]" and d = denied_record
      and e = "\<lparr>peRecords = [once_record, denied_record], peLastSeen = 30, peSyncedAt = 30\<rparr>"])
    (simp_all add: sample_invocation_def sample_token RecordSession_def permanently_denies_def denied_record_def
      once_record_def)

text \<open>
  C27. The gate fails closed. When the cache has no decision and the broker cannot be read, or
  answers with an older version than the cache has seen, the call is denied with a reason, no
  approval is created, and nothing is consumed.
\<close>

theorem Evaluate_fails_closed:
  assumes "Valid (ivIdentity invocation)" and "TrimSpace (ivSubjectToken invocation) \<noteq> []"
    and "Match io t2 (ivIdentity invocation) (ivAgentSessionID invocation) (ivToolName invocation) (ivArguments invocation)
      (RecordSession t1 (ivAgentSessionID invocation) c) = (None, c2)"
    and "bcRead B (idPrincipal (ivIdentity invocation)) (ActiveSessions c2) b = (reply, b1)"
    and "case reply of Inl _ \<Rightarrow> True | Inr (_, etag) \<Rightarrow> \<exists>v. parseSyncVersion etag = Some v \<and> v < caVersion c2"
  shows "\<exists>reason. reason \<noteq> [] \<and>
    Evaluate io t1 t2 t3 t4 (Some B) invocation (Some c, b) = (deny_outcome reason, Some c2, b1)"
proof (cases reply)
  case (Inl e)
  with assms(1-4) show ?thesis by (auto simp: Evaluate_def refresh_def)
next
  case (Inr x)
  obtain pairs etag where x: "x = (pairs, etag)" by force
  with Inr assms(5) obtain v where "parseSyncVersion etag = Some v" "v < caVersion c2" by auto
  with assms(1) have "ReplaceForPrincipal t3 (idPrincipal (ivIdentity invocation)) pairs etag c2 = (False, c2)"
    by (simp add: ReplaceForPrincipal_def acceptVersionLocked_def Valid_def)
  with assms(1-4) Inr x show ?thesis by (auto simp: Evaluate_def refresh_def)
qed

lemma match_empty: "match_records io sid tool args [] = (None, [])"
  by (simp add: match_records_def selectBest_def)

theorem Evaluate_fails_closed_witness:
  "\<exists>reason c2. reason \<noteq> [] \<and> Evaluate cache_io 40 40 41 42 (Some \<lparr>bcRead = (\<lambda>_ _ n. (Inl (StatusError ''sync'' 503), n)),
       bcCreate = (\<lambda>_ _ n. (Inr ''u'', n + 1)), bcConsume = (\<lambda>_ _ n. (None, n + 1))\<rparr>) sample_invocation
     (Some (cache_of []), 0 :: nat) = (deny_outcome reason, Some c2, 0)"
proof -
  obtain c2 where "Match cache_io 40 sample_identity [] ''pay'' [(''to'', GString ''bob'')] (cache_of []) = (None, c2)"
    by (simp add: Match_def Let_def match_empty)
  then show ?thesis
    using Evaluate_fails_closed [of sample_invocation cache_io 40 40 "cache_of []" c2
      "\<lparr>bcRead = (\<lambda>_ _ n. (Inl (StatusError ''sync'' 503), n)), bcCreate = (\<lambda>_ _ n. (Inr ''u'', n + 1)),
        bcConsume = (\<lambda>_ _ n. (None, n + 1))\<rparr>" "0 :: nat" "Inl (StatusError ''sync'' 503)" 0 41 42] sample_token
    by (auto simp: sample_invocation_def RecordSession_def)
qed

text \<open>
  While the broker is unreachable the sync loop waits exponentially longer, from one second
  up to one minute and never more, no duration overflows, and the cache is left alone; one
  successful poll brings the wait back to one second.
\<close>

definition failed_rounds :: "nat \<Rightarrow> duration \<times> Cache \<Rightarrow> duration \<times> Cache" where
  "failed_rounds n = ((\<lambda>s. case sync_round 0 (Inl (OtherError [])) s of (b, _, c) \<Rightarrow> (b, c)) ^^ n)"

theorem sync_backoff:
  "failed_rounds n (initialBackoff, c) = (min (2 ^ n * second) maximumBackoff, c) \<and>
   fst (failed_rounds n (initialBackoff, c)) * 2 \<le> max_int64 \<and>
   fst (sync_round now (Inr (pairs, etag, u)) (failed_rounds n (initialBackoff, c))) = initialBackoff"
proof -
  have r: "failed_rounds n (initialBackoff, c) = (min (2 ^ n * second) maximumBackoff, c)"
  proof (induction n)
    case 0
    then show ?case by (simp add: failed_rounds_def initialBackoff_def maximumBackoff_def second_def)
  next
    case (Suc n)
    have "failed_rounds (Suc n) (initialBackoff, c) =
        (case sync_round 0 (Inl (OtherError [])) (failed_rounds n (initialBackoff, c)) of (b, _, c) \<Rightarrow> (b, c))"
      by (simp add: failed_rounds_def)
    also have "\<dots> = (min (min (2 ^ n * second) maximumBackoff * 2) maximumBackoff, c)"
      unfolding Suc.IH by (simp add: sync_round_def)
    also have "min (min (2 ^ n * second) maximumBackoff * 2) maximumBackoff = min (2 ^ Suc n * second) maximumBackoff"
      by (simp add: min_def maximumBackoff_def second_def)
    finally show ?case .
  qed
  then show ?thesis
    by (simp add: maximumBackoff_def second_def max_int64_def sync_round_def initialBackoff_def min_def)
qed

end
