(* ===== verification/Approval_Service_Laws.thy ===== *)
theory Approval_Service_Laws
  imports Approval_Service "HOL-Library.Multiset"
begin

text \<open>
  What the approval service guarantees over any repository that keeps the contract
  \<open>approval_repository\<close>, and the resulting properties for the in-memory adapter.
\<close>

section \<open>Decisions\<close>

text \<open>A decision covers the reviewed call and names its tool only.\<close>

definition covers_call :: "float_io \<Rightarrow> ToolApproval \<Rightarrow> string \<Rightarrow> params_pattern \<Rightarrow> bool" where
  "covers_call io a tp pp \<longleftrightarrow>
     tp = EscapeLiteral (taToolName a) \<and> Matches io tp pp (taToolName a) (taArguments a)"

lemma resolveApprovalDecision_Inr:
  assumes "resolveApprovalDecision io a req = Inr d"
  shows "\<exists>pp. d = \<lparr>adPersistence = arPersistence req, adToolPattern = EscapeLiteral (taToolName a),
      adParamsPattern = Some pp\<rparr> \<and>
    pp = (case arParamsPattern req of None \<Rightarrow> ExactParams io (taArguments a) | Some m \<Rightarrow> m) \<and>
    ValidateToolPattern (EscapeLiteral (taToolName a)) = None \<and> ValidateParamsPattern pp = None \<and>
    covers_call io a (EscapeLiteral (taToolName a)) pp \<and>
    (arPersistence req = ApprovalPersistenceOnce \<longrightarrow> arParamsPattern req = None)"
  using assms
  by (auto simp: resolveApprovalDecision_def covers_call_def Let_def
      split: if_splits option.splits)

lemma resolve_tool_pattern_nonempty:
  "resolveApprovalDecision io a req = Inr d \<Longrightarrow> adToolPattern d \<noteq> []"
  by (auto dest!: resolveApprovalDecision_Inr simp: ValidateToolPattern_def)

text \<open>What a creation stores.\<close>

lemma ApplyExactPatterns_new:
  assumes "ApplyExactPatterns io (new_approval cfg now i req) = Inr a"
  shows "taID a = i" "pending_open a" "taStatus a = ApprovalStatusPending" "taPersistence a = None"
    "\<not> taConsumed a" "dedup_key a = dedup_key (new_approval cfg now i req)" "with_patterns a = a"
    "taPrincipal a = crPrincipal req" "taAgentID a = crAgentID req" "taToolName a = crToolName req"
    "taArguments a = crArguments req" "taToolPattern a = EscapeLiteral (taToolName a)"
    "taParamsPattern a = Some (ExactParams io (taArguments a))"
  using assms
  by (auto simp: ApplyExactPatterns_def Let_def new_approval_def dedup_key_def with_patterns_def
      pending_open_def split: option.splits)

lemma prepare_approve_Inr:
  assumes "prepare_approve R io now i p req s = Inr d"
  shows "\<exists>a. port_Get R i s = Inr a \<and> taPrincipal a = p \<and> EnsureApprovable a p now = None \<and>
    resolveApprovalDecision io a req = Inr d"
  using assms by (auto simp: prepare_approve_def split: sum.splits option.splits if_splits)

section \<open>Over the port's contract\<close>

context approval_repository
begin

lemma sync_world:
  assumes "invar (awRepo w)" and "syncApprovalMutation R w = (r, w')"
  shows "invar (awRepo w') \<and> absr (awRepo w') = absr (awRepo w) \<and> awLimiters w' = awLimiters w"
  using assms increment_Inr [OF assms(1)]
  by (auto simp: syncApprovalMutation_def broadcast_world_def
      split: if_splits prod.splits sum.splits dest: increment_Inl)

lemma finish_world:
  assumes "invar (awRepo w)" and "finish_mutation R b w = (r, w')"
  shows "invar (awRepo w') \<and> absr (awRepo w') = absr (awRepo w) \<and> awLimiters w' = awLimiters w \<and>
    (\<forall>x. r = Inr x \<longrightarrow> x = b)"
  using assms sync_world [OF assms(1)]
  by (auto simp: finish_mutation_def split: prod.splits option.splits)

text \<open>Every outcome of an approval: nothing happened, or the pending approval of the acting
  principal was decided; in the second case only raising the version can still fail.\<close>

lemma ApproveApproval_cases:
  assumes inv: "invar (awRepo w)"
    and eq: "ApproveApproval R io now rnow xnow i p req w = (r, w')"
  shows "(w' = w \<and> (\<exists>e. r = Inl e)) \<or>
    (\<exists>a d b s. absr (awRepo w) i = Some a \<and> taPrincipal a = p \<and> IsActionable a now \<and> IsActionable a rnow \<and>
       resolveApprovalDecision io a req = Inr d \<and> b = decide_approve (stored_decision d) now a \<and>
       port_Approve R rnow i d now (awRepo w) = (Inr b, s) \<and>
       finish_mutation R b (w\<lparr>awRepo := s\<rparr>) = (r, w') \<and>
       invar (awRepo w') \<and> absr (awRepo w') = (absr (awRepo w))(i \<mapsto> b))"
proof (cases "absr (awRepo w) i")
  case None
  from get_None [OF inv None] obtain e where "port_Get R i (awRepo w) = Inl e" by blast
  with eq show ?thesis by (auto simp: ApproveApproval_def prepare_approve_def)
next
  case (Some a)
  note g = get_Some [OF inv Some]
  show ?thesis
  proof (cases "taPrincipal a = p \<and> IsActionable a now \<and> (\<exists>d. resolveApprovalDecision io a req = Inr d)")
    case False
    with g eq show ?thesis
      by (cases "resolveApprovalDecision io a req")
        (auto simp: ApproveApproval_def prepare_approve_def EnsureApprovable_None split: if_splits option.splits)
  next
    case True
    then obtain d where d: "resolveApprovalDecision io a req = Inr d" by blast
    from True have pre: "EnsureApprovable a p now = None" "taPrincipal a = p"
      by (auto simp: EnsureApprovable_None)
    obtain q s where ps: "port_Approve R rnow i d now (awRepo w) = (q, s)" by force
    show ?thesis
    proof (cases q)
      case (Inl e)
      with ps approve_Inl have "s = awRepo w" by metis
      with eq g pre d ps Inl show ?thesis
        by (auto simp: ApproveApproval_def prepare_approve_def Approve_def Let_def)
    next
      case (Inr b)
      from approve_Inr [OF inv ps [unfolded Inr]] Some
      have b: "IsActionable a rnow" "b = decide_approve (stored_decision d) now a"
        "invar s" "absr s = (absr (awRepo w))(i \<mapsto> b)"
        by auto
      from eq g pre d ps Inr have fin: "finish_mutation R b (w\<lparr>awRepo := s\<rparr>) = (r, w')"
        by (auto simp: ApproveApproval_def prepare_approve_def Approve_def)
      from finish_world [OF _ fin] b have "invar (awRepo w')" "absr (awRepo w') = (absr (awRepo w))(i \<mapsto> b)"
        by auto
      with True Some d b ps Inr fin show ?thesis by blast
    qed
  qed
qed

lemma DenyApproval_cases:
  assumes inv: "invar (awRepo w)"
    and eq: "DenyApproval R now rnow xnow i p per w = (r, w')"
  shows "(w' = w \<and> (\<exists>e. r = Inl e)) \<or>
    (\<exists>a b s. absr (awRepo w) i = Some a \<and> taPrincipal a = p \<and> IsActionable a now \<and> IsActionable a rnow \<and>
       b = decide_deny per now a \<and> port_Deny R rnow i per now (awRepo w) = (Inr b, s) \<and>
       finish_mutation R b (w\<lparr>awRepo := s\<rparr>) = (r, w') \<and>
       invar (awRepo w') \<and> absr (awRepo w') = (absr (awRepo w))(i \<mapsto> b))"
proof (cases "absr (awRepo w) i")
  case None
  from get_None [OF inv None] obtain e where "port_Get R i (awRepo w) = Inl e" by blast
  with eq show ?thesis by (auto simp: DenyApproval_def prepare_deny_def)
next
  case (Some a)
  note g = get_Some [OF inv Some]
  show ?thesis
  proof (cases "taPrincipal a = p \<and> IsActionable a now")
    case False
    with g eq show ?thesis
      by (auto simp: DenyApproval_def prepare_deny_def Deny_def IsActionable_def split: if_splits)
  next
    case True
    then have pre: "Deny a p per now = Inr (decide_deny per now a)"
      by (simp add: Deny_Inr)
    obtain q s where ps: "port_Deny R rnow i per now (awRepo w) = (q, s)" by force
    show ?thesis
    proof (cases q)
      case (Inl e)
      with ps deny_Inl have "s = awRepo w" by metis
      with eq g pre True ps Inl show ?thesis
        by (auto simp: DenyApproval_def prepare_deny_def Let_def)
    next
      case (Inr b)
      from deny_Inr [OF inv ps [unfolded Inr]] Some
      have b: "IsActionable a rnow" "b = decide_deny per now a"
        "invar s" "absr s = (absr (awRepo w))(i \<mapsto> b)"
        by auto
      from eq g pre True ps Inr have fin: "finish_mutation R b (w\<lparr>awRepo := s\<rparr>) = (r, w')"
        by (auto simp: DenyApproval_def prepare_deny_def)
      from finish_world [OF _ fin] b have "invar (awRepo w')" "absr (awRepo w') = (absr (awRepo w))(i \<mapsto> b)"
        by auto
      with True Some b ps Inr fin show ?thesis by blast
    qed
  qed
qed

lemma ConsumeApproval_cases:
  assumes inv: "invar (awRepo w)"
    and eq: "ConsumeApproval R now i p w = (r, w')"
  shows "(w' = w \<and> ((\<exists>e. r = Inl e) \<or>
       (\<exists>a. r = Inr a \<and> absr (awRepo w) i = Some a \<and> taPrincipal a = p \<and> taConsumed a))) \<or>
    (\<exists>a b s. absr (awRepo w) i = Some a \<and> taPrincipal a = p \<and> \<not> taConsumed a \<and> consumable a \<and>
       b = decide_consume now a \<and> port_Consume R i now (awRepo w) = (Inr b, s) \<and>
       finish_mutation R b (w\<lparr>awRepo := s\<rparr>) = (r, w') \<and>
       invar (awRepo w') \<and> absr (awRepo w') = (absr (awRepo w))(i \<mapsto> b))"
proof (cases "absr (awRepo w) i")
  case None
  from get_None [OF inv None] obtain e where "port_Get R i (awRepo w) = Inl e" by blast
  with eq show ?thesis by (auto simp: ConsumeApproval_def prepare_consume_def)
next
  case (Some a)
  note g = get_Some [OF inv Some]
  show ?thesis
  proof (cases "taPrincipal a = p \<and> \<not> taConsumed a \<and> consumable a")
    case False
    with g eq Some show ?thesis
      by (auto simp: ConsumeApproval_def prepare_consume_def consumable_def split: if_splits)
  next
    case True
    then have pre: "taStatus a = ApprovalStatusApproved" "taPersistence a = Some ApprovalPersistenceOnce"
      by (auto simp: consumable_def)
    obtain q s where ps: "port_Consume R i now (awRepo w) = (q, s)" by force
    show ?thesis
    proof (cases q)
      case (Inl e)
      with ps consume_Inl have "s = awRepo w" by metis
      with eq g pre True ps Inl show ?thesis
        by (auto simp: ConsumeApproval_def prepare_consume_def Let_def split: if_splits)
    next
      case (Inr b)
      from consume_Inr [OF inv ps [unfolded Inr]] Some True
      have b: "b = decide_consume now a" "invar s" "absr s = (absr (awRepo w))(i \<mapsto> b)"
        by auto
      from eq g pre True ps Inr have fin: "finish_mutation R b (w\<lparr>awRepo := s\<rparr>) = (r, w')"
        by (auto simp: ConsumeApproval_def prepare_consume_def)
      from finish_world [OF _ fin] b have "invar (awRepo w')" "absr (awRepo w') = (absr (awRepo w))(i \<mapsto> b)"
        by auto
      with True Some b ps Inr fin show ?thesis by blast
    qed
  qed
qed

lemma RevokePermanentApproval_cases:
  assumes inv: "invar (awRepo w)"
    and eq: "RevokePermanentApproval R now i p w = (r, w')"
  shows "(w' = w \<and> (\<exists>e. r = Inl e)) \<or>
    (\<exists>a b s. absr (awRepo w) i = Some a \<and> taPrincipal a = p \<and> revocable a \<and>
       b = revoke_permanent now a \<and> port_RevokePermanent R i now (awRepo w) = (Inr b, s) \<and>
       finish_mutation R b (w\<lparr>awRepo := s\<rparr>) = (r, w') \<and>
       invar (awRepo w') \<and> absr (awRepo w') = (absr (awRepo w))(i \<mapsto> b))"
proof (cases "absr (awRepo w) i")
  case None
  from get_None [OF inv None] obtain e where "port_Get R i (awRepo w) = Inl e" by blast
  with eq show ?thesis by (auto simp: RevokePermanentApproval_def prepare_revoke_def)
next
  case (Some a)
  note g = get_Some [OF inv Some]
  show ?thesis
  proof (cases "taPrincipal a = p \<and> taPersistence a = Some ApprovalPersistencePermanent")
    case False
    with g eq show ?thesis
      by (auto simp: RevokePermanentApproval_def prepare_revoke_def split: if_splits)
  next
    case True
    obtain q s where ps: "port_RevokePermanent R i now (awRepo w) = (q, s)" by force
    show ?thesis
    proof (cases q)
      case (Inl e)
      with ps revoke_Inl have "s = awRepo w" by metis
      with eq g True ps Inl show ?thesis
        by (auto simp: RevokePermanentApproval_def prepare_revoke_def Let_def split: if_splits)
    next
      case (Inr b)
      from revoke_Inr [OF inv ps [unfolded Inr]] Some
      have b: "revocable a" "b = revoke_permanent now a" "invar s" "absr s = (absr (awRepo w))(i \<mapsto> b)"
        by auto
      from eq g True ps Inr have fin: "finish_mutation R b (w\<lparr>awRepo := s\<rparr>) = (r, w')"
        by (auto simp: RevokePermanentApproval_def prepare_revoke_def)
      from finish_world [OF _ fin] b have "invar (awRepo w')" "absr (awRepo w') = (absr (awRepo w))(i \<mapsto> b)"
        by auto
      with True Some b ps Inr fin show ?thesis by blast
    qed
  qed
qed

text \<open>A creation either hands back the open approval of the same call and touches no approval,
  or stores a new one and retires the run-out ones of the same call.\<close>

lemma store_new_approval_cases:
  fixes w :: "('st, 'l) approval_world"
  assumes inv: "invar (awRepo w)" and fresh: "absr (awRepo w) (taID a) = None" and pat: "with_patterns a = a"
    and eq: "store_new_approval R rnow a w = (r, w')"
  shows "(w' = w \<and> (\<exists>e. r = Inl e)) \<or>
    (w' = w \<and> (\<exists>b. r = Inr (existing_result b) \<and> absr (awRepo w) (taID b) = Some b \<and> pending_open b \<and>
       dedup_key b = dedup_key a \<and> \<not> IsExpired b rnow)) \<or>
    (invar (awRepo w') \<and> absr (awRepo w') = (\<lambda>j. map_option (retire rnow a) (absr (awRepo w) j))(taID a \<mapsto> a) \<and>
       (\<forall>x. r = Inr x \<longrightarrow> x = \<lparr>carApproval = a, carIsNew = True\<rparr>) \<and>
       (\<forall>e. r = Inl e \<longrightarrow> (\<exists>u :: ('st, 'l) approval_world. fst (syncApprovalMutation R u) = Some e)))"
proof -
  obtain q s where qs: "port_Create R rnow a (awRepo w) = (q, s)" by force
  show ?thesis
  proof (cases q)
    case (Inl e)
    with qs create_Inl have "s = awRepo w" by metis
    with eq qs Inl show ?thesis by (auto simp: store_new_approval_def)
  next
    case (Inr b)
    note cr = create_Inr [OF inv fresh qs [unfolded Inr]]
    show ?thesis
    proof (cases "taID b = taID a")
      case True
      with cr pat have s: "invar s" "b = a" "absr s = (\<lambda>j. map_option (retire rnow a) (absr (awRepo w) j))(taID a \<mapsto> a)"
        by auto
      obtain z w'' where z: "syncApprovalMutation R (w\<lparr>awRepo := s\<rparr>) = (z, w'')" by force
      from sync_world [OF _ z] s have w'': "invar (awRepo w'')" "absr (awRepo w'') = absr s" by auto
      show ?thesis
      proof (cases z)
        case None
        with eq qs Inr True z have "w' = w''" "r = Inr \<lparr>carApproval = b, carIsNew = True\<rparr>"
          by (auto simp: store_new_approval_def Let_def)
        with w'' s show ?thesis by auto
      next
        case (Some e)
        with eq qs Inr True z have "w' = w''" "r = Inl e" by (auto simp: store_new_approval_def Let_def)
        moreover have "fst (syncApprovalMutation R (w\<lparr>awRepo := s\<rparr>)) = Some e" using z Some by simp
        ultimately show ?thesis using w'' s by auto
      qed
    next
      case False
      with cr eq qs Inr show ?thesis
        by (auto simp: store_new_approval_def Let_def)
    qed
  qed
qed

lemma findExisting_Some:
  assumes "invar s" and "findExistingPendingApproval R cfg now rnow p ag tool h s = Inr (Some b)"
  shows "absr s (taID b) = Some b \<and> pending_open b \<and> \<not> IsExpired b rnow \<and> \<not> IsExpired b now \<and>
    dedup_key b = (p, ag, tool, h)"
proof -
  from assms(2) have "port_FindPendingByKey R rnow p ag tool h s = Inr (Some b)" "\<not> IsExpired b now"
    by (auto simp: findExistingPendingApproval_def split: if_splits sum.splits option.splits)
  with find_Inr [OF assms(1) this(1)] show ?thesis by simp
qed

lemma allow_creation_repo:
  "allow_creation cfg now req w = (ok, w') \<Longrightarrow>
   awRepo w' = awRepo w \<and> awBroadcaster w' = awBroadcaster w"
  by (auto simp: allow_creation_def split: option.splits prod.splits)

lemma prepare_create_Inr:
  assumes "prepare_create R cfg now rnow i req w = (Inr a, w')"
  shows "awRepo w' = awRepo w \<and> \<not> too_many_pending R cfg rnow req (awRepo w) \<and>
    ApplyExactPatterns (acFloats cfg) (new_approval cfg now i req) = Inr a"
  using assms
  by (auto simp: prepare_create_def Let_def dest: allow_creation_repo split: sum.splits option.splits prod.splits bool.splits if_splits)

lemma prepare_create_Inl:
  assumes inv: "invar (awRepo w)" and eq: "prepare_create R cfg now rnow i req w = (Inl r, w')"
  shows "awRepo w' = awRepo w \<and> ((\<exists>e. r = Inl e) \<or>
    (\<exists>b. r = Inr (existing_result b) \<and> absr (awRepo w) (taID b) = Some b \<and>
       pending_open b \<and> dedup_key b = dedup_key (new_approval cfg now i req) \<and> \<not> IsExpired b rnow))"
proof -
  let ?h = "acArgumentsHash cfg (crArguments req)"
  let ?find = "\<lambda>u. findExistingPendingApproval R cfg now rnow (crPrincipal req) (crAgentID req)
    (crToolName req) ?h (awRepo u)"
  have key: "dedup_key (new_approval cfg now i req) = (crPrincipal req, crAgentID req, crToolName req, ?h)"
    by (simp add: dedup_key_def new_approval_def)
  have old: "absr (awRepo w) (taID b) = Some b \<and> pending_open b \<and>
      dedup_key b = dedup_key (new_approval cfg now i req) \<and> \<not> IsExpired b rnow" if "?find w = Inr (Some b)" for b
    using findExisting_Some [OF inv that] unfolding key by blast
  obtain ok u where al: "allow_creation cfg now req w = (ok, u)" by force
  from allow_creation_repo [OF al] have u: "awRepo u = awRepo w" by simp
  consider e where "?find w = Inl e" | b where "?find w = Inr (Some b)" | "?find w = Inr None"
    by (cases "?find w") auto
  then show ?thesis
  proof cases
    case (2 b)
    with eq have "w' = w" "r = Inr (existing_result b)" by (auto simp: prepare_create_def Let_def)
    with old [OF 2] show ?thesis by blast
  next
    case 3
    with eq al u show ?thesis
      by (cases ok) (auto simp: prepare_create_def Let_def split: if_splits sum.splits)
  qed (use eq in \<open>auto simp: prepare_create_def Let_def\<close>)
qed

lemma CreatePendingApproval_cases:
  fixes w :: "('st, 'l) approval_world"
  assumes inv: "invar (awRepo w)" and fresh: "absr (awRepo w) i = None"
    and eq: "CreatePendingApproval R cfg now rnow i req w = (r, w')"
  shows "(awRepo w' = awRepo w \<and> (\<exists>e. r = Inl e)) \<or>
    (awRepo w' = awRepo w \<and> (\<exists>b. r = Inr (existing_result b) \<and> absr (awRepo w) (taID b) = Some b \<and>
       pending_open b \<and> dedup_key b = dedup_key (new_approval cfg now i req) \<and> \<not> IsExpired b rnow)) \<or>
    (\<exists>a. ApplyExactPatterns (acFloats cfg) (new_approval cfg now i req) = Inr a \<and>
       \<not> too_many_pending R cfg rnow req (awRepo w) \<and>
       invar (awRepo w') \<and> absr (awRepo w') = (\<lambda>j. map_option (retire rnow a) (absr (awRepo w) j))(i \<mapsto> a) \<and>
       (\<forall>x. r = Inr x \<longrightarrow> x = \<lparr>carApproval = a, carIsNew = True\<rparr>) \<and>
       (\<forall>e. r = Inl e \<longrightarrow> (\<exists>u :: ('st, 'l) approval_world. fst (syncApprovalMutation R u) = Some e)))"
proof -
  obtain z u where z: "prepare_create R cfg now rnow i req w = (z, u)" by (metis surj_pair)
  show ?thesis
  proof (cases z)
    case (Inl x)
    with eq z have "r = x" "w' = u" by (auto simp: CreatePendingApproval_def)
    with prepare_create_Inl [OF inv z [unfolded Inl]] show ?thesis by blast
  next
    case (Inr a)
    note pre = prepare_create_Inr [OF z [unfolded Inr]]
    then have a: "ApplyExactPatterns (acFloats cfg) (new_approval cfg now i req) = Inr a" and u: "awRepo u = awRepo w"
      by blast+
    note new = ApplyExactPatterns_new(1,6,7) [OF a]
    from eq z Inr have st: "store_new_approval R rnow a u = (r, w')" by (auto simp: CreatePendingApproval_def)
    have "dedup_key a = dedup_key (new_approval cfg now i req)" using new(2) by simp
    with store_new_approval_cases [OF _ _ new(3) st] inv fresh u new(1) pre a show ?thesis by auto
  qed
qed

text \<open>Asking again for a call whose approval is open returns that approval and changes nothing.\<close>

lemma CreatePendingApproval_existing:
  assumes inv: "invar (awRepo w)" and q: "acHasQueries cfg"
    and ok: "port_FindPendingByKey R rnow (crPrincipal req) (crAgentID req) (crToolName req)
        (acArgumentsHash cfg (crArguments req)) (awRepo w) = Inr r"
    and b: "absr (awRepo w) j = Some b" "pending_open b" "\<not> IsExpired b rnow" "\<not> IsExpired b now"
      "dedup_key b = (crPrincipal req, crAgentID req, crToolName req, acArgumentsHash cfg (crArguments req))"
  shows "CreatePendingApproval R cfg now rnow i req w = (Inr (existing_result b), w)"
proof -
  from find_Inr [OF inv ok] b obtain c where c: "r = Some c" "absr (awRepo w) (taID c) = Some c"
    "pending_open c" "dedup_key c = dedup_key b"
    by (cases r) auto
  with invar_unique [OF inv] b(1,2) have "taID c = j"
    unfolding unique_open_def by metis
  with c b have "r = Some b" by simp
  with ok q b show ?thesis
    by (simp add: CreatePendingApproval_def prepare_create_def findExistingPendingApproval_def Let_def)
qed

end

section \<open>The in-memory adapter\<close>

lemma finish_memory:
  "finish_mutation memory_port b w =
     (Inr b, broadcast_world (w\<lparr>awRepo := (awRepo w)\<lparr>amVersion := wrap_int64 (amVersion (awRepo w) + 1)\<rparr>\<rparr>))"
  by (simp add: finish_mutation_def syncApprovalMutation_def repo_IncrementVersion_def Let_def)

lemma awRepo_broadcast [simp]: "awRepo (broadcast_world w) = awRepo w"
  by (simp add: broadcast_world_def)

lemma mem_abs_version [simp]: "mem_abs (s\<lparr>amVersion := v\<rparr>) = mem_abs s"
  by (simp add: mem_abs_def)

lemma mem_invar_version [simp]: "mem_invar (s\<lparr>amVersion := v\<rparr>) = mem_invar s"
  by (simp add: mem_invar_def)

lemma ApproveApproval_memory:
  assumes inv: "mem_invar (awRepo w)"
    and eq: "ApproveApproval memory_port io now rnow xnow i p req w = (r, w')"
  shows "(w' = w \<and> (\<exists>e. r = Inl e)) \<or>
    (\<exists>a d. mem_abs (awRepo w) i = Some a \<and> taPrincipal a = p \<and> IsActionable a now \<and> IsActionable a rnow \<and>
       resolveApprovalDecision io a req = Inr d \<and> r = Inr (decide_approve (stored_decision d) now a) \<and>
       mem_invar (awRepo w') \<and>
       mem_abs (awRepo w') = (mem_abs (awRepo w))(i \<mapsto> decide_approve (stored_decision d) now a) \<and>
       amVersion (awRepo w') = wrap_int64 (amVersion (awRepo w) + 1))"
  using mem.ApproveApproval_cases [OF inv eq]
proof (elim disjE exE conjE, goal_cases)
  case (2 a d b s)
  then have "amVersion s = amVersion (awRepo w)"
    using mem.approve_Inr [OF inv] by blast
  with 2 show ?case by (auto simp: finish_memory)
qed simp

text \<open>A sample broker state for the witnesses: one pending approval of alice for a call of
  \<^verbatim>\<open>pay\<close>, valid until time 100.\<close>

definition sample_io :: float_io where
  "sample_io = \<lparr>FormatFloat = (\<lambda>_. ''0''), WidenFloat32 = ucast, NumberFloat64 = (\<lambda>_. None)\<rparr>"

definition sample_request :: CreateApprovalRequest where
  "sample_request = \<lparr>crPrincipal = ''alice'', crAgentID = ''agent'', crGatewayClientID = ''gw'',
     crToolName = ''pay'', crArguments = [(''to'', GString ''bob'')], crDescription = '''',
     crRiskLevel = ''Low'', crMCPSessionID = None, crAgentSessionID = None,
     crToolInvocationID = None, crTraceparent = None\<rparr>"

definition sample_config :: "nat approval_config" where
  "sample_config = \<lparr>acHasQueries = True, acHasMetrics = True,
     acRateLimiter = Some \<lparr>maxPending = 2, ratePerMin = 5, rlNew = nat, rlAllow = (\<lambda>_ l. (0 < l, l - 1))\<rparr>,
     acAgents = None, acPendingTTL = 90, acPublicURL = ''https://b'', acFloats = sample_io,
     acArgumentsHash = (\<lambda>args. Join (map fst args) '','')\<rparr>"

definition sample_world :: "(approval_mem, nat) approval_world" where
  "sample_world = \<lparr>awRepo = new_approval_mem, awLimiters = [], awBroadcaster = None\<rparr>"

definition sample_approval :: ToolApproval where
  "sample_approval = (new_approval sample_config 10 ''id1'' sample_request)
     \<lparr>taToolPattern := ''pay'', taParamsPattern := Some [(''to'', ''bob'')]\<rparr>"

definition sample_pending :: "(approval_mem, nat) approval_world" where
  "sample_pending = sample_world\<lparr>awRepo := \<lparr>amApprovals = [(''id1'', sample_approval)], amVersion = 1\<rparr>\<rparr>"

lemmas sample_defs = sample_io_def sample_request_def sample_config_def sample_world_def
  sample_approval_def sample_pending_def new_approval_mem_def new_approval_def

lemma sample_pending_invar [simp]: "mem_invar (awRepo sample_pending)"
  by (auto simp: mem_invar_def mem_abs_def unique_open_def sample_pending_def sample_approval_def
      new_approval_def split: if_splits)

lemma sample_world_invar [simp]: "mem_invar (awRepo sample_world)"
  by (simp add: mem_invar_def mem_abs_def unique_open_def sample_world_def new_approval_mem_def)

lemma sample_get [simp]: "repo_Get ''id1'' (awRepo sample_pending) = Inr sample_approval"
  by (simp add: repo_Get_def sample_pending_def)

section \<open>Properties\<close>

text \<open>
  C5. An approval is granted only by its own principal while it is pending and unexpired, both
  when the service reads it and when the store commits; what is stored names exactly the
  reviewed tool, covers the reviewed call, keeps the identity of the request, and raises the
  sync version by one. No other approval changes.
\<close>

theorem ApproveApproval_grants_reviewed_call:
  assumes "mem_invar (awRepo w)"
    and "ApproveApproval memory_port io now rnow xnow i p req w = (Inr b, w')"
  shows "\<exists>a pp. mem_abs (awRepo w) i = Some a \<and> taPrincipal a = p \<and>
    IsActionable a now \<and> IsActionable a rnow \<and> same_request a b \<and>
    taStatus b = ApprovalStatusApproved \<and> taPersistence b = Some (arPersistence req) \<and>
    taParamsPattern b = Some pp \<and> (\<forall>t args. Matches io (taToolPattern b) pp t args \<longrightarrow> t = taToolName a) \<and>
    Matches io (taToolPattern b) pp (taToolName a) (taArguments a) \<and>
    (arPersistence req = ApprovalPersistenceOnce \<longrightarrow> pp = ExactParams io (taArguments a)) \<and>
    mem_invar (awRepo w') \<and> mem_abs (awRepo w') = (mem_abs (awRepo w))(i \<mapsto> b) \<and>
    amVersion (awRepo w') = wrap_int64 (amVersion (awRepo w) + 1)"
proof -
  from ApproveApproval_memory [OF assms] obtain a d where
    a: "mem_abs (awRepo w) i = Some a" "taPrincipal a = p" "IsActionable a now" "IsActionable a rnow"
    and d: "resolveApprovalDecision io a req = Inr d" and b: "b = decide_approve (stored_decision d) now a"
    and w': "mem_invar (awRepo w')" "mem_abs (awRepo w') = (mem_abs (awRepo w))(i \<mapsto> b)"
      "amVersion (awRepo w') = wrap_int64 (amVersion (awRepo w) + 1)"
    by auto
  from resolveApprovalDecision_Inr [OF d] obtain pp where
    pp: "adToolPattern d = EscapeLiteral (taToolName a)" "adParamsPattern d = Some pp"
      "adPersistence d = arPersistence req" "covers_call io a (EscapeLiteral (taToolName a)) pp"
      "arPersistence req = ApprovalPersistenceOnce \<longrightarrow> pp = ExactParams io (taArguments a)"
    by auto
  then have "\<forall>t args. Matches io (EscapeLiteral (taToolName a)) pp t args \<longrightarrow> t = taToolName a"
    by (simp add: Matches_iff)
  with a b w' pp show ?thesis
    by (auto simp: covers_call_def)
qed

theorem ApproveApproval_grants_reviewed_call_witness:
  "\<exists>w' b. ApproveApproval memory_port sample_io 20 21 22 ''id1'' ''alice''
      \<lparr>arPersistence = ApprovalPersistenceOnce, arParamsPattern = None\<rparr> sample_pending = (Inr b, w') \<and>
    taStatus b = ApprovalStatusApproved \<and> amVersion (awRepo w') = 2"
proof -
  obtain r w' where run: "ApproveApproval memory_port sample_io 20 21 22 ''id1'' ''alice''
      \<lparr>arPersistence = ApprovalPersistenceOnce, arParamsPattern = None\<rparr> sample_pending = (r, w')"
    by force
  moreover have "\<not> isl (fst (ApproveApproval memory_port sample_io 20 21 22 ''id1'' ''alice''
      \<lparr>arPersistence = ApprovalPersistenceOnce, arParamsPattern = None\<rparr> sample_pending))"
    by code_simp
  ultimately obtain b where "r = Inr b" by (cases r) auto
  with ApproveApproval_grants_reviewed_call [OF sample_pending_invar run [unfolded this]] run
  have "taStatus b = ApprovalStatusApproved"
    and "amVersion (awRepo w') = wrap_int64 (amVersion (awRepo sample_pending) + 1)"
    by auto
  with run \<open>r = Inr b\<close> show ?thesis
    by (auto simp: sample_pending_def wrap_int64_def)
qed

text \<open>
  A refused operation has no effect: whenever approving, denying, consuming or revoking
  returns an error, the broker's whole state is what it was.
\<close>

theorem refused_mutations_change_nothing:
  assumes "mem_invar (awRepo w)"
    and "(Inl e, w') \<in> {ApproveApproval memory_port io now rnow xnow i p req w,
           DenyApproval memory_port now rnow xnow i p per w,
           ConsumeApproval memory_port now i p w, RevokePermanentApproval memory_port now i p w}"
  shows "w' = w"
proof -
  from assms(2) consider (approve) "ApproveApproval memory_port io now rnow xnow i p req w = (Inl e, w')"
    | (deny) "DenyApproval memory_port now rnow xnow i p per w = (Inl e, w')"
    | (consume) "ConsumeApproval memory_port now i p w = (Inl e, w')"
    | (revoke) "RevokePermanentApproval memory_port now i p w = (Inl e, w')"
    by auto
  then show ?thesis
  proof cases
    case approve
    from mem.ApproveApproval_cases [OF assms(1) this] show ?thesis by (auto simp: finish_memory)
  next
    case deny
    from mem.DenyApproval_cases [OF assms(1) this] show ?thesis by (auto simp: finish_memory)
  next
    case consume
    from mem.ConsumeApproval_cases [OF assms(1) this] show ?thesis by (auto simp: finish_memory)
  next
    case revoke
    from mem.RevokePermanentApproval_cases [OF assms(1) this] show ?thesis by (auto simp: finish_memory)
  qed
qed

theorem refused_mutations_change_nothing_witness:
  "snd (ConsumeApproval memory_port 20 ''id1'' ''alice'' sample_pending) = sample_pending"
proof -
  have "fst (ConsumeApproval memory_port 20 ''id1'' ''alice'' sample_pending) = Inl ErrApprovalNotConsumable"
    by (simp add: ConsumeApproval_def prepare_consume_def sample_approval_def sample_request_def new_approval_def)
  then have "(Inl ErrApprovalNotConsumable, snd (ConsumeApproval memory_port 20 ''id1'' ''alice'' sample_pending)) =
      ConsumeApproval memory_port 20 ''id1'' ''alice'' sample_pending"
    by (simp add: prod_eq_iff)
  then show ?thesis
    using refused_mutations_change_nothing [OF sample_pending_invar, where e = ErrApprovalNotConsumable
        and now = 20 and i = "''id1''" and p = "''alice''"
        and w' = "snd (ConsumeApproval memory_port 20 ''id1'' ''alice'' sample_pending)"]
    by simp
qed

text \<open>
  The error of a refused approve is the documented one: an unknown id is not found, another
  principal's approval is forbidden whatever its state, a decided one is not pending, and one
  that ran out is gone, also when it runs out between the service's check and the commit.
\<close>

theorem ApproveApproval_errors:
  assumes "mem_invar (awRepo w)" and "rnow \<le> xnow"
  shows "fst (ApproveApproval memory_port io now rnow xnow i p req w) =
    (case mem_abs (awRepo w) i of
       None \<Rightarrow> Inl ErrApprovalNotFound
     | Some a \<Rightarrow>
         if taPrincipal a \<noteq> p then Inl ErrApprovalForbidden
         else if taStatus a \<noteq> ApprovalStatusPending then Inl ErrApprovalNotPending
         else if IsExpired a now then Inl ErrApprovalGone
         else case resolveApprovalDecision io a req of
             Inl e \<Rightarrow> Inl e
           | Inr d \<Rightarrow> if IsExpired a rnow then Inl ErrApprovalGone
                     else Inr (decide_approve (stored_decision d) now a))"
proof (cases "mem_abs (awRepo w) i")
  case None
  then show ?thesis
    by (simp add: ApproveApproval_def prepare_approve_def repo_Get_def mem_abs_def get_error_def not_found_def)
next
  case (Some a)
  then have g: "repo_Get i (awRepo w) = Inr a" "map_of (amApprovals (awRepo w)) i = Some a"
    by (simp_all add: repo_Get_def mem_abs_def)
  show ?thesis
  proof (cases "resolveApprovalDecision io a req")
    case (Inl e)
    with Some g show ?thesis
      by (simp add: ApproveApproval_def prepare_approve_def EnsureApprovable_def domain_error_def)
  next
    case (Inr d)
    have "IsExpired a rnow \<Longrightarrow> IsExpired a xnow"
      using assms(2) by (simp add: IsExpired_def time_after_def)
    with Some g Inr resolve_tool_pattern_nonempty [OF Inr] show ?thesis
      by (auto simp: ApproveApproval_def prepare_approve_def EnsureApprovable_def domain_error_def Approve_def finish_memory
          repo_Approve_def resolveApprovalMutationError_def not_found_def Let_def decide_approve_def)
  qed
qed

theorem ApproveApproval_errors_witness:
  "fst (ApproveApproval memory_port sample_io 99 101 102 ''id1'' ''alice''
     \<lparr>arPersistence = ApprovalPersistenceOnce, arParamsPattern = None\<rparr> sample_pending) = Inl ErrApprovalGone \<and>
   fst (ApproveApproval memory_port sample_io 99 101 102 ''id1'' ''mallory''
     \<lparr>arPersistence = ApprovalPersistenceOnce, arParamsPattern = None\<rparr> sample_pending) = Inl ErrApprovalForbidden"
proof -
  have m: "mem_abs (awRepo sample_pending) ''id1'' = Some sample_approval"
    by (simp add: mem_abs_def sample_pending_def)
  have f: "taPrincipal sample_approval = ''alice''" "taStatus sample_approval = ApprovalStatusPending"
    "\<not> IsExpired sample_approval 99" "IsExpired sample_approval 101"
    by (simp_all add: sample_defs IsExpired_def time_after_def)
  have d: "\<not> isl (resolveApprovalDecision sample_io sample_approval
      \<lparr>arPersistence = ApprovalPersistenceOnce, arParamsPattern = None\<rparr>)"
    by code_simp
  then obtain d where "resolveApprovalDecision sample_io sample_approval
      \<lparr>arPersistence = ApprovalPersistenceOnce, arParamsPattern = None\<rparr> = Inr d"
    by (cases "resolveApprovalDecision sample_io sample_approval
      \<lparr>arPersistence = ApprovalPersistenceOnce, arParamsPattern = None\<rparr>") auto
  then show ?thesis
    using ApproveApproval_errors [OF sample_pending_invar, of 101 102] by (simp add: m f)
qed

text \<open>
  A once approval is spent exactly once: consuming a fresh one marks it, and every later
  consume by the principal returns the same record, with the first consumption time, and
  changes nothing, not even the version.
\<close>

theorem ConsumeApproval_once:
  assumes "mem_invar (awRepo w)" and "ConsumeApproval memory_port now i p w = (Inr b, w')"
  shows "taConsumed b \<and> mem_abs (awRepo w') = (mem_abs (awRepo w))(i \<mapsto> b) \<and> taPrincipal b = p \<and>
    ConsumeApproval memory_port later i p w' = (Inr b, w')"
proof -
  have b: "mem_invar (awRepo w') \<and> mem_abs (awRepo w') = (mem_abs (awRepo w))(i \<mapsto> b) \<and>
      taPrincipal b = p \<and> taConsumed b"
    using mem.ConsumeApproval_cases [OF assms] assms(1) by (auto simp: finish_memory fun_upd_idem)
  then have "repo_Get i (awRepo w') = Inr b"
    by (simp add: repo_Get_def mem_abs_def)
  with b show ?thesis by (simp add: ConsumeApproval_def prepare_consume_def)
qed

definition sample_approved :: "(approval_mem, nat) approval_world" where
  "sample_approved = snd (ApproveApproval memory_port sample_io 20 21 22 ''id1'' ''alice''
      \<lparr>arPersistence = ApprovalPersistenceOnce, arParamsPattern = None\<rparr> sample_pending)"

lemma sample_approved_invar: "mem_invar (awRepo sample_approved)"
  using ApproveApproval_memory [OF sample_pending_invar surjective_pairing]
    sample_pending_invar
  unfolding sample_approved_def by metis

theorem ConsumeApproval_once_witness:
  "ConsumeApproval memory_port 50 ''id1'' ''alice''
     (snd (ConsumeApproval memory_port 30 ''id1'' ''alice'' sample_approved)) =
   ConsumeApproval memory_port 30 ''id1'' ''alice'' sample_approved"
proof -
  have "\<not> isl (fst (ConsumeApproval memory_port 30 ''id1'' ''alice'' sample_approved))"
    by code_simp
  then obtain b w' where run: "ConsumeApproval memory_port 30 ''id1'' ''alice'' sample_approved = (Inr b, w')"
    by (metis isl_def prod.collapse sumE)
  from ConsumeApproval_once [OF sample_approved_invar run, of 50] run show ?thesis by simp
qed

text \<open>
  Creating an approval is idempotent: while the approval a request got is pending and has
  not run out, the same request returns that very approval, marked as not new, and changes
  neither the store nor the rate limiter.
\<close>

theorem CreatePendingApproval_idempotent:
  assumes "mem_invar (awRepo w)" and "mem_abs (awRepo w) i = None" and "acHasQueries cfg"
    and "CreatePendingApproval memory_port cfg now rnow i req w = (Inr x, w')"
    and "\<not> IsExpired (carApproval x) now'" and "\<not> IsExpired (carApproval x) rnow'"
  shows "CreatePendingApproval memory_port cfg now' rnow' j req w' = (Inr (existing_result (carApproval x)), w')"
proof -
  let ?b = "carApproval x"
  have key: "dedup_key (new_approval cfg now i req) =
      (crPrincipal req, crAgentID req, crToolName req, acArgumentsHash cfg (crArguments req))"
    by (simp add: dedup_key_def new_approval_def)
  have "mem_invar (awRepo w') \<and> mem_abs (awRepo w') (taID ?b) = Some ?b \<and> pending_open ?b \<and>
      dedup_key ?b = dedup_key (new_approval cfg now i req)"
    using mem.CreatePendingApproval_cases [OF assms(1,2,4)]
  proof (elim disjE exE conjE, goal_cases)
    case (3 a)
    with 3 ApplyExactPatterns_new [OF 3(1)] show ?case by auto
  qed (use assms(1) in \<open>auto simp: existing_result_def\<close>)
  with assms(3,5,6) key show ?thesis
    by (intro mem.CreatePendingApproval_existing [where j = "taID ?b"])
      (auto simp: repo_FindPendingByKey_def)
qed

theorem CreatePendingApproval_idempotent_witness:
  "CreatePendingApproval memory_port sample_config 30 31 ''id2'' sample_request
     (snd (CreatePendingApproval memory_port sample_config 10 11 ''id1'' sample_request sample_world)) =
   (Inr (existing_result sample_approval),
     snd (CreatePendingApproval memory_port sample_config 10 11 ''id1'' sample_request sample_world))"
proof -
  obtain r w' where run: "CreatePendingApproval memory_port sample_config 10 11 ''id1'' sample_request sample_world = (r, w')"
    by force
  have "fst (CreatePendingApproval memory_port sample_config 10 11 ''id1'' sample_request sample_world) =
      Inr \<lparr>carApproval = sample_approval, carIsNew = True\<rparr>"
    by code_simp
  with run have r: "r = Inr \<lparr>carApproval = sample_approval, carIsNew = True\<rparr>" by simp
  have "mem_abs (awRepo sample_world) ''id1'' = None" "acHasQueries sample_config"
    "\<not> IsExpired sample_approval 30" "\<not> IsExpired sample_approval 31"
    by (simp_all add: mem_abs_def IsExpired_def time_after_def sample_defs)
  with CreatePendingApproval_idempotent [OF sample_world_invar _ _ run [unfolded r], of 30 31 "''id2''"]
  show ?thesis by (simp add: run)
qed

section \<open>The sync state\<close>

lemma add_to_pairs_mset:
  "mset (concat (map spApprovals (add_to_pairs a ps))) = add_mset a (mset (concat (map spApprovals ps)))"
  by (induction ps) auto

lemma add_to_pairs_keys:
  "set (map (\<lambda>p. (spPrincipal p, spAgentID p)) (add_to_pairs a ps)) =
   insert (taPrincipal a, taAgentID a) (set (map (\<lambda>p. (spPrincipal p, spAgentID p)) ps))"
  by (induction ps) auto

definition pairs_ok :: "SyncPair list \<Rightarrow> bool" where
  "pairs_ok ps \<longleftrightarrow> distinct (map (\<lambda>p. (spPrincipal p, spAgentID p)) ps) \<and>
     (\<forall>p \<in> set ps. spApprovals p \<noteq> [] \<and>
        (\<forall>a \<in> set (spApprovals p). taPrincipal a = spPrincipal p \<and> taAgentID a = spAgentID p))"

lemma pairs_ok_Cons:
  "pairs_ok (p # ps) \<longleftrightarrow> (spPrincipal p, spAgentID p) \<notin> set (map (\<lambda>p. (spPrincipal p, spAgentID p)) ps) \<and>
     spApprovals p \<noteq> [] \<and>
     (\<forall>a \<in> set (spApprovals p). taPrincipal a = spPrincipal p \<and> taAgentID a = spAgentID p) \<and> pairs_ok ps"
  unfolding pairs_ok_def by (simp del: set_map) blast

lemma pairs_ok_Nil [simp]: "pairs_ok []"
  by (simp add: pairs_ok_def)

lemma add_to_pairs_ok: "pairs_ok ps \<Longrightarrow> pairs_ok (add_to_pairs a ps)"
proof (induction ps)
  case (Cons p ps)
  then have ih: "pairs_ok (add_to_pairs a ps)" by (simp add: pairs_ok_Cons)
  show ?case
  proof (cases "spPrincipal p = taPrincipal a \<and> spAgentID p = taAgentID a")
    case True
    with Cons.prems show ?thesis by (auto simp: pairs_ok_Cons)
  next
    case False
    then have "(spPrincipal p, spAgentID p) \<noteq> (taPrincipal a, taAgentID a)" by simp
    moreover have "add_to_pairs a (p # ps) = p # add_to_pairs a ps" using False by auto
    ultimately show ?thesis
      using Cons.prems ih by (simp add: pairs_ok_Cons add_to_pairs_keys del: set_map add_to_pairs.simps)
  qed
qed (simp add: pairs_ok_Cons)

lemma group_pairs_ok:
  "pairs_ok (group_pairs l)" "mset (concat (map spApprovals (group_pairs l))) = mset l"
proof -
  have "pairs_ok ps \<Longrightarrow> pairs_ok (fold add_to_pairs l ps) \<and>
      mset (concat (map spApprovals (fold add_to_pairs l ps))) = mset l + mset (concat (map spApprovals ps))" for ps
    by (induction l arbitrary: ps) (simp_all add: add_to_pairs_ok add_to_pairs_mset)
  from this [of "[]"] show "pairs_ok (group_pairs l)" "mset (concat (map spApprovals (group_pairs l))) = mset l"
    by (simp_all add: group_pairs_def pairs_ok_def)
qed

text \<open>
  A sync response shows exactly the active approvals: the stored version, every approval
  the filters keep once and nothing else, each under the pair of its own principal and agent,
  and no pair twice.
\<close>

theorem GetSyncState_exact:
  assumes "mem_invar s" and "GetSyncState memory_port rnow filt sessions s = Inr st"
  shows "ssVersion st = amVersion s \<and> pairs_ok (ssPairs st) \<and>
    distinct (map taID (concat (map spApprovals (ssPairs st)))) \<and>
    set (concat (map spApprovals (ssPairs st))) = {a. \<exists>i. mem_abs s i = Some a \<and> active rnow filt sessions a}"
proof -
  from assms(2) obtain l where l: "repo_ListAllActive rnow filt sessions s = Inr l"
    and st: "st = \<lparr>ssVersion = amVersion s, ssPairs = group_pairs l\<rparr>"
    by (auto simp: GetSyncState_def repo_GetVersion_def split: sum.splits)
  have m: "mset (concat (map spApprovals (group_pairs l))) = mset l" by (rule group_pairs_ok)
  then have "distinct (map taID (concat (map spApprovals (group_pairs l)))) = distinct (map taID l)"
    by (intro mset_eq_imp_distinct_iff) simp
  moreover from m have "set (concat (map spApprovals (group_pairs l))) = set l"
    by (metis set_mset_mset)
  ultimately show ?thesis
    using mem.list_Inr [OF assms(1), of rnow filt sessions l] l group_pairs_ok(1) by (simp add: st)
qed

theorem GetSyncState_exact_witness:
  "\<exists>st. GetSyncState memory_port 20 (Some ''alice'') [] (awRepo sample_pending) = Inr st \<and>
     sample_approval \<in> set (concat (map spApprovals (ssPairs st)))"
proof -
  obtain st where st: "GetSyncState memory_port 20 (Some ''alice'') [] (awRepo sample_pending) = Inr st"
    by (simp add: GetSyncState_def repo_GetVersion_def repo_ListAllActive_def)
  have "mem_abs (awRepo sample_pending) ''id1'' = Some sample_approval"
    "active 20 (Some ''alice'') [] sample_approval"
    by (simp_all add: mem_abs_def active_def IsExpired_def time_after_def sample_defs)
  with GetSyncState_exact [OF sample_pending_invar st] st show ?thesis by blast
qed

text \<open>Looking every distinct agent up once gives what looking up per approval gives.\<close>

lemma enrichApprovals_map: "enrichApprovals cfg l = map (enrichApproval cfg) l"
proof -
  have "map_of (map (\<lambda>ag. (ag, f ag)) xs) k = (if k \<in> set xs then Some (f k) else None)" for f :: "agent_id \<Rightarrow> string" and xs k
    by (induction xs) auto
  then show ?thesis by (simp add: enrichApprovals_def enrichApproval_def Let_def)
qed

text \<open>
  The list of pending approvals a principal sees holds only the principal's own pending,
  unexpired, unconsumed approvals, every one of them, newest first.
\<close>

theorem ListPendingApprovals_own:
  assumes "mem_invar s" and "ListPendingApprovals memory_port cfg rnow p s = Inr l"
  shows "set l = {enrichApproval cfg a | a i. mem_abs s i = Some a \<and> taPrincipal a = p \<and>
      pending_open a \<and> \<not> IsExpired a rnow \<and> taPersistence a \<noteq> Some ApprovalPersistenceSession} \<and>
    sorted_wrt (\<lambda>x y. dtCreatedAt y \<le> dtCreatedAt x) l"
proof -
  from assms(2) obtain k where k: "repo_ListAllActive rnow (Some p) [] s = Inr k"
    and l: "l = map (enrichApproval cfg)
        (sort_key (\<lambda>a. - taCreatedAt a) (filter (\<lambda>a. taStatus a = ApprovalStatusPending) k))"
    by (auto simp: ListPendingApprovals_def enrichApprovals_map split: sum.splits)
  from mem.list_Inr [OF assms(1), of rnow "Some p" "[]" k] k
  have "set l = {enrichApproval cfg a | a i. mem_abs s i = Some a \<and> taPrincipal a = p \<and>
      pending_open a \<and> \<not> IsExpired a rnow \<and> taPersistence a \<noteq> Some ApprovalPersistenceSession}"
    by (auto simp: l active_def pending_open_def)
  moreover have "sorted_wrt (\<lambda>x y. dtCreatedAt y \<le> dtCreatedAt x) l"
    using sorted_sort_key [of "\<lambda>a. - taCreatedAt a" "filter (\<lambda>a. taStatus a = ApprovalStatusPending) k"]
    by (simp add: l sorted_wrt_map enrichApproval_def newApprovalDetail_def)
  ultimately show ?thesis by simp
qed

theorem ListPendingApprovals_own_witness:
  "ListPendingApprovals memory_port sample_config 20 ''alice'' (awRepo sample_pending) =
     Inr [enrichApproval sample_config sample_approval] \<and>
   set [enrichApproval sample_config sample_approval] =
     {enrichApproval sample_config a | a i. mem_abs (awRepo sample_pending) i = Some a \<and> taPrincipal a = ''alice'' \<and>
      pending_open a \<and> \<not> IsExpired a 20 \<and> taPersistence a \<noteq> Some ApprovalPersistenceSession}"
proof -
  have f: "taPrincipal sample_approval = ''alice''" "taStatus sample_approval = ApprovalStatusPending"
    "\<not> IsExpired sample_approval 20" "taPersistence sample_approval = None" "\<not> taConsumed sample_approval"
    by (simp_all add: sample_defs IsExpired_def time_after_def)
  have run: "ListPendingApprovals memory_port sample_config 20 ''alice'' (awRepo sample_pending) =
      Inr [enrichApproval sample_config sample_approval]"
    by (simp add: ListPendingApprovals_def enrichApprovals_map repo_ListAllActive_def sample_pending_def
        list_keeps_def f)
  from ListPendingApprovals_own [OF sample_pending_invar run] run show ?thesis by blast
qed

section \<open>The scope preview\<close>

definition two_args_approval :: ToolApproval where
  "two_args_approval = sample_approval\<lparr>taArguments := [(''a'', GString ''1''), (''b'', GString ''2'')]\<rparr>"

definition two_args_store :: approval_mem where
  "two_args_store = \<lparr>amApprovals = [(''id1'', two_args_approval)], amVersion = 1\<rparr>"

text \<open>
  The preview of a decision that frees one of two arguments shows the other one as if it were
  still fixed, although the decision, whose pattern is the one returned, leaves it unconstrained.
\<close>

theorem preview_shows_unenforced_constraint:
  "PreviewApprovalScope memory_port sample_io ''id1'' ''alice''
     \<lparr>arPersistence = ApprovalPersistenceSession, arParamsPattern = Some [(''b'', ''*'')]\<rparr> two_args_store =
   Inr \<lparr>svToolPattern = ''pay'', svParamsPattern = [(''b'', ''*'')], svPreview = ''pay(a=1,b=*)''\<rparr> \<and>
   Matches sample_io ''pay'' [(''b'', ''*'')] ''pay'' [(''a'', GString ''other''), (''b'', GString ''2'')]"
  by code_simp

end
