(* ===== verification/Approval_Interleaving.thy ===== *)
theory Approval_Interleaving
  imports Approval_Service_Laws
begin

text \<open>
  Requests run concurrently. An operation of the approval service reads an approval, decides,
  and then calls the repository, which rechecks under its own lock; other requests may run in
  between. The step relation \<open>broker_step\<close> splits every mutation of
  \<^verbatim>\<open>internal/domain/approval/service.go\<close> into those two phases: a \<open>start\<close> step runs the \<open>prepare\<close>
  phase of the operation, the same definition the operation is made of, and leaves the repository
  call in flight; a \<open>commit\<close> step runs that call at a later clock reading on whatever the store has
  become. Creations hold \<^verbatim>\<open>creationMu\<close> from the first check to the end of the repository call, so
  at most one is in flight; the state of the rate limiter may be any. A call may also be dropped,
  and the version may be raised at any time.

  \<open>approval_spec\<close> is the contract of the service, written without its code: who may do what to
  which approval. The last theorem shows that every operation obeys it.
\<close>

section \<open>The step relation\<close>

datatype call =
    CreateCall ToolApproval
  | ApproveCall approval_id ApprovalDecision time
  | DenyCall approval_id "ApprovalPersistence option" time
  | ConsumeCall approval_id time
  | RevokeCall approval_id time

definition is_create :: "call \<Rightarrow> bool" where
  "is_create c = (case c of CreateCall _ \<Rightarrow> True | _ \<Rightarrow> False)"

record 'st broker =
  brClock :: time
  brStore :: 'st
  brCalls :: "call list"

text \<open>The repository call of the second phase.\<close>

definition run_call :: "'st approval_port \<Rightarrow> time \<Rightarrow> call \<Rightarrow> 'st \<Rightarrow> (StorageError + ToolApproval) \<times> 'st" where
  "run_call R now c s =
     (case c of
        CreateCall a \<Rightarrow> port_Create R now a s
      | ApproveCall i d at \<Rightarrow> port_Approve R now i d at s
      | DenyCall i per at \<Rightarrow> port_Deny R now i per at s
      | ConsumeCall i at \<Rightarrow> port_Consume R i at s
      | RevokeCall i at \<Rightarrow> port_RevokePermanent R i at s)"

inductive broker_step :: "'st approval_port \<Rightarrow> 'l approval_config \<Rightarrow> 'st broker \<Rightarrow> 'st broker \<Rightarrow> bool"
  for R cfg where
  tick: "brClock b \<le> t \<Longrightarrow> broker_step R cfg b (b\<lparr>brClock := t\<rparr>)"
| start_create:
    "\<not> list_ex is_create (brCalls b) \<Longrightarrow>
     port_Get R i (brStore b) = Inl e \<Longrightarrow> seKind e = ErrorKindNotFound \<Longrightarrow>
     awRepo w = brStore b \<Longrightarrow>
     prepare_create R cfg (brClock b) (brClock b) i req w = (Inr a, w') \<Longrightarrow>
     broker_step R cfg b (b\<lparr>brCalls := CreateCall a # brCalls b\<rparr>)"
| start_approve:
    "prepare_approve R (acFloats cfg) (brClock b) i p req (brStore b) = Inr d \<Longrightarrow>
     broker_step R cfg b (b\<lparr>brCalls := ApproveCall i d (brClock b) # brCalls b\<rparr>)"
| start_deny:
    "prepare_deny R (brClock b) i p per (brStore b) = None \<Longrightarrow>
     broker_step R cfg b (b\<lparr>brCalls := DenyCall i per (brClock b) # brCalls b\<rparr>)"
| start_consume:
    "prepare_consume R i p (brStore b) = Inr None \<Longrightarrow>
     broker_step R cfg b (b\<lparr>brCalls := ConsumeCall i (brClock b) # brCalls b\<rparr>)"
| start_revoke:
    "prepare_revoke R i p (brStore b) = None \<Longrightarrow>
     broker_step R cfg b (b\<lparr>brCalls := RevokeCall i (brClock b) # brCalls b\<rparr>)"
| commit:
    "brCalls b = cs @ c # cs' \<Longrightarrow> run_call R (brClock b) c (brStore b) = (r, s) \<Longrightarrow>
     broker_step R cfg b (b\<lparr>brStore := s, brCalls := cs @ cs'\<rparr>)"
| abandon: "brCalls b = cs @ c # cs' \<Longrightarrow> broker_step R cfg b (b\<lparr>brCalls := cs @ cs'\<rparr>)"
| sync: "port_IncrementVersion R (brStore b) = (r, s) \<Longrightarrow> broker_step R cfg b (b\<lparr>brStore := s\<rparr>)"

inductive broker_run :: "'st approval_port \<Rightarrow> 'l approval_config \<Rightarrow> 'st broker \<Rightarrow> 'st broker \<Rightarrow> bool"
  for R cfg where
  stop: "broker_run R cfg b b"
| step: "broker_run R cfg b b' \<Longrightarrow> broker_step R cfg b' b'' \<Longrightarrow> broker_run R cfg b b''"

lemma broker_run_trans:
  "broker_run R cfg b b' \<Longrightarrow> broker_run R cfg b' b'' \<Longrightarrow> broker_run R cfg b b''"
  by (rotate_tac, induction rule: broker_run.induct) (auto intro: broker_run.intros)

section \<open>The invariant\<close>

text \<open>What holds of every stored approval at clock \<open>t\<close>. The tool pattern is always the
  escaped tool name; an approved one covers its call and, when it is for one use, nothing
  but calls with the same arguments; only run-out pending approvals and approved ones for one
  use are ever marked consumed.\<close>

definition approval_ok :: "float_io \<Rightarrow> time \<Rightarrow> ToolApproval \<Rightarrow> bool" where
  "approval_ok io t a \<longleftrightarrow>
     taToolPattern a = EscapeLiteral (taToolName a) \<and>
     (taStatus a = ApprovalStatusApproved \<longrightarrow>
        covers_call io a (taToolPattern a) (copyParamsPattern (taParamsPattern a)) \<and>
        (taPersistence a = Some ApprovalPersistenceOnce \<longrightarrow>
           taParamsPattern a = Some (ExactParams io (taArguments a)))) \<and>
     (taStatus a = ApprovalStatusPending \<longrightarrow> taPersistence a = None \<and> (taConsumed a \<longrightarrow> IsExpired a t)) \<and>
     (taStatus a \<noteq> ApprovalStatusPending \<and> taConsumed a \<longrightarrow> consumable a)"

definition call_ok :: "float_io \<Rightarrow> (approval_id \<rightharpoonup> ToolApproval) \<Rightarrow> call \<Rightarrow> bool" where
  "call_ok io m c =
     (case c of
        CreateCall a \<Rightarrow> m (taID a) = None \<and> pending_open a \<and> taPersistence a = None \<and> with_patterns a = a \<and>
          taToolPattern a = EscapeLiteral (taToolName a)
      | ApproveCall i d _ \<Rightarrow> (\<exists>a. m i = Some a \<and> adToolPattern d = EscapeLiteral (taToolName a) \<and>
          covers_call io a (adToolPattern d) (copyParamsPattern (adParamsPattern d)) \<and>
          (adPersistence d = ApprovalPersistenceOnce \<longrightarrow>
             adParamsPattern d = Some (ExactParams io (taArguments a))))
      | _ \<Rightarrow> True)"

text \<open>What a step may do to one approval.\<close>

definition evolves :: "ToolApproval \<Rightarrow> ToolApproval \<Rightarrow> bool" where
  "evolves a b \<longleftrightarrow> same_request a b \<and>
     (taStatus a = ApprovalStatusPending \<or> taStatus b = taStatus a \<or>
        taPersistence a = Some ApprovalPersistencePermanent \<and> taStatus b = ApprovalStatusDenied) \<and>
     (taConsumed a \<longrightarrow> taConsumed b) \<and>
     (taConsumed a \<and> consumable a \<longrightarrow> b = a) \<and>
     (taStatus a = ApprovalStatusDenied \<and> taPersistence a \<noteq> Some ApprovalPersistencePermanent \<longrightarrow> b = a)"

lemma approval_ok_mono: "approval_ok io t a \<Longrightarrow> t \<le> t' \<Longrightarrow> approval_ok io t' a"
  by (auto simp: approval_ok_def IsExpired_def time_after_def)

lemma evolves_refl [simp]: "evolves a a"
  by (simp add: evolves_def)

lemma approval_ok_approve:
  assumes "approval_ok io t a" "IsActionable a t" "covers_call io a (adToolPattern d) (copyParamsPattern (adParamsPattern d))"
    and "adPersistence d = ApprovalPersistenceOnce \<longrightarrow> adParamsPattern d = Some (ExactParams io (taArguments a))"
  shows "approval_ok io t (decide_approve (stored_decision d) now a)"
  using assms by (auto simp: approval_ok_def covers_call_def IsActionable_def)

lemma approval_ok_others:
  "approval_ok io t a \<Longrightarrow> IsActionable a t \<Longrightarrow> approval_ok io t (decide_deny per now a)"
  "approval_ok io t a \<Longrightarrow> revocable a \<Longrightarrow> approval_ok io t (revoke_permanent now a)"
  "approval_ok io t a \<Longrightarrow> consumable a \<Longrightarrow> approval_ok io t (decide_consume now a)"
  "approval_ok io t e \<Longrightarrow> approval_ok io t (retire t a e)"
  by (auto simp: approval_ok_def IsActionable_def revocable_def consumable_def covers_call_def
      retire_def pending_open_def IsExpired_def decide_defs revoke_permanent_def Let_def)

lemma same_request_more [simp]:
  "same_request a (revoke_permanent now a)" "same_request e (retire t a e)"
  by (simp_all add: same_request_def revoke_permanent_def retire_def)

lemma evolves_all:
  "approval_ok io t a \<Longrightarrow> IsActionable a t \<Longrightarrow> evolves a (decide_approve d now a)"
  "approval_ok io t a \<Longrightarrow> IsActionable a t \<Longrightarrow> evolves a (decide_deny per now a)"
  "approval_ok io t a \<Longrightarrow> revocable a \<Longrightarrow> evolves a (revoke_permanent now a)"
  "consumable a \<Longrightarrow> \<not> taConsumed a \<Longrightarrow> evolves a (decide_consume now a)"
  "evolves e (retire t a e)"
  by (auto simp: evolves_def approval_ok_def IsActionable_def revocable_def consumable_def
      retire_def pending_open_def)

definition broker_ok :: "float_io \<Rightarrow> time \<Rightarrow> (approval_id \<rightharpoonup> ToolApproval) \<Rightarrow> call list \<Rightarrow> bool" where
  "broker_ok io t m cs \<longleftrightarrow>
     (\<forall>i a. m i = Some a \<longrightarrow> approval_ok io t a) \<and> (\<forall>c \<in> set cs. call_ok io m c) \<and>
     length (filter is_create cs) \<le> 1"

definition grows :: "(approval_id \<rightharpoonup> ToolApproval) \<Rightarrow> (approval_id \<rightharpoonup> ToolApproval) \<Rightarrow> bool" where
  "grows m m' \<longleftrightarrow> (\<forall>i a. m i = Some a \<longrightarrow> (\<exists>b. m' i = Some b \<and> evolves a b))"

lemma grows_refl [simp]: "grows m m"
  by (simp add: grows_def)

lemma grows_update: "m i = Some a \<Longrightarrow> evolves a b \<Longrightarrow> grows m (m(i \<mapsto> b))"
  by (simp add: grows_def)

lemma call_ok_grows:
  assumes "call_ok io m c" and "grows m m'" and "is_create c \<Longrightarrow> dom m' = dom m"
  shows "call_ok io m' c"
proof (cases c)
  case (ApproveCall i d at)
  with assms(1) obtain a where a: "m i = Some a" "adToolPattern d = EscapeLiteral (taToolName a)"
      "covers_call io a (adToolPattern d) (copyParamsPattern (adParamsPattern d))"
      "adPersistence d = ApprovalPersistenceOnce \<longrightarrow> adParamsPattern d = Some (ExactParams io (taArguments a))"
    by (auto simp: call_ok_def)
  from assms(2) a(1) obtain b where "m' i = Some b" "same_request a b"
    by (auto simp: grows_def evolves_def)
  with a ApproveCall show ?thesis
    by (auto simp: call_ok_def covers_call_def same_request_def)
next
  case (CreateCall a)
  with assms(1,3) show ?thesis by (auto simp: call_ok_def is_create_def)
qed (auto simp: call_ok_def)

context approval_repository
begin

lemma get_Inr: "invar s \<Longrightarrow> port_Get R i s = Inr a \<Longrightarrow> absr s i = Some a"
  using get_Some [of s i] get_None [of s i] by (cases "absr s i") auto

lemma store_update_ok:
  assumes "absr s i = Some a" "invar s'" "absr s' = (absr s)(i \<mapsto> b)" "approval_ok io t b" "evolves a b"
    and "\<forall>i a. absr s i = Some a \<longrightarrow> approval_ok io t a"
  shows "invar s' \<and> grows (absr s) (absr s') \<and> (\<forall>i a. absr s' i = Some a \<longrightarrow> approval_ok io t a) \<and>
    (\<not> is_create c \<longrightarrow> dom (absr s') = dom (absr s))"
  using assms grows_update [of "absr s" i a b] by auto

text \<open>The second phase of any call in flight keeps every approval's promise.\<close>

lemma run_call_ok:
  assumes inv: "invar s" and ok: "\<forall>i a. absr s i = Some a \<longrightarrow> approval_ok io t a"
    and c: "call_ok io (absr s) c" and run: "run_call R t c s = (r, s')"
  shows "invar s' \<and> grows (absr s) (absr s') \<and> (\<forall>i a. absr s' i = Some a \<longrightarrow> approval_ok io t a) \<and>
    (\<not> is_create c \<longrightarrow> dom (absr s') = dom (absr s))"
proof (cases r)
  case (Inl e)
  with run have "s' = s"
    by (cases c) (auto simp: run_call_def dest: create_Inl approve_Inl deny_Inl consume_Inl revoke_Inl)
  with inv ok show ?thesis by simp
next
  case (Inr b)
  show ?thesis
  proof (cases c)
    case (CreateCall a)
    with c have a: "absr s (taID a) = None" "pending_open a" "taPersistence a = None" "with_patterns a = a"
        "taToolPattern a = EscapeLiteral (taToolName a)"
      by (auto simp: call_ok_def)
    from run Inr CreateCall have "port_Create R t a s = (Inr b, s')" by (simp add: run_call_def)
    note cr = create_Inr [OF inv a(1) this]
    have "approval_ok io t a" using a by (auto simp: approval_ok_def pending_open_def)
    with cr a ok approval_ok_others(4) evolves_all(5) CreateCall inv show ?thesis
      by (auto simp: grows_def is_create_def split: if_splits)
  next
    case (ApproveCall i d at)
    with run Inr have "port_Approve R t i d at s = (Inr b, s')" by (simp add: run_call_def)
    from approve_Inr [OF inv this] obtain a where
      a: "absr s i = Some a" "IsActionable a t" "b = decide_approve (stored_decision d) at a"
      "invar s'" "absr s' = (absr s)(i \<mapsto> b)" by blast
    with c ok ApproveCall have "approval_ok io t b"
      by (auto simp: call_ok_def intro!: approval_ok_approve)
    moreover from a ok have "evolves a b" by (blast intro: evolves_all(1))
    ultimately show ?thesis using a ok ApproveCall by (intro store_update_ok) auto
  next
    case (DenyCall i per at)
    with run Inr have "port_Deny R t i per at s = (Inr b, s')" by (simp add: run_call_def)
    from deny_Inr [OF inv this] ok obtain a where a: "absr s i = Some a" "invar s'" "absr s' = (absr s)(i \<mapsto> b)"
      and "approval_ok io t b" "evolves a b"
      using approval_ok_others(1) evolves_all(2) by blast
    then show ?thesis using ok DenyCall by (intro store_update_ok) auto
  next
    case (ConsumeCall i at)
    with run Inr have "port_Consume R i at s = (Inr b, s')" by (simp add: run_call_def)
    from consume_Inr [OF inv this] obtain a where a: "absr s i = Some a" "consumable a" "invar s'"
      "absr s' = (absr s)(i \<mapsto> b)" and b: "b = (if taConsumed a then a else decide_consume at a)" by blast
    with ok have "approval_ok io t b" "evolves a b"
      using approval_ok_others(3) evolves_all(4) by auto
    with a show ?thesis using ok ConsumeCall by (intro store_update_ok) auto
  next
    case (RevokeCall i at)
    with run Inr have "port_RevokePermanent R i at s = (Inr b, s')" by (simp add: run_call_def)
    from revoke_Inr [OF inv this] ok obtain a where a: "absr s i = Some a" "invar s'" "absr s' = (absr s)(i \<mapsto> b)"
      and "approval_ok io t b" "evolves a b"
      using approval_ok_others(2) evolves_all(3) by blast
    then show ?thesis using ok RevokeCall by (intro store_update_ok) auto
  qed
qed

lemma commit_ok:
  assumes inv: "invar s" and ok: "broker_ok io t (absr s) (cs @ c # cs')"
    and run: "run_call R t c s = (r, s')"
  shows "invar s' \<and> broker_ok io t (absr s') (cs @ cs') \<and> grows (absr s) (absr s')"
proof -
  from ok have c: "call_ok io (absr s) c" "\<forall>i a. absr s i = Some a \<longrightarrow> approval_ok io t a"
    and cs: "\<forall>d \<in> set (cs @ cs'). call_ok io (absr s) d" "length (filter is_create (cs @ c # cs')) \<le> 1"
    by (auto simp: broker_ok_def)
  note s' = run_call_ok [OF inv c(2,1) run]
  have "call_ok io (absr s') d" if "d \<in> set (cs @ cs')" for d
  proof (rule call_ok_grows)
    show "call_ok io (absr s) d" using cs(1) that by blast
    show "grows (absr s) (absr s')" using s' by blast
    assume "is_create d"
    with that have "filter is_create (cs @ cs') \<noteq> []" by (simp only: filter_empty_conv) blast
    with cs(2) have "\<not> is_create c" by (cases "filter is_create (cs @ cs')") (auto split: if_splits)
    with s' show "dom (absr s') = dom (absr s)" by blast
  qed
  with s' cs(2) show ?thesis by (auto simp: broker_ok_def split: if_splits)
qed

lemma start_ok:
  assumes "broker_ok io t m cs" and "call_ok io m c" and "is_create c \<Longrightarrow> \<not> list_ex is_create cs"
  shows "broker_ok io t m (c # cs)"
proof -
  from assms(3) have "is_create c \<Longrightarrow> filter is_create cs = []"
    by (simp add: filter_empty_conv list_ex_iff)
  with assms(1,2) show ?thesis by (auto simp: broker_ok_def)
qed

lemma broker_step_ok:
  assumes "broker_step R cfg b b'" and "invar (brStore b)"
    and "broker_ok (acFloats cfg) (brClock b) (absr (brStore b)) (brCalls b)"
  shows "invar (brStore b') \<and> broker_ok (acFloats cfg) (brClock b') (absr (brStore b')) (brCalls b') \<and>
    grows (absr (brStore b)) (absr (brStore b')) \<and> brClock b \<le> brClock b'"
  using assms
proof (cases rule: broker_step.cases)
  case (tick t)
  with assms approval_ok_mono show ?thesis by (fastforce simp: broker_ok_def)
next
  case (start_create i e w req a w')
  have "absr (brStore b) i = None"
    using get_Some [OF assms(2)] start_create(3) by (cases "absr (brStore b) i") auto
  with prepare_create_Inr [OF start_create(6)] ApplyExactPatterns_new [of "acFloats cfg" cfg "brClock b" i req a]
  have "call_ok (acFloats cfg) (absr (brStore b)) (CreateCall a)" by (simp add: call_ok_def)
  with start_create assms start_ok show ?thesis by simp
next
  case (start_approve i p req d)
  from prepare_approve_Inr [OF start_approve(2)] obtain a where
    a: "port_Get R i (brStore b) = Inr a" "resolveApprovalDecision (acFloats cfg) a req = Inr d" by blast
  have "absr (brStore b) i = Some a"
    using get_Inr [OF assms(2) a(1)] .
  with resolveApprovalDecision_Inr [OF a(2)]
  have "call_ok (acFloats cfg) (absr (brStore b)) (ApproveCall i d (brClock b))" by (auto simp: call_ok_def)
  with start_ok [OF assms(3) this] start_approve assms show ?thesis by (simp add: is_create_def)
next
  case (commit cs c cs' r s)
  with commit_ok [OF assms(2), of "acFloats cfg" "brClock b" cs c cs'] assms(3) show ?thesis by simp
next
  case (sync r s)
  with assms increment_Inl [of "brStore b"] increment_Inr [OF assms(2)] show ?thesis by (cases r) fastforce+
qed (use assms start_ok in \<open>auto simp: is_create_def call_ok_def broker_ok_def split: if_splits\<close>)

lemma broker_run_ok:
  assumes "broker_run R cfg b b'" and "invar (brStore b)"
    and "broker_ok (acFloats cfg) (brClock b) (absr (brStore b)) (brCalls b)"
  shows "invar (brStore b') \<and> broker_ok (acFloats cfg) (brClock b') (absr (brStore b')) (brCalls b') \<and>
    brClock b \<le> brClock b'"
  using assms by (induction rule: broker_run.induct) (auto dest!: broker_step_ok)

end

section \<open>The bound on pending approvals\<close>

definition open_ids :: "(approval_id \<rightharpoonup> ToolApproval) \<Rightarrow> time \<Rightarrow> principal \<Rightarrow> agent_id \<Rightarrow> approval_id set" where
  "open_ids m t p ag =
     {i. \<exists>a. m i = Some a \<and> taPrincipal a = p \<and> taAgentID a = ag \<and> IsActionable a t}"

lemma open_ids_grows:
  assumes "grows m m'" and "t \<le> t'" and "i \<in> open_ids m' t' p ag" and "i \<in> dom m"
  shows "i \<in> open_ids m t p ag"
proof -
  from assms(3,4) obtain a b where ab: "m i = Some a" "m' i = Some b"
    "taPrincipal b = p" "taAgentID b = ag" "IsActionable b t'"
    by (auto simp: open_ids_def)
  with assms(1) have "evolves a b" by (fastforce simp: grows_def)
  with ab assms(2) show ?thesis
    by (auto simp: open_ids_def evolves_def same_request_def IsActionable_def IsExpired_def time_after_def)
qed

lemma retire_agent: "taAgentID (retire t a e) = taAgentID e"
  by (simp add: retire_def)

definition cap_ok :: "int \<Rightarrow> time \<Rightarrow> (approval_id \<rightharpoonup> ToolApproval) \<Rightarrow> call list \<Rightarrow> bool" where
  "cap_ok n t m cs \<longleftrightarrow>
     (\<forall>p ag. int (card (open_ids m t p ag)) \<le> n) \<and>
     (\<forall>a. CreateCall a \<in> set cs \<longrightarrow> int (card (open_ids m t (taPrincipal a) (taAgentID a))) < n)"

text \<open>An adapter that counts: what the bound on pending approvals relies on.\<close>

locale counting_repository = approval_repository R absr ver invar
  for R :: "'st approval_port" and absr ver invar +
  assumes finite_store: "invar s \<Longrightarrow> finite (dom (absr s))"
    and count_spec: "invar s \<Longrightarrow> port_CountPending R t p ag s = Inr (int (card (open_ids (absr s) t p ag)))"
begin

lemma card_open_mono:
  assumes "invar s" and "grows (absr s) (absr s')" and "t \<le> t'" and "dom (absr s') \<subseteq> dom (absr s)"
  shows "card (open_ids (absr s') t' p ag) \<le> card (open_ids (absr s) t p ag)"
proof (rule card_mono)
  show "finite (open_ids (absr s) t p ag)"
    by (rule finite_subset [OF _ finite_store [OF assms(1)]]) (auto simp: open_ids_def)
  have "open_ids (absr s') t' p ag \<subseteq> dom (absr s')" by (auto simp: open_ids_def)
  then show "open_ids (absr s') t' p ag \<subseteq> open_ids (absr s) t p ag"
    using open_ids_grows [OF assms(2,3)] assms(4) by blast
qed

text \<open>A commit of a creation adds at most the one new approval, to its own pair.\<close>

lemma card_open_create:
  assumes inv: "invar s" and fresh: "absr s (taID a) = None" and run: "port_Create R t a s = (r, s')"
  shows "int (card (open_ids (absr s') t p ag)) \<le> int (card (open_ids (absr s) t p ag)) +
    (if p = taPrincipal a \<and> ag = taAgentID a then 1 else 0)"
proof -
  have "open_ids (absr s') t p ag \<subseteq> open_ids (absr s) t p ag \<union>
      (if p = taPrincipal a \<and> ag = taAgentID a then {taID a} else {})"
  proof (cases r)
    case (Inl e)
    with run create_Inl have "s' = s" by blast
    then show ?thesis by simp
  next
    case (Inr b)
    note cr = create_Inr [OF inv fresh run [unfolded Inr]]
    show ?thesis
    proof (cases "taID b = taID a")
      case True
      with cr have s': "absr s' = (\<lambda>i. map_option (retire t a) (absr s i))(taID a \<mapsto> with_patterns a)" by auto
      have w: "taAgentID (with_patterns a) = taAgentID a" by (simp add: with_patterns_def)
      show ?thesis
      proof
        fix i
        assume "i \<in> open_ids (absr s') t p ag"
        then obtain x where x: "absr s' i = Some x" "taPrincipal x = p" "taAgentID x = ag" "IsActionable x t"
          by (auto simp: open_ids_def)
        show "i \<in> open_ids (absr s) t p ag \<union> (if p = taPrincipal a \<and> ag = taAgentID a then {taID a} else {})"
        proof (cases "i = taID a")
          case True
          with x s' w show ?thesis by auto
        next
          case False
          with x s' obtain y where "absr s i = Some y" "x = retire t a y" by auto
          with x show ?thesis
            by (auto simp: open_ids_def IsActionable_def IsExpired_def retire_agent)
        qed
      qed
    next
      case False
      with cr have "s' = s" by simp
      then show ?thesis by simp
    qed
  qed
  moreover have "finite (open_ids (absr s) t p ag)"
    by (rule finite_subset [OF _ finite_store [OF inv]]) (auto simp: open_ids_def)
  ultimately have "card (open_ids (absr s') t p ag) \<le> card (open_ids (absr s) t p ag \<union>
      (if p = taPrincipal a \<and> ag = taAgentID a then {taID a} else {}))"
    by (intro card_mono) auto
  also have "\<dots> \<le> card (open_ids (absr s) t p ag) + (if p = taPrincipal a \<and> ag = taAgentID a then 1 else 0)"
    using card_Un_le [of "open_ids (absr s) t p ag" "{taID a}"] by auto
  finally show ?thesis by auto
qed

lemma cap_ok_mono:
  assumes "cap_ok n t (absr s) cs" and "invar s" and "grows (absr s) (absr s')" and "t \<le> t'"
    and "dom (absr s') \<subseteq> dom (absr s)" and "set cs' \<subseteq> set cs"
  shows "cap_ok n t' (absr s') cs'"
  using assms(1,6) card_open_mono [OF assms(2-5)] unfolding cap_ok_def
  by (meson le_less_trans of_nat_le_iff order_trans subsetD)

lemma cap_commit:
  assumes inv: "invar s" and ok: "broker_ok io t (absr s) (cs @ c # cs')" and cap: "cap_ok n t (absr s) (cs @ c # cs')"
    and run: "run_call R t c s = (r, s')"
  shows "cap_ok n t (absr s') (cs @ cs')"
proof (cases "is_create c")
  case True
  then obtain a where CreateCall: "c = CreateCall a" by (cases c) (auto simp: is_create_def)
  with ok have fresh: "absr s (taID a) = None" and none: "filter is_create (cs @ cs') = []"
    by (auto simp: broker_ok_def call_ok_def is_create_def)
  from run CreateCall have "port_Create R t a s = (r, s')" by (simp add: run_call_def)
  note le = card_open_create [OF inv fresh this]
  have "int (card (open_ids (absr s') t p ag)) \<le> n" for p ag
  proof (cases "p = taPrincipal a \<and> ag = taAgentID a")
    case True
    with cap CreateCall have "int (card (open_ids (absr s) t p ag)) < n" by (auto simp: cap_ok_def)
    with le [of p ag] True show ?thesis by simp
  next
    case False
    then have "int (card (open_ids (absr s') t p ag)) \<le> int (card (open_ids (absr s) t p ag))"
      using le [of p ag] by (simp only: if_False add_0_right)
    moreover have "int (card (open_ids (absr s) t p ag)) \<le> n" using cap by (simp add: cap_ok_def)
    ultimately show ?thesis by (rule order_trans)
  qed
  moreover have "CreateCall x \<notin> set (cs @ cs')" for x
  proof
    assume "CreateCall x \<in> set (cs @ cs')"
    with none show False unfolding filter_empty_conv by (fastforce simp: is_create_def)
  qed
  ultimately show ?thesis unfolding cap_ok_def by blast
next
  case False
  from ok have "call_ok io (absr s) c" "\<forall>i a. absr s i = Some a \<longrightarrow> approval_ok io t a"
    by (simp_all add: broker_ok_def)
  with run_call_ok [OF inv _ _ run] False have "grows (absr s) (absr s')" "dom (absr s') = dom (absr s)"
    by blast+
  then show ?thesis by (intro cap_ok_mono [OF cap inv]) auto
qed

lemma cap_step:
  assumes step: "broker_step R cfg b b'" and inv: "invar (brStore b)"
    and ok: "broker_ok (acFloats cfg) (brClock b) (absr (brStore b)) (brCalls b)"
    and cfg: "acHasMetrics cfg" "acRateLimiter cfg = Some rl"
    and cap: "cap_ok (maxPending rl) (brClock b) (absr (brStore b)) (brCalls b)"
  shows "cap_ok (maxPending rl) (brClock b') (absr (brStore b')) (brCalls b')"
  using step
proof (cases rule: broker_step.cases)
  case (tick t)
  then show ?thesis using cap_ok_mono [OF cap inv] by simp
next
  case (start_create i e w req a w')
  note pre = prepare_create_Inr [OF start_create(6), unfolded start_create(5)]
  with count_spec [OF inv] cfg
  have "int (card (open_ids (absr (brStore b)) (brClock b) (crPrincipal req) (crAgentID req))) < maxPending rl"
    by (simp add: too_many_pending_def)
  with ApplyExactPatterns_new(8,9) [of "acFloats cfg" cfg "brClock b" i req a] pre cap start_create(1) show ?thesis
    by (auto simp: cap_ok_def)
next
  case (commit cs c cs' r s)
  then show ?thesis using cap_commit [OF inv, of "acFloats cfg" "brClock b" cs c cs'] ok cap by simp
next
  case (sync r s)
  with increment_Inl [of "brStore b"] increment_Inr [OF inv] cap show ?thesis by (cases r) fastforce+
qed (use cap in \<open>auto simp: cap_ok_def\<close>)

lemma cap_run:
  assumes "broker_run R cfg b b'" and "invar (brStore b)"
    and "broker_ok (acFloats cfg) (brClock b) (absr (brStore b)) (brCalls b)"
    and "acHasMetrics cfg" "acRateLimiter cfg = Some rl"
    and "cap_ok (maxPending rl) (brClock b) (absr (brStore b)) (brCalls b)"
  shows "cap_ok (maxPending rl) (brClock b') (absr (brStore b')) (brCalls b')"
  using assms
proof (induction rule: broker_run.induct)
  case (step b b' b'')
  with broker_run_ok [OF step.hyps(1)] show ?case by (intro cap_step [OF step.hyps(2)]) auto
qed

end

section \<open>The in-memory adapter\<close>

lemma mem_open_ids:
  assumes "mem_invar s"
  shows "length (filter (\<lambda>a. taPrincipal a = p \<and> taAgentID a = ag \<and> taStatus a = ApprovalStatusPending \<and>
      \<not> IsExpired a t) (map snd (amApprovals s))) = card (open_ids (mem_abs s) t p ag)"
proof -
  let ?P = "\<lambda>a. taPrincipal a = p \<and> taAgentID a = ag \<and> taStatus a = ApprovalStatusPending \<and> \<not> IsExpired a t"
  let ?l = "filter (\<lambda>kv. ?P (snd kv)) (amApprovals s)"
  from assms have d: "distinct (map fst (amApprovals s))" by (simp add: mem_invar_def)
  then have "distinct (map fst ?l)" by (rule distinct_map_filter)
  from distinct_card [OF this] have "length ?l = card (set (map fst ?l))"
    unfolding length_map by (rule sym)
  also have "set (map fst ?l) = open_ids (mem_abs s) t p ag"
  proof (rule set_eqI)
    fix i
    have "i \<in> set (map fst ?l) \<longleftrightarrow> (\<exists>a. (i, a) \<in> set (amApprovals s) \<and> ?P a)" by force
    also have "\<dots> \<longleftrightarrow> i \<in> open_ids (mem_abs s) t p ag"
      using d by (simp add: open_ids_def mem_abs_def IsActionable_def)
    finally show "i \<in> set (map fst ?l) \<longleftrightarrow> i \<in> open_ids (mem_abs s) t p ag" .
  qed
  finally show ?thesis by (simp add: filter_map comp_def)
qed

interpretation mem_count: counting_repository memory_port mem_abs amVersion mem_invar
proof (unfold_locales, goal_cases)
  case (1 s)
  then show ?case by (simp add: mem_abs_def finite_dom_map_of)
next
  case (2 s t p ag)
  then show ?case using mem_open_ids [OF 2, of p ag t] by (simp add: repo_CountPending_def)
qed

definition new_broker :: "time \<Rightarrow> approval_mem broker" where
  "new_broker t = \<lparr>brClock = t, brStore = new_approval_mem, brCalls = []\<rparr>"

lemma new_broker_ok:
  "mem_invar (brStore (new_broker t))"
  "broker_ok io (brClock (new_broker t)) (mem_abs (brStore (new_broker t))) (brCalls (new_broker t))"
  "0 \<le> n \<Longrightarrow> cap_ok n (brClock (new_broker t)) (mem_abs (brStore (new_broker t))) (brCalls (new_broker t))"
  by (simp_all add: new_broker_def new_approval_mem_def mem_invar_def mem_abs_def unique_open_def broker_ok_def
      cap_ok_def open_ids_def)

lemma commit_single:
  "brCalls b = [c] \<Longrightarrow> run_call R (brClock b) c (brStore b) = (r, s) \<Longrightarrow>
   broker_step R cfg b (b\<lparr>brStore := s, brCalls := []\<rparr>)"
  using broker_step.commit [of b "[]" c "[]" R r s cfg] by simp

text \<open>A run of the sample requests: created, then approved for one use.\<close>

definition sample_created :: "approval_mem broker" where
  "sample_created = \<lparr>brClock = 10, brStore = \<lparr>amApprovals = [(''id1'', sample_approval)], amVersion = 0\<rparr>, brCalls = []\<rparr>"

definition sample_decision :: ApprovalDecision where
  "sample_decision = \<lparr>adPersistence = ApprovalPersistenceOnce, adToolPattern = ''pay'',
     adParamsPattern = Some [(''to'', ''bob'')]\<rparr>"

definition sample_granted :: ToolApproval where
  "sample_granted = decide_approve sample_decision 10 sample_approval"

definition sample_spent :: ToolApproval where
  "sample_spent = decide_consume 10 sample_granted"

definition with_sample :: "ToolApproval \<Rightarrow> approval_mem broker" where
  "with_sample a = sample_created\<lparr>brStore := \<lparr>amApprovals = [(''id1'', a)], amVersion = 0\<rparr>\<rparr>"

lemma sample_run_created: "broker_run memory_port sample_config (new_broker 10) sample_created"
proof -
  let ?b = "(new_broker 10)\<lparr>brCalls := [CreateCall sample_approval]\<rparr>"
  let ?p = "prepare_create memory_port sample_config 10 10 ''id1'' sample_request sample_world"
  have "fst ?p = Inr sample_approval" by code_simp
  then have p: "?p = (Inr sample_approval, snd ?p)" by (metis prod.collapse)
  have "broker_step memory_port sample_config (new_broker 10) ?b"
    using broker_step.start_create [of "new_broker 10" memory_port "''id1''" "not_found ''Get'' ''approval not found''"
        sample_world sample_config sample_request sample_approval "snd ?p"] p
    by (simp add: new_broker_def new_approval_mem_def repo_Get_def not_found_def sample_world_def)
  moreover have "run_call memory_port 10 (CreateCall sample_approval) new_approval_mem =
      (Inr sample_approval, \<lparr>amApprovals = [(''id1'', sample_approval)], amVersion = 0\<rparr>)"
    by (simp add: run_call_def repo_Create_def new_approval_mem_def sample_approval_def new_approval_def Let_def)
  then have "broker_step memory_port sample_config ?b sample_created"
    using commit_single [of ?b "CreateCall sample_approval" memory_port "Inr sample_approval" _ sample_config]
    by (simp add: new_broker_def sample_created_def)
  ultimately show ?thesis by (metis broker_run.intros)
qed

lemma sample_run_granted: "broker_run memory_port sample_config (new_broker 10) (with_sample sample_granted)"
proof -
  let ?c = "ApproveCall ''id1'' sample_decision 10"
  let ?b = "sample_created\<lparr>brCalls := [?c]\<rparr>"
  have d: "prepare_approve memory_port (acFloats sample_config) 10 ''id1'' ''alice''
      \<lparr>arPersistence = ApprovalPersistenceOnce, arParamsPattern = None\<rparr>
      \<lparr>amApprovals = [(''id1'', sample_approval)], amVersion = 0\<rparr> = Inr sample_decision"
    by code_simp
  then have "broker_step memory_port sample_config sample_created ?b"
    using broker_step.start_approve [of memory_port sample_config sample_created "''id1''" "''alice''"
        "\<lparr>arPersistence = ApprovalPersistenceOnce, arParamsPattern = None\<rparr>" sample_decision]
    by (simp add: sample_created_def)
  moreover have "run_call memory_port 10 ?c \<lparr>amApprovals = [(''id1'', sample_approval)], amVersion = 0\<rparr> =
      (Inr sample_granted, \<lparr>amApprovals = [(''id1'', sample_granted)], amVersion = 0\<rparr>)"
    by (simp add: run_call_def repo_Approve_def put_def sample_granted_def sample_decision_def decide_approve_def
        IsExpired_def time_after_def Let_def sample_defs)
  then have "broker_step memory_port sample_config ?b (with_sample sample_granted)"
    using commit_single [of ?b ?c memory_port "Inr sample_granted" _ sample_config]
    by (simp add: with_sample_def sample_created_def)
  ultimately show ?thesis
    using sample_run_created by (meson broker_run.step)
qed

lemma sample_run_spent: "broker_run memory_port sample_config (with_sample sample_granted) (with_sample sample_spent)"
proof -
  let ?c = "ConsumeCall ''id1'' 10"
  let ?b = "(with_sample sample_granted)\<lparr>brCalls := [?c]\<rparr>"
  have e: "taPrincipal sample_granted = ''alice''" "\<not> taConsumed sample_granted" "consumable sample_granted"
    by (simp_all add: sample_granted_def sample_decision_def consumable_def sample_defs)
  have "broker_step memory_port sample_config (with_sample sample_granted) ?b"
    using broker_step.start_consume [of memory_port "''id1''" "''alice''" "with_sample sample_granted" sample_config] e
    by (simp add: with_sample_def sample_created_def prepare_consume_def repo_Get_def consumable_def)
  moreover have "run_call memory_port 10 ?c \<lparr>amApprovals = [(''id1'', sample_granted)], amVersion = 0\<rparr> =
      (Inr sample_spent, \<lparr>amApprovals = [(''id1'', sample_spent)], amVersion = 0\<rparr>)"
    using e by (simp add: run_call_def repo_Consume_def put_def sample_spent_def decide_consume_def Let_def consumable_def)
  then have "broker_step memory_port sample_config ?b (with_sample sample_spent)"
    using commit_single [of ?b ?c memory_port "Inr sample_spent" _ sample_config]
    by (simp add: with_sample_def sample_created_def)
  ultimately show ?thesis by (meson broker_run.intros)
qed

lemma with_sample_abs [simp]: "mem_abs (brStore (with_sample a)) = [''id1'' \<mapsto> a]"
  by (simp add: with_sample_def mem_abs_def)

section \<open>Properties\<close>

text \<open>
  C7. However concurrent requests interleave, every stored approval stays within what was
  reviewed: its tool pattern is the escaped tool name, an approved one covers the reviewed call,
  an approval for one use has exactly the reviewed arguments, and only run-out pending approvals
  or approved ones for one use are ever marked consumed. At most one approval of a call is open.
\<close>

theorem broker_run_approvals_ok:
  assumes "broker_run memory_port cfg (new_broker t) b"
  shows "(\<forall>i a. mem_abs (brStore b) i = Some a \<longrightarrow> approval_ok (acFloats cfg) (brClock b) a) \<and>
    unique_open (mem_abs (brStore b))"
  using mem.broker_run_ok [OF assms new_broker_ok(1,2)] mem.invar_unique
  by (auto simp: broker_ok_def)

theorem broker_run_approvals_ok_witness: "approval_ok sample_io 10 sample_granted"
  using broker_run_approvals_ok [OF sample_run_granted]
  by (auto simp: with_sample_def sample_created_def mem_abs_def sample_config_def)

text \<open>
  C8. No interleaving undoes a decision: an approval never disappears and never changes the
  call it is about, a decided one never becomes pending again, a denied one stays denied, and one
  that was approved for one use and consumed never changes at all.
\<close>

theorem broker_run_decisions_final:
  assumes "broker_run memory_port cfg (new_broker t) b" and "broker_run memory_port cfg b b'"
    and "mem_abs (brStore b) i = Some a"
  shows "\<exists>a'. mem_abs (brStore b') i = Some a' \<and> same_request a a' \<and>
    (taStatus a \<noteq> ApprovalStatusPending \<longrightarrow> taStatus a' \<noteq> ApprovalStatusPending) \<and>
    (taStatus a = ApprovalStatusDenied \<longrightarrow> taStatus a' = ApprovalStatusDenied) \<and>
    (consumable a \<and> taConsumed a \<longrightarrow> a' = a)"
  using assms(2,1,3)
proof (induction rule: broker_run.induct)
  case (step b b1 b2)
  from step.IH [OF step.prems] obtain a1 where a1: "mem_abs (brStore b1) i = Some a1" "same_request a a1"
    "taStatus a \<noteq> ApprovalStatusPending \<longrightarrow> taStatus a1 \<noteq> ApprovalStatusPending"
    "taStatus a = ApprovalStatusDenied \<longrightarrow> taStatus a1 = ApprovalStatusDenied"
    "consumable a \<and> taConsumed a \<longrightarrow> a1 = a"
    by blast
  have "broker_run memory_port cfg (new_broker t) b1"
    using broker_run_trans [OF step.prems(1) step.hyps(1)] .
  from mem.broker_step_ok [OF step.hyps(2)] mem.broker_run_ok [OF this new_broker_ok(1,2)]
  have "grows (mem_abs (brStore b1)) (mem_abs (brStore b2))" by blast
  with a1(1) obtain a2 where a2: "mem_abs (brStore b2) i = Some a2" "evolves a1 a2"
    by (auto simp: grows_def)
  have "same_request a a2" using a1(2) a2(2) same_request_trans by (auto simp: evolves_def)
  with a1 a2 show ?case by (auto simp: evolves_def)
qed auto

theorem broker_run_decisions_final_witness:
  "\<exists>a'. mem_abs (brStore (with_sample sample_spent)) ''id1'' = Some a' \<and> same_request sample_granted a' \<and>
     taStatus a' \<noteq> ApprovalStatusPending"
  using broker_run_decisions_final [OF sample_run_granted sample_run_spent, of "''id1''" sample_granted]
  by (simp add: sample_granted_def)

text \<open>
  C26. When the service has a rate limiter and the metrics port that counts (without either the code
  makes no such check), the bound on pending approvals holds whatever the interleaving, because the
  checks of a creation and its repository call exclude other creations: a principal and agent pair
  never has more unexpired pending approvals than the configured maximum.
\<close>

theorem broker_run_pending_bound:
  assumes "broker_run memory_port cfg (new_broker t) b"
    and "acHasMetrics cfg" and "acRateLimiter cfg = Some rl" and "0 \<le> maxPending rl"
  shows "repo_CountPending (brClock b) p ag (brStore b) = Inr n \<Longrightarrow> n \<le> maxPending rl"
proof -
  assume n: "repo_CountPending (brClock b) p ag (brStore b) = Inr n"
  from mem.broker_run_ok [OF assms(1) new_broker_ok(1,2)] have "mem_invar (brStore b)" by blast
  from mem_count.count_spec [OF this, of "brClock b" p ag] n
  have "n = int (card (open_ids (mem_abs (brStore b)) (brClock b) p ag))" by simp
  with mem_count.cap_run [OF assms(1) new_broker_ok(1,2) assms(2,3) new_broker_ok(3) [OF assms(4)]]
  show ?thesis by (simp add: cap_ok_def)
qed

theorem broker_run_pending_bound_witness:
  "repo_CountPending 10 ''alice'' ''agent'' (brStore sample_created) = Inr 1 \<and> (1 :: int) \<le> 2"
proof -
  have "repo_CountPending (brClock sample_created) ''alice'' ''agent'' (brStore sample_created) = Inr 1"
    by (simp add: repo_CountPending_def sample_created_def IsExpired_def time_after_def sample_defs)
  with broker_run_pending_bound [OF sample_run_created, of _ "''alice''" "''agent''" 1]
  show ?thesis by (simp add: sample_config_def sample_created_def)
qed

section \<open>The contract of the service\<close>

text \<open>What may happen to the approvals at time \<open>t\<close> on behalf of principal \<open>p\<close>, whatever the code
  does: only the owner of an approval decides, consumes or revokes it, a decision needs an open
  approval, what is granted covers the reviewed call, and a new approval needs room under the cap. A
  request for a call that has an open approval gets that one, a spent approval may be asked for again.\<close>

datatype approval_event =
    Created approval_id
  | Existing approval_id
  | Approved approval_id
  | Denied approval_id
  | Consumed approval_id
  | Revoked approval_id

inductive approval_spec ::
  "float_io \<Rightarrow> int option \<Rightarrow> time \<Rightarrow> principal \<Rightarrow> approval_event \<Rightarrow>
   (approval_id \<rightharpoonup> ToolApproval) \<Rightarrow> (approval_id \<rightharpoonup> ToolApproval) \<Rightarrow> bool"
  for io cap t p where
  created:
    "m i = None \<Longrightarrow> taID a = i \<Longrightarrow> taPrincipal a = p \<Longrightarrow> taStatus a = ApprovalStatusPending \<Longrightarrow>
     taPersistence a = None \<Longrightarrow> \<not> taConsumed a \<Longrightarrow> taApprovedAt a = None \<Longrightarrow>
     (\<And>n. cap = Some n \<Longrightarrow> int (card (open_ids m t p (taAgentID a))) < n) \<Longrightarrow>
     (\<And>j e. m j = Some e \<Longrightarrow> pending_open e \<Longrightarrow> dedup_key e = dedup_key a \<Longrightarrow> IsExpired e t) \<Longrightarrow>
     approval_spec io cap t p (Created i) m ((\<lambda>j. map_option (retire t a) (m j))(i \<mapsto> a))"
| existing:
    "m i = Some a \<Longrightarrow> taPrincipal a = p \<Longrightarrow> taStatus a = ApprovalStatusPending \<Longrightarrow> \<not> IsExpired a t \<Longrightarrow>
     approval_spec io cap t p (Existing i) m m"
| approved:
    "m i = Some a \<Longrightarrow> taPrincipal a = p \<Longrightarrow> taStatus a = ApprovalStatusPending \<Longrightarrow> \<not> IsExpired a t \<Longrightarrow>
     Matches io tool params (taToolName a) (taArguments a) \<Longrightarrow>
     (per = ApprovalPersistenceOnce \<Longrightarrow> params = ExactParams io (taArguments a)) \<Longrightarrow>
     approval_spec io cap t p (Approved i) m
       (m(i \<mapsto> a\<lparr>taStatus := ApprovalStatusApproved, taPersistence := Some per, taToolPattern := tool,
                  taParamsPattern := Some params, taApprovedAt := Some t\<rparr>))"
| denied:
    "m i = Some a \<Longrightarrow> taPrincipal a = p \<Longrightarrow> taStatus a = ApprovalStatusPending \<Longrightarrow> \<not> IsExpired a t \<Longrightarrow>
     params = (if per = Some ApprovalPersistencePermanent then Some [] else taParamsPattern a) \<Longrightarrow>
     approval_spec io cap t p (Denied i) m
       (m(i \<mapsto> a\<lparr>taStatus := ApprovalStatusDenied, taPersistence := per, taParamsPattern := params,
                  taDeniedAt := Some t\<rparr>))"
| consumed:
    "m i = Some a \<Longrightarrow> taPrincipal a = p \<Longrightarrow> taStatus a = ApprovalStatusApproved \<Longrightarrow>
     taPersistence a = Some ApprovalPersistenceOnce \<Longrightarrow> \<not> taConsumed a \<Longrightarrow>
     approval_spec io cap t p (Consumed i) m (m(i \<mapsto> a\<lparr>taConsumed := True, taConsumedAt := Some t\<rparr>))"
| consumed_again:
    "m i = Some a \<Longrightarrow> taPrincipal a = p \<Longrightarrow> taConsumed a \<Longrightarrow> approval_spec io cap t p (Consumed i) m m"
| revoked:
    "m i = Some a \<Longrightarrow> taPrincipal a = p \<Longrightarrow> taPersistence a = Some ApprovalPersistencePermanent \<Longrightarrow>
     taStatus a \<noteq> ApprovalStatusPending \<Longrightarrow>
     approval_spec io cap t p (Revoked i) m
       (m(i \<mapsto> a\<lparr>taStatus := ApprovalStatusDenied, taPersistence := None, taDeniedAt := Some t\<rparr>))"

text \<open>An operation obeys the contract when an error leaves the approvals as they are and a success is
  the step of its event, with the approval it returns stored at the end.\<close>

definition obeys ::
  "float_io \<Rightarrow> int option \<Rightarrow> time \<Rightarrow> principal \<Rightarrow> approval_event \<Rightarrow> approval_id \<Rightarrow> (approval_mem, 'l) approval_world \<Rightarrow>
   (service_error + ToolApproval) \<times> (approval_mem, 'l) approval_world \<Rightarrow> bool" where
  "obeys io cap t p ev i w out =
     (case out of
        (Inl _, w') \<Rightarrow> mem_abs (awRepo w') = mem_abs (awRepo w)
      | (Inr b, w') \<Rightarrow>
          approval_spec io cap t p ev (mem_abs (awRepo w)) (mem_abs (awRepo w')) \<and> mem_abs (awRepo w') i = Some b)"

text \<open>The cap the code enforces: it needs the rate limiter and the port that counts.\<close>

definition pending_cap :: "'l approval_config \<Rightarrow> int option" where
  "pending_cap cfg = (if acHasMetrics cfg then map_option maxPending (acRateLimiter cfg) else None)"

lemma ApproveApproval_obeys:
  assumes "mem_invar (awRepo w)"
  shows "obeys io cap now p (Approved i) i w (ApproveApproval memory_port io now rnow xnow i p req w)"
proof -
  obtain r w' where out: "ApproveApproval memory_port io now rnow xnow i p req w = (r, w')" by (metis surj_pair)
  from mem.ApproveApproval_cases [OF assms out] show ?thesis
  proof (elim disjE exE conjE, goal_cases)
    case 1
    then show ?case by (auto simp: obeys_def out)
  next
    case (2 a d b s)
    from resolveApprovalDecision_Inr [OF 2(5)] obtain pp where d: "adParamsPattern d = Some pp"
      "adPersistence d = ApprovalPersistenceOnce \<Longrightarrow> pp = ExactParams io (taArguments a)"
      "covers_call io a (adToolPattern d) (copyParamsPattern (adParamsPattern d))" by auto
    have m': "mem_abs (awRepo w') = (mem_abs (awRepo w))(i \<mapsto> b)" by fact
    have r: "r = Inr b" using 2(8) by (simp add: finish_memory)
    have "approval_spec io cap now p (Approved i) (mem_abs (awRepo w)) ((mem_abs (awRepo w))(i \<mapsto> b))"
      unfolding 2(6) decide_approve_def stored_decision_def
      using approval_spec.approved [of "mem_abs (awRepo w)" i a p now io "adToolPattern d" pp "adPersistence d" cap] 2(1-4) d
      by (auto simp: IsActionable_def covers_call_def copyParamsPattern_def)
    with m' r show ?case by (simp add: obeys_def out)
  qed
qed

lemma DenyApproval_obeys:
  assumes "mem_invar (awRepo w)"
  shows "obeys io cap now p (Denied i) i w (DenyApproval memory_port now rnow xnow i p per w)"
proof -
  obtain r w' where out: "DenyApproval memory_port now rnow xnow i p per w = (r, w')" by (metis surj_pair)
  from mem.DenyApproval_cases [OF assms out] show ?thesis
  proof (elim disjE exE conjE, goal_cases)
    case 1
    then show ?case by (auto simp: obeys_def out)
  next
    case (2 a b s)
    have m': "mem_abs (awRepo w') = (mem_abs (awRepo w))(i \<mapsto> b)" by fact
    have r: "r = Inr b" using 2(7) by (simp add: finish_memory)
    have b: "b = a\<lparr>taStatus := ApprovalStatusDenied, taPersistence := per,
        taParamsPattern := (if per = Some ApprovalPersistencePermanent then Some [] else taParamsPattern a), taDeniedAt := Some now\<rparr>"
      unfolding 2(5) decide_deny_def by (simp add: Let_def)
    have "approval_spec io cap now p (Denied i) (mem_abs (awRepo w)) ((mem_abs (awRepo w))(i \<mapsto> b))"
      unfolding b by (rule approval_spec.denied) (use 2(1-4) in \<open>simp_all add: IsActionable_def\<close>)
    with m' r show ?case by (simp add: obeys_def out)
  qed
qed

lemma ConsumeApproval_obeys:
  assumes "mem_invar (awRepo w)"
  shows "obeys io cap now p (Consumed i) i w (ConsumeApproval memory_port now i p w)"
proof -
  obtain r w' where out: "ConsumeApproval memory_port now i p w = (r, w')" by (metis surj_pair)
  from mem.ConsumeApproval_cases [OF assms out] show ?thesis
  proof (elim disjE [of "_ = w \<and> _"] exE conjE, goal_cases)
    case 1
    then show ?case by (auto simp: obeys_def out intro: approval_spec.consumed_again)
  next
    case (2 a b s)
    have m': "mem_abs (awRepo w') = (mem_abs (awRepo w))(i \<mapsto> b)" by fact
    have r: "r = Inr b" using 2(7) by (simp add: finish_memory)
    have "approval_spec io cap now p (Consumed i) (mem_abs (awRepo w)) ((mem_abs (awRepo w))(i \<mapsto> b))"
      unfolding 2(5) decide_consume_def by (rule approval_spec.consumed) (use 2(1-4) in \<open>simp_all add: consumable_def\<close>)
    with m' r show ?case by (simp add: obeys_def out)
  qed
qed

lemma RevokePermanentApproval_obeys:
  assumes "mem_invar (awRepo w)"
  shows "obeys io cap now p (Revoked i) i w (RevokePermanentApproval memory_port now i p w)"
proof -
  obtain r w' where out: "RevokePermanentApproval memory_port now i p w = (r, w')" by (metis surj_pair)
  from mem.RevokePermanentApproval_cases [OF assms out] show ?thesis
  proof (elim disjE exE conjE, goal_cases)
    case 1
    then show ?case by (auto simp: obeys_def out)
  next
    case (2 a b s)
    have m': "mem_abs (awRepo w') = (mem_abs (awRepo w))(i \<mapsto> b)" by fact
    have r: "r = Inr b" using 2(6) by (simp add: finish_memory)
    have "approval_spec io cap now p (Revoked i) (mem_abs (awRepo w)) ((mem_abs (awRepo w))(i \<mapsto> b))"
      unfolding 2(4) revoke_permanent_def by (rule approval_spec.revoked) (use 2(1-3) in \<open>auto simp: revocable_def\<close>)
    with m' r show ?case by (simp add: obeys_def out)
  qed
qed

text \<open>A creation: the new approval is the only open one of its call.\<close>

lemma CreatePendingApproval_obeys:
  assumes inv: "mem_invar (awRepo w)" and fresh: "mem_abs (awRepo w) i = None"
    and out: "CreatePendingApproval memory_port cfg now rnow i req w = (r, w')"
  shows "case r of
      Inl _ \<Rightarrow> mem_abs (awRepo w') = mem_abs (awRepo w)
    | Inr x \<Rightarrow> approval_spec (acFloats cfg) (pending_cap cfg) rnow (crPrincipal req)
        (if carIsNew x then Created i else Existing (taID (carApproval x)))
        (mem_abs (awRepo w)) (mem_abs (awRepo w')) \<and> mem_abs (awRepo w') (taID (carApproval x)) = Some (carApproval x)"
  using mem.CreatePendingApproval_cases [OF inv fresh out]
proof (elim disjE [of "_ = awRepo w \<and> _"] exE conjE, goal_cases)
  case (1 e)
  then show ?case by simp
next
  case (2 b)
  then have "taPrincipal b = crPrincipal req" "taStatus b = ApprovalStatusPending"
    by (auto simp: dedup_key_def new_approval_def pending_open_def)
  with 2 show ?case by (auto simp: existing_result_def intro: approval_spec.existing)
next
  case (3 a)
  note new = ApplyExactPatterns_new [OF 3(1)]
  have m': "mem_abs (awRepo w') = (\<lambda>j. map_option (retire rnow a) (mem_abs (awRepo w) j))(i \<mapsto> a)" by fact
  have at: "taApprovedAt a = None"
    using 3(1) by (auto simp: ApplyExactPatterns_def Let_def new_approval_def split: option.splits)
  have cap: "int (card (open_ids (mem_abs (awRepo w)) rnow (crPrincipal req) (taAgentID a))) < n" if "pending_cap cfg = Some n" for n
    using 3(2) that mem_count.count_spec [OF inv, of rnow "crPrincipal req" "crAgentID req"] new(9)
    by (auto simp: pending_cap_def too_many_pending_def split: if_splits)
  have alone: "IsExpired e rnow" if e: "mem_abs (awRepo w) j = Some e" "pending_open e" "dedup_key e = dedup_key a" for j e
  proof (rule ccontr)
    assume "\<not> IsExpired e rnow"
    then have "retire rnow a e = e" by (simp add: retire_def)
    moreover have "j \<noteq> i" using e(1) fresh by auto
    ultimately have "mem_abs (awRepo w') j = Some e" "mem_abs (awRepo w') i = Some a" using m' e(1) by simp_all
    with mem.invar_unique [OF 3(3)] e(2,3) new(2) \<open>j \<noteq> i\<close> show False unfolding unique_open_def by metis
  qed
  have "approval_spec (acFloats cfg) (pending_cap cfg) rnow (crPrincipal req) (Created i) (mem_abs (awRepo w)) (mem_abs (awRepo w'))"
    unfolding m' by (rule approval_spec.created) (use fresh new at cap alone in simp_all)
  moreover have "r \<noteq> Inl e" for e using 3(6) by (simp add: syncApprovalMutation_def repo_IncrementVersion_def Let_def)
  ultimately show ?case using 3(5) m' new(1) by (cases r) auto
qed

text \<open>
  C30. The approval service keeps its contract. Every operation, called by a principal on the
  in-memory adapter, either fails and leaves all approvals as they are, or does to them exactly
  what \<open>approval_spec\<close> allows that principal: approving, denying, consuming and revoking change one
  approval, which the caller owns and which is in a state for it; a request returns the caller's open
  approval of the same call, or stores a new one when the call has none and the cap, where the code
  enforces one, leaves room. The approval returned is the one stored.
\<close>

theorem approval_service_refines_spec:
  assumes "mem_invar (awRepo w)"
  shows "obeys io cap now p (Approved i) i w (ApproveApproval memory_port io now rnow xnow i p req w) \<and>
    obeys io cap now p (Denied i) i w (DenyApproval memory_port now rnow xnow i p per w) \<and>
    obeys io cap now p (Consumed i) i w (ConsumeApproval memory_port now i p w) \<and>
    obeys io cap now p (Revoked i) i w (RevokePermanentApproval memory_port now i p w) \<and>
    (\<forall>j cr r w'. mem_abs (awRepo w) j = None \<longrightarrow> CreatePendingApproval memory_port cfg now rnow j cr w = (r, w') \<longrightarrow>
       (case r of
          Inl _ \<Rightarrow> mem_abs (awRepo w') = mem_abs (awRepo w)
        | Inr x \<Rightarrow> approval_spec (acFloats cfg) (pending_cap cfg) rnow (crPrincipal cr)
            (if carIsNew x then Created j else Existing (taID (carApproval x)))
            (mem_abs (awRepo w)) (mem_abs (awRepo w')) \<and>
            mem_abs (awRepo w') (taID (carApproval x)) = Some (carApproval x)))"
  by (intro conjI ApproveApproval_obeys [OF assms] DenyApproval_obeys [OF assms] ConsumeApproval_obeys [OF assms]
      RevokePermanentApproval_obeys [OF assms] allI impI)
    (rule CreatePendingApproval_obeys [OF assms])

text \<open>Alice approves her pending approval; the call before had created it.\<close>

theorem approval_service_refines_spec_witness:
  "approval_spec sample_io (Some 2) 11 ''alice'' (Created ''id1'') (mem_abs (awRepo sample_world))
     (mem_abs (awRepo (snd (CreatePendingApproval memory_port sample_config 10 11 ''id1'' sample_request sample_world)))) \<and>
   approval_spec sample_io (Some 2) 20 ''alice'' (Approved ''id1'') (mem_abs (awRepo sample_pending)) (mem_abs (awRepo sample_approved))"
proof
  let ?c = "CreatePendingApproval memory_port sample_config 10 11 ''id1'' sample_request sample_world"
  obtain r w' where c: "?c = (r, w')" by (metis surj_pair)
  have "map_sum (\<lambda>_. ()) carIsNew (fst ?c) = Inr True" by code_simp
  with c obtain x where r: "r = Inr x" "carIsNew x" by (cases r) auto
  have "mem_abs (awRepo sample_world) ''id1'' = None" by (simp add: sample_world_def new_approval_mem_def mem_abs_def)
  with approval_service_refines_spec [OF sample_world_invar, where cfg = sample_config] c
  have "case r of Inl _ \<Rightarrow> mem_abs (awRepo w') = mem_abs (awRepo sample_world)
        | Inr x \<Rightarrow> approval_spec (acFloats sample_config) (pending_cap sample_config) 11 (crPrincipal sample_request)
            (if carIsNew x then Created ''id1'' else Existing (taID (carApproval x)))
            (mem_abs (awRepo sample_world)) (mem_abs (awRepo w')) \<and>
            mem_abs (awRepo w') (taID (carApproval x)) = Some (carApproval x)" by blast
  moreover have "pending_cap sample_config = Some 2" "acFloats sample_config = sample_io" "crPrincipal sample_request = ''alice''"
    by (simp_all add: pending_cap_def sample_config_def sample_request_def)
  ultimately show "approval_spec sample_io (Some 2) 11 ''alice'' (Created ''id1'') (mem_abs (awRepo sample_world))
     (mem_abs (awRepo (snd ?c)))" using r c by simp
  let ?a = "ApproveApproval memory_port sample_io 20 21 22 ''id1'' ''alice''
    \<lparr>arPersistence = ApprovalPersistenceOnce, arParamsPattern = None\<rparr> sample_pending"
  have "\<not> isl (fst ?a)" by code_simp
  moreover have "snd ?a = sample_approved" by (simp add: sample_approved_def)
  ultimately show "approval_spec sample_io (Some 2) 20 ''alice'' (Approved ''id1'') (mem_abs (awRepo sample_pending)) (mem_abs (awRepo sample_approved))"
    using approval_service_refines_spec [OF sample_pending_invar, of sample_io "Some 2" 20 "''alice''" "''id1''" 21 22
        "\<lparr>arPersistence = ApprovalPersistenceOnce, arParamsPattern = None\<rparr>"]
    by (cases ?a; cases "fst ?a") (auto simp: obeys_def)
qed

end
