(* ===== verification/Approval_End_To_End.thy ===== *)
theory Approval_End_To_End
  imports Approval_Handlers Approval_Gate Approval_Interleaving
begin

text \<open>
  The gateway and the broker together. The methods of the gateway's \<^verbatim>\<open>Client\<close> send a request
  (\<^verbatim>\<open>internal/extproc/approval/client.go\<close>), the broker's middleware authenticates it, a handler
  answers it over the approval service, and the client reads the answer: \<open>broker_of\<close> composes these
  into the \<^verbatim>\<open>Broker\<close> interface the gate calls. The encoding of a message to JSON and back, and the
  escaping of an identifier in a path, carry the values unchanged.

  \<open>mesh\<close> is a deployment: one broker and any number of gateways with their caches. Its steps are the
  requests of users and gateways in any order; answers to sync requests are in flight for any time
  and may be applied by any gateway in any order.
\<close>

section \<open>The client\<close>

text \<open>The state behind the interface: the broker's world and the identifiers \<^verbatim>\<open>uuid.New\<close> will draw.\<close>

record 'l served =
  seWorld :: "(approval_mem, 'l) approval_world"
  seDraws :: "nat \<Rightarrow> approval_id"

record ('ks, 'l) broker_setup =
  bsLib :: "'ks jwt_lib"
  bsAuthenticator :: "'ks ApprovalRequestAuthenticator option"
  bsParse :: "string \<Rightarrow> approval_id option"
  bsConfig :: "'l approval_config"
  bsAssertion :: "string + string"
  bsNow :: time

definition clientAssertion :: "('ks, 'l) broker_setup \<Rightarrow> client_error + string" where
  "clientAssertion S =
     (case bsAssertion S of
        Inl _ \<Rightarrow> Inl (OtherError ''getting client assertion'')
      | Inr assertion \<Rightarrow>
          if TrimSpace assertion = [] then Inl (OtherError ''getting client assertion: assertion is empty'')
          else Inr assertion)"

definition empty_context :: request_context where
  "empty_context = \<lparr>rxPrincipal = None, rxProfile = None, rxApprovalAuth = None\<rparr>"

definition request_header :: "string \<Rightarrow> string \<Rightarrow> string \<Rightarrow> string" where
  "request_header bearer assertion name =
     (if name = ''Authorization'' then ''Bearer '' @ bearer
      else if name = ''X-Client-Assertion'' then assertion else [])"

text \<open>A summary as the gateway's decoder reads it.\<close>

definition record_of :: "toolApprovalSummary \<Rightarrow> Record" where
  "record_of s =
     \<lparr>rcID = tsID s, rcToolName = tsToolName s, rcToolPattern = tsToolPattern s, rcParamsPattern = tsParamsPattern s,
      rcStatus = tsStatus s, rcPersistence = tsPersistence s, rcConsumed = tsConsumed s,
      rcAgentSessionID = tsAgentSessionID s, rcApprovedAt = tsApprovedAt s, rcReserved = False\<rparr>"

definition wire_pair :: "syncResponsePair \<Rightarrow> sync_pair" where
  "wire_pair p = \<lparr>sxPrincipal = syPrincipal p, sxAgentID = syAgentID p, sxApprovals = map record_of (syApprovals p)\<rparr>"

definition error_reply :: "int \<Rightarrow> http_reply" where
  "error_reply status = \<lparr>hrStatus = status, hrETag = [], hrBody = None\<rparr>"

text \<open>The answer on the wire; \<open>None\<close> when the handler gave none.\<close>

definition wire :: "sync_reply \<Rightarrow> http_reply option" where
  "wire reply =
     (case reply of
        SyncFull etag pairs \<Rightarrow> Some \<lparr>hrStatus = 200, hrETag = etag, hrBody = Some (Some (map wire_pair pairs))\<rparr>
      | SyncNotModified \<Rightarrow> Some (error_reply 304)
      | SyncFailed \<Rightarrow> Some (error_reply 500)
      | SyncNoAnswer \<Rightarrow> None)"

definition no_answer :: client_error where
  "no_answer = OtherError ''sending approval sync request''"

definition sync_query :: "string \<Rightarrow> string list \<Rightarrow> string \<Rightarrow> string \<Rightarrow> sync_request" where
  "sync_query p sessionIDs etag timeout =
     \<lparr>sqPrincipal = p, sqAgentSessionIDs = filter (\<lambda>s. s \<noteq> []) sessionIDs, sqIfNoneMatch = etag,
      sqLongPollTimeout = timeout\<rparr>"

definition served_Read ::
  "('ks, 'l) broker_setup \<Rightarrow> string \<Rightarrow> string list \<Rightarrow> 'l served \<Rightarrow> (client_error + Pair list \<times> string) \<times> 'l served" where
  "served_Read S p sessionIDs b =
     (case clientAssertion S of
        Inl e \<Rightarrow> (Inl e, b)
      | Inr assertion \<Rightarrow>
          (case RequireApprovalClientAssertion (bsLib S) (bsNow S) False (bsAuthenticator S) (request_header assertion []) p empty_context of
             Inl err \<Rightarrow> (client_Read (error_reply (aeStatus err)), b)
           | Inr ctx \<Rightarrow>
               (case SyncHandler_ServeHTTP memory_port (bsNow S) (sync_query p sessionIDs [] []) (seWorld b) of
                  (reply, w) \<Rightarrow>
                    (case Option.bind reply wire of
                       None \<Rightarrow> Inl no_answer
                     | Some resp \<Rightarrow> client_Read resp, b\<lparr>seWorld := w\<rparr>))))"

definition optional :: "string \<Rightarrow> string option" where
  "optional s = (if s = [] then None else Some s)"

definition create_body :: "CreateRequest \<Rightarrow> createRequest" where
  "create_body request =
     \<lparr>cqMetadata = Some \<lparr>cmMCPSessionID = optional (crqMCPSessionID request), cmAgentSessionID = optional (crqAgentSessionID request),
        cmToolInvocationID = optional (crqInvocationID request), cmDescription = Some (crqDescription request)\<rparr>,
      cqToolName = crqToolName request, cqArguments = Some (crqArguments request), cqRiskLevel = crqRiskLevel request\<rparr>"

definition client_Create :: "createResponseData reply \<Rightarrow> client_error + string" where
  "client_Create response =
     (if repStatus response \<noteq> 201 \<and> repStatus response \<noteq> 200 then Inl (StatusError ''create'' (repStatus response))
      else case response of
          ErrorReply _ _ _ \<Rightarrow> Inl (OtherError ''approval create response missing approval_url'')
        | Reply _ d \<Rightarrow>
            if TrimSpace (crdApprovalURL d) = [] then Inl (OtherError ''approval create response missing approval_url'')
            else Inr (crdApprovalURL d))"

definition served_Create ::
  "('ks, 'l) broker_setup \<Rightarrow> string \<Rightarrow> CreateRequest \<Rightarrow> 'l served \<Rightarrow> (client_error + string) \<times> 'l served" where
  "served_Create S subjectToken request b =
     (if TrimSpace subjectToken = [] then (Inl (OtherError ''approval subject token must not be empty''), b)
      else case clientAssertion S of
          Inl e \<Rightarrow> (Inl e, b)
        | Inr assertion \<Rightarrow>
            (case RequireApprovalSubjectTokenAndClientAssertion (bsLib S) (bsNow S) False (bsAuthenticator S)
                    (request_header subjectToken assertion) empty_context of
               Inl err \<Rightarrow> (Inl (StatusError ''create'' (aeStatus err)), b)
             | Inr ctx \<Rightarrow>
                 (case CreateHandler memory_port (bsConfig S) (bsNow S) (bsNow S) (seDraws b 0) ctx None
                         (Some (create_body request)) (seWorld b) of
                    (response, w) \<Rightarrow> (client_Create response, \<lparr>seWorld = w, seDraws = (\<lambda>n. seDraws b (Suc n))\<rparr>))))"

definition served_Consume ::
  "('ks, 'l) broker_setup \<Rightarrow> string \<Rightarrow> string \<Rightarrow> 'l served \<Rightarrow> client_error option \<times> 'l served" where
  "served_Consume S subjectToken approvalID b =
     (if TrimSpace subjectToken = [] \<or> approvalID = [] then (client_Consume subjectToken approvalID 0, b)
      else case RequireApprovalSubjectToken (bsLib S) (bsNow S) False (bsAuthenticator S) (request_header subjectToken []) empty_context of
          Inl err \<Rightarrow> (client_Consume subjectToken approvalID (aeStatus err), b)
        | Inr ctx \<Rightarrow>
            (case ConsumeHandler memory_port (bsParse S) (bsNow S) ctx approvalID (seWorld b) of
               (response, w) \<Rightarrow> (client_Consume subjectToken approvalID (repStatus response), b\<lparr>seWorld := w\<rparr>)))"

definition broker_of :: "('ks, 'l) broker_setup \<Rightarrow> 'l served broker_client" where
  "broker_of S = \<lparr>bcRead = served_Read S, bcCreate = served_Create S, bcConsume = served_Consume S\<rparr>"

section \<open>What the broker keeps\<close>

text \<open>A decided approval keeps its owner, its patterns, the time of its decision and the decision
  itself, unless it was permanent and is revoked.\<close>

definition settled :: "ToolApproval \<Rightarrow> ToolApproval \<Rightarrow> bool" where
  "settled a b \<longleftrightarrow> same_request a b \<and>
     (taStatus a \<noteq> ApprovalStatusPending \<longrightarrow> taStatus b \<noteq> ApprovalStatusPending \<and> taToolPattern b = taToolPattern a \<and>
        taParamsPattern b = taParamsPattern a \<and> taApprovedAt b = taApprovedAt a \<and>
        (taStatus b = taStatus a \<and> taPersistence b = taPersistence a \<or>
         taPersistence a = Some ApprovalPersistencePermanent \<and> taStatus b = ApprovalStatusDenied \<and> taPersistence b = None))"

definition keeps :: "(approval_id \<rightharpoonup> ToolApproval) \<Rightarrow> (approval_id \<rightharpoonup> ToolApproval) \<Rightarrow> bool" where
  "keeps m m' \<longleftrightarrow> (\<forall>i a. m i = Some a \<longrightarrow> (\<exists>b. m' i = Some b \<and> settled a b))"

text \<open>Which approvals were granted, and when.\<close>

definition granted :: "(approval_id \<rightharpoonup> ToolApproval) \<Rightarrow> (approval_id \<times> time) set" where
  "granted m = {(i, t). \<exists>a. m i = Some a \<and> taApprovedAt a = Some t}"

text \<open>What anyone but an approving user may do: nothing is undone and nothing is granted.\<close>

definition later :: "(approval_id \<rightharpoonup> ToolApproval) \<Rightarrow> (approval_id \<rightharpoonup> ToolApproval) \<Rightarrow> bool" where
  "later m m' \<longleftrightarrow> keeps m m' \<and> granted m' \<subseteq> granted m"

text \<open>A pattern names the tool of its approval and no other; a one-use approval covers nothing but
  the reviewed arguments.\<close>

definition literal_ok :: "float_io \<Rightarrow> ToolApproval \<Rightarrow> bool" where
  "literal_ok io a \<longleftrightarrow> taToolPattern a = EscapeLiteral (taToolName a) \<and> ApprovalStatus_IsValid (taStatus a) \<and>
     (taStatus a = ApprovalStatusPending \<longrightarrow> taPersistence a = None) \<and>
     (taStatus a = ApprovalStatusApproved \<longrightarrow> taPersistence a = Some ApprovalPersistenceOnce \<longrightarrow>
        taParamsPattern a = Some (ExactParams io (taArguments a)))"

abbreviation stored :: "'l served \<Rightarrow> approval_id \<rightharpoonup> ToolApproval" where
  "stored b \<equiv> mem_abs (awRepo (seWorld b))"

definition world_ok :: "float_io \<Rightarrow> (approval_mem, 'l) approval_world \<Rightarrow> bool" where
  "world_ok io w \<longleftrightarrow> mem_invar (awRepo w) \<and> (\<forall>i a. mem_abs (awRepo w) i = Some a \<longrightarrow> literal_ok io a)"

text \<open>The identifiers still to be drawn are new and differ from each other.\<close>

definition served_ok :: "float_io \<Rightarrow> 'l served \<Rightarrow> bool" where
  "served_ok io b \<longleftrightarrow> world_ok io (seWorld b) \<and> inj (seDraws b) \<and> (\<forall>n. stored b (seDraws b n) = None)"

lemma settled_refl [simp]: "settled a a"
  by (simp add: settled_def)

lemma settled_trans: "settled a b \<Longrightarrow> settled b c \<Longrightarrow> settled a c"
  by (auto simp: settled_def same_request_def)

lemma keeps_refl [simp]: "keeps m m"
  by (simp add: keeps_def)

lemma keeps_trans: "keeps m1 m2 \<Longrightarrow> keeps m2 m3 \<Longrightarrow> keeps m1 m3"
  unfolding keeps_def using settled_trans by blast

lemma keeps_update: "m i = Some a \<Longrightarrow> settled a b \<Longrightarrow> keeps m (m(i \<mapsto> b))"
  by (simp add: keeps_def)

lemma keeps_principal:
  assumes "keeps m m'" and "m i = Some a" and "m' i = Some b"
  shows "taPrincipal b = taPrincipal a"
proof -
  from assms have "settled a b" unfolding keeps_def by fastforce
  then show ?thesis by (simp add: settled_def same_request_def)
qed

lemma later_refl [simp]: "later m m"
  by (simp add: later_def)

lemma later_trans: "later m1 m2 \<Longrightarrow> later m2 m3 \<Longrightarrow> later m1 m3"
  unfolding later_def using keeps_trans by blast

lemma granted_update: "m i = Some a \<Longrightarrow> taApprovedAt b = taApprovedAt a \<Longrightarrow> granted (m(i \<mapsto> b)) = granted m"
  by (auto simp: granted_def split: if_splits)

text \<open>A service call that replaces one approval or none.\<close>

lemma replaced_ok:
  assumes "world_ok io w" and "mem_abs (awRepo w) i = Some a" and "mem_invar (awRepo w')"
    and "mem_abs (awRepo w') = (mem_abs (awRepo w))(i \<mapsto> b)" and "literal_ok io b" and "settled a b"
  shows "world_ok io w' \<and> keeps (mem_abs (awRepo w)) (mem_abs (awRepo w')) \<and>
    dom (mem_abs (awRepo w')) = dom (mem_abs (awRepo w))"
proof -
  have "world_ok io w'" using assms by (simp add: world_ok_def)
  moreover have "keeps (mem_abs (awRepo w)) (mem_abs (awRepo w'))"
    unfolding assms(4) using keeps_update assms(2,6) by blast
  moreover have "dom (mem_abs (awRepo w')) = dom (mem_abs (awRepo w))" using assms(2,4) by auto
  ultimately show ?thesis by blast
qed

definition harmless :: "float_io \<Rightarrow> (approval_mem, 'l) approval_world \<Rightarrow> (approval_mem, 'l) approval_world \<Rightarrow> bool" where
  "harmless io w w' \<longleftrightarrow> world_ok io w' \<and> keeps (mem_abs (awRepo w)) (mem_abs (awRepo w')) \<and>
     dom (mem_abs (awRepo w')) = dom (mem_abs (awRepo w))"

lemma harmless_same: "world_ok io w \<Longrightarrow> awRepo w' = awRepo w \<Longrightarrow> harmless io w w'"
  by (simp add: harmless_def world_ok_def)

text \<open>A call that grants nothing.\<close>

definition calm :: "float_io \<Rightarrow> (approval_mem, 'l) approval_world \<Rightarrow> (approval_mem, 'l) approval_world \<Rightarrow> bool" where
  "calm io w w' \<longleftrightarrow> harmless io w w' \<and> granted (mem_abs (awRepo w')) \<subseteq> granted (mem_abs (awRepo w))"

lemma calm_same: "world_ok io w \<Longrightarrow> awRepo w' = awRepo w \<Longrightarrow> calm io w w'"
  by (simp add: calm_def harmless_same)

lemma calm_replaced:
  assumes "world_ok io w" and "mem_abs (awRepo w) i = Some a" and "mem_invar (awRepo w')"
    and "mem_abs (awRepo w') = (mem_abs (awRepo w))(i \<mapsto> b)" and "literal_ok io b" and "settled a b"
    and "taApprovedAt b = taApprovedAt a"
  shows "calm io w w'"
  using replaced_ok [OF assms(1-6)] granted_update [where m = "mem_abs (awRepo w)", OF assms(2,7)] assms(4) by (simp add: calm_def harmless_def)

lemma ApproveApproval_harmless:
  assumes ok: "world_ok io w" and run: "ApproveApproval memory_port io now rnow xnow i p req w = (r, w')"
  shows "harmless io w w'"
proof -
  from ok have inv: "mem_invar (awRepo w)" by (simp add: world_ok_def)
  from ApproveApproval_memory [OF inv run] show ?thesis
  proof (elim disjE exE conjE, goal_cases)
    case 1
    then show ?case using ok harmless_same by blast
  next
    case (2 a d)
    from resolveApprovalDecision_Inr [OF 2(5)] obtain pp where
      d: "adToolPattern d = EscapeLiteral (taToolName a)" "adParamsPattern d = Some pp"
        "adPersistence d = ApprovalPersistenceOnce \<longrightarrow> pp = ExactParams io (taArguments a)"
      by auto
    have "literal_ok io (decide_approve (stored_decision d) now a)"
      using d by (simp add: literal_ok_def decide_approve_def stored_decision_def)
    moreover have "settled a (decide_approve (stored_decision d) now a)"
      using 2(3) by (simp add: settled_def IsActionable_def same_request_def decide_approve_def)
    ultimately show ?case
      using replaced_ok [OF ok 2(1) 2(7) 2(8)] by (simp add: harmless_def)
  qed
qed

lemma DenyApproval_calm:
  assumes ok: "world_ok io w" and run: "DenyApproval memory_port now rnow xnow i p per w = (r, w')"
  shows "calm io w w'"
proof -
  from ok have inv: "mem_invar (awRepo w)" by (simp add: world_ok_def)
  from mem.DenyApproval_cases [OF inv run] show ?thesis
  proof (elim disjE exE conjE, goal_cases)
    case 1
    then show ?case using ok calm_same by blast
  next
    case (2 a b s)
    from ok 2(1) have "literal_ok io a" by (simp add: world_ok_def)
    then have "literal_ok io b" unfolding 2(5) by (simp add: literal_ok_def decide_deny_def Let_def)
    moreover have "settled a b"
      unfolding 2(5) using 2(3) by (simp add: settled_def IsActionable_def same_request_def decide_deny_def Let_def)
    moreover have "taApprovedAt b = taApprovedAt a" unfolding 2(5) by (simp add: decide_defs revoke_permanent_def Let_def)
    ultimately show ?case
      using calm_replaced [OF ok 2(1) 2(8) 2(9)] by blast
  qed
qed

lemma ConsumeApproval_calm:
  assumes ok: "world_ok io w" and run: "ConsumeApproval memory_port now i p w = (r, w')"
  shows "calm io w w'"
proof -
  from ok have inv: "mem_invar (awRepo w)" by (simp add: world_ok_def)
  from mem.ConsumeApproval_cases [OF inv run] show ?thesis
  proof (elim disjE [of "_ = w \<and> _"] exE conjE, goal_cases)
    case 1
    then show ?case using ok calm_same by blast
  next
    case (2 a b s)
    from ok 2(1) have "literal_ok io a" by (simp add: world_ok_def)
    then have "literal_ok io b" unfolding 2(5) by (simp add: literal_ok_def decide_consume_def)
    moreover have "settled a b" unfolding 2(5) by (simp add: settled_def same_request_def decide_consume_def)
    moreover have "taApprovedAt b = taApprovedAt a" unfolding 2(5) by (simp add: decide_defs revoke_permanent_def Let_def)
    ultimately show ?case
      using calm_replaced [OF ok 2(1) 2(8) 2(9)] by blast
  qed
qed

lemma RevokePermanentApproval_calm:
  assumes ok: "world_ok io w" and run: "RevokePermanentApproval memory_port now i p w = (r, w')"
  shows "calm io w w'"
proof -
  from ok have inv: "mem_invar (awRepo w)" by (simp add: world_ok_def)
  from mem.RevokePermanentApproval_cases [OF inv run] show ?thesis
  proof (elim disjE exE conjE, goal_cases)
    case 1
    then show ?case using ok calm_same by blast
  next
    case (2 a b s)
    from ok 2(1) have "literal_ok io a" by (simp add: world_ok_def)
    then have "literal_ok io b" unfolding 2(4) by (simp add: literal_ok_def revoke_permanent_def)
    moreover have "settled a b" unfolding 2(4)
      using 2(3) by (simp add: settled_def same_request_def revoke_permanent_def revocable_def)
    moreover have "taApprovedAt b = taApprovedAt a" unfolding 2(4) by (simp add: decide_defs revoke_permanent_def Let_def)
    ultimately show ?case
      using calm_replaced [OF ok 2(1) 2(7) 2(8)] by blast
  qed
qed
lemma retired_at: "taApprovedAt (retire t a e) = taApprovedAt e"
  by (simp add: retire_def)

text \<open>A creation stores one approval under the drawn identifier and retires others.\<close>

lemma CreatePendingApproval_ok:
  assumes ok: "world_ok io w" and fresh: "mem_abs (awRepo w) i = None" and io: "acFloats cfg = io"
    and run: "CreatePendingApproval memory_port cfg now rnow i req w = (r, w')"
  shows "world_ok io w' \<and> later (mem_abs (awRepo w)) (mem_abs (awRepo w')) \<and>
    dom (mem_abs (awRepo w')) \<subseteq> insert i (dom (mem_abs (awRepo w)))"
proof -
  from ok have inv: "mem_invar (awRepo w)" by (simp add: world_ok_def)
  have same: "awRepo w' = awRepo w \<Longrightarrow> ?thesis"
    using calm_same [OF ok] by (auto simp: calm_def harmless_def later_def)
  from mem.CreatePendingApproval_cases [OF inv fresh run] show ?thesis
  proof (elim disjE [of "_ = awRepo w \<and> _"] exE conjE, goal_cases)
    case (3 a)
    note new = ApplyExactPatterns_new [OF 3(1)]
    have abs: "mem_abs (awRepo w') = (\<lambda>j. map_option (retire rnow a) (mem_abs (awRepo w) j))(i \<mapsto> a)" by fact
    have "literal_ok io a" using new by (simp add: literal_ok_def)
    moreover have "literal_ok io (retire rnow a e)" if "mem_abs (awRepo w) j = Some e" for j e
    proof -
      from ok that have "literal_ok io e" by (simp add: world_ok_def)
      then show ?thesis by (simp add: literal_ok_def)
    qed
    ultimately have "world_ok io w'" using 3(3) unfolding world_ok_def abs by auto
    moreover have "keeps (mem_abs (awRepo w)) (mem_abs (awRepo w'))"
      unfolding keeps_def
    proof (intro allI impI)
      fix j e
      assume e: "mem_abs (awRepo w) j = Some e"
      with fresh have "mem_abs (awRepo w') j = Some (retire rnow a e)" unfolding abs by auto
      moreover have "settled e (retire rnow a e)" by (simp add: settled_def retire_def)
      ultimately show "\<exists>b. mem_abs (awRepo w') j = Some b \<and> settled e b" by blast
    qed
    moreover have "taApprovedAt a = None"
      using 3(1) by (auto simp: ApplyExactPatterns_def Let_def new_approval_def split: option.splits)
    then have "granted (mem_abs (awRepo w')) \<subseteq> granted (mem_abs (awRepo w))"
      unfolding abs by (auto simp: granted_def retired_at split: if_splits)
    moreover have "dom (mem_abs (awRepo w')) \<subseteq> insert i (dom (mem_abs (awRepo w)))"
      unfolding abs by (auto split: if_splits)
    ultimately show ?case unfolding later_def by blast
  qed (use same in blast)+
qed

lemma ConsumeHandler_calm:
  assumes "world_ok io w" and "ConsumeHandler memory_port parse now ctx rawID w = (rep, w')"
  shows "calm io w w'"
  using assms(2) ConsumeApproval_calm [OF assms(1)] calm_same [OF assms(1)]
  by (auto simp: ConsumeHandler_def split: option.splits prod.splits sum.splits if_splits)

text \<open>When the consume endpoint answers 200 the approval is consumed.\<close>

lemma mapDomainError_status: "repStatus (mapDomainError e) \<noteq> 200"
  by (auto simp: mapDomainError_def split: if_splits service_error.splits)

lemma ConsumeHandler_200:
  assumes "mem_invar (awRepo w)" and run: "ConsumeHandler memory_port parse now ctx rawID w = (rep, w')" and "repStatus rep = 200"
  shows "\<exists>i a. parse rawID = Some i \<and> mem_abs (awRepo w') i = Some a \<and> taConsumed a"
proof -
  from run assms(3) obtain p i a where i: "parse rawID = Some i"
    and c: "ConsumeApproval memory_port now i p w = (Inr a, w')"
    using mapDomainError_status
    by (auto simp: ConsumeHandler_def bad_request_def split: option.splits prod.splits sum.splits if_splits)
  from mem.ConsumeApproval_cases [OF assms(1) c] have "\<exists>a. mem_abs (awRepo w') i = Some a \<and> taConsumed a"
    by (auto simp: decide_consume_def)
  with i show ?thesis by blast
qed

lemma CreateHandler_ok:
  assumes "world_ok io w" and "mem_abs (awRepo w) i = None" and "acFloats cfg = io"
    and "CreateHandler memory_port cfg now rnow i ctx tp body w = (rep, w')"
  shows "world_ok io w' \<and> later (mem_abs (awRepo w)) (mem_abs (awRepo w')) \<and>
    dom (mem_abs (awRepo w')) \<subseteq> insert i (dom (mem_abs (awRepo w)))"
proof (cases "w' = w")
  case False
  with assms(4) obtain req r where "CreatePendingApproval memory_port cfg now rnow i req w = (r, w')"
    by (auto simp: CreateHandler_def Let_def split: option.splits prod.splits sum.splits if_splits)
  from CreatePendingApproval_ok [OF assms(1-3) this] show ?thesis .
next
  case True
  with assms(1) show ?thesis by auto
qed

section \<open>What a sync answer says\<close>

text \<open>A cached record is backed when the broker holds the approval it is a copy of.\<close>

definition backed :: "(approval_id \<rightharpoonup> ToolApproval) \<Rightarrow> pairKey \<Rightarrow> Record \<Rightarrow> bool" where
  "backed m k r \<longleftrightarrow> rcStatus r = ''approved'' \<longrightarrow>
     (\<exists>a. m (rcID r) = Some a \<and> taPrincipal a = fst k \<and> taAgentID a = snd k \<and> taStatus a \<noteq> ApprovalStatusPending \<and>
        taToolPattern a = rcToolPattern r \<and> copyParamsPattern (taParamsPattern a) = rcParamsPattern r \<and>
        taApprovedAt a = rcApprovedAt r \<and>
        (taStatus a = ApprovalStatusApproved \<and> map_option persistence_string (taPersistence a) = rcPersistence r \<or>
         taStatus a = ApprovalStatusDenied \<and> taPersistence a = None))"

lemma backed_flags: "backed m k r \<Longrightarrow> backed m k (r\<lparr>rcConsumed := x, rcReserved := y\<rparr>)"
  by (simp add: backed_def)

lemma backed_keeps:
  assumes "backed m k r" and "keeps m m'"
  shows "backed m' k r"
  unfolding backed_def
proof
  assume "rcStatus r = ''approved''"
  with assms(1) obtain a where a: "m (rcID r) = Some a" "taPrincipal a = fst k" "taAgentID a = snd k"
      "taStatus a \<noteq> ApprovalStatusPending" "taToolPattern a = rcToolPattern r"
      "copyParamsPattern (taParamsPattern a) = rcParamsPattern r" "taApprovedAt a = rcApprovedAt r"
    and st: "taStatus a = ApprovalStatusApproved \<and> map_option persistence_string (taPersistence a) = rcPersistence r \<or>
      taStatus a = ApprovalStatusDenied \<and> taPersistence a = None"
    by (auto simp: backed_def)
  from assms(2) a(1) obtain b where b: "m' (rcID r) = Some b" "settled a b" unfolding keeps_def by blast
  from b(2) a(4) have same: "taPrincipal b = taPrincipal a" "taAgentID b = taAgentID a" "taStatus b \<noteq> ApprovalStatusPending"
    "taToolPattern b = taToolPattern a" "taParamsPattern b = taParamsPattern a" "taApprovedAt b = taApprovedAt a"
    by (simp_all add: settled_def same_request_def)
  from b(2) a(4) st have "taStatus b = ApprovalStatusApproved \<and> map_option persistence_string (taPersistence b) = rcPersistence r \<or>
      taStatus b = ApprovalStatusDenied \<and> taPersistence b = None"
    by (auto simp: settled_def)
  with a b(1) same show "\<exists>a. m' (rcID r) = Some a \<and> taPrincipal a = fst k \<and> taAgentID a = snd k \<and>
      taStatus a \<noteq> ApprovalStatusPending \<and> taToolPattern a = rcToolPattern r \<and>
      copyParamsPattern (taParamsPattern a) = rcParamsPattern r \<and> taApprovedAt a = rcApprovedAt r \<and>
      (taStatus a = ApprovalStatusApproved \<and> map_option persistence_string (taPersistence a) = rcPersistence r \<or>
       taStatus a = ApprovalStatusDenied \<and> taPersistence a = None)"
    by (intro exI [of _ b]) simp
qed

definition pairs_all :: "(pairKey \<Rightarrow> Record \<Rightarrow> bool) \<Rightarrow> Pair list \<Rightarrow> bool" where
  "pairs_all P pairs \<longleftrightarrow> (\<forall>pair \<in> set pairs. \<forall>r \<in> set (paApprovals pair). P (key_of (paIdentity pair)) r)"

text \<open>The strings of the statuses are told apart, so the record says what the approval is.\<close>

lemma record_of_backed:
  assumes "m i = Some a" and "taID a = i" and "ApprovalStatus_IsValid (taStatus a)"
  shows "backed m (taPrincipal a, taAgentID a) (record_of (toSummary a))"
  using assms
  by (cases "taStatus a") (auto simp: backed_def record_of_def toSummary_def copyParamsPattern_def split: option.splits)
lemma GetSyncState_member:
  assumes inv: "mem_invar s" and st: "GetSyncState memory_port rnow filt sessions s = Inr st"
    and p: "p \<in> set (ssPairs st)" and a: "a \<in> set (spApprovals p)"
  shows "\<exists>i. mem_abs s i = Some a \<and> taID a = i \<and> taPrincipal a = spPrincipal p \<and> taAgentID a = spAgentID p"
proof -
  from st obtain l where l: "repo_ListAllActive rnow filt sessions s = Inr l" and g: "ssPairs st = group_pairs l"
    by (auto simp: GetSyncState_def split: sum.splits)
  have "set (concat (map spApprovals (group_pairs l))) = set l"
    using group_pairs_ok(2) [of l] by (metis set_mset_mset)
  with p a g have "a \<in> set l" by auto
  with mem.list_Inr [OF inv, of rnow filt sessions l] l obtain i where i: "mem_abs s i = Some a" by auto
  from mem.invar_id [OF inv i] have "taID a = i" .
  moreover from group_pairs_ok(1) [of l] p a g
  have "taPrincipal a = spPrincipal p \<and> taAgentID a = spAgentID p" unfolding pairs_ok_def by metis
  ultimately show ?thesis using i by blast
qed

lemma client_Read_Inr:
  assumes "client_read etag resp = Inr (pairs, tag, False)"
  shows "\<exists>ps. hrBody resp = Some (Some ps) \<and> pairs = map read_pair ps"
  using assms by (auto simp: client_read_def split: if_splits option.splits)

text \<open>The answer of the handler, read by the client, speaks of the store at that moment.\<close>

lemma sync_answer_backed:
  assumes ok: "world_ok io w" and rd: "SyncHandler_read memory_port rnow req ch w = (reply, w')"
    and wi: "wire reply = Some resp" and cl: "client_read etag resp = Inr (pairs, tag, unchanged)"
  shows "pairs_all (backed (mem_abs (awRepo w))) pairs"
proof (cases unchanged)
  case True
  with cl have "pairs = []" by (auto simp: client_read_def split: if_splits option.splits)
  then show ?thesis by (simp add: pairs_all_def)
next
  case False
  with cl have "client_read etag resp = Inr (pairs, tag, False)" by simp
  from client_Read_Inr [OF this] obtain ps where ps: "hrBody resp = Some (Some ps)" "pairs = map read_pair ps" by blast
  then obtain st where st: "GetSyncState memory_port rnow (if sqPrincipal req \<noteq> [] then Some (sqPrincipal req) else None)
      (sqAgentSessionIDs req) (awRepo w) = Inr st" and ps': "ps = map wire_pair (sync_pairs st)"
    using rd wi by (auto simp: SyncHandler_read_def wire_def error_reply_def split: sum.splits if_splits)
  have "backed (mem_abs (awRepo w)) (key_of (paIdentity pair)) r"
    if pr: "pair \<in> set pairs" "r \<in> set (paApprovals pair)" for pair r
  proof -
    from pr(1) obtain p where p: "p \<in> set (ssPairs st)"
      and pair: "pair = read_pair (wire_pair \<lparr>syPrincipal = spPrincipal p, syAgentID = spAgentID p, syApprovals = map toSummary (spApprovals p)\<rparr>)"
      unfolding ps(2) ps' sync_pairs_def by auto
    from pr(2) obtain a where a: "a \<in> set (spApprovals p)" and r: "r = record_of (toSummary a)"
      unfolding pair by (auto simp: read_pair_def wire_pair_def)
    from ok have inv: "mem_invar (awRepo w)" by (simp add: world_ok_def)
    from GetSyncState_member [OF inv st p a] obtain i where
      i: "mem_abs (awRepo w) i = Some a" "taID a = i" "taPrincipal a = spPrincipal p" "taAgentID a = spAgentID p" by blast
    from ok i(1) have "ApprovalStatus_IsValid (taStatus a)" by (simp add: world_ok_def literal_ok_def)
    from record_of_backed [of "mem_abs (awRepo w)", OF i(1,2) this] i(3,4) show ?thesis
      by (simp add: r pair read_pair_def wire_pair_def key_of_def)
  qed
  then show ?thesis unfolding pairs_all_def by blast
qed

section \<open>A broker that keeps its word\<close>

text \<open>What the gateway relies on at the other end: every call keeps an invariant and moves along a
  relation, what a read returns satisfies a predicate, and the predicate survives the relation.\<close>

locale steady_broker =
  fixes B :: "'b broker_client"
    and inv :: "'b \<Rightarrow> bool"
    and rel :: "'b \<Rightarrow> 'b \<Rightarrow> bool"
    and P :: "'b \<Rightarrow> pairKey \<Rightarrow> Record \<Rightarrow> bool"
  assumes rel_refl: "rel b b"
    and rel_trans: "rel b b1 \<Longrightarrow> rel b1 b2 \<Longrightarrow> rel b b2"
    and P_rel: "P b k r \<Longrightarrow> rel b b' \<Longrightarrow> P b' k r"
    and P_flags: "P b k r \<Longrightarrow> P b k (r\<lparr>rcConsumed := x, rcReserved := y\<rparr>)"
    and read_ok: "inv b \<Longrightarrow> bcRead B p ss b = (q, b') \<Longrightarrow>
        inv b' \<and> rel b b' \<and> (\<forall>pairs etag. q = Inr (pairs, etag) \<longrightarrow> pairs_all (P b') pairs)"
    and create_ok: "inv b \<Longrightarrow> bcCreate B tok req b = (url, b') \<Longrightarrow> inv b' \<and> rel b b'"
    and consume_ok: "inv b \<Longrightarrow> bcConsume B tok i b = (e, b') \<Longrightarrow> inv b' \<and> rel b b'"

text \<open>What holds of every record of a cache.\<close>

definition cache_all :: "(pairKey \<Rightarrow> Record \<Rightarrow> bool) \<Rightarrow> Cache \<Rightarrow> bool" where
  "cache_all Q c \<longleftrightarrow> (\<forall>k e r. map_of (caPairs c) k = Some e \<longrightarrow> r \<in> set (peRecords e) \<longrightarrow> Q k r)"

definition flag_free :: "(pairKey \<Rightarrow> Record \<Rightarrow> bool) \<Rightarrow> bool" where
  "flag_free Q \<longleftrightarrow> (\<forall>k r x y. Q k r \<longrightarrow> Q k (r\<lparr>rcConsumed := x, rcReserved := y\<rparr>))"

lemma cache_all_mono: "cache_all Q c \<Longrightarrow> (\<And>k r. Q k r \<Longrightarrow> Q' k r) \<Longrightarrow> cache_all Q' c"
  unfolding cache_all_def by blast

lemma flag_freeD:
  assumes "flag_free Q" and "Q k r"
  shows "Q k (r\<lparr>rcConsumed := x, rcReserved := y\<rparr>)" "Q k (r\<lparr>rcReserved := y\<rparr>)"
proof -
  show "Q k (r\<lparr>rcConsumed := x, rcReserved := y\<rparr>)" using assms unfolding flag_free_def by blast
  have "Q k (r\<lparr>rcConsumed := rcConsumed r, rcReserved := y\<rparr>)" using assms unfolding flag_free_def by blast
  then show "Q k (r\<lparr>rcReserved := y\<rparr>)" by simp
qed

lemma cache_all_evict: "wf_cache c \<Longrightarrow> cache_all Q c \<Longrightarrow> cache_all Q (evictIdleLocked now c)"
  unfolding cache_all_def using evict_pairs shrunkD by blast

lemma cache_all_RecordSession: "wf_cache c \<Longrightarrow> cache_all Q c \<Longrightarrow> cache_all Q (RecordSession now sid c)"
  unfolding cache_all_def using RecordSession_pairs shrunkD by blast

lemma from_response_all: "flag_free Q \<Longrightarrow> pairs_all Q pairs \<Longrightarrow> from_response pairs k r \<Longrightarrow> Q k r"
  unfolding from_response_def pairs_all_def using flag_freeD(1) by metis
lemma match_records_all:
  assumes q: "flag_free Q" and m: "match_records io sid tool args rs = (found, rs')" and all: "\<forall>r \<in> set rs. Q k r"
  shows "\<forall>r \<in> set rs'. Q k r"
proof (cases found)
  case None
  with m have "rs' = rs" by (auto simp: match_records_def Let_def split: option.splits)
  with all show ?thesis by simp
next
  case (Some r)
  from match_records_Some [OF m [unfolded Some]] show ?thesis
  proof (elim disjE exE conjE, goal_cases)
    case (2 i)
    from 2(1) all have "Q k (rs ! i)" by simp
    then have "Q k r" using flag_freeD(2) [OF q] 2(4) by simp
    with all show ?case unfolding 2(5) using set_update_subset_insert by fastforce
  qed (use all in simp)
qed

lemma cache_all_update:
  assumes "cache_all Q c" and "\<forall>r \<in> set (peRecords e). Q k r"
  shows "cache_all Q (c\<lparr>caPairs := AList.update k e (caPairs c)\<rparr>)"
  using assms by (auto simp: cache_all_def go_map_simps)

lemma cache_all_Match:
  assumes q: "flag_free Q" and wf: "wf_cache c" and all: "cache_all Q c"
    and m: "Match io now i sid tool args c = (found, c')"
  shows "cache_all Q c' \<and> wf_cache c'"
proof -
  let ?c = "evictIdleLocked now c"
  have ev: "cache_all Q ?c" using cache_all_evict [OF wf all] .
  have "cache_all Q c'"
  proof (cases "Valid i \<and> map_of (caPairs ?c) (key_of i) \<noteq> None")
    case False
    with m ev all show ?thesis by (auto simp: Match_def Let_def split: if_splits)
  next
    case True
    then obtain e where e: "map_of (caPairs ?c) (key_of i) = Some e" by blast
    with ev have re: "\<forall>r \<in> set (peRecords e). Q (key_of i) r" unfolding cache_all_def by blast
    obtain f rs where f: "match_records io sid tool args (peRecords e) = (f, rs)" by force
    have rs: "\<forall>r \<in> set rs. Q (key_of i) r" using match_records_all [OF q f re] .
    have "c' = ?c\<lparr>caPairs := AList.update (key_of i) (e\<lparr>peLastSeen := now\<rparr>) (caPairs ?c)\<rparr> \<or>
        c' = ?c\<lparr>caPairs := AList.update (key_of i) (e\<lparr>peLastSeen := now, peRecords := rs\<rparr>) (caPairs ?c)\<rparr>"
      using m True e f by (auto simp: Match_def Let_def split: if_splits)
    then show ?thesis
      using cache_all_update [OF ev] re rs by (elim disjE) simp_all
  qed
  moreover have "wf_cache c'" using Match_wf [OF wf, of io now i sid tool args] m by simp
  ultimately show ?thesis by blast
qed

lemma set_first_all:
  assumes "flag_free Q" and "\<forall>r \<in> set rs. Q k r"
  shows "\<forall>r \<in> set (set_first i consumed rs). Q k r"
  using assms(2)
proof (induction rs)
  case (Cons r rs)
  have swap: "r\<lparr>rcReserved := False, rcConsumed := True\<rparr> = r\<lparr>rcConsumed := True, rcReserved := False\<rparr>" by simp
  have "Q k (r\<lparr>rcReserved := False, rcConsumed := True\<rparr>)" "Q k (r\<lparr>rcReserved := False\<rparr>)"
    unfolding swap using flag_freeD [OF assms(1)] Cons.prems by simp_all
  with Cons show ?case by (simp del: Record.update_convs)
qed simp

lemma cache_all_setReservation:
  assumes "flag_free Q" and "wf_cache c" and "cache_all Q c"
  shows "cache_all Q (setReservation i a consumed c) \<and> wf_cache (setReservation i a consumed c)"
proof (cases "Valid i \<and> a \<noteq> [] \<and> map_of (caPairs c) (key_of i) \<noteq> None")
  case True
  then obtain e where e: "map_of (caPairs c) (key_of i) = Some e" by blast
  with assms(3) have "\<forall>r \<in> set (peRecords e). Q (key_of i) r" unfolding cache_all_def by blast
  from set_first_all [OF assms(1) this, of a consumed] cache_all_update [OF assms(3)]
  have "cache_all Q (c\<lparr>caPairs := AList.update (key_of i) (e\<lparr>peRecords := set_first a consumed (peRecords e)\<rparr>) (caPairs c)\<rparr>)"
    by simp
  moreover have "setReservation i a consumed c =
      c\<lparr>caPairs := AList.update (key_of i) (e\<lparr>peRecords := set_first a consumed (peRecords e)\<rparr>) (caPairs c)\<rparr>"
    using True e by (simp add: setReservation_def)
  ultimately show ?thesis using setReservation_wf [OF assms(2)] by metis
next
  case False
  then have "setReservation i a consumed c = c" by (auto simp: setReservation_def)
  with assms show ?thesis by simp
qed

lemma replacement_all:
  assumes "flag_free Q" and "pairs_all Q pairs" and "\<forall>i. ok i \<longrightarrow> Valid i"
    and "map_of (build_replacement ok now old pairs) k = Some e" and "r \<in> set (peRecords e)"
  shows "Q k r"
  using from_response_all [OF assms(1,2)] replacement_from_response [OF assms(4,3,5)] by blast

lemma cache_all_Replace:
  assumes "flag_free Q" and "wf_cache c" and "cache_all Q c" and "pairs_all Q pairs"
  shows "cache_all Q (Replace now pairs etag c) \<and> wf_cache (Replace now pairs etag c)"
proof (cases "fst (acceptVersionLocked etag c)")
  case True
  show ?thesis
    using Replace_accepted [OF True] replacement_all [OF assms(1,4), of Valid] Replace_wf [OF assms(2)]
    by (simp add: cache_all_def)
next
  case False
  then obtain c' where a: "acceptVersionLocked etag c = (False, c')" by (metis prod.collapse)
  from acceptVersion_cases [OF a] have "c' = c" by blast
  with a have "Replace now pairs etag c = c" by (simp add: Replace_def)
  with assms show ?thesis by simp
qed

lemma cache_all_ReplaceForPrincipal:
  assumes q: "flag_free Q" and wf: "wf_cache c" and all: "cache_all Q c" and pairs: "pairs_all Q pairs" and p: "p \<noteq> []"
    and run: "ReplaceForPrincipal now p pairs etag c = (ok, c')"
  shows "cache_all Q c' \<and> wf_cache c'"
proof (cases ok)
  case True
  with run have "ReplaceForPrincipal now p pairs etag c = (True, c')" by simp
  note r = ReplaceForPrincipal_pairs [OF wf p this]
  have "Q k x" if "map_of (caPairs c') k = Some e" "x \<in> set (peRecords e)" for k e x
  proof (cases "fst k = p")
    case True
    with r [of k] that(1)
    have "map_of (build_replacement (\<lambda>i. Valid i \<and> idPrincipal i = p) now (caPairs c) pairs) k = Some e" by simp
    from replacement_all [OF q pairs _ this that(2)] show ?thesis by blast
  next
    case False
    with r [of k] that(1) have "map_of (caPairs c) k = Some e" by simp
    with all that(2) show ?thesis unfolding cache_all_def by blast
  qed
  then show ?thesis using r unfolding cache_all_def by blast
next
  case False
  with run have "ReplaceForPrincipal now p pairs etag c = (False, c')" by simp
  from ReplaceForPrincipal_refused [OF this] all wf show ?thesis by simp
qed

lemma cache_all_Released:
  assumes "flag_free Q" and "wf_cache c" and "cache_all Q c"
  shows "cache_all Q (Release i a c) \<and> wf_cache (Release i a c)"
    "cache_all Q (ConfirmConsumed i a c) \<and> wf_cache (ConfirmConsumed i a c)"
  using cache_all_setReservation [OF assms] by (simp_all add: Release_def ConfirmConsumed_def)
context steady_broker
begin

lemma P_flag_free: "flag_free (P b)"
  unfolding flag_free_def using P_flags by blast

lemma cache_all_rel: "cache_all (P b) c \<Longrightarrow> rel b b' \<Longrightarrow> cache_all (P b') c"
  using cache_all_mono P_rel by blast

lemma enforce_ok:
  assumes "inv b" and "wf_cache c" and "cache_all (P b) c" and "enforceDecision B invocation r (c, b) = (out, c', b')"
  shows "inv b' \<and> rel b b' \<and> wf_cache c' \<and> cache_all (P b') c'"
proof (cases "rcStatus r = ''denied'' \<or> rcPersistence r \<noteq> Some ''once''")
  case True
  with assms(4) have "b' = b" "c' = c" by (auto simp: enforceDecision_def split: if_splits)
  with assms rel_refl show ?thesis by blast
next
  case False
  obtain e b1 where e: "bcConsume B (ivSubjectToken invocation) (rcID r) b = (e, b1)" by force
  note c = consume_ok [OF assms(1) e]
  have all: "cache_all (P b1) c" using cache_all_rel assms(3) c by blast
  have "b' = b1" "c' = Release (ivIdentity invocation) (rcID r) c \<or> c' = ConfirmConsumed (ivIdentity invocation) (rcID r) c"
    using assms(4) False e by (auto simp: enforceDecision_def split: option.splits)
  with c cache_all_Released [OF P_flag_free assms(2) all] show ?thesis by blast
qed

lemma elicit_ok:
  assumes "inv b" and "elicit B invocation (c, b) = (out, c', b')"
  shows "inv b' \<and> rel b b' \<and> c' = c"
proof -
  obtain url b1 where u: "bcCreate B (ivSubjectToken invocation) (create_request invocation) b = (url, b1)" by force
  with assms(2) have "b' = b1" "c' = c" by (auto simp: elicit_def split: sum.splits if_splits)
  with create_ok [OF assms(1) u] show ?thesis by blast
qed

lemma refresh_ok:
  assumes inv: "inv b" and wf: "wf_cache c" and all: "cache_all (P b) c" and v: "Valid (ivIdentity invocation)"
    and run: "refresh io t3 t4 B invocation (c, b) = (out, c', b')"
  shows "inv b' \<and> rel b b' \<and> wf_cache c' \<and> cache_all (P b') c'"
proof -
  let ?p = "idPrincipal (ivIdentity invocation)"
  from v have p: "?p \<noteq> []" by (simp add: Valid_def)
  obtain q b1 where rd: "bcRead B ?p (ActiveSessions c) b = (q, b1)" by force
  note r = read_ok [OF inv rd]
  have all1: "cache_all (P b1) c" using cache_all_rel all r by blast
  show ?thesis
  proof (cases q)
    case (Inl e)
    with run rd have "b' = b1" "c' = c" by (auto simp: refresh_def)
    with r all1 wf show ?thesis by blast
  next
    case (Inr x)
    obtain pairs etag where x: "x = (pairs, etag)" by force
    with Inr r have pairs: "pairs_all (P b1) pairs" by blast
    obtain ok c1 where rp: "ReplaceForPrincipal t3 ?p pairs etag c = (ok, c1)" by force
    note c1 = cache_all_ReplaceForPrincipal [OF P_flag_free wf all1 pairs p rp]
    obtain found c2 where m: "Match io t4 (ivIdentity invocation) (ivAgentSessionID invocation) (ivToolName invocation) (ivArguments invocation) c1 = (found, c2)"
      by force
    note c2 = cache_all_Match [OF P_flag_free _ _ m, of b1]
    show ?thesis
    proof (cases "ok")
      case False
      with run rd Inr x rp have "b' = b1" "c' = c1" by (auto simp: refresh_def)
      with r c1 show ?thesis by blast
    next
      case True
      show ?thesis
      proof (cases found)
        case None
        with True run rd Inr x rp m have "elicit B invocation (c2, b1) = (out, c', b')" by (simp add: refresh_def)
        from elicit_ok [OF _ this] r have "inv b'" "rel b1 b'" "c' = c2" by blast+
        with r c1 c2 rel_trans cache_all_rel show ?thesis by blast
      next
        case (Some rec)
        with True run rd Inr x rp m have "enforceDecision B invocation rec (c2, b1) = (out, c', b')" by (simp add: refresh_def)
        from enforce_ok [OF _ _ _ this] r c1 c2 rel_trans show ?thesis by blast
      qed
    qed
  qed
qed

text \<open>One call of the gate keeps the cache true to the broker.\<close>

lemma Evaluate_ok:
  assumes inv: "inv b" and wf: "wf_cache c" and all: "cache_all (P b) c"
    and run: "Evaluate io t1 t2 t3 t4 (Some B) invocation (Some c, b) = (out, c', b')"
  shows "inv b' \<and> rel b b' \<and> (\<exists>c1. c' = Some c1 \<and> wf_cache c1 \<and> cache_all (P b') c1)"
proof (cases "Valid (ivIdentity invocation) \<and> TrimSpace (ivSubjectToken invocation) \<noteq> []")
  case False
  with run have "b' = b" "c' = Some c" by (auto simp: Evaluate_def split: if_splits)
  with inv wf all rel_refl show ?thesis by blast
next
  case True
  let ?c1 = "RecordSession t1 (ivAgentSessionID invocation) c"
  have c1: "wf_cache ?c1" "cache_all (P b) ?c1"
    using RecordSession_wf [OF wf] cache_all_RecordSession [OF wf all] by blast+
  obtain found c2 where m: "Match io t2 (ivIdentity invocation) (ivAgentSessionID invocation) (ivToolName invocation) (ivArguments invocation) ?c1 = (found, c2)"
    by force
  note c2 = cache_all_Match [OF P_flag_free c1 m]
  show ?thesis
  proof (cases found)
    case None
    with True run m obtain c3 where "refresh io t3 t4 B invocation (c2, b) = (out, c3, b')" "c' = Some c3"
      by (auto simp: Evaluate_def Let_def split: prod.splits)
    with refresh_ok [OF inv _ _ _ this(1)] c2 True show ?thesis by blast
  next
    case (Some r)
    with True run m obtain c3 where "enforceDecision B invocation r (c2, b) = (out, c3, b')" "c' = Some c3"
      by (auto simp: Evaluate_def Let_def split: prod.splits)
    with enforce_ok [OF inv _ _ this(1)] c2 show ?thesis by blast
  qed
qed

text \<open>A call that passes rests on a record the broker stands for, at the end of the call, and for a
  one-use record the broker has answered the request to consume it.\<close>

lemma Evaluate_backed:
  assumes inv: "inv b" and wf: "wf_cache c" and all: "cache_all (P b) c"
    and run: "Evaluate io t1 t2 t3 t4 (Some B) invocation (Some c, b) = (out, c', b')" and ok: "ouProceed out"
  shows "\<exists>r b1. licenses io invocation r \<and> P b' (key_of (ivIdentity invocation)) r \<and> inv b1 \<and>
    (rcPersistence r = Some ''once'' \<longrightarrow> bcConsume B (ivSubjectToken invocation) (rcID r) b1 = (None, b'))"
proof -
  let ?k = "key_of (ivIdentity invocation)"
  from Evaluate_proceeds [OF wf run ok] obtain r b1 where l: "licenses io invocation r"
    and src: "(\<exists>e q. b1 = b \<and> map_of (caPairs c) ?k = Some e \<and> q \<in> set (peRecords e) \<and> r = q\<lparr>rcReserved := rcReserved r\<rparr>) \<or>
        (\<exists>sessions pairs etag. bcRead B (idPrincipal (ivIdentity invocation)) sessions b = (Inr (pairs, etag), b1) \<and>
           from_response pairs ?k r)"
    and con: "if rcPersistence r = Some ''once'' then bcConsume B (ivSubjectToken invocation) (rcID r) b1 = (None, b') else b' = b1"
    by blast
  from src have ok1: "inv b1 \<and> P b1 ?k r"
  proof (elim disjE exE conjE, goal_cases)
    case (1 e q)
    from all 1(2,3) have "P b ?k q" unfolding cache_all_def by blast
    from flag_freeD(2) [OF P_flag_free this, of "rcReserved r"] 1(1,4) inv show ?case by simp
  next
    case (2 sessions pairs etag)
    from read_ok [OF inv 2(1)] have "inv b1" "pairs_all (P b1) pairs" by auto
    with from_response_all [OF P_flag_free _ 2(2)] show ?case by blast
  qed
  then have "rel b1 b'" using con consume_ok rel_refl by (auto split: if_splits)
  with ok1 have "P b' ?k r" using P_rel by blast
  moreover have "rcPersistence r = Some ''once'' \<longrightarrow> bcConsume B (ivSubjectToken invocation) (rcID r) b1 = (None, b')"
    using con by simp
  ultimately show ?thesis using l ok1 by blast
qed

end
section \<open>The broker is such a broker\<close>

lemma harmless_served:
  assumes "served_ok io b" and "harmless io (seWorld b) w"
  shows "served_ok io (b\<lparr>seWorld := w\<rparr>) \<and> keeps (stored b) (mem_abs (awRepo w))"
proof -
  have "mem_abs (awRepo w) (seDraws b n) = None" for n
  proof -
    have "seDraws b n \<notin> dom (stored b)" using assms(1) by (auto simp: served_ok_def)
    then show ?thesis using assms(2) by (auto simp: harmless_def)
  qed
  with assms show ?thesis by (simp add: served_ok_def harmless_def)
qed

lemma calm_served:
  assumes "served_ok io b" and "calm io (seWorld b) w"
  shows "served_ok io (b\<lparr>seWorld := w\<rparr>) \<and> later (stored b) (mem_abs (awRepo w))"
  using harmless_served [OF assms(1)] assms(2) by (simp add: calm_def later_def)

lemma created_served:
  assumes ok: "served_ok io b" and w: "world_ok io w"
    and d: "dom (mem_abs (awRepo w)) \<subseteq> insert (seDraws b 0) (dom (stored b))"
  shows "served_ok io \<lparr>seWorld = w, seDraws = (\<lambda>n. seDraws b (Suc n))\<rparr>"
proof -
  from ok have inj: "inj (seDraws b)" and new: "\<And>n. stored b (seDraws b n) = None" by (auto simp: served_ok_def)
  have "mem_abs (awRepo w) (seDraws b (Suc n)) = None" for n
  proof -
    have "seDraws b (Suc n) \<noteq> seDraws b 0" using inj by (simp add: inj_eq)
    moreover have "seDraws b (Suc n) \<notin> dom (stored b)" using new by auto
    ultimately show ?thesis using d by auto
  qed
  moreover have "inj (\<lambda>n. seDraws b (Suc n))" by (rule injI) (use inj in \<open>simp add: inj_eq\<close>)
  ultimately show ?thesis using w by (simp add: served_ok_def)
qed

lemma SyncHandler_repo:
  "SyncHandler_ServeHTTP memory_port now req w = (rep, w') \<Longrightarrow> awRepo w' = awRepo w"
  by (auto simp: SyncHandler_ServeHTTP_def SyncHandler_start_def SyncHandler_read_def release_subscription_def
      split: prod.splits option.splits sum.splits sync_phase.splits if_splits)

lemma SyncHandler_unconditional:
  "SyncHandler_ServeHTTP memory_port now (sync_query p ss [] t) w =
     (case SyncHandler_read memory_port now (sync_query p ss [] t) None w of (a, w') \<Rightarrow> (Some a, w'))"
  by (simp add: SyncHandler_ServeHTTP_def SyncHandler_start_def client_version_def sync_query_def)

lemma client_Read_read: "client_Read resp = Inr (pairs, etag) \<Longrightarrow> client_read [] resp = Inr (pairs, etag, False)"
  by (auto simp: client_Read_def split: sum.splits if_splits)

lemma served_Read_ok:
  assumes ok: "served_ok io b" and run: "served_Read S p ss b = (q, b')"
  shows "served_ok io b' \<and> later (stored b) (stored b') \<and>
    (\<forall>pairs etag. q = Inr (pairs, etag) \<longrightarrow> pairs_all (backed (stored b')) pairs)"
proof (cases "b' = b \<and> isl q")
  case True
  with ok show ?thesis by (cases q) auto
next
  case False
  have err: "isl (client_Read (error_reply status))" for status
    by (simp add: client_Read_def client_read_def error_reply_def isl_def split: sum.splits if_splits)
  obtain a w where sr: "SyncHandler_read memory_port (bsNow S) (sync_query p ss [] []) None (seWorld b) = (a, w)" by force
  from False run err sr have b': "b' = b\<lparr>seWorld := w\<rparr>"
    and q: "q = (case wire a of None \<Rightarrow> Inl no_answer | Some resp \<Rightarrow> client_Read resp)"
    by (auto simp: served_Read_def SyncHandler_unconditional split: sum.splits option.splits)
  have repo: "awRepo w = awRepo (seWorld b)"
    using SyncHandler_repo [OF SyncHandler_unconditional [of "bsNow S" p ss "[]" "seWorld b", unfolded sr prod.case]] .
  have wok: "world_ok io (seWorld b)" using ok by (simp add: served_ok_def)
  have "pairs_all (backed (stored b')) pairs" if "q = Inr (pairs, etag)" for pairs etag
  proof -
    from that q obtain resp where r: "wire a = Some resp" "client_Read resp = Inr (pairs, etag)"
      by (auto split: option.splits)
    from sync_answer_backed [OF wok sr r(1) client_Read_read [OF r(2)]] repo b' show ?thesis by simp
  qed
  moreover have "calm io (seWorld b) w" using calm_same [OF wok repo] .
  ultimately show ?thesis using calm_served [OF ok] b' by simp
qed

lemma served_Create_ok:
  assumes ok: "served_ok (acFloats (bsConfig S)) b" and run: "served_Create S tok request b = (url, b')"
  shows "served_ok (acFloats (bsConfig S)) b' \<and> later (stored b) (stored b')"
proof (cases "b' = b")
  case False
  with run obtain ctx rep w where c: "CreateHandler memory_port (bsConfig S) (bsNow S) (bsNow S) (seDraws b 0) ctx None
      (Some (create_body request)) (seWorld b) = (rep, w)" and b': "b' = \<lparr>seWorld = w, seDraws = (\<lambda>n. seDraws b (Suc n))\<rparr>"
    by (auto simp: served_Create_def split: sum.splits prod.splits if_splits)
  from ok have w0: "world_ok (acFloats (bsConfig S)) (seWorld b)" "stored b (seDraws b 0) = None" by (auto simp: served_ok_def)
  from CreateHandler_ok [OF w0 refl c] have w: "world_ok (acFloats (bsConfig S)) w" "later (stored b) (mem_abs (awRepo w))"
    "dom (mem_abs (awRepo w)) \<subseteq> insert (seDraws b 0) (dom (stored b))" by blast+
  from created_served [OF ok w(1,3)] w(2) b' show ?thesis by simp
next
  case True
  with ok show ?thesis by simp
qed

lemma served_Consume_ok:
  assumes ok: "served_ok io b" and run: "served_Consume S tok i b = (e, b')"
  shows "served_ok io b' \<and> later (stored b) (stored b')"
proof (cases "b' = b")
  case False
  with run obtain ctx rep w where c: "ConsumeHandler memory_port (bsParse S) (bsNow S) ctx i (seWorld b) = (rep, w)"
    and b': "b' = b\<lparr>seWorld := w\<rparr>"
    by (auto simp: served_Consume_def split: sum.splits prod.splits if_splits)
  from ok have "world_ok io (seWorld b)" by (simp add: served_ok_def)
  from calm_served [OF ok ConsumeHandler_calm [OF this c]] b' show ?thesis by simp
next
  case True
  with ok show ?thesis by simp
qed

text \<open>A refused subject token is answered with an error status, so the client sees success only when
  the handler answered.\<close>

lemma extractBearerToken_status: "extractBearerToken h label = Inl err \<Longrightarrow> aeStatus err = 401"
  by (auto simp: extractBearerToken_def unauthorized_error_def Let_def split: if_splits)

lemma subject_token_refused: "RequireApprovalSubjectToken lib now canceled a header ctx = Inl err \<Longrightarrow> aeStatus err \<noteq> 200"
  by (auto simp: RequireApprovalSubjectToken_def authenticateConsume_def authenticateSubjectToken_def unauthorized_error_def
      forbidden_error_def unavailable_error_def Let_def dest: extractBearerToken_status split: sum.splits option.splits prod.splits if_splits)

lemma served_Consume_None:
  assumes ok: "served_ok io b" and run: "served_Consume S tok i b = (None, b')"
  shows "\<exists>j a. bsParse S i = Some j \<and> stored b' j = Some a \<and> taConsumed a"
proof -
  have some: "client_Consume tok i status = None \<Longrightarrow> TrimSpace tok \<noteq> [] \<and> i \<noteq> [] \<and> status = 200" for status
    by (auto simp: client_Consume_def split: if_splits)
  let ?auth = "RequireApprovalSubjectToken (bsLib S) (bsNow S) False (bsAuthenticator S) (request_header tok []) empty_context"
  have "?auth \<noteq> Inl err" for err
  proof
    assume refused: "?auth = Inl err"
    with run have "\<exists>status. client_Consume tok i status = None \<and> (TrimSpace tok \<noteq> [] \<longrightarrow> i \<noteq> [] \<longrightarrow> status = aeStatus err)"
      by (auto simp: served_Consume_def split: if_splits)
    with some have "aeStatus err = 200" by blast
    with subject_token_refused [OF refused] show False by simp
  qed
  then obtain ctx where auth: "?auth = Inr ctx" by (cases ?auth) auto
  obtain rep w where c: "ConsumeHandler memory_port (bsParse S) (bsNow S) ctx i (seWorld b) = (rep, w)" by (metis surj_pair)
  have "b' = b\<lparr>seWorld := w\<rparr> \<and> client_Consume tok i (repStatus rep) = None"
  proof (cases "TrimSpace tok = [] \<or> i = []")
    case True
    with run some show ?thesis by (auto simp: served_Consume_def)
  next
    case False
    with run auth c show ?thesis by (auto simp: served_Consume_def)
  qed
  then have b': "b' = b\<lparr>seWorld := w\<rparr>" and "repStatus rep = 200" using some by blast+
  from ok have "mem_invar (awRepo (seWorld b))" by (simp add: served_ok_def world_ok_def)
  from ConsumeHandler_200 [OF this c \<open>repStatus rep = 200\<close>] b' show ?thesis by simp
qed

interpretation served: steady_broker "broker_of S" "served_ok (acFloats (bsConfig S))"
  "\<lambda>b b'. later (stored b) (stored b')" "\<lambda>b. backed (stored b)" for S :: "('ks, 'l) broker_setup"
proof (unfold_locales, goal_cases)
  case (5 b p ss q b')
  then show ?case using served_Read_ok [of "acFloats (bsConfig S)" b S p ss q b'] by (simp add: broker_of_def)
next
  case (6 b tok req url b')
  then show ?case using served_Create_ok [of S b tok req url b'] by (simp add: broker_of_def)
next
  case (7 b tok i e b')
  then show ?case using served_Consume_ok [of "acFloats (bsConfig S)" b S tok i e b'] by (simp add: broker_of_def)
next
  case (2 b b1 b2)
  then show ?case by (rule later_trans)
next
  case (3 b k r b')
  then show ?case using backed_keeps by (simp add: later_def)
qed (simp_all add: backed_flags)

section \<open>Deployments\<close>

record 'l mesh =
  meServed :: "'l served"
  meCaches :: "nat \<Rightarrow> Cache"
  meReplies :: "poll_reply list"

text \<open>One step of a deployment: a user's request, a tool call at a gateway, an answer to a sync
  request leaving the broker (the client sent \<open>etag\<close>), an answer in flight applied by a gateway, or
  an eviction.\<close>

inductive mesh_step :: "float_io \<Rightarrow> 'l mesh \<Rightarrow> 'l mesh \<Rightarrow> bool" for io where
  approve: "ApproveHandler memory_port io parse now rnow xnow ctx rawID body (seWorld (meServed m)) = (rep, w) \<Longrightarrow>
    mesh_step io m (m\<lparr>meServed := (meServed m)\<lparr>seWorld := w\<rparr>\<rparr>)"
| deny: "DenyHandler memory_port parse now rnow xnow ctx rawID dbody (seWorld (meServed m)) = (drep, w) \<Longrightarrow>
    mesh_step io m (m\<lparr>meServed := (meServed m)\<lparr>seWorld := w\<rparr>\<rparr>)"
| revoke: "RevokeHandler memory_port parse now ctx rawID (seWorld (meServed m)) = (drep, w) \<Longrightarrow>
    mesh_step io m (m\<lparr>meServed := (meServed m)\<lparr>seWorld := w\<rparr>\<rparr>)"
| call: "acFloats (bsConfig (S :: (jwk list, 'l) broker_setup)) = io \<Longrightarrow>
    Evaluate io t1 t2 t3 t4 (Some (broker_of S)) invocation (Some (meCaches m g), meServed m) = (out, Some c, b) \<Longrightarrow>
    mesh_step io m (m\<lparr>meServed := b, meCaches := (meCaches m)(g := c)\<rparr>)"
| answer: "SyncHandler_read memory_port rnow req ch (seWorld (meServed m)) = (reply, w) \<Longrightarrow>
    wire reply = Some resp \<Longrightarrow>
    mesh_step io m (m\<lparr>meServed := (meServed m)\<lparr>seWorld := w\<rparr>, meReplies := client_read etag resp # meReplies m\<rparr>)"
| apply_reply: "reply \<in> set (meReplies m) \<Longrightarrow> sync_round now reply (backoff, meCaches m g) = (backoff', wait, c) \<Longrightarrow>
    mesh_step io m (m\<lparr>meCaches := (meCaches m)(g := c)\<rparr>)"
| bootstrap: "reply \<in> set (meReplies m) \<Longrightarrow>
    mesh_step io m (m\<lparr>meCaches := (meCaches m)(g := Bootstrap now reply (meCaches m g))\<rparr>)"
| evict: "mesh_step io m (m\<lparr>meCaches := (meCaches m)(g := EvictIdle now (meCaches m g))\<rparr>)"

inductive mesh_run :: "float_io \<Rightarrow> 'l mesh \<Rightarrow> 'l mesh \<Rightarrow> bool" for io where
  mesh_stop: "mesh_run io m m"
| mesh_more: "mesh_run io m m' \<Longrightarrow> mesh_step io m' m'' \<Longrightarrow> mesh_run io m m''"

text \<open>A deployment at its start: an empty store, empty caches, nothing in flight.\<close>

definition new_mesh :: "(nat \<Rightarrow> approval_id) \<Rightarrow> time \<Rightarrow> duration \<Rightarrow> duration \<Rightarrow> (approval_mem, 'l) approval_world \<Rightarrow> 'l mesh" where
  "new_mesh draws now idleTTL maxStaleness w =
     \<lparr>meServed = \<lparr>seWorld = w\<lparr>awRepo := new_approval_mem\<rparr>, seDraws = draws\<rparr>,
      meCaches = (\<lambda>_. NewCache now idleTTL maxStaleness), meReplies = []\<rparr>"

definition reply_backed :: "(approval_id \<rightharpoonup> ToolApproval) \<Rightarrow> poll_reply \<Rightarrow> bool" where
  "reply_backed m reply = (case reply of Inl _ \<Rightarrow> True | Inr (pairs, _, _) \<Rightarrow> pairs_all (backed m) pairs)"

definition mesh_ok :: "float_io \<Rightarrow> 'l mesh \<Rightarrow> bool" where
  "mesh_ok io m \<longleftrightarrow> served_ok io (meServed m) \<and>
     (\<forall>g. wf_cache (meCaches m g) \<and> cache_all (backed (stored (meServed m))) (meCaches m g)) \<and>
     (\<forall>reply \<in> set (meReplies m). reply_backed (stored (meServed m)) reply)"

lemma backed_flag_free: "flag_free (backed m)"
  unfolding flag_free_def using backed_flags by blast

lemma pairs_all_mono: "pairs_all Q pairs \<Longrightarrow> (\<And>k r. Q k r \<Longrightarrow> Q' k r) \<Longrightarrow> pairs_all Q' pairs"
  unfolding pairs_all_def by blast

lemma reply_backed_keeps: "reply_backed m reply \<Longrightarrow> keeps m m' \<Longrightarrow> reply_backed m' reply"
  unfolding reply_backed_def using pairs_all_mono backed_keeps by (auto split: sum.splits)

text \<open>A step of the broker leaves the caches and the replies true.\<close>

lemma mesh_ok_served:
  assumes "mesh_ok io m" and "served_ok io b" and "keeps (stored (meServed m)) (stored b)"
  shows "mesh_ok io (m\<lparr>meServed := b\<rparr>)"
  unfolding mesh_ok_def
proof (intro conjI allI ballI)
  show "served_ok io (meServed (m\<lparr>meServed := b\<rparr>))" using assms(2) by simp
  fix g
  show "wf_cache (meCaches (m\<lparr>meServed := b\<rparr>) g)" using assms(1) by (simp add: mesh_ok_def)
  have "cache_all (backed (stored (meServed m))) (meCaches m g)" using assms(1) by (simp add: mesh_ok_def)
  then have "cache_all (backed (stored b)) (meCaches m g)" using cache_all_mono backed_keeps assms(3) by blast
  then show "cache_all (backed (stored (meServed (m\<lparr>meServed := b\<rparr>)))) (meCaches (m\<lparr>meServed := b\<rparr>) g)" by simp
next
  fix reply
  assume "reply \<in> set (meReplies (m\<lparr>meServed := b\<rparr>))"
  with assms(1) have "reply_backed (stored (meServed m)) reply" by (simp add: mesh_ok_def)
  from reply_backed_keeps [OF this assms(3)] show "reply_backed (stored (meServed (m\<lparr>meServed := b\<rparr>))) reply" by simp
qed

lemma mesh_ok_harmless:
  assumes "mesh_ok io m" and "harmless io (seWorld (meServed m)) w"
  shows "mesh_ok io (m\<lparr>meServed := (meServed m)\<lparr>seWorld := w\<rparr>\<rparr>)"
proof -
  from assms(1) have "served_ok io (meServed m)" by (simp add: mesh_ok_def)
  from harmless_served [OF this assms(2)] mesh_ok_served [OF assms(1)] show ?thesis by simp
qed

lemma mesh_ok_cache:
  assumes "mesh_ok io m" and "wf_cache c" and "cache_all (backed (stored (meServed m))) c"
  shows "mesh_ok io (m\<lparr>meCaches := (meCaches m)(g := c)\<rparr>)"
  using assms by (simp add: mesh_ok_def)

lemma mesh_ok_applied:
  assumes m: "mesh_ok io m" and r: "reply \<in> set (meReplies m)"
  shows "mesh_ok io (m\<lparr>meCaches := (meCaches m)(g := Bootstrap now reply (meCaches m g))\<rparr>)"
    "sync_round now reply (backoff, meCaches m g) = (backoff', wait, c) \<Longrightarrow> mesh_ok io (m\<lparr>meCaches := (meCaches m)(g := c)\<rparr>)"
proof -
  let ?Q = "backed (stored (meServed m))"
  from m r have c: "wf_cache (meCaches m g)" "cache_all ?Q (meCaches m g)" and rb: "reply_backed (stored (meServed m)) reply"
    by (auto simp: mesh_ok_def)
  have rep: "cache_all ?Q (Replace now pairs etag (meCaches m g)) \<and> wf_cache (Replace now pairs etag (meCaches m g))"
    if "reply = Inr (pairs, etag, u)" for pairs etag u
    using cache_all_Replace [OF backed_flag_free c] rb that by (simp add: reply_backed_def)
  have "cache_all ?Q (Bootstrap now reply (meCaches m g)) \<and> wf_cache (Bootstrap now reply (meCaches m g))"
    using rep c by (auto simp: Bootstrap_def split: sum.splits prod.splits)
  with mesh_ok_cache [OF m] show "mesh_ok io (m\<lparr>meCaches := (meCaches m)(g := Bootstrap now reply (meCaches m g))\<rparr>)" by blast
  assume run: "sync_round now reply (backoff, meCaches m g) = (backoff', wait, c)"
  have "cache_all ?Q (MarkSynced now (meCaches m g))" using c(2)
    by (auto simp: cache_all_def MarkSynced_def split: option.splits if_splits)
  with rep c run MarkSynced_wf [OF c(1)] have "cache_all ?Q c \<and> wf_cache c"
    by (auto simp: sync_round_def split: sum.splits prod.splits if_splits)
  with mesh_ok_cache [OF m] show "mesh_ok io (m\<lparr>meCaches := (meCaches m)(g := c)\<rparr>)" by blast
qed
lemma ApproveHandler_harmless:
  assumes "world_ok io w" and "ApproveHandler memory_port io parse now rnow xnow ctx rawID body w = (rep, w')"
  shows "harmless io w w'"
proof (cases "w' = w")
  case False
  with assms(2) obtain i p req r where "ApproveApproval memory_port io now rnow xnow i p req w = (r, w')"
    by (auto simp: ApproveHandler_def Let_def split: option.splits prod.splits sum.splits if_splits)
  from ApproveApproval_harmless [OF assms(1) this] show ?thesis .
qed (simp add: harmless_same [OF assms(1)])

lemma DenyHandler_calm:
  assumes "world_ok io w" and "DenyHandler memory_port parse now rnow xnow ctx rawID body w = (rep, w')"
  shows "calm io w w'"
proof (cases "w' = w")
  case False
  with assms(2) obtain i p per r where "DenyApproval memory_port now rnow xnow i p per w = (r, w')"
    by (auto simp: DenyHandler_def split: option.splits prod.splits sum.splits)
  from DenyApproval_calm [OF assms(1) this] show ?thesis .
qed (simp add: calm_same [OF assms(1)])

lemma RevokeHandler_calm:
  assumes "world_ok io w" and "RevokeHandler memory_port parse now ctx rawID w = (rep, w')"
  shows "calm io w w'"
proof (cases "w' = w")
  case False
  with assms(2) obtain i p r where "RevokePermanentApproval memory_port now i p w = (r, w')"
    by (auto simp: RevokeHandler_def split: option.splits prod.splits sum.splits)
  from RevokePermanentApproval_calm [OF assms(1) this] show ?thesis .
qed (simp add: calm_same [OF assms(1)])

lemma SyncHandler_read_repo: "SyncHandler_read R rnow req ch w = (rep, w') \<Longrightarrow> awRepo w' = awRepo w"
  by (auto simp: SyncHandler_read_def release_subscription_def split: sum.splits option.splits)

lemma mesh_step_ok:
  assumes "mesh_step io m m'" and "mesh_ok io m"
  shows "mesh_ok io m'"
proof -
  from assms(2) have sok: "served_ok io (meServed m)" and wok: "world_ok io (seWorld (meServed m))"
    by (auto simp: mesh_ok_def served_ok_def)
  from assms(1) show ?thesis
  proof (cases rule: mesh_step.cases)
    case (approve parse now rnow xnow ctx rawID body rep w)
    from mesh_ok_harmless [OF assms(2) ApproveHandler_harmless [OF wok approve(2)]] approve(1) show ?thesis by simp
  next
    case (deny parse now rnow xnow ctx rawID dbody drep w)
    from mesh_ok_harmless [OF assms(2)] DenyHandler_calm [OF wok deny(2)] deny(1) show ?thesis by (simp add: calm_def)
  next
    case (revoke parse now ctx rawID drep w)
    from mesh_ok_harmless [OF assms(2)] RevokeHandler_calm [OF wok revoke(2)] revoke(1) show ?thesis by (simp add: calm_def)
  next
    case (call S t1 t2 t3 t4 invocation g out c b)
    from assms(2) have c0: "wf_cache (meCaches m g)" "cache_all (backed (stored (meServed m))) (meCaches m g)"
      by (auto simp: mesh_ok_def)
    from served.Evaluate_ok [of S, unfolded call(2), OF sok c0 call(3)]
    have b: "served_ok io b" "keeps (stored (meServed m)) (stored b)" "wf_cache c" "cache_all (backed (stored b)) c"
      by (auto simp: later_def)
    from mesh_ok_cache [OF mesh_ok_served [OF assms(2) b(1,2)], of c g] b(3,4) call(1) show ?thesis by simp
  next
    case (answer rnow req ch reply w resp etag)
    have repo: "awRepo w = awRepo (seWorld (meServed m))" using SyncHandler_read_repo [OF answer(2)] .
    have m1: "mesh_ok io (m\<lparr>meServed := (meServed m)\<lparr>seWorld := w\<rparr>\<rparr>)"
      using mesh_ok_harmless [OF assms(2) harmless_same [OF wok repo]] .
    have "reply_backed (mem_abs (awRepo w)) (client_read etag resp)"
    proof (cases "client_read etag resp")
      case (Inr x)
      obtain pairs tag u where x: "x = (pairs, tag, u)" by (metis prod_cases3)
      from sync_answer_backed [OF wok answer(2,3) Inr [unfolded x]] Inr x repo show ?thesis by (simp add: reply_backed_def)
    qed (simp add: reply_backed_def)
    with m1 answer(1) show ?thesis by (simp add: mesh_ok_def)
  next
    case (apply_reply reply now backoff g backoff' wait c)
    from mesh_ok_applied(2) [OF assms(2) apply_reply(2,3)] apply_reply(1) show ?thesis by simp
  next
    case (bootstrap reply g now)
    from mesh_ok_applied(1) [OF assms(2) bootstrap(2)] bootstrap(1) show ?thesis by simp
  next
    case (evict g now)
    from assms(2) have c0: "wf_cache (meCaches m g)" "cache_all (backed (stored (meServed m))) (meCaches m g)"
      by (auto simp: mesh_ok_def)
    from mesh_ok_cache [OF assms(2) evict_fields(1) [OF c0(1)] cache_all_evict [OF c0]] evict(1) show ?thesis
      by (simp add: EvictIdle_def)
  qed
qed

lemma new_mesh_ok: "inj draws \<Longrightarrow> mesh_ok io (new_mesh draws now idleTTL maxStaleness w)"
  by (simp add: mesh_ok_def new_mesh_def served_ok_def world_ok_def new_approval_mem_def mem_invar_def mem_abs_def
      unique_open_def wf_cache_def NewCache_def cache_all_def)

lemma mesh_run_ok:
  assumes "mesh_run io m m'" and "mesh_ok io m"
  shows "mesh_ok io m'"
  using assms by (induction rule: mesh_run.induct) (auto dest: mesh_step_ok)

section \<open>Who decided\<close>

text \<open>A step in which principal \<open>p\<close> asks the broker, at time \<open>t\<close>, to approve the pending approval \<open>i\<close>
  it owns, and the broker does.\<close>

definition approve_step :: "float_io \<Rightarrow> principal \<Rightarrow> approval_id \<Rightarrow> time \<Rightarrow> 'l mesh \<Rightarrow> 'l mesh \<Rightarrow> bool" where
  "approve_step io p i t m m' \<longleftrightarrow>
     (\<exists>parse rnow xnow ctx rawID body rep w a b.
        ApproveHandler memory_port io parse t rnow xnow ctx rawID body (seWorld (meServed m)) = (rep, w) \<and>
        rxPrincipal ctx = Some p \<and> parse rawID = Some i \<and>
        stored (meServed m) i = Some a \<and> taPrincipal a = p \<and> taStatus a = ApprovalStatusPending \<and> \<not> IsExpired a t \<and>
        mem_abs (awRepo w) i = Some b \<and> taStatus b = ApprovalStatusApproved \<and> taApprovedAt b = Some t \<and>
        m' = m\<lparr>meServed := (meServed m)\<lparr>seWorld := w\<rparr>\<rparr>)"

text \<open>A history from \<open>m0\<close> to \<open>m\<close> in which such a step occurs.\<close>

definition approved_in :: "float_io \<Rightarrow> 'l mesh \<Rightarrow> 'l mesh \<Rightarrow> principal \<Rightarrow> approval_id \<Rightarrow> time \<Rightarrow> bool" where
  "approved_in io m0 m p i t \<longleftrightarrow> (\<exists>m1 m2. mesh_run io m0 m1 \<and> approve_step io p i t m1 m2 \<and> mesh_run io m2 m)"

lemma approved_in_step: "approved_in io m0 m p i t \<Longrightarrow> mesh_step io m m' \<Longrightarrow> approved_in io m0 m' p i t"
  unfolding approved_in_def using mesh_more by blast

lemma ApproveHandler_grants:
  assumes ok: "world_ok io w" and run: "ApproveHandler memory_port io parse now rnow xnow ctx rawID body w = (rep, w')"
  shows "granted (mem_abs (awRepo w')) \<subseteq> granted (mem_abs (awRepo w)) \<or>
    (\<exists>p i a b. rxPrincipal ctx = Some p \<and> parse rawID = Some i \<and> mem_abs (awRepo w) i = Some a \<and> taPrincipal a = p \<and>
       taStatus a = ApprovalStatusPending \<and> \<not> IsExpired a now \<and> mem_abs (awRepo w') = (mem_abs (awRepo w))(i \<mapsto> b) \<and>
       taStatus b = ApprovalStatusApproved \<and> taApprovedAt b = Some now)"
proof (cases "w' = w")
  case False
  with run obtain i p req r where p: "acting_principal ctx = Some p" "parse rawID = Some i"
    and op: "ApproveApproval memory_port io now rnow xnow i p req w = (r, w')"
    by (auto simp: ApproveHandler_def Let_def split: option.splits prod.splits sum.splits if_splits)
  from p(1) have "rxPrincipal ctx = Some p" by (auto simp: acting_principal_def split: option.splits if_splits)
  moreover from ok have "mem_invar (awRepo w)" by (simp add: world_ok_def)
  from ApproveApproval_memory [OF this op] False obtain a d where "mem_abs (awRepo w) i = Some a" "taPrincipal a = p"
    "IsActionable a now" "mem_abs (awRepo w') = (mem_abs (awRepo w))(i \<mapsto> decide_approve (stored_decision d) now a)"
    by blast
  ultimately show ?thesis using p(2) by (auto simp: IsActionable_def decide_approve_def)
qed simp

text \<open>A step keeps the decisions, and only an approving user adds one.\<close>

lemma mesh_step_served:
  assumes "mesh_step io m m'" and "mesh_ok io m"
  shows "keeps (stored (meServed m)) (stored (meServed m')) \<and>
    (\<forall>i t. (i, t) \<in> granted (stored (meServed m')) - granted (stored (meServed m)) \<longrightarrow>
       (\<exists>a. stored (meServed m') i = Some a \<and> approve_step io (taPrincipal a) i t m m'))"
proof -
  from assms(2) have sok: "served_ok io (meServed m)" and wok: "world_ok io (seWorld (meServed m))"
    by (auto simp: mesh_ok_def served_ok_def)
  have quiet: ?thesis if "later (stored (meServed m)) (stored (meServed m'))" using that by (auto simp: later_def)
  from assms(1) show ?thesis
  proof (cases rule: mesh_step.cases)
    case (approve parse now rnow xnow ctx rawID body rep w)
    from ApproveHandler_harmless [OF wok approve(2)] have k: "keeps (stored (meServed m)) (mem_abs (awRepo w))"
      by (simp add: harmless_def)
    have "\<exists>a. stored (meServed m') i = Some a \<and> approve_step io (taPrincipal a) i t m m'"
      if new: "(i, t) \<in> granted (stored (meServed m')) - granted (stored (meServed m))" for i t
    proof -
      from ApproveHandler_grants [OF wok approve(2)] new approve(1) obtain p j a b where
        h: "rxPrincipal ctx = Some p" "parse rawID = Some j" "stored (meServed m) j = Some a" "taPrincipal a = p"
          "taStatus a = ApprovalStatusPending" "\<not> IsExpired a now" "mem_abs (awRepo w) = (stored (meServed m))(j \<mapsto> b)"
          "taStatus b = ApprovalStatusApproved" "taApprovedAt b = Some now" by auto
      from new approve(1) h(7,9) have it: "i = j" "t = now" by (auto simp: granted_def split: if_splits)
      have "taPrincipal b = p" using keeps_principal [OF k h(3), of b] h(4,7) by simp
      moreover have "approve_step io p i t m m'"
        unfolding approve_step_def it using approve h
        by (intro exI [of _ parse] exI [of _ rnow] exI [of _ xnow] exI [of _ ctx] exI [of _ rawID] exI [of _ body]
            exI [of _ rep] exI [of _ w] exI [of _ a] exI [of _ b]) simp
      ultimately show ?thesis using approve(1) h(7) it(1) by auto
    qed
    with k approve(1) show ?thesis by simp
  next
    case (deny parse now rnow xnow ctx rawID dbody drep w)
    then show ?thesis using DenyHandler_calm [OF wok deny(2)] by (intro quiet) (simp add: calm_def harmless_def later_def)
  next
    case (revoke parse now ctx rawID drep w)
    then show ?thesis using RevokeHandler_calm [OF wok revoke(2)] by (intro quiet) (simp add: calm_def harmless_def later_def)
  next
    case (call S t1 t2 t3 t4 invocation g out c b)
    from assms(2) have c0: "wf_cache (meCaches m g)" "cache_all (backed (stored (meServed m))) (meCaches m g)"
      by (auto simp: mesh_ok_def)
    from served.Evaluate_ok [of S, unfolded call(2), OF sok c0 call(3)] call(1) show ?thesis by (intro quiet) simp
  next
    case (answer rnow req ch reply w resp etag)
    with SyncHandler_read_repo [OF answer(2)] show ?thesis by (intro quiet) simp
  qed (intro quiet, simp)+
qed

text \<open>Every approval that carries the time of its approval was approved by its owner in the history.\<close>

lemma granted_by_owner:
  assumes "mesh_run io m0 m" and "mesh_ok io m0" and "granted (stored (meServed m0)) = {}"
    and "stored (meServed m) i = Some a" and "taApprovedAt a = Some t"
  shows "approved_in io m0 m (taPrincipal a) i t"
  using assms
proof (induction arbitrary: a rule: mesh_run.induct)
  case (mesh_stop m)
  then show ?case by (auto simp: granted_def)
next
  case (mesh_more m0 m m')
  note step = mesh_step_served [OF mesh_more.hyps(2) mesh_run_ok [OF mesh_more.hyps(1) mesh_more.prems(1)]]
  show ?case
  proof (cases "(i, t) \<in> granted (stored (meServed m))")
    case True
    then obtain b where b: "stored (meServed m) i = Some b" "taApprovedAt b = Some t" by (auto simp: granted_def)
    have "taPrincipal a = taPrincipal b" using keeps_principal [OF conjunct1 [OF step] b(1) mesh_more.prems(3)] .
    with approved_in_step [OF mesh_more.IH [OF mesh_more.prems(1,2) b] mesh_more.hyps(2)] show ?thesis by simp
  next
    case False
    have "(i, t) \<in> granted (stored (meServed m'))" using mesh_more.prems(3,4) by (auto simp: granted_def)
    with False step obtain a' where "stored (meServed m') i = Some a'" "approve_step io (taPrincipal a') i t m m'" by blast
    with mesh_more.prems(3) have "approve_step io (taPrincipal a) i t m m'" by simp
    with mesh_more.hyps(1) mesh_run.mesh_stop show ?thesis unfolding approved_in_def by blast
  qed
qed

section \<open>Properties\<close>

text \<open>
  C4. From the start of a deployment, whatever users and gateways do and however long sync answers
  stay in flight: when a gateway lets a tool call pass, the broker holds an approval for that user,
  that agent and that tool whose patterns match the call, and in the history so far that user, signed
  in, approved it while it was pending, at the time it carries. It still stands as approved, or it
  was permanent and has been revoked since the gateway learnt of it. An approval for one use is
  approved for exactly the reviewed arguments, and is marked consumed when the call passes. The broker's
  parser is assumed to read the identifiers in its store back as they are, as
  \<^verbatim>\<open>uuid.Parse\<close> does with what \<^verbatim>\<open>uuid.New\<close> prints.
\<close>

theorem passed_call_was_approved:
  assumes "inj draws" and "mesh_run io (new_mesh draws now idleTTL maxStaleness w) m"
    and "acFloats (bsConfig S) = io"
    and "Evaluate io t1 t2 t3 t4 (Some (broker_of S)) invocation (Some (meCaches m g), meServed m) = (out, c, b)"
    and "ouProceed out" and "\<forall>j. stored b j \<noteq> None \<longrightarrow> bsParse S j = Some j"
  shows "\<exists>i a t. stored b i = Some a \<and> taPrincipal a = idPrincipal (ivIdentity invocation) \<and>
    taAgentID a = idAgentID (ivIdentity invocation) \<and> taToolName a = ivToolName invocation \<and>
    Matches io (taToolPattern a) (copyParamsPattern (taParamsPattern a)) (ivToolName invocation) (ivArguments invocation) \<and>
    taApprovedAt a = Some t \<and>
    approved_in io (new_mesh draws now idleTTL maxStaleness w) m (idPrincipal (ivIdentity invocation)) i t \<and>
    (taStatus a = ApprovalStatusApproved \<or> taStatus a = ApprovalStatusDenied \<and> taPersistence a = None) \<and>
    (taPersistence a = Some ApprovalPersistenceOnce \<longrightarrow>
       taConsumed a \<and> taParamsPattern a = Some (ExactParams io (taArguments a)))"
proof -
  let ?m0 = "new_mesh draws now idleTTL maxStaleness w" and ?k = "key_of (ivIdentity invocation)"
  note start = new_mesh_ok [OF assms(1), of io now idleTTL maxStaleness w]
  have "mesh_ok io m" using mesh_run_ok [OF assms(2) start] .
  then have s: "served_ok io (meServed m)" "wf_cache (meCaches m g)" "cache_all (backed (stored (meServed m))) (meCaches m g)"
    by (auto simp: mesh_ok_def)
  from served.Evaluate_backed [of S, unfolded assms(3), OF s assms(4,5)] obtain r b1 where
    l: "licenses io invocation r" and r: "backed (stored b) ?k r" and b1: "served_ok io b1"
    and con: "rcPersistence r = Some ''once'' \<longrightarrow> bcConsume (broker_of S) (ivSubjectToken invocation) (rcID r) b1 = (None, b)"
    by blast
  from served.Evaluate_ok [of S, unfolded assms(3), OF s assms(4)] have b: "served_ok io b"
    and later: "later (stored (meServed m)) (stored b)" by blast+
  from l r obtain a t where a: "stored b (rcID r) = Some a" "taPrincipal a = idPrincipal (ivIdentity invocation)"
      "taAgentID a = idAgentID (ivIdentity invocation)" "taToolPattern a = rcToolPattern r"
      "copyParamsPattern (taParamsPattern a) = rcParamsPattern r" "taApprovedAt a = Some t"
    and st: "taStatus a = ApprovalStatusApproved \<and> map_option persistence_string (taPersistence a) = rcPersistence r \<or>
      taStatus a = ApprovalStatusDenied \<and> taPersistence a = None"
    by (auto simp: licenses_def backed_def key_of_def)
  from b a(1) have lit: "literal_ok io a" by (simp add: served_ok_def world_ok_def)
  from l a(4,5) have mt: "Matches io (taToolPattern a) (copyParamsPattern (taParamsPattern a)) (ivToolName invocation) (ivArguments invocation)"
    by (simp add: licenses_def)
  with lit have tool: "taToolName a = ivToolName invocation" by (auto simp: literal_ok_def Matches_iff)
  from a(1,6) later have "(rcID r, t) \<in> granted (stored (meServed m))" by (auto simp: granted_def later_def)
  then obtain a0 where a0: "stored (meServed m) (rcID r) = Some a0" "taApprovedAt a0 = Some t" by (auto simp: granted_def)
  have "keeps (stored (meServed m)) (stored b)" using later by (simp add: later_def)
  from keeps_principal [OF this a0(1) a(1)] have "taPrincipal a = taPrincipal a0" .
  moreover have "granted (stored (meServed ?m0)) = {}" by (simp add: granted_def new_mesh_def new_approval_mem_def mem_abs_def)
  ultimately have hist: "approved_in io ?m0 m (idPrincipal (ivIdentity invocation)) (rcID r) t"
    using granted_by_owner [OF assms(2) start _ a0] a(2) by simp
  have "taConsumed a \<and> taParamsPattern a = Some (ExactParams io (taArguments a))" if once: "taPersistence a = Some ApprovalPersistenceOnce"
  proof -
    from st once have ap: "taStatus a = ApprovalStatusApproved" "rcPersistence r = Some ''once''" by auto
    with con have "served_Consume S (ivSubjectToken invocation) (rcID r) b1 = (None, b)" by (simp add: broker_of_def)
    from served_Consume_None [OF b1 this] assms(6) a(1) have "taConsumed a" by auto
    with lit ap(1) once show ?thesis by (simp add: literal_ok_def)
  qed
  with a tool mt hist st show ?thesis by blast
qed


text \<open>A small deployment for the witnesses: tokens are the texts of their subjects, the gateway asks
  for the call of \<^verbatim>\<open>pay\<close>, alice approves it for one use, and two gateways learn of it.\<close>

definition mesh_lib :: "jwk list jwt_lib" where
  "mesh_lib = \<lparr>jlParse = (\<lambda>raw ks. Inr \<lparr>tkIssuer = Some ''iss'', tkSubject = Some raw, tkAudience = Some [''aib''],
       tkExpiration = None, tkIssuedAt = None, tkNotBefore = None, tkJwtID = None, tkClaims = []\<rparr>),
     jlValidate = (\<lambda>now t iss aud skew. if tkIssuer t = Some iss then None else Some InvalidIssuerError)\<rparr>"

definition mesh_policy :: "jwk list JWTValidationPolicy" where
  "mesh_policy = \<lparr>vpJWKSProvider = Some (Inr []), vpExpectedIssuers = [''iss''], vpExpectedAudience = ''aib''\<rparr>"

definition mesh_setup :: "time \<Rightarrow> (jwk list, nat) broker_setup" where
  "mesh_setup t = \<lparr>bsLib = mesh_lib,
     bsAuthenticator = Some \<lparr>raJWTValidator = Some \<lparr>jvSubjectTokenPolicy = mesh_policy, jvClientAssertionPolicy = mesh_policy, jvClockSkewSeconds = 60\<rparr>,
       raCELEvaluator = Some demo_cel, raParseAgentID = Some\<rparr>,
     bsParse = Some, bsConfig = sample_config, bsAssertion = Inr ''gw'', bsNow = t\<rparr>"

definition mesh_draws :: "nat \<Rightarrow> approval_id" where
  "mesh_draws n = replicate (Suc n) (CHR ''x'')"

definition mesh_invocation :: Invocation where
  "mesh_invocation = \<lparr>ivIdentity = \<lparr>idPrincipal = ''alice'', idAgentID = ''agent''\<rparr>, ivToolName = ''pay'',
     ivArguments = [(''to'', GString ''bob'')], ivAgentSessionID = [], ivMCPSessionID = [], ivRequestID = [],
     ivSubjectToken = ''alice'', ivDescription = [], ivRiskLevel = []\<rparr>"

definition mesh_pending :: ToolApproval where
  "mesh_pending = (new_approval sample_config 10 ''x'' sample_request)
     \<lparr>taToolPattern := ''pay'', taParamsPattern := Some [(''to'', ''bob'')], taRiskLevel := [],
      taDescription := ''Approval required for pay''\<rparr>"

definition mesh_granted :: ToolApproval where
  "mesh_granted = mesh_pending\<lparr>taStatus := ApprovalStatusApproved, taPersistence := Some ApprovalPersistenceOnce, taApprovedAt := Some 20\<rparr>"

definition mesh_spent :: ToolApproval where
  "mesh_spent = mesh_granted\<lparr>taConsumed := True, taConsumedAt := Some 50\<rparr>"

definition mesh_served :: "ToolApproval \<Rightarrow> int \<Rightarrow> nat served" where
  "mesh_served a v = \<lparr>seWorld = \<lparr>awRepo = \<lparr>amApprovals = [(''x'', a)], amVersion = v\<rparr>, awLimiters = [(''alice|agent'', 4)],
     awBroadcaster = None\<rparr>, seDraws = (\<lambda>n. mesh_draws (Suc n))\<rparr>"

definition mesh_record :: Record where
  "mesh_record = record_of (toSummary mesh_granted)"

definition mesh_pairs :: "Pair list" where
  "mesh_pairs = [\<lparr>paIdentity = \<lparr>idPrincipal = ''alice'', idAgentID = ''agent''\<rparr>, paApprovals = [mesh_record]\<rparr>]"

definition mesh_empty :: Cache where
  "mesh_empty = NewCache 1 1000 1000"

definition mesh_cache :: "Record \<Rightarrow> time \<Rightarrow> Cache" where
  "mesh_cache r seen = mesh_empty\<lparr>caPairs := [((''alice'', ''agent''), \<lparr>peRecords = [r], peLastSeen = seen, peSyncedAt = 40\<rparr>)],
     caETag := sync_etag 2, caVersion := 2, caLastSync := 40\<rparr>"

definition mesh_start :: "nat mesh" where
  "mesh_start = new_mesh mesh_draws 1 1000 1000 sample_world"

definition mesh_ready :: "nat mesh" where
  "mesh_ready = \<lparr>meServed = mesh_served mesh_granted 2,
     meCaches = ((\<lambda>_. mesh_empty)(0 := mesh_cache mesh_record 40))(1 := mesh_cache mesh_record 40),
     meReplies = [Inr (mesh_pairs, sync_etag 2, False)]\<rparr>"


lemma mesh_draws_inj: "inj mesh_draws"
  by (rule injI) (simp add: mesh_draws_def)


lemma mesh_version: "parseSyncVersion (sync_etag 2) = Some 2" "parseSyncVersion (sync_etag 0) = Some 0"
  by code_simp+

lemma served_Read_draws: "seDraws (snd (served_Read S p ss b)) = seDraws b"
  by (auto simp: served_Read_def split: sum.splits prod.splits)

lemma served_Consume_draws: "seDraws (snd (served_Consume S tok i b)) = seDraws b"
  by (auto simp: served_Consume_def split: sum.splits prod.splits)

lemma served_Create_draws:
  "fst (served_Create S tok request b) = Inr url \<Longrightarrow> seDraws (snd (served_Create S tok request b)) = (\<lambda>n. seDraws b (Suc n))"
  by (auto simp: served_Create_def split: sum.splits prod.splits if_splits)

lemma mesh_asked_read:
  "served_Read (mesh_setup 10) ''alice'' [] \<lparr>seWorld = sample_world, seDraws = mesh_draws\<rparr> =
     (Inr ([], sync_etag 0), \<lparr>seWorld = sample_world, seDraws = mesh_draws\<rparr>)"
  (is "?l = (_, ?b)")
proof (rule prod_eqI)
  show "fst ?l = fst (Inr ([], sync_etag 0), ?b)" by code_simp
  have "seWorld (snd ?l) = sample_world" by code_simp
  then show "snd ?l = snd (Inr ([], sync_etag 0), ?b)"
    using served_Read_draws [of "mesh_setup 10" "''alice''" "[]" ?b] by simp
qed

lemma mesh_asked_create:
  "served_Create (mesh_setup 10) ''alice'' (create_request mesh_invocation) \<lparr>seWorld = sample_world, seDraws = mesh_draws\<rparr> =
     (Inr ''https://b/approvals/x'', mesh_served mesh_pending 1)"
  (is "?l = _")
proof (rule prod_eqI)
  have url: "fst ?l = Inr ''https://b/approvals/x''" by code_simp
  then show "fst ?l = fst (Inr ''https://b/approvals/x'', mesh_served mesh_pending 1)" by simp
  have "seWorld (snd ?l) = seWorld (mesh_served mesh_pending 1)" by code_simp
  then show "snd ?l = snd (Inr ''https://b/approvals/x'', mesh_served mesh_pending 1)"
    using served_Create_draws [OF url] by (simp add: mesh_served_def)
qed

lemma mesh_names: "TrimSpace ''alice'' \<noteq> []" "TrimSpace ''https://b/approvals/x'' \<noteq> []"
  "Valid (ivIdentity mesh_invocation)" "ivSubjectToken mesh_invocation = ''alice''" "ivAgentSessionID mesh_invocation = []"
  "idPrincipal (ivIdentity mesh_invocation) = ''alice''" "key_of (ivIdentity mesh_invocation) = (''alice'', ''agent'')"
  by code_simp+

lemma mesh_empty_match: "Match io t (ivIdentity mesh_invocation) sid tool args mesh_empty = (None, mesh_empty)"
  by (simp add: Match_def evictIdleLocked_def mesh_empty_def NewCache_def Let_def)

lemma mesh_asked:
  "Evaluate sample_io 10 10 10 10 (Some (broker_of (mesh_setup 10))) mesh_invocation
     (Some mesh_empty, \<lparr>seWorld = sample_world, seDraws = mesh_draws\<rparr>) =
   (url_outcome ''https://b/approvals/x'', Some mesh_empty, mesh_served mesh_pending 1)"
proof -
  have "ReplaceForPrincipal 10 ''alice'' [] (sync_etag 0) mesh_empty = (True, mesh_empty)"
    by (simp add: ReplaceForPrincipal_def acceptVersionLocked_def mesh_version mesh_empty_def NewCache_def build_replacement_def)
  moreover have "ActiveSessions mesh_empty = []" by (simp add: ActiveSessions_def mesh_empty_def NewCache_def)
  ultimately show ?thesis
    by (simp add: Evaluate_def mesh_names RecordSession_def mesh_empty_match refresh_def broker_of_def mesh_asked_read
        elicit_def mesh_asked_create)
qed

lemma mesh_approved:
  "ApproveHandler memory_port sample_io Some 20 20 20 (empty_context\<lparr>rxPrincipal := Some ''alice''\<rparr>) ''x''
     (Some \<lparr>aqPersistence = ''once'', aqHasToolPattern = False, aqParamsPattern = ParamsAbsent\<rparr>)
     (seWorld (mesh_served mesh_pending 1)) =
   (Reply 200 \<lparr>apID = ''x'', apStatus = ''approved'', apPersistence = ''once'', apApprovedAt = 20\<rparr>,
    seWorld (mesh_served mesh_granted 2))"
  by code_simp

lemma mesh_answered:
  "SyncHandler_read memory_port 30 (sync_query [] [] [] []) None (seWorld (mesh_served mesh_granted 2)) =
     (SyncFull (sync_etag 2) [\<lparr>syPrincipal = ''alice'', syAgentID = ''agent'', syApprovals = [toSummary mesh_granted]\<rparr>],
      seWorld (mesh_served mesh_granted 2))"
  by code_simp

lemma mesh_read_answer:
  "client_read [] \<lparr>hrStatus = 200, hrETag = sync_etag 2, hrBody = Some (Some (map wire_pair
     [\<lparr>syPrincipal = ''alice'', syAgentID = ''agent'', syApprovals = [toSummary mesh_granted]\<rparr>]))\<rparr> =
   Inr (mesh_pairs, sync_etag 2, False)"
  by code_simp

lemma mesh_bootstrapped: "Bootstrap 40 (Inr (mesh_pairs, sync_etag 2, False)) mesh_empty = mesh_cache mesh_record 40"
  by (simp add: Bootstrap_def Replace_def acceptVersionLocked_def mesh_version build_replacement_def mesh_pairs_def mesh_empty_def
      NewCache_def mesh_cache_def Valid_def key_of_def snapshotEntry_def snapshotRecords_def carry_over_def Let_def time_is_zero_def)


lemma mesh_matched:
  assumes "40 \<le> t" and "t \<le> 100"
  shows "Match sample_io t (ivIdentity mesh_invocation) [] (ivToolName mesh_invocation) (ivArguments mesh_invocation) (mesh_cache mesh_record 40) =
    (Some (mesh_record\<lparr>rcReserved := True\<rparr>), mesh_cache (mesh_record\<lparr>rcReserved := True\<rparr>) t)"
proof -
  have m: "match_records sample_io [] (ivToolName mesh_invocation) (ivArguments mesh_invocation) [mesh_record] =
      (Some (mesh_record\<lparr>rcReserved := True\<rparr>), [mesh_record\<lparr>rcReserved := True\<rparr>])" by code_simp
  have e: "evictIdleLocked t (mesh_cache mesh_record 40) = mesh_cache mesh_record 40"
    using assms by (simp add: evictIdleLocked_def mesh_cache_def mesh_empty_def NewCache_def Let_def time_sub_def max_int64_def min_int64_def)
  have f: "freshLocked (mesh_cache mesh_record 40) \<lparr>peRecords = [mesh_record], peLastSeen = 40, peSyncedAt = 40\<rparr> t"
    using assms by (simp add: freshLocked_def mesh_cache_def mesh_empty_def NewCache_def Let_def time_defs time_sub_def max_int64_def min_int64_def)
  have c: "caPairs (mesh_cache mesh_record 40) = [((''alice'', ''agent''), \<lparr>peRecords = [mesh_record], peLastSeen = 40, peSyncedAt = 40\<rparr>)]"
    by (simp add: mesh_cache_def)
  show ?thesis
    unfolding Match_def Let_def e mesh_names c using f m mesh_names(3)
    by (simp add: mesh_cache_def)
qed

lemma mesh_record_fields: "rcStatus mesh_record = ''approved''" "rcPersistence mesh_record = Some ''once''" "rcID mesh_record = ''x''"
  by code_simp+

lemma mesh_confirmed:
  "ConfirmConsumed (ivIdentity mesh_invocation) ''x'' (mesh_cache (mesh_record\<lparr>rcReserved := True\<rparr>) t) =
     mesh_cache (mesh_record\<lparr>rcConsumed := True\<rparr>) t"
proof -
  have "rcReserved mesh_record = False" by code_simp
  then have "mesh_record\<lparr>rcReserved := False, rcConsumed := True\<rparr> = mesh_record\<lparr>rcConsumed := True\<rparr>" by simp
  then show ?thesis
    using mesh_record_fields(3) mesh_names(3)
    by (simp add: ConfirmConsumed_def setReservation_def mesh_names mesh_cache_def)
qed

lemma served_Consume_eq:
  assumes "fst (served_Consume S tok i b) = e" and "seWorld (snd (served_Consume S tok i b)) = seWorld b'" and "seDraws b' = seDraws b"
  shows "served_Consume S tok i b = (e, b')"
proof -
  have "snd (served_Consume S tok i b) = b'" using assms(2,3) served_Consume_draws [of S tok i b] by simp
  with assms(1) show ?thesis by (simp add: prod_eq_iff)
qed

lemma mesh_consumed:
  "served_Consume (mesh_setup 50) ''alice'' ''x'' (mesh_served mesh_granted 2) = (None, mesh_served mesh_spent 3)"
  "served_Consume (mesh_setup 60) ''alice'' ''x'' (mesh_served mesh_spent 3) = (None, mesh_served mesh_spent 3)"
  by (rule served_Consume_eq, code_simp, code_simp, simp add: mesh_served_def)+

lemma mesh_call_once:
  assumes "40 \<le> t" and "t \<le> 100" and "served_Consume (mesh_setup t) ''alice'' ''x'' b = (None, b')"
  shows "Evaluate sample_io t t t t (Some (broker_of (mesh_setup t))) mesh_invocation (Some (mesh_cache mesh_record 40), b) =
    (proceed_outcome, Some (mesh_cache (mesh_record\<lparr>rcConsumed := True\<rparr>) t), b')"
  using mesh_names mesh_matched [OF assms(1,2)] mesh_record_fields assms(3)
  by (simp add: Evaluate_def RecordSession_def enforceDecision_def broker_of_def mesh_confirmed)

lemma mesh_ready_run: "mesh_run sample_io mesh_start mesh_ready"
proof -
  have io: "acFloats (bsConfig (mesh_setup 10)) = sample_io" by (simp add: mesh_setup_def sample_config_def)
  let ?m1 = "mesh_start\<lparr>meServed := mesh_served mesh_pending 1, meCaches := (meCaches mesh_start)(0 := mesh_empty)\<rparr>"
  have st: "meServed mesh_start = \<lparr>seWorld = sample_world, seDraws = mesh_draws\<rparr>" "meCaches mesh_start = (\<lambda>_. mesh_empty)"
    by (simp_all add: mesh_start_def new_mesh_def sample_world_def mesh_empty_def)
  have s1: "mesh_step sample_io mesh_start ?m1"
    using mesh_step.call [OF io, of 10 10 10 10 mesh_invocation mesh_start 0] mesh_asked by (simp add: st)
  let ?m2 = "?m1\<lparr>meServed := (meServed ?m1)\<lparr>seWorld := seWorld (mesh_served mesh_granted 2)\<rparr>\<rparr>"
  have s2: "mesh_step sample_io ?m1 ?m2"
  proof (rule mesh_step.approve)
    show "ApproveHandler memory_port sample_io Some 20 20 20 (empty_context\<lparr>rxPrincipal := Some ''alice''\<rparr>) ''x''
     (Some \<lparr>aqPersistence = ''once'', aqHasToolPattern = False, aqParamsPattern = ParamsAbsent\<rparr>) (seWorld (meServed ?m1)) =
     (Reply 200 \<lparr>apID = ''x'', apStatus = ''approved'', apPersistence = ''once'', apApprovedAt = 20\<rparr>, seWorld (mesh_served mesh_granted 2))"
      using mesh_approved by simp
  qed
  let ?m3 = "?m2\<lparr>meServed := (meServed ?m2)\<lparr>seWorld := seWorld (mesh_served mesh_granted 2)\<rparr>,
      meReplies := Inr (mesh_pairs, sync_etag 2, False) # meReplies ?m2\<rparr>"
  have "SyncHandler_read memory_port 30 (sync_query [] [] [] []) None (seWorld (meServed ?m2)) =
     (SyncFull (sync_etag 2) [\<lparr>syPrincipal = ''alice'', syAgentID = ''agent'', syApprovals = [toSummary mesh_granted]\<rparr>],
      seWorld (mesh_served mesh_granted 2))"
    by (simp add: mesh_answered)
  from mesh_step.answer [OF this, where etag = "[]" and io = sample_io]
  have s3: "mesh_step sample_io ?m2 ?m3" by (simp add: wire_def mesh_read_answer del: list.map)
  let ?m4 = "?m3\<lparr>meCaches := (meCaches ?m3)(0 := Bootstrap 40 (Inr (mesh_pairs, sync_etag 2, False)) (meCaches ?m3 0))\<rparr>"
  let ?m5 = "?m4\<lparr>meCaches := (meCaches ?m4)(1 := Bootstrap 40 (Inr (mesh_pairs, sync_etag 2, False)) (meCaches ?m4 1))\<rparr>"
  have s4: "mesh_step sample_io ?m3 ?m4" by (rule mesh_step.bootstrap) simp
  have s5: "mesh_step sample_io ?m4 ?m5" by (rule mesh_step.bootstrap) simp
  have "?m5 = mesh_ready"
    using mesh_bootstrapped [unfolded mesh_empty_def]
    by (simp add: st mesh_ready_def mesh_served_def mesh_start_def new_mesh_def fun_eq_iff mesh_empty_def)
  with mesh_more [OF mesh_more [OF mesh_more [OF mesh_more [OF mesh_more [OF mesh_stop s1] s2] s3] s4] s5] show ?thesis by simp
qed


theorem passed_call_was_approved_witness:
  "\<exists>i a t. stored (mesh_served mesh_spent 3) i = Some a \<and> taPrincipal a = ''alice'' \<and> taToolName a = ''pay'' \<and>
     taApprovedAt a = Some t \<and> approved_in sample_io mesh_start mesh_ready ''alice'' i t \<and>
     ouProceed (fst (Evaluate sample_io 50 50 50 50 (Some (broker_of (mesh_setup 50))) mesh_invocation
       (Some (meCaches mesh_ready 0), meServed mesh_ready)))"
proof -
  have io: "acFloats (bsConfig (mesh_setup 50)) = sample_io" by (simp add: mesh_setup_def sample_config_def)
  have call: "Evaluate sample_io 50 50 50 50 (Some (broker_of (mesh_setup 50))) mesh_invocation
      (Some (meCaches mesh_ready 0), meServed mesh_ready) =
      (proceed_outcome, Some (mesh_cache (mesh_record\<lparr>rcConsumed := True\<rparr>) 50), mesh_served mesh_spent 3)"
    using mesh_call_once [OF _ _ mesh_consumed(1)] by (simp add: mesh_ready_def)
  have ok: "ouProceed proceed_outcome" by (simp add: proceed_outcome_def)
  have parse: "\<forall>j. stored (mesh_served mesh_spent 3) j \<noteq> None \<longrightarrow> bsParse (mesh_setup 50) j = Some j" by (simp add: mesh_setup_def)
  from passed_call_was_approved [OF mesh_draws_inj mesh_ready_run [unfolded mesh_start_def] io call ok parse] call ok
  show ?thesis unfolding mesh_start_def [symmetric] by (auto simp: mesh_invocation_def)
qed

text \<open>
  A one-use approval can be used twice. Two gateways hold a copy of alice's approval for one
  use; each lets one call pass, because the broker answers 200 when the approval it is asked to
  consume has been consumed before, and the gate asks for no more than that answer. The store then
  holds that one approval only, consumed once.
\<close>

theorem once_approval_used_by_two_gateways:
  "\<exists>m c0 b0 c1 b1 a. mesh_run sample_io mesh_start m \<and>
     Evaluate sample_io 50 50 50 50 (Some (broker_of (mesh_setup 50))) mesh_invocation (Some (meCaches m 0), meServed m) =
       (proceed_outcome, Some c0, b0) \<and>
     Evaluate sample_io 60 60 60 60 (Some (broker_of (mesh_setup 60))) mesh_invocation (Some (meCaches m 1), b0) =
       (proceed_outcome, Some c1, b1) \<and>
     dom (stored b1) = {''x''} \<and> stored b1 ''x'' = Some a \<and> taPersistence a = Some ApprovalPersistenceOnce \<and>
     taConsumedAt a = Some 50"
proof -
  have "meCaches mesh_ready 0 = mesh_cache mesh_record 40" "meCaches mesh_ready 1 = mesh_cache mesh_record 40"
    "meServed mesh_ready = mesh_served mesh_granted 2"
    by (simp_all add: mesh_ready_def)
  moreover have "dom (stored (mesh_served mesh_spent 3)) = {''x''}" "stored (mesh_served mesh_spent 3) ''x'' = Some mesh_spent"
    by (simp_all add: mesh_served_def mem_abs_def)
  moreover have "taPersistence mesh_spent = Some ApprovalPersistenceOnce" "taConsumedAt mesh_spent = Some 50"
    by (simp_all add: mesh_spent_def mesh_granted_def)
  ultimately show ?thesis
    using mesh_ready_run mesh_call_once [OF _ _ mesh_consumed(1)] mesh_call_once [OF _ _ mesh_consumed(2)]
    by (intro exI [of _ mesh_ready] exI [of _ "mesh_cache (mesh_record\<lparr>rcConsumed := True\<rparr>) 50"] exI [of _ "mesh_served mesh_spent 3"]
        exI [of _ "mesh_cache (mesh_record\<lparr>rcConsumed := True\<rparr>) 60"] exI [of _ mesh_spent]) simp
qed


lemma utf8_spaces_quote: "w \<in> set utf8_spaces \<Longrightarrow> w \<noteq> [] \<and> hd w \<noteq> dquote \<and> last w \<noteq> dquote"
  by (auto simp: utf8_spaces_def)

lemma quoted_no_space:
  "leading_space (dquote # s) = None" "trailing_space (s @ [dquote]) = None"
proof -
  have "\<not> HasPrefix (dquote # s) w" if "w \<in> set utf8_spaces" for w
    using utf8_spaces_quote [OF that] by (cases w) (auto simp: HasPrefix_def)
  then show "leading_space (dquote # s) = None" by (simp add: leading_space_def find_None_iff)
  have "\<not> HasSuffix (s @ [dquote]) w" if "w \<in> set utf8_spaces" for w
    using utf8_spaces_quote [OF that] by (cases w rule: rev_cases) (auto simp: HasSuffix_def)
  then show "trailing_space (s @ [dquote]) = None" by (simp add: trailing_space_def find_None_iff)
qed

lemma TrimSpace_quoted: "TrimSpace (dquote # s @ [dquote]) = dquote # s @ [dquote]"
proof -
  have l: "trim_left (dquote # s @ [dquote]) = dquote # s @ [dquote]"
    by (subst trim_left.simps) (simp add: quoted_no_space)
  have "trim_right ((dquote # s) @ [dquote]) = (dquote # s) @ [dquote]"
    by (subst trim_right.simps) (simp only: quoted_no_space option.case)
  with l show ?thesis by (simp add: TrimSpace_def)
qed

lemma last_FormatInt: "last (FormatInt v) \<noteq> dquote"
proof -
  have "is_digit (last (FormatUint n))" for n
    using FormatUint_digits [of n] FormatUint_nonempty [of n] by (auto simp: list_all_iff)
  moreover have "\<not> is_digit dquote" by code_simp
  ultimately have "last (FormatUint n) \<noteq> dquote" for n by metis
  then show ?thesis by (simp add: FormatInt_def FormatUint_nonempty)
qed

lemma parseSyncVersion_etag:
  assumes "min_int64 \<le> v" and "v \<le> max_int64"
  shows "parseSyncVersion (sync_etag v) = Some v"
proof -
  have e: "sync_etag v = dquote # (''v'' @ FormatInt v) @ [dquote]" by (simp add: sync_etag_def)
  have t: "TrimSpace (sync_etag v) = sync_etag v" unfolding e by (rule TrimSpace_quoted)
  have w: "\<not> HasPrefix (sync_etag v) ''W/''" by (simp add: e HasPrefix_def)
  obtain xs x where x: "FormatInt v = xs @ [x]" using FormatInt_nonempty [of v] by (metis rev_exhaust)
  have "x \<noteq> dquote" using last_FormatInt [of v] x by simp
  then have b: "TrimByte dquote (sync_etag v) = ''v'' @ FormatInt v" by (simp add: e x TrimByte_def)
  have "TrimPrefix (''v'' @ FormatInt v) ''v'' = FormatInt v" by (simp add: TrimPrefix_def HasPrefix_def)
  then show ?thesis
    using ParseInt64_FormatInt [OF assms] t w b by (simp add: parseSyncVersion_def Let_def)
qed

text \<open>
  Versions travel unchanged. The entity tag the broker gives a version is read back as that
  version by the gateway's cache and, when the gateway sends it with its next poll, by the broker.
\<close>

theorem sync_version_roundtrip:
  assumes "min_int64 \<le> v" and "v \<le> max_int64"
  shows "parseSyncVersion (sync_etag v) = Some v \<and> client_version (sync_etag v) = Some v"
  using parseSyncVersion_etag [OF assms] client_version_etag [OF assms] by blast

theorem sync_version_roundtrip_witness: "client_version (sync_etag (- 7)) = Some (- 7)"
  using sync_version_roundtrip [of "- 7"] by (simp add: min_int64_def max_int64_def)

lemma succ_mod_neq:
  fixes y m :: int
  assumes "1 < m"
  shows "(y + 1) mod m \<noteq> y"
proof
  assume y: "(y + 1) mod m = y"
  with assms pos_mod_bound [of m "y + 1"] pos_mod_sign [of m "y + 1"] have "0 \<le> y" "y < m" by simp_all
  then consider "y + 1 = m" | "y + 1 < m" by linarith
  then show False using y assms \<open>0 \<le> y\<close> by cases simp_all
qed

lemma wrap_int64_Suc: "wrap_int64 (v + 1) \<noteq> v"
  using succ_mod_neq [of 18446744073709551616 "v + 9223372036854775808"] by (auto simp: wrap_int64_def algebra_simps)

lemma decision_announced:
  assumes inv: "mem_invar (awRepo w)"
    and dec: "(Inr a, w') \<in> {ApproveApproval memory_port io now rnow xnow i p areq w,
      DenyApproval memory_port now rnow xnow i p per w, RevokePermanentApproval memory_port now i p w}"
  shows "awBroadcaster w' = map_option Broadcast (awBroadcaster w)"
    and "amVersion (awRepo w') = wrap_int64 (amVersion (awRepo w) + 1)"
proof -
  from dec consider (approve) "ApproveApproval memory_port io now rnow xnow i p areq w = (Inr a, w')"
    | (deny) "DenyApproval memory_port now rnow xnow i p per w = (Inr a, w')"
    | (revoke) "RevokePermanentApproval memory_port now i p w = (Inr a, w')" by auto
  then have "\<exists>s b. amVersion s = amVersion (awRepo w) \<and> finish_mutation memory_port b (w\<lparr>awRepo := s\<rparr>) = (Inr a, w')"
  proof cases
    case approve
    from mem.ApproveApproval_cases [OF inv approve] mem.approve_Inr [OF inv] show ?thesis by blast
  next
    case deny
    from mem.DenyApproval_cases [OF inv deny] mem.deny_Inr [OF inv] show ?thesis by blast
  next
    case revoke
    from mem.RevokePermanentApproval_cases [OF inv revoke] mem.revoke_Inr [OF inv] show ?thesis by blast
  qed
  then show "awBroadcaster w' = map_option Broadcast (awBroadcaster w)" "amVersion (awRepo w') = wrap_int64 (amVersion (awRepo w) + 1)"
    by (auto simp: finish_memory broadcast_world_def)
qed

text \<open>
  C31. A long poll misses no decision. When a sync request goes to wait, its channel is subscribed
  and it waits at most two minutes; a decision that succeeds from then on leaves a signal in that
  channel, at once or when the coalescing timer fires, and the answer after the signal carries the
  version of the store with the decision, which is not the version the gateway already has.
\<close>

theorem long_poll_sees_decisions:
  assumes inv: "mem_invar (awRepo w)" and start: "SyncHandler_start memory_port req w = (SyncWait ch timeout, w1)"
    and dec: "(Inr a, w2) \<in> {ApproveApproval memory_port io now rnow xnow i p areq w1,
      DenyApproval memory_port now rnow xnow i p per w1, RevokePermanentApproval memory_port now i p w1}"
  shows "timeout \<le> maxLongPollTimeout \<and>
    (\<exists>bc. awBroadcaster w2 = Some bc \<and> (signalled ch bc \<or> coalescePending bc \<and> signalled ch (coalesce_fire bc))) \<and>
    client_version (sqIfNoneMatch req) \<noteq> Some (amVersion (awRepo w2)) \<and>
    (case SyncHandler_wake Signal ch w2 of (phase, w3) \<Rightarrow>
       phase = SyncRead (Some ch) \<and> (\<exists>pairs. fst (SyncHandler_read memory_port rnow' req (Some ch) w3) = SyncFull (sync_etag (amVersion (awRepo w2))) pairs))"
proof -
  from start obtain bc where bc: "awBroadcaster w1 = Some bc" "ch \<in> dom (map_of (subscribers bc))"
    and t: "timeout = long_poll_timeout (sqLongPollTimeout req)" and repo: "awRepo w1 = awRepo w"
    and v: "client_version (sqIfNoneMatch req) = Some (amVersion (awRepo w))"
    by (auto simp: SyncHandler_start_def Subscribe_def Let_def go_map_simps repo_GetVersion_def split: option.splits sum.splits prod.splits if_splits)
  have inv1: "mem_invar (awRepo w1)" using inv repo by simp
  have w2: "awBroadcaster w2 = Some (Broadcast bc)" and new: "amVersion (awRepo w2) \<noteq> amVersion (awRepo w)"
    using decision_announced [OF inv1 dec] bc(1) repo by (simp_all add: wrap_int64_Suc)
  have signal: "signalled ch (Broadcast bc) \<or> coalescePending (Broadcast bc) \<and> signalled ch (coalesce_fire (Broadcast bc))"
    using notifyAll_signals [of ch bc] notifyAll_signals [of ch "bc\<lparr>coalescePending := False\<rparr>"] bc(2)
    by (auto simp: Broadcast_def coalesce_fire_def)
  define w3 where "w3 = w2\<lparr>awBroadcaster := map_option (receive ch) (awBroadcaster w2)\<rparr>"
  have "\<exists>pairs. fst (SyncHandler_read memory_port rnow' req (Some ch) w3) = SyncFull (sync_etag (amVersion (awRepo w2))) pairs"
    by (simp add: w3_def SyncHandler_read_def GetSyncState_def repo_GetVersion_def repo_ListAllActive_def)
  with w2 signal t v new show ?thesis by (simp add: SyncHandler_wake_def w3_def long_poll_bound)
qed

definition polled_world :: "(approval_mem, nat) approval_world" where
  "polled_world = sample_pending\<lparr>awBroadcaster := Some (NewApprovalSyncBroadcaster 0)\<rparr>"

definition polled_request :: sync_request where
  "polled_request = \<lparr>sqPrincipal = ''alice'', sqAgentSessionIDs = [], sqIfNoneMatch = sync_etag 1, sqLongPollTimeout = ''30''\<rparr>"

theorem long_poll_sees_decisions_witness:
  "\<exists>w1 a w2. SyncHandler_start memory_port polled_request polled_world = (SyncWait 0 30000000000, w1) \<and>
     DenyApproval memory_port 20 20 20 ''id1'' ''alice'' None w1 = (Inr a, w2) \<and>
     client_version (sqIfNoneMatch polled_request) \<noteq> Some (amVersion (awRepo w2)) \<and>
     (\<exists>pairs. fst (SyncHandler_read memory_port 20 polled_request (Some 0) (snd (SyncHandler_wake Signal 0 w2))) =
        SyncFull (sync_etag (amVersion (awRepo w2))) pairs)"
proof -
  let ?w1 = "snd (SyncHandler_start memory_port polled_request polled_world)"
  let ?r = "DenyApproval memory_port 20 20 20 ''id1'' ''alice'' None ?w1"
  have inv: "mem_invar (awRepo polled_world)" using sample_pending_invar by (simp add: polled_world_def)
  have start: "SyncHandler_start memory_port polled_request polled_world = (SyncWait 0 30000000000, ?w1)"
    by code_simp
  have ok: "\<not> isl (fst ?r)" by code_simp
  then obtain a where a: "?r = (Inr a, snd ?r)" by (metis prod.collapse sum.collapse(2))
  have "(Inr a, snd ?r) \<in> {ApproveApproval memory_port sample_io 20 20 20 ''id1'' ''alice'' undefined ?w1, ?r,
      RevokePermanentApproval memory_port 20 ''id1'' ''alice'' ?w1}"
    using a by simp
  from long_poll_sees_decisions [OF inv start this, of 20] start a show ?thesis
    by (auto simp: case_prod_unfold)
qed



text \<open>The seconds of \<^verbatim>\<open>X-Long-Poll-Timeout\<close> are multiplied in 64 bits before the cap is applied:
  a header beyond the range gives a negative wait, which ends at once, and not the cap of two minutes.\<close>

theorem long_poll_timeout_overflows:
  "long_poll_timeout (FormatInt 9223372036) = maxLongPollTimeout \<and> long_poll_timeout (FormatInt 9223372037) < 0"
  using ParseInt64_FormatInt [of 9223372036] ParseInt64_FormatInt [of 9223372037]
  by (simp add: long_poll_timeout_def FormatInt_nonempty min_int64_def max_int64_def wrap_int64_def maxLongPollTimeout_def)

end
