(* ===== verification/Signing_Key_Store.thy ===== *)
theory Signing_Key_Store
  imports Go_Strings
begin

text \<open>
  \<^verbatim>\<open>internal/domain/storage/signing_key.go\<close> and
  \<^verbatim>\<open>internal/adapters/storage/memory/signing_key_store.go\<close>. The store keeps two maps to the
  same key objects, and its methods change a key in place through either of them; so the model
  has a heap of keys and the maps hold addresses. Keys handed in and out are copies
  (\<^verbatim>\<open>cloneSigningKey\<close>), that is values. Every method holds the store's lock, taken by the
  method itself or by \<^verbatim>\<open>WithBootstrapLock\<close> around it, so a method is one step either way.
\<close>

section \<open>Data\<close>

type_synonym KeyDomain = string
type_synonym kid = string

definition KeyDomainTokenSigning :: KeyDomain where
  "KeyDomainTokenSigning = ''token_signing''"

definition KeyDomainCIMDClientAuthentication :: KeyDomain where
  "KeyDomainCIMDClientAuthentication = ''cimd_client_authentication''"

definition KeyDomain_Validate :: "KeyDomain \<Rightarrow> bool" where
  "KeyDomain_Validate d \<longleftrightarrow> d = KeyDomainTokenSigning \<or> d = KeyDomainCIMDClientAuthentication"

record SigningKey =
  skID :: string
  skKID :: kid
  skKeyDomain :: KeyDomain
  skAlgorithm :: string
  skPrivateKeyEncrypted :: string
  skPublicJWK :: string
  skIsCurrent :: bool
  skActivatesAt :: time
  skCreatedAt :: time
  skRemovedAt :: "time option"

definition SigningKey_Validate :: "SigningKey \<Rightarrow> StorageError option" where
  "SigningKey_Validate k =
     (if skKID k = [] then Some (StorageError ''SigningKey.Validate'' ErrorKindValidation ''kid is required'')
      else if \<not> KeyDomain_Validate (skKeyDomain k)
      then Some (StorageError ''SigningKey.Validate'' ErrorKindValidation ''key_domain is invalid'')
      else if skAlgorithm k = []
      then Some (StorageError ''SigningKey.Validate'' ErrorKindValidation ''algorithm is required'')
      else if skPrivateKeyEncrypted k = []
      then Some (StorageError ''SigningKey.Validate'' ErrorKindValidation ''private_key_encrypted is required'')
      else None)"

text \<open>What the store and the engine return. An error that the engine wraps with \<^verbatim>\<open>%w\<close> is the error
  it wraps; \<open>KeyContext\<close> is a cancelled or expired context, \<open>KeyPolicy\<close> an error the engine makes
  itself, with its text up to the value printed by \<^verbatim>\<open>%q\<close>.\<close>

datatype key_error =
    KeyStorage StorageError
  | ErrLastActiveKey
  | ErrCurrentKey
  | ErrEffectiveCurrentKey
  | KeyContext
  | KeyPolicy string

record key_store =
  ksHeap :: "SigningKey list"
  ksByID :: "(string, nat) gomap"
  ksByKID :: "(kid, nat) gomap"
  ksVersion :: int

definition NewSigningKeyStore :: key_store where
  "NewSigningKeyStore = \<lparr>ksHeap = [], ksByID = [], ksByKID = [], ksVersion = 0\<rparr>"

definition key_not_found :: "string \<Rightarrow> kid \<Rightarrow> key_error" where
  "key_not_found op kid =
     KeyStorage (StorageError op ErrorKindNotFound (''signing key with kid '' @ kid @ '' not found''))"

section \<open>Methods\<close>

text \<open>A new object on the heap, entered in both maps; the version counts the change.\<close>

definition ks_insert :: "SigningKey \<Rightarrow> key_store \<Rightarrow> key_store" where
  "ks_insert key s =
     s\<lparr>ksHeap := ksHeap s @ [key],
       ksByID := AList.update (skID key) (length (ksHeap s)) (ksByID s),
       ksByKID := AList.update (skKID key) (length (ksHeap s)) (ksByKID s),
       ksVersion := wrap_int64 (ksVersion s + 1)\<rparr>"

definition create_error :: "string \<Rightarrow> SigningKey \<Rightarrow> key_store \<Rightarrow> key_error option" where
  "create_error op key s =
     (if \<not> KeyDomain_Validate (skKeyDomain key)
      then Some (KeyStorage (StorageError op ErrorKindValidation ''key_domain is invalid''))
      else if map_of (ksByKID s) (skKID key) \<noteq> None
      then Some (KeyStorage (StorageError op ErrorKindConflict
             (''signing key with kid '' @ skKID key @ '' already exists'')))
      else None)"

definition ks_Create :: "SigningKey \<Rightarrow> key_store \<Rightarrow> key_error option \<times> key_store" where
  "ks_Create key s =
     (case create_error ''SigningKeyStore.Create'' key s of
        Some e \<Rightarrow> (Some e, s)
      | None \<Rightarrow> (None, ks_insert key s))"

text \<open>The loop \<^verbatim>\<open>for _, existing := range s.byID\<close> that clears the marker of a domain.\<close>

definition clear_current :: "KeyDomain \<Rightarrow> (string, nat) gomap \<Rightarrow> SigningKey list \<Rightarrow> SigningKey list" where
  "clear_current d m heap =
     fold (\<lambda>(_, a) h. if skKeyDomain (h ! a) = d then h[a := (h ! a)\<lparr>skIsCurrent := False\<rparr>] else h) m heap"

definition ks_CreateAndSetCurrent :: "SigningKey \<Rightarrow> key_store \<Rightarrow> key_error option \<times> key_store" where
  "ks_CreateAndSetCurrent key s =
     (case create_error ''SigningKeyStore.CreateAndSetCurrent'' key s of
        Some e \<Rightarrow> (Some e, s)
      | None \<Rightarrow>
          (None, ks_insert (key\<lparr>skIsCurrent := True\<rparr>)
             (s\<lparr>ksHeap := clear_current (skKeyDomain key) (ksByID s) (ksHeap s)\<rparr>)))"

text \<open>The lookup the per-domain methods start with: the address of a key of the domain that is
  not removed.\<close>

definition find_in_domain :: "KeyDomain \<Rightarrow> kid \<Rightarrow> key_store \<Rightarrow> nat option" where
  "find_in_domain d kid s =
     (case map_of (ksByKID s) kid of
        None \<Rightarrow> None
      | Some a \<Rightarrow>
          if skRemovedAt (ksHeap s ! a) \<noteq> None \<or> skKeyDomain (ksHeap s ! a) \<noteq> d then None else Some a)"

definition ks_GetByKIDInDomain :: "KeyDomain \<Rightarrow> kid \<Rightarrow> key_store \<Rightarrow> key_error + SigningKey" where
  "ks_GetByKIDInDomain d kid s =
     (case find_in_domain d kid s of
        None \<Rightarrow> Inl (key_not_found ''SigningKeyStore.GetByKIDInDomain'' kid)
      | Some a \<Rightarrow> Inr (ksHeap s ! a))"

text \<open>The choice both \<^verbatim>\<open>currentUsableSigningKeyInDomain\<close> and \<^verbatim>\<open>keylifecycle.EffectiveCurrent\<close>
  make in their loops: whether the next eligible key replaces the best so far.\<close>

definition better_key :: "SigningKey \<Rightarrow> SigningKey \<Rightarrow> bool" where
  "better_key key best \<longleftrightarrow>
     (\<not> skIsCurrent best \<and> skIsCurrent key) \<or>
     (skIsCurrent best = skIsCurrent key \<and> time_after (skActivatesAt key) (skActivatesAt best))"

definition pick_key :: "SigningKey \<Rightarrow> SigningKey option \<Rightarrow> SigningKey option" where
  "pick_key key best =
     (case best of
        None \<Rightarrow> Some key
      | Some b \<Rightarrow> if better_key key b then Some key else best)"

definition heap_keys :: "key_store \<Rightarrow> SigningKey list" where
  "heap_keys s = map (\<lambda>(_, a). ksHeap s ! a) (ksByID s)"

definition currentUsableSigningKeyInDomain :: "SigningKey list \<Rightarrow> KeyDomain \<Rightarrow> time \<Rightarrow> SigningKey option" where
  "currentUsableSigningKeyInDomain keys d now =
     fold (\<lambda>key best.
       if skKeyDomain key \<noteq> d \<or> skRemovedAt key \<noteq> None \<or> time_after (skActivatesAt key) now then best
       else pick_key key best) keys None"

definition ks_GetCurrentInDomain :: "time \<Rightarrow> KeyDomain \<Rightarrow> key_store \<Rightarrow> key_error + SigningKey" where
  "ks_GetCurrentInDomain now d s =
     (case currentUsableSigningKeyInDomain (heap_keys s) d now of
        None \<Rightarrow> Inl (KeyStorage (StorageError ''SigningKeyStore.GetCurrentInDomain'' ErrorKindNotFound ''no current signing key''))
      | Some k \<Rightarrow> Inr k)"

definition ks_ListActiveInDomain :: "KeyDomain \<Rightarrow> key_store \<Rightarrow> SigningKey list" where
  "ks_ListActiveInDomain d s =
     filter (\<lambda>k. skKeyDomain k = d \<and> skRemovedAt k = None) (heap_keys s)"

definition ks_CountActiveInDomain :: "KeyDomain \<Rightarrow> key_store \<Rightarrow> nat" where
  "ks_CountActiveInDomain d s =
     fold (\<lambda>k n. if skKeyDomain k = d \<and> skRemovedAt k = None then n + 1 else n) (heap_keys s) 0"

definition ks_KeySetVersion :: "key_store \<Rightarrow> int" where
  "ks_KeySetVersion s = ksVersion s"

definition ks_SetCurrentInDomain ::
  "KeyDomain \<Rightarrow> kid \<Rightarrow> time \<Rightarrow> key_store \<Rightarrow> (key_error + SigningKey) \<times> key_store" where
  "ks_SetCurrentInDomain d kid activatesAt s =
     (case find_in_domain d kid s of
        None \<Rightarrow> (Inl (key_not_found ''SigningKeyStore.SetCurrentInDomain'' kid), s)
      | Some a \<Rightarrow>
          let heap = clear_current d (ksByID s) (ksHeap s);
              target = (heap ! a)\<lparr>skIsCurrent := True, skActivatesAt := activatesAt\<rparr>
          in (Inr target, s\<lparr>ksHeap := heap[a := target], ksVersion := wrap_int64 (ksVersion s + 1)\<rparr>))"

definition ks_SetPublicJWK :: "kid \<Rightarrow> string \<Rightarrow> key_store \<Rightarrow> (key_error + bool) \<times> key_store" where
  "ks_SetPublicJWK kid jwk s =
     (case map_of (ksByKID s) kid of
        None \<Rightarrow> (Inl (key_not_found ''SigningKeyStore.SetPublicJWK'' kid), s)
      | Some a \<Rightarrow>
          if skRemovedAt (ksHeap s ! a) \<noteq> None then (Inl (key_not_found ''SigningKeyStore.SetPublicJWK'' kid), s)
          else if skPublicJWK (ksHeap s ! a) = []
          then (Inr True, s\<lparr>ksHeap := (ksHeap s)[a := (ksHeap s ! a)\<lparr>skPublicJWK := jwk\<rparr>],
                            ksVersion := wrap_int64 (ksVersion s + 1)\<rparr>)
          else (Inr False, s))"

definition ks_DeleteInDomain :: "time \<Rightarrow> KeyDomain \<Rightarrow> kid \<Rightarrow> key_store \<Rightarrow> key_error option \<times> key_store" where
  "ks_DeleteInDomain now d kid s =
     (case find_in_domain d kid s of
        None \<Rightarrow> (Some (key_not_found ''SigningKeyStore.DeleteInDomain'' kid), s)
      | Some a \<Rightarrow>
          if ks_CountActiveInDomain d s \<le> 1 then (Some ErrLastActiveKey, s)
          else if skIsCurrent (ksHeap s ! a) then (Some ErrCurrentKey, s)
          else if (case currentUsableSigningKeyInDomain (heap_keys s) d now of
                     None \<Rightarrow> False | Some current \<Rightarrow> skKID current = kid)
          then (Some ErrEffectiveCurrentKey, s)
          else (None, s\<lparr>ksHeap := (ksHeap s)[a := (ksHeap s ! a)\<lparr>skRemovedAt := Some now\<rparr>],
                        ksVersion := wrap_int64 (ksVersion s + 1)\<rparr>))"

section \<open>The store as a map\<close>

text \<open>Both maps reach the same objects, and each object is where its own identifiers point.\<close>

definition ks_invar :: "key_store \<Rightarrow> bool" where
  "ks_invar s \<longleftrightarrow> wf_gomap (ksByID s) \<and> wf_gomap (ksByKID s) \<and>
     (\<forall>i a. map_of (ksByID s) i = Some a \<longrightarrow>
        a < length (ksHeap s) \<and> skID (ksHeap s ! a) = i \<and> map_of (ksByKID s) (skKID (ksHeap s ! a)) = Some a) \<and>
     (\<forall>k a. map_of (ksByKID s) k = Some a \<longrightarrow>
        a < length (ksHeap s) \<and> skKID (ksHeap s ! a) = k \<and> map_of (ksByID s) (skID (ksHeap s ! a)) = Some a)"

definition ks_abs :: "key_store \<Rightarrow> kid \<rightharpoonup> SigningKey" where
  "ks_abs s k = map_option (\<lambda>a. ksHeap s ! a) (map_of (ksByKID s) k)"

definition active_in :: "KeyDomain \<Rightarrow> SigningKey \<Rightarrow> bool" where
  "active_in d k \<longleftrightarrow> skKeyDomain k = d \<and> skRemovedAt k = None"

lemma clear_current_length [simp]: "length (clear_current d m h) = length h"
proof -
  have "length (fold (\<lambda>(_, a) h. if skKeyDomain (h ! a) = d then h[a := (h ! a)\<lparr>skIsCurrent := False\<rparr>] else h) m h) = length h" for h
    by (induction m arbitrary: h) (auto split: prod.splits)
  then show ?thesis by (simp add: clear_current_def)
qed

lemma clear_current_nth:
  assumes "\<forall>(i, a) \<in> set m. a < length h"
  shows "clear_current d m h ! b =
    (if b \<in> snd ` set m \<and> skKeyDomain (h ! b) = d then (h ! b)\<lparr>skIsCurrent := False\<rparr> else h ! b)"
  using assms
proof (induction m arbitrary: h)
  case (Cons x m)
  obtain i a where x: "x = (i, a)" by force
  let ?h = "if skKeyDomain (h ! a) = d then h[a := (h ! a)\<lparr>skIsCurrent := False\<rparr>] else h"
  have step: "clear_current d (x # m) h = clear_current d m ?h"
    by (simp add: clear_current_def x)
  have len: "\<forall>(i, a) \<in> set m. a < length ?h" "a < length h" using Cons.prems x by auto
  show ?case
    unfolding step using Cons.IH [OF len(1)] len(2) x by (cases "b = a") auto
qed (simp add: clear_current_def)

lemma ks_invar_addr: "ks_invar s \<Longrightarrow> \<forall>(i, a) \<in> set (ksByID s). a < length (ksHeap s)"
  by (auto simp: ks_invar_def)

lemma ks_invar_snd: "ks_invar s \<Longrightarrow> map_of (ksByKID s) k = Some a \<Longrightarrow> a \<in> snd ` set (ksByID s)"
  by (force simp: ks_invar_def dest: map_of_SomeD)

text \<open>Changing objects without touching their identifiers keeps the maps right.\<close>

lemma ks_invar_heap:
  assumes "ks_invar s" and "length h = length (ksHeap s)"
    and "\<And>a. a < length h \<Longrightarrow> skID (h ! a) = skID (ksHeap s ! a) \<and> skKID (h ! a) = skKID (ksHeap s ! a)"
  shows "ks_invar (s\<lparr>ksHeap := h, ksVersion := v\<rparr>)"
  using assms by (auto simp: ks_invar_def)

lemma ks_insert_invar:
  assumes "ks_invar s" and "map_of (ksByKID s) (skKID key) = None" and "map_of (ksByID s) (skID key) = None"
  shows "ks_invar (ks_insert key s)"
proof -
  let ?h = "ksHeap s @ [key]" and ?n = "length (ksHeap s)"
  have old: "i \<noteq> skID key \<Longrightarrow> map_of (ksByID s) i = Some a \<Longrightarrow>
      a < ?n \<and> skID (ksHeap s ! a) = i \<and> skKID (ksHeap s ! a) \<noteq> skKID key \<and> map_of (ksByKID s) (skKID (ksHeap s ! a)) = Some a"
    and old': "k \<noteq> skKID key \<Longrightarrow> map_of (ksByKID s) k = Some a \<Longrightarrow>
      a < ?n \<and> skKID (ksHeap s ! a) = k \<and> skID (ksHeap s ! a) \<noteq> skID key \<and> map_of (ksByID s) (skID (ksHeap s ! a)) = Some a"
    for i k a
    using assms unfolding ks_invar_def by (metis option.distinct(1))+
  have "a < Suc ?n \<and> skID (?h ! a) = i \<and> ((map_of (ksByKID s))(skKID key \<mapsto> ?n)) (skKID (?h ! a)) = Some a"
    if "((map_of (ksByID s))(skID key \<mapsto> ?n)) i = Some a" for i a
    using old [of i a] that by (cases "i = skID key") (auto simp: nth_append)
  moreover have "a < Suc ?n \<and> skKID (?h ! a) = k \<and> ((map_of (ksByID s))(skID key \<mapsto> ?n)) (skID (?h ! a)) = Some a"
    if "((map_of (ksByKID s))(skKID key \<mapsto> ?n)) k = Some a" for k a
    using old' [of k a] that by (cases "k = skKID key") (auto simp: nth_append)
  moreover have "wf_gomap (ksByID s)" "wf_gomap (ksByKID s)" using assms(1) by (auto simp: ks_invar_def)
  ultimately show ?thesis
    unfolding ks_invar_def ks_insert_def by (simp add: go_map_simps del: fun_upd_apply)
qed

lemma ks_kidD:
  "ks_invar s \<Longrightarrow> map_of (ksByKID s) k = Some a \<Longrightarrow> a < length (ksHeap s) \<and> skKID (ksHeap s ! a) = k"
  unfolding ks_invar_def by blast

lemma ks_insert_abs:
  assumes "ks_invar s"
  shows "ks_abs (ks_insert key s) = (ks_abs s)(skKID key \<mapsto> key)"
proof (rule ext)
  fix k
  show "ks_abs (ks_insert key s) k = ((ks_abs s)(skKID key \<mapsto> key)) k"
    using ks_kidD [OF assms, of k]
    by (cases "map_of (ksByKID s) k") (auto simp: ks_abs_def ks_insert_def go_map_simps nth_append)
qed

lemma clear_current_abs:
  assumes "ks_invar s"
  shows "ks_abs (s\<lparr>ksHeap := clear_current d (ksByID s) (ksHeap s)\<rparr>) =
    (\<lambda>k. map_option (\<lambda>x. if skKeyDomain x = d then x\<lparr>skIsCurrent := False\<rparr> else x) (ks_abs s k))"
  using clear_current_nth [OF ks_invar_addr [OF assms]] ks_invar_snd [OF assms]
  by (auto simp: ks_abs_def fun_eq_iff option.map_comp comp_def intro!: option.map_cong0)

lemma clear_current_invar:
  assumes "ks_invar s"
  shows "ks_invar (s\<lparr>ksHeap := clear_current d (ksByID s) (ksHeap s), ksVersion := v\<rparr>)"
  by (rule ks_invar_heap [OF assms]) (auto simp: clear_current_nth [OF ks_invar_addr [OF assms]])

lemma ks_abs_update:
  assumes "ks_invar s" and "map_of (ksByKID s) k = Some a" and "skKID x = k"
  shows "ks_abs (s\<lparr>ksHeap := (ksHeap s)[a := x], ksVersion := v\<rparr>) = (ks_abs s)(k \<mapsto> x)"
proof (rule ext)
  fix j
  show "ks_abs (s\<lparr>ksHeap := (ksHeap s)[a := x], ksVersion := v\<rparr>) j = ((ks_abs s)(k \<mapsto> x)) j"
    using ks_kidD [OF assms(1), of j] ks_kidD [OF assms(1,2)] assms(2)
    by (cases "map_of (ksByKID s) j") (auto simp: ks_abs_def nth_list_update)
qed

lemma find_in_domain_Some:
  "find_in_domain d kid s = Some a \<longleftrightarrow> map_of (ksByKID s) kid = Some a \<and> active_in d (ksHeap s ! a)"
  by (auto simp: find_in_domain_def active_in_def split: option.splits)

lemma find_in_domain_abs:
  "find_in_domain d kid s = Some a \<Longrightarrow> ks_abs s kid = Some (ksHeap s ! a) \<and> active_in d (ksHeap s ! a)"
  by (simp add: find_in_domain_Some ks_abs_def)

lemma ks_idD:
  "ks_invar s \<Longrightarrow> map_of (ksByID s) i = Some a \<Longrightarrow>
   skID (ksHeap s ! a) = i \<and> map_of (ksByKID s) (skKID (ksHeap s ! a)) = Some a"
  unfolding ks_invar_def by blast

lemma ks_kid_id: "ks_invar s \<Longrightarrow> map_of (ksByKID s) k = Some a \<Longrightarrow> map_of (ksByID s) (skID (ksHeap s ! a)) = Some a"
  unfolding ks_invar_def by blast

lemma heap_keys_abs: "ks_invar s \<Longrightarrow> x \<in> set (heap_keys s) \<longleftrightarrow> ks_abs s (skKID x) = Some x"
proof -
  assume inv: "ks_invar s"
  have "x \<in> set (heap_keys s) \<longleftrightarrow> (\<exists>i a. map_of (ksByID s) i = Some a \<and> x = ksHeap s ! a)"
    using inv by (auto simp: heap_keys_def ks_invar_def image_iff Bex_def)
  also have "\<dots> \<longleftrightarrow> (\<exists>a. map_of (ksByKID s) (skKID x) = Some a \<and> x = ksHeap s ! a)"
    using ks_idD [OF inv] ks_kid_id [OF inv] by blast
  also have "\<dots> \<longleftrightarrow> ks_abs s (skKID x) = Some x"
    by (auto simp: ks_abs_def)
  finally show ?thesis .
qed

lemma ks_abs_kid: "ks_invar s \<Longrightarrow> ks_abs s k = Some x \<Longrightarrow> skKID x = k"
  using ks_kidD by (auto simp: ks_abs_def)

lemma heap_keys_distinct: "ks_invar s \<Longrightarrow> distinct (map skKID (heap_keys s))"
proof -
  assume inv: "ks_invar s"
  have "inj_on (\<lambda>(i, a). skKID (ksHeap s ! a)) (set (ksByID s))"
  proof (rule inj_onI, clarify)
    fix i a j b
    assume ab: "(i, a) \<in> set (ksByID s)" "(j, b) \<in> set (ksByID s)" "skKID (ksHeap s ! a) = skKID (ksHeap s ! b)"
    from inv have wf: "wf_gomap (ksByID s)" by (simp add: ks_invar_def)
    from ab(1,2) have ij: "map_of (ksByID s) i = Some a" "map_of (ksByID s) j = Some b"
      unfolding map_of_mem_iff [OF wf] by blast+
    have "Some a = Some b"
      using conjunct2 [OF ks_idD [OF inv ij(1)]] conjunct2 [OF ks_idD [OF inv ij(2)]] unfolding ab(3) by (rule trans [OF sym])
    then have "a = b" by (rule option.inject [THEN iffD1])
    moreover from this have "i = j"
      using conjunct1 [OF ks_idD [OF inv ij(1)]] conjunct1 [OF ks_idD [OF inv ij(2)]] by blast
    ultimately show "i = j \<and> a = b" by blast
  qed
  moreover have "map skKID (heap_keys s) = map (\<lambda>(i, a). skKID (ksHeap s ! a)) (ksByID s)"
    by (auto simp: heap_keys_def)
  moreover have "distinct (ksByID s)" using inv by (simp add: ks_invar_def distinct_map)
  ultimately show ?thesis by (simp add: distinct_map)
qed

definition active_kids :: "(kid \<rightharpoonup> SigningKey) \<Rightarrow> KeyDomain \<Rightarrow> kid set" where
  "active_kids m d = {k. \<exists>x. m k = Some x \<and> active_in d x}"

lemma ks_List_set:
  "ks_invar s \<Longrightarrow> set (ks_ListActiveInDomain d s) = {x. ks_abs s (skKID x) = Some x \<and> active_in d x}"
  by (auto simp: ks_ListActiveInDomain_def heap_keys_abs active_in_def)

lemma ks_Count_card: "ks_invar s \<Longrightarrow> ks_CountActiveInDomain d s = card (active_kids (ks_abs s) d)"
proof -
  assume inv: "ks_invar s"
  have "fold (\<lambda>k n. if skKeyDomain k = d \<and> skRemovedAt k = None then n + 1 else n) l n = n + length (filter (active_in d) l)" for l and n :: nat
    by (induction l arbitrary: n) (auto simp: active_in_def)
  then have "ks_CountActiveInDomain d s = length (map skKID (filter (active_in d) (heap_keys s)))"
    by (simp add: ks_CountActiveInDomain_def)
  also have "\<dots> = card (set (map skKID (filter (active_in d) (heap_keys s))))"
    using distinct_card [OF distinct_map_filter [OF heap_keys_distinct [OF inv], of "active_in d"]] by (rule sym)
  also have "set (map skKID (filter (active_in d) (heap_keys s))) = active_kids (ks_abs s) d"
  proof (rule set_eqI)
    fix k
    have "k \<in> set (map skKID (filter (active_in d) (heap_keys s))) \<longleftrightarrow>
        (\<exists>x. x \<in> set (heap_keys s) \<and> active_in d x \<and> skKID x = k)" by auto
    also have "\<dots> \<longleftrightarrow> (\<exists>x. ks_abs s k = Some x \<and> active_in d x)"
      unfolding heap_keys_abs [OF inv] using ks_abs_kid [OF inv] by blast
    finally show "k \<in> set (map skKID (filter (active_in d) (heap_keys s))) \<longleftrightarrow> k \<in> active_kids (ks_abs s) d"
      by (simp add: active_kids_def)
  qed
  finally show ?thesis .
qed

section \<open>The effective current key\<close>

lemma better_key_irrefl: "\<not> better_key k k"
  by (simp add: better_key_def time_after_def)

lemma better_key_trans: "better_key a b \<Longrightarrow> better_key b c \<Longrightarrow> better_key a c"
  by (auto simp: better_key_def time_after_def)

lemma not_better_trans: "\<not> better_key a b \<Longrightarrow> \<not> better_key b c \<Longrightarrow> \<not> better_key a c"
  by (auto simp: better_key_def time_after_def)

lemma better_asym: "better_key a b \<Longrightarrow> \<not> better_key b a"
  by (auto simp: better_key_def time_after_def)

text \<open>The loop over the eligible keys, from any start.\<close>

lemma pick_fold:
  "case fold (\<lambda>key best. if P key then pick_key key best else best) keys b of
     None \<Rightarrow> b = None \<and> (\<forall>k \<in> set keys. \<not> P k)
   | Some x \<Rightarrow> (b = Some x \<or> (x \<in> set keys \<and> P x)) \<and>
       (\<forall>k \<in> set keys. P k \<longrightarrow> \<not> better_key k x) \<and> (\<forall>y. b = Some y \<longrightarrow> \<not> better_key y x)"
proof (induction keys arbitrary: b)
  case Nil
  then show ?case by (auto simp: better_key_irrefl split: option.splits)
next
  case (Cons k keys)
  let ?b = "if P k then pick_key k b else b"
  have step: "fold (\<lambda>key best. if P key then pick_key key best else best) (k # keys) b =
      fold (\<lambda>key best. if P key then pick_key key best else best) keys ?b" by simp
  show ?case
  proof (cases "fold (\<lambda>key best. if P key then pick_key key best else best) keys ?b")
    case None
    with Cons [of ?b] show ?thesis unfolding step by (simp add: pick_key_def split: option.splits if_splits)
  next
    case (Some x)
    with Cons [of ?b] have IH: "?b = Some x \<or> (x \<in> set keys \<and> P x)" "\<forall>k \<in> set keys. P k \<longrightarrow> \<not> better_key k x"
      "\<forall>y. ?b = Some y \<longrightarrow> \<not> better_key y x" by simp_all
    have "(P k \<longrightarrow> \<not> better_key k x) \<and> (\<forall>y. b = Some y \<longrightarrow> \<not> better_key y x)"
    proof (cases b)
      case None
      with IH(3) show ?thesis by (simp add: pick_key_def)
    next
      case (Some y)
      with IH(3) better_key_trans [of k y x] not_better_trans [of k y x] show ?thesis
        by (cases "P k"; cases "better_key k y") (auto simp: pick_key_def)
    qed
    moreover have "b = Some x \<or> (x \<in> set (k # keys) \<and> P x)"
      using IH(1) by (auto simp: pick_key_def split: if_splits option.splits)
    ultimately show ?thesis unfolding step Some using IH(2) by simp
  qed
qed

lemma usable_spec:
  "case currentUsableSigningKeyInDomain keys d now of
     None \<Rightarrow> \<forall>k \<in> set keys. \<not> (active_in d k \<and> \<not> time_after (skActivatesAt k) now)
   | Some x \<Rightarrow> x \<in> set keys \<and> active_in d x \<and> \<not> time_after (skActivatesAt x) now \<and>
       (\<forall>k \<in> set keys. active_in d k \<and> \<not> time_after (skActivatesAt k) now \<longrightarrow> \<not> better_key k x)"
proof -
  have "currentUsableSigningKeyInDomain keys d now = fold (\<lambda>key best.
      if active_in d key \<and> \<not> time_after (skActivatesAt key) now then pick_key key best else best) keys None"
    unfolding currentUsableSigningKeyInDomain_def by (rule fold_cong) (auto simp: active_in_def)
  with pick_fold [where b = None and P = "\<lambda>key. active_in d key \<and> \<not> time_after (skActivatesAt key) now" and keys = keys] show ?thesis
    by (auto split: option.splits)
qed

end
