(* ===== verification/Key_Lifecycle.thy ===== *)
theory Key_Lifecycle
  imports Signing_Key_Store
begin

text \<open>
  \<^verbatim>\<open>internal/domain/keylifecycle/engine.go\<close> over \<^verbatim>\<open>ports.SigningKeyRepository\<close>. The port is
  a record of its methods; the locale \<open>key_repository\<close> is what the engine relies on, and the
  in-memory store keeps it. Key generation, JWK derivation, branch keys and encryption are
  services the engine calls: their results for one run are the record \<open>key_material\<close>, an
  argument. \<^verbatim>\<open>WithBootstrapLock\<close> either fails before its function runs or runs it and may
  still fail afterwards; which of these happens is an argument too.
\<close>

section \<open>The port\<close>

record 'st key_port =
  kp_Create :: "SigningKey \<Rightarrow> 'st \<Rightarrow> key_error option \<times> 'st"
  kp_CreateAndSetCurrent :: "SigningKey \<Rightarrow> 'st \<Rightarrow> key_error option \<times> 'st"
  kp_GetByKIDInDomain :: "KeyDomain \<Rightarrow> kid \<Rightarrow> 'st \<Rightarrow> key_error + SigningKey"
  kp_ListActiveInDomain :: "KeyDomain \<Rightarrow> 'st \<Rightarrow> key_error + SigningKey list"
  kp_SetCurrentInDomain :: "KeyDomain \<Rightarrow> kid \<Rightarrow> time \<Rightarrow> 'st \<Rightarrow> (key_error + SigningKey) \<times> 'st"
  kp_DeleteInDomain :: "time \<Rightarrow> KeyDomain \<Rightarrow> kid \<Rightarrow> 'st \<Rightarrow> key_error option \<times> 'st"
  kp_CountActiveInDomain :: "KeyDomain \<Rightarrow> 'st \<Rightarrow> key_error + int"

definition memory_key_port :: "key_store key_port" where
  "memory_key_port =
     \<lparr>kp_Create = ks_Create, kp_CreateAndSetCurrent = ks_CreateAndSetCurrent,
      kp_GetByKIDInDomain = ks_GetByKIDInDomain,
      kp_ListActiveInDomain = (\<lambda>d s. Inr (ks_ListActiveInDomain d s)),
      kp_SetCurrentInDomain = ks_SetCurrentInDomain, kp_DeleteInDomain = ks_DeleteInDomain,
      kp_CountActiveInDomain = (\<lambda>d s. Inr (int (ks_CountActiveInDomain d s)))\<rparr>"

section \<open>The engine\<close>

record Policy =
  plDomain :: KeyDomain
  plHasNewKID :: bool
  plHasNewSubject :: bool
  plHasPublicJWK :: bool
  plActivationGrace :: duration

record key_material =
  kmKID :: kid
  kmPEM :: "key_error + string"
  kmPublicJWK :: "key_error + string"
  kmSubject :: "key_error + string"
  kmSubjectInvalid :: "key_error option"
  kmBranchKey :: "key_error + string"
  kmCiphertext :: "key_error + string"
  kmID :: string
  kmActivation :: time
  kmCreatedAt :: time

definition public_jwk :: "Policy \<Rightarrow> key_material \<Rightarrow> key_error + string" where
  "public_jwk policy km = (if plHasPublicJWK policy then kmPublicJWK km else Inr [])"

definition built_key :: "Policy \<Rightarrow> key_material \<Rightarrow> string \<Rightarrow> bool \<Rightarrow> time \<Rightarrow> string \<Rightarrow> string \<Rightarrow> SigningKey" where
  "built_key policy km algorithm isCurrent activatesAt jwk ciphertext =
     \<lparr>skID = kmID km, skKID = kmKID km, skKeyDomain = plDomain policy, skAlgorithm = algorithm,
      skPrivateKeyEncrypted = ciphertext, skPublicJWK = jwk, skIsCurrent = isCurrent,
      skActivatesAt = (if time_is_zero activatesAt
                       then (if isCurrent then kmActivation km + plActivationGrace policy else kmActivation km)
                       else activatesAt),
      skCreatedAt = kmCreatedAt km, skRemovedAt = None\<rparr>"

definition GenerateAndStore ::
  "'st key_port \<Rightarrow> Policy \<Rightarrow> key_material \<Rightarrow> string \<Rightarrow> bool \<Rightarrow> time \<Rightarrow> 'st \<Rightarrow> (key_error + SigningKey) \<times> 'st" where
  "GenerateAndStore R policy km algorithm0 isCurrent activatesAt s =
     (if \<not> KeyDomain_Validate (plDomain policy) then (Inl (KeyPolicy ''unsupported key domain''), s)
      else if \<not> plHasNewKID policy \<or> \<not> plHasNewSubject policy
      then (Inl (KeyPolicy ''key lifecycle policy is incomplete''), s)
      else
        let algorithm = (if algorithm0 = [] then ''ES256'' else algorithm0)
        in if algorithm \<noteq> ''ES256'' then (Inl (KeyPolicy (''unsupported algorithm: '' @ algorithm)), s)
           else if kmKID km = [] then (Inl (KeyPolicy ''key lifecycle policy generated an empty kid''), s)
           else case kmPEM km of Inl e \<Rightarrow> (Inl e, s) | Inr _ \<Rightarrow>
             (case public_jwk policy km of Inl e \<Rightarrow> (Inl e, s) | Inr jwk \<Rightarrow>
             (case kmSubject km of Inl e \<Rightarrow> (Inl e, s) | Inr _ \<Rightarrow>
             (case kmSubjectInvalid km of Some e \<Rightarrow> (Inl e, s) | None \<Rightarrow>
             (case kmBranchKey km of Inl e \<Rightarrow> (Inl e, s) | Inr _ \<Rightarrow>
             (case kmCiphertext km of Inl e \<Rightarrow> (Inl e, s) | Inr ciphertext \<Rightarrow>
               let key = built_key policy km algorithm isCurrent activatesAt jwk ciphertext
               in case (if isCurrent then kp_CreateAndSetCurrent R key s else kp_Create R key s) of
                    (Some e, s') \<Rightarrow> (Inl e, s')
                  | (None, s') \<Rightarrow> (Inr key, s')))))))"

datatype lock_run = LockFails key_error | LockRuns "key_error option"

definition isTimeoutOrCancellation :: "key_error \<Rightarrow> bool" where
  "isTimeoutOrCancellation e =
     (case e of KeyContext \<Rightarrow> True | KeyStorage se \<Rightarrow> seKind se = ErrorKindTimeout | _ \<Rightarrow> False)"

text \<open>The function run under the bootstrap lock: the key it made, its error, and the state.\<close>

definition bootstrap_body ::
  "'st key_port \<Rightarrow> Policy \<Rightarrow> key_material \<Rightarrow> time \<Rightarrow> 'st \<Rightarrow> SigningKey option \<times> key_error option \<times> 'st" where
  "bootstrap_body R policy km activatesAt s =
     (case kp_CountActiveInDomain R (plDomain policy) s of
        Inl e \<Rightarrow> (None, Some e, s)
      | Inr count \<Rightarrow>
          if 0 < count then (None, None, s)
          else case GenerateAndStore R policy km ''ES256'' True activatesAt s of
              (Inl e, s') \<Rightarrow> (None, Some e, s')
            | (Inr key, s') \<Rightarrow> (Some key, None, s'))"

definition EnsureInitialKey ::
  "'st key_port \<Rightarrow> lock_run \<Rightarrow> Policy \<Rightarrow> key_material \<Rightarrow> time \<Rightarrow> 'st \<Rightarrow>
   (key_error + SigningKey option \<times> bool) \<times> 'st" where
  "EnsureInitialKey R lock policy km activatesAt s =
     (let (created, err, s') =
        (case lock of
           LockFails e \<Rightarrow> (None, Some e, s)
         | LockRuns after \<Rightarrow>
             (case bootstrap_body R policy km activatesAt s of
                (created, Some e, s') \<Rightarrow> (created, Some e, s')
              | (created, None, s') \<Rightarrow> (created, after, s')))
      in case err of
           None \<Rightarrow> (Inr (created, created \<noteq> None), s')
         | Some e \<Rightarrow>
             if created \<noteq> None \<or> isTimeoutOrCancellation e then
               (case kp_CountActiveInDomain R (plDomain policy) s' of
                  Inr count \<Rightarrow> if 0 < count then (Inr (created, created \<noteq> None), s') else (Inl e, s')
                | Inl _ \<Rightarrow> (Inl e, s'))
             else (Inl e, s'))"

definition GenerateWithInitialActivation ::
  "'st key_port \<Rightarrow> lock_run \<Rightarrow> Policy \<Rightarrow> key_material \<Rightarrow> time \<Rightarrow> time \<Rightarrow> 'st \<Rightarrow> (key_error + SigningKey) \<times> 'st" where
  "GenerateWithInitialActivation R lock policy km firstActivatesAt laterActivatesAt s =
     (case lock of
        LockFails e \<Rightarrow> (Inl e, s)
      | LockRuns after \<Rightarrow>
          (case kp_CountActiveInDomain R (plDomain policy) s of
             Inl e \<Rightarrow> (Inl e, s)
           | Inr count \<Rightarrow>
               (case GenerateAndStore R policy km ''ES256'' True
                       (if 0 < count then laterActivatesAt else firstActivatesAt) s of
                  (Inl e, s') \<Rightarrow> (Inl e, s')
                | (Inr key, s') \<Rightarrow> (case after of None \<Rightarrow> (Inr key, s') | Some e \<Rightarrow> (Inl e, s')))))"

definition List :: "'st key_port \<Rightarrow> Policy \<Rightarrow> 'st \<Rightarrow> key_error + SigningKey list" where
  "List R policy s =
     (if \<not> KeyDomain_Validate (plDomain policy) then Inl (KeyPolicy ''unsupported key domain'')
      else kp_ListActiveInDomain R (plDomain policy) s)"

definition Promote ::
  "'st key_port \<Rightarrow> Policy \<Rightarrow> kid \<Rightarrow> time \<Rightarrow> 'st \<Rightarrow> (key_error + SigningKey) \<times> 'st" where
  "Promote R policy kid activatesAt s =
     (if \<not> KeyDomain_Validate (plDomain policy) then (Inl (KeyPolicy ''unsupported key domain''), s)
      else kp_SetCurrentInDomain R (plDomain policy) kid activatesAt s)"

definition EffectiveCurrent :: "SigningKey list \<Rightarrow> time \<Rightarrow> SigningKey option" where
  "EffectiveCurrent keys now =
     fold (\<lambda>key best. if time_after (skActivatesAt key) now then best else pick_key key best) keys None"

text \<open>The reads of the store and the deletion are one step here; the source takes the store's lock for each,
  and \<^verbatim>\<open>DeleteInDomain\<close> checks again under it.\<close>

definition Delete ::
  "'st key_port \<Rightarrow> Policy \<Rightarrow> kid \<Rightarrow> time \<Rightarrow> time \<Rightarrow> 'st \<Rightarrow> key_error option \<times> 'st" where
  "Delete R policy kid now rnow s =
     (if \<not> KeyDomain_Validate (plDomain policy) then (Some (KeyPolicy ''unsupported key domain''), s)
      else case kp_GetByKIDInDomain R (plDomain policy) kid s of
        Inl e \<Rightarrow> (Some e, s)
      | Inr key \<Rightarrow>
          (case kp_CountActiveInDomain R (plDomain policy) s of
             Inl e \<Rightarrow> (Some e, s)
           | Inr count \<Rightarrow>
               if count \<le> 1 then (Some ErrLastActiveKey, s)
               else if skIsCurrent key then (Some ErrCurrentKey, s)
               else case kp_ListActiveInDomain R (plDomain policy) s of
                   Inl e \<Rightarrow> (Some e, s)
                 | Inr keys \<Rightarrow>
                     if (case EffectiveCurrent keys now of None \<Rightarrow> False | Some current \<Rightarrow> skKID current = kid)
                     then (Some ErrEffectiveCurrentKey, s)
                     else kp_DeleteInDomain R rnow (plDomain policy) kid s))"

section \<open>What may happen to the keys\<close>

definition demoted :: "KeyDomain \<Rightarrow> SigningKey \<Rightarrow> SigningKey" where
  "demoted d x = (if skKeyDomain x = d then x\<lparr>skIsCurrent := False\<rparr> else x)"

definition demote :: "KeyDomain \<Rightarrow> (kid \<rightharpoonup> SigningKey) \<Rightarrow> (kid \<rightharpoonup> SigningKey)" where
  "demote d m k = map_option (demoted d) (m k)"

lemma demoted_fields [simp]:
  "skKID (demoted d x) = skKID x" "skID (demoted d x) = skID x" "skKeyDomain (demoted d x) = skKeyDomain x"
  "skRemovedAt (demoted d x) = skRemovedAt x" "skActivatesAt (demoted d x) = skActivatesAt x"
  "skIsCurrent (demoted d x) \<longleftrightarrow> skIsCurrent x \<and> skKeyDomain x \<noteq> d"
  "active_in e (demoted d x) = active_in e x"
  by (auto simp: demoted_def active_in_def)

lemma demoted_other: "skKeyDomain x \<noteq> d \<Longrightarrow> demoted d x = x"
  by (simp add: demoted_def)

text \<open>The changes of one domain's keys: none, a new key that is not current, a new key or an
  existing one that takes over the marker, or the removal of a key that is not current while
  another active key remains.\<close>

inductive key_change :: "KeyDomain \<Rightarrow> (kid \<rightharpoonup> SigningKey) \<Rightarrow> (kid \<rightharpoonup> SigningKey) \<Rightarrow> bool" for d where
  same: "key_change d m m"
| add: "m (skKID x) = None \<Longrightarrow> skKeyDomain x = d \<Longrightarrow> skRemovedAt x = None \<Longrightarrow> \<not> skIsCurrent x \<Longrightarrow>
    key_change d m (m(skKID x \<mapsto> x))"
| take_over: "m (skKID x) = None \<or> (\<exists>y. m (skKID x) = Some y \<and> active_in d y) \<Longrightarrow>
    skKeyDomain x = d \<Longrightarrow> skRemovedAt x = None \<Longrightarrow> key_change d m ((demote d m)(skKID x \<mapsto> x))"
| remove: "m k = Some y \<Longrightarrow> active_in d y \<Longrightarrow> \<not> skIsCurrent y \<Longrightarrow> 2 \<le> card (active_kids m d) \<Longrightarrow>
    key_change d m (m(k \<mapsto> y\<lparr>skRemovedAt := Some t\<rparr>))"

definition keys_ok :: "(kid \<rightharpoonup> SigningKey) \<Rightarrow> bool" where
  "keys_ok m \<longleftrightarrow> finite (dom m) \<and>
     (\<forall>k x. m k = Some x \<longrightarrow> skKID x = k \<and> (skIsCurrent x \<longrightarrow> skRemovedAt x = None)) \<and>
     (\<forall>k k' x x'. m k = Some x \<longrightarrow> m k' = Some x' \<longrightarrow> skKeyDomain x = skKeyDomain x' \<longrightarrow>
        skIsCurrent x \<longrightarrow> skIsCurrent x' \<longrightarrow> k = k')"

lemma demote_Some: "demote d m k = Some x \<longleftrightarrow> (\<exists>y. m k = Some y \<and> x = demoted d y)"
  by (auto simp: demote_def)

lemma active_demote: "active_kids (demote d m) d' = active_kids m d'"
  by (auto simp: active_kids_def demote_Some)

lemma dom_demote [simp]: "dom (demote d m) = dom m"
  by (auto simp: dom_def demote_def)

lemma key_change_ok:
  assumes "key_change d m m'" and "keys_ok m"
  shows "keys_ok m'"
  using assms
proof (cases rule: key_change.cases)
  case (add x)
  with assms(2) show ?thesis by (auto simp: keys_ok_def)
next
  case (take_over x)
  have kid: "skKID y = k \<and> (skIsCurrent y \<longrightarrow> skRemovedAt y = None \<and> skKeyDomain y \<noteq> d)" if "demote d m k = Some y" for k y
    using assms(2) that by (auto simp: keys_ok_def demote_Some)
  have "k = k'" if "demote d m k = Some y" "demote d m k' = Some y'" "skKeyDomain y = skKeyDomain y'"
      "skIsCurrent y" "skIsCurrent y'" for k k' y y'
    using that assms(2) by (auto simp: keys_ok_def demote_Some)
  moreover have "\<not> skIsCurrent y" if "demote d m k = Some y" "skKeyDomain y = skKeyDomain x" for k y
    using kid [OF that(1)] that(2) take_over(3) by auto
  moreover have "finite (dom (demote d m))" using assms(2) by (simp add: keys_ok_def)
  ultimately show ?thesis using kid take_over(1,4) unfolding keys_ok_def by (auto split: if_splits)
next
  case (remove k y t)
  with assms(2) show ?thesis by (auto simp: keys_ok_def)
qed auto

text \<open>A domain that has an active key keeps one, and its current key stays or is replaced.\<close>

lemma key_change_active:
  assumes "key_change d m m'" and "keys_ok m" and "active_kids m d' \<noteq> {}"
  shows "active_kids m' d' \<noteq> {}"
  using assms(1)
proof (cases rule: key_change.cases)
  case (add x)
  then have "active_kids m d' \<subseteq> active_kids m' d'" by (auto simp: active_kids_def)
  with assms(3) show ?thesis by blast
next
  case (take_over x)
  from assms(3) obtain k where "k \<in> active_kids (demote d m) d'" by (auto simp: active_demote)
  with take_over have "k \<in> active_kids m' d'"
    by (cases "k = skKID x") (auto simp: active_kids_def active_in_def demote_Some)
  then show ?thesis by blast
next
  case (remove k y t)
  have "active_kids m d - {k} \<noteq> {}"
  proof
    assume "active_kids m d - {k} = {}"
    then have "active_kids m d \<subseteq> {k}" by blast
    then have "card (active_kids m d) \<le> card {k}" by (intro card_mono) auto
    with remove(5) show False by simp
  qed
  then obtain l where l: "l \<in> active_kids m d" "l \<noteq> k" by blast
  show ?thesis
  proof (cases "d' = d")
    case True
    with l remove have "l \<in> active_kids m' d'" by (auto simp: active_kids_def)
    then show ?thesis by blast
  next
    case False
    from assms(3) obtain j where j: "j \<in> active_kids m d'" by blast
    with False remove have "j \<noteq> k" by (auto simp: active_kids_def active_in_def)
    with j remove have "j \<in> active_kids m' d'" by (auto simp: active_kids_def)
    then show ?thesis by blast
  qed
qed (use assms in auto)

text \<open>No other domain notices.\<close>

lemma key_change_other:
  assumes "key_change d m m'" and "d' \<noteq> d"
  shows "m k = Some x \<and> skKeyDomain x = d' \<longleftrightarrow> m' k = Some x \<and> skKeyDomain x = d'"
  using assms(1)
proof (cases rule: key_change.cases)
  case (take_over y)
  with assms(2) show ?thesis by (auto simp: demote_Some active_in_def demoted_other)
qed (use assms in \<open>auto simp: active_in_def\<close>)

section \<open>The contract of the repository\<close>

definition fresh_id :: "(kid \<rightharpoonup> SigningKey) \<Rightarrow> string \<Rightarrow> bool" where
  "fresh_id m i \<longleftrightarrow> (\<forall>k x. m k = Some x \<longrightarrow> skID x \<noteq> i)"

locale key_repository =
  fixes R :: "'st key_port"
    and absk :: "'st \<Rightarrow> kid \<rightharpoonup> SigningKey"
    and invar :: "'st \<Rightarrow> bool"
  assumes create_fail: "kp_Create R key s = (Some e, s') \<Longrightarrow> s' = s"
    and create_ok: "invar s \<Longrightarrow> fresh_id (absk s) (skID key) \<Longrightarrow> kp_Create R key s = (None, s') \<Longrightarrow>
      invar s' \<and> absk s (skKID key) = None \<and> absk s' = (absk s)(skKID key \<mapsto> key)"
    and create_current_fail: "kp_CreateAndSetCurrent R key s = (Some e, s') \<Longrightarrow> s' = s"
    and create_current_ok: "invar s \<Longrightarrow> fresh_id (absk s) (skID key) \<Longrightarrow>
      kp_CreateAndSetCurrent R key s = (None, s') \<Longrightarrow>
      invar s' \<and> absk s (skKID key) = None \<and>
      absk s' = (demote (skKeyDomain key) (absk s))(skKID key \<mapsto> key\<lparr>skIsCurrent := True\<rparr>)"
    and get_Inr: "invar s \<Longrightarrow> kp_GetByKIDInDomain R d k s = Inr x \<Longrightarrow> absk s k = Some x \<and> active_in d x"
    and list_Inr: "invar s \<Longrightarrow> kp_ListActiveInDomain R d s = Inr l \<Longrightarrow>
      set l = {x. absk s (skKID x) = Some x \<and> active_in d x}"
    and count_Inr: "invar s \<Longrightarrow> kp_CountActiveInDomain R d s = Inr n \<Longrightarrow> n = int (card (active_kids (absk s) d))"
    and set_current_fail: "kp_SetCurrentInDomain R d k t s = (Inl e, s') \<Longrightarrow> s' = s"
    and set_current_ok: "invar s \<Longrightarrow> kp_SetCurrentInDomain R d k t s = (Inr x, s') \<Longrightarrow>
      invar s' \<and> (\<exists>y. absk s k = Some y \<and> active_in d y \<and> skKID y = k \<and>
        x = y\<lparr>skIsCurrent := True, skActivatesAt := t\<rparr> \<and> absk s' = (demote d (absk s))(k \<mapsto> x))"
    and delete_fail: "kp_DeleteInDomain R now d k s = (Some e, s') \<Longrightarrow> s' = s"
    and delete_ok: "invar s \<Longrightarrow> kp_DeleteInDomain R now d k s = (None, s') \<Longrightarrow>
      invar s' \<and> (\<exists>y. absk s k = Some y \<and> active_in d y \<and> \<not> skIsCurrent y \<and> 2 \<le> card (active_kids (absk s) d) \<and>
        absk s' = (absk s)(k \<mapsto> y\<lparr>skRemovedAt := Some now\<rparr>))"
begin

lemma GenerateAndStore_change:
  assumes "invar s" and "fresh_id (absk s) (kmID km)"
    and "GenerateAndStore R policy km alg cur at s = (r, s')"
  shows "invar s' \<and> key_change (plDomain policy) (absk s) (absk s') \<and>
    (case r of Inl _ \<Rightarrow> s' = s
     | Inr key \<Rightarrow> absk s (skKID key) = None \<and> absk s' (skKID key) = Some key \<and>
         active_in (plDomain policy) key \<and> skIsCurrent key = cur)"
proof -
  consider (fail) e where "r = Inl e" "s' = s"
    | (stored) key where "r = Inr key" "skID key = kmID km" "active_in (plDomain policy) key" "skIsCurrent key = cur"
        "(if cur then kp_CreateAndSetCurrent R key s else kp_Create R key s) = (None, s')"
    using assms(3) create_fail create_current_fail
    by (auto simp: GenerateAndStore_def built_key_def active_in_def Let_def
        split: if_splits sum.splits option.splits prod.splits)
  then show ?thesis
  proof cases
    case fail
    with assms(1) show ?thesis by (auto intro: key_change.same)
  next
    case stored
    show ?thesis
    proof (cases cur)
      case True
      with stored create_current_ok [OF assms(1), of key s'] assms(2)
      have c: "invar s'" "absk s (skKID key) = None" "absk s' = (demote (plDomain policy) (absk s))(skKID key \<mapsto> key)"
        by (auto simp: active_in_def)
      moreover have "key_change (plDomain policy) (absk s) (absk s')"
        unfolding c(3) using stored(3) c(2) by (intro key_change.take_over) (auto simp: active_in_def)
      ultimately show ?thesis using stored True by simp
    next
      case False
      with stored create_ok [OF assms(1), of key s'] assms(2)
      have c: "invar s'" "absk s (skKID key) = None" "absk s' = (absk s)(skKID key \<mapsto> key)" by auto
      moreover have "key_change (plDomain policy) (absk s) (absk s')"
        unfolding c(3) using stored c(2) False by (intro key_change.add) (auto simp: active_in_def)
      ultimately show ?thesis using stored False by simp
    qed
  qed
qed

lemma bootstrap_change:
  assumes "invar s" and "fresh_id (absk s) (kmID km)" and "bootstrap_body R policy km at s = (c, e, s')"
  shows "invar s' \<and> key_change (plDomain policy) (absk s) (absk s')"
  using assms(3) GenerateAndStore_change [OF assms(1,2)] assms(1)
  by (auto simp: bootstrap_body_def intro: key_change.same split: sum.splits prod.splits if_splits)

lemma EnsureInitialKey_change:
  assumes "invar s" and "fresh_id (absk s) (kmID km)" and "EnsureInitialKey R lock policy km at s = (r, s')"
  shows "invar s' \<and> key_change (plDomain policy) (absk s) (absk s')"
proof (cases lock)
  case (LockFails e)
  with assms(1,3) show ?thesis
    by (auto simp: EnsureInitialKey_def intro: key_change.same split: if_splits sum.splits)
next
  case (LockRuns after)
  obtain c e s1 where b: "bootstrap_body R policy km at s = (c, e, s1)" by (cases "bootstrap_body R policy km at s")
  with assms(3) LockRuns have "s' = s1"
    by (auto simp: EnsureInitialKey_def Let_def split: option.splits if_splits sum.splits)
  with bootstrap_change [OF assms(1,2) b] show ?thesis by simp
qed

lemma GenerateWithInitialActivation_change:
  assumes "invar s" and "fresh_id (absk s) (kmID km)"
    and "GenerateWithInitialActivation R lock policy km t1 t2 s = (r, s')"
  shows "invar s' \<and> key_change (plDomain policy) (absk s) (absk s')"
  using assms(3) GenerateAndStore_change [OF assms(1,2)] assms(1)
  by (fastforce simp: GenerateWithInitialActivation_def intro: key_change.same
      split: lock_run.splits sum.splits prod.splits option.splits)

lemma Promote_change:
  assumes "invar s" and "Promote R policy k t s = (r, s')"
  shows "invar s' \<and> key_change (plDomain policy) (absk s) (absk s')"
proof (cases "KeyDomain_Validate (plDomain policy) \<and> (\<exists>x. r = Inr x)")
  case False
  with assms set_current_fail have "s' = s" by (cases r) (auto simp: Promote_def split: if_splits)
  with assms(1) show ?thesis by (auto intro: key_change.same)
next
  case True
  then obtain x where "kp_SetCurrentInDomain R (plDomain policy) k t s = (Inr x, s')"
    using assms(2) by (auto simp: Promote_def)
  from set_current_ok [OF assms(1) this] obtain y where y: "invar s'" "absk s k = Some y" "active_in (plDomain policy) y"
    "skKID y = k" "x = y\<lparr>skIsCurrent := True, skActivatesAt := t\<rparr>" "absk s' = (demote (plDomain policy) (absk s))(k \<mapsto> x)" by blast
  then have "skKID x = k" by simp
  with y have "key_change (plDomain policy) (absk s) ((demote (plDomain policy) (absk s))(skKID x \<mapsto> x))"
    by (intro key_change.take_over) (auto simp: active_in_def)
  with y \<open>skKID x = k\<close> show ?thesis by simp
qed

lemma Delete_change:
  assumes "invar s" and "Delete R policy k now rnow s = (r, s')"
  shows "invar s' \<and> key_change (plDomain policy) (absk s) (absk s')"
proof (cases "s' = s")
  case True
  with assms(1) show ?thesis by (auto intro: key_change.same)
next
  case False
  with assms(2) have "kp_DeleteInDomain R rnow (plDomain policy) k s = (r, s')"
    by (auto simp: Delete_def split: if_splits sum.splits)
  with False delete_fail have "kp_DeleteInDomain R rnow (plDomain policy) k s = (None, s')" by (cases r) auto
  from delete_ok [OF assms(1) this] show ?thesis by (auto intro: key_change.remove)
qed

end

section \<open>The in-memory store keeps the contract\<close>

lemma memory_key_port_sel [simp]:
  "kp_Create memory_key_port = ks_Create"
  "kp_CreateAndSetCurrent memory_key_port = ks_CreateAndSetCurrent"
  "kp_GetByKIDInDomain memory_key_port = ks_GetByKIDInDomain"
  "kp_ListActiveInDomain memory_key_port = (\<lambda>d s. Inr (ks_ListActiveInDomain d s))"
  "kp_SetCurrentInDomain memory_key_port = ks_SetCurrentInDomain"
  "kp_DeleteInDomain memory_key_port = ks_DeleteInDomain"
  "kp_CountActiveInDomain memory_key_port = (\<lambda>d s. Inr (int (ks_CountActiveInDomain d s)))"
  by (simp_all add: memory_key_port_def)

lemma fresh_id_byID: "ks_invar s \<Longrightarrow> fresh_id (ks_abs s) i \<Longrightarrow> map_of (ksByID s) i = None"
proof (rule ccontr)
  assume inv: "ks_invar s" and f: "fresh_id (ks_abs s) i" and "map_of (ksByID s) i \<noteq> None"
  then obtain a where "map_of (ksByID s) i = Some a" by blast
  from ks_idD [OF inv this] have "ks_abs s (skKID (ksHeap s ! a)) = Some (ksHeap s ! a)" "skID (ksHeap s ! a) = i"
    by (simp_all add: ks_abs_def)
  with f show False by (auto simp: fresh_id_def)
qed

lemma clear_current_demote:
  "ks_invar s \<Longrightarrow> ks_abs (s\<lparr>ksHeap := clear_current d (ksByID s) (ksHeap s)\<rparr>) = demote d (ks_abs s)"
  by (simp add: clear_current_abs fun_eq_iff demote_def demoted_def [abs_def])

lemma clear_current_invar0:
  "ks_invar s \<Longrightarrow> ks_invar (s\<lparr>ksHeap := clear_current d (ksByID s) (ksHeap s)\<rparr>)"
  using clear_current_invar [where s = s and d = d and v = "ksVersion s"] by simp

lemma ks_Create_ok:
  assumes "ks_invar s" and "fresh_id (ks_abs s) (skID key)" and "ks_Create key s = (None, s')"
  shows "ks_invar s' \<and> ks_abs s (skKID key) = None \<and> ks_abs s' = (ks_abs s)(skKID key \<mapsto> key)"
proof -
  from assms(3) have "map_of (ksByKID s) (skKID key) = None" "s' = ks_insert key s"
    by (auto simp: ks_Create_def create_error_def split: option.splits if_splits)
  with ks_insert_invar [OF assms(1) this(1) fresh_id_byID [OF assms(1,2)]] ks_insert_abs [OF assms(1)]
  show ?thesis by (simp add: ks_abs_def)
qed

lemma ks_CreateAndSetCurrent_ok:
  assumes "ks_invar s" and "fresh_id (ks_abs s) (skID key)" and "ks_CreateAndSetCurrent key s = (None, s')"
  shows "ks_invar s' \<and> ks_abs s (skKID key) = None \<and>
    ks_abs s' = (demote (skKeyDomain key) (ks_abs s))(skKID key \<mapsto> key\<lparr>skIsCurrent := True\<rparr>)"
proof -
  let ?s = "s\<lparr>ksHeap := clear_current (skKeyDomain key) (ksByID s) (ksHeap s)\<rparr>"
  let ?k = "key\<lparr>skIsCurrent := True\<rparr>"
  from assms(3) have k: "map_of (ksByKID s) (skKID key) = None" "s' = ks_insert ?k ?s"
    by (auto simp: ks_CreateAndSetCurrent_def create_error_def split: option.splits if_splits)
  have inv: "ks_invar ?s" by (rule clear_current_invar0 [OF assms(1)])
  have "ks_invar (ks_insert ?k ?s)"
    by (rule ks_insert_invar [OF inv]) (use k(1) fresh_id_byID [OF assms(1,2)] in simp_all)
  moreover have "ks_abs (ks_insert ?k ?s) = (demote (skKeyDomain key) (ks_abs s))(skKID key \<mapsto> ?k)"
    using ks_insert_abs [OF inv, of ?k] clear_current_demote [OF assms(1)] by simp
  ultimately show ?thesis using k by (simp add: ks_abs_def)
qed

lemma ks_SetCurrent_ok:
  assumes inv: "ks_invar s" and ok: "ks_SetCurrentInDomain d k t s = (Inr x, s')"
  shows "ks_invar s' \<and> (\<exists>y. ks_abs s k = Some y \<and> active_in d y \<and> skKID y = k \<and>
    x = y\<lparr>skIsCurrent := True, skActivatesAt := t\<rparr> \<and> ks_abs s' = (demote d (ks_abs s))(k \<mapsto> x))"
proof -
  let ?h = "clear_current d (ksByID s) (ksHeap s)"
  let ?s = "s\<lparr>ksHeap := ?h\<rparr>"
  from ok obtain a where a: "find_in_domain d k s = Some a"
    and x: "x = (?h ! a)\<lparr>skIsCurrent := True, skActivatesAt := t\<rparr>"
    and s': "s' = ?s\<lparr>ksHeap := (ksHeap ?s)[a := x], ksVersion := wrap_int64 (ksVersion s + 1)\<rparr>"
    by (auto simp: ks_SetCurrentInDomain_def Let_def split: option.splits)
  from a have m: "map_of (ksByKID s) k = Some a" "ks_abs s k = Some (ksHeap s ! a)" "active_in d (ksHeap s ! a)"
    by (simp_all add: find_in_domain_Some ks_abs_def)
  have x': "x = (ksHeap s ! a)\<lparr>skIsCurrent := True, skActivatesAt := t\<rparr>"
    unfolding x clear_current_nth [OF ks_invar_addr [OF inv]] by simp
  note kd = ks_kidD [OF inv m(1)]
  have inv': "ks_invar ?s" by (rule clear_current_invar0 [OF inv])
  have "ks_abs s' = (ks_abs ?s)(k \<mapsto> x)"
    unfolding s' by (rule ks_abs_update [OF inv']) (use m(1) kd x' in simp_all)
  moreover have "ks_invar s'"
    unfolding s'
  proof (rule ks_invar_heap [OF inv'])
    fix b
    assume "b < length ((ksHeap ?s)[a := x])"
    then show "skID ((ksHeap ?s)[a := x] ! b) = skID (ksHeap ?s ! b) \<and> skKID ((ksHeap ?s)[a := x] ! b) = skKID (ksHeap ?s ! b)"
      by (cases "b = a") (simp_all add: x)
  qed simp
  ultimately show ?thesis using m x' kd clear_current_demote [OF inv] by auto
qed

lemma ks_Delete_ok:
  assumes inv: "ks_invar s" and ok: "ks_DeleteInDomain now d k s = (None, s')"
  shows "ks_invar s' \<and> (\<exists>y. ks_abs s k = Some y \<and> active_in d y \<and> \<not> skIsCurrent y \<and>
    2 \<le> card (active_kids (ks_abs s) d) \<and> ks_abs s' = (ks_abs s)(k \<mapsto> y\<lparr>skRemovedAt := Some now\<rparr>))"
proof -
  from ok obtain a where a: "find_in_domain d k s = Some a" "\<not> ks_CountActiveInDomain d s \<le> 1"
      "\<not> skIsCurrent (ksHeap s ! a)"
    and s': "s' = s\<lparr>ksHeap := (ksHeap s)[a := (ksHeap s ! a)\<lparr>skRemovedAt := Some now\<rparr>],
      ksVersion := wrap_int64 (ksVersion s + 1)\<rparr>"
    by (auto simp: ks_DeleteInDomain_def split: option.splits if_splits)
  from a(1) have m: "map_of (ksByKID s) k = Some a" "ks_abs s k = Some (ksHeap s ! a)" "active_in d (ksHeap s ! a)"
    by (simp_all add: find_in_domain_Some ks_abs_def)
  have "ks_abs s' = (ks_abs s)(k \<mapsto> (ksHeap s ! a)\<lparr>skRemovedAt := Some now\<rparr>)"
    unfolding s' by (rule ks_abs_update [OF inv m(1)]) (use ks_kidD [OF inv m(1)] in simp)
  moreover have "ks_invar s'"
    unfolding s'
  proof (rule ks_invar_heap [OF inv])
    fix b
    assume "b < length ((ksHeap s)[a := (ksHeap s ! a)\<lparr>skRemovedAt := Some now\<rparr>])"
    then show "skID ((ksHeap s)[a := (ksHeap s ! a)\<lparr>skRemovedAt := Some now\<rparr>] ! b) = skID (ksHeap s ! b) \<and>
        skKID ((ksHeap s)[a := (ksHeap s ! a)\<lparr>skRemovedAt := Some now\<rparr>] ! b) = skKID (ksHeap s ! b)"
      by (cases "b = a") simp_all
  qed simp
  ultimately show ?thesis using m a(2,3) ks_Count_card [OF inv, of d] by auto
qed

text \<open>A refused method leaves the store alone.\<close>

lemma ks_fail:
  "ks_Create key s = (Some e, s') \<Longrightarrow> s' = s"
  "ks_CreateAndSetCurrent key s = (Some e, s') \<Longrightarrow> s' = s"
  "ks_SetCurrentInDomain d k t s = (Inl e, s') \<Longrightarrow> s' = s"
  "ks_DeleteInDomain now d k s = (Some e, s') \<Longrightarrow> s' = s"
     apply (simp add: ks_Create_def split: option.splits)
    apply (simp add: ks_CreateAndSetCurrent_def split: option.splits)
   apply (simp add: ks_SetCurrentInDomain_def Let_def split: option.splits)
  apply (simp add: ks_DeleteInDomain_def split: option.splits if_splits)
  done

interpretation mem_keys: key_repository memory_key_port ks_abs ks_invar
proof (unfold_locales, unfold memory_key_port_sel, goal_cases)
  case (1 key s e s') then show ?case by (rule ks_fail)
next
  case (2 s key s') then show ?case by (rule ks_Create_ok)
next
  case (3 key s e s') then show ?case by (rule ks_fail)
next
  case (4 s key s') then show ?case by (rule ks_CreateAndSetCurrent_ok)
next
  case (5 s d k x)
  then show ?case by (auto simp: ks_GetByKIDInDomain_def dest!: find_in_domain_abs split: option.splits)
next
  case (6 s d l) then show ?case by (auto simp: ks_List_set)
next
  case (7 s d n) then show ?case by (auto simp: ks_Count_card)
next
  case (8 d k t s e s') then show ?case by (rule ks_fail)
next
  case (9 s d k t x s') then show ?case by (rule ks_SetCurrent_ok)
next
  case (10 now d k s e s') then show ?case by (rule ks_fail)
next
  case (11 s now d k s') then show ?case by (rule ks_Delete_ok)
qed

section \<open>Every history of the engine\<close>

text \<open>One call of the engine for the keys of a domain, whatever the key material, the lock, the
  clock and the arguments. A new key's identifier is a fresh UUID.\<close>

inductive key_step :: "KeyDomain \<Rightarrow> key_store \<Rightarrow> key_store \<Rightarrow> bool" where
  generate: "fresh_id (ks_abs s) (kmID km) \<Longrightarrow>
    GenerateAndStore memory_key_port policy km alg cur at s = (r, s') \<Longrightarrow> key_step (plDomain policy) s s'"
| ensure: "fresh_id (ks_abs s) (kmID km) \<Longrightarrow>
    EnsureInitialKey memory_key_port lock policy km at s = (q, s') \<Longrightarrow> key_step (plDomain policy) s s'"
| initial: "fresh_id (ks_abs s) (kmID km) \<Longrightarrow>
    GenerateWithInitialActivation memory_key_port lock policy km t t' s = (r, s') \<Longrightarrow>
    key_step (plDomain policy) s s'"
| promote: "Promote memory_key_port policy k at s = (r, s') \<Longrightarrow> key_step (plDomain policy) s s'"
| delete: "Delete memory_key_port policy k now rnow s = (e, s') \<Longrightarrow> key_step (plDomain policy) s s'"

inductive key_run :: "key_store \<Rightarrow> key_store \<Rightarrow> bool" for s0 where
  start: "key_run s0 s0"
| step: "key_run s0 s \<Longrightarrow> key_step d s s' \<Longrightarrow> key_run s0 s'"

lemma key_step_change:
  assumes "key_step d s s'" and "ks_invar s"
  shows "ks_invar s' \<and> key_change d (ks_abs s) (ks_abs s')"
  using assms
proof (induction rule: key_step.induct)
  case (generate s km policy alg cur at r s')
  then show ?case using mem_keys.GenerateAndStore_change by blast
next
  case (ensure s km lock policy at q s')
  then show ?case using mem_keys.EnsureInitialKey_change by blast
next
  case (initial s km lock policy t t' r s')
  then show ?case using mem_keys.GenerateWithInitialActivation_change by blast
next
  case (promote policy k at s r s')
  then show ?case using mem_keys.Promote_change by blast
next
  case (delete policy k now rnow s e s')
  then show ?case using mem_keys.Delete_change by blast
qed

lemma key_run_ok:
  assumes "key_run s0 s" and "ks_invar s0" and "keys_ok (ks_abs s0)"
  shows "ks_invar s \<and> keys_ok (ks_abs s)"
  using assms
proof (induction rule: key_run.induct)
  case (step s d s')
  then show ?case using key_step_change key_change_ok by blast
qed simp

lemma key_run_active:
  assumes "key_run s0 s" and "ks_invar s0" and "keys_ok (ks_abs s0)" and "active_kids (ks_abs s0) d \<noteq> {}"
  shows "active_kids (ks_abs s) d \<noteq> {}"
  using assms
proof (induction rule: key_run.induct)
  case (step s e s')
  then have ok: "ks_invar s" "keys_ok (ks_abs s)" using key_run_ok by blast+
  from step have "active_kids (ks_abs s) d \<noteq> {}" by blast
  with key_change_active [of e "ks_abs s" "ks_abs s'"] key_step_change [OF step(2) ok(1)] ok(2) show ?case by blast
qed simp

lemma new_store_ok: "ks_invar NewSigningKeyStore" "keys_ok (ks_abs NewSigningKeyStore)"
  by (simp_all add: ks_invar_def keys_ok_def ks_abs_def NewSigningKeyStore_def dom_def)

lemma active_count: "ks_invar s \<Longrightarrow> keys_ok (ks_abs s) \<Longrightarrow> 0 < ks_CountActiveInDomain d s \<longleftrightarrow> active_kids (ks_abs s) d \<noteq> {}"
proof -
  assume "ks_invar s" "keys_ok (ks_abs s)"
  moreover have "active_kids (ks_abs s) d \<subseteq> dom (ks_abs s)" by (auto simp: active_kids_def)
  ultimately show ?thesis using finite_subset by (auto simp: ks_Count_card card_gt_0_iff keys_ok_def)
qed

section \<open>Properties\<close>

text \<open>A policy and key material for the witnesses.\<close>

definition demo_policy :: "KeyDomain \<Rightarrow> Policy" where
  "demo_policy d = \<lparr>plDomain = d, plHasNewKID = True, plHasNewSubject = True, plHasPublicJWK = False, plActivationGrace = 0\<rparr>"

definition demo_material :: "string \<Rightarrow> kid \<Rightarrow> key_material" where
  "demo_material i k = \<lparr>kmKID = k, kmPEM = Inr ''pem'', kmPublicJWK = Inr [], kmSubject = Inr ''s'',
     kmSubjectInvalid = None, kmBranchKey = Inr ''b'', kmCiphertext = Inr ''c'', kmID = i,
     kmActivation = 5, kmCreatedAt = 5\<rparr>"

definition demo_keys :: key_store where
  "demo_keys = snd (GenerateAndStore memory_key_port (demo_policy KeyDomainTokenSigning) (demo_material ''1'' ''k1'') [] True 5
     NewSigningKeyStore)"

definition demo_keys2 :: key_store where
  "demo_keys2 = snd (GenerateAndStore memory_key_port (demo_policy KeyDomainTokenSigning) (demo_material ''2'' ''k2'') [] True 6
     demo_keys)"

lemmas demo_key_simps = demo_policy_def demo_material_def GenerateAndStore_def KeyDomain_Validate_def
  KeyDomainTokenSigning_def KeyDomainCIMDClientAuthentication_def built_key_def public_jwk_def time_is_zero_def
  ks_CreateAndSetCurrent_def create_error_def ks_insert_def clear_current_def NewSigningKeyStore_def wrap_int64_def Let_def

lemma demo_keys_eval:
  "demo_keys = \<lparr>ksHeap = [\<lparr>skID = ''1'', skKID = ''k1'', skKeyDomain = ''token_signing'', skAlgorithm = ''ES256'',
      skPrivateKeyEncrypted = ''c'', skPublicJWK = [], skIsCurrent = True, skActivatesAt = 5, skCreatedAt = 5,
      skRemovedAt = None\<rparr>], ksByID = [(''1'', 0)], ksByKID = [(''k1'', 0)], ksVersion = 1\<rparr>"
  by (simp add: demo_keys_def demo_key_simps)

lemma demo_keys2_eval:
  "demo_keys2 = \<lparr>ksHeap = [\<lparr>skID = ''1'', skKID = ''k1'', skKeyDomain = ''token_signing'', skAlgorithm = ''ES256'',
      skPrivateKeyEncrypted = ''c'', skPublicJWK = [], skIsCurrent = False, skActivatesAt = 5, skCreatedAt = 5,
      skRemovedAt = None\<rparr>, \<lparr>skID = ''2'', skKID = ''k2'', skKeyDomain = ''token_signing'', skAlgorithm = ''ES256'',
      skPrivateKeyEncrypted = ''c'', skPublicJWK = [], skIsCurrent = True, skActivatesAt = 6, skCreatedAt = 5,
      skRemovedAt = None\<rparr>], ksByID = [(''1'', 0), (''2'', 1)], ksByKID = [(''k1'', 0), (''k2'', 1)], ksVersion = 2\<rparr>"
  by (simp add: demo_keys2_def demo_keys_eval demo_key_simps)

lemma key_step_generate:
  "fresh_id (ks_abs s) (kmID km) \<Longrightarrow>
   key_step (plDomain policy) s (snd (GenerateAndStore memory_key_port policy km alg cur at s))"
  by (rule key_step.generate [OF _ prod.collapse [symmetric]])

lemma demo_keys_run: "key_run NewSigningKeyStore demo_keys"
  unfolding demo_keys_def
  by (rule key_run.step [OF key_run.start key_step_generate])
    (simp add: fresh_id_def ks_abs_def NewSigningKeyStore_def)

lemma demo_keys2_run: "key_run demo_keys demo_keys2"
  unfolding demo_keys2_def
  by (rule key_run.step [OF key_run.start key_step_generate])
    (simp add: fresh_id_def ks_abs_def demo_keys_eval demo_material_def)

text \<open>
  C20. After any history of the engine on a new store, a domain has at most one active key with the
  current marker, and a removed key never carries it.
\<close>

theorem key_run_one_current:
  assumes "key_run NewSigningKeyStore s"
  shows "length (filter skIsCurrent (ks_ListActiveInDomain d s)) \<le> 1 \<and>
    (\<forall>x \<in> set (heap_keys s). skIsCurrent x \<longrightarrow> skRemovedAt x = None)"
proof -
  from key_run_ok [OF assms new_store_ok] have inv: "ks_invar s" and ok: "keys_ok (ks_abs s)" by blast+
  let ?l = "filter skIsCurrent (ks_ListActiveInDomain d s)"
  have same: "skKID x = skKID y" if "x \<in> set ?l" "y \<in> set ?l" for x y
  proof -
    from that have "ks_abs s (skKID x) = Some x" "ks_abs s (skKID y) = Some y" "skIsCurrent x" "skIsCurrent y"
        "skKeyDomain x = skKeyDomain y"
      by (simp_all add: ks_List_set [OF inv] active_in_def)
    with ok show ?thesis unfolding keys_ok_def by blast
  qed
  have "distinct (map skKID ?l)"
    unfolding ks_ListActiveInDomain_def by (intro distinct_map_filter heap_keys_distinct [OF inv])
  moreover have "set (map skKID ?l) \<subseteq> {skKID (hd ?l)}"
  proof (cases "?l = []")
    case False
    show ?thesis using same [OF _ hd_in_set [OF False]] by (auto simp only: set_map)
  qed (simp only: list.map list.set empty_subsetI)
  ultimately have "length (map skKID ?l) \<le> 1"
    using distinct_card [of "map skKID ?l"] card_mono [of "{skKID (hd ?l)}" "set (map skKID ?l)"] by simp
  moreover have "\<forall>x \<in> set (heap_keys s). skIsCurrent x \<longrightarrow> skRemovedAt x = None"
    using ok unfolding heap_keys_abs [OF inv] Ball_def keys_ok_def by blast
  ultimately show ?thesis by simp
qed

theorem key_run_one_current_witness:
  "length (filter skIsCurrent (ks_ListActiveInDomain KeyDomainTokenSigning demo_keys)) \<le> 1 \<and>
   filter (\<lambda>x. skIsCurrent x \<and> skRemovedAt x \<noteq> None) (heap_keys demo_keys) = []"
  using key_run_one_current [OF demo_keys_run, of KeyDomainTokenSigning] by (auto simp: filter_empty_conv)

text \<open>
  Once a domain has an active key it has one for ever: no history of the engine, deletions
  included, leaves it without.
\<close>

theorem key_run_never_empty:
  assumes "key_run NewSigningKeyStore s" and "0 < ks_CountActiveInDomain d s" and "key_run s s'"
  shows "0 < ks_CountActiveInDomain d s'"
proof -
  note ok = key_run_ok [OF assms(1) new_store_ok, THEN conjunct1] key_run_ok [OF assms(1) new_store_ok, THEN conjunct2]
  from assms(2) have "active_kids (ks_abs s) d \<noteq> {}" unfolding active_count [OF ok] .
  from key_run_active [OF assms(3) ok this] key_run_ok [OF assms(3) ok] active_count show ?thesis by blast
qed

theorem key_run_never_empty_witness:
  "0 < ks_CountActiveInDomain KeyDomainTokenSigning demo_keys2"
  by (rule key_run_never_empty [OF demo_keys_run _ demo_keys2_run])
    (simp add: demo_keys_eval ks_CountActiveInDomain_def heap_keys_def KeyDomainTokenSigning_def)

text \<open>
  The engine's calls for one domain never show in another: after any call for \<open>d\<close> the keys of
  every other domain, active or removed, are exactly the ones before.
\<close>

theorem key_step_isolated:
  assumes "key_run NewSigningKeyStore s" and "key_step d s s'" and "d' \<noteq> d"
  shows "{x \<in> set (heap_keys s'). skKeyDomain x = d'} = {x \<in> set (heap_keys s). skKeyDomain x = d'}"
proof -
  from key_run_ok [OF assms(1) new_store_ok] have inv: "ks_invar s" by blast
  note c = key_step_change [OF assms(2) inv]
  show ?thesis
    using key_change_other [OF c [THEN conjunct2] assms(3)]
    unfolding heap_keys_abs [OF inv] heap_keys_abs [OF c [THEN conjunct1]] by blast
qed

theorem key_step_isolated_witness:
  "{x \<in> set (heap_keys (snd (Promote memory_key_port (demo_policy KeyDomainCIMDClientAuthentication) ''k1'' 9 demo_keys))).
     skKeyDomain x = KeyDomainTokenSigning} = {x \<in> set (heap_keys demo_keys). skKeyDomain x = KeyDomainTokenSigning}"
  by (rule key_step_isolated [OF demo_keys_run key_step.promote [OF prod.collapse [symmetric]]])
    (simp add: demo_policy_def KeyDomainTokenSigning_def KeyDomainCIMDClientAuthentication_def)

lemma EnsureInitialKey_counts:
  assumes "ks_invar s" and "fresh_id (ks_abs s) (kmID km)"
    and "EnsureInitialKey memory_key_port lock policy km at s = (Inr q, s')"
  shows "0 < ks_CountActiveInDomain (plDomain policy) s'"
proof -
  have stored: "0 < ks_CountActiveInDomain (plDomain policy) t"
    if g: "GenerateAndStore memory_key_port policy km ''ES256'' True at s = (Inr key, t)" for key t
  proof -
    from mem_keys.GenerateAndStore_change [OF assms(1,2) g]
    have "ks_invar t" "skKID key \<in> active_kids (ks_abs t) (plDomain policy)" by (auto simp: active_kids_def)
    moreover have "finite (active_kids (ks_abs t) (plDomain policy))"
      by (rule finite_subset [of _ "dom (map_of (ksByKID t))"])
        (auto simp: active_kids_def ks_abs_def finite_dom_map_of)
    ultimately show ?thesis by (auto simp: ks_Count_card card_gt_0_iff)
  qed
  from assms(3) stored show ?thesis
    by (auto simp: EnsureInitialKey_def bootstrap_body_def Let_def
        split: lock_run.splits option.splits if_splits sum.splits prod.splits)
qed

text \<open>
  A bootstrap that reports success, the recovery after a failed or cancelled lock included, has
  left the domain with an active key; and every later bootstrap that gets the lock reports that
  it created nothing and changes nothing, whatever key material it was given.
\<close>

theorem EnsureInitialKey_once:
  assumes "ks_invar s" and "fresh_id (ks_abs s) (kmID km)"
    and "EnsureInitialKey memory_key_port lock policy km at s = (Inr q, s')"
  shows "0 < ks_CountActiveInDomain (plDomain policy) s' \<and>
    EnsureInitialKey memory_key_port (LockRuns None) policy km' at' s' = (Inr (None, False), s')"
  using EnsureInitialKey_counts [OF assms] by (simp add: EnsureInitialKey_def bootstrap_body_def)

theorem EnsureInitialKey_once_witness:
  "0 < ks_CountActiveInDomain KeyDomainTokenSigning demo_keys \<and>
   EnsureInitialKey memory_key_port (LockRuns None) (demo_policy KeyDomainTokenSigning) (demo_material ''2'' ''k2'') 9 demo_keys =
     (Inr (None, False), demo_keys)"
proof -
  have s: "EnsureInitialKey memory_key_port (LockRuns (Some KeyContext)) (demo_policy KeyDomainTokenSigning) (demo_material ''1'' ''k1'') 5
      NewSigningKeyStore = (Inr (Some (ksHeap demo_keys ! 0), True), demo_keys)"
    by (simp add: EnsureInitialKey_def bootstrap_body_def demo_keys_eval demo_key_simps ks_CountActiveInDomain_def heap_keys_def)
  have "fresh_id (ks_abs NewSigningKeyStore) (kmID (demo_material ''1'' ''k1''))"
    by (simp add: fresh_id_def ks_abs_def NewSigningKeyStore_def)
  from EnsureInitialKey_once [OF new_store_ok(1) this s, where km' = "demo_material ''2'' ''k2''" and at' = 9]
  show ?thesis by (simp add: demo_policy_def)
qed

lemma Delete_step:
  assumes "Delete memory_key_port policy k now rnow s = (None, s')"
  shows "ks_DeleteInDomain rnow (plDomain policy) k s = (None, s')"
  using assms by (simp add: Delete_def split: if_splits sum.splits option.splits)

lemma GetCurrent_spec:
  assumes "ks_invar s"
  shows "case ks_GetCurrentInDomain now d s of
     Inl _ \<Rightarrow> (\<forall>k y. ks_abs s k = Some y \<longrightarrow> \<not> (active_in d y \<and> \<not> time_after (skActivatesAt y) now))
   | Inr x \<Rightarrow> ks_abs s (skKID x) = Some x \<and> active_in d x \<and> \<not> time_after (skActivatesAt x) now \<and>
       (\<forall>k y. ks_abs s k = Some y \<longrightarrow> active_in d y \<and> \<not> time_after (skActivatesAt y) now \<longrightarrow> \<not> better_key y x)"
proof -
  have *: "y \<in> set (heap_keys s)" if "ks_abs s k = Some y" for k y
    using that ks_abs_kid [OF assms that] by (simp add: heap_keys_abs [OF assms])
  from usable_spec [of "heap_keys s" d now] heap_keys_abs [OF assms] show ?thesis
    unfolding ks_GetCurrentInDomain_def by (cases "currentUsableSigningKeyInDomain (heap_keys s) d now") (auto dest: *)
qed

text \<open>
  C23. A deletion never interrupts signing: if the domain has a key to sign with at that moment, it
  still has one after the deletion, not the deleted key, and no worse by the order (current
  marker first, then latest activation) than the one before.
\<close>

theorem Delete_keeps_signing:
  assumes "key_run NewSigningKeyStore s"
    and "Delete memory_key_port policy k now rnow s = (None, s')"
    and "ks_GetCurrentInDomain rnow (plDomain policy) s = Inr x"
  shows "\<exists>x'. ks_GetCurrentInDomain rnow (plDomain policy) s' = Inr x' \<and> skKID x' \<noteq> k \<and> \<not> better_key x x'"
proof -
  let ?d = "plDomain policy"
  from key_run_ok [OF assms(1) new_store_ok] have inv: "ks_invar s" by blast
  note del = Delete_step [OF assms(2)]
  from ks_Delete_ok [OF inv del] obtain y where inv': "ks_invar s'"
    and abs': "ks_abs s' = (ks_abs s)(k \<mapsto> y\<lparr>skRemovedAt := Some rnow\<rparr>)" by blast
  from assms(3) have "currentUsableSigningKeyInDomain (heap_keys s) ?d rnow = Some x"
    by (simp add: ks_GetCurrentInDomain_def split: option.splits)
  with del have xk: "skKID x \<noteq> k"
    by (auto simp: ks_DeleteInDomain_def split: option.splits if_splits)
  from GetCurrent_spec [OF inv, where now = rnow and d = ?d] assms(3) have x: "ks_abs s (skKID x) = Some x" "active_in ?d x"
      "\<not> time_after (skActivatesAt x) rnow" by simp_all
  with xk abs' have x': "ks_abs s' (skKID x) = Some x" by simp
  show ?thesis
  proof (cases "ks_GetCurrentInDomain rnow ?d s'")
    case (Inl e)
    with GetCurrent_spec [OF inv', where now = rnow and d = ?d] x x' show ?thesis by auto
  next
    case (Inr z)
    with GetCurrent_spec [OF inv', where now = rnow and d = ?d] have z: "ks_abs s' (skKID z) = Some z" "active_in ?d z"
      "\<forall>k y. ks_abs s' k = Some y \<longrightarrow> active_in ?d y \<and> \<not> time_after (skActivatesAt y) rnow \<longrightarrow> \<not> better_key y z" by simp_all
    from z(3) x x' have "\<not> better_key x z" by blast
    moreover have "skKID z \<noteq> k" using z(1,2) abs' by (auto simp: active_in_def)
    ultimately show ?thesis using Inr by simp
  qed
qed

theorem Delete_keeps_signing_witness:
  "\<exists>x'. ks_GetCurrentInDomain 9 KeyDomainTokenSigning
      (snd (Delete memory_key_port (demo_policy KeyDomainTokenSigning) ''k1'' 9 9 demo_keys2)) = Inr x' \<and>
    skKID x' \<noteq> ''k1'' \<and> \<not> better_key (ksHeap demo_keys2 ! 1) x'"
proof -
  let ?p = "demo_policy KeyDomainTokenSigning"
  have d: "Delete memory_key_port ?p ''k1'' 9 9 demo_keys2 = (None, snd (Delete memory_key_port ?p ''k1'' 9 9 demo_keys2))"
    by (simp add: Delete_def demo_keys2_eval demo_key_simps ks_GetByKIDInDomain_def find_in_domain_def
        ks_CountActiveInDomain_def heap_keys_def ks_ListActiveInDomain_def EffectiveCurrent_def pick_key_def
        better_key_def time_after_def ks_DeleteInDomain_def currentUsableSigningKeyInDomain_def)
  have g: "ks_GetCurrentInDomain 9 (plDomain ?p) demo_keys2 = Inr (ksHeap demo_keys2 ! 1)"
    by (simp add: demo_keys2_eval demo_key_simps ks_GetCurrentInDomain_def heap_keys_def pick_key_def
        better_key_def time_after_def currentUsableSigningKeyInDomain_def)
  have r: "key_run NewSigningKeyStore demo_keys2"
    unfolding demo_keys2_def
    by (rule key_run.step [OF demo_keys_run key_step_generate])
      (simp add: fresh_id_def ks_abs_def demo_keys_eval demo_material_def)
  from Delete_keeps_signing [OF r d g] show ?thesis by (simp add: demo_policy_def)
qed

end
