(* ===== verification/Agent_Model.thy ===== *)
theory Agent_Model
  imports Token_Stores
begin

text \<open>
  The records an administrator maintains: agents with their service requirements and permission
  sets (\<^verbatim>\<open>internal/domain/storage/agent.go\<close>, \<^verbatim>\<open>service_requirement.go\<close>, \<^verbatim>\<open>requirement_type.go\<close>,
  \<^verbatim>\<open>permission_set.go\<close>, \<^verbatim>\<open>internal/domain/canonical/id.go\<close>) and the checks on them. A requirement
  type is a Go string with two legal values. \<^verbatim>\<open>ClearCanonicalID\<close> of a permission set never reaches
  the stored copy and is left out. \<^verbatim>\<open>uuid.Parse\<close> is an argument.
\<close>

section \<open>Data\<close>

type_synonym service_id = string
type_synonym permission_set_id = string
type_synonym RequirementType = string

definition RequirementTypeMandatory :: RequirementType where
  "RequirementTypeMandatory = ''mandatory''"

definition RequirementTypeOptional :: RequirementType where
  "RequirementTypeOptional = ''optional''"

definition RequirementType_Valid :: "RequirementType \<Rightarrow> bool" where
  "RequirementType_Valid rt \<longleftrightarrow> rt = RequirementTypeMandatory \<or> rt = RequirementTypeOptional"

record ServiceRequirement =
  srServiceID :: service_id
  srRequirementType :: RequirementType
  srRequiredScopes :: "string list"
  srRequireAllScopes :: bool

record AgentPermissionSetEntry =
  apPermissionSetID :: permission_set_id
  apRequirementType :: RequirementType

record Agent =
  agID :: agent_id
  agCanonicalID :: "string option"
  agClientID :: "string option"
  agExternalID :: "string option"
  agDisplayName :: string
  agDescription :: string
  agGovernanceURL :: "string option"
  agUserDocumentationURL :: "string option"
  agAgentInterfaceURL :: "string option"
  agServiceRequirements :: "ServiceRequirement list"
  agPermissionSets :: "AgentPermissionSetEntry list"
  agRedirectURIs :: "string list"
  agAllowedScopes :: "string list"
  agClientURIs :: "string list"
  agCreatedAt :: time
  agUpdatedAt :: time

datatype ClientType = UnknownClient | ProxyClient | CIMDClient | LocalClient | AmbiguousClient

definition Agent_ClientType :: "Agent \<Rightarrow> ClientType" where
  "Agent_ClientType a =
     (if agClientID a \<noteq> None \<and> agClientURIs a \<noteq> [] then AmbiguousClient
      else if agClientID a \<noteq> None then ProxyClient
      else if agClientURIs a \<noteq> [] then CIMDClient
      else LocalClient)"

record ServiceScope =
  scServiceID :: service_id
  scScopes :: "string list"
  scRequirementType :: RequirementType

record PermissionSet =
  psID :: permission_set_id
  psCanonicalID :: "string option"
  psName :: string
  psDescription :: string
  psServiceScopes :: "ServiceScope list"
  psCreatedAt :: time
  psUpdatedAt :: time

text \<open>Why a record is refused: a message, a fault of the entry at an index of a list, or a repeated
  key with the indices of both entries.\<close>

datatype record_error =
    Fault string
  | Entry string nat record_error
  | Repeated string string nat nat

section \<open>Checks\<close>

text \<open>The first index at which a check fails.\<close>

fun first_fault :: "string \<Rightarrow> ('a \<Rightarrow> record_error option) \<Rightarrow> nat \<Rightarrow> 'a list \<Rightarrow> record_error option" where
  "first_fault field check i [] = None"
| "first_fault field check i (x # xs) =
     (case check x of Some e \<Rightarrow> Some (Entry field i e) | None \<Rightarrow> first_fault field check (Suc i) xs)"

text \<open>The loop over a \<^verbatim>\<open>seen\<close> map from a key to its index.\<close>

fun repeated :: "string \<Rightarrow> nat \<Rightarrow> (string, nat) gomap \<Rightarrow> string list \<Rightarrow> record_error option" where
  "repeated field i seen [] = None"
| "repeated field i seen (k # ks) =
     (case map_of seen k of
        Some prevIdx \<Rightarrow> Some (Repeated field k prevIdx i)
      | None \<Rightarrow> repeated field (Suc i) (AList.update k i seen) ks)"

definition ServiceRequirement_Validate :: "ServiceRequirement \<Rightarrow> record_error option" where
  "ServiceRequirement_Validate sr =
     (if srServiceID sr = uuid_nil then Some (Fault ''service_id is required'')
      else if \<not> RequirementType_Valid (srRequirementType sr)
      then Some (Fault ''requirement_type validation failed'')
      else case first_fault ''required_scopes'' (\<lambda>scope. if scope = [] then Some (Fault ''is empty'') else None) 0
                  (srRequiredScopes sr) of
             Some e \<Rightarrow> Some e
           | None \<Rightarrow>
               if srRequireAllScopes sr \<and> srRequiredScopes sr \<noteq> []
               then Some (Fault ''required_scopes must be empty when require_all_scopes is true'') else None)"

definition ServiceRequirement_IsMandatory :: "ServiceRequirement \<Rightarrow> bool" where
  "ServiceRequirement_IsMandatory sr \<longleftrightarrow> srRequirementType sr = RequirementTypeMandatory"

definition ServiceRequirement_HasScope :: "ServiceRequirement \<Rightarrow> string \<Rightarrow> bool" where
  "ServiceRequirement_HasScope sr scope = list_ex (\<lambda>s. s = scope) (srRequiredScopes sr)"

definition ValidateServiceRequirements :: "Agent \<Rightarrow> record_error option" where
  "ValidateServiceRequirements a =
     (if agServiceRequirements a = [] then None
      else case first_fault ''service_requirements'' ServiceRequirement_Validate 0 (agServiceRequirements a) of
             Some e \<Rightarrow> Some e
           | None \<Rightarrow> repeated ''service_id'' 0 [] (map srServiceID (agServiceRequirements a)))"

fun permission_set_loop :: "nat \<Rightarrow> (string, nat) gomap \<Rightarrow> AgentPermissionSetEntry list \<Rightarrow> record_error option" where
  "permission_set_loop i seen [] = None"
| "permission_set_loop i seen (ps # rest) =
     (if apPermissionSetID ps = uuid_nil
      then Some (Entry ''permission_sets'' i (Fault ''permission_set_id is required''))
      else if \<not> RequirementType_Valid (apRequirementType ps)
      then Some (Entry ''permission_sets'' i (Fault ''invalid requirement_type''))
      else case map_of seen (apPermissionSetID ps) of
             Some prevIdx \<Rightarrow> Some (Repeated ''permission_set_id'' (apPermissionSetID ps) prevIdx i)
           | None \<Rightarrow> permission_set_loop (Suc i) (AList.update (apPermissionSetID ps) i seen) rest)"

definition ValidatePermissionSets :: "Agent \<Rightarrow> record_error option" where
  "ValidatePermissionSets a =
     (if agPermissionSets a = [] then Some (Fault ''at least one permission set entry is required'')
      else permission_set_loop 0 [] (agPermissionSets a))"

definition canonical_char :: "char \<Rightarrow> bool" where
  "canonical_char c \<longleftrightarrow> (CHR ''A'' \<le> c \<and> c \<le> CHR ''Z'') \<or> (CHR ''a'' \<le> c \<and> c \<le> CHR ''z'') \<or>
     is_digit c \<or> c = CHR ''.'' \<or> c = CHR ''_'' \<or> c = CHR ''-''"

definition canonical_Validate :: "(string \<Rightarrow> string option) \<Rightarrow> string option \<Rightarrow> record_error option" where
  "canonical_Validate parse v =
     (case v of
        None \<Rightarrow> None
      | Some s \<Rightarrow>
          if \<not> (1 \<le> length s \<and> length s \<le> 128 \<and> list_all canonical_char s)
          then Some (Fault ''canonical_id must be 1-128 characters using only letters, digits, dot, underscore or hyphen'')
          else if parse s \<noteq> None then Some (Fault ''canonical_id must not be UUID-shaped'')
          else None)"

fun scope_loop :: "string list \<Rightarrow> string list \<Rightarrow> record_error option" where
  "scope_loop seen [] = None"
| "scope_loop seen (scope # rest) =
     (if scope = [] then Some (Fault ''scope cannot be empty'')
      else if List.member seen scope then Some (Fault (''duplicate scope '' @ scope))
      else scope_loop (scope # seen) rest)"

definition ServiceScope_fault :: "ServiceScope \<Rightarrow> record_error option" where
  "ServiceScope_fault ss =
     (if scServiceID ss = uuid_nil then Some (Fault ''service_id is required'')
      else case scope_loop [] (scScopes ss) of
             Some e \<Rightarrow> Some e
           | None \<Rightarrow>
               if scRequirementType ss = [] then Some (Fault ''requirement_type is required'')
               else if \<not> RequirementType_Valid (scRequirementType ss) then Some (Fault ''invalid requirement_type'')
               else None)"

definition PermissionSet_validateCommon :: "(string \<Rightarrow> string option) \<Rightarrow> PermissionSet \<Rightarrow> record_error option" where
  "PermissionSet_validateCommon parse ps =
     (case canonical_Validate parse (psCanonicalID ps) of
        Some e \<Rightarrow> Some e
      | None \<Rightarrow>
          if psName ps = [] then Some (Fault ''name is required'')
          else if 255 < length (psName ps) then Some (Fault ''name exceeds 255 characters'')
          else if psDescription ps = [] then Some (Fault ''description is required'')
          else if psServiceScopes ps = [] then Some (Fault ''at least one service scope is required'')
          else case first_fault ''service_scope'' ServiceScope_fault 0 (psServiceScopes ps) of
                 Some e \<Rightarrow> Some e
               | None \<Rightarrow> repeated ''service_id'' 0 [] (map scServiceID (psServiceScopes ps)))"

definition PermissionSet_Validate :: "(string \<Rightarrow> string option) \<Rightarrow> PermissionSet \<Rightarrow> record_error option" where
  "PermissionSet_Validate parse ps =
     (if psID ps = uuid_nil then Some (Fault ''permission set ID cannot be empty'')
      else PermissionSet_validateCommon parse ps)"

definition PermissionSet_ValidateForCreate :: "(string \<Rightarrow> string option) \<Rightarrow> PermissionSet \<Rightarrow> record_error option" where
  "PermissionSet_ValidateForCreate parse ps = PermissionSet_validateCommon parse ps"

section \<open>What the checks decide\<close>

lemma first_fault_None: "first_fault field check i xs = None \<longleftrightarrow> (\<forall>x \<in> set xs. check x = None)"
  by (induction xs arbitrary: i) (auto split: option.splits)

lemma repeated_None:
  "repeated field i seen ks = None \<longleftrightarrow> distinct ks \<and> set ks \<inter> dom (map_of seen) = {}"
  by (induction ks arbitrary: i seen) (auto simp: go_map_simps dom_def split: option.splits if_splits)

lemma permission_set_loop_None:
  "permission_set_loop i seen ps = None \<longleftrightarrow>
   (\<forall>p \<in> set ps. apPermissionSetID p \<noteq> uuid_nil \<and> RequirementType_Valid (apRequirementType p)) \<and>
   distinct (map apPermissionSetID ps) \<and> apPermissionSetID ` set ps \<inter> dom (map_of seen) = {}"
  by (induction ps arbitrary: i seen) (auto simp: go_map_simps dom_def image_iff split: option.splits if_splits)

lemma scope_loop_None:
  "scope_loop seen scopes = None \<longleftrightarrow> (\<forall>s \<in> set scopes. s \<noteq> []) \<and> distinct scopes \<and> set scopes \<inter> set seen = {}"
  by (induction scopes arbitrary: seen) auto

end
