(* ===== verification/User_Grants.thy ===== *)
theory User_Grants
  imports Agent_Model
begin

text \<open>
  A user's grant to an agent (\<^verbatim>\<open>internal/domain/storage/user_grant.go\<close>) and the in-memory store of
  grants (\<^verbatim>\<open>internal/adapters/storage/memory/user_grants.go\<close>). Every method holds the store's lock
  and is one step; grants are copied in and out. The store indexes grants by one string made of
  principal and agent and keeps the grants of an agent in a list; the contract
  \<open>grant_repository\<close> speaks of a map from pairs to grants, and the string keys implement it
  because the text of every agent identifier has the same length.
\<close>

section \<open>The grant\<close>

type_synonym GrantedPermissionSetEntry = "permission_set_id \<times> service_id list"

record UserGrant =
  ugID :: string
  ugPrincipal :: principal
  ugAgentID :: agent_id
  ugValidUntil :: "time option"
  ugGrantedPermissionSets :: "GrantedPermissionSetEntry list"
  ugCreatedAt :: time
  ugUpdatedAt :: time

datatype access_error = ErrAgentAccessDenied | ErrGrantExpired | AccessFailure

definition entry_fault :: "GrantedPermissionSetEntry \<Rightarrow> record_error option" where
  "entry_fault entry =
     (if fst entry = uuid_nil then Some (Fault ''permission_set_id is required'')
      else if snd entry = [] then Some (Fault ''at least one included_service_id is required'')
      else first_fault ''included_service_ids'' (\<lambda>svc. if svc = uuid_nil then Some (Fault ''service ID is required'') else None) 0
             (snd entry))"

definition UserGrant_ValidateForCreate :: "time \<Rightarrow> UserGrant \<Rightarrow> record_error option" where
  "UserGrant_ValidateForCreate now g =
     (if ugPrincipal g = [] then Some (Fault ''principal is required'')
      else if ugAgentID g = uuid_nil then Some (Fault ''agent_id is required'')
      else if (case ugValidUntil g of None \<Rightarrow> False | Some v \<Rightarrow> time_before v now)
      then Some (Fault ''valid_until must be in the future'')
      else first_fault ''granted_permission_sets'' entry_fault 0 (ugGrantedPermissionSets g))"

definition UserGrant_Validate :: "time \<Rightarrow> UserGrant \<Rightarrow> record_error option" where
  "UserGrant_Validate now g =
     (if ugID g = uuid_nil then Some (Fault ''grant ID cannot be empty'')
      else UserGrant_ValidateForCreate now g)"

definition IsActive :: "time \<Rightarrow> UserGrant \<Rightarrow> bool" where
  "IsActive now g = (case ugValidUntil g of None \<Rightarrow> True | Some v \<Rightarrow> time_after v now)"

section \<open>The store\<close>

record grant_store =
  gsGrants :: "(string, UserGrant) gomap"
  gsByPrincipalAndAgent :: "(string, string) gomap"
  gsGrantIDsByAgent :: "(agent_id, string list) gomap"

definition NewUserGrantRepository :: grant_store where
  "NewUserGrantRepository = \<lparr>gsGrants = [], gsByPrincipalAndAgent = [], gsGrantIDsByAgent = []\<rparr>"

definition principalAgentKey :: "principal \<Rightarrow> agent_id \<Rightarrow> string" where
  "principalAgentKey p agentID = p @ '':'' @ agentID"

definition agent_grants :: "agent_id \<Rightarrow> grant_store \<Rightarrow> string list" where
  "agent_grants agentID s = (case map_of (gsGrantIDsByAgent s) agentID of None \<Rightarrow> [] | Some l \<Rightarrow> l)"

text \<open>The first result is what is written back to the caller's grant. \<open>newID\<close> is the identifier
  drawn when the grant has none. The index always leads to a stored grant (\<open>grant_invar\<close> below), so
  the creation time of the existing grant is there to read.\<close>

definition grant_Create :: "string \<Rightarrow> UserGrant \<Rightarrow> grant_store \<Rightarrow> UserGrant \<times> grant_store" where
  "grant_Create newID grant s =
     (let stored = (if ugID grant = uuid_nil then grant\<lparr>ugID := newID\<rparr> else grant);
          key = principalAgentKey (ugPrincipal stored) (ugAgentID stored)
      in case map_of (gsByPrincipalAndAgent s) key of
           Some existingID \<Rightarrow>
             let stored' = stored\<lparr>ugID := existingID,
                   ugCreatedAt := (case map_of (gsGrants s) existingID of Some g \<Rightarrow> ugCreatedAt g | None \<Rightarrow> 0)\<rparr>
             in (stored', s\<lparr>gsGrants := AList.update existingID stored' (gsGrants s)\<rparr>)
         | None \<Rightarrow>
             (stored, s\<lparr>gsGrants := AList.update (ugID stored) stored (gsGrants s),
                        gsByPrincipalAndAgent := AList.update key (ugID stored) (gsByPrincipalAndAgent s),
                        gsGrantIDsByAgent := AList.update (ugAgentID stored) (agent_grants (ugAgentID stored) s @ [ugID stored])
                                               (gsGrantIDsByAgent s)\<rparr>))"

definition grant_missing :: "string \<Rightarrow> StorageError" where
  "grant_missing op = StorageError op ErrorKindNotFound ''user grant not found''"

definition grant_Get :: "string \<Rightarrow> grant_store \<Rightarrow> StorageError + UserGrant" where
  "grant_Get grantID s =
     (case map_of (gsGrants s) grantID of None \<Rightarrow> Inl (grant_missing ''GetUserGrant'') | Some g \<Rightarrow> Inr g)"

definition grant_Update :: "UserGrant \<Rightarrow> grant_store \<Rightarrow> (StorageError + UserGrant) \<times> grant_store" where
  "grant_Update grant s =
     (case map_of (gsGrants s) (ugID grant) of
        None \<Rightarrow> (Inl (grant_missing ''UpdateUserGrant''), s)
      | Some existing \<Rightarrow>
          let stored = grant\<lparr>ugCreatedAt := ugCreatedAt existing\<rparr>
          in (Inr stored, s\<lparr>gsGrants := AList.update (ugID stored) stored (gsGrants s)\<rparr>))"

text \<open>Removal from an agent's list: the last element takes the place of the removed one.\<close>

fun swap_remove :: "string \<Rightarrow> string list \<Rightarrow> string list option" where
  "swap_remove x [] = None"
| "swap_remove x (y # ys) =
     (if y = x then Some (if ys = [] then [] else last ys # butlast ys)
      else map_option ((#) y) (swap_remove x ys))"

definition removeGrantFromAgentIndex :: "agent_id \<Rightarrow> string \<Rightarrow> grant_store \<Rightarrow> grant_store" where
  "removeGrantFromAgentIndex agentID grantID s =
     (case map_of (gsGrantIDsByAgent s) agentID of
        None \<Rightarrow> s
      | Some grantIDs \<Rightarrow>
          let left = (case swap_remove grantID grantIDs of None \<Rightarrow> grantIDs | Some l \<Rightarrow> l)
          in if left = [] then s\<lparr>gsGrantIDsByAgent := AList.delete agentID (gsGrantIDsByAgent s)\<rparr>
             else s\<lparr>gsGrantIDsByAgent := AList.update agentID left (gsGrantIDsByAgent s)\<rparr>)"

definition grant_Delete :: "string \<Rightarrow> grant_store \<Rightarrow> grant_store" where
  "grant_Delete grantID s =
     (case map_of (gsGrants s) grantID of
        None \<Rightarrow> s
      | Some grant \<Rightarrow>
          let s1 = s\<lparr>gsByPrincipalAndAgent := AList.delete (principalAgentKey (ugPrincipal grant) (ugAgentID grant)) (gsByPrincipalAndAgent s)\<rparr>;
              s2 = removeGrantFromAgentIndex (ugAgentID grant) grantID s1
          in s2\<lparr>gsGrants := AList.delete grantID (gsGrants s2)\<rparr>)"

definition grant_ListByPrincipalAndAgent :: "principal \<Rightarrow> agent_id \<Rightarrow> grant_store \<Rightarrow> UserGrant list" where
  "grant_ListByPrincipalAndAgent p agentID s =
     (case map_of (gsByPrincipalAndAgent s) (principalAgentKey p agentID) of
        None \<Rightarrow> []
      | Some grantID \<Rightarrow> (case map_of (gsGrants s) grantID of None \<Rightarrow> [] | Some g \<Rightarrow> [g]))"

definition grant_FindByPrincipalAndAgent :: "principal \<Rightarrow> agent_id \<Rightarrow> grant_store \<Rightarrow> StorageError + UserGrant" where
  "grant_FindByPrincipalAndAgent p agentID s =
     (case map_of (gsByPrincipalAndAgent s) (principalAgentKey p agentID) of
        None \<Rightarrow> Inl (grant_missing ''FindUserGrant'')
      | Some grantID \<Rightarrow>
          (case map_of (gsGrants s) grantID of None \<Rightarrow> Inl (grant_missing ''FindUserGrant'') | Some g \<Rightarrow> Inr g))"

definition grant_DeleteByAgent :: "agent_id \<Rightarrow> grant_store \<Rightarrow> grant_store" where
  "grant_DeleteByAgent agentID s =
     (if agent_grants agentID s = [] then s
      else
        let s' = fold (\<lambda>grantID s.
                   (case map_of (gsGrants s) grantID of
                      None \<Rightarrow> s
                    | Some grant \<Rightarrow>
                        s\<lparr>gsByPrincipalAndAgent := AList.delete (principalAgentKey (ugPrincipal grant) (ugAgentID grant)) (gsByPrincipalAndAgent s),
                          gsGrants := AList.delete grantID (gsGrants s)\<rparr>)) (agent_grants agentID s) s
        in s'\<lparr>gsGrantIDsByAgent := AList.delete agentID (gsGrantIDsByAgent s')\<rparr>)"

definition grant_DeleteByPrincipalAndAgentID ::
  "principal \<Rightarrow> agent_id \<Rightarrow> grant_store \<Rightarrow> (StorageError + UserGrant) \<times> grant_store" where
  "grant_DeleteByPrincipalAndAgentID p agentID s =
     (let key = principalAgentKey p agentID;
          missing = StorageError ''DeleteByPrincipalAndAgentID'' ErrorKindNotFound ''no active grant exists for this principal and agent''
      in case map_of (gsByPrincipalAndAgent s) key of
           None \<Rightarrow> (Inl missing, s)
         | Some grantID \<Rightarrow>
             (case map_of (gsGrants s) grantID of
                None \<Rightarrow> (Inl missing, s)
              | Some grant \<Rightarrow>
                  let s1 = s\<lparr>gsByPrincipalAndAgent := AList.delete key (gsByPrincipalAndAgent s)\<rparr>;
                      s2 = removeGrantFromAgentIndex agentID grantID s1
                  in (Inr grant, s2\<lparr>gsGrants := AList.delete grantID (gsGrants s2)\<rparr>)))"

definition grant_ListByPrincipal :: "time \<Rightarrow> principal \<Rightarrow> grant_store \<Rightarrow> UserGrant list" where
  "grant_ListByPrincipal now p s = filter (\<lambda>g. ugPrincipal g = p \<and> IsActive now g) (map snd (gsGrants s))"

definition grantReferencesService :: "UserGrant \<Rightarrow> service_id \<Rightarrow> bool" where
  "grantReferencesService grant serviceID =
     list_ex (\<lambda>(_, services). list_ex (\<lambda>svc. svc = serviceID) services) (ugGrantedPermissionSets grant)"

definition grant_ListByPrincipalAndServiceID :: "principal \<Rightarrow> service_id \<Rightarrow> grant_store \<Rightarrow> agent_id list" where
  "grant_ListByPrincipalAndServiceID p serviceID s =
     remdups (map ugAgentID (filter (\<lambda>g. ugPrincipal g = p \<and> grantReferencesService g serviceID) (map snd (gsGrants s))))"

definition grant_CountAgentsByPrincipalAndServiceID :: "principal \<Rightarrow> service_id \<Rightarrow> grant_store \<Rightarrow> nat" where
  "grant_CountAgentsByPrincipalAndServiceID p serviceID s = length (grant_ListByPrincipalAndServiceID p serviceID s)"

definition grant_CountGrantsReferencingPermissionSet :: "time \<Rightarrow> permission_set_id \<Rightarrow> grant_store \<Rightarrow> nat" where
  "grant_CountGrantsReferencingPermissionSet now psid s =
     length (filter (\<lambda>g. IsActive now g \<and> list_ex (\<lambda>(i, _). i = psid) (ugGrantedPermissionSets g)) (map snd (gsGrants s)))"

section \<open>The contract\<close>

text \<open>What the consent service uses of \<^verbatim>\<open>ports.UserGrantRepository\<close>. A failing call leaves the
  state alone; the kind of the error tells a missing grant from a failure of the storage.\<close>

record 'st grant_port =
  gpCreate :: "string \<Rightarrow> UserGrant \<Rightarrow> 'st \<Rightarrow> (StorageError + UserGrant) \<times> 'st"
  gpUpdate :: "UserGrant \<Rightarrow> 'st \<Rightarrow> (StorageError + UserGrant) \<times> 'st"
  gpListByPrincipalAndAgent :: "principal \<Rightarrow> agent_id \<Rightarrow> 'st \<Rightarrow> StorageError + UserGrant list"
  gpFindByPrincipalAndAgent :: "principal \<Rightarrow> agent_id \<Rightarrow> 'st \<Rightarrow> StorageError + UserGrant"
  gpDeleteByPrincipalAndAgentID :: "principal \<Rightarrow> agent_id \<Rightarrow> 'st \<Rightarrow> (StorageError + UserGrant) \<times> 'st"
  gpListByPrincipal :: "time \<Rightarrow> principal \<Rightarrow> 'st \<Rightarrow> StorageError + UserGrant list"

definition memory_grant_port :: "grant_store grant_port" where
  "memory_grant_port = \<lparr>
     gpCreate = (\<lambda>newID g s. case grant_Create newID g s of (g', s') \<Rightarrow> (Inr g', s')),
     gpUpdate = grant_Update,
     gpListByPrincipalAndAgent = (\<lambda>p a s. Inr (grant_ListByPrincipalAndAgent p a s)),
     gpFindByPrincipalAndAgent = grant_FindByPrincipalAndAgent,
     gpDeleteByPrincipalAndAgentID = grant_DeleteByPrincipalAndAgentID,
     gpListByPrincipal = (\<lambda>now p s. Inr (grant_ListByPrincipal now p s))\<rparr>"

text \<open>The text of a UUID has 36 characters.\<close>

definition uuid_text :: "string \<Rightarrow> bool" where
  "uuid_text s \<longleftrightarrow> length s = 36"

type_synonym grant_map = "principal \<times> agent_id \<rightharpoonup> UserGrant"

definition fresh_grant_id :: "grant_map \<Rightarrow> string \<Rightarrow> bool" where
  "fresh_grant_id m i \<longleftrightarrow> (\<forall>k g. m k = Some g \<longrightarrow> ugID g \<noteq> i)"

abbreviation grant_pair :: "UserGrant \<Rightarrow> principal \<times> agent_id" where
  "grant_pair g \<equiv> (ugPrincipal g, ugAgentID g)"

locale grant_repository =
  fixes R :: "'st grant_port"
    and absg :: "'st \<Rightarrow> grant_map"
    and invar :: "'st \<Rightarrow> bool"
  assumes pair_of: "invar s \<Longrightarrow> absg s k = Some g \<Longrightarrow> grant_pair g = k"
    and one_id: "invar s \<Longrightarrow> absg s k = Some g \<Longrightarrow> absg s k' = Some g' \<Longrightarrow> ugID g = ugID g' \<Longrightarrow> k = k'"
    and find_Inr: "invar s \<Longrightarrow> uuid_text a \<Longrightarrow> gpFindByPrincipalAndAgent R p a s = Inr g \<Longrightarrow> absg s (p, a) = Some g"
    and find_missing: "invar s \<Longrightarrow> uuid_text a \<Longrightarrow> gpFindByPrincipalAndAgent R p a s = Inl e \<Longrightarrow>
      seKind e = ErrorKindNotFound \<Longrightarrow> absg s (p, a) = None"
    and list_Inr: "invar s \<Longrightarrow> uuid_text a \<Longrightarrow> gpListByPrincipalAndAgent R p a s = Inr gs \<Longrightarrow>
      gs = (case absg s (p, a) of None \<Rightarrow> [] | Some g \<Rightarrow> [g])"
    and create_Inr: "invar s \<Longrightarrow> uuid_text (ugAgentID g) \<Longrightarrow> ugID g \<noteq> uuid_nil \<Longrightarrow> fresh_grant_id (absg s) (ugID g) \<Longrightarrow>
      gpCreate R newID g s = (Inr g', s') \<Longrightarrow>
      invar s' \<and> absg s' = (absg s)(grant_pair g \<mapsto> g') \<and>
      g' = (case absg s (grant_pair g) of None \<Rightarrow> g | Some old \<Rightarrow> g\<lparr>ugID := ugID old, ugCreatedAt := ugCreatedAt old\<rparr>)"
    and create_Inl: "gpCreate R newID g s = (Inl e, s') \<Longrightarrow> s' = s"
    and update_Inr: "invar s \<Longrightarrow> (\<And>k old. absg s k = Some old \<Longrightarrow> ugID old = ugID g \<Longrightarrow> k = grant_pair g) \<Longrightarrow>
      gpUpdate R g s = (Inr g', s') \<Longrightarrow>
      invar s' \<and> absg s' = (absg s)(grant_pair g \<mapsto> g') \<and>
      (\<exists>old. absg s (grant_pair g) = Some old \<and> ugID old = ugID g \<and> g' = g\<lparr>ugCreatedAt := ugCreatedAt old\<rparr>)"
    and update_Inl: "gpUpdate R g s = (Inl e, s') \<Longrightarrow> s' = s"
    and delete_Inr: "invar s \<Longrightarrow> uuid_text a \<Longrightarrow> gpDeleteByPrincipalAndAgentID R p a s = (Inr g, s') \<Longrightarrow>
      invar s' \<and> absg s (p, a) = Some g \<and> absg s' = (absg s)((p, a) := None)"
    and delete_Inl: "gpDeleteByPrincipalAndAgentID R p a s = (Inl e, s') \<Longrightarrow> s' = s"
    and delete_missing: "invar s \<Longrightarrow> uuid_text a \<Longrightarrow> gpDeleteByPrincipalAndAgentID R p a s = (Inl e, s') \<Longrightarrow>
      seKind e = ErrorKindNotFound \<Longrightarrow> absg s (p, a) = None"
    and list_all_Inr: "invar s \<Longrightarrow> gpListByPrincipal R now p s = Inr gs \<Longrightarrow>
      distinct gs \<and> set gs = {g. \<exists>a. absg s (p, a) = Some g \<and> IsActive now g}"

section \<open>The in-memory store keeps the contract\<close>

definition grant_invar :: "grant_store \<Rightarrow> bool" where
  "grant_invar s \<longleftrightarrow>
     wf_gomap (gsGrants s) \<and> wf_gomap (gsByPrincipalAndAgent s) \<and> wf_gomap (gsGrantIDsByAgent s) \<and>
     (\<forall>i g. map_of (gsGrants s) i = Some g \<longrightarrow> ugID g = i \<and> uuid_text (ugAgentID g) \<and>
        map_of (gsByPrincipalAndAgent s) (principalAgentKey (ugPrincipal g) (ugAgentID g)) = Some i) \<and>
     (\<forall>k i. map_of (gsByPrincipalAndAgent s) k = Some i \<longrightarrow>
        (\<exists>g. map_of (gsGrants s) i = Some g \<and> principalAgentKey (ugPrincipal g) (ugAgentID g) = k)) \<and>
     (\<forall>a. distinct (agent_grants a s) \<and>
        set (agent_grants a s) = {i. \<exists>g. map_of (gsGrants s) i = Some g \<and> ugAgentID g = a})"

definition grant_abs :: "grant_store \<Rightarrow> grant_map" where
  "grant_abs s = (\<lambda>(p, a). if uuid_text a
     then Option.bind (map_of (gsByPrincipalAndAgent s) (principalAgentKey p a)) (map_of (gsGrants s)) else None)"

lemma principalAgentKey_inject:
  "uuid_text a \<Longrightarrow> uuid_text b \<Longrightarrow> principalAgentKey p a = principalAgentKey q b \<longleftrightarrow> p = q \<and> a = b"
  by (auto simp: principalAgentKey_def uuid_text_def)

lemma grant_invarD:
  assumes "grant_invar s"
  shows "wf_gomap (gsGrants s)" "wf_gomap (gsByPrincipalAndAgent s)" "wf_gomap (gsGrantIDsByAgent s)"
    and "map_of (gsGrants s) i = Some g \<Longrightarrow> ugID g = i \<and> uuid_text (ugAgentID g) \<and>
        map_of (gsByPrincipalAndAgent s) (principalAgentKey (ugPrincipal g) (ugAgentID g)) = Some i"
    and "map_of (gsByPrincipalAndAgent s) k = Some i \<Longrightarrow>
        \<exists>g. map_of (gsGrants s) i = Some g \<and> principalAgentKey (ugPrincipal g) (ugAgentID g) = k"
    and "distinct (agent_grants a s)"
    and "set (agent_grants a s) = {i. \<exists>g. map_of (gsGrants s) i = Some g \<and> ugAgentID g = a}"
  using assms unfolding grant_invar_def by (blast, blast, blast, blast, blast, blast, blast)

lemma grant_abs_iff:
  assumes "grant_invar s"
  shows "grant_abs s (p, a) = Some g \<longleftrightarrow> map_of (gsGrants s) (ugID g) = Some g \<and> ugPrincipal g = p \<and> ugAgentID g = a"
proof
  assume l: "grant_abs s (p, a) = Some g"
  then obtain i where a: "uuid_text a" and i: "map_of (gsByPrincipalAndAgent s) (principalAgentKey p a) = Some i"
    and g: "map_of (gsGrants s) i = Some g"
    by (auto simp: grant_abs_def bind_eq_Some_conv split: if_splits)
  from grant_invarD(5) [OF assms i] g have "principalAgentKey (ugPrincipal g) (ugAgentID g) = principalAgentKey p a" by auto
  with grant_invarD(4) [OF assms g] g a show "map_of (gsGrants s) (ugID g) = Some g \<and> ugPrincipal g = p \<and> ugAgentID g = a"
    by (simp add: principalAgentKey_inject)
next
  assume "map_of (gsGrants s) (ugID g) = Some g \<and> ugPrincipal g = p \<and> ugAgentID g = a"
  with grant_invarD(4) [OF assms, of "ugID g" g] show "grant_abs s (p, a) = Some g"
    by (auto simp: grant_abs_def)
qed

lemma grant_abs_None:
  assumes "grant_invar s" and "uuid_text a"
  shows "grant_abs s (p, a) = None \<longleftrightarrow> map_of (gsByPrincipalAndAgent s) (principalAgentKey p a) = None"
  using grant_invarD(5) [OF assms(1), of "principalAgentKey p a"] assms(2)
  by (cases "map_of (gsByPrincipalAndAgent s) (principalAgentKey p a)") (auto simp: grant_abs_def)

lemma grant_abs_eqI:
  assumes "grant_invar s'" and "\<And>k g. m k = Some g \<longleftrightarrow> map_of (gsGrants s') (ugID g) = Some g \<and> grant_pair g = k"
  shows "grant_abs s' = m"
proof
  fix k :: "principal \<times> agent_id"
  obtain p a where k: "k = (p, a)" by force
  have "grant_abs s' k = Some g \<longleftrightarrow> m k = Some g" for g
    using grant_abs_iff [OF assms(1)] assms(2) by (auto simp: k)
  then show "grant_abs s' k = m k" by (metis option.exhaust)
qed

lemma grant_invarI:
  assumes "wf_gomap (gsGrants s)" "wf_gomap (gsByPrincipalAndAgent s)" "wf_gomap (gsGrantIDsByAgent s)"
    and "\<And>i g. map_of (gsGrants s) i = Some g \<Longrightarrow> ugID g = i \<and> uuid_text (ugAgentID g) \<and>
        map_of (gsByPrincipalAndAgent s) (principalAgentKey (ugPrincipal g) (ugAgentID g)) = Some i"
    and "\<And>k i. map_of (gsByPrincipalAndAgent s) k = Some i \<Longrightarrow>
        \<exists>g. map_of (gsGrants s) i = Some g \<and> principalAgentKey (ugPrincipal g) (ugAgentID g) = k"
    and "\<And>a. distinct (agent_grants a s)"
    and "\<And>a i. i \<in> set (agent_grants a s) \<longleftrightarrow> (\<exists>g. map_of (gsGrants s) i = Some g \<and> ugAgentID g = a)"
  shows "grant_invar s"
  unfolding grant_invar_def using assms by (simp add: set_eq_iff)

lemma fresh_grant_unused:
  assumes inv: "grant_invar s" and "fresh_grant_id (grant_abs s) i"
  shows "map_of (gsGrants s) i = None"
proof (cases "map_of (gsGrants s) i")
  case (Some g)
  with grant_invarD(4) [OF inv] have "ugID g = i" "grant_abs s (grant_pair g) = Some g"
    by (auto simp: grant_abs_iff [OF inv])
  with assms(2) show ?thesis by (auto simp: fresh_grant_id_def)
qed

text \<open>Writing a grant whose identifier is new or belongs to the same pair changes that pair only.\<close>

lemma grant_abs_put:
  assumes inv: "grant_invar s" and inv': "grant_invar s'" and put: "gsGrants s' = AList.update (ugID g) g (gsGrants s)"
    and same: "\<And>h. map_of (gsGrants s) (ugID h) = Some h \<Longrightarrow> grant_pair h = grant_pair g \<longleftrightarrow> ugID h = ugID g"
  shows "grant_abs s' = (grant_abs s)(grant_pair g \<mapsto> g)"
proof (rule grant_abs_eqI [OF inv'])
  fix k :: "principal \<times> agent_id" and h
  obtain p a where k: "k = (p, a)" by force
  show "((grant_abs s)(grant_pair g \<mapsto> g)) k = Some h \<longleftrightarrow> map_of (gsGrants s') (ugID h) = Some h \<and> grant_pair h = k"
  proof (cases "k = grant_pair g")
    case True
    with same [of h] show ?thesis by (auto simp: put go_map_simps)
  next
    case False
    with same [of h] grant_abs_iff [OF inv, of p a h] show ?thesis by (auto simp: put go_map_simps k)
  qed
qed

lemma insert_grant:
  assumes inv: "grant_invar s" and uuid: "uuid_text (ugAgentID g)"
    and new: "map_of (gsGrants s) (ugID g) = None"
    and key: "map_of (gsByPrincipalAndAgent s) (principalAgentKey (ugPrincipal g) (ugAgentID g)) = None"
    and s': "s' = s\<lparr>gsGrants := AList.update (ugID g) g (gsGrants s),
      gsByPrincipalAndAgent := AList.update (principalAgentKey (ugPrincipal g) (ugAgentID g)) (ugID g) (gsByPrincipalAndAgent s),
      gsGrantIDsByAgent := AList.update (ugAgentID g) (agent_grants (ugAgentID g) s @ [ugID g]) (gsGrantIDsByAgent s)\<rparr>"
  shows "grant_invar s' \<and> grant_abs s' = (grant_abs s)(grant_pair g \<mapsto> g)"
proof
  note D = grant_invarD [OF inv]
  have idx: "agent_grants a s' = (if a = ugAgentID g then agent_grants a s @ [ugID g] else agent_grants a s)" for a
    by (simp add: s' agent_grants_def go_map_simps)
  show inv': "grant_invar s'"
  proof (rule grant_invarI)
    show "wf_gomap (gsGrants s')" "wf_gomap (gsByPrincipalAndAgent s')" "wf_gomap (gsGrantIDsByAgent s')"
      using D(1-3) by (simp_all add: s')
  next
    fix i h assume "map_of (gsGrants s') i = Some h"
    with D(4) [of i h] uuid key show "ugID h = i \<and> uuid_text (ugAgentID h) \<and>
        map_of (gsByPrincipalAndAgent s') (principalAgentKey (ugPrincipal h) (ugAgentID h)) = Some i"
      by (auto simp: s' go_map_simps split: if_splits)
  next
    fix k i assume "map_of (gsByPrincipalAndAgent s') k = Some i"
    with D(5) [of k i] new show "\<exists>h. map_of (gsGrants s') i = Some h \<and> principalAgentKey (ugPrincipal h) (ugAgentID h) = k"
      by (auto simp: s' go_map_simps split: if_splits)
  next
    fix a show "distinct (agent_grants a s')"
      unfolding idx using D(6) [of a] D(7) [of a] new by auto
  next
    fix a i show "i \<in> set (agent_grants a s') \<longleftrightarrow> (\<exists>h. map_of (gsGrants s') i = Some h \<and> ugAgentID h = a)"
      unfolding idx using D(7) [of a] new by (auto simp: s' go_map_simps)
  qed
  have "grant_pair h = grant_pair g \<longleftrightarrow> ugID h = ugID g" if "map_of (gsGrants s) (ugID h) = Some h" for h
    using D(4) [OF that] that new key by auto
  then show "grant_abs s' = (grant_abs s)(grant_pair g \<mapsto> g)"
    by (intro grant_abs_put [OF inv inv']) (simp_all add: s')
qed

text \<open>A new version of a stored grant of the same pair.\<close>

lemma replace_grant:
  assumes inv: "grant_invar s" and old: "map_of (gsGrants s) (ugID g) = Some old" and pair: "grant_pair old = grant_pair g"
    and s': "s' = s\<lparr>gsGrants := AList.update (ugID g) g (gsGrants s)\<rparr>"
  shows "grant_invar s' \<and> grant_abs s' = (grant_abs s)(grant_pair g \<mapsto> g)"
proof
  note D = grant_invarD [OF inv]
  have idx: "agent_grants a s' = agent_grants a s" for a by (simp add: s' agent_grants_def)
  note G = D(4) [OF old]
  show inv': "grant_invar s'"
  proof (rule grant_invarI)
    show "wf_gomap (gsGrants s')" "wf_gomap (gsByPrincipalAndAgent s')" "wf_gomap (gsGrantIDsByAgent s')"
      using D(1-3) by (simp_all add: s')
  next
    fix i h assume "map_of (gsGrants s') i = Some h"
    with D(4) [of i h] G pair show "ugID h = i \<and> uuid_text (ugAgentID h) \<and>
        map_of (gsByPrincipalAndAgent s') (principalAgentKey (ugPrincipal h) (ugAgentID h)) = Some i"
      by (auto simp: s' go_map_simps split: if_splits)
  next
    fix k i assume "map_of (gsByPrincipalAndAgent s') k = Some i"
    with D(5) [of k i] old pair show "\<exists>h. map_of (gsGrants s') i = Some h \<and> principalAgentKey (ugPrincipal h) (ugAgentID h) = k"
      by (auto simp: s' go_map_simps)
  next
    fix a show "distinct (agent_grants a s')" by (simp add: idx D(6))
  next
    fix a i show "i \<in> set (agent_grants a s') \<longleftrightarrow> (\<exists>h. map_of (gsGrants s') i = Some h \<and> ugAgentID h = a)"
      unfolding idx D(7) using old pair by (auto simp: s' go_map_simps)
  qed
  have "grant_pair h = grant_pair g \<longleftrightarrow> ugID h = ugID g" if "map_of (gsGrants s) (ugID h) = Some h" for h
  proof
    assume "grant_pair h = grant_pair g"
    with D(4) [OF that] G pair show "ugID h = ugID g" by simp
  next
    assume "ugID h = ugID g"
    with that old have "h = old" by simp
    with pair show "grant_pair h = grant_pair g" by simp
  qed
  then show "grant_abs s' = (grant_abs s)(grant_pair g \<mapsto> g)"
    by (intro grant_abs_put [OF inv inv']) (simp_all add: s')
qed

lemma swap_remove_None: "swap_remove x xs = None \<longleftrightarrow> x \<notin> set xs"
  by (induction xs) auto

lemma swap_remove_Some:
  "swap_remove x xs = Some ys \<Longrightarrow> distinct xs \<Longrightarrow> distinct ys \<and> set ys = set xs - {x}"
proof (induction xs arbitrary: ys)
  case (Cons z zs)
  show ?case
  proof (cases "z = x")
    case True
    show ?thesis
    proof (cases zs rule: rev_cases)
      case (snoc ws w)
      with Cons.prems True show ?thesis by auto
    qed (use Cons.prems True in simp)
  next
    case False
    with Cons.prems obtain us where us: "swap_remove x zs = Some us" and ys: "ys = z # us" by auto
    from Cons.IH [OF us] Cons.prems False show ?thesis by (auto simp: ys)
  qed
qed simp

lemma removeGrantFromAgentIndex_spec:
  assumes "\<And>b. distinct (agent_grants b s)" and "wf_gomap (gsGrantIDsByAgent s)"
    and s': "s' = removeGrantFromAgentIndex a i s"
  shows "gsGrants s' = gsGrants s \<and> gsByPrincipalAndAgent s' = gsByPrincipalAndAgent s \<and> wf_gomap (gsGrantIDsByAgent s') \<and>
    distinct (agent_grants b s') \<and> set (agent_grants b s') = (if b = a then set (agent_grants b s) - {i} else set (agent_grants b s))"
proof (cases "map_of (gsGrantIDsByAgent s) a")
  case None
  then have "s' = s" "agent_grants a s = []" by (simp_all add: s' removeGrantFromAgentIndex_def agent_grants_def)
  with assms(1,2) show ?thesis by simp
next
  case (Some l)
  then have l: "agent_grants a s = l" by (simp add: agent_grants_def)
  define left where "left = (case swap_remove i l of None \<Rightarrow> l | Some l' \<Rightarrow> l')"
  have "distinct left \<and> set left = set l - {i}"
    using assms(1) [of a] swap_remove_Some [of i l] swap_remove_None [of i l]
    by (auto simp: left_def l split: option.splits)
  moreover have "s' = (if left = [] then s\<lparr>gsGrantIDsByAgent := AList.delete a (gsGrantIDsByAgent s)\<rparr>
      else s\<lparr>gsGrantIDsByAgent := AList.update a left (gsGrantIDsByAgent s)\<rparr>)"
    using Some by (simp add: s' removeGrantFromAgentIndex_def left_def Let_def)
  moreover from this have "agent_grants b s' = (if b = a then left else agent_grants b s)"
    by (simp add: agent_grants_def go_map_simps)
  ultimately show ?thesis using assms(1,2) l by simp
qed

lemma remove_grant:
  assumes inv: "grant_invar s" and g: "map_of (gsGrants s) i = Some g"
    and s1: "s1 = s\<lparr>gsByPrincipalAndAgent := AList.delete (principalAgentKey (ugPrincipal g) (ugAgentID g)) (gsByPrincipalAndAgent s)\<rparr>"
    and s2: "s2 = removeGrantFromAgentIndex (ugAgentID g) i s1"
    and s': "s' = s2\<lparr>gsGrants := AList.delete i (gsGrants s2)\<rparr>"
  shows "grant_invar s' \<and> grant_abs s' = (grant_abs s)(grant_pair g := None)"
proof
  note D = grant_invarD [OF inv]
  note G = D(4) [OF g]
  have idx1: "agent_grants b s1 = agent_grants b s" "gsGrantIDsByAgent s1 = gsGrantIDsByAgent s" for b
    by (simp_all add: s1 agent_grants_def)
  note R = removeGrantFromAgentIndex_spec [of s1, unfolded idx1, OF D(6) D(3) s2]
  have idx: "agent_grants b s' = agent_grants b s2" for b by (simp add: s' agent_grants_def)
  have maps: "map_of (gsGrants s') = (map_of (gsGrants s))(i := None)"
    "map_of (gsByPrincipalAndAgent s') = (map_of (gsByPrincipalAndAgent s))(principalAgentKey (ugPrincipal g) (ugAgentID g) := None)"
    using R by (simp_all add: s' s1 go_map_simps)
  have other: "map_of (gsGrants s) j = Some h \<Longrightarrow> j \<noteq> i \<Longrightarrow>
      principalAgentKey (ugPrincipal h) (ugAgentID h) \<noteq> principalAgentKey (ugPrincipal g) (ugAgentID g)" for j h
    using D(4) [of j h] G by auto
  show inv': "grant_invar s'"
  proof (rule grant_invarI)
    show "wf_gomap (gsGrants s')" "wf_gomap (gsByPrincipalAndAgent s')" "wf_gomap (gsGrantIDsByAgent s')"
      using D(1-3) R by (simp_all add: s' s1)
  next
    fix j h assume "map_of (gsGrants s') j = Some h"
    with D(4) [of j h] other [of j h] show "ugID h = j \<and> uuid_text (ugAgentID h) \<and>
        map_of (gsByPrincipalAndAgent s') (principalAgentKey (ugPrincipal h) (ugAgentID h)) = Some j"
      by (simp add: maps split: if_splits)
  next
    fix k j assume "map_of (gsByPrincipalAndAgent s') k = Some j"
    then have k: "map_of (gsByPrincipalAndAgent s) k = Some j" "k \<noteq> principalAgentKey (ugPrincipal g) (ugAgentID g)"
      by (simp_all add: maps split: if_splits)
    with D(5) [OF k(1)] g show "\<exists>h. map_of (gsGrants s') j = Some h \<and> principalAgentKey (ugPrincipal h) (ugAgentID h) = k"
      by (auto simp: maps)
  next
    fix a show "distinct (agent_grants a s')" using R by (simp add: idx)
  next
    fix a j show "j \<in> set (agent_grants a s') \<longleftrightarrow> (\<exists>h. map_of (gsGrants s') j = Some h \<and> ugAgentID h = a)"
      using R [of a] D(7) [of a] g by (auto simp: idx maps)
  qed
  show "grant_abs s' = (grant_abs s)(grant_pair g := None)"
  proof (rule grant_abs_eqI [OF inv'])
    fix k :: "principal \<times> agent_id" and h
    obtain p a where k: "k = (p, a)" by force
    have "map_of (gsGrants s) (ugID h) = Some h \<Longrightarrow> grant_pair h = grant_pair g \<longleftrightarrow> ugID h = i"
      using other [of "ugID h" h] g by (cases "ugID h = i") auto
    then show "((grant_abs s)(grant_pair g := None)) k = Some h \<longleftrightarrow> map_of (gsGrants s') (ugID h) = Some h \<and> grant_pair h = k"
      using grant_abs_iff [OF inv, of p a h] by (auto simp: maps k)
  qed
qed

lemma mem_Create:
  assumes inv: "grant_invar s" and uuid: "uuid_text (ugAgentID g)" and "ugID g \<noteq> uuid_nil"
    and fresh: "fresh_grant_id (grant_abs s) (ugID g)" and c: "grant_Create newID g s = (g', s')"
  shows "grant_invar s' \<and> grant_abs s' = (grant_abs s)(grant_pair g \<mapsto> g') \<and>
    g' = (case grant_abs s (grant_pair g) of None \<Rightarrow> g | Some old \<Rightarrow> g\<lparr>ugID := ugID old, ugCreatedAt := ugCreatedAt old\<rparr>)"
proof (cases "map_of (gsByPrincipalAndAgent s) (principalAgentKey (ugPrincipal g) (ugAgentID g))")
  case None
  with c assms(3) have "g' = g" and s': "s' = s\<lparr>gsGrants := AList.update (ugID g) g (gsGrants s),
      gsByPrincipalAndAgent := AList.update (principalAgentKey (ugPrincipal g) (ugAgentID g)) (ugID g) (gsByPrincipalAndAgent s),
      gsGrantIDsByAgent := AList.update (ugAgentID g) (agent_grants (ugAgentID g) s @ [ugID g]) (gsGrantIDsByAgent s)\<rparr>"
    by (auto simp: grant_Create_def Let_def)
  moreover from None have "grant_abs s (grant_pair g) = None" by (simp add: grant_abs_None [OF inv uuid])
  ultimately show ?thesis using insert_grant [OF inv uuid fresh_grant_unused [OF inv fresh] None s'] by simp
next
  case (Some i)
  from grant_invarD(5) [OF inv Some] obtain old where old: "map_of (gsGrants s) i = Some old"
    and key: "principalAgentKey (ugPrincipal old) (ugAgentID old) = principalAgentKey (ugPrincipal g) (ugAgentID g)" by blast
  note O = grant_invarD(4) [OF inv old]
  from key O uuid have pair: "grant_pair old = grant_pair g" by (simp add: principalAgentKey_inject)
  with O old have abs: "grant_abs s (grant_pair g) = Some old" by (simp add: grant_abs_iff [OF inv])
  from c Some assms(3) old O have g': "g' = g\<lparr>ugID := i, ugCreatedAt := ugCreatedAt old\<rparr>"
    and s': "s' = s\<lparr>gsGrants := AList.update (ugID g') g' (gsGrants s)\<rparr>"
    by (auto simp: grant_Create_def Let_def)
  from g' old pair have "map_of (gsGrants s) (ugID g') = Some old" "grant_pair old = grant_pair g'" by simp_all
  from replace_grant [OF inv this s'] abs O show ?thesis by (simp add: g')
qed

lemma mem_Update:
  assumes inv: "grant_invar s" and u: "grant_Update g s = (Inr g', s')"
    and own: "\<And>k old. grant_abs s k = Some old \<Longrightarrow> ugID old = ugID g \<Longrightarrow> k = grant_pair g"
  shows "grant_invar s' \<and> grant_abs s' = (grant_abs s)(grant_pair g \<mapsto> g') \<and>
    (\<exists>old. grant_abs s (grant_pair g) = Some old \<and> ugID old = ugID g \<and> g' = g\<lparr>ugCreatedAt := ugCreatedAt old\<rparr>)"
proof -
  from u obtain old where old: "map_of (gsGrants s) (ugID g) = Some old" and g': "g' = g\<lparr>ugCreatedAt := ugCreatedAt old\<rparr>"
    and s': "s' = s\<lparr>gsGrants := AList.update (ugID g') g' (gsGrants s)\<rparr>"
    by (auto simp: grant_Update_def Let_def split: option.splits)
  note O = grant_invarD(4) [OF inv old]
  with old have abs: "grant_abs s (grant_pair old) = Some old" by (simp add: grant_abs_iff [OF inv])
  from own [OF abs] O have pair: "grant_pair old = grant_pair g" by simp
  from old pair have "map_of (gsGrants s) (ugID g') = Some old" "grant_pair old = grant_pair g'" by (simp_all add: g')
  from replace_grant [OF inv this s'] abs O pair show ?thesis by (auto simp: g')
qed

lemma mem_DeletePair:
  assumes inv: "grant_invar s" and uuid: "uuid_text a" and d: "grant_DeleteByPrincipalAndAgentID p a s = (Inr g, s')"
  shows "grant_invar s' \<and> grant_abs s (p, a) = Some g \<and> grant_abs s' = (grant_abs s)((p, a) := None)"
proof -
  from d obtain i where i: "map_of (gsByPrincipalAndAgent s) (principalAgentKey p a) = Some i" and g: "map_of (gsGrants s) i = Some g"
    by (auto simp: grant_DeleteByPrincipalAndAgentID_def Let_def split: option.splits)
  from i g uuid have abs: "grant_abs s (p, a) = Some g" by (simp add: grant_abs_def)
  then have pair: "ugPrincipal g = p" "ugAgentID g = a" by (simp_all add: grant_abs_iff [OF inv])
  have "s' = (removeGrantFromAgentIndex a i (s\<lparr>gsByPrincipalAndAgent := AList.delete (principalAgentKey p a) (gsByPrincipalAndAgent s)\<rparr>))
      \<lparr>gsGrants := AList.delete i (gsGrants (removeGrantFromAgentIndex a i
        (s\<lparr>gsByPrincipalAndAgent := AList.delete (principalAgentKey p a) (gsByPrincipalAndAgent s)\<rparr>)))\<rparr>"
    using d i g by (simp add: grant_DeleteByPrincipalAndAgentID_def Let_def)
  from remove_grant [OF inv g refl refl, unfolded pair, OF this] abs show ?thesis by simp
qed

lemma mem_Find:
  "grant_FindByPrincipalAndAgent p a s = (case grant_abs s (p, a) of Some g \<Rightarrow> Inr g | None \<Rightarrow> Inl (grant_missing ''FindUserGrant''))"
  if "uuid_text a"
  using that by (auto simp: grant_FindByPrincipalAndAgent_def grant_abs_def split: option.splits)

lemma mem_List:
  "grant_ListByPrincipalAndAgent p a s = (case grant_abs s (p, a) of Some g \<Rightarrow> [g] | None \<Rightarrow> [])"
  if "uuid_text a"
  using that by (auto simp: grant_ListByPrincipalAndAgent_def grant_abs_def split: option.splits)

lemma mem_ListByPrincipal:
  assumes inv: "grant_invar s"
  shows "distinct (grant_ListByPrincipal now p s) \<and>
    set (grant_ListByPrincipal now p s) = {g. \<exists>a. grant_abs s (p, a) = Some g \<and> IsActive now g}"
proof
  note D = grant_invarD [OF inv]
  have id: "ugID g = i" if "(i, g) \<in> set (gsGrants s)" for i g
  proof -
    from that have "map_of (gsGrants s) i = Some g" unfolding map_of_mem_iff [OF D(1)] .
    from D(4) [OF this] show ?thesis by simp
  qed
  then have "map fst (gsGrants s) = map ugID (map snd (gsGrants s))" by (auto simp: comp_def)
  with D(1) have "distinct (map snd (gsGrants s))" by (metis distinct_map)
  then show "distinct (grant_ListByPrincipal now p s)" by (simp add: grant_ListByPrincipal_def)
  have "g \<in> snd ` set (gsGrants s) \<longleftrightarrow> map_of (gsGrants s) (ugID g) = Some g" for g
  proof
    assume "g \<in> snd ` set (gsGrants s)"
    then obtain i where "(i, g) \<in> set (gsGrants s)" by auto
    moreover from this have "ugID g = i" by (rule id)
    ultimately show "map_of (gsGrants s) (ugID g) = Some g" by (simp add: D(1))
  next
    assume "map_of (gsGrants s) (ugID g) = Some g"
    then show "g \<in> snd ` set (gsGrants s)" by (rule image_eqI [OF _ map_of_SomeD, rotated]) simp
  qed
  then show "set (grant_ListByPrincipal now p s) = {g. \<exists>a. grant_abs s (p, a) = Some g \<and> IsActive now g}"
    by (auto simp: grant_ListByPrincipal_def grant_abs_iff [OF inv])
qed

interpretation mem_grants: grant_repository memory_grant_port grant_abs grant_invar
proof
  fix s :: grant_store and k and g :: UserGrant
  assume "grant_invar s" "grant_abs s k = Some g"
  then show "grant_pair g = k" by (cases k) (simp add: grant_abs_iff)
next
  fix s :: grant_store and k k' and g g' :: UserGrant
  assume "grant_invar s" "grant_abs s k = Some g" "grant_abs s k' = Some g'" "ugID g = ugID g'"
  then show "k = k'" by (cases k; cases k') (simp add: grant_abs_iff)
next
  fix s a p g assume "uuid_text a" "gpFindByPrincipalAndAgent memory_grant_port p a s = Inr g"
  then show "grant_abs s (p, a) = Some g" by (simp add: memory_grant_port_def mem_Find split: option.splits)
next
  fix s a p e assume "uuid_text a" "gpFindByPrincipalAndAgent memory_grant_port p a s = Inl e"
  then show "grant_abs s (p, a) = None" by (simp add: memory_grant_port_def mem_Find split: option.splits)
next
  fix s a p gs assume "uuid_text a" "gpListByPrincipalAndAgent memory_grant_port p a s = Inr gs"
  then show "gs = (case grant_abs s (p, a) of None \<Rightarrow> [] | Some g \<Rightarrow> [g])"
    by (auto simp: memory_grant_port_def mem_List split: option.splits)
next
  fix s and g :: UserGrant and newID g' s'
  assume "grant_invar s" "uuid_text (ugAgentID g)" "ugID g \<noteq> uuid_nil" "fresh_grant_id (grant_abs s) (ugID g)"
    "gpCreate memory_grant_port newID g s = (Inr g', s')"
  then show "grant_invar s' \<and> grant_abs s' = (grant_abs s)(grant_pair g \<mapsto> g') \<and>
      g' = (case grant_abs s (grant_pair g) of None \<Rightarrow> g | Some old \<Rightarrow> g\<lparr>ugID := ugID old, ugCreatedAt := ugCreatedAt old\<rparr>)"
    by (intro mem_Create) (simp_all add: memory_grant_port_def split: prod.splits)
next
  fix s g newID e s' assume "gpCreate memory_grant_port newID g s = (Inl e, s')"
  then show "s' = s" by (simp add: memory_grant_port_def split: prod.splits)
next
  fix s and g :: UserGrant and g' s'
  assume "grant_invar s" "\<And>k old. grant_abs s k = Some old \<Longrightarrow> ugID old = ugID g \<Longrightarrow> k = grant_pair g"
    "gpUpdate memory_grant_port g s = (Inr g', s')"
  then show "grant_invar s' \<and> grant_abs s' = (grant_abs s)(grant_pair g \<mapsto> g') \<and>
      (\<exists>old. grant_abs s (grant_pair g) = Some old \<and> ugID old = ugID g \<and> g' = g\<lparr>ugCreatedAt := ugCreatedAt old\<rparr>)"
    by (intro mem_Update) (simp_all add: memory_grant_port_def)
next
  fix s g e s' assume "gpUpdate memory_grant_port g s = (Inl e, s')"
  then show "s' = s" by (simp add: memory_grant_port_def grant_Update_def Let_def split: option.splits)
next
  fix s a p g s' assume "grant_invar s" "uuid_text a" "gpDeleteByPrincipalAndAgentID memory_grant_port p a s = (Inr g, s')"
  then show "grant_invar s' \<and> grant_abs s (p, a) = Some g \<and> grant_abs s' = (grant_abs s)((p, a) := None)"
    by (intro mem_DeletePair) (simp_all add: memory_grant_port_def)
next
  fix s a p e s' assume "gpDeleteByPrincipalAndAgentID memory_grant_port p a s = (Inl e, s')"
  then show "s' = s"
    by (simp add: memory_grant_port_def grant_DeleteByPrincipalAndAgentID_def Let_def split: option.splits)
next
  fix s a p e s' assume "uuid_text a" "gpDeleteByPrincipalAndAgentID memory_grant_port p a s = (Inl e, s')"
  then show "grant_abs s (p, a) = None"
    by (auto simp: memory_grant_port_def grant_DeleteByPrincipalAndAgentID_def Let_def grant_abs_def split: option.splits)
next
  fix s now p gs assume "grant_invar s" "gpListByPrincipal memory_grant_port now p s = Inr gs"
  then show "distinct gs \<and> set gs = {g. \<exists>a. grant_abs s (p, a) = Some g \<and> IsActive now g}"
    using mem_ListByPrincipal by (auto simp: memory_grant_port_def)
qed

end
