(* ===== verification/Consent_Service.thy ===== *)
theory Consent_Service
  imports User_Grants
begin

text \<open>
  \<^verbatim>\<open>internal/domain/consent/service.go\<close>: what a user allows an agent, and the check the token
  endpoints make. The service writes the grants through the port \<open>R\<close> and revokes refresh token
  sessions; its world is both. What it only reads (agents, permission sets, providers, sessions
  with third parties) is the record \<open>consent_env\<close> of the interfaces' answers during one call.
  Clock readings are arguments. Audit log lines have no effect on the result and are left out.
\<close>

section \<open>Data\<close>

datatype consent_error =
    ErrAgentNotFound
  | ErrInvalidScopes service_id permission_set_id
  | ErrGrantNotFound
  | ErrUnconnectedServices "service_id list"
  | ErrMissingMandatoryPS "permission_set_id list"
  | ErrInvalidServiceInclusion permission_set_id
  | ErrGrantValidation record_error
  | ConsentReadFailed string

record provider_info =
  svID :: service_id
  svDisplayName :: string
  svScopes :: "(string \<times> string) list"

record consent_env =
  ceAgentGet :: "agent_id \<Rightarrow> StorageError + Agent option"
  ceAgentGetByIDs :: "agent_id list \<Rightarrow> StorageError + Agent list"
  ceValidateIDs :: "permission_set_id list \<Rightarrow> string option"
  ceGetByIDs :: "permission_set_id list \<Rightarrow> string + PermissionSet list"
  ceProviders :: "service_id list \<Rightarrow> string + provider_info list"
  ceListActiveServiceIDs :: "principal \<Rightarrow> string + service_id list"

record 'st consent_world =
  cwGrants :: 'st
  cwRefresh :: refresh_store

text \<open>\<^verbatim>\<open>RevokeByPrincipalAndAgent\<close> of the refresh session repository; the in-memory one never fails.\<close>

type_synonym revoker = "principal \<Rightarrow> agent_id \<Rightarrow> refresh_store \<Rightarrow> (StorageError + nat) \<times> refresh_store"

definition memory_revoker :: "time \<Rightarrow> revoker" where
  "memory_revoker now p agentID r = (case refresh_RevokeByPrincipalAndAgent now p agentID r of (n, r') \<Rightarrow> (Inr n, r'))"

record GrantRequest =
  grPrincipal :: principal
  grAgentID :: agent_id
  grValidUntil :: "time option"
  grGrantedPermissionSets :: "GrantedPermissionSetEntry list"

definition consent_agent :: "consent_env \<Rightarrow> agent_id \<Rightarrow> consent_error + Agent" where
  "consent_agent env agentID =
     (case ceAgentGet env agentID of
        Inl e \<Rightarrow> Inl (if seKind e = ErrorKindNotFound then ErrAgentNotFound else ConsentReadFailed ''failed to get agent'')
      | Inr None \<Rightarrow> Inl ErrAgentNotFound
      | Inr (Some agent) \<Rightarrow> Inr agent)"

section \<open>Validation of a submission\<close>

text \<open>Maps the code builds from a list: a later entry of the same key wins.\<close>

definition index_by :: "('a \<Rightarrow> 'k) \<Rightarrow> ('a \<Rightarrow> 'v) \<Rightarrow> 'a list \<Rightarrow> ('k, 'v) gomap" where
  "index_by k v xs = fold (\<lambda>x m. AList.update (k x) (v x) m) xs []"

fun inclusion_loop :: "(permission_set_id, service_id list) gomap \<Rightarrow> GrantedPermissionSetEntry list \<Rightarrow> consent_error option" where
  "inclusion_loop psServiceIDs [] = None"
| "inclusion_loop psServiceIDs ((psid, services) # entries) =
     (case map_of psServiceIDs psid of
        None \<Rightarrow> Some (ErrInvalidServiceInclusion psid)
      | Some validServices \<Rightarrow>
          (case find (\<lambda>svc. \<not> List.member validServices svc) services of
             Some svc \<Rightarrow> Some (ErrInvalidScopes svc psid)
           | None \<Rightarrow> inclusion_loop psServiceIDs entries))"

definition validateScopeInclusionWithResolved :: "GrantedPermissionSetEntry list \<Rightarrow> PermissionSet list \<Rightarrow> consent_error option" where
  "validateScopeInclusionWithResolved entries resolvedSets =
     (if entries = [] then None
      else inclusion_loop (index_by psID (\<lambda>ps. map scServiceID (psServiceScopes ps)) resolvedSets) entries)"

text \<open>The services of a permission set that an agent may use, and those of them it must.\<close>

definition usable_scope :: "Agent \<Rightarrow> ServiceScope \<Rightarrow> bool" where
  "usable_scope agent ss \<longleftrightarrow> agServiceRequirements agent = [] \<or>
     list_ex (\<lambda>sr. srServiceID sr = scServiceID ss) (agServiceRequirements agent)"

definition mandatory_scope :: "Agent \<Rightarrow> ServiceScope \<Rightarrow> bool" where
  "mandatory_scope agent ss \<longleftrightarrow> scRequirementType ss = RequirementTypeMandatory \<or>
     list_ex (\<lambda>sr. srServiceID sr = scServiceID ss \<and> srRequirementType sr = RequirementTypeMandatory) (agServiceRequirements agent)"

definition psValidServices :: "Agent \<Rightarrow> PermissionSet list \<Rightarrow> (permission_set_id, service_id list) gomap" where
  "psValidServices agent = index_by psID (\<lambda>ps. map scServiceID (filter (usable_scope agent) (psServiceScopes ps)))"

definition psMandatoryServices :: "Agent \<Rightarrow> PermissionSet list \<Rightarrow> permission_set_id \<Rightarrow> service_id list" where
  "psMandatoryServices agent resolvedSets psid =
     concat (map (\<lambda>ps. map scServiceID (filter (\<lambda>ss. usable_scope agent ss \<and> mandatory_scope agent ss) (psServiceScopes ps)))
       (filter (\<lambda>ps. psID ps = psid) resolvedSets))"

fun structure_loop ::
  "(permission_set_id, service_id list) gomap \<Rightarrow> (permission_set_id \<Rightarrow> service_id list) \<Rightarrow> GrantedPermissionSetEntry list \<Rightarrow>
   consent_error option" where
  "structure_loop valid mandatory [] = None"
| "structure_loop valid mandatory ((psid, services) # entries) =
     (case map_of valid psid of
        None \<Rightarrow> structure_loop valid mandatory entries
      | Some validServices \<Rightarrow>
          if list_ex (\<lambda>svc. \<not> List.member validServices svc) services then Some (ErrInvalidServiceInclusion psid)
          else if list_ex (\<lambda>svc. \<not> List.member services svc) (mandatory psid) then Some (ErrInvalidServiceInclusion psid)
          else structure_loop valid mandatory entries)"

definition validateGrantStructureWithResolved ::
  "Agent \<Rightarrow> GrantedPermissionSetEntry list \<Rightarrow> PermissionSet list \<Rightarrow> consent_error option" where
  "validateGrantStructureWithResolved agent entries resolvedSets =
     (let declaredPS = index_by apPermissionSetID apRequirementType (agPermissionSets agent);
          missingMandatory = filter (\<lambda>i. \<not> List.member (map fst entries) i)
            (map apPermissionSetID (filter (\<lambda>aps. apRequirementType aps = RequirementTypeMandatory) (agPermissionSets agent)))
      in if agPermissionSets agent = [] \<or> entries = [] then Some (ErrMissingMandatoryPS [])
         else case find (\<lambda>entry. map_of declaredPS (fst entry) = None) entries of
                Some entry \<Rightarrow> Some (ErrGrantValidation (Fault (''permission set '' @ fst entry @ '' is not declared by the agent'')))
              | None \<Rightarrow>
                  if missingMandatory \<noteq> [] then Some (ErrMissingMandatoryPS missingMandatory)
                  else case find (\<lambda>entry. map_of declaredPS (fst entry) = Some RequirementTypeMandatory \<and> snd entry = []) entries of
                         Some entry \<Rightarrow> Some (ErrInvalidServiceInclusion (fst entry))
                       | None \<Rightarrow> structure_loop (psValidServices agent resolvedSets) (psMandatoryServices agent resolvedSets) entries)"

definition ValidateSubmission :: "GrantedPermissionSetEntry list \<Rightarrow> service_id list \<Rightarrow> consent_error option" where
  "ValidateSubmission grantedPS activeSessionServiceIDs =
     (let unconnected = filter (\<lambda>svc. \<not> List.member activeSessionServiceIDs svc) (remdups (concat (map snd grantedPS)))
      in if grantedPS = [] \<or> unconnected = [] then None else Some (ErrUnconnectedServices unconnected))"

text \<open>The list in the error is in the order of a range over a Go map, here that of the request.
  The checks \<^verbatim>\<open>GrantConsent\<close> makes before it looks at the stored grant.\<close>

definition consent_checks :: "consent_env \<Rightarrow> GrantRequest \<Rightarrow> consent_error option" where
  "consent_checks env req =
     (let entries = grGrantedPermissionSets req; psIDs = map fst entries
      in case consent_agent env (grAgentID req) of
           Inl e \<Rightarrow> Some e
         | Inr agent \<Rightarrow>
             if psIDs \<noteq> [] \<and> ceValidateIDs env psIDs \<noteq> None then Some (ConsentReadFailed ''invalid permission set IDs'')
             else case (if psIDs = [] then Inr [] else ceGetByIDs env psIDs) of
                 Inl _ \<Rightarrow> Some (ConsentReadFailed ''failed to resolve permission sets'')
               | Inr resolvedPS \<Rightarrow>
                   (case validateScopeInclusionWithResolved entries resolvedPS of
                      Some e \<Rightarrow> Some e
                    | None \<Rightarrow>
                        (case validateGrantStructureWithResolved agent entries resolvedPS of
                           Some e \<Rightarrow> Some e
                         | None \<Rightarrow>
                             if entries = [] then None
                             else case ceListActiveServiceIDs env (grPrincipal req) of
                                 Inl _ \<Rightarrow> Some (ConsentReadFailed ''failed to list sessions for submission validation'')
                               | Inr activeIDs \<Rightarrow> ValidateSubmission entries activeIDs)))"

section \<open>Granting\<close>

definition grantMatchesRequest :: "UserGrant \<Rightarrow> GrantRequest \<Rightarrow> bool" where
  "grantMatchesRequest grant req \<longleftrightarrow>
     ugValidUntil grant = grValidUntil req \<and> ugGrantedPermissionSets grant = grGrantedPermissionSets req"

definition revokeRefreshSessions ::
  "revoker \<Rightarrow> principal \<Rightarrow> agent_id \<Rightarrow> 'st consent_world \<Rightarrow> consent_error option \<times> 'st consent_world" where
  "revokeRefreshSessions rv p agentID w =
     (case rv p agentID (cwRefresh w) of
        (Inl _, r) \<Rightarrow> (Some (ConsentReadFailed ''failed to revoke refresh sessions''), w\<lparr>cwRefresh := r\<rparr>)
      | (Inr _, r) \<Rightarrow> (None, w\<lparr>cwRefresh := r\<rparr>))"

definition grant_expired :: "time \<Rightarrow> UserGrant \<Rightarrow> bool" where
  "grant_expired now g = (case ugValidUntil g of None \<Rightarrow> False | Some v \<Rightarrow> \<not> time_after v now)"

text \<open>The branch for a stored grant that differs: \<open>tn\<close> is the service's clock, \<open>tu\<close> the time written
  and \<open>tv\<close> the one the validation reads.\<close>

definition renew_grant ::
  "'st grant_port \<Rightarrow> revoker \<Rightarrow> time \<Rightarrow> time \<Rightarrow> time \<Rightarrow> GrantRequest \<Rightarrow> UserGrant \<Rightarrow> 'st consent_world \<Rightarrow>
   (consent_error + UserGrant) \<times> 'st consent_world" where
  "renew_grant R rv tn tu tv req existing w =
     (let updated = existing\<lparr>ugValidUntil := grValidUntil req, ugGrantedPermissionSets := grGrantedPermissionSets req,
                             ugUpdatedAt := tu\<rparr>
      in case UserGrant_Validate tv updated of
           Some e \<Rightarrow> (Inl (ErrGrantValidation e), w)
         | None \<Rightarrow>
             (case (if grant_expired tn existing then revokeRefreshSessions rv (grPrincipal req) (grAgentID req) w else (None, w)) of
                (Some e, w') \<Rightarrow> (Inl e, w')
              | (None, w') \<Rightarrow>
                  (case gpUpdate R updated (cwGrants w') of
                     (Inl _, st) \<Rightarrow> (Inl (ConsentReadFailed ''failed to update grant''), w'\<lparr>cwGrants := st\<rparr>)
                   | (Inr g, st) \<Rightarrow> (Inr g, w'\<lparr>cwGrants := st\<rparr>))))"

definition create_grant ::
  "'st grant_port \<Rightarrow> string \<Rightarrow> time \<Rightarrow> time \<Rightarrow> time \<Rightarrow> GrantRequest \<Rightarrow> 'st consent_world \<Rightarrow>
   (consent_error + UserGrant) \<times> 'st consent_world" where
  "create_grant R newID tc tu tv req w =
     (let grant = \<lparr>ugID = newID, ugPrincipal = grPrincipal req, ugAgentID = grAgentID req, ugValidUntil = grValidUntil req,
                    ugGrantedPermissionSets = grGrantedPermissionSets req, ugCreatedAt = tc, ugUpdatedAt = tu\<rparr>
      in case UserGrant_ValidateForCreate tv grant of
           Some e \<Rightarrow> (Inl (ErrGrantValidation e), w)
         | None \<Rightarrow>
             (case gpCreate R newID grant (cwGrants w) of
                (Inl _, st) \<Rightarrow> (Inl (ConsentReadFailed ''failed to create grant''), w\<lparr>cwGrants := st\<rparr>)
              | (Inr g, st) \<Rightarrow> (Inr g, w\<lparr>cwGrants := st\<rparr>)))"

definition GrantConsent ::
  "'st grant_port \<Rightarrow> revoker \<Rightarrow> consent_env \<Rightarrow> string \<Rightarrow> time \<Rightarrow> time \<Rightarrow> time \<Rightarrow> time \<Rightarrow> GrantRequest \<Rightarrow> 'st consent_world \<Rightarrow>
   (consent_error + UserGrant) \<times> 'st consent_world" where
  "GrantConsent R rv env newID tn tc tu tv req w =
     (case consent_checks env req of
        Some e \<Rightarrow> (Inl e, w)
      | None \<Rightarrow>
          (case gpFindByPrincipalAndAgent R (grPrincipal req) (grAgentID req) (cwGrants w) of
             Inl e \<Rightarrow>
               if seKind e \<noteq> ErrorKindNotFound then (Inl (ConsentReadFailed ''failed to find existing grant''), w)
               else create_grant R newID tc tu tv req w
           | Inr existing \<Rightarrow>
               if grantMatchesRequest existing req then (Inr existing, w)
               else renew_grant R rv tn tu tv req existing w))"

section \<open>Revoking\<close>

definition RevokeConsentForPrincipal ::
  "'st grant_port \<Rightarrow> revoker \<Rightarrow> principal \<Rightarrow> agent_id \<Rightarrow> 'st consent_world \<Rightarrow> consent_error option \<times> 'st consent_world" where
  "RevokeConsentForPrincipal R rv p agentID w =
     (case gpDeleteByPrincipalAndAgentID R p agentID (cwGrants w) of
        (Inl e, st) \<Rightarrow>
          (Some (if seKind e = ErrorKindNotFound then ErrGrantNotFound else ConsentReadFailed ''failed to revoke consent''),
           w\<lparr>cwGrants := st\<rparr>)
      | (Inr grant, st) \<Rightarrow> revokeRefreshSessions rv p agentID (w\<lparr>cwGrants := st\<rparr>))"

definition RevokeConsent ::
  "'st grant_port \<Rightarrow> revoker \<Rightarrow> principal \<Rightarrow> agent_id \<Rightarrow> 'st consent_world \<Rightarrow> consent_error option \<times> 'st consent_world" where
  "RevokeConsent R rv p agentID w =
     (case RevokeConsentForPrincipal R rv p agentID w of
        (e, w') \<Rightarrow> if e = Some ErrGrantNotFound then revokeRefreshSessions rv p agentID w' else (e, w'))"

section \<open>Reading\<close>

text \<open>The copy of the grant that goes with \<^verbatim>\<open>ErrGrantExpired\<close> is for log lines and is left out.\<close>

definition VerifyAgentAccess :: "'st grant_port \<Rightarrow> time \<Rightarrow> 'st \<Rightarrow> principal \<Rightarrow> agent_id \<Rightarrow> access_error + UserGrant" where
  "VerifyAgentAccess R now st p agentID =
     (case gpFindByPrincipalAndAgent R p agentID st of
        Inl e \<Rightarrow> Inl (if seKind e = ErrorKindNotFound then ErrAgentAccessDenied else AccessFailure)
      | Inr grant \<Rightarrow> if grant_expired now grant then Inl ErrGrantExpired else Inr grant)"

definition GetActiveGrants :: "'st grant_port \<Rightarrow> time \<Rightarrow> 'st \<Rightarrow> principal \<Rightarrow> agent_id \<Rightarrow> consent_error + UserGrant list" where
  "GetActiveGrants R now st p agentID =
     (case gpListByPrincipalAndAgent R p agentID st of
        Inl _ \<Rightarrow> Inl (ConsentReadFailed ''failed to list grants'')
      | Inr grants \<Rightarrow> Inr (filter (IsActive now) grants))"

definition GetUserGrants :: "'st grant_port \<Rightarrow> consent_env \<Rightarrow> 'st \<Rightarrow> principal \<Rightarrow> agent_id \<Rightarrow> consent_error + UserGrant list" where
  "GetUserGrants R env st p agentID =
     (case consent_agent env agentID of
        Inl e \<Rightarrow> Inl e
      | Inr _ \<Rightarrow>
          (case gpListByPrincipalAndAgent R p agentID st of
             Inl _ \<Rightarrow> Inl (ConsentReadFailed ''failed to list grants'')
           | Inr grants \<Rightarrow> Inr grants))"

section \<open>The consent screen\<close>

record ServiceRequirementStatus =
  rsServiceID :: service_id
  rsDisplayName :: string
  rsRequirementType :: RequirementType
  rsRequiredScopes :: "(string \<times> string) list"
  rsIsConnected :: bool

record AgentConsentDetail =
  cdAgent :: Agent
  cdServiceRequirements :: "ServiceRequirementStatus list"
  cdResolvedPermissionSets :: "(PermissionSet \<times> RequirementType) list"
  cdActiveSessionServiceIDs :: "service_id list"

definition resolvePermissionSets :: "consent_env \<Rightarrow> Agent \<Rightarrow> consent_error + (PermissionSet \<times> RequirementType) list" where
  "resolvePermissionSets env agent =
     (if agPermissionSets agent = [] then Inl (ErrMissingMandatoryPS [])
      else case ceGetByIDs env (map apPermissionSetID (agPermissionSets agent)) of
          Inl _ \<Rightarrow> Inl (ConsentReadFailed ''failed to resolve permission sets for consent'')
        | Inr resolvedSets \<Rightarrow>
            let requiredByID = index_by apPermissionSetID apRequirementType (agPermissionSets agent)
            in Inr (List.map_filter (\<lambda>ps. map_option (Pair ps) (map_of requiredByID (psID ps))) resolvedSets))"

definition all_scopes_of :: "service_id \<Rightarrow> (PermissionSet \<times> RequirementType) list \<Rightarrow> string list" where
  "all_scopes_of svc entries =
     sort (remdups (concat (map scScopes (filter (\<lambda>ss. scServiceID ss = svc) (concat (map (psServiceScopes \<circ> fst) entries))))))"

definition requirement_status ::
  "(service_id, provider_info) gomap \<Rightarrow> (PermissionSet \<times> RequirementType) list \<Rightarrow> service_id list \<Rightarrow> ServiceRequirement \<Rightarrow>
   ServiceRequirementStatus option" where
  "requirement_status serviceMap entries connected req =
     map_option (\<lambda>svc.
         let scopeDesc = index_by fst snd (svScopes svc);
             names = (if srRequireAllScopes req then all_scopes_of (srServiceID req) entries else srRequiredScopes req)
         in \<lparr>rsServiceID = srServiceID req, rsDisplayName = svDisplayName svc, rsRequirementType = srRequirementType req,
             rsRequiredScopes = map (\<lambda>name. (name, case map_of scopeDesc name of None \<Rightarrow> [] | Some d \<Rightarrow> d)) names,
             rsIsConnected = List.member connected (srServiceID req)\<rparr>)
       (map_of serviceMap (srServiceID req))"

definition resolveServiceRequirements ::
  "consent_env \<Rightarrow> Agent \<Rightarrow> (PermissionSet \<times> RequirementType) list \<Rightarrow> service_id list \<Rightarrow> consent_error + ServiceRequirementStatus list" where
  "resolveServiceRequirements env agent entries activeSessionServiceIDs =
     (if agServiceRequirements agent = [] then Inr []
      else case ceProviders env (remdups (map srServiceID (agServiceRequirements agent))) of
          Inl _ \<Rightarrow> Inl (ConsentReadFailed ''loading services'')
        | Inr services \<Rightarrow>
            Inr (List.map_filter (requirement_status (index_by svID (\<lambda>s. s) services) entries activeSessionServiceIDs)
                   (agServiceRequirements agent)))"

definition GetAgentConsentDetail :: "consent_env \<Rightarrow> agent_id \<Rightarrow> principal \<Rightarrow> consent_error + AgentConsentDetail" where
  "GetAgentConsentDetail env agentID p =
     (case consent_agent env agentID of
        Inl e \<Rightarrow> Inl e
      | Inr agent \<Rightarrow>
          (case resolvePermissionSets env agent of
             Inl e \<Rightarrow> Inl e
           | Inr entries \<Rightarrow>
               (case ceListActiveServiceIDs env p of
                  Inl _ \<Rightarrow> Inl (ConsentReadFailed ''failed to list sessions for principal'')
                | Inr active \<Rightarrow>
                    (case resolveServiceRequirements env agent entries active of
                       Inl e \<Rightarrow> Inl e
                     | Inr requirements \<Rightarrow>
                         Inr \<lparr>cdAgent = agent, cdServiceRequirements = requirements, cdResolvedPermissionSets = entries,
                               cdActiveSessionServiceIDs = active\<rparr>))))"

section \<open>Delegations\<close>

record AgentDelegation =
  adAgentID :: agent_id
  adDisplayName :: string
  adActiveGrantCount :: nat
  adLastModifiedAt :: time
  adExpiresAt :: "time option"

definition earlier_expiry :: "time option \<Rightarrow> time option \<Rightarrow> time option" where
  "earlier_expiry current v =
     (case v of
        None \<Rightarrow> current
      | Some t \<Rightarrow> (case current of None \<Rightarrow> Some t | Some c \<Rightarrow> if time_before t c then Some t else Some c))"

definition count_grant :: "UserGrant \<Rightarrow> AgentDelegation \<Rightarrow> AgentDelegation" where
  "count_grant grant d =
     d\<lparr>adActiveGrantCount := adActiveGrantCount d + 1,
       adLastModifiedAt := (if time_after (ugUpdatedAt grant) (adLastModifiedAt d) then ugUpdatedAt grant else adLastModifiedAt d),
       adExpiresAt := earlier_expiry (adExpiresAt d) (ugValidUntil grant)\<rparr>"

definition add_delegation ::
  "(agent_id, Agent) gomap \<Rightarrow> UserGrant \<Rightarrow> (agent_id, AgentDelegation) gomap \<Rightarrow> (agent_id, AgentDelegation) gomap" where
  "add_delegation agentsByID grant m =
     (case map_of m (ugAgentID grant) of
        Some d \<Rightarrow> AList.update (ugAgentID grant) (count_grant grant d) m
      | None \<Rightarrow>
          (case map_of agentsByID (ugAgentID grant) of
             None \<Rightarrow> m
           | Some agent \<Rightarrow>
               AList.update (ugAgentID grant)
                 (count_grant grant \<lparr>adAgentID = ugAgentID grant, adDisplayName = agDisplayName agent, adActiveGrantCount = 0,
                    adLastModifiedAt = ugUpdatedAt grant, adExpiresAt = ugValidUntil grant\<rparr>) m))"

text \<open>By display name, then by agent.\<close>

definition sortAgentDelegations :: "AgentDelegation list \<Rightarrow> AgentDelegation list" where
  "sortAgentDelegations = sort_key (\<lambda>d. [adDisplayName d, adAgentID d])"

definition GetAgentDelegations :: "'st grant_port \<Rightarrow> consent_env \<Rightarrow> time \<Rightarrow> 'st \<Rightarrow> principal \<Rightarrow> consent_error + AgentDelegation list" where
  "GetAgentDelegations R env now st p =
     (case gpListByPrincipal R now p st of
        Inl _ \<Rightarrow> Inl (ConsentReadFailed ''failed to list grants'')
      | Inr grants \<Rightarrow>
          (case ceAgentGetByIDs env (map ugAgentID grants) of
             Inl _ \<Rightarrow> Inl (ConsentReadFailed ''failed to get agents'')
           | Inr agents \<Rightarrow>
               Inr (sortAgentDelegations (map snd (fold (add_delegation (index_by agID (\<lambda>a. a) agents)) grants [])))))"

end
