(* ===== verification/Fosite_Storage.thy ===== *)
theory Fosite_Storage
  imports Client_Assertion User_Grants
begin

text \<open>
  \<^verbatim>\<open>internal/domain/oauth2server/fosite_storage.go\<close>, with \<^verbatim>\<open>fosite_client.go\<close>, \<^verbatim>\<open>profile_session.go\<close>
  and \<^verbatim>\<open>internal/domain/oauth2/scope.go\<close>: what the OAuth2 library stores and looks up at the
  broker. A request of the library is a record of the getters the storage reads. The resolver of
  client identifiers and the check of the user's consent are interfaces of the storage and
  functions of the record \<open>fosite_env\<close>. The state is the issuer's stores; in memory mode there is
  no transaction manager, so \<^verbatim>\<open>BeginTX\<close>, \<^verbatim>\<open>Commit\<close> and \<^verbatim>\<open>Rollback\<close> do nothing and every storage call
  is a step of its own.
\<close>

section \<open>Scopes\<close>

fun split_at_space :: "string \<Rightarrow> string \<Rightarrow> string list" where
  "split_at_space [] acc = [acc]"
| "split_at_space (c # cs) acc = (if c = CHR '' '' then acc # split_at_space cs [] else split_at_space cs (acc @ [c]))"

definition SplitScope :: "string \<Rightarrow> string list" where
  "SplitScope scope = (if scope = [] then [] else split_at_space scope [])"

definition IsReservedRefreshTokenScope :: "string \<Rightarrow> bool" where
  "IsReservedRefreshTokenScope s = list_ex (\<lambda>scope. scope = s) [''offline'', ''offline_access'']"

definition IsScopeAllowed :: "string list \<Rightarrow> string \<Rightarrow> bool" where
  "IsScopeAllowed allowedScopes scope =
     (if IsReservedRefreshTokenScope scope \<or> allowedScopes = [] then True
      else list_ex (\<lambda>allowedScope. allowedScope = scope) allowedScopes)"

lemma split_at_space_word: "CHR '' '' \<notin> set w \<Longrightarrow> split_at_space (w @ s) acc = split_at_space s (acc @ w)"
  by (induction w arbitrary: acc) auto

lemma split_Join:
  "xs \<noteq> [] \<Longrightarrow> \<forall>x \<in> set xs. CHR '' '' \<notin> set x \<Longrightarrow>
   split_at_space (Join xs '' '') acc = (acc @ hd xs) # tl xs"
proof (induction xs arbitrary: acc)
  case (Cons x xs)
  show ?case
  proof (cases xs)
    case Nil
    with Cons.prems split_at_space_word [of x "[]" acc] show ?thesis by simp
  next
    case (Cons y ys)
    with Cons.prems Cons.IH [of "[]"] split_at_space_word [of x "'' '' @ Join xs '' ''" acc] show ?thesis
      by (simp add: Cons)
  qed
qed simp

text \<open>Scopes that are joined for storage come back as they were.\<close>

lemma SplitScope_Join:
  assumes "\<forall>x \<in> set xs. x \<noteq> [] \<and> CHR '' '' \<notin> set x"
  shows "SplitScope (Join xs '' '') = xs"
proof (cases xs)
  case (Cons x ys)
  then have "Join xs '' '' \<noteq> []" using assms by (cases ys) auto
  with Cons assms split_Join [of xs "[]"] show ?thesis by (simp add: SplitScope_def)
qed (simp add: SplitScope_def)

section \<open>Clients\<close>

datatype oauth_client =
    confidentialClient string "Agent option" ClientCredential
  | publicClient string "Agent option" "string list" "string list" "CIMDMetadata option"
  | otherClient string

primrec GetID :: "oauth_client \<Rightarrow> string" where
  "GetID (confidentialClient i a c) = i"
| "GetID (publicClient i a r g m) = i"
| "GetID (otherClient i) = i"

primrec GetGrantTypes :: "oauth_client \<Rightarrow> string list" where
  "GetGrantTypes (confidentialClient i a c) = [''authorization_code'', ''client_credentials'', ''refresh_token'']"
| "GetGrantTypes (publicClient i a r g m) = g"
| "GetGrantTypes (otherClient i) = []"

primrec requiresPrivateKeyJWT :: "oauth_client \<Rightarrow> bool" where
  "requiresPrivateKeyJWT (confidentialClient i a c) = False"
| "requiresPrivateKeyJWT (publicClient i a r g m) = (case m of None \<Rightarrow> False | Some d \<Rightarrow> cmAuthMethod d = ''private_key_jwt'')"
| "requiresPrivateKeyJWT (otherClient i) = False"

definition publicClientGrantTypes :: "string list \<Rightarrow> string list" where
  "publicClientGrantTypes cimd = (if cimd = [] then [''authorization_code''] else cimd)"

definition extractAgentID :: "oauth_client \<Rightarrow> string + agent_id" where
  "extractAgentID client =
     (let holder = (case client of confidentialClient i a c \<Rightarrow> Some a | publicClient i a r g m \<Rightarrow> Some a | otherClient i \<Rightarrow> None)
      in case holder of
           None \<Rightarrow> Inl ''expected broker client''
         | Some None \<Rightarrow> Inl ''broker client has no valid agent ID''
         | Some (Some agent) \<Rightarrow>
             if agID agent = uuid_nil then Inl ''broker client has no valid agent ID'' else Inr (agID agent))"

section \<open>The library's view\<close>

record extra_claims =
  exConsentGrantID :: "string option"
  exRefreshParent :: "string option"
  exClientAuthMethod :: "string option"
  exEmail :: "string option"
  exDisplayName :: "string option"

definition no_claims :: extra_claims where
  "no_claims = \<lparr>exConsentGrantID = None, exRefreshParent = None, exClientAuthMethod = None, exEmail = None, exDisplayName = None\<rparr>"

record fosite_session =
  ssSubject :: principal
  ssCodeExpiry :: time
  ssRefreshExpiry :: time
  ssExtra :: "extra_claims option"

record requester =
  rqID :: string
  rqClient :: oauth_client
  rqForm :: "string \<Rightarrow> string"
  rqRequestedScopes :: "string list"
  rqGrantedScopes :: "string list"
  rqSession :: fosite_session
  rqRequestedAt :: time

datatype resolve_error = ClientIDError string string | ResolveFailure

record fosite_env =
  feResolveClient :: "string \<Rightarrow> resolve_error + Agent \<times> CIMDMetadata option"
  feVerifyAgentAccess :: "principal \<Rightarrow> agent_id \<Rightarrow> access_error + UserGrant"

datatype fosite_error =
    ErrNotFound
  | ErrInvalidGrant
  | ErrServerError
  | ErrInvalidatedAuthorizeCode
  | ErrInactiveToken
  | ErrJTIKnown
  | StorageFailure StorageError
  | ClientFailure string
  | ResolverFailure resolve_error
  | ConsentFailure

definition mapStorageError :: "StorageError \<Rightarrow> fosite_error" where
  "mapStorageError e = (if seKind e = ErrorKindNotFound then ErrNotFound else StorageFailure e)"

definition setSessionProfile :: "string option \<Rightarrow> string \<Rightarrow> extra_claims \<Rightarrow> extra_claims" where
  "setSessionProfile email displayName extra =
     (let extra' = (case email of None \<Rightarrow> extra | Some e \<Rightarrow> extra\<lparr>exEmail := Some e\<rparr>)
      in if displayName \<noteq> [] then extra'\<lparr>exDisplayName := Some displayName\<rparr> else extra')"

definition sessionProfile :: "fosite_session \<Rightarrow> string option \<times> string" where
  "sessionProfile s =
     (case ssExtra s of
        None \<Rightarrow> (None, [])
      | Some extra \<Rightarrow>
          (case exEmail extra of None \<Rightarrow> None | Some v \<Rightarrow> if v = [] then None else Some v,
           case exDisplayName extra of None \<Rightarrow> [] | Some v \<Rightarrow> v))"

definition GetClient :: "fosite_env \<Rightarrow> string \<Rightarrow> issuer_store \<Rightarrow> fosite_error + oauth_client" where
  "GetClient env clientID s =
     (case feResolveClient env clientID of
        Inl (ClientIDError code desc) \<Rightarrow>
          if code = ''server_error'' then Inl (ResolverFailure (ClientIDError code desc)) else Inl ErrNotFound
      | Inl ResolveFailure \<Rightarrow> Inl (ResolverFailure ResolveFailure)
      | Inr (agent, Some metadata) \<Rightarrow>
          Inr (publicClient clientID (Some agent) (cmRedirectURIs metadata) (publicClientGrantTypes (cmGrantTypes metadata))
                 (Some metadata))
      | Inr (agent, None) \<Rightarrow>
          (case cred_GetByAgentID (agID agent) (isCredentials s) of
             Inl e \<Rightarrow>
               if seKind e = ErrorKindNotFound \<and> Agent_ClientType agent = LocalClient
               then Inr (publicClient clientID (Some agent) (agRedirectURIs agent) [''authorization_code'', ''refresh_token''] None)
               else Inl (mapStorageError e)
           | Inr cred \<Rightarrow> Inr (confidentialClient clientID (Some agent) cred)))"

section \<open>Authorization codes\<close>

definition stored_code ::
  "requester \<Rightarrow> (string option \<times> string) option \<Rightarrow> string \<Rightarrow> time \<Rightarrow> agent_id \<Rightarrow> string \<Rightarrow> AuthorizationCode" where
  "stored_code req profile newID now agentID code =
     \<lparr>acID = newID, acCodeHash = code, acAgentID = agentID, acClientID = rqForm req ''client_id'',
      acPrincipal = ssSubject (rqSession req),
      acEmail = (case profile of None \<Rightarrow> None | Some p \<Rightarrow> fst p),
      acDisplayName = (case profile of None \<Rightarrow> [] | Some p \<Rightarrow> snd p),
      acRedirectURI = rqForm req ''redirect_uri'', acCodeChallenge = rqForm req ''code_challenge'',
      acScope = Join (rqRequestedScopes req) '' '', acExpiresAt = ssCodeExpiry (rqSession req),
      acUsedAt = None, acCreatedAt = now\<rparr>"

definition CreateAuthorizeCodeSession ::
  "(string option \<times> string) option \<Rightarrow> string \<Rightarrow> time \<Rightarrow> string \<Rightarrow> requester \<Rightarrow> issuer_store \<Rightarrow>
   fosite_error option \<times> issuer_store" where
  "CreateAuthorizeCodeSession profile newID now code req s =
     (case extractAgentID (rqClient req) of
        Inl e \<Rightarrow> (Some (ClientFailure e), s)
      | Inr agentID \<Rightarrow>
          (case cs_Create (stored_code req profile newID now agentID code) (isCodes s) of
             (Some e, c) \<Rightarrow> (Some (StorageFailure e), s\<lparr>isCodes := c\<rparr>)
           | (None, c) \<Rightarrow> (None, s\<lparr>isCodes := c\<rparr>)))"

definition code_form :: "AuthorizationCode \<Rightarrow> string \<Rightarrow> string" where
  "code_form authCode k =
     (if k = ''redirect_uri'' then acRedirectURI authCode
      else if k = ''code_challenge'' then acCodeChallenge authCode
      else if k = ''code_challenge_method'' then ''S256'' else [])"

definition code_request :: "AuthorizationCode \<Rightarrow> oauth_client \<Rightarrow> requester" where
  "code_request authCode client =
     \<lparr>rqID = acID authCode, rqClient = client, rqForm = code_form authCode,
      rqRequestedScopes = SplitScope (acScope authCode), rqGrantedScopes = SplitScope (acScope authCode),
      rqSession = \<lparr>ssSubject = acPrincipal authCode, ssCodeExpiry = acExpiresAt authCode, ssRefreshExpiry = 0,
        ssExtra = Some (setSessionProfile (acEmail authCode) (acDisplayName authCode) no_claims)\<rparr>,
      rqRequestedAt = acCreatedAt authCode\<rparr>"

text \<open>The client of a stored code: the one of the exchange when the context has it, else looked up,
  and in both cases the one the code was issued to.\<close>

definition code_client ::
  "fosite_env \<Rightarrow> oauth_client option \<Rightarrow> AuthorizationCode \<Rightarrow> issuer_store \<Rightarrow> fosite_error + oauth_client" where
  "code_client env exchangeClient authCode s =
     (let clientLookupID = (if acClientID authCode = [] then acAgentID authCode else acClientID authCode)
      in case (case exchangeClient of Some c \<Rightarrow> Inr c | None \<Rightarrow> GetClient env clientLookupID s) of
           Inl e \<Rightarrow> Inl e
         | Inr client \<Rightarrow>
             if extractAgentID client \<noteq> Inr (acAgentID authCode) \<or> GetID client \<noteq> clientLookupID then Inl ErrNotFound
             else case client of
                 confidentialClient _ _ credential \<Rightarrow>
                   if ccAgentID credential \<noteq> acAgentID authCode then Inl ErrNotFound else Inr client
               | _ \<Rightarrow> Inr client)"

text \<open>The result is the request, the error, and the expiry written to the caller's session. The store
  reads the clock, then the storage reads it again.\<close>

definition GetAuthorizeCodeSession ::
  "fosite_env \<Rightarrow> oauth_client option \<Rightarrow> time \<Rightarrow> time \<Rightarrow> string \<Rightarrow> issuer_store \<Rightarrow>
   requester option \<times> fosite_error option \<times> time option" where
  "GetAuthorizeCodeSession env exchangeClient now now' code s =
     (case cs_FindByCodeHash now code (isCodes s) of
        Inl e \<Rightarrow> (None, Some (mapStorageError e), None)
      | Inr authCode \<Rightarrow>
          if \<not> time_after (acExpiresAt authCode) now' then (None, Some ErrInvalidGrant, None)
          else (case code_client env exchangeClient authCode s of
              Inl e \<Rightarrow> (None, Some e, Some (acExpiresAt authCode))
            | Inr client \<Rightarrow>
                (Some (code_request authCode client),
                 if acUsedAt authCode \<noteq> None then Some ErrInvalidatedAuthorizeCode else None,
                 Some (acExpiresAt authCode))))"

definition InvalidateAuthorizeCodeSession ::
  "time \<Rightarrow> time \<Rightarrow> string \<Rightarrow> issuer_store \<Rightarrow> fosite_error option \<times> issuer_store" where
  "InvalidateAuthorizeCodeSession now now' code s =
     (case cs_FindByCodeHash now code (isCodes s) of
        Inl e \<Rightarrow> (Some (mapStorageError e), s)
      | Inr authCode \<Rightarrow>
          (case cs_MarkUsed now' (acID authCode) (isCodes s) of
             (Some e, c) \<Rightarrow>
               (Some (if mapStorageError e = ErrNotFound then ErrInvalidatedAuthorizeCode else mapStorageError e),
                s\<lparr>isCodes := c\<rparr>)
           | (None, c) \<Rightarrow> (None, s\<lparr>isCodes := c\<rparr>)))"

section \<open>Refresh tokens\<close>

definition session_claims :: "requester \<Rightarrow> extra_claims" where
  "session_claims req = (case ssExtra (rqSession req) of None \<Rightarrow> no_claims | Some c \<Rightarrow> c)"

definition refresh_auth_method :: "bool \<Rightarrow> requester \<Rightarrow> string option" where
  "refresh_auth_method privateKeyJWT req =
     (if privateKeyJWT then Some ''private_key_jwt''
      else case exClientAuthMethod (session_claims req) of
          None \<Rightarrow> None
        | Some method \<Rightarrow> if method = [] then None else Some method)"

definition refresh_grant :: "fosite_env \<Rightarrow> requester \<Rightarrow> agent_id \<Rightarrow> fosite_error + string" where
  "refresh_grant env req agentID =
     (case exConsentGrantID (session_claims req) of
        Some g \<Rightarrow> if g \<noteq> uuid_nil then Inr g
          else (case feVerifyAgentAccess env (ssSubject (rqSession req)) agentID of
                  Inl AccessFailure \<Rightarrow> Inl ErrServerError | Inl _ \<Rightarrow> Inl ErrInvalidGrant | Inr grant \<Rightarrow> Inr (ugID grant))
      | None \<Rightarrow>
          (case feVerifyAgentAccess env (ssSubject (rqSession req)) agentID of
             Inl AccessFailure \<Rightarrow> Inl ErrServerError | Inl _ \<Rightarrow> Inl ErrInvalidGrant | Inr grant \<Rightarrow> Inr (ugID grant)))"

definition new_refresh_session ::
  "bool \<Rightarrow> requester \<Rightarrow> agent_id \<Rightarrow> string \<Rightarrow> string \<Rightarrow> time \<Rightarrow> RefreshTokenSession" where
  "new_refresh_session privateKeyJWT req agentID grantID signature now =
     \<lparr>rtSignature = signature, rtRequestID = rqID req, rtAgentID = agentID, rtClientID = GetID (rqClient req),
      rtPrincipal = ssSubject (rqSession req), rtGrantID = Some grantID,
      rtEmail = fst (sessionProfile (rqSession req)), rtDisplayName = snd (sessionProfile (rqSession req)),
      rtScope = Join (rqGrantedScopes req) '' '', rtClientAuthMethod = refresh_auth_method privateKeyJWT req,
      rtExpiresAt = ssRefreshExpiry (rqSession req), rtUsedAt = None, rtCreatedAt = now\<rparr>"

definition refresh_parent :: "requester \<Rightarrow> string" where
  "refresh_parent req = (case exRefreshParent (session_claims req) of None \<Rightarrow> [] | Some p \<Rightarrow> p)"

definition CreateRefreshTokenSession ::
  "fosite_env \<Rightarrow> bool \<Rightarrow> time \<Rightarrow> string \<Rightarrow> requester \<Rightarrow> issuer_store \<Rightarrow> fosite_error option \<times> issuer_store" where
  "CreateRefreshTokenSession env privateKeyJWT now signature req s =
     (case extractAgentID (rqClient req) of
        Inl e \<Rightarrow> (Some (ClientFailure e), s)
      | Inr agentID \<Rightarrow>
          (case refresh_grant env req agentID of
             Inl e \<Rightarrow> (Some e, s)
           | Inr grantID \<Rightarrow>
               let session = new_refresh_session privateKeyJWT req agentID grantID signature now
               in case RefreshTokenSession_Validate session of
                   Some e \<Rightarrow> (Some (StorageFailure e), s)
                 | None \<Rightarrow>
                     if refresh_parent req \<noteq> []
                     then (case refresh_CreateSuccessor session (refresh_parent req) (isRefresh s) of
                             (Some e, r) \<Rightarrow> (Some (mapStorageError e), s\<lparr>isRefresh := r\<rparr>)
                           | (None, r) \<Rightarrow> (None, s\<lparr>isRefresh := r\<rparr>))
                     else (case refresh_Create session (isRefresh s) of
                             (Some e, r) \<Rightarrow> (Some (StorageFailure e), s\<lparr>isRefresh := r\<rparr>)
                           | (None, r) \<Rightarrow> (None, s\<lparr>isRefresh := r\<rparr>))))"

definition refresh_request :: "RefreshTokenSession \<Rightarrow> oauth_client \<Rightarrow> extra_claims \<Rightarrow> requester" where
  "refresh_request session client claims =
     \<lparr>rqID = rtRequestID session, rqClient = client, rqForm = (\<lambda>_. []),
      rqRequestedScopes = SplitScope (rtScope session), rqGrantedScopes = SplitScope (rtScope session),
      rqSession = \<lparr>ssSubject = rtPrincipal session, ssCodeExpiry = 0, ssRefreshExpiry = rtExpiresAt session,
        ssExtra = Some claims\<rparr>,
      rqRequestedAt = rtCreatedAt session\<rparr>"

text \<open>Why the consent behind a refresh token no longer covers it; None when it does.\<close>

definition consent_mismatch :: "access_error + UserGrant \<Rightarrow> RefreshTokenSession \<Rightarrow> string option" where
  "consent_mismatch access session =
     (case access of
        Inl ErrAgentAccessDenied \<Rightarrow> Some ''grant_missing''
      | Inl ErrGrantExpired \<Rightarrow> Some ''grant_expired''
      | Inl AccessFailure \<Rightarrow> None
      | Inr grant \<Rightarrow>
          (case rtGrantID session of
             Some g \<Rightarrow> if g \<noteq> ugID grant then Some ''grant_mismatch'' else None
           | None \<Rightarrow> if time_after (ugCreatedAt grant) (rtCreatedAt session) then Some ''grant_mismatch'' else None))"

definition GetRefreshTokenSession ::
  "fosite_env \<Rightarrow> time \<Rightarrow> string \<Rightarrow> issuer_store \<Rightarrow> (requester option \<times> fosite_error option) \<times> issuer_store" where
  "GetRefreshTokenSession env now signature s =
     (case refresh_FindBySignature signature (isRefresh s) of
        Inl e \<Rightarrow> ((None, Some (mapStorageError e)), s)
      | Inr session \<Rightarrow>
          (case GetClient env (rtClientID session) s of
             Inl e \<Rightarrow> ((None, Some e), s)
           | Inr client \<Rightarrow>
               let claims = setSessionProfile (rtEmail session) (rtDisplayName session) no_claims
               in if rtUsedAt session \<noteq> None then ((Some (refresh_request session client claims), Some ErrInactiveToken), s)
                  else
                    let access = feVerifyAgentAccess env (rtPrincipal session) (rtAgentID session)
                    in if access = Inl AccessFailure then ((None, Some ConsentFailure), s)
                       else if consent_mismatch access session \<noteq> None
                       then ((None, Some ErrNotFound), s\<lparr>isRefresh := refresh_RevokeByRequestID now (rtRequestID session) (isRefresh s)\<rparr>)
                       else case access of
                           Inl _ \<Rightarrow> ((None, Some ConsentFailure), s)
                         | Inr grant \<Rightarrow>
                             ((Some (refresh_request session client
                                 (claims\<lparr>exConsentGrantID := Some (ugID grant), exRefreshParent := Some signature,
                                         exClientAuthMethod := rtClientAuthMethod session\<rparr>)), None), s)))"

definition DeleteRefreshTokenSession :: "time \<Rightarrow> string \<Rightarrow> issuer_store \<Rightarrow> fosite_error option \<times> issuer_store" where
  "DeleteRefreshTokenSession now signature s =
     (case refresh_MarkUsed now signature (isRefresh s) of
        (Some e, r) \<Rightarrow> (if seKind e = ErrorKindNotFound then None else Some (mapStorageError e), s\<lparr>isRefresh := r\<rparr>)
      | (None, r) \<Rightarrow> (None, s\<lparr>isRefresh := r\<rparr>))"

definition RotateRefreshToken :: "time \<Rightarrow> string \<Rightarrow> issuer_store \<Rightarrow> fosite_error option \<times> issuer_store" where
  "RotateRefreshToken now signature s =
     (case refresh_MarkUsed now signature (isRefresh s) of
        (Some e, r) \<Rightarrow> (Some (mapStorageError e), s\<lparr>isRefresh := r\<rparr>)
      | (None, r) \<Rightarrow> (None, s\<lparr>isRefresh := r\<rparr>))"

definition RevokeRefreshToken :: "time \<Rightarrow> string \<Rightarrow> issuer_store \<Rightarrow> fosite_error option \<times> issuer_store" where
  "RevokeRefreshToken now requestID s = (None, s\<lparr>isRefresh := refresh_RevokeByRequestID now requestID (isRefresh s)\<rparr>)"

section \<open>PKCE\<close>

definition CreatePKCERequestSession :: "time \<Rightarrow> string \<Rightarrow> requester \<Rightarrow> issuer_store \<Rightarrow> fosite_error option \<times> issuer_store" where
  "CreatePKCERequestSession now signature req s =
     (let session = \<lparr>pkSignature = signature, pkCodeChallenge = rqForm req ''code_challenge'',
                      pkCodeChallengeMethod = rqForm req ''code_challenge_method'',
                      pkExpiresAt = ssCodeExpiry (rqSession req), pkCreatedAt = now\<rparr>
      in case PKCESession_Validate session of
           Some e \<Rightarrow> (Some (StorageFailure e), s)
         | None \<Rightarrow>
             (case pkce_Create session (isPKCE s) of
                (Some e, p) \<Rightarrow> (Some (StorageFailure e), s\<lparr>isPKCE := p\<rparr>)
              | (None, p) \<Rightarrow> (None, s\<lparr>isPKCE := p\<rparr>)))"

definition GetPKCERequestSession :: "string \<Rightarrow> issuer_store \<Rightarrow> fosite_error + (string \<times> string)" where
  "GetPKCERequestSession signature s =
     (case pkce_FindBySignature signature (isPKCE s) of
        Inl e \<Rightarrow> Inl (mapStorageError e)
      | Inr session \<Rightarrow> Inr (pkCodeChallenge session, pkCodeChallengeMethod session))"

definition DeletePKCERequestSession :: "string \<Rightarrow> issuer_store \<Rightarrow> fosite_error option \<times> issuer_store" where
  "DeletePKCERequestSession signature s =
     (case pkce_Delete signature (isPKCE s) of
        (Some e, p) \<Rightarrow> (Some (mapStorageError e), s\<lparr>isPKCE := p\<rparr>)
      | (None, p) \<Rightarrow> (None, s\<lparr>isPKCE := p\<rparr>))"

text \<open>Assertions are not handled by the library: every one is refused.\<close>

definition ClientAssertionJWTValid :: "string \<Rightarrow> fosite_error option" where
  "ClientAssertionJWTValid jti = Some ErrJTIKnown"

section \<open>Client credentials\<close>

datatype credential_error = ErrCredentialAgentNotFound | GenerationFailed string | CredentialStorage StorageError

text \<open>\<^verbatim>\<open>CredentialService.Generate\<close>: \<open>agentExists\<close> is the agent repository's answer, \<open>generated\<close> the
  generator's. \<^verbatim>\<open>Revoke\<close> deletes the credential and with it every refresh session of the agent.\<close>

definition CredentialService_Generate ::
  "bool \<Rightarrow> string + ClientCredential \<times> string \<Rightarrow> time \<Rightarrow> agent_id \<Rightarrow> issuer_store \<Rightarrow>
   (credential_error + ClientCredential \<times> string \<times> bool) \<times> issuer_store" where
  "CredentialService_Generate agentExists generated now agentID s =
     (if \<not> agentExists then (Inl ErrCredentialAgentNotFound, s)
      else
        let isRotation = (case cred_GetByAgentID agentID (isCredentials s) of Inl _ \<Rightarrow> False | Inr _ \<Rightarrow> True)
        in case generated of
             Inl e \<Rightarrow> (Inl (GenerationFailed e), s)
           | Inr (credential, secret) \<Rightarrow>
               let credential' = credential\<lparr>ccCreatedAt := now, ccRotatedAt := (if isRotation then Some now else ccRotatedAt credential)\<rparr>
               in case (if isRotation then cred_Rotate agentID credential' (isCredentials s)
                        else cred_Create credential' (isCredentials s)) of
                    (Some e, c) \<Rightarrow> (Inl (CredentialStorage e), s\<lparr>isCredentials := c\<rparr>)
                  | (None, c) \<Rightarrow> (Inr (credential', secret, isRotation), s\<lparr>isCredentials := c\<rparr>))"

definition CredentialService_Revoke :: "time \<Rightarrow> agent_id \<Rightarrow> issuer_store \<Rightarrow> StorageError option \<times> issuer_store" where
  "CredentialService_Revoke now agentID s =
     (case cred_Delete agentID (isCredentials s) of
        (Some e, c) \<Rightarrow> (Some e, s\<lparr>isCredentials := c\<rparr>)
      | (None, c) \<Rightarrow> (None, s\<lparr>isCredentials := c, isRefresh := snd (refresh_RevokeByAgent now agentID (isRefresh s))\<rparr>))"

end
