(* ===== verification/Issuer_Runs.thy ===== *)
theory Issuer_Runs
  imports Fosite_Storage
begin

text \<open>
  Histories of the local issuer. Each call of the OAuth2 library to the storage, each credential
  operation, each revocation and each cleanup is one step, so that calls of concurrent token
  requests may follow each other in any order; the store calls inside one such call, as the look-up,
  check and revocation of \<^verbatim>\<open>GetRefreshTokenSession\<close>, are not split further. The properties say that what is spent stays
  spent: a used authorization code, a rotated refresh token and a revoked one.
\<close>

section \<open>Steps\<close>

text \<open>What a step may bring into the stores: a new code, the first token of a chain, a later one.\<close>

datatype issuer_event = CodeIssued string | ChainStarted string string | ChainContinued string string | Quiet

inductive issuer_step :: "issuer_event \<Rightarrow> issuer_store \<Rightarrow> issuer_store \<Rightarrow> bool" where
  create_code: "fresh_code_id (isCodes s) newID \<Longrightarrow> CreateAuthorizeCodeSession profile newID now code req s = (e, s') \<Longrightarrow>
    issuer_step (CodeIssued code) s s'"
| invalidate_code: "InvalidateAuthorizeCodeSession now now' code s = (e, s') \<Longrightarrow> issuer_step Quiet s s'"
| start_chain: "CreateRefreshTokenSession env pk now signature req s = (e, s') \<Longrightarrow> refresh_parent req = [] \<Longrightarrow>
    issuer_step (ChainStarted (rqID req) signature) s s'"
| continue_chain: "CreateRefreshTokenSession env pk now signature req s = (e, s') \<Longrightarrow> refresh_parent req \<noteq> [] \<Longrightarrow>
    issuer_step (ChainContinued (rqID req) signature) s s'"
| get_refresh: "GetRefreshTokenSession env now signature s = (r, s') \<Longrightarrow> issuer_step Quiet s s'"
| delete_refresh: "DeleteRefreshTokenSession now signature s = (e, s') \<Longrightarrow> issuer_step Quiet s s'"
| rotate_refresh: "RotateRefreshToken now signature s = (e, s') \<Longrightarrow> issuer_step Quiet s s'"
| revoke_refresh: "RevokeRefreshToken now requestID s = (e, s') \<Longrightarrow> issuer_step Quiet s s'"
| create_pkce: "CreatePKCERequestSession now signature req s = (e, s') \<Longrightarrow> issuer_step Quiet s s'"
| delete_pkce: "DeletePKCERequestSession signature s = (e, s') \<Longrightarrow> issuer_step Quiet s s'"
| credential: "CredentialService_Generate ex gen now agentID s = (c, s') \<Longrightarrow> issuer_step Quiet s s'"
| revoke_credential: "CredentialService_Revoke now agentID s = (e', s') \<Longrightarrow> issuer_step Quiet s s'"
| revoke_consent: "issuer_step Quiet s (s\<lparr>isRefresh := snd (refresh_RevokeByPrincipalAndAgent now p agentID (isRefresh s))\<rparr>)"
| cleanup: "issuer_step Quiet s (sweep cancelled clock s)"

inductive issuer_run :: "(issuer_event \<Rightarrow> bool) \<Rightarrow> issuer_store \<Rightarrow> issuer_store \<Rightarrow> bool" for allowed s where
  start: "issuer_run allowed s s"
| step: "issuer_run allowed s s' \<Longrightarrow> issuer_step ev s' s'' \<Longrightarrow> allowed ev \<Longrightarrow> issuer_run allowed s s''"

section \<open>What a step does to the codes\<close>

inductive code_op :: "issuer_event \<Rightarrow> code_store \<Rightarrow> code_store \<Rightarrow> bool" where
  same: "code_op ev c c"
| issue: "fresh_code_id c (acID a) \<Longrightarrow> acCodeHash a = code \<Longrightarrow> cs_Create a c = (None, c') \<Longrightarrow> code_op (CodeIssued code) c c'"
| spend: "cs_MarkUsed now i c = (None, c') \<Longrightarrow> code_op ev c c'"
| expire: "code_op ev c (snd (cs_DeleteExpired now c))"

lemma stored_code_fields [simp]:
  "acID (stored_code req profile newID now agentID code) = newID"
  "acCodeHash (stored_code req profile newID now agentID code) = code"
  by (simp_all add: stored_code_def)

lemma cs_Create_fail: "cs_Create a c = (Some e, c') \<Longrightarrow> c' = c"
  by (simp add: cs_Create_def split: if_splits)

lemma cs_MarkUsed_fail: "cs_MarkUsed now i c = (Some e, c') \<Longrightarrow> c' = c"
  by (simp add: cs_MarkUsed_def split: option.splits)

lemma cleanup_codes: "isCodes (cleanup_sweep cancelled clock 0 NewSessionCleanup s) \<in> {isCodes s, snd (cs_DeleteExpired (clock 0) (isCodes s))}"
  by (simp add: NewSessionCleanup_def)

lemma cleanup_refresh:
  "isRefresh (cleanup_sweep cancelled clock 0 NewSessionCleanup s) \<in> {isRefresh s, snd (refresh_DeleteExpired (clock 2) (isRefresh s))}"
  by (simp add: NewSessionCleanup_def numeral_2_eq_2)

lemma issuer_step_codes: "issuer_step ev s s' \<Longrightarrow> code_op ev (isCodes s) (isCodes s')"
proof (induction rule: issuer_step.induct)
  case (create_code s newID profile now code req e s')
  then consider "isCodes s' = isCodes s"
    | agentID where "cs_Create (stored_code req profile newID now agentID code) (isCodes s) = (None, isCodes s')"
    by (auto simp: CreateAuthorizeCodeSession_def dest: cs_Create_fail split: sum.splits prod.splits option.splits)
  then show ?case
  proof cases
    case 1
    then show ?thesis by (simp add: code_op.same)
  next
    case 2
    then show ?thesis by (rule code_op.issue [rotated 2]) (use create_code in simp_all)
  qed
next
  case (invalidate_code now now' code s e s')
  then consider "isCodes s' = isCodes s" | i where "cs_MarkUsed now' i (isCodes s) = (None, isCodes s')"
    by (auto simp: InvalidateAuthorizeCodeSession_def dest: cs_MarkUsed_fail split: sum.splits prod.splits option.splits)
  then show ?case by cases (simp add: code_op.same, rule code_op.spend)
next
  case (cleanup s cancelled clock)
  from cleanup_codes [of cancelled clock s] show ?case
    by (auto simp: sweep_def intro: code_op.same code_op.expire)
qed (auto simp: CreateRefreshTokenSession_def GetRefreshTokenSession_def DeleteRefreshTokenSession_def RotateRefreshToken_def
    RevokeRefreshToken_def CreatePKCERequestSession_def DeletePKCERequestSession_def CredentialService_Generate_def
    CredentialService_Revoke_def Let_def intro: code_op.same split: sum.splits prod.splits option.splits if_splits)

definition code_spent :: "string \<Rightarrow> code_store \<Rightarrow> bool" where
  "code_spent h c \<longleftrightarrow> (\<forall>a. cs_abs c h = Some a \<longrightarrow> acUsedAt a \<noteq> None)"

lemma code_op_spent:
  assumes "code_op ev c c'" and "cs_invar c"
  shows "cs_invar c' \<and> (ev \<noteq> CodeIssued h \<longrightarrow> code_spent h c \<longrightarrow> code_spent h c')"
  using assms
proof (induction rule: code_op.induct)
  case (issue c a code c')
  with cs_Create_spec [of c a c'] show ?case by (auto simp: code_spent_def)
next
  case (spend now i c c' ev)
  with cs_MarkUsed_spec [of c now i c'] show ?case by (auto simp: code_spent_def split: if_splits)
next
  case (expire ev c now)
  note e = cs_DeleteExpired_spec [OF expire prod.collapse [symmetric]]
  from e [where h = h] show ?case by (auto simp: code_spent_def split: option.splits if_splits)
qed simp

section \<open>What a step does to the refresh tokens\<close>

inductive refresh_op :: "issuer_event \<Rightarrow> refresh_store \<Rightarrow> refresh_store \<Rightarrow> bool" where
  same: "refresh_op ev r r"
| first: "map_of r sig = None \<Longrightarrow> rtRequestID x = i \<Longrightarrow>
    refresh_op (ChainStarted i sig) r (AList.update sig \<lparr>reSession = x, reRevoked = False\<rparr> r)"
| succ: "map_of r sig = None \<Longrightarrow> rtRequestID x = i \<Longrightarrow> map_of r prev = Some p \<Longrightarrow> \<not> reRevoked p \<Longrightarrow>
    rtUsedAt (reSession p) \<noteq> None \<Longrightarrow> rtRequestID (reSession p) = i \<Longrightarrow>
    refresh_op (ChainContinued i sig) r (AList.update sig \<lparr>reSession = x, reRevoked = False\<rparr> r)"
| mark: "refresh_MarkUsed now sig r = (None, r') \<Longrightarrow> refresh_op ev r r'"
| revoke: "refresh_op ev r (map (\<lambda>(sig, e). (sig, if P e then revoke_entry now e else e)) r)"
| expire: "refresh_op ev r (snd (refresh_DeleteExpired now r))"

lemma refresh_MarkUsed_fail: "refresh_MarkUsed now sig r = (Some e, r') \<Longrightarrow> r' = r"
  by (simp add: refresh_MarkUsed_def split: option.splits if_splits)

lemma new_refresh_session_fields [simp]:
  "rtSignature (new_refresh_session pk req agentID grantID sig now) = sig"
  "rtRequestID (new_refresh_session pk req agentID grantID sig now) = rqID req"
  by (simp_all add: new_refresh_session_def)

lemma createLocked_cases:
  "refresh_createLocked x r = (e, r') \<Longrightarrow>
   r' = r \<or> (map_of r (rtSignature x) = None \<and> r' = AList.update (rtSignature x) \<lparr>reSession = x, reRevoked = False\<rparr> r)"
  by (auto simp: refresh_createLocked_def split: if_splits)

lemma CreateRefresh_cases:
  assumes "CreateRefreshTokenSession env pk now signature req s = (e, s')"
  shows "isRefresh s' = isRefresh s \<or>
    (\<exists>x. rtSignature x = signature \<and> rtRequestID x = rqID req \<and> map_of (isRefresh s) signature = None \<and>
       isRefresh s' = AList.update signature \<lparr>reSession = x, reRevoked = False\<rparr> (isRefresh s) \<and>
       (refresh_parent req \<noteq> [] \<longrightarrow> (\<exists>p. map_of (isRefresh s) (refresh_parent req) = Some p \<and> \<not> reRevoked p \<and>
          rtUsedAt (reSession p) \<noteq> None \<and> rtRequestID (reSession p) = rqID req)))"
proof (cases "isRefresh s' = isRefresh s")
  case False
  from assms False obtain agentID grantID where g: "extractAgentID (rqClient req) = Inr agentID" "refresh_grant env req agentID = Inr grantID"
    by (auto simp: CreateRefreshTokenSession_def split: sum.splits)
  let ?x = "new_refresh_session pk req agentID grantID signature now"
  show ?thesis
  proof (cases "refresh_parent req = []")
    case True
    with assms False g obtain e1 r where r: "refresh_createLocked ?x (isRefresh s) = (e1, r)" "isRefresh s' = r"
      by (cases "refresh_createLocked ?x (isRefresh s)")
        (auto simp: CreateRefreshTokenSession_def refresh_Create_def Let_def split: option.splits)
    with createLocked_cases [OF r(1)] False True show ?thesis by (intro disjI2 exI [of _ ?x]) auto
  next
    case parent: False
    with assms False g obtain e1 r where r: "refresh_CreateSuccessor ?x (refresh_parent req) (isRefresh s) = (e1, r)" "isRefresh s' = r"
      by (cases "refresh_CreateSuccessor ?x (refresh_parent req) (isRefresh s)")
        (auto simp: CreateRefreshTokenSession_def Let_def split: option.splits)
    with False obtain p where p: "map_of (isRefresh s) (refresh_parent req) = Some p" "\<not> reRevoked p"
        "rtUsedAt (reSession p) \<noteq> None" "rtRequestID (reSession p) = rqID req" "refresh_createLocked ?x (isRefresh s) = (e1, r)"
      by (auto simp: refresh_CreateSuccessor_def split: option.splits if_splits)
    with createLocked_cases [OF p(5)] r(2) False show ?thesis by (intro disjI2 exI [of _ ?x]) auto
  qed
qed simp

lemma issuer_step_refresh: "issuer_step ev s s' \<Longrightarrow> refresh_op ev (isRefresh s) (isRefresh s')"
proof (induction rule: issuer_step.induct)
  case (start_chain env pk now signature req s e s')
  with CreateRefresh_cases [OF start_chain(1)] show ?case by (auto intro: refresh_op.same refresh_op.first)
next
  case (continue_chain env pk now signature req s e s')
  from CreateRefresh_cases [OF continue_chain(1)] show ?case
  proof (elim disjE exE conjE)
    fix x
    assume x: "rtRequestID x = rqID req" "map_of (isRefresh s) signature = None"
      "isRefresh s' = AList.update signature \<lparr>reSession = x, reRevoked = False\<rparr> (isRefresh s)"
      "refresh_parent req \<noteq> [] \<longrightarrow> (\<exists>p. map_of (isRefresh s) (refresh_parent req) = Some p \<and> \<not> reRevoked p \<and>
          rtUsedAt (reSession p) \<noteq> None \<and> rtRequestID (reSession p) = rqID req)"
    with continue_chain(2) obtain p where p: "map_of (isRefresh s) (refresh_parent req) = Some p" "\<not> reRevoked p"
      "rtUsedAt (reSession p) \<noteq> None" "rtRequestID (reSession p) = rqID req" by blast
    show ?case unfolding x(3) by (rule refresh_op.succ [OF x(2,1) p])
  qed (simp add: refresh_op.same)
next
  case (get_refresh env now signature s r s')
  then consider "isRefresh s' = isRefresh s" | i where "isRefresh s' = refresh_RevokeByRequestID now i (isRefresh s)"
    by (auto simp: GetRefreshTokenSession_def Let_def split: sum.splits if_splits)
  then show ?case by cases (simp_all add: refresh_op.same refresh_RevokeByRequestID_def refresh_op.revoke)
next
  case (delete_refresh now signature s e s')
  then consider "isRefresh s' = isRefresh s" | "refresh_MarkUsed now signature (isRefresh s) = (None, isRefresh s')"
    by (auto simp: DeleteRefreshTokenSession_def dest: refresh_MarkUsed_fail split: prod.splits option.splits)
  then show ?case by cases (simp add: refresh_op.same, rule refresh_op.mark)
next
  case (rotate_refresh now signature s e s')
  then consider "isRefresh s' = isRefresh s" | "refresh_MarkUsed now signature (isRefresh s) = (None, isRefresh s')"
    by (auto simp: RotateRefreshToken_def dest: refresh_MarkUsed_fail split: prod.splits option.splits)
  then show ?case by cases (simp add: refresh_op.same, rule refresh_op.mark)
next
  case (revoke_refresh now requestID s e s')
  then show ?case by (auto simp: RevokeRefreshToken_def refresh_RevokeByRequestID_def intro: refresh_op.revoke)
next
  case (revoke_credential now agentID s e' s')
  then show ?case
    by (auto simp: CredentialService_Revoke_def refresh_RevokeByAgent_def revokeByAgent_def
        intro: refresh_op.revoke refresh_op.same split: prod.splits option.splits)
next
  case (revoke_consent s now p agentID)
  then show ?case by (simp add: refresh_RevokeByPrincipalAndAgent_def revokeByAgent_def refresh_op.revoke)
next
  case (cleanup s cancelled clock)
  from cleanup_refresh [of cancelled clock s] show ?case
    by (auto simp: sweep_def intro: refresh_op.same refresh_op.expire)
qed (auto simp: CreateAuthorizeCodeSession_def InvalidateAuthorizeCodeSession_def CreatePKCERequestSession_def
    DeletePKCERequestSession_def CredentialService_Generate_def Let_def intro: refresh_op.same
    split: sum.splits prod.splits option.splits if_splits)

text \<open>A token that is used or gone.\<close>

definition token_spent :: "string \<Rightarrow> refresh_store \<Rightarrow> bool" where
  "token_spent sig r \<longleftrightarrow> (\<forall>e. map_of r sig = Some e \<longrightarrow> rtUsedAt (reSession e) \<noteq> None)"

lemma revoke_entry_simps [simp]:
  "\<exists>y. rtUsedAt (reSession (revoke_entry now e)) = Some y" "rtUsedAt (reSession (revoke_entry now e)) \<noteq> None" "reRevoked (revoke_entry now e)"
  "rtRequestID (reSession (revoke_entry now e)) = rtRequestID (reSession e)"
  by (auto simp: revoke_entry_def)

lemma map_of_revoke:
  "map_of (map (\<lambda>(sig, e). (sig, if P e then revoke_entry now e else e)) r) sig =
   map_option (\<lambda>e. if P e then revoke_entry now e else e) (map_of r sig)"
  by (rule map_of_map_values)

lemma MarkUsed_ok:
  "refresh_MarkUsed now sig r = (None, r') \<Longrightarrow> \<exists>e. map_of r sig = Some e \<and> rtUsedAt (reSession e) = None \<and>
     r' = AList.update sig (e\<lparr>reSession := (reSession e)\<lparr>rtUsedAt := Some now\<rparr>\<rparr>) r"
  by (auto simp: refresh_MarkUsed_def split: option.splits if_splits)

lemma refresh_op_spent:
  assumes "refresh_op ev r r'" and "wf_gomap r" and "\<forall>i. ev \<noteq> ChainStarted i sig \<and> ev \<noteq> ChainContinued i sig"
    and "token_spent sig r"
  shows "token_spent sig r'"
  using assms
proof (induction rule: refresh_op.induct)
  case (mark now sig' r r' ev)
  from MarkUsed_ok [OF mark(1)] mark.prems(3) show ?case by (auto simp: token_spent_def go_map_simps split: if_splits)
next
  case (revoke ev r P now)
  then show ?case by (auto simp: token_spent_def map_of_revoke)
next
  case (expire ev r now)
  then show ?case by (simp add: token_spent_def refreshes.keeps_live)
qed (auto simp: token_spent_def go_map_simps)

text \<open>A token that is gone, or used and revoked.\<close>

definition token_dead :: "string \<Rightarrow> refresh_store \<Rightarrow> bool" where
  "token_dead sig r \<longleftrightarrow> (\<forall>e. map_of r sig = Some e \<longrightarrow> reRevoked e \<and> rtUsedAt (reSession e) \<noteq> None)"

lemma refresh_op_token_dead:
  assumes "refresh_op ev r r'" and "wf_gomap r" and "\<forall>i. ev \<noteq> ChainStarted i sig \<and> ev \<noteq> ChainContinued i sig"
    and "token_dead sig r"
  shows "token_dead sig r'"
  using assms
proof (induction rule: refresh_op.induct)
  case (mark now sig' r r' ev)
  from MarkUsed_ok [OF mark(1)] mark.prems(3) show ?case by (auto simp: token_dead_def go_map_simps split: if_splits)
next
  case (revoke ev r P now)
  then show ?case by (auto simp: token_dead_def map_of_revoke)
next
  case (expire ev r now)
  then show ?case by (simp add: token_dead_def refreshes.keeps_live)
qed (auto simp: token_dead_def go_map_simps)

lemma refresh_op_wf: "refresh_op ev r r' \<Longrightarrow> wf_gomap r \<Longrightarrow> wf_gomap r'"
proof (induction rule: refresh_op.induct)
  case (mark now sig' r r' ev)
  from MarkUsed_ok [OF mark(1)] mark.prems show ?case by auto
next
  case (expire ev r now)
  then show ?case by (rule refreshes.sweep_ok)
qed simp_all

section \<open>Runs\<close>

text \<open>What is needed of the two stores; the other stores do not matter for what follows.\<close>

definition stores_ok :: "issuer_store \<Rightarrow> bool" where
  "stores_ok s \<longleftrightarrow> cs_invar (isCodes s) \<and> wf_gomap (isRefresh s)"

lemma step_ok: "issuer_step ev s s' \<Longrightarrow> stores_ok s \<Longrightarrow> stores_ok s'"
  unfolding stores_ok_def
  using code_op_spent [OF issuer_step_codes] refresh_op_wf [OF issuer_step_refresh] by blast

lemma run_ok: "issuer_run allowed s s' \<Longrightarrow> stores_ok s \<Longrightarrow> stores_ok s'"
  by (induction rule: issuer_run.induct) (auto dest: step_ok)

lemma run_keeps:
  assumes "issuer_run allowed s s'" and "stores_ok s" and "P s"
    and "\<And>ev t t'. issuer_step ev t t' \<Longrightarrow> allowed ev \<Longrightarrow> stores_ok t \<Longrightarrow> P t \<Longrightarrow> P t'"
  shows "P s'"
  using assms(1)
proof (induction rule: issuer_run.induct)
  case (step t ev t')
  with assms(4) [OF step(2,3)] run_ok [OF step(1) assms(2)] show ?case by blast
qed (rule assms(3))

lemma run_code_spent:
  assumes "issuer_run (\<lambda>ev. ev \<noteq> CodeIssued h) s s'" and "stores_ok s" and "code_spent h (isCodes s)"
  shows "code_spent h (isCodes s')"
proof (rule run_keeps [where P = "\<lambda>s. code_spent h (isCodes s)", OF assms])
  fix ev t t'
  assume "issuer_step ev t t'" "ev \<noteq> CodeIssued h" "stores_ok t" "code_spent h (isCodes t)"
  then show "code_spent h (isCodes t')"
    using code_op_spent [OF issuer_step_codes] by (auto simp: stores_ok_def)
qed

lemma run_token_spent:
  assumes "issuer_run (\<lambda>ev. \<forall>i. ev \<noteq> ChainStarted i sig \<and> ev \<noteq> ChainContinued i sig) s s'"
    and "stores_ok s" and "token_spent sig (isRefresh s)"
  shows "token_spent sig (isRefresh s')"
proof (rule run_keeps [where P = "\<lambda>s. token_spent sig (isRefresh s)", OF assms])
  fix ev t t'
  assume "issuer_step ev t t'" "\<forall>i. ev \<noteq> ChainStarted i sig \<and> ev \<noteq> ChainContinued i sig" "stores_ok t"
    "token_spent sig (isRefresh t)"
  then show "token_spent sig (isRefresh t')"
    using refresh_op_spent [OF issuer_step_refresh] unfolding stores_ok_def by blast
qed

lemma run_token_dead:
  assumes "issuer_run (\<lambda>ev. \<forall>i. ev \<noteq> ChainStarted i sig \<and> ev \<noteq> ChainContinued i sig) s s'"
    and "stores_ok s" and "token_dead sig (isRefresh s)"
  shows "token_dead sig (isRefresh s')"
proof (rule run_keeps [where P = "\<lambda>s. token_dead sig (isRefresh s)", OF assms])
  fix ev t t'
  assume "issuer_step ev t t'" "\<forall>i. ev \<noteq> ChainStarted i sig \<and> ev \<noteq> ChainContinued i sig" "stores_ok t"
    "token_dead sig (isRefresh t)"
  then show "token_dead sig (isRefresh t')"
    using refresh_op_token_dead [OF issuer_step_refresh] unfolding stores_ok_def by blast
qed

text \<open>What the storage then answers.\<close>

lemma spent_code_refused:
  assumes "code_spent h (isCodes s)"
  shows "snd (snd (GetAuthorizeCodeSession env x now now' h s)) = t \<Longrightarrow>
    fst (snd (GetAuthorizeCodeSession env x now now' h s)) \<noteq> None"
  using assms
  by (auto simp: GetAuthorizeCodeSession_def cs_FindByCodeHash_def code_spent_def cs_abs_def
      split: option.splits if_splits sum.splits)

lemma Invalidate_spends:
  assumes "cs_invar (isCodes s)" and "InvalidateAuthorizeCodeSession now now' h s = (None, s')"
  shows "code_spent h (isCodes s')"
proof -
  from assms(2) obtain a where a: "cs_FindByCodeHash now h (isCodes s) = Inr a" "cs_MarkUsed now' (acID a) (isCodes s) = (None, isCodes s')"
    by (auto simp: InvalidateAuthorizeCodeSession_def split: sum.splits prod.splits option.splits)
  then obtain i where i: "map_of (csByCodeHash (isCodes s)) h = Some i" "a = csHeap (isCodes s) ! i"
    by (auto simp: cs_FindByCodeHash_def split: option.splits if_splits)
  from cs_MarkUsed_spec [OF assms(1) a(2)] obtain c where c: "acID c = acID a" "cs_abs (isCodes s) (acCodeHash c) = Some c"
    "cs_abs (isCodes s') = (cs_abs (isCodes s))(acCodeHash c \<mapsto> c\<lparr>acUsedAt := Some now'\<rparr>)" by blast
  from c(2) obtain j where j: "map_of (csByCodeHash (isCodes s)) (acCodeHash c) = Some j" "csHeap (isCodes s) ! j = c"
    unfolding cs_abs_def by (elim map_option_eq_Some [THEN iffD1, elim_format]) blast
  note hi = cs_hashD [OF assms(1) i(1)] and hj = cs_hashD [OF assms(1) j(1)]
  from hi hj i(2) j(2) c(1) have "map_of (csByID (isCodes s)) (acID a) = Some i" "map_of (csByID (isCodes s)) (acID a) = Some j"
    by metis+
  then have "i = j" by simp
  with hi j(2) have "acCodeHash c = h" by metis
  with c(3) show ?thesis by (simp add: code_spent_def)
qed

lemma RevokeRefresh_token:
  assumes "RevokeRefreshToken now (rtRequestID (reSession x)) s = (e, s')" and "map_of (isRefresh s) sig = Some x"
  shows "token_dead sig (isRefresh s')"
proof -
  from assms(1) have "isRefresh s' = refresh_RevokeByRequestID now (rtRequestID (reSession x)) (isRefresh s)"
    by (auto simp: RevokeRefreshToken_def)
  then have "map_of (isRefresh s') sig = Some (revoke_entry now x)"
    using assms(2) by (simp add: refresh_RevokeByRequestID_def map_of_revoke)
  then show ?thesis by (simp add: token_dead_def)
qed

text \<open>No successor of a dead token is stored.\<close>

lemma dead_parent_refused:
  assumes dead: "token_dead (refresh_parent req) (isRefresh s)" and parent: "refresh_parent req \<noteq> []"
  shows "fst (CreateRefreshTokenSession env pk t sig req s) \<noteq> None \<and>
    isRefresh (snd (CreateRefreshTokenSession env pk t sig req s)) = isRefresh s"
proof -
  obtain err s3 where c: "CreateRefreshTokenSession env pk t sig req s = (err, s3)" by force
  have "\<not> reRevoked p \<Longrightarrow> map_of (isRefresh s) (refresh_parent req) \<noteq> Some p" for p
    using dead unfolding token_dead_def by blast
  with CreateRefresh_cases [OF c] parent have "isRefresh s3 = isRefresh s" by blast
  moreover have "refresh_CreateSuccessor y (refresh_parent req) (isRefresh s) \<noteq> (None, r)" for y r
    using dead unfolding token_dead_def by (auto simp: refresh_CreateSuccessor_def split: option.splits)
  then have "err \<noteq> None"
    using c parent by (auto simp: CreateRefreshTokenSession_def Let_def split: sum.splits option.splits prod.splits)
  ultimately show ?thesis by (simp add: c)
qed

lemma Rotate_spends:
  assumes "RotateRefreshToken now sig s = (None, s')"
  shows "token_spent sig (isRefresh s')"
proof -
  from assms have "refresh_MarkUsed now sig (isRefresh s) = (None, isRefresh s')"
    by (auto simp: RotateRefreshToken_def split: prod.splits option.splits)
  from MarkUsed_ok [OF this] show ?thesis by (auto simp: token_spent_def go_map_simps)
qed

section \<open>Properties\<close>

definition demo_agent :: Agent where
  "demo_agent = \<lparr>agID = ''a'', agCanonicalID = None, agClientID = None, agExternalID = None, agDisplayName = ''demo'',
     agDescription = ''demo'', agGovernanceURL = None, agUserDocumentationURL = None, agAgentInterfaceURL = None,
     agServiceRequirements = [], agPermissionSets = [], agRedirectURIs = [''https://r''], agAllowedScopes = [],
     agClientURIs = [], agCreatedAt = 1, agUpdatedAt = 1\<rparr>"

definition demo_env :: fosite_env where
  "demo_env = \<lparr>feResolveClient = (\<lambda>_. Inr (demo_agent, None)),
     feVerifyAgentAccess = (\<lambda>p a. Inr \<lparr>ugID = ''g'', ugPrincipal = p, ugAgentID = a, ugValidUntil = None,
       ugGrantedPermissionSets = [], ugCreatedAt = 1, ugUpdatedAt = 1\<rparr>)\<rparr>"

definition demo_client :: oauth_client where
  "demo_client = publicClient ''a'' (Some demo_agent) [''https://r''] [''authorization_code'', ''refresh_token''] None"

definition demo_request :: "string option \<Rightarrow> requester" where
  "demo_request parent = \<lparr>rqID = ''q'', rqClient = demo_client,
     rqForm = (\<lambda>k. if k = ''client_id'' then ''a'' else if k = ''redirect_uri'' then ''https://r'' else ''x''),
     rqRequestedScopes = [''openid'', ''offline''], rqGrantedScopes = [''openid''],
     rqSession = \<lparr>ssSubject = ''u'', ssCodeExpiry = 60, ssRefreshExpiry = 900,
       ssExtra = Some (no_claims\<lparr>exRefreshParent := parent\<rparr>)\<rparr>, rqRequestedAt = 1\<rparr>"

definition empty_issuer :: issuer_store where
  "empty_issuer = \<lparr>isCodes = NewAuthorizationCodeStore, isPKCE = NewPKCESessionStore, isRefresh = NewRefreshTokenSessionStore,
     isReplays = NewClientAssertionReplayStore, isCredentials = NewClientCredentialStore\<rparr>"

definition demo_issued :: issuer_store where
  "demo_issued = snd (CreateAuthorizeCodeSession None ''i'' 1 ''h'' (demo_request None) empty_issuer)"

lemma empty_issuer_ok: "stores_ok empty_issuer"
  by (simp add: stores_ok_def empty_issuer_def NewAuthorizationCodeStore_def NewRefreshTokenSessionStore_def cs_invar_def)

lemma demo_issued_ok: "stores_ok demo_issued"
  unfolding demo_issued_def
  by (rule step_ok [OF issuer_step.create_code [OF _ prod.collapse [symmetric]] empty_issuer_ok])
    (simp add: fresh_code_id_def empty_issuer_def NewAuthorizationCodeStore_def)

lemmas demo_issuer_simps = demo_agent_def demo_env_def demo_client_def demo_request_def empty_issuer_def
  NewAuthorizationCodeStore_def NewRefreshTokenSessionStore_def NewClientCredentialStore_def no_claims_def extractAgentID_def
  uuid_nil_def stored_code_def cs_Create_def cs_FindByCodeHash_def cs_MarkUsed_def code_client_def code_request_def
  time_after_def GetClient_def Agent_ClientType_def cred_GetByAgentID_def session_claims_def refresh_grant_def refresh_parent_def
  new_refresh_session_def sessionProfile_def refresh_auth_method_def RefreshTokenSession_Validate_def time_is_zero_def
  refresh_createLocked_def refresh_MarkUsed_def refresh_Create_def Let_def

text \<open>
  An authorization code is spent for good: once the storage has invalidated it, no later step of
  the issuer short of issuing a code with the same signature brings it back. A later exchange gets
  an error, and gets the stored request, for the library to revoke its tokens, only together with
  \<^verbatim>\<open>ErrInvalidatedAuthorizeCode\<close>.
\<close>

theorem invalidated_code_stays_invalid:
  assumes "stores_ok s" and "InvalidateAuthorizeCodeSession now now' h s = (None, s1)"
    and "issuer_run (\<lambda>ev. ev \<noteq> CodeIssued h) s1 s2"
    and "GetAuthorizeCodeSession env x t t' h s2 = (req, err, u)"
  shows "err \<noteq> None \<and> (req \<noteq> None \<longrightarrow> err = Some ErrInvalidatedAuthorizeCode)"
proof -
  have "stores_ok s1" by (rule step_ok [OF issuer_step.invalidate_code [OF assms(2)] assms(1)])
  moreover have "code_spent h (isCodes s1)"
    using Invalidate_spends [OF _ assms(2)] assms(1) by (simp add: stores_ok_def)
  ultimately have "code_spent h (isCodes s2)" by (rule run_code_spent [OF assms(3)])
  with assms(4) show ?thesis
    by (auto simp: GetAuthorizeCodeSession_def cs_FindByCodeHash_def code_spent_def cs_abs_def
        split: option.splits if_splits sum.splits)
qed

theorem invalidated_code_stays_invalid_witness:
  "fst (snd (GetAuthorizeCodeSession demo_env None 3 3 ''h'' (snd (InvalidateAuthorizeCodeSession 2 2 ''h'' demo_issued)))) \<noteq> None"
proof -
  let ?s = "snd (InvalidateAuthorizeCodeSession 2 2 ''h'' demo_issued)"
  have i: "InvalidateAuthorizeCodeSession 2 2 ''h'' demo_issued = (None, ?s)"
    by (simp add: InvalidateAuthorizeCodeSession_def demo_issued_def CreateAuthorizeCodeSession_def demo_issuer_simps)
  have "GetAuthorizeCodeSession demo_env None 3 3 ''h'' ?s =
      (fst (GetAuthorizeCodeSession demo_env None 3 3 ''h'' ?s), fst (snd (GetAuthorizeCodeSession demo_env None 3 3 ''h'' ?s)),
       snd (snd (GetAuthorizeCodeSession demo_env None 3 3 ''h'' ?s)))" by simp
  from invalidated_code_stays_invalid [OF demo_issued_ok i issuer_run.start this] show ?thesis by blast
qed

text \<open>
  C16. A revoked refresh token is dead. Take any token of a request at the moment the storage revokes
  that request, be it unused, rotated, or rotated by a token request that is still running. Whatever
  the issuer does next, short of storing a token under the same signature again: the token is
  refused, it cannot be rotated, and no successor of it is stored, so the request that had rotated
  it before the revocation gets nothing. Other calls may meanwhile start a new chain under the same
  request id, as an exchange of its authorization code does that was under way at the revocation;
  the tokens of that chain were not there to be revoked and are not spoken of.
\<close>

theorem revoked_token_stays_dead:
  assumes "stores_ok s" and "map_of (isRefresh s) sig = Some x" and "RevokeRefreshToken now (rtRequestID (reSession x)) s = (e, s1)"
    and "issuer_run (\<lambda>ev. \<forall>i. ev \<noteq> ChainStarted i sig \<and> ev \<noteq> ChainContinued i sig) s1 s2"
  shows "(\<forall>env t. snd (fst (GetRefreshTokenSession env t sig s2)) \<noteq> None \<and>
      (fst (fst (GetRefreshTokenSession env t sig s2)) \<noteq> None \<longrightarrow>
       snd (fst (GetRefreshTokenSession env t sig s2)) = Some ErrInactiveToken)) \<and>
    (\<forall>t. fst (RotateRefreshToken t sig s2) = Some ErrNotFound \<and> isRefresh (snd (RotateRefreshToken t sig s2)) = isRefresh s2) \<and>
    (\<forall>env pk t sig' req. refresh_parent req = sig \<longrightarrow> sig \<noteq> [] \<longrightarrow>
      fst (CreateRefreshTokenSession env pk t sig' req s2) \<noteq> None \<and>
      isRefresh (snd (CreateRefreshTokenSession env pk t sig' req s2)) = isRefresh s2)"
proof -
  have "stores_ok s1" by (rule step_ok [OF issuer_step.revoke_refresh [OF assms(3)] assms(1)])
  from run_token_dead [OF assms(4) this RevokeRefresh_token [OF assms(3,2)]] have dead: "token_dead sig (isRefresh s2)" .
  have "snd (fst (GetRefreshTokenSession env t sig s2)) \<noteq> None \<and>
      (fst (fst (GetRefreshTokenSession env t sig s2)) \<noteq> None \<longrightarrow> snd (fst (GetRefreshTokenSession env t sig s2)) = Some ErrInactiveToken)"
    for env t
    using dead by (auto simp: token_dead_def GetRefreshTokenSession_def refresh_FindBySignature_def Let_def mapStorageError_def
        split: option.splits sum.splits)
  moreover have "fst (RotateRefreshToken t sig s2) = Some ErrNotFound \<and> isRefresh (snd (RotateRefreshToken t sig s2)) = isRefresh s2" for t
    using dead by (auto simp: token_dead_def RotateRefreshToken_def refresh_MarkUsed_def mapStorageError_def split: option.splits)
  moreover have "fst (CreateRefreshTokenSession env pk t sig' req s2) \<noteq> None \<and>
      isRefresh (snd (CreateRefreshTokenSession env pk t sig' req s2)) = isRefresh s2"
    if "refresh_parent req = sig" "sig \<noteq> []" for env pk t sig' req
    by (rule dead_parent_refused) (use that dead in simp_all)
  ultimately show ?thesis by blast
qed

theorem revoked_token_stays_dead_witness:
  "let s0 = snd (CreateRefreshTokenSession demo_env False 1 ''t1'' (demo_request None) empty_issuer);
       s1 = snd (RotateRefreshToken 2 ''t1'' s0);
       s2 = snd (RevokeRefreshToken 3 ''q'' s1);
       s3 = snd (CreateRefreshTokenSession demo_env False 4 ''t3'' (demo_request None) s2)
   in map_of (isRefresh s3) ''t3'' \<noteq> None \<and> fst (RotateRefreshToken 5 ''t1'' s3) = Some ErrNotFound \<and>
      fst (CreateRefreshTokenSession demo_env False 5 ''t2'' (demo_request (Some ''t1'')) s3) \<noteq> None"
proof -
  let ?s0 = "snd (CreateRefreshTokenSession demo_env False 1 ''t1'' (demo_request None) empty_issuer)"
  let ?s1 = "snd (RotateRefreshToken 2 ''t1'' ?s0)"
  let ?s2 = "snd (RevokeRefreshToken 3 ''q'' ?s1)"
  let ?s3 = "snd (CreateRefreshTokenSession demo_env False 4 ''t3'' (demo_request None) ?s2)"
  let ?ok = "\<lambda>ev. \<forall>i. ev \<noteq> ChainStarted i ''t1'' \<and> ev \<noteq> ChainContinued i ''t1''"
  have parent: "refresh_parent (demo_request None) = []" "refresh_parent (demo_request (Some ''t1'')) = ''t1''"
    by (simp_all add: refresh_parent_def session_claims_def demo_request_def no_claims_def)
  have "stores_ok ?s0" by (rule step_ok [OF issuer_step.start_chain [OF prod.collapse [symmetric] parent(1)] empty_issuer_ok])
  then have ok: "stores_ok ?s1" by (rule step_ok [OF issuer_step.rotate_refresh [OF prod.collapse [symmetric]]])
  have m: "map_option (\<lambda>x. rtRequestID (reSession x)) (map_of (isRefresh ?s1) ''t1'') = Some ''q''"
    by (simp add: RotateRefreshToken_def CreateRefreshTokenSession_def demo_issuer_simps)
  then obtain x where x: "map_of (isRefresh ?s1) ''t1'' = Some x" "rtRequestID (reSession x) = ''q''" by auto
  have start: "issuer_step (ChainStarted (rqID (demo_request None)) ''t3'') ?s2 ?s3"
    by (rule issuer_step.start_chain [OF prod.collapse [symmetric] parent(1)])
  have "issuer_run ?ok ?s2 ?s3" by (rule issuer_run.step [OF issuer_run.start start]) simp
  note dead = revoked_token_stays_dead [OF ok x(1), unfolded x(2), OF prod.collapse [symmetric] this]
  have "fst (RotateRefreshToken 5 ''t1'' ?s3) = Some ErrNotFound"
    "fst (CreateRefreshTokenSession demo_env False 5 ''t2'' (demo_request (Some ''t1'')) ?s3) \<noteq> None"
    using dead parent(2) by blast+
  moreover have "map_of (isRefresh ?s3) ''t3'' \<noteq> None"
    by (simp add: RevokeRefreshToken_def refresh_RevokeByRequestID_def revoke_entry_def RotateRefreshToken_def
        CreateRefreshTokenSession_def demo_issuer_simps)
  ultimately show ?thesis by (simp add: Let_def)
qed

text \<open>
  C24. A refresh token is rotated at most once: after a rotation has succeeded, every later rotation of
  the same token fails with \<^verbatim>\<open>ErrNotFound\<close>, whatever concurrent requests did in between.
\<close>

theorem refresh_token_rotates_once:
  assumes "stores_ok s" and "RotateRefreshToken now sig s = (None, s1)"
    and "issuer_run (\<lambda>ev. \<forall>i. ev \<noteq> ChainStarted i sig \<and> ev \<noteq> ChainContinued i sig) s1 s2"
  shows "fst (RotateRefreshToken t sig s2) = Some ErrNotFound \<and> isRefresh (snd (RotateRefreshToken t sig s2)) = isRefresh s2"
proof -
  have "stores_ok s1" by (rule step_ok [OF issuer_step.rotate_refresh [OF assms(2)] assms(1)])
  from run_token_spent [OF assms(3) this Rotate_spends [OF assms(2)]] show ?thesis
    by (auto simp: token_spent_def RotateRefreshToken_def refresh_MarkUsed_def mapStorageError_def split: option.splits)
qed

theorem refresh_token_rotates_once_witness:
  "let s0 = snd (CreateRefreshTokenSession demo_env False 1 ''t1'' (demo_request None) empty_issuer);
       s1 = snd (RotateRefreshToken 2 ''t1'' s0)
   in fst (RotateRefreshToken 2 ''t1'' s0) = None \<and> fst (RotateRefreshToken 3 ''t1'' s1) = Some ErrNotFound"
proof -
  let ?s0 = "snd (CreateRefreshTokenSession demo_env False 1 ''t1'' (demo_request None) empty_issuer)"
  have parent: "refresh_parent (demo_request None) = []"
    by (simp add: refresh_parent_def session_claims_def demo_request_def no_claims_def)
  have ok: "stores_ok ?s0" by (rule step_ok [OF issuer_step.start_chain [OF prod.collapse [symmetric] parent] empty_issuer_ok])
  have "fst (RotateRefreshToken 2 ''t1'' ?s0) = None"
    by (simp add: RotateRefreshToken_def CreateRefreshTokenSession_def demo_issuer_simps)
  then have r: "RotateRefreshToken 2 ''t1'' ?s0 = (None, snd (RotateRefreshToken 2 ''t1'' ?s0))" by (metis prod.collapse)
  from refresh_token_rotates_once [OF ok r issuer_run.start, of 3] r show ?thesis by (simp add: Let_def) (metis fst_conv)
qed

lemma cs_Create_find:
  "cs_Create c s = (None, s') \<Longrightarrow> t < acExpiresAt c \<Longrightarrow> cs_FindByCodeHash t (acCodeHash c) s' = Inr c"
  by (auto simp: cs_Create_def cs_FindByCodeHash_def go_map_simps time_after_def split: if_splits)

text \<open>
  C28. What the authorization endpoint stored is what the token endpoint gets: until the code expires
  or is spent, the exchange by the same client returns the subject, redirect URI, code challenge
  and scopes of the original request.
\<close>

theorem code_round_trip:
  assumes "CreateAuthorizeCodeSession profile newID now code req s = (None, s')"
    and "rqForm req ''client_id'' = GetID (rqClient req)" and "GetID (rqClient req) \<noteq> []"
    and "\<forall>i a c. rqClient req = confidentialClient i a c \<longrightarrow> Inr (ccAgentID c) = extractAgentID (rqClient req)"
    and "\<forall>x \<in> set (rqRequestedScopes req). x \<noteq> [] \<and> CHR '' '' \<notin> set x"
    and "t < ssCodeExpiry (rqSession req)" and "t' < ssCodeExpiry (rqSession req)"
  shows "\<exists>out. GetAuthorizeCodeSession env (Some (rqClient req)) t t' code s' = (Some out, None, Some (ssCodeExpiry (rqSession req))) \<and>
    rqClient out = rqClient req \<and> ssSubject (rqSession out) = ssSubject (rqSession req) \<and>
    rqForm out ''redirect_uri'' = rqForm req ''redirect_uri'' \<and>
    rqForm out ''code_challenge'' = rqForm req ''code_challenge'' \<and>
    rqRequestedScopes out = rqRequestedScopes req \<and> rqGrantedScopes out = rqRequestedScopes req"
proof -
  from assms(1) obtain agentID where a: "extractAgentID (rqClient req) = Inr agentID"
    by (auto simp: CreateAuthorizeCodeSession_def split: sum.splits)
  let ?c = "stored_code req profile newID now agentID code"
  from assms(1) a have n: "cs_Create ?c (isCodes s) = (None, isCodes s')"
    by (auto simp: CreateAuthorizeCodeSession_def split: prod.splits option.splits)
  then have f: "cs_FindByCodeHash t code (isCodes s') = Inr ?c"
    using cs_Create_find [OF n, of t] assms(6) by (simp add: stored_code_def)
  have "code_client env (Some (rqClient req)) ?c s' = Inr (rqClient req)"
    using a assms(2-4) by (auto simp: code_client_def stored_code_def split: oauth_client.splits)
  with f assms(7) have "GetAuthorizeCodeSession env (Some (rqClient req)) t t' code s' =
      (Some (code_request ?c (rqClient req)), None, Some (ssCodeExpiry (rqSession req)))"
    by (simp add: GetAuthorizeCodeSession_def stored_code_def time_after_def)
  moreover have "SplitScope (acScope ?c) = rqRequestedScopes req"
    using SplitScope_Join [OF assms(5)] by (simp add: stored_code_def)
  ultimately show ?thesis by (simp add: code_request_def code_form_def) (simp add: stored_code_def)
qed

theorem code_round_trip_witness:
  "\<exists>out. GetAuthorizeCodeSession demo_env (Some demo_client) 2 2 ''h'' demo_issued = (Some out, None, Some 60) \<and>
     rqRequestedScopes out = [''openid'', ''offline'']"
proof -
  have c: "CreateAuthorizeCodeSession None ''i'' 1 ''h'' (demo_request None) empty_issuer = (None, demo_issued)"
    by (simp add: demo_issued_def CreateAuthorizeCodeSession_def demo_issuer_simps)
  have r: "rqClient (demo_request None) = demo_client" "ssCodeExpiry (rqSession (demo_request None)) = 60"
    "rqRequestedScopes (demo_request None) = [''openid'', ''offline'']" by (simp_all add: demo_request_def)
  have "\<exists>out. GetAuthorizeCodeSession demo_env (Some (rqClient (demo_request None))) 2 2 ''h'' demo_issued =
      (Some out, None, Some (ssCodeExpiry (rqSession (demo_request None)))) \<and>
    rqClient out = rqClient (demo_request None) \<and> ssSubject (rqSession out) = ssSubject (rqSession (demo_request None)) \<and>
    rqForm out ''redirect_uri'' = rqForm (demo_request None) ''redirect_uri'' \<and>
    rqForm out ''code_challenge'' = rqForm (demo_request None) ''code_challenge'' \<and>
    rqRequestedScopes out = rqRequestedScopes (demo_request None) \<and> rqGrantedScopes out = rqRequestedScopes (demo_request None)"
    by (rule code_round_trip [OF c]) (simp_all add: demo_request_def demo_client_def)
  then show ?thesis unfolding r by blast
qed

section \<open>Concurrent exchanges of one code\<close>

text \<open>
  The in-memory \<^verbatim>\<open>MarkUsed\<close> does not look whether the code is used already, so two token
  requests that have both read a code before either has invalidated it both go on to invalidate it
  without an error: the second invalidation is no single-use check. The PostgreSQL repository has
  the condition \<^verbatim>\<open>used_at IS NULL\<close> in its update.
\<close>

theorem concurrent_exchanges_both_invalidate:
  assumes "stores_ok s" and "GetAuthorizeCodeSession env x t t' h s = (Some req, None, u)"
    and "time_after (the u) t2"
  shows "\<exists>s1 s2. InvalidateAuthorizeCodeSession t2 n h s = (None, s1) \<and> InvalidateAuthorizeCodeSession t2 n' h s1 = (None, s2)"
proof -
  from assms(1) have inv: "cs_invar (isCodes s)" by (simp add: stores_ok_def)
  from assms(2) obtain a where a: "map_of (csByCodeHash (isCodes s)) h = Some a" "u = Some (acExpiresAt (csHeap (isCodes s) ! a))"
    by (auto simp: GetAuthorizeCodeSession_def cs_FindByCodeHash_def split: option.splits if_splits sum.splits)
  note d = cs_hashD [OF inv a(1)]
  from assms(3) a(2) have e: "time_after (acExpiresAt (csHeap (isCodes s) ! a)) t2" by simp
  show ?thesis
    using d a(1) e by (auto simp: InvalidateAuthorizeCodeSession_def cs_FindByCodeHash_def cs_MarkUsed_def)
qed

theorem concurrent_exchanges_both_invalidate_witness:
  "\<exists>s1 s2. InvalidateAuthorizeCodeSession 3 3 ''h'' demo_issued = (None, s1) \<and>
     InvalidateAuthorizeCodeSession 3 4 ''h'' s1 = (None, s2)"
proof -
  have "GetAuthorizeCodeSession demo_env (Some demo_client) 2 2 ''h'' demo_issued =
      (Some (the (fst (GetAuthorizeCodeSession demo_env (Some demo_client) 2 2 ''h'' demo_issued))), None, Some 60)"
    by (simp add: GetAuthorizeCodeSession_def demo_issued_def CreateAuthorizeCodeSession_def demo_issuer_simps)
  from concurrent_exchanges_both_invalidate [OF demo_issued_ok this, of 3 3 4] show ?thesis
    by (simp add: time_after_def)
qed

end
