(* ===== verification/Consent_Laws.thy ===== *)
theory Consent_Laws
  imports Consent_Service Issuer_Runs
begin

text \<open>
  What the consent service guarantees over any repository of grants that keeps the contract
  \<open>grant_repository\<close>, and together with the token issuer: what a stored grant may contain, that
  a refused request changes no grant, and that a revoked grant never supports a token again.
\<close>

section \<open>What a submission must satisfy\<close>

lemma index_by_snoc: "index_by k v (xs @ [x]) = AList.update (k x) (v x) (index_by k v xs)"
  by (simp add: index_by_def)

lemma index_by_Some: "map_of (index_by k v xs) key = Some y \<Longrightarrow> \<exists>x \<in> set xs. k x = key \<and> v x = y"
  by (induction xs rule: rev_induct) (auto simp: index_by_snoc go_map_simps index_by_def [of _ _ "[]"] split: if_splits)

lemma index_by_None: "map_of (index_by k v xs) key = None \<longleftrightarrow> key \<notin> k ` set xs"
  by (induction xs rule: rev_induct) (auto simp: index_by_snoc go_map_simps index_by_def [of _ _ "[]"])

lemma inclusion_loop_None:
  "inclusion_loop m entries = None \<longleftrightarrow>
   (\<forall>(psid, services) \<in> set entries. \<exists>valid. map_of m psid = Some valid \<and> set services \<subseteq> set valid)"
  by (induction m entries rule: inclusion_loop.induct) (auto simp: find_None_iff dest!: find_SomeD split: option.splits)

lemma structure_loop_None:
  "structure_loop valid mandatory entries = None \<longleftrightarrow>
   (\<forall>(psid, services) \<in> set entries. \<forall>v. map_of valid psid = Some v \<longrightarrow>
      set services \<subseteq> set v \<and> set (mandatory psid) \<subseteq> set services)"
proof (induction valid mandatory entries rule: structure_loop.induct)
  case (2 valid mandatory psid services entries)
  show ?case
  proof (cases "map_of valid psid")
    case (Some v)
    show ?thesis
    proof (cases "set services \<subseteq> set v \<and> set (mandatory psid) \<subseteq> set services")
      case True
      then have "\<not> list_ex (\<lambda>svc. \<not> List.member v svc) services" "\<not> list_ex (\<lambda>svc. \<not> List.member services svc) (mandatory psid)"
        by (auto simp: list_ex_iff)
      with 2(2) [OF Some] True Some show ?thesis by simp
    next
      case False
      with Some show ?thesis by (auto simp: list_ex_iff)
    qed
  qed (use 2(1) in simp)
qed simp

text \<open>One entry of a grant: its permission set is declared by the agent, its services belong to the
  set and to the agent's requirements and have a session, and the mandatory services are there.\<close>

definition entry_within :: "Agent \<Rightarrow> PermissionSet list \<Rightarrow> service_id list \<Rightarrow> GrantedPermissionSetEntry \<Rightarrow> bool" where
  "entry_within agent resolved active entry \<longleftrightarrow>
     fst entry \<in> apPermissionSetID ` set (agPermissionSets agent) \<and> set (snd entry) \<subseteq> set active \<and>
     (\<exists>ps \<in> set resolved. psID ps = fst entry \<and>
        (\<forall>svc \<in> set (snd entry). \<exists>ss \<in> set (psServiceScopes ps). scServiceID ss = svc \<and> usable_scope agent ss) \<and>
        (\<forall>ss \<in> set (psServiceScopes ps). usable_scope agent ss \<and> mandatory_scope agent ss \<longrightarrow> scServiceID ss \<in> set (snd entry)))"

definition submission_within :: "Agent \<Rightarrow> PermissionSet list \<Rightarrow> service_id list \<Rightarrow> GrantedPermissionSetEntry list \<Rightarrow> bool" where
  "submission_within agent resolved active entries \<longleftrightarrow>
     entries \<noteq> [] \<and> (\<forall>entry \<in> set entries. entry_within agent resolved active entry) \<and>
     (\<forall>aps \<in> set (agPermissionSets agent). apRequirementType aps = RequirementTypeMandatory \<longrightarrow>
        apPermissionSetID aps \<in> fst ` set entries)"

lemma validateScopeInclusion_resolved:
  assumes "validateScopeInclusionWithResolved entries resolved = None" and "entry \<in> set entries"
  shows "fst entry \<in> psID ` set resolved"
proof -
  from assms obtain v where "map_of (index_by psID (\<lambda>ps. map scServiceID (psServiceScopes ps)) resolved) (fst entry) = Some v"
    by (cases entry) (fastforce simp: validateScopeInclusionWithResolved_def inclusion_loop_None split: if_splits)
  then show ?thesis using index_by_None [of psID _ resolved "fst entry"] by (metis option.distinct(1))
qed

lemma validateGrantStructure_None:
  assumes "validateGrantStructureWithResolved agent entries resolved = None"
  shows "entries \<noteq> []" "\<forall>entry \<in> set entries. fst entry \<in> apPermissionSetID ` set (agPermissionSets agent)"
    "\<forall>aps \<in> set (agPermissionSets agent). apRequirementType aps = RequirementTypeMandatory \<longrightarrow> apPermissionSetID aps \<in> fst ` set entries"
    "structure_loop (psValidServices agent resolved) (psMandatoryServices agent resolved) entries = None"
  using assms
  by (auto simp: validateGrantStructureWithResolved_def Let_def find_None_iff index_by_None filter_empty_conv split: if_splits option.splits)

lemma structure_within:
  assumes st: "structure_loop (psValidServices agent resolved) (psMandatoryServices agent resolved) entries = None"
    and e: "entry \<in> set entries" and r: "fst entry \<in> psID ` set resolved"
  shows "\<exists>ps \<in> set resolved. psID ps = fst entry \<and>
    (\<forall>svc \<in> set (snd entry). \<exists>ss \<in> set (psServiceScopes ps). scServiceID ss = svc \<and> usable_scope agent ss) \<and>
    (\<forall>ss \<in> set (psServiceScopes ps). usable_scope agent ss \<and> mandatory_scope agent ss \<longrightarrow> scServiceID ss \<in> set (snd entry))"
proof -
  obtain psid services where entry: "entry = (psid, services)" by force
  from r obtain v where v: "map_of (psValidServices agent resolved) psid = Some v"
    using index_by_None [of psID "\<lambda>ps. map scServiceID (filter (usable_scope agent) (psServiceScopes ps))" resolved psid]
    by (auto simp: psValidServices_def entry)
  from index_by_Some [OF v [unfolded psValidServices_def]] obtain ps where ps: "ps \<in> set resolved" "psID ps = psid"
    and valid: "v = map scServiceID (filter (usable_scope agent) (psServiceScopes ps))" by blast
  from bspec [OF st [unfolded structure_loop_None] e] v have sub: "set services \<subseteq> set v" "set (psMandatoryServices agent resolved psid) \<subseteq> set services"
    by (simp_all add: entry)
  from sub(1) have "\<forall>svc \<in> set services. \<exists>ss \<in> set (psServiceScopes ps). scServiceID ss = svc \<and> usable_scope agent ss"
    by (auto simp: valid)
  moreover have "\<forall>ss \<in> set (psServiceScopes ps). usable_scope agent ss \<and> mandatory_scope agent ss \<longrightarrow> scServiceID ss \<in> set services"
    using sub(2) ps by (auto simp: psMandatoryServices_def)
  ultimately show ?thesis using ps by (auto simp: entry)
qed

lemma ValidateSubmission_None:
  "ValidateSubmission entries active = None \<Longrightarrow> entry \<in> set entries \<Longrightarrow> set (snd entry) \<subseteq> set active"
  by (auto simp: ValidateSubmission_def Let_def filter_empty_conv split: if_splits)

lemma consent_checks_within:
  assumes "consent_checks env req = None"
  shows "\<exists>agent resolved active. consent_agent env (grAgentID req) = Inr agent \<and>
    ceGetByIDs env (map fst (grGrantedPermissionSets req)) = Inr resolved \<and> ceListActiveServiceIDs env (grPrincipal req) = Inr active \<and>
    submission_within agent resolved active (grGrantedPermissionSets req)"
proof -
  let ?es = "grGrantedPermissionSets req"
  from assms obtain agent resolved where agent: "consent_agent env (grAgentID req) = Inr agent"
    and r: "(if map fst ?es = [] then Inr [] else ceGetByIDs env (map fst ?es)) = Inr resolved"
    and incl: "validateScopeInclusionWithResolved ?es resolved = None"
    and str: "validateGrantStructureWithResolved agent ?es resolved = None"
    and act: "?es = [] \<or> (\<exists>active. ceListActiveServiceIDs env (grPrincipal req) = Inr active \<and> ValidateSubmission ?es active = None)"
    by (auto simp: consent_checks_def Let_def split: sum.splits if_splits option.splits)
  note S = validateGrantStructure_None [OF str]
  from act S(1) obtain active where active: "ceListActiveServiceIDs env (grPrincipal req) = Inr active"
    and sub: "ValidateSubmission ?es active = None" by blast
  have "entry_within agent resolved active entry" if "entry \<in> set ?es" for entry
    unfolding entry_within_def
    using S(2) that ValidateSubmission_None [OF sub that] structure_within [OF S(4) that validateScopeInclusion_resolved [OF incl that]]
    by blast
  with S(1,3) have "submission_within agent resolved active ?es" by (simp add: submission_within_def)
  moreover from r S(1) have "ceGetByIDs env (map fst ?es) = Inr resolved" by simp
  ultimately show ?thesis using agent active by blast
qed

section \<open>The service over any repository\<close>

lemma revokeRefreshSessions_eq:
  "revokeRefreshSessions rv p a w = (e, w') \<Longrightarrow> cwGrants w' = cwGrants w \<and> (e = None \<longrightarrow> (\<exists>n. rv p a (cwRefresh w) = (Inr n, cwRefresh w'))) \<and>
   e \<noteq> Some ErrGrantNotFound"
  by (auto simp: revokeRefreshSessions_def split: prod.splits sum.splits)

context grant_repository
begin

lemma Verify_Inr:
  "invar st \<Longrightarrow> uuid_text a \<Longrightarrow> VerifyAgentAccess R now st p a = Inr g \<Longrightarrow> absg st (p, a) = Some g \<and> \<not> grant_expired now g"
  by (auto simp: VerifyAgentAccess_def dest: find_Inr split: sum.splits if_splits)

lemma Verify_gone:
  "invar st \<Longrightarrow> uuid_text a \<Longrightarrow> absg st (p, a) = None \<Longrightarrow> \<exists>e. VerifyAgentAccess R now st p a = Inl e"
  using Verify_Inr [of st a now p] by (cases "VerifyAgentAccess R now st p a") auto

lemma GetActiveGrants_iff:
  assumes "invar st" and "uuid_text a" and "GetActiveGrants R now st p a = Inr gs"
  shows "gs = (case absg st (p, a) of None \<Rightarrow> [] | Some g \<Rightarrow> if IsActive now g then [g] else [])"
proof -
  from assms(3) obtain l where l: "gpListByPrincipalAndAgent R p a st = Inr l" and gs: "gs = filter (IsActive now) l"
    by (auto simp: GetActiveGrants_def split: sum.splits)
  show ?thesis unfolding gs list_Inr [OF assms(1,2) l] by (simp split: option.splits)
qed

lemma create_grant_Inr:
  assumes inv: "invar (cwGrants w)" and uuid: "uuid_text (grAgentID req)" and id: "newID \<noteq> uuid_nil"
    and fresh: "fresh_grant_id (absg (cwGrants w)) newID" and none: "absg (cwGrants w) (grPrincipal req, grAgentID req) = None"
    and c: "create_grant R newID tc tu tv req w = (Inr g, w')"
  shows "invar (cwGrants w') \<and> absg (cwGrants w') = (absg (cwGrants w))((grPrincipal req, grAgentID req) \<mapsto> g) \<and>
    g = \<lparr>ugID = newID, ugPrincipal = grPrincipal req, ugAgentID = grAgentID req, ugValidUntil = grValidUntil req,
         ugGrantedPermissionSets = grGrantedPermissionSets req, ugCreatedAt = tc, ugUpdatedAt = tu\<rparr> \<and>
    UserGrant_ValidateForCreate tv g = None \<and> cwRefresh w' = cwRefresh w"
proof -
  let ?g = "\<lparr>ugID = newID, ugPrincipal = grPrincipal req, ugAgentID = grAgentID req, ugValidUntil = grValidUntil req,
      ugGrantedPermissionSets = grGrantedPermissionSets req, ugCreatedAt = tc, ugUpdatedAt = tu\<rparr>"
  from c obtain st where v: "UserGrant_ValidateForCreate tv ?g = None" and st: "gpCreate R newID ?g (cwGrants w) = (Inr g, st)"
    and w': "w' = w\<lparr>cwGrants := st\<rparr>"
    by (auto simp: create_grant_def Let_def split: option.splits prod.splits sum.splits)
  from create_Inr [OF inv _ _ _ st] uuid id fresh none have "invar st \<and> absg st = (absg (cwGrants w))((grPrincipal req, grAgentID req) \<mapsto> g) \<and> g = ?g"
    by simp
  with v show ?thesis by (simp add: w')
qed

lemma renew_grant_Inr:
  assumes inv: "invar (cwGrants w)" and old: "absg (cwGrants w) (grPrincipal req, grAgentID req) = Some old"
    and c: "renew_grant R rv tn tu tv req old w = (Inr g, w')"
  shows "invar (cwGrants w') \<and> absg (cwGrants w') = (absg (cwGrants w))((grPrincipal req, grAgentID req) \<mapsto> g) \<and>
    g = old\<lparr>ugValidUntil := grValidUntil req, ugGrantedPermissionSets := grGrantedPermissionSets req, ugUpdatedAt := tu\<rparr> \<and>
    UserGrant_Validate tv g = None \<and>
    (if grant_expired tn old then \<exists>n. rv (grPrincipal req) (grAgentID req) (cwRefresh w) = (Inr n, cwRefresh w')
     else cwRefresh w' = cwRefresh w)"
proof -
  let ?g = "old\<lparr>ugValidUntil := grValidUntil req, ugGrantedPermissionSets := grGrantedPermissionSets req, ugUpdatedAt := tu\<rparr>"
  from pair_of [OF inv old] have pair: "grant_pair ?g = (grPrincipal req, grAgentID req)" by simp
  from c obtain w1 st where v: "UserGrant_Validate tv ?g = None"
    and w1: "(if grant_expired tn old then revokeRefreshSessions rv (grPrincipal req) (grAgentID req) w else (None, w)) = (None, w1)"
    and st: "gpUpdate R ?g (cwGrants w1) = (Inr g, st)" and w': "w' = w1\<lparr>cwGrants := st\<rparr>"
    by (auto simp: renew_grant_def Let_def split: option.splits prod.splits sum.splits)
  from w1 have same: "cwGrants w1 = cwGrants w" using revokeRefreshSessions_eq [of rv _ _ w None w1] by (auto split: if_splits)
  have "k = grant_pair ?g" if "absg (cwGrants w) k = Some h" "ugID h = ugID ?g" for k h
    unfolding pair using one_id [OF inv that(1) old] that(2) by simp
  from update_Inr [OF inv this st [unfolded same]] old
  have "invar st \<and> absg st = (absg (cwGrants w))((grPrincipal req, grAgentID req) \<mapsto> g) \<and> g = ?g" unfolding pair by auto
  with v w1 show ?thesis using revokeRefreshSessions_eq [of rv _ _ w None w1] by (auto simp: w' split: if_splits)
qed

text \<open>What a successful \<^verbatim>\<open>GrantConsent\<close> stored.\<close>

lemma GrantConsent_Inr:
  assumes inv: "invar (cwGrants w)" and uuid: "uuid_text (grAgentID req)" and id: "newID \<noteq> uuid_nil"
    and fresh: "fresh_grant_id (absg (cwGrants w)) newID"
    and g: "GrantConsent R rv env newID tn tc tu tv req w = (Inr g, w')"
  shows "consent_checks env req = None \<and> invar (cwGrants w') \<and>
    absg (cwGrants w') = (absg (cwGrants w))((grPrincipal req, grAgentID req) \<mapsto> g) \<and> grantMatchesRequest g req \<and>
    (case absg (cwGrants w) (grPrincipal req, grAgentID req) of
       None \<Rightarrow> ugID g = newID \<and> cwRefresh w' = cwRefresh w
     | Some old \<Rightarrow> ugID g = ugID old \<and> ugCreatedAt g = ugCreatedAt old \<and>
         (if grantMatchesRequest old req then w' = w
          else if grant_expired tn old then \<exists>n. rv (grPrincipal req) (grAgentID req) (cwRefresh w) = (Inr n, cwRefresh w')
          else cwRefresh w' = cwRefresh w))"
proof -
  from g have chk: "consent_checks env req = None" by (auto simp: GrantConsent_def split: option.splits)
  show ?thesis
  proof (cases "gpFindByPrincipalAndAgent R (grPrincipal req) (grAgentID req) (cwGrants w)")
    case (Inl e)
    with g chk have nf: "seKind e = ErrorKindNotFound" and c: "create_grant R newID tc tu tv req w = (Inr g, w')"
      by (auto simp: GrantConsent_def split: if_splits)
    note none = find_missing [OF inv uuid Inl nf]
    from create_grant_Inr [OF inv uuid id fresh none c] none chk show ?thesis by (simp add: grantMatchesRequest_def)
  next
    case (Inr old)
    note some = find_Inr [OF inv uuid Inr]
    show ?thesis
    proof (cases "grantMatchesRequest old req")
      case True
      with g chk Inr have "g = old" "w' = w" by (simp_all add: GrantConsent_def)
      with some inv chk True show ?thesis by (simp add: fun_upd_idem)
    next
      case False
      with g chk Inr have c: "renew_grant R rv tn tu tv req old w = (Inr g, w')" by (simp add: GrantConsent_def)
      from renew_grant_Inr [OF inv some c] have "grantMatchesRequest g req" by (simp add: grantMatchesRequest_def)
      with renew_grant_Inr [OF inv some c] some chk False show ?thesis by simp
    qed
  qed
qed

lemma GrantConsent_Inl:
  assumes "GrantConsent R rv env newID tn tc tu tv req w = (Inl e, w')"
  shows "cwGrants w' = cwGrants w"
proof -
  have c: "create_grant R newID tc tu tv req w = (Inl e, w') \<Longrightarrow> cwGrants w' = cwGrants w"
    by (auto simp: create_grant_def Let_def dest: create_Inl split: option.splits prod.splits sum.splits)
  have v: "cwGrants w1 = cwGrants w" if "(if b then revokeRefreshSessions rv p a w else (None, w)) = (x, w1)" for b p a x w1
    using that revokeRefreshSessions_eq [of rv p a w x w1] by (simp split: if_splits)
  have r: "cwGrants w' = cwGrants w" if rn: "renew_grant R rv tn tu tv req old w = (Inl e, w')" for old
  proof (cases "if grant_expired tn old then revokeRefreshSessions rv (grPrincipal req) (grAgentID req) w else (None, w)")
    case (Pair x w1)
    from v [OF Pair] rn show ?thesis unfolding renew_grant_def Let_def Pair
      by (auto dest: update_Inl split: option.splits prod.splits sum.splits)
  qed
  from assms c r show ?thesis by (auto simp: GrantConsent_def split: option.splits sum.splits if_splits)
qed

text \<open>What a revocation did: it deleted the grant and revoked the sessions, or found none.\<close>

lemma RevokeConsentForPrincipal_None:
  assumes inv: "invar (cwGrants w)" and uuid: "uuid_text a" and r: "RevokeConsentForPrincipal R rv p a w = (None, w')"
  shows "invar (cwGrants w') \<and> (\<exists>g. absg (cwGrants w) (p, a) = Some g) \<and> absg (cwGrants w') = (absg (cwGrants w))((p, a) := None) \<and>
    (\<exists>n. rv p a (cwRefresh w) = (Inr n, cwRefresh w'))"
proof -
  from r obtain g st where d: "gpDeleteByPrincipalAndAgentID R p a (cwGrants w) = (Inr g, st)"
    and s: "revokeRefreshSessions rv p a (w\<lparr>cwGrants := st\<rparr>) = (None, w')"
    by (auto simp: RevokeConsentForPrincipal_def split: prod.splits sum.splits)
  from delete_Inr [OF inv uuid d] revokeRefreshSessions_eq [OF s] show ?thesis by auto
qed

lemma RevokeConsent_None:
  assumes inv: "invar (cwGrants w)" and uuid: "uuid_text a" and r: "RevokeConsent R rv p a w = (None, w')"
  shows "invar (cwGrants w') \<and> absg (cwGrants w') = (absg (cwGrants w))((p, a) := None) \<and>
    (\<exists>n. rv p a (cwRefresh w) = (Inr n, cwRefresh w'))"
proof (cases "RevokeConsentForPrincipal R rv p a w")
  case (Pair e w1)
  show ?thesis
  proof (cases "e = Some ErrGrantNotFound")
    case True
    then obtain er st where d: "gpDeleteByPrincipalAndAgentID R p a (cwGrants w) = (Inl er, st)" and nf: "seKind er = ErrorKindNotFound"
      and w1: "w1 = w\<lparr>cwGrants := st\<rparr>"
      using Pair revokeRefreshSessions_eq [of rv p a _ e w1]
      by (auto simp: RevokeConsentForPrincipal_def split: prod.splits sum.splits if_splits)
    from delete_Inl [OF d] w1 have w1': "w1 = w" by simp
    from True r Pair have "revokeRefreshSessions rv p a w = (None, w')" by (simp add: RevokeConsent_def w1')
    from revokeRefreshSessions_eq [OF this] delete_missing [OF inv uuid d nf] inv show ?thesis by (simp add: fun_upd_idem)
  next
    case False
    with r Pair have "RevokeConsentForPrincipal R rv p a w = (None, w')" by (auto simp: RevokeConsent_def)
    from RevokeConsentForPrincipal_None [OF inv uuid this] show ?thesis by blast
  qed
qed

end

section \<open>Histories of consent and tokens\<close>

text \<open>Grants and issuer stores change by the calls of concurrent requests: writes to the grant
  repository, and the steps of the issuer, among them the revocation of a pair's sessions. A grant
  is written with a new identifier or over the version that was read for the same pair.\<close>

record consent_system =
  cyGrants :: grant_store
  cyIssuer :: issuer_store

datatype consent_event = GrantCreated string | OtherEvent

inductive consent_step :: "consent_event \<Rightarrow> consent_system \<Rightarrow> consent_system \<Rightarrow> bool" where
  create: "uuid_text (ugAgentID g) \<Longrightarrow> ugID g \<noteq> uuid_nil \<Longrightarrow> fresh_grant_id (grant_abs (cyGrants y)) (ugID g) \<Longrightarrow>
    gpCreate memory_grant_port newID g (cyGrants y) = (r, st) \<Longrightarrow> consent_step (GrantCreated (ugID g)) y (y\<lparr>cyGrants := st\<rparr>)"
| update: "(\<And>k old. grant_abs (cyGrants y) k = Some old \<Longrightarrow> ugID old = ugID g \<Longrightarrow> k = grant_pair g) \<Longrightarrow>
    gpUpdate memory_grant_port g (cyGrants y) = (r, st) \<Longrightarrow> consent_step OtherEvent y (y\<lparr>cyGrants := st\<rparr>)"
| remove: "uuid_text a \<Longrightarrow> gpDeleteByPrincipalAndAgentID memory_grant_port p a (cyGrants y) = (r, st) \<Longrightarrow>
    consent_step OtherEvent y (y\<lparr>cyGrants := st\<rparr>)"
| issuer: "issuer_step ev (cyIssuer y) s \<Longrightarrow> consent_step OtherEvent y (y\<lparr>cyIssuer := s\<rparr>)"

inductive consent_run :: "(consent_event \<Rightarrow> bool) \<Rightarrow> consent_system \<Rightarrow> consent_system \<Rightarrow> bool" for allowed y where
  start: "consent_run allowed y y"
| step: "consent_run allowed y y' \<Longrightarrow> consent_step ev y' y'' \<Longrightarrow> allowed ev \<Longrightarrow> consent_run allowed y y''"

lemma consent_step_invar:
  assumes "consent_step ev y y'" and "grant_invar (cyGrants y)"
  shows "grant_invar (cyGrants y')"
  using assms
proof (induction rule: consent_step.induct)
  case (create g y newID r st)
  then show ?case using mem_grants.create_Inr [of "cyGrants y" g newID _ st] mem_grants.create_Inl [of newID g "cyGrants y" _ st]
    by (cases r) auto
next
  case (update y g r st)
  then show ?case using mem_grants.update_Inr [of "cyGrants y" g _ st] mem_grants.update_Inl [of g "cyGrants y" _ st]
    by (cases r) auto
next
  case (remove a p y r st)
  then show ?case using mem_grants.delete_Inr [of "cyGrants y" a p _ st] mem_grants.delete_Inl [of p a "cyGrants y" _ st]
    by (cases r) auto
qed simp

text \<open>An identifier that is not in use stays so until a grant is created with it.\<close>

lemma consent_step_gone:
  assumes "consent_step ev y y'" and "grant_invar (cyGrants y)" and "ev \<noteq> GrantCreated i"
    and gone: "fresh_grant_id (grant_abs (cyGrants y)) i"
  shows "fresh_grant_id (grant_abs (cyGrants y')) i"
  using assms
proof (induction rule: consent_step.induct)
  case (create g y newID r st)
  show ?case
  proof (cases r)
    case (Inr g')
    with create mem_grants.create_Inr [of "cyGrants y" g newID g' st] show ?thesis
      by (auto simp: fresh_grant_id_def split: option.splits)
  qed (use create mem_grants.create_Inl [of newID g "cyGrants y" _ st] in simp)
next
  case (update y g r st)
  show ?case
  proof (cases r)
    case (Inr g')
    have "grant_abs st = (grant_abs (cyGrants y))(grant_pair g \<mapsto> g') \<and>
        (\<exists>old. grant_abs (cyGrants y) (grant_pair g) = Some old \<and> ugID old = ugID g \<and> g' = g\<lparr>ugCreatedAt := ugCreatedAt old\<rparr>)"
      using mem_grants.update_Inr [OF update.prems(1) _ update(2) [unfolded Inr]] update(1) by blast
    with update.prems(3) show ?thesis by (auto simp: fresh_grant_id_def)
  qed (use update mem_grants.update_Inl [of g "cyGrants y" _ st] in simp)
next
  case (remove a p y r st)
  show ?case
  proof (cases r)
    case (Inr g')
    with remove mem_grants.delete_Inr [of "cyGrants y" a p g' st] show ?thesis by (auto simp: fresh_grant_id_def)
  qed (use remove mem_grants.delete_Inl [of p a "cyGrants y" _ st] in simp)
qed simp

lemma consent_run_gone:
  assumes "consent_run (\<lambda>ev. ev \<noteq> GrantCreated i) y y'" and "grant_invar (cyGrants y)" and "fresh_grant_id (grant_abs (cyGrants y)) i"
  shows "grant_invar (cyGrants y') \<and> fresh_grant_id (grant_abs (cyGrants y')) i"
  using assms
proof (induction rule: consent_run.induct)
  case (step y' ev y'')
  then show ?case using consent_step_invar [OF step(2)] consent_step_gone [OF step(2)] by blast
qed simp

lemma deleted_grant_gone:
  assumes inv: "grant_invar s" and g: "grant_abs s (p, a) = Some g"
  shows "fresh_grant_id ((grant_abs s)((p, a) := None)) (ugID g)"
  unfolding fresh_grant_id_def using mem_grants.one_id [OF inv _ g] by auto

text \<open>A refresh token that names a grant is only honoured while the access check answers with it.\<close>

lemma honoured_grant:
  assumes "snd (fst (GetRefreshTokenSession env now sig s)) = None"
    and "map_of (isRefresh s) sig = Some e" and "rtGrantID (reSession e) = Some i"
  shows "\<exists>g. feVerifyAgentAccess env (rtPrincipal (reSession e)) (rtAgentID (reSession e)) = Inr g \<and> ugID g = i"
  using assms
  by (auto simp: GetRefreshTokenSession_def refresh_FindBySignature_def Let_def consent_mismatch_def
      split: sum.splits if_splits access_error.splits)

lemma verified_grant_stored:
  "grant_invar s \<Longrightarrow> VerifyAgentAccess memory_grant_port now s p a = Inr g \<Longrightarrow> map_of (gsGrants s) (ugID g) = Some g"
  using grant_invarD(4) [of s]
  by (auto simp: VerifyAgentAccess_def memory_grant_port_def grant_FindByPrincipalAndAgent_def split: option.splits if_splits)

lemma memory_revoker_Inr:
  assumes "memory_revoker now p a r = (Inr n, r')"
  shows "map_of r' sig = map_option (\<lambda>e. if agent_session a (Some p) e then revoke_entry now e else e) (map_of r sig)"
proof -
  from assms have "r' = map (\<lambda>(sig, e). (sig, if agent_session a (Some p) e then revoke_entry now e else e)) r"
    by (simp add: memory_revoker_def refresh_RevokeByPrincipalAndAgent_def revokeByAgent_def)
  then show ?thesis by (simp only: map_of_revoke)
qed

lemma revoke_entry_agent_session [simp]: "agent_session a p (revoke_entry now e) = agent_session a p e"
  by (simp add: agent_session_def revoke_entry_def)

lemma revoked_pair_dead:
  assumes "memory_revoker now p a r = (Inr n, r')" and "map_of r' sig = Some e"
    and "rtPrincipal (reSession e) = p" and "rtAgentID (reSession e) = a"
  shows "reRevoked e \<and> rtUsedAt (reSession e) \<noteq> None"
proof -
  from assms(2) memory_revoker_Inr [OF assms(1), of sig] obtain e0
    where e: "e = (if agent_session a (Some p) e0 then revoke_entry now e0 else e0)" by auto
  from assms(3,4) have "agent_session a (Some p) e" by (simp add: agent_session_def)
  then have "agent_session a (Some p) e0" by (simp add: e split: if_splits)
  then show ?thesis by (simp add: e)
qed

section \<open>Properties\<close>

definition demo_uuid :: string where
  "demo_uuid = ''aaaaaaaa-aaaa-aaaa-aaaa-aaaaaaaaaaaa''"

definition demo_set :: PermissionSet where
  "demo_set = \<lparr>psID = ''ps'', psCanonicalID = None, psName = ''mail'', psDescription = ''mail'',
     psServiceScopes = [\<lparr>scServiceID = ''svc'', scScopes = [''read''], scRequirementType = RequirementTypeMandatory\<rparr>],
     psCreatedAt = 1, psUpdatedAt = 1\<rparr>"

definition demo_consent_env :: consent_env where
  "demo_consent_env = \<lparr>
     ceAgentGet = (\<lambda>i. Inr (Some (demo_agent\<lparr>agID := i,
       agPermissionSets := [\<lparr>apPermissionSetID = ''ps'', apRequirementType = RequirementTypeMandatory\<rparr>]\<rparr>))),
     ceAgentGetByIDs = (\<lambda>_. Inr []), ceValidateIDs = (\<lambda>_. None), ceGetByIDs = (\<lambda>_. Inr [demo_set]),
     ceProviders = (\<lambda>_. Inr []), ceListActiveServiceIDs = (\<lambda>_. Inr [''svc''])\<rparr>"

definition demo_grant_request :: GrantRequest where
  "demo_grant_request = \<lparr>grPrincipal = ''u'', grAgentID = demo_uuid, grValidUntil = Some 50,
     grGrantedPermissionSets = [(''ps'', [''svc''])]\<rparr>"

definition demo_grant :: UserGrant where
  "demo_grant = \<lparr>ugID = ''g1'', ugPrincipal = ''u'', ugAgentID = demo_uuid, ugValidUntil = Some 50,
     ugGrantedPermissionSets = [(''ps'', [''svc''])], ugCreatedAt = 10, ugUpdatedAt = 10\<rparr>"

definition demo_granted :: grant_store where
  "demo_granted = snd (grant_Create [] demo_grant NewUserGrantRepository)"

lemma empty_grants: "grant_invar NewUserGrantRepository" "grant_abs NewUserGrantRepository = Map.empty"
  by (simp_all add: grant_invar_def NewUserGrantRepository_def agent_grants_def grant_abs_def fun_eq_iff)

lemma demo_granted_ok: "grant_invar demo_granted \<and> grant_abs demo_granted = [(''u'', demo_uuid) \<mapsto> demo_grant]"
proof -
  obtain g' st where c: "grant_Create [] demo_grant NewUserGrantRepository = (g', st)" by force
  have "uuid_text (ugAgentID demo_grant)" "ugID demo_grant \<noteq> uuid_nil" "grant_pair demo_grant = (''u'', demo_uuid)"
    by (simp_all add: uuid_text_def demo_grant_def demo_uuid_def uuid_nil_def)
  with mem_Create [OF empty_grants(1) _ _ _ c] show ?thesis
    by (auto simp: empty_grants(2) fresh_grant_id_def demo_granted_def c)
qed

lemmas demo_consent_simps = demo_consent_env_def demo_grant_request_def demo_set_def demo_agent_def RequirementTypeMandatory_def
  consent_checks_def consent_agent_def validateScopeInclusionWithResolved_def validateGrantStructureWithResolved_def index_by_def
  psValidServices_def psMandatoryServices_def usable_scope_def mandatory_scope_def ValidateSubmission_def

lemma demo_checks: "consent_checks demo_consent_env demo_grant_request = None"
  by (simp add: demo_consent_simps)

lemma demo_request_ids: "uuid_text (grAgentID demo_grant_request)" "''g1'' \<noteq> uuid_nil"
  by (simp_all add: uuid_text_def demo_grant_request_def demo_uuid_def uuid_nil_def)

abbreviation demo_first_consent :: "(consent_error + UserGrant) \<times> grant_store consent_world" where
  "demo_first_consent \<equiv> GrantConsent memory_grant_port (memory_revoker 10) demo_consent_env ''g1'' 10 10 10 10 demo_grant_request
     \<lparr>cwGrants = NewUserGrantRepository, cwRefresh = []\<rparr>"

lemma demo_first_consent_ok: "\<exists>g w'. demo_first_consent = (Inr g, w')"
proof -
  have "\<exists>g. fst demo_first_consent = Inr g"
    unfolding GrantConsent_def demo_checks
    by (simp add: memory_grant_port_def grant_FindByPrincipalAndAgent_def NewUserGrantRepository_def
        grant_missing_def create_grant_def UserGrant_ValidateForCreate_def demo_grant_request_def demo_uuid_def uuid_nil_def
        time_before_def entry_fault_def split: prod.splits)
  then show ?thesis by (cases demo_first_consent) auto
qed

text \<open>
  C19. A user's consent never exceeds what the agent declared: when \<^verbatim>\<open>GrantConsent\<close> succeeds, the
  stored grant has the requested expiry and entries; every entry names a permission set the agent
  declares, lists only services of that set that the agent's requirements allow and for which the
  user has a session, and all mandatory ones; and every mandatory permission set is granted. Only
  the grant of this user and agent changes, and a renewed grant keeps its identifier.
\<close>

theorem GrantConsent_within_declaration:
  assumes "grant_invar (cwGrants w)" and "uuid_text (grAgentID req)" and "newID \<noteq> uuid_nil"
    and "fresh_grant_id (grant_abs (cwGrants w)) newID"
    and "GrantConsent memory_grant_port rv env newID tn tc tu tv req w = (Inr g, w')"
  shows "(\<exists>agent resolved active. consent_agent env (grAgentID req) = Inr agent \<and>
      ceGetByIDs env (map fst (grGrantedPermissionSets req)) = Inr resolved \<and>
      ceListActiveServiceIDs env (grPrincipal req) = Inr active \<and>
      submission_within agent resolved active (ugGrantedPermissionSets g)) \<and>
    ugValidUntil g = grValidUntil req \<and> ugGrantedPermissionSets g = grGrantedPermissionSets req \<and>
    grant_abs (cwGrants w') = (grant_abs (cwGrants w))((grPrincipal req, grAgentID req) \<mapsto> g) \<and>
    ugID g = (case grant_abs (cwGrants w) (grPrincipal req, grAgentID req) of None \<Rightarrow> newID | Some old \<Rightarrow> ugID old)"
proof -
  note G = mem_grants.GrantConsent_Inr [OF assms]
  from G have "ugGrantedPermissionSets g = grGrantedPermissionSets req" by (simp add: grantMatchesRequest_def)
  with G consent_checks_within [of env req] show ?thesis by (auto simp: grantMatchesRequest_def split: option.splits)
qed

theorem GrantConsent_within_declaration_witness:
  "\<exists>g w'. demo_first_consent = (Inr g, w') \<and> ugID g = ''g1'' \<and> grant_abs (cwGrants w') (''u'', demo_uuid) = Some g"
proof -
  obtain g w' where c: "demo_first_consent = (Inr g, w')" using demo_first_consent_ok by blast
  with GrantConsent_within_declaration [OF _ demo_request_ids _ c] show ?thesis
    by (auto simp: empty_grants fresh_grant_id_def demo_grant_request_def)
qed

text \<open>
  C18. Revoking consent is final: once \<^verbatim>\<open>RevokeConsentForPrincipal\<close> has succeeded for a user and an
  agent, the access check refuses the pair, all refresh token sessions of the pair are used and
  revoked, and whatever requests run afterwards, in any interleaving and even when the user grants
  consent to the agent again, no refresh token that was issued under the revoked grant is honoured.
\<close>

theorem revoked_consent_never_refreshes:
  assumes inv: "grant_invar st" and uuid: "uuid_text a" and g: "grant_abs st (p, a) = Some g"
    and r: "RevokeConsentForPrincipal memory_grant_port (memory_revoker t) p a \<lparr>cwGrants = st, cwRefresh = isRefresh s\<rparr> = (None, w)"
    and run: "consent_run (\<lambda>ev. ev \<noteq> GrantCreated (ugID g)) \<lparr>cyGrants = cwGrants w, cyIssuer = s\<lparr>isRefresh := cwRefresh w\<rparr>\<rparr> y"
  shows "(\<forall>now. VerifyAgentAccess memory_grant_port now (cwGrants w) p a = Inl ErrAgentAccessDenied) \<and>
    (\<forall>sig e. map_of (cwRefresh w) sig = Some e \<longrightarrow> rtPrincipal (reSession e) = p \<longrightarrow> rtAgentID (reSession e) = a \<longrightarrow>
       reRevoked e \<and> rtUsedAt (reSession e) \<noteq> None) \<and>
    (\<forall>env now clock sig e. feVerifyAgentAccess env = VerifyAgentAccess memory_grant_port clock (cyGrants y) \<longrightarrow>
       map_of (isRefresh (cyIssuer y)) sig = Some e \<longrightarrow> rtGrantID (reSession e) = Some (ugID g) \<longrightarrow>
       snd (fst (GetRefreshTokenSession env now sig (cyIssuer y))) \<noteq> None)"
proof -
  note R = mem_grants.RevokeConsentForPrincipal_None [of "\<lparr>cwGrants = st, cwRefresh = isRefresh s\<rparr>", simplified, OF inv uuid r]
  from R have none: "grant_abs (cwGrants w) (p, a) = None" by simp
  then have denied: "VerifyAgentAccess memory_grant_port now (cwGrants w) p a = Inl ErrAgentAccessDenied" for now
    by (simp add: VerifyAgentAccess_def memory_grant_port_def mem_Find [OF uuid] grant_missing_def)
  from R obtain n where n: "memory_revoker t p a (isRefresh s) = (Inr n, cwRefresh w)" by auto
  have dead: "reRevoked e \<and> rtUsedAt (reSession e) \<noteq> None"
    if "map_of (cwRefresh w) sig = Some e" "rtPrincipal (reSession e) = p" "rtAgentID (reSession e) = a" for sig e
    by (rule revoked_pair_dead [OF n that])
  from deleted_grant_gone [OF inv g] R consent_run_gone [OF run]
  have inv': "grant_invar (cyGrants y)" and gone: "fresh_grant_id (grant_abs (cyGrants y)) (ugID g)" by simp_all
  have refused: "snd (fst (GetRefreshTokenSession env now sig (cyIssuer y))) \<noteq> None"
    if env: "feVerifyAgentAccess env = VerifyAgentAccess memory_grant_port clock (cyGrants y)"
      and e: "map_of (isRefresh (cyIssuer y)) sig = Some e" and i: "rtGrantID (reSession e) = Some (ugID g)" for env now clock sig e
  proof
    assume "snd (fst (GetRefreshTokenSession env now sig (cyIssuer y))) = None"
    from honoured_grant [OF this e i]
    obtain h where h: "VerifyAgentAccess memory_grant_port clock (cyGrants y) (rtPrincipal (reSession e)) (rtAgentID (reSession e)) = Inr h"
      and "ugID h = ugID g" unfolding env by blast
    with verified_grant_stored [OF inv' h] fresh_grant_unused [OF inv' gone] show False by simp
  qed
  from denied dead refused show ?thesis by blast
qed

definition demo_refresh :: issuer_store where
  "demo_refresh = empty_issuer\<lparr>isRefresh := [(''t1'', \<lparr>reSession = \<lparr>rtSignature = ''t1'', rtRequestID = ''q'', rtAgentID = demo_uuid,
     rtClientID = ''a'', rtPrincipal = ''u'', rtGrantID = Some ''g1'', rtEmail = None, rtDisplayName = [], rtScope = ''openid'',
     rtClientAuthMethod = None, rtExpiresAt = 900, rtUsedAt = None, rtCreatedAt = 11\<rparr>, reRevoked = False\<rparr>)]\<rparr>"

definition demo_access_env :: "time \<Rightarrow> grant_store \<Rightarrow> fosite_env" where
  "demo_access_env now st = demo_env\<lparr>feVerifyAgentAccess := VerifyAgentAccess memory_grant_port now st\<rparr>"

theorem revoked_consent_never_refreshes_witness:
  "let w = snd (RevokeConsentForPrincipal memory_grant_port (memory_revoker 20) ''u'' demo_uuid
         \<lparr>cwGrants = demo_granted, cwRefresh = isRefresh demo_refresh\<rparr>);
       s = demo_refresh\<lparr>isRefresh := cwRefresh w\<rparr>
   in snd (fst (GetRefreshTokenSession (demo_access_env 15 demo_granted) 15 ''t1'' demo_refresh)) = None \<and>
      snd (fst (GetRefreshTokenSession (demo_access_env 21 (cwGrants w)) 21 ''t1'' s)) \<noteq> None"
proof -
  let ?w0 = "\<lparr>cwGrants = demo_granted, cwRefresh = isRefresh demo_refresh\<rparr>"
  let ?r = "RevokeConsentForPrincipal memory_grant_port (memory_revoker 20) ''u'' demo_uuid ?w0"
  note ok = demo_granted_ok
  have uuid: "uuid_text demo_uuid" by (simp add: uuid_text_def demo_uuid_def)
  have honoured: "snd (fst (GetRefreshTokenSession (demo_access_env 15 demo_granted) 15 ''t1'' demo_refresh)) = None"
  proof -
    from ok have "VerifyAgentAccess memory_grant_port 15 demo_granted ''u'' demo_uuid = Inr demo_grant"
      by (simp add: VerifyAgentAccess_def memory_grant_port_def mem_Find [OF uuid] grant_expired_def demo_grant_def time_after_def)
    then show ?thesis
      by (simp add: GetRefreshTokenSession_def demo_access_env_def demo_refresh_def refresh_FindBySignature_def GetClient_def
          consent_mismatch_def demo_grant_def demo_issuer_simps cred_GetByAgentID_def Agent_ClientType_def)
  qed
  have "fst ?r = None"
  proof -
    have "\<exists>st. grant_DeleteByPrincipalAndAgentID ''u'' demo_uuid demo_granted = (Inr demo_grant, st)"
      using ok grant_abs_def [of demo_granted]
      by (auto simp: grant_DeleteByPrincipalAndAgentID_def Let_def uuid bind_eq_Some_conv dest!: fun_cong [where x = "(''u'', demo_uuid)"])
    then show ?thesis
      by (auto simp: RevokeConsentForPrincipal_def memory_grant_port_def revokeRefreshSessions_def memory_revoker_def split: prod.splits)
  qed
  then have r: "?r = (None, snd ?r)" by (simp add: prod_eq_iff)
  from ok have g: "grant_abs demo_granted (''u'', demo_uuid) = Some demo_grant" by simp
  obtain n where n: "memory_revoker 20 ''u'' demo_uuid (isRefresh demo_refresh) = (Inr n, cwRefresh (snd ?r))"
    using mem_grants.RevokeConsentForPrincipal_None [of ?w0, simplified, OF conjunct1 [OF ok] uuid r] by blast
  obtain e where "map_of (isRefresh demo_refresh) ''t1'' = Some e" "rtGrantID (reSession e) = Some (ugID demo_grant)"
    by (simp add: demo_refresh_def demo_grant_def)
  with memory_revoker_Inr [OF n, of "''t1''"] obtain e'
    where "map_of (cwRefresh (snd ?r)) ''t1'' = Some e'" "rtGrantID (reSession e') = Some (ugID demo_grant)"
    by (auto simp: revoke_entry_def)
  then have "map_of (isRefresh (cyIssuer \<lparr>cyGrants = cwGrants (snd ?r), cyIssuer = demo_refresh\<lparr>isRefresh := cwRefresh (snd ?r)\<rparr>\<rparr>)) ''t1'' = Some e'"
    "rtGrantID (reSession e') = Some (ugID demo_grant)" by simp_all
  moreover have "feVerifyAgentAccess (demo_access_env 21 (cwGrants (snd ?r))) = VerifyAgentAccess memory_grant_port 21
      (cyGrants \<lparr>cyGrants = cwGrants (snd ?r), cyIssuer = demo_refresh\<lparr>isRefresh := cwRefresh (snd ?r)\<rparr>\<rparr>)"
    by (simp add: demo_access_env_def)
  ultimately have "snd (fst (GetRefreshTokenSession (demo_access_env 21 (cwGrants (snd ?r))) 21 ''t1''
      (demo_refresh\<lparr>isRefresh := cwRefresh (snd ?r)\<rparr>))) \<noteq> None"
    using revoked_consent_never_refreshes [OF conjunct1 [OF ok] uuid g r consent_run.start] by (metis consent_system.select_convs(2))
  with honoured show ?thesis by (simp add: Let_def)
qed

text \<open>
  A consent request that is refused leaves every grant as it was: this holds for every error of
  \<^verbatim>\<open>GrantConsent\<close>, and a revocation that finds no grant changes nothing at all.
\<close>

theorem refused_consent_changes_no_grant:
  "(\<forall>e w'. GrantConsent memory_grant_port rv env newID tn tc tu tv req w = (Inl e, w') \<longrightarrow> cwGrants w' = cwGrants w) \<and>
   (\<forall>e w'. RevokeConsentForPrincipal memory_grant_port (memory_revoker now) p a w = (Some e, w') \<longrightarrow> e = ErrGrantNotFound \<and> w' = w)"
proof -
  have "e = ErrGrantNotFound \<and> w' = w" if "RevokeConsentForPrincipal memory_grant_port (memory_revoker now) p a w = (Some e, w')" for e w'
    using that by (auto simp: RevokeConsentForPrincipal_def memory_grant_port_def grant_DeleteByPrincipalAndAgentID_def Let_def
        revokeRefreshSessions_def memory_revoker_def split: option.splits prod.splits)
  with mem_grants.GrantConsent_Inl show ?thesis by blast
qed

theorem refused_consent_changes_no_grant_witness:
  "let w = \<lparr>cwGrants = demo_granted, cwRefresh = []\<rparr>;
       r = GrantConsent memory_grant_port (memory_revoker 10) demo_consent_env ''g2'' 10 10 10 10
             (demo_grant_request\<lparr>grGrantedPermissionSets := [(''other'', [''svc''])]\<rparr>) w
   in fst r = Inl (ErrInvalidServiceInclusion ''other'') \<and> cwGrants (snd r) = demo_granted"
proof -
  let ?q = "demo_grant_request\<lparr>grGrantedPermissionSets := [(''other'', [''svc''])]\<rparr>" and ?w = "\<lparr>cwGrants = demo_granted, cwRefresh = []\<rparr>"
  let ?r = "GrantConsent memory_grant_port (memory_revoker 10) demo_consent_env ''g2'' 10 10 10 10 ?q ?w"
  have "consent_checks demo_consent_env ?q = Some (ErrInvalidServiceInclusion ''other'')" by (simp add: demo_consent_simps)
  then have "fst ?r = Inl (ErrInvalidServiceInclusion ''other'')" by (simp add: GrantConsent_def)
  then have "?r = (Inl (ErrInvalidServiceInclusion ''other''), snd ?r)" by (simp add: prod_eq_iff)
  with refused_consent_changes_no_grant [of "memory_revoker 10" demo_consent_env "''g2''" 10 10 10 10 ?q ?w] show ?thesis
    by (metis consent_world.select_convs(1) prod.sel(1))
qed

text \<open>
  Granting is idempotent: when the user submits again what was just granted, and the agent,
  permission sets and sessions have not changed, the service returns the stored grant and changes
  nothing.
\<close>

theorem GrantConsent_idempotent:
  assumes inv: "grant_invar (cwGrants w)" and uuid: "uuid_text (grAgentID req)" and id: "newID \<noteq> uuid_nil"
    and fresh: "fresh_grant_id (grant_abs (cwGrants w)) newID"
    and g: "GrantConsent memory_grant_port rv env newID tn tc tu tv req w = (Inr g, w')"
  shows "GrantConsent memory_grant_port rv' env newID' tn' tc' tu' tv' req w' = (Inr g, w')"
proof -
  note G = mem_grants.GrantConsent_Inr [OF assms]
  then have "gpFindByPrincipalAndAgent memory_grant_port (grPrincipal req) (grAgentID req) (cwGrants w') = Inr g"
    by (simp add: memory_grant_port_def mem_Find [OF uuid])
  with G show ?thesis by (simp add: GrantConsent_def)
qed

theorem GrantConsent_idempotent_witness:
  "\<exists>g w'. demo_first_consent = (Inr g, w') \<and>
     GrantConsent memory_grant_port (memory_revoker 60) demo_consent_env ''g2'' 60 60 60 60 demo_grant_request w' = (Inr g, w')"
proof -
  obtain g w' where c: "demo_first_consent = (Inr g, w')" using demo_first_consent_ok by blast
  from GrantConsent_idempotent [OF _ demo_request_ids _ c] c show ?thesis by (simp add: empty_grants fresh_grant_id_def)
qed

text \<open>
  Renewing an expired grant does not revive old tokens: when \<^verbatim>\<open>GrantConsent\<close> replaces a grant that
  had expired, every refresh token session of the pair is used and revoked afterwards.
\<close>

theorem expired_renewal_revokes_sessions:
  assumes inv: "grant_invar (cwGrants w)" and uuid: "uuid_text (grAgentID req)" and id: "newID \<noteq> uuid_nil"
    and fresh: "fresh_grant_id (grant_abs (cwGrants w)) newID"
    and old: "grant_abs (cwGrants w) (grPrincipal req, grAgentID req) = Some old" "grant_expired tn old" "\<not> grantMatchesRequest old req"
    and g: "GrantConsent memory_grant_port (memory_revoker t) env newID tn tc tu tv req w = (Inr g, w')"
    and e: "map_of (cwRefresh w') sig = Some e" "rtPrincipal (reSession e) = grPrincipal req" "rtAgentID (reSession e) = grAgentID req"
  shows "reRevoked e \<and> rtUsedAt (reSession e) \<noteq> None"
proof -
  from mem_grants.GrantConsent_Inr [OF inv uuid id fresh g] old
  obtain n where n: "memory_revoker t (grPrincipal req) (grAgentID req) (cwRefresh w) = (Inr n, cwRefresh w')" by auto
  from revoked_pair_dead [OF n e] show ?thesis .
qed

lemma demo_renewal:
  "\<exists>g w'. GrantConsent memory_grant_port (memory_revoker 60) demo_consent_env ''g2'' 60 60 60 60
     (demo_grant_request\<lparr>grValidUntil := None\<rparr>) \<lparr>cwGrants = demo_granted, cwRefresh = isRefresh demo_refresh\<rparr> = (Inr g, w')"
proof -
  let ?q = "demo_grant_request\<lparr>grValidUntil := None\<rparr>" and ?w = "\<lparr>cwGrants = demo_granted, cwRefresh = isRefresh demo_refresh\<rparr>"
  have "uuid_text demo_uuid" by (simp add: uuid_text_def demo_uuid_def)
  then have f: "gpFindByPrincipalAndAgent memory_grant_port (grPrincipal ?q) (grAgentID ?q) (cwGrants ?w) = Inr demo_grant"
    using demo_granted_ok by (simp add: memory_grant_port_def mem_Find demo_grant_request_def)
  have chk: "consent_checks demo_consent_env ?q = None" by (simp add: demo_consent_simps)
  have "map_of (gsGrants demo_granted) ''g1'' = Some demo_grant"
    by (simp add: demo_granted_def grant_Create_def NewUserGrantRepository_def demo_grant_def uuid_nil_def Let_def)
  then have "\<exists>g. fst (GrantConsent memory_grant_port (memory_revoker 60) demo_consent_env ''g2'' 60 60 60 60 ?q ?w) = Inr g"
    unfolding GrantConsent_def chk f
    by (simp add: grantMatchesRequest_def demo_grant_def demo_grant_request_def renew_grant_def UserGrant_Validate_def
        UserGrant_ValidateForCreate_def uuid_nil_def demo_uuid_def entry_fault_def grant_expired_def time_after_def
        revokeRefreshSessions_def memory_revoker_def memory_grant_port_def grant_Update_def Let_def split: prod.splits)
  then show ?thesis by (cases "GrantConsent memory_grant_port (memory_revoker 60) demo_consent_env ''g2'' 60 60 60 60 ?q ?w") auto
qed

theorem expired_renewal_revokes_sessions_witness:
  "\<exists>g w' e. GrantConsent memory_grant_port (memory_revoker 60) demo_consent_env ''g2'' 60 60 60 60
     (demo_grant_request\<lparr>grValidUntil := None\<rparr>) \<lparr>cwGrants = demo_granted, cwRefresh = isRefresh demo_refresh\<rparr> = (Inr g, w') \<and>
   map_of (cwRefresh w') ''t1'' = Some e \<and> reRevoked e"
proof -
  let ?q = "demo_grant_request\<lparr>grValidUntil := None\<rparr>" and ?w = "\<lparr>cwGrants = demo_granted, cwRefresh = isRefresh demo_refresh\<rparr>"
  obtain g w' where c: "GrantConsent memory_grant_port (memory_revoker 60) demo_consent_env ''g2'' 60 60 60 60 ?q ?w = (Inr g, w')"
    using demo_renewal by blast
  have ids: "uuid_text (grAgentID ?q)" "''g2'' \<noteq> uuid_nil" "grant_pair demo_grant = (grPrincipal ?q, grAgentID ?q)"
    by (simp_all add: uuid_text_def demo_grant_request_def demo_uuid_def uuid_nil_def demo_grant_def)
  have inv: "grant_invar (cwGrants ?w)" and some: "grant_abs (cwGrants ?w) (grPrincipal ?q, grAgentID ?q) = Some demo_grant"
    and fresh: "fresh_grant_id (grant_abs (cwGrants ?w)) ''g2''"
    using demo_granted_ok by (simp_all add: demo_grant_request_def fresh_grant_id_def demo_grant_def)
  have old: "grant_expired 60 demo_grant" "\<not> grantMatchesRequest demo_grant ?q"
    by (simp_all add: grant_expired_def demo_grant_def time_after_def grantMatchesRequest_def)
  from mem_grants.GrantConsent_Inr [OF inv ids(1,2) fresh c] some old
  obtain n where n: "memory_revoker 60 (grPrincipal ?q) (grAgentID ?q) (isRefresh demo_refresh) = (Inr n, cwRefresh w')" by auto
  obtain e where e: "map_of (cwRefresh w') ''t1'' = Some e" "rtPrincipal (reSession e) = grPrincipal ?q" "rtAgentID (reSession e) = grAgentID ?q"
    using memory_revoker_Inr [OF n, of "''t1''"] by (auto simp: demo_refresh_def revoke_entry_def demo_grant_request_def)
  from expired_renewal_revokes_sessions [OF inv ids(1,2) fresh some old c e] c e(1) show ?thesis by blast
qed

section \<open>The service's calls as histories\<close>

definition system_of :: "issuer_store \<Rightarrow> grant_store consent_world \<Rightarrow> consent_system" where
  "system_of s w = \<lparr>cyGrants = cwGrants w, cyIssuer = s\<lparr>isRefresh := cwRefresh w\<rparr>\<rparr>"

lemma run_trans: "consent_run al x y \<Longrightarrow> consent_run al y z \<Longrightarrow> consent_run al x z"
  by (rotate_tac, induction rule: consent_run.induct) (auto intro: consent_run.step)

lemma one_step: "consent_step ev x y \<Longrightarrow> consent_run (\<lambda>_. True) x y"
  by (auto intro: consent_run.start consent_run.step)

lemma revokeRefreshSessions_run:
  assumes "revokeRefreshSessions (memory_revoker t) p a w = (e, w')"
  shows "consent_run (\<lambda>_. True) (system_of s w) (system_of s w')"
proof -
  from assms have "system_of s w' = (system_of s w)\<lparr>cyIssuer := (cyIssuer (system_of s w))\<lparr>isRefresh :=
      snd (refresh_RevokeByPrincipalAndAgent t p a (isRefresh (cyIssuer (system_of s w))))\<rparr>\<rparr>"
    by (auto simp: revokeRefreshSessions_def memory_revoker_def system_of_def split: prod.splits)
  then show ?thesis by (metis one_step consent_step.issuer issuer_step.revoke_consent)
qed

lemma create_grant_run:
  assumes "uuid_text (grAgentID req)" "newID \<noteq> uuid_nil" "fresh_grant_id (grant_abs (cwGrants w)) newID"
    and "create_grant memory_grant_port newID tc tu tv req w = (r, w')"
  shows "consent_run (\<lambda>_. True) (system_of s w) (system_of s w')"
proof -
  let ?g = "\<lparr>ugID = newID, ugPrincipal = grPrincipal req, ugAgentID = grAgentID req, ugValidUntil = grValidUntil req,
      ugGrantedPermissionSets = grGrantedPermissionSets req, ugCreatedAt = tc, ugUpdatedAt = tu\<rparr>"
  obtain x st where c: "gpCreate memory_grant_port newID ?g (cyGrants (system_of s w)) = (x, st)" by force
  from assms(4) c consider "w' = w" | "w' = w\<lparr>cwGrants := st\<rparr>"
    by (auto simp: create_grant_def Let_def system_of_def split: option.splits sum.splits)
  then show ?thesis
  proof cases
    case 2
    then have "system_of s w' = (system_of s w)\<lparr>cyGrants := st\<rparr>" by (simp add: system_of_def)
    with assms one_step [OF consent_step.create [OF _ _ _ c]] show ?thesis by (simp add: system_of_def)
  qed (simp add: consent_run.start)
qed

lemma renew_grant_run:
  assumes inv: "grant_invar (cwGrants w)" and old: "grant_abs (cwGrants w) (grPrincipal req, grAgentID req) = Some old"
    and c: "renew_grant memory_grant_port (memory_revoker t) tn tu tv req old w = (r, w')"
  shows "consent_run (\<lambda>_. True) (system_of s w) (system_of s w')"
proof -
  let ?g = "old\<lparr>ugValidUntil := grValidUntil req, ugGrantedPermissionSets := grGrantedPermissionSets req, ugUpdatedAt := tu\<rparr>"
  obtain e w1 where w1: "(if grant_expired tn old then revokeRefreshSessions (memory_revoker t) (grPrincipal req) (grAgentID req) w
      else (None, w)) = (e, w1)" by force
  have first: "consent_run (\<lambda>_. True) (system_of s w) (system_of s w1)"
    using w1 revokeRefreshSessions_run [of t "grPrincipal req" "grAgentID req" w e w1 s] by (auto simp: consent_run.start split: if_splits)
  have same: "cwGrants w1 = cwGrants w"
    using w1 revokeRefreshSessions_eq [of "memory_revoker t" "grPrincipal req" "grAgentID req" w e w1] by (auto split: if_splits)
  obtain x st where u: "gpUpdate memory_grant_port ?g (cwGrants w1) = (x, st)" by force
  from c w1 u consider "w' = w" | "w' = w1" | "w' = w1\<lparr>cwGrants := st\<rparr>"
    unfolding renew_grant_def Let_def by (auto split: option.splits sum.splits)
  then show ?thesis
  proof cases
    case 3
    have own: "k = grant_pair ?g" if "grant_abs (cyGrants (system_of s w1)) k = Some h" "ugID h = ugID ?g" for k h
      using that mem_grants.one_id [OF inv _ old] mem_grants.pair_of [OF inv old] by (auto simp: system_of_def same)
    from 3 have "system_of s w' = (system_of s w1)\<lparr>cyGrants := st\<rparr>" by (simp add: system_of_def)
    moreover have "consent_step OtherEvent (system_of s w1) ((system_of s w1)\<lparr>cyGrants := st\<rparr>)"
    proof (rule consent_step.update [where g = ?g and r = x])
      show "gpUpdate memory_grant_port ?g (cyGrants (system_of s w1)) = (x, st)" using u by (simp add: system_of_def)
    qed (rule own)
    ultimately show ?thesis using first by (auto intro: run_trans one_step)
  qed (use first in \<open>auto intro: consent_run.start\<close>)
qed

lemma GrantConsent_run:
  assumes "grant_invar (cwGrants w)" and "uuid_text (grAgentID req)" and "newID \<noteq> uuid_nil"
    and "fresh_grant_id (grant_abs (cwGrants w)) newID"
    and g: "GrantConsent memory_grant_port (memory_revoker t) env newID tn tc tu tv req w = (r, w')"
  shows "consent_run (\<lambda>_. True) (system_of s w) (system_of s w')"
proof -
  have c: "create_grant memory_grant_port newID tc tu tv req w = (r, w') \<Longrightarrow> consent_run (\<lambda>_. True) (system_of s w) (system_of s w')"
    by (rule create_grant_run [OF assms(2-4)])
  have n: "renew_grant memory_grant_port (memory_revoker t) tn tu tv req old w = (r, w') \<Longrightarrow>
      grant_abs (cwGrants w) (grPrincipal req, grAgentID req) = Some old \<Longrightarrow> consent_run (\<lambda>_. True) (system_of s w) (system_of s w')" for old
    by (rule renew_grant_run [OF assms(1)])
  from g c n mem_grants.find_Inr [OF assms(1,2)] show ?thesis
    by (auto simp: GrantConsent_def intro: consent_run.start split: option.splits sum.splits if_splits)
qed

lemma RevokeConsent_run:
  assumes "uuid_text a"
  shows "consent_run (\<lambda>_. True) (system_of s w) (system_of s (snd (RevokeConsent memory_grant_port (memory_revoker t) p a w)))"
proof -
  obtain x st where d: "gpDeleteByPrincipalAndAgentID memory_grant_port p a (cwGrants w) = (x, st)" by force
  then have del: "consent_run (\<lambda>_. True) (system_of s w) (system_of s (w\<lparr>cwGrants := st\<rparr>))"
    using one_step [OF consent_step.remove [OF assms, of p "system_of s w" x st]] by (simp add: system_of_def)
  have rev: "consent_run (\<lambda>_. True) (system_of s v) (system_of s (snd (revokeRefreshSessions (memory_revoker t) p a v)))" for v
    by (rule revokeRefreshSessions_run [OF prod.collapse [symmetric]])
  have one: "consent_run (\<lambda>_. True) (system_of s w)
      (system_of s (snd (RevokeConsentForPrincipal memory_grant_port (memory_revoker t) p a w)))"
    using run_trans [OF del rev] del by (simp add: RevokeConsentForPrincipal_def d split: sum.splits)
  with run_trans [OF one rev] show ?thesis by (simp add: RevokeConsent_def split_def)
qed

text \<open>
  A call of \<^verbatim>\<open>GrantConsent\<close> or \<^verbatim>\<open>RevokeConsent\<close>, whatever it returns, acts on the stored grants and
  sessions as a history of the steps above, so what holds for all histories holds after it.
\<close>

theorem consent_calls_are_histories:
  assumes "grant_invar (cwGrants w)" and "uuid_text (grAgentID req)" and "newID \<noteq> uuid_nil"
    and "fresh_grant_id (grant_abs (cwGrants w)) newID"
  shows "consent_run (\<lambda>_. True) (system_of s w)
      (system_of s (snd (GrantConsent memory_grant_port (memory_revoker t) env newID tn tc tu tv req w))) \<and>
    consent_run (\<lambda>_. True) (system_of s w)
      (system_of s (snd (RevokeConsent memory_grant_port (memory_revoker t) (grPrincipal req) (grAgentID req) w)))"
  using GrantConsent_run [OF assms prod.collapse [symmetric]] RevokeConsent_run [OF assms(2)] by blast

theorem consent_calls_are_histories_witness:
  "consent_run (\<lambda>_. True) (system_of empty_issuer \<lparr>cwGrants = NewUserGrantRepository, cwRefresh = []\<rparr>)
     (system_of empty_issuer (snd demo_first_consent)) \<and> \<not> isl (fst demo_first_consent)"
  using consent_calls_are_histories [of "\<lparr>cwGrants = NewUserGrantRepository, cwRefresh = []\<rparr>", OF _ demo_request_ids] demo_first_consent_ok
  by (auto simp: empty_grants fresh_grant_id_def)

text \<open>
  In every history that starts with an empty store, the grants are consistent: each stored grant is
  found under its user and agent, by its identifier and in the list of its agent, and no user and
  agent have two grants.
\<close>

theorem consent_history_one_grant:
  assumes "consent_run allowed \<lparr>cyGrants = NewUserGrantRepository, cyIssuer = s\<rparr> y"
  shows "grant_invar (cyGrants y) \<and>
    (\<forall>i g j h. map_of (gsGrants (cyGrants y)) i = Some g \<longrightarrow> map_of (gsGrants (cyGrants y)) j = Some h \<longrightarrow>
       grant_pair g = grant_pair h \<longrightarrow> i = j \<and> g = h) \<and>
    (\<forall>i g. map_of (gsGrants (cyGrants y)) i = Some g \<longrightarrow>
       grant_FindByPrincipalAndAgent (ugPrincipal g) (ugAgentID g) (cyGrants y) = Inr g \<and> i \<in> set (agent_grants (ugAgentID g) (cyGrants y)))"
proof -
  from assms have inv: "grant_invar (cyGrants y)"
    by (induction rule: consent_run.induct) (auto simp: empty_grants dest: consent_step_invar)
  have one: "i = j \<and> g = h"
    if i: "map_of (gsGrants (cyGrants y)) i = Some g" and j: "map_of (gsGrants (cyGrants y)) j = Some h" and p: "grant_pair g = grant_pair h"
    for i g j h
  proof -
    from grant_invarD(4) [OF inv i] grant_invarD(4) [OF inv j] p have "i = j" by simp
    with i j show ?thesis by simp
  qed
  have found: "grant_FindByPrincipalAndAgent (ugPrincipal g) (ugAgentID g) (cyGrants y) = Inr g \<and> i \<in> set (agent_grants (ugAgentID g) (cyGrants y))"
    if i: "map_of (gsGrants (cyGrants y)) i = Some g" for i g
    using grant_invarD(4) [OF inv i] i by (auto simp: grant_FindByPrincipalAndAgent_def grant_invarD(7) [OF inv])
  from inv one found show ?thesis by blast
qed

theorem consent_history_one_grant_witness:
  "let y = system_of empty_issuer (snd demo_first_consent)
   in grant_invar (cyGrants y) \<and> map_of (gsGrants (cyGrants y)) ''g1'' \<noteq> None"
proof -
  obtain g w' where c: "demo_first_consent = (Inr g, w')" using demo_first_consent_ok by blast
  let ?w = "\<lparr>cwGrants = NewUserGrantRepository, cwRefresh = []\<rparr>"
  have f: "fresh_grant_id (grant_abs (cwGrants ?w)) ''g1''" "grant_invar (cwGrants ?w)" by (simp_all add: empty_grants fresh_grant_id_def)
  note G = mem_grants.GrantConsent_Inr [OF f(2) demo_request_ids f(1) c]
  then have "grant_abs (cwGrants w') (grPrincipal demo_grant_request, grAgentID demo_grant_request) = Some g" "ugID g = ''g1''"
    by (simp_all add: empty_grants)
  with grant_abs_iff [OF conjunct1 [OF conjunct2 [OF G]]] have "map_of (gsGrants (cwGrants w')) ''g1'' = Some g" by auto
  moreover have "consent_run (\<lambda>_. True) \<lparr>cyGrants = NewUserGrantRepository, cyIssuer = empty_issuer\<lparr>isRefresh := []\<rparr>\<rparr> (system_of empty_issuer (snd demo_first_consent))"
    using GrantConsent_run [OF f(2) demo_request_ids f(1) c, of empty_issuer] by (simp add: system_of_def c)
  from consent_history_one_grant [OF this] have "grant_invar (cyGrants (system_of empty_issuer (snd demo_first_consent)))" by blast
  ultimately show ?thesis by (simp add: Let_def c system_of_def)
qed

end
