(* ===== verification/User_Sessions.thy ===== *)
theory User_Sessions
  imports User_Grants "HOL-Library.Product_Lexorder" "HOL-Library.Multiset"
begin

text \<open>
  The session a user has with a third-party service (\<^verbatim>\<open>internal/domain/storage/user_session.go\<close>) and
  the in-memory repository of sessions (\<^verbatim>\<open>internal/adapters/storage/memory/user_session.go\<close>). A method
  holds the lock of its session or of the store and is one step; sessions are copied in and out, so
  a stored session changes only when it is replaced. The gate that serializes the calls for one
  session is modelled in \<open>Session_Locks\<close>.

  The repository lists the sessions that are due for a refresh in pages: a bounded binary heap keeps
  the earliest ones. \<open>ListExpiringSessions_sorted_prefix\<close> says that the heap computes the prefix of
  the sorted list, and \<open>sweep_pages_cover\<close> that the pages of a scan hold every due session once.
  Identifiers are the texts of UUIDs: they have one length and lower-case hexadecimal digits, so
  comparing the texts is comparing the bytes.
\<close>

section \<open>The session\<close>

type_synonym session_id = string

record UserSession =
  usID :: session_id
  usPrincipal :: principal
  usServiceID :: service_id
  usCallbackID :: string
  usUpstreamClientID :: "string option"
  usExpectedIssuerURI :: string
  usExpectedResource :: string
  usEncryptedAccessToken :: string
  usEncryptedRefreshToken :: string
  usTokenType :: string
  usAccessTokenExpiresAt :: "time option"
  usRefreshRejectedAt :: "time option"
  usScope :: "string list"
  usEncryptionContext :: service_id
  usInitiatedAt :: time
  usCreatedAt :: time
  usUpdatedAt :: time

definition UserSession_Validate :: "UserSession \<Rightarrow> string option" where
  "UserSession_Validate s =
     (if usID s = uuid_nil then Some ''session ID cannot be empty''
      else if usPrincipal s = [] then Some ''principal is required''
      else if 200 < length (usPrincipal s) then Some ''principal exceeds 200 characters''
      else if usServiceID s = uuid_nil then Some ''service_id is required''
      else if usUpstreamClientID s = Some [] then Some ''upstream client ID cannot be empty''
      else if usEncryptedAccessToken s = [] then Some ''encrypted access token is required''
      else if usTokenType s = [] then Some ''token_type is required''
      else None)"

definition RefreshRejected :: "UserSession \<Rightarrow> bool" where
  "RefreshRejected s \<longleftrightarrow> usRefreshRejectedAt s \<noteq> None"

definition RequiresReauthentication :: "time \<Rightarrow> time option \<Rightarrow> bool \<Rightarrow> bool \<Rightarrow> bool" where
  "RequiresReauthentication now accessExpiry refreshRejected hasRefreshToken =
     (if refreshRejected then True
      else (case accessExpiry of None \<Rightarrow> False | Some e \<Rightarrow> \<not> time_after e now) \<and> \<not> hasRefreshToken)"

definition session_RequiresReauthentication :: "time \<Rightarrow> UserSession \<Rightarrow> bool" where
  "session_RequiresReauthentication now s =
     RequiresReauthentication now (usAccessTokenExpiresAt s) (RefreshRejected s) (usEncryptedRefreshToken s \<noteq> [])"

definition HasValidAccessToken :: "time \<Rightarrow> UserSession \<Rightarrow> bool" where
  "HasValidAccessToken now s = (case usAccessTokenExpiresAt s of None \<Rightarrow> True | Some e \<Rightarrow> time_before now e)"

definition AccessTokenExpiresBy :: "time \<Rightarrow> UserSession \<Rightarrow> bool" where
  "AccessTokenExpiresBy t s = (case usAccessTokenExpiresAt s of None \<Rightarrow> False | Some e \<Rightarrow> \<not> time_after e t)"

definition CanRefresh :: "UserSession \<Rightarrow> bool" where
  "CanRefresh s \<longleftrightarrow> usEncryptedRefreshToken s \<noteq> [] \<and> \<not> RefreshRejected s"

record UserSessionSummary =
  smID :: session_id
  smServiceID :: service_id
  smServiceDisplayName :: string
  smTokenType :: string
  smScope :: "string list"
  smInitiatedAt :: time
  smRequiresReauthentication :: bool
  smIsExpired :: bool
  smAccessTokenExpired :: bool
  smHasRefreshToken :: bool
  smDependentAgentCount :: nat
  smIsEncrypted :: bool

definition SetRequiresReauthentication :: "bool \<Rightarrow> UserSessionSummary \<Rightarrow> UserSessionSummary" where
  "SetRequiresReauthentication required s = s\<lparr>smRequiresReauthentication := required, smIsExpired := required\<rparr>"

definition NewUserSessionSummary :: "time \<Rightarrow> UserSession \<Rightarrow> string \<Rightarrow> nat \<Rightarrow> UserSessionSummary" where
  "NewUserSessionSummary now session displayName agentCount =
     SetRequiresReauthentication (session_RequiresReauthentication now session)
       \<lparr>smID = usID session, smServiceID = usServiceID session, smServiceDisplayName = displayName,
        smTokenType = usTokenType session, smScope = usScope session, smInitiatedAt = usInitiatedAt session,
        smRequiresReauthentication = False, smIsExpired = False,
        smAccessTokenExpired = (\<not> HasValidAccessToken now session),
        smHasRefreshToken = (usEncryptedRefreshToken session \<noteq> []), smDependentAgentCount = agentCount, smIsEncrypted = True\<rparr>"

record UserSessionDetails = UserSessionSummary +
  sdPrincipal :: principal
  sdAccessTokenExpiresAt :: "time option"
  sdEncryptionContext :: service_id
  sdCreatedAt :: time
  sdUpdatedAt :: time

definition NewUserSessionDetails :: "time \<Rightarrow> UserSession \<Rightarrow> string \<Rightarrow> nat \<Rightarrow> UserSessionDetails" where
  "NewUserSessionDetails now session displayName agentCount =
     UserSessionSummary.extend (NewUserSessionSummary now session displayName agentCount)
       (UserSessionDetails.fields (usPrincipal session) (usAccessTokenExpiresAt session) (usEncryptionContext session)
          (usCreatedAt session) (usUpdatedAt session))"

section \<open>The repository\<close>

record session_store =
  ssSessions :: "(session_id, UserSession) gomap"
  ssIndex :: "(string, UserSession) gomap"

definition NewInMemoryUserSessionRepository :: session_store where
  "NewInMemoryUserSessionRepository = \<lparr>ssSessions = [], ssIndex = []\<rparr>"

datatype session_error = SessionFault string | SessionStorageError StorageError | ContextDone

definition principalServiceKey :: "principal \<Rightarrow> service_id \<Rightarrow> string" where
  "principalServiceKey p serviceID = p @ ''#'' @ serviceID"

text \<open>What the guard of \<^verbatim>\<open>create\<close> reads of the bound provider repository: the issuer, the discovery
  address and the \<^verbatim>\<open>resource\<close> parameter of a service. Without a bound repository only the
  expectations of the session are checked.\<close>

record discovery_state =
  dsResourceURL :: "string option"
  dsIssuerURI :: string
  dsResource :: string

definition currentDiscoveryStateError ::
  "(service_id \<Rightarrow> discovery_state option) option \<Rightarrow> UserSession \<Rightarrow> string \<Rightarrow> StorageError option" where
  "currentDiscoveryStateError provider session op =
     (let unbound = (usExpectedIssuerURI session = [] \<and> usExpectedResource session = []);
          stale = StorageError op ErrorKindConflict ''provider issuer or audience is no longer current''
      in case provider of
           None \<Rightarrow> if unbound then None else Some stale
         | Some lookup \<Rightarrow>
             (case lookup (usServiceID session) of
                None \<Rightarrow> Some (StorageError op ErrorKindNotFound ''service not found'')
              | Some current \<Rightarrow>
                  if (case dsResourceURL current of
                        None \<Rightarrow> unbound
                      | Some _ \<Rightarrow> usExpectedIssuerURI session \<noteq> [] \<and> usExpectedResource session \<noteq> [] \<and>
                          usExpectedIssuerURI session = dsIssuerURI current \<and> usExpectedResource session = dsResource current)
                  then None else Some stale))"

text \<open>The result is the caller's session, whose identifier \<^verbatim>\<open>create\<close> may change, and the stored copy.
  \<open>ended\<close> says that the context ends before the gate of the session is free.\<close>

definition session_create ::
  "(service_id \<Rightarrow> discovery_state option) option \<Rightarrow> bool \<Rightarrow> bool \<Rightarrow> UserSession \<Rightarrow> session_store \<Rightarrow>
    (session_error + UserSession \<times> UserSession) \<times> session_store" where
  "session_create provider ended replace session s =
     (case UserSession_Validate session of
        Some e \<Rightarrow> (Inl (SessionFault e), s)
      | None \<Rightarrow>
          (case currentDiscoveryStateError provider session (if replace then ''Create'' else ''CreateIfAbsent'') of
             Some e \<Rightarrow> (Inl (SessionStorageError e), s)
           | None \<Rightarrow>
               if ended then (Inl ContextDone, s)
               else
                 let key = principalServiceKey (usPrincipal session) (usServiceID session);
                     put = (\<lambda>session sessions.
                        let stored = session\<lparr>usExpectedIssuerURI := [], usExpectedResource := []\<rparr>
                        in (Inr (session, stored),
                            s\<lparr>ssSessions := AList.update (usID stored) stored sessions, ssIndex := AList.update key stored (ssIndex s)\<rparr>))
                 in case map_of (ssIndex s) key of
                      Some existing \<Rightarrow>
                        if \<not> replace then (Inr (session, existing), s)
                        else put (session\<lparr>usID := usID existing\<rparr>) (AList.delete (usID existing) (ssSessions s))
                    | None \<Rightarrow> put session (ssSessions s)))"

definition session_Get :: "session_id \<Rightarrow> session_store \<Rightarrow> session_error + UserSession" where
  "session_Get sessionID s =
     (if sessionID = uuid_nil then Inl (SessionFault ''session ID cannot be empty'')
      else case map_of (ssSessions s) sessionID of
          None \<Rightarrow> Inl (SessionStorageError (StorageError ''Get'' ErrorKindNotFound ''session not found''))
        | Some session \<Rightarrow> Inr session)"

definition no_pair :: "principal \<Rightarrow> service_id \<Rightarrow> bool" where
  "no_pair p serviceID \<longleftrightarrow> p = [] \<or> serviceID = uuid_nil"

definition pair_required :: session_error where
  "pair_required = SessionFault ''principal and serviceID required''"

definition session_FindByPrincipalAndService :: "principal \<Rightarrow> service_id \<Rightarrow> session_store \<Rightarrow> session_error + UserSession option" where
  "session_FindByPrincipalAndService p serviceID s =
     (if no_pair p serviceID then Inl pair_required
      else Inr (map_of (ssIndex s) (principalServiceKey p serviceID)))"

text \<open>The callback works on a copy of the session and on the world outside the store. It runs while
  the session's gate is held; \<open>late\<close> says that the context ended while it ran.\<close>

definition session_WithLockedSession ::
  "bool \<Rightarrow> bool \<Rightarrow> principal \<Rightarrow> service_id \<Rightarrow> (UserSession \<Rightarrow> 'w \<Rightarrow> ('e + bool) \<times> UserSession \<times> 'w) \<Rightarrow> (session_error \<Rightarrow> 'e) \<Rightarrow>
    session_store \<times> 'w \<Rightarrow> ('e + UserSession option) \<times> session_store \<times> 'w" where
  "session_WithLockedSession ended late p serviceID refresh lift sw =
     (case sw of
        (s, w) \<Rightarrow>
          if no_pair p serviceID then (Inl (lift pair_required), s, w)
          else if ended then (Inl (lift ContextDone), s, w)
          else
            let key = principalServiceKey p serviceID
            in case map_of (ssIndex s) key of
                 None \<Rightarrow> (Inr None, s, w)
               | Some current \<Rightarrow>
                   (case refresh current w of
                      (Inl e, session, w') \<Rightarrow> (Inl e, s, w')
                    | (Inr updated, session, w') \<Rightarrow>
                        let session' = (if usCallbackID session = usCallbackID current
                                        then session\<lparr>usUpstreamClientID := usUpstreamClientID current\<rparr> else session)
                        in if updated
                           then (case UserSession_Validate session' of
                                   Some e \<Rightarrow> (Inl (lift (SessionFault e)), s, w')
                                 | None \<Rightarrow>
                                     if late then (Inl (lift ContextDone), s, w')
                                     else (Inr (Some session'),
                                           s\<lparr>ssIndex := AList.update key session' (ssIndex s),
                                             ssSessions := AList.update (usID session') session' (ssSessions s)\<rparr>, w'))
                           else (Inr (Some session'), s, w')))"

text \<open>
  \<^verbatim>\<open>compareSessionExpiryKey\<close> is called on sessions with an expiry only: the loop skips the others
  before it compares.
\<close>

definition expiry_key :: "UserSession \<Rightarrow> time \<times> session_id" where
  "expiry_key s = (case usAccessTokenExpiresAt s of None \<Rightarrow> 0 | Some e \<Rightarrow> e, usID s)"

definition compareSessionExpiryKey :: "UserSession \<Rightarrow> time \<Rightarrow> session_id \<Rightarrow> int" where
  "compareSessionExpiryKey session expiry sessionID =
     (let e = fst (expiry_key session)
      in if e < expiry then - 1 else if expiry < e then 1
         else if usID session < sessionID then - 1 else if sessionID < usID session then 1 else 0)"

definition compare_sessions :: "UserSession \<Rightarrow> UserSession \<Rightarrow> int" where
  "compare_sessions a b = compareSessionExpiryKey a (fst (expiry_key b)) (usID b)"

definition parent_of :: "nat \<Rightarrow> nat" where
  "parent_of child = (child - 1) div 2"

lemma parent_less: "0 < c \<Longrightarrow> parent_of c < c"
  by (simp add: parent_of_def)

definition swap_at :: "nat \<Rightarrow> nat \<Rightarrow> 'a list \<Rightarrow> 'a list" where
  "swap_at i j xs = xs[i := xs ! j, j := xs ! i]"

function sift_up :: "UserSession list \<Rightarrow> nat \<Rightarrow> UserSession list" where
  "sift_up selected child =
     (if child = 0 then selected
      else let parent = parent_of child
           in if 0 \<le> compare_sessions (selected ! parent) (selected ! child) then selected
              else sift_up (swap_at parent child selected) parent)"
  by pat_completeness auto
termination
  by (relation "measure snd") (auto simp: parent_less)

definition larger_child :: "UserSession list \<Rightarrow> nat \<Rightarrow> nat" where
  "larger_child selected parent =
     (let child = parent * 2 + 1; right = child + 1
      in if right < length selected \<and> 0 < compare_sessions (selected ! right) (selected ! child) then right else child)"

lemma larger_child_greater: "parent < larger_child selected parent"
  by (simp add: larger_child_def Let_def)

lemma length_swap_at [simp]: "length (swap_at i j xs) = length xs"
  by (simp add: swap_at_def)

function sift_down :: "UserSession list \<Rightarrow> nat \<Rightarrow> UserSession list" where
  "sift_down selected parent =
     (if length selected \<le> parent * 2 + 1 then selected
      else let child = larger_child selected parent
           in if 0 \<le> compare_sessions (selected ! parent) (selected ! child) then selected
              else sift_down (swap_at parent child selected) child)"
  by pat_completeness auto
termination
  by (relation "measure (\<lambda>(xs, p). length xs - p)") (use larger_child_greater in \<open>auto simp: diff_less_mono2\<close>)

declare sift_up.simps [simp del] sift_down.simps [simp del]

definition keep_earliest :: "nat \<Rightarrow> UserSession \<Rightarrow> UserSession list \<Rightarrow> UserSession list" where
  "keep_earliest limit session selected =
     (if length selected < limit then sift_up (selected @ [session]) (length selected)
      else if compare_sessions session (selected ! 0) < 0 then sift_down (selected[0 := session]) 0
      else selected)"

record SessionExpiryCursor =
  cuAccessTokenExpiresAt :: time
  cuID :: session_id

definition is_due :: "time \<Rightarrow> SessionExpiryCursor \<Rightarrow> UserSession \<Rightarrow> bool" where
  "is_due threshold cursor session \<longleftrightarrow>
     \<not> (RefreshRejected session \<or> usAccessTokenExpiresAt session = None \<or>
        (case usAccessTokenExpiresAt session of None \<Rightarrow> False | Some e \<Rightarrow> time_after e threshold)) \<and>
     \<not> (cuID cursor \<noteq> uuid_nil \<and> compareSessionExpiryKey session (cuAccessTokenExpiresAt cursor) (cuID cursor) \<le> 0)"

text \<open>\<open>interrupted\<close> says that one of the checks of the context during the scan finds it ended. The
  final \<^verbatim>\<open>sort.Slice\<close> is by the same key; keys are distinct, so the order is the only one.\<close>

definition ListExpiringSessions ::
  "bool \<Rightarrow> time \<Rightarrow> SessionExpiryCursor \<Rightarrow> int \<Rightarrow> session_store \<Rightarrow> StorageError + UserSession list" where
  "ListExpiringSessions interrupted threshold cursor limit s =
     (let op = ''ListExpiringSessions''
      in if limit < 1 \<or> 1000 < limit then Inl (StorageError op ErrorKindValidation ''limit must be between 1 and 1000'')
         else if cuID cursor = uuid_nil \<and> \<not> time_is_zero (cuAccessTokenExpiresAt cursor)
         then Inl (StorageError op ErrorKindValidation ''cursor expiry requires a session ID'')
         else if interrupted then Inl (StorageError op ErrorKindTimeout ''operation cancelled or timed out'')
         else Inr (sort_key expiry_key
                (fold (\<lambda>(k, session) selected.
                   if is_due threshold cursor session then keep_earliest (nat limit) session selected else selected)
                 (ssSessions s) [])))"

datatype AccessExpiryClass = AccessExpiryUnknown | AccessExpiryAfterThreshold | AccessExpiryDue | AccessExpiryExpired

definition expiry_class :: "time \<Rightarrow> time \<Rightarrow> UserSession \<Rightarrow> AccessExpiryClass" where
  "expiry_class threshold now session =
     (case usAccessTokenExpiresAt session of
        None \<Rightarrow> AccessExpiryUnknown
      | Some e \<Rightarrow> if time_after e threshold then AccessExpiryAfterThreshold
                 else if time_after e now then AccessExpiryDue else AccessExpiryExpired)"

record SessionExpiryGroup =
  sgServiceID :: service_id
  sgAccessExpiry :: AccessExpiryClass
  sgRefreshUsable :: bool
  sgCount :: nat

type_synonym group_key = "service_id \<times> AccessExpiryClass \<times> bool"

definition session_group :: "time \<Rightarrow> time \<Rightarrow> UserSession \<Rightarrow> group_key" where
  "session_group threshold now session = (usServiceID session, expiry_class threshold now session, CanRefresh session)"

definition count_one :: "group_key \<Rightarrow> (group_key, nat) gomap \<Rightarrow> (group_key, nat) gomap" where
  "count_one key counts =
     AList.update key (Suc (case map_of counts key of None \<Rightarrow> 0 | Some n \<Rightarrow> n)) counts"

definition CountSessionsByExpiry ::
  "bool \<Rightarrow> time \<Rightarrow> time \<Rightarrow> session_store \<Rightarrow> StorageError + SessionExpiryGroup list" where
  "CountSessionsByExpiry interrupted threshold now s =
     (if interrupted then Inl (StorageError ''CountSessionsByExpiry'' ErrorKindTimeout ''operation cancelled or timed out'')
      else Inr (map (\<lambda>((serviceID, class, usable), n).
                  \<lparr>sgServiceID = serviceID, sgAccessExpiry = class, sgRefreshUsable = usable, sgCount = n\<rparr>)
                (fold (\<lambda>(k, session). count_one (session_group threshold now session)) (ssSessions s) [])))"

definition principal_required :: session_error where
  "principal_required = SessionFault ''principal required''"

definition sessions_of :: "principal \<Rightarrow> session_store \<Rightarrow> UserSession list" where
  "sessions_of p s = filter (\<lambda>session. usPrincipal session = p) (map snd (ssSessions s))"

definition session_ListByPrincipal :: "principal \<Rightarrow> session_store \<Rightarrow> session_error + UserSession list" where
  "session_ListByPrincipal p s = (if p = [] then Inl principal_required else Inr (sessions_of p s))"

definition session_ListSummariesByPrincipal :: "time \<Rightarrow> principal \<Rightarrow> session_store \<Rightarrow> session_error + UserSessionSummary list" where
  "session_ListSummariesByPrincipal now p s =
     (if p = [] then Inl principal_required else Inr (map (\<lambda>session. NewUserSessionSummary now session [] 0) (sessions_of p s)))"

definition session_ListActiveByPrincipal :: "time \<Rightarrow> principal \<Rightarrow> session_store \<Rightarrow> session_error + UserSession list" where
  "session_ListActiveByPrincipal now p s =
     (if p = [] then Inl principal_required
      else Inr (filter (\<lambda>session. \<not> session_RequiresReauthentication now session) (sessions_of p s)))"

definition session_ListActiveServiceIDsByPrincipal :: "time \<Rightarrow> principal \<Rightarrow> session_store \<Rightarrow> session_error + service_id list" where
  "session_ListActiveServiceIDsByPrincipal now p s =
     (if p = [] then Inl principal_required
      else Inr (map usServiceID (filter (\<lambda>session. \<not> session_RequiresReauthentication now session) (sessions_of p s))))"

text \<open>\<^verbatim>\<open>Delete\<close> finds the session, waits for its gate and looks again; it starts over when the
  identifier has come to belong to another pair in between.\<close>

definition delete_lookup :: "session_id \<Rightarrow> session_store \<Rightarrow> string option" where
  "delete_lookup sessionID s =
     map_option (\<lambda>session. principalServiceKey (usPrincipal session) (usServiceID session)) (map_of (ssSessions s) sessionID)"

definition delete_locked :: "session_id \<Rightarrow> string \<Rightarrow> session_store \<Rightarrow> session_store option" where
  "delete_locked sessionID key s =
     (case delete_lookup sessionID s of
        None \<Rightarrow> Some s
      | Some key' \<Rightarrow>
          if key' \<noteq> key then None
          else Some (s\<lparr>ssSessions := AList.delete sessionID (ssSessions s), ssIndex := AList.delete key (ssIndex s)\<rparr>))"

definition session_Delete :: "bool \<Rightarrow> session_id \<Rightarrow> session_store \<Rightarrow> session_error option \<times> session_store" where
  "session_Delete ended sessionID s =
     (if sessionID = uuid_nil then (Some (SessionFault ''session ID cannot be empty''), s)
      else case delete_lookup sessionID s of
          None \<Rightarrow> (None, s)
        | Some key \<Rightarrow>
            if ended then (Some ContextDone, s)
            else (None, case delete_locked sessionID key s of None \<Rightarrow> s | Some s' \<Rightarrow> s'))"

definition session_DeleteByPrincipalAndService ::
  "bool \<Rightarrow> principal \<Rightarrow> service_id \<Rightarrow> session_store \<Rightarrow> session_error option \<times> session_store" where
  "session_DeleteByPrincipalAndService ended p serviceID s =
     (if no_pair p serviceID then (Some pair_required, s)
      else if ended then (Some ContextDone, s)
      else let key = principalServiceKey p serviceID
           in case map_of (ssIndex s) key of
                None \<Rightarrow> (None, s)
              | Some session \<Rightarrow>
                  (None, s\<lparr>ssSessions := AList.delete (usID session) (ssSessions s), ssIndex := AList.delete key (ssIndex s)\<rparr>))"

definition session_CountByService :: "service_id \<Rightarrow> session_store \<Rightarrow> session_error + nat" where
  "session_CountByService serviceID s =
     (if serviceID = uuid_nil then Inl (SessionFault ''serviceID required'')
      else Inr (length (filter (\<lambda>session. usServiceID session = serviceID) (map snd (ssSessions s)))))"

section \<open>The bounded heap\<close>

text \<open>The heap is ordered by a key: no element is above its parent, except where a loop is at work.\<close>

definition heap_edge :: "('a \<Rightarrow> 'k::linorder) \<Rightarrow> 'a list \<Rightarrow> nat \<Rightarrow> bool" where
  "heap_edge f xs c \<longleftrightarrow> f (xs ! c) \<le> f (xs ! parent_of c)"

definition max_heap :: "('a \<Rightarrow> 'k::linorder) \<Rightarrow> 'a list \<Rightarrow> bool" where
  "max_heap f xs \<longleftrightarrow> (\<forall>c. 0 < c \<and> c < length xs \<longrightarrow> heap_edge f xs c)"

definition heap_but_up :: "('a \<Rightarrow> 'k::linorder) \<Rightarrow> 'a list \<Rightarrow> nat \<Rightarrow> bool" where
  "heap_but_up f xs k \<longleftrightarrow>
     (\<forall>c. 0 < c \<and> c < length xs \<and> c \<noteq> k \<longrightarrow> heap_edge f xs c) \<and>
     (\<forall>c. 0 < c \<and> c < length xs \<and> 0 < k \<and> parent_of c = k \<longrightarrow> f (xs ! c) \<le> f (xs ! parent_of k))"

definition heap_but_down :: "('a \<Rightarrow> 'k::linorder) \<Rightarrow> 'a list \<Rightarrow> nat \<Rightarrow> bool" where
  "heap_but_down f xs k \<longleftrightarrow>
     (\<forall>c. 0 < c \<and> c < length xs \<and> parent_of c \<noteq> k \<longrightarrow> heap_edge f xs c) \<and>
     (\<forall>c. 0 < c \<and> c < length xs \<and> 0 < k \<and> parent_of c = k \<longrightarrow> f (xs ! c) \<le> f (xs ! parent_of k))"

lemma max_heap_root:
  assumes "max_heap f xs" and "i < length xs"
  shows "f (xs ! i) \<le> f (xs ! 0)"
  using assms(2)
proof (induction i rule: less_induct)
  case (less i)
  show ?case
  proof (cases "i = 0")
    case False
    then have "f (xs ! parent_of i) \<le> f (xs ! 0)" using less parent_less [of i] by auto
    moreover have "f (xs ! i) \<le> f (xs ! parent_of i)"
      using assms(1) less.prems False by (auto simp: max_heap_def heap_edge_def)
    ultimately show ?thesis by (rule order_trans [rotated])
  qed simp
qed

lemma mset_swap_at: "i < length xs \<Longrightarrow> j < length xs \<Longrightarrow> mset (swap_at i j xs) = mset xs"
  by (simp add: swap_at_def mset_swap)

lemma nth_swap_at:
  "i < length xs \<Longrightarrow> j < length xs \<Longrightarrow> swap_at i j xs ! n = (if n = i then xs ! j else if n = j then xs ! i else xs ! n)"
  by (auto simp: swap_at_def nth_list_update)

lemma heap_but_up_swap:
  assumes "heap_but_up f xs k" and k: "k < length xs" "0 < k" and lt: "f (xs ! parent_of k) < f (xs ! k)"
  shows "heap_but_up f (swap_at (parent_of k) k xs) (parent_of k)"
proof -
  let ?p = "parent_of k"
  have p: "?p < k" "?p < length xs" using parent_less [of k] k by auto
  have edge: "f (xs ! c) \<le> f (xs ! parent_of c)" if "0 < c" "c < length xs" "c \<noteq> k" for c
    using assms(1) that by (auto simp: heap_but_up_def heap_edge_def)
  have below: "f (xs ! c) \<le> f (xs ! ?p)" if "0 < c" "c < length xs" "parent_of c = k" for c
    using assms(1) that k by (auto simp: heap_but_up_def)
  note swap = nth_swap_at [OF p(2) k(1)]
  show ?thesis unfolding heap_but_up_def
  proof (intro conjI allI impI, goal_cases)
    case (1 c)
    then have c: "0 < c" "c < length xs" "c \<noteq> ?p" by simp_all
    consider "c = k" | "c \<noteq> k" "parent_of c = ?p" | "c \<noteq> k" "parent_of c = k" | "c \<noteq> k" "parent_of c \<noteq> ?p" "parent_of c \<noteq> k" by blast
    then show ?case
    proof cases
      case 1
      with lt p k show ?thesis by (simp add: heap_edge_def swap)
    next
      case 2
      with edge [OF c(1,2)] lt c show ?thesis by (simp add: heap_edge_def swap)
    next
      case 3
      with below [OF c(1,2)] p c show ?thesis by (simp add: heap_edge_def swap)
    next
      case 4
      with edge [OF c(1,2)] c show ?thesis by (simp add: heap_edge_def swap)
    qed
  next
    case (2 c)
    then have c: "0 < c" "c < length xs" "0 < ?p" "parent_of c = ?p" by simp_all
    have g: "parent_of ?p < ?p" using c(3) by (rule parent_less)
    have gp: "f (xs ! ?p) \<le> f (xs ! parent_of ?p)" using edge [of ?p] p c by simp
    have "swap_at ?p k xs ! c = (if c = k then xs ! ?p else xs ! c)" using c parent_less [OF c(1)] by (simp add: swap)
    moreover have "swap_at ?p k xs ! parent_of ?p = xs ! parent_of ?p" using g p by (simp add: swap)
    moreover have "f (xs ! c) \<le> f (xs ! ?p)" if "c \<noteq> k" using edge [OF c(1,2) that] c(4) by simp
    ultimately show ?case using gp by (auto intro: order_trans)
  qed
qed

lemma heap_but_down_swap:
  assumes "heap_but_down f xs k" and c: "c < length xs" "0 < c" "parent_of c = k" and lt: "f (xs ! k) < f (xs ! c)"
    and large: "\<And>d. 0 < d \<Longrightarrow> d < length xs \<Longrightarrow> parent_of d = k \<Longrightarrow> f (xs ! d) \<le> f (xs ! c)"
  shows "heap_but_down f (swap_at k c xs) c"
proof -
  have k: "k < c" "k < length xs" using parent_less [of c] c by auto
  have edge: "f (xs ! d) \<le> f (xs ! parent_of d)" if "0 < d" "d < length xs" "parent_of d \<noteq> k" for d
    using assms(1) that by (auto simp: heap_but_down_def heap_edge_def)
  have above: "f (xs ! d) \<le> f (xs ! parent_of k)" if "0 < d" "d < length xs" "parent_of d = k" "0 < k" for d
    using assms(1) that by (auto simp: heap_but_down_def)
  note swap = nth_swap_at [OF k(2) c(1)]
  show ?thesis unfolding heap_but_down_def
  proof (intro conjI allI impI, goal_cases)
    case (1 d)
    then have d: "0 < d" "d < length xs" "parent_of d \<noteq> c" by simp_all
    then have g: "parent_of d < d" by (simp add: parent_less)
    consider "d = k" | "d = c" | "d \<noteq> k" "d \<noteq> c" "parent_of d = k" | "d \<noteq> k" "d \<noteq> c" "parent_of d \<noteq> k" by blast
    then show ?case
    proof cases
      case 1
      with d g k above [OF c(2,1,3)] show ?thesis by (simp add: heap_edge_def swap)
    next
      case 2
      with lt c k show ?thesis by (simp add: heap_edge_def swap)
    next
      case 3
      with large [OF d(1,2)] k show ?thesis by (simp add: heap_edge_def swap)
    next
      case 4
      with edge [OF d(1,2)] d show ?thesis by (simp add: heap_edge_def swap)
    qed
  next
    case (2 d)
    then have d: "0 < d" "d < length xs" "parent_of d = c" by simp_all
    have "d \<noteq> k" "d \<noteq> c" using parent_less [OF d(1)] d(3) k by auto
    with d c k edge [OF d(1,2)] show ?case by (simp add: swap)
  qed
qed

lemma compare_sessions_key:
  "compare_sessions a b < 0 \<longleftrightarrow> expiry_key a < expiry_key b"
  "0 \<le> compare_sessions a b \<longleftrightarrow> expiry_key b \<le> expiry_key a"
  "0 < compare_sessions a b \<longleftrightarrow> expiry_key b < expiry_key a"
  by (auto simp: compare_sessions_def compareSessionExpiryKey_def Let_def expiry_key_def less_prod_def less_eq_prod_def)

lemma sift_up_heap:
  assumes "k < length xs" and "heap_but_up expiry_key xs k"
  shows "max_heap expiry_key (sift_up xs k) \<and> mset (sift_up xs k) = mset xs"
  using assms
proof (induction xs k rule: sift_up.induct)
  case (1 xs k)
  show ?case
  proof (cases "0 < k \<and> expiry_key (xs ! parent_of k) < expiry_key (xs ! k)")
    case True
    then have p: "parent_of k < length xs" using parent_less [of k] "1.prems"(1) by auto
    have "heap_but_up expiry_key (swap_at (parent_of k) k xs) (parent_of k)"
      using heap_but_up_swap "1.prems" True by blast
    with "1.IH" [OF _ refl] True p have "max_heap expiry_key (sift_up (swap_at (parent_of k) k xs) (parent_of k)) \<and>
        mset (sift_up (swap_at (parent_of k) k xs) (parent_of k)) = mset (swap_at (parent_of k) k xs)"
      by (simp add: compare_sessions_key not_le)
    moreover have "sift_up xs k = sift_up (swap_at (parent_of k) k xs) (parent_of k)"
      using True by (subst sift_up.simps) (auto simp: compare_sessions_key Let_def dest: leD)
    ultimately show ?thesis using p "1.prems"(1) by (simp add: mset_swap_at)
  next
    case False
    then have "sift_up xs k = xs" by (subst sift_up.simps) (auto simp: compare_sessions_key Let_def)
    moreover have "max_heap expiry_key xs"
      using "1.prems"(2) False by (auto simp: max_heap_def heap_but_up_def heap_edge_def not_less)
    ultimately show ?thesis by simp
  qed
qed

lemma parent_of_children: "0 < d \<Longrightarrow> parent_of d = k \<longleftrightarrow> d = k * 2 + 1 \<or> d = k * 2 + 2"
  by (cases d) (auto simp: parent_of_def)

lemma larger_child_heap:
  assumes "k * 2 + 1 < length xs"
  shows "larger_child xs k < length xs" "0 < larger_child xs k" "parent_of (larger_child xs k) = k"
    and "0 < d \<Longrightarrow> d < length xs \<Longrightarrow> parent_of d = k \<Longrightarrow> expiry_key (xs ! d) \<le> expiry_key (xs ! larger_child xs k)"
  using assms by (auto simp: larger_child_def Let_def compare_sessions_key parent_of_children not_less)

lemma sift_down_heap:
  assumes "k < length xs" and "heap_but_down expiry_key xs k"
  shows "max_heap expiry_key (sift_down xs k) \<and> mset (sift_down xs k) = mset xs"
  using assms
proof (induction xs k rule: sift_down.induct)
  case (1 xs k)
  let ?c = "larger_child xs k"
  consider (leaf) "length xs \<le> k * 2 + 1" | (stop) "k * 2 + 1 < length xs" "expiry_key (xs ! ?c) \<le> expiry_key (xs ! k)"
    | (swap) "k * 2 + 1 < length xs" "expiry_key (xs ! k) < expiry_key (xs ! ?c)" by fastforce
  then show ?case
  proof cases
    case leaf
    then have "sift_down xs k = xs" by (subst sift_down.simps) simp
    moreover have "max_heap expiry_key xs"
      using "1.prems"(2) leaf parent_of_children [where k = k] by (auto simp: max_heap_def heap_but_down_def) 
    ultimately show ?thesis by simp
  next
    case stop
    then have "sift_down xs k = xs" by (subst sift_down.simps) (simp add: compare_sessions_key Let_def)
    moreover have "heap_edge expiry_key xs d" if "0 < d" "d < length xs" for d
      using "1.prems"(2) larger_child_heap(4) [OF stop(1) that] stop(2) that
      by (cases "parent_of d = k") (auto simp: heap_but_down_def heap_edge_def)
    ultimately show ?thesis by (simp add: max_heap_def)
  next
    case swap
    note c = larger_child_heap [OF swap(1)]
    have "heap_but_down expiry_key (swap_at k ?c xs) ?c"
      by (rule heap_but_down_swap [OF "1.prems"(2) c(1,2,3) swap(2) c(4)])
    with "1.IH" [OF _ refl] swap c(1) have "max_heap expiry_key (sift_down (swap_at k ?c xs) ?c) \<and>
        mset (sift_down (swap_at k ?c xs) ?c) = mset (swap_at k ?c xs)"
      by (simp add: compare_sessions_key not_le)
    moreover have "sift_down xs k = sift_down (swap_at k ?c xs) ?c"
      using swap by (subst sift_down.simps) (auto simp: compare_sessions_key Let_def dest: leD)
    ultimately show ?thesis using c(1) "1.prems"(1) by (simp add: mset_swap_at)
  qed
qed

text \<open>What the loop keeps: a heap of the earliest elements seen so far.\<close>

definition earliest :: "nat \<Rightarrow> ('a \<Rightarrow> 'k::linorder) \<Rightarrow> 'a multiset \<Rightarrow> 'a multiset \<Rightarrow> bool" where
  "earliest n f M sel \<longleftrightarrow> sel \<subseteq># M \<and> size sel = min n (size M) \<and> (\<forall>x \<in># sel. \<forall>y \<in># M - sel. f x \<le> f y)"

lemma keep_earliest_step:
  assumes heap: "max_heap expiry_key sel" and top: "earliest n expiry_key M (mset sel)" and n: "0 < n"
  shows "max_heap expiry_key (keep_earliest n x sel) \<and> earliest n expiry_key (add_mset x M) (mset (keep_earliest n x sel))"
proof -
  have sub: "mset sel \<subseteq># M" and size: "length sel = min n (size M)"
    and le: "\<And>x y. x \<in># mset sel \<Longrightarrow> y \<in># M - mset sel \<Longrightarrow> expiry_key x \<le> expiry_key y"
    using top by (auto simp: earliest_def)
  consider (room) "length sel < n" | (replace) "\<not> length sel < n" "expiry_key x < expiry_key (sel ! 0)"
    | (skip) "\<not> length sel < n" "expiry_key (sel ! 0) \<le> expiry_key x" by fastforce
  then show ?thesis
  proof cases
    case room
    then have all: "mset sel = M" using sub size by (metis min_less_iff_conj mset_subset_size nless_le size_mset subset_mset.order_iff_strict min.strict_order_iff)
    have "heap_but_up expiry_key (sel @ [x]) (length sel)"
      using heap parent_less parent_of_children [of _ "length sel"]
      by (auto simp: heap_but_up_def max_heap_def heap_edge_def nth_append less_Suc_eq) (metis less_trans)+
    from sift_up_heap [OF _ this] room all size_mset [of sel] show ?thesis
      by (simp add: keep_earliest_def earliest_def)
  next
    case replace
    with n have ne: "0 < length sel" by auto
    let ?l = "sel[0 := x]"
    have "heap_but_down expiry_key ?l 0"
      using heap ne by (auto simp: heap_but_down_def max_heap_def heap_edge_def nth_list_update)
    from sift_down_heap [OF _ this] ne replace have k: "max_heap expiry_key (keep_earliest n x sel)" "mset (keep_earliest n x sel) = mset ?l"
      by (simp_all add: keep_earliest_def compare_sessions_key)
    have l: "mset ?l = add_mset x (mset sel - {#sel ! 0#})" using ne by (simp add: mset_update)
    have in0: "sel ! 0 \<in># mset sel" using ne by simp
    have sub': "mset ?l \<subseteq># add_mset x M" unfolding l using sub by (meson diff_subset_eq_self mset_subset_eq_add_mset_cancel subset_mset.order_trans)
    have rest: "add_mset x M - mset ?l = add_mset (sel ! 0) (M - mset sel)"
      unfolding l using sub in0 by (simp add: insert_DiffM multiset_eq_iff subseteq_mset_def Suc_diff_le)
    have root: "expiry_key y \<le> expiry_key (sel ! 0)" if "y \<in># mset sel" for y
      using max_heap_root [OF heap] that by (auto simp: in_set_conv_nth)
    have "expiry_key a \<le> expiry_key b" if "a \<in># mset ?l" "b \<in># add_mset x M - mset ?l" for a b
    proof -
      have "a = x \<or> a \<in># mset sel" using that(1) unfolding l by (auto dest: in_diffD)
      then have "expiry_key a \<le> expiry_key (sel ! 0)" using root replace(2) by (auto intro: less_imp_le)
      moreover have "expiry_key (sel ! 0) \<le> expiry_key b" using that(2) le [OF in0] unfolding rest by auto
      ultimately show ?thesis by (rule order_trans)
    qed
    moreover have "size (mset ?l) = min n (size (add_mset x M))" using size replace ne by simp
    ultimately show ?thesis using k sub' by (simp add: earliest_def)
  next
    case skip
    with n have ne: "0 < length sel" by auto
    have "add_mset x M - mset sel = add_mset x (M - mset sel)" using sub by (simp add: multiset_eq_iff subseteq_mset_def Suc_diff_le)
    moreover have "expiry_key y \<le> expiry_key x" if "y \<in># mset sel" for y
      using max_heap_root [OF heap] that skip(2) by (auto simp: in_set_conv_nth intro: order_trans)
    ultimately have "earliest n expiry_key (add_mset x M) (mset sel)"
      using sub size skip(1) le by (auto simp: earliest_def subseteq_mset_def le_SucI)
    with heap skip show ?thesis by (auto simp: keep_earliest_def compare_sessions_key dest: leD)
  qed
qed

lemma earliest_empty: "earliest n f {#} {#}"
  by (simp add: earliest_def)

lemma keep_earliest_fold:
  assumes "0 < n"
  shows "max_heap expiry_key sel \<Longrightarrow> earliest n expiry_key M (mset sel) \<Longrightarrow>
    earliest n expiry_key (mset (filter P (map snd kvs)) + M)
      (mset (fold (\<lambda>(k, session) selected. if P session then keep_earliest n session selected else selected) kvs sel))"
proof (induction kvs arbitrary: sel M)
  case (Cons a kvs)
  show ?case
  proof (cases "P (snd a)")
    case True
    from keep_earliest_step [OF Cons.prems assms, of "snd a"] Cons.IH [of "keep_earliest n (snd a) sel" "add_mset (snd a) M"] True
    show ?thesis by (simp add: case_prod_unfold)
  qed (use Cons in \<open>simp add: case_prod_unfold\<close>)
qed simp

lemma earliest_sorted_prefix:
  fixes f :: "'a \<Rightarrow> 'k::linorder"
  assumes top: "earliest n f (mset xs) (mset sel)" and inj: "inj_on f (set xs)"
  shows "sort_key f sel = take n (sort_key f xs)"
proof -
  obtain rest where rest: "mset rest = mset xs - mset sel" by (metis ex_mset)
  have sub: "mset sel \<subseteq># mset xs" and size: "length sel = min n (length xs)"
    and le: "\<And>x y. x \<in> set sel \<Longrightarrow> y \<in> set rest \<Longrightarrow> f x \<le> f y"
    using top rest by (auto simp: earliest_def simp flip: set_mset_mset)
  have all: "mset xs = mset (sel @ rest)" using sub rest by (simp add: subset_mset.add_diff_inverse)
  have "sort_key f xs = sort_key f sel @ sort_key f rest"
    by (rule sort_key_inj_key_eq) (use all inj le in \<open>auto simp: sorted_append\<close>)
  moreover have "length xs = length sel + length rest" using all by (metis length_append size_mset)
  ultimately show ?thesis using size by (simp add: min_def split: if_splits)
qed

section \<open>The invariant\<close>

text \<open>Both maps hold the same valid sessions, under their identifier and under their pair.\<close>

definition session_key :: "UserSession \<Rightarrow> string" where
  "session_key s = principalServiceKey (usPrincipal s) (usServiceID s)"

definition session_invar :: "session_store \<Rightarrow> bool" where
  "session_invar s \<longleftrightarrow> wf_gomap (ssSessions s) \<and> wf_gomap (ssIndex s) \<and>
     (\<forall>i se. map_of (ssSessions s) i = Some se \<longrightarrow>
        usID se = i \<and> UserSession_Validate se = None \<and> uuid_text (usServiceID se) \<and> map_of (ssIndex s) (session_key se) = Some se) \<and>
     (\<forall>k se. map_of (ssIndex s) k = Some se \<longrightarrow> k = session_key se \<and> map_of (ssSessions s) (usID se) = Some se)"

definition session_abs :: "session_store \<Rightarrow> (principal \<times> service_id) \<Rightarrow> UserSession option" where
  "session_abs s = (\<lambda>(p, svc). if uuid_text svc then map_of (ssIndex s) (principalServiceKey p svc) else None)"

lemma principalServiceKey_inject:
  "uuid_text a \<Longrightarrow> uuid_text b \<Longrightarrow> principalServiceKey p a = principalServiceKey q b \<longleftrightarrow> p = q \<and> a = b"
  by (auto simp: principalServiceKey_def uuid_text_def)

lemma session_invar_index:
  assumes "session_invar s" and "map_of (ssIndex s) k = Some se"
  shows "k = session_key se" "map_of (ssSessions s) (usID se) = Some se" "UserSession_Validate se = None" "uuid_text (usServiceID se)"
  using assms unfolding session_invar_def by blast+

lemma session_invar_sessions:
  assumes "session_invar s" and "map_of (ssSessions s) i = Some se"
  shows "usID se = i" "UserSession_Validate se = None" "uuid_text (usServiceID se)" "map_of (ssIndex s) (session_key se) = Some se"
  using assms unfolding session_invar_def by blast+

lemma session_abs_Some:
  assumes "session_invar s" and "session_abs s (p, svc) = Some se"
  shows "usPrincipal se = p \<and> usServiceID se = svc \<and> UserSession_Validate se = None \<and>
    map_of (ssSessions s) (usID se) = Some se"
proof -
  from assms(2) have u: "uuid_text svc" and m: "map_of (ssIndex s) (principalServiceKey p svc) = Some se"
    by (auto simp: session_abs_def split: if_splits)
  from session_invar_index [OF assms(1) m] u show ?thesis by (simp add: session_key_def principalServiceKey_inject)
qed

lemma new_session_invar: "session_invar NewInMemoryUserSessionRepository"
  by (simp add: session_invar_def NewInMemoryUserSessionRepository_def)

lemma session_put_invar:
  assumes inv: "session_invar s" and v: "UserSession_Validate se = None" "uuid_text (usServiceID se)"
    and old: "\<And>e. map_of (ssIndex s) (session_key se) = Some e \<Longrightarrow> usID e = usID se"
    and free: "map_of (ssIndex s) (session_key se) = None \<Longrightarrow> map_of (ssSessions s) (usID se) = None"
    and upd: "map_of sess = (map_of (ssSessions s))(usID se \<mapsto> se)" "wf_gomap sess"
  shows "session_invar (s\<lparr>ssSessions := sess, ssIndex := AList.update (session_key se) se (ssIndex s)\<rparr>)" (is "session_invar ?s")
  unfolding session_invar_def
proof (intro conjI allI impI)
  show "wf_gomap (ssSessions ?s)" "wf_gomap (ssIndex ?s)" using inv upd by (simp_all add: session_invar_def)
next
  fix i e assume "map_of (ssSessions ?s) i = Some e"
  then consider (new) "i = usID se" "e = se" | (other) "i \<noteq> usID se" "map_of (ssSessions s) i = Some e"
    by (auto simp: upd(1) simp del: map_of_eq_Some_iff split: if_splits)
  then have "usID e = i \<and> UserSession_Validate e = None \<and> uuid_text (usServiceID e) \<and> map_of (ssIndex ?s) (session_key e) = Some e"
  proof cases
    case new
    with v show ?thesis by (simp add: go_map_simps)
  next
    case other
    note o = session_invar_sessions [OF inv other(2)]
    with old [of e] other(1) have "session_key e \<noteq> session_key se" by auto
    with o show ?thesis by (simp add: go_map_simps)
  qed
  then show "usID e = i" "UserSession_Validate e = None" "uuid_text (usServiceID e)" "map_of (ssIndex ?s) (session_key e) = Some e"
    by blast+
next
  fix k e assume "map_of (ssIndex ?s) k = Some e"
  then consider (new) "k = session_key se" "e = se" | (other) "k \<noteq> session_key se" "map_of (ssIndex s) k = Some e"
    by (auto simp: go_map_simps simp del: map_of_eq_Some_iff split: if_splits)
  then have "k = session_key e \<and> map_of (ssSessions ?s) (usID e) = Some e"
  proof cases
    case new
    then show ?thesis by (simp add: upd(1))
  next
    case other
    note o = session_invar_index [OF inv other(2)]
    have "usID e \<noteq> usID se"
    proof
      assume e: "usID e = usID se"
      with o(2) free obtain d where d: "map_of (ssIndex s) (session_key se) = Some d" by fastforce
      from session_invar_index(2) [OF inv d] old [OF d] e o(2) have "d = e" by simp
      with session_invar_index(1) [OF inv d] o(1) other(1) show False by simp
    qed
    with o show ?thesis by (simp add: upd(1))
  qed
  then show "k = session_key e" "map_of (ssSessions ?s) (usID e) = Some e" by blast+
qed

lemma session_abs_put:
  assumes "uuid_text (usServiceID se)"
  shows "session_abs (s\<lparr>ssSessions := x, ssIndex := AList.update (session_key se) se (ssIndex s)\<rparr>) =
    (session_abs s)((usPrincipal se, usServiceID se) \<mapsto> se)"
  using assms by (auto simp: fun_eq_iff session_abs_def session_key_def map_of_update principalServiceKey_inject)

lemma session_abs_remove:
  assumes "uuid_text (usServiceID se)"
  shows "session_abs (s\<lparr>ssSessions := x, ssIndex := AList.delete (session_key se) (ssIndex s)\<rparr>) =
    (session_abs s)((usPrincipal se, usServiceID se) := None)"
  using assms by (auto simp: fun_eq_iff session_abs_def session_key_def map_of_delete principalServiceKey_inject)

lemma session_remove_invar:
  assumes inv: "session_invar s" and se: "map_of (ssIndex s) (session_key se) = Some se"
  shows "session_invar (s\<lparr>ssSessions := AList.delete (usID se) (ssSessions s), ssIndex := AList.delete (session_key se) (ssIndex s)\<rparr>)"
    (is "session_invar ?s")
  unfolding session_invar_def
proof (intro conjI allI impI)
  show "wf_gomap (ssSessions ?s)" "wf_gomap (ssIndex ?s)" using inv by (simp_all add: session_invar_def)
next
  fix i e assume "map_of (ssSessions ?s) i = Some e"
  then have i: "i \<noteq> usID se" "map_of (ssSessions s) i = Some e"
    by (auto simp: go_map_simps simp del: map_of_eq_Some_iff split: if_splits)
  note o = session_invar_sessions [OF inv i(2)]
  have "session_key e \<noteq> session_key se"
  proof
    assume "session_key e = session_key se"
    with o(4) se have "e = se" by (metis option.inject)
    with o(1) i(1) show False by simp
  qed
  with o show "usID e = i" "UserSession_Validate e = None" "uuid_text (usServiceID e)" "map_of (ssIndex ?s) (session_key e) = Some e"
    by (simp_all add: go_map_simps)
next
  fix k e assume "map_of (ssIndex ?s) k = Some e"
  then have k: "k \<noteq> session_key se" "map_of (ssIndex s) k = Some e"
    by (auto simp: go_map_simps simp del: map_of_eq_Some_iff split: if_splits)
  note o = session_invar_index [OF inv k(2)]
  have "usID e \<noteq> usID se"
  proof
    assume "usID e = usID se"
    with o(2) session_invar_index(2) [OF inv se] have "e = se" by (metis option.inject)
    with o(1) k(1) show False by simp
  qed
  with o show "k = session_key e" "map_of (ssSessions ?s) (usID e) = Some e" by (simp_all add: go_map_simps)
qed

section \<open>The repository port\<close>

text \<open>The operations of \<^verbatim>\<open>ports.UserSessionRepository\<close> and \<^verbatim>\<open>UserSessionRefreshRepository\<close> the session
  service calls, and what it relies on. The state is read as a map from pairs to sessions.\<close>

record ('st, 'w, 'e) session_port =
  spFind :: "principal \<Rightarrow> service_id \<Rightarrow> 'st \<Rightarrow> session_error + UserSession option"
  spCreate :: "bool \<Rightarrow> UserSession \<Rightarrow> 'st \<Rightarrow> (session_error + UserSession) \<times> 'st"
  spWithLockedSession :: "bool \<Rightarrow> bool \<Rightarrow> principal \<Rightarrow> service_id \<Rightarrow> (UserSession \<Rightarrow> 'w \<Rightarrow> ('e + bool) \<times> UserSession \<times> 'w) \<Rightarrow>
    (session_error \<Rightarrow> 'e) \<Rightarrow> 'st \<times> 'w \<Rightarrow> ('e + UserSession option) \<times> 'st \<times> 'w"
  spDeleteByPrincipalAndService :: "bool \<Rightarrow> principal \<Rightarrow> service_id \<Rightarrow> 'st \<Rightarrow> session_error option \<times> 'st"

definition memory_session_port :: "(service_id \<Rightarrow> discovery_state option) option \<Rightarrow> (session_store, 'w, 'e) session_port" where
  "memory_session_port provider =
     \<lparr>spFind = session_FindByPrincipalAndService,
      spCreate = (\<lambda>ended session s. case session_create provider ended True session s of
         (Inl e, s') \<Rightarrow> (Inl e, s') | (Inr (caller, stored), s') \<Rightarrow> (Inr caller, s')),
      spWithLockedSession = session_WithLockedSession,
      spDeleteByPrincipalAndService = session_DeleteByPrincipalAndService\<rparr>"

type_synonym session_map = "principal \<times> service_id \<rightharpoonup> UserSession"

abbreviation session_pair :: "UserSession \<Rightarrow> principal \<times> service_id" where
  "session_pair se \<equiv> (usPrincipal se, usServiceID se)"

text \<open>The identifier drawn for a new session belongs to no stored one.\<close>

definition fresh_session_id :: "session_map \<Rightarrow> session_id \<Rightarrow> bool" where
  "fresh_session_id m i \<longleftrightarrow> (\<forall>k se. m k = Some se \<longrightarrow> usID se \<noteq> i)"

text \<open>What a locked callback has to keep of the session: its identity.\<close>

definition same_session :: "UserSession \<Rightarrow> UserSession \<Rightarrow> bool" where
  "same_session a b \<longleftrightarrow> usID a = usID b \<and> usPrincipal a = usPrincipal b \<and> usServiceID a = usServiceID b"

definition keep_client :: "UserSession \<Rightarrow> UserSession \<Rightarrow> UserSession" where
  "keep_client current session =
     (if usCallbackID session = usCallbackID current then session\<lparr>usUpstreamClientID := usUpstreamClientID current\<rparr> else session)"

locale session_repository =
  fixes R :: "('st, 'w, 'e) session_port"
    and abss :: "'st \<Rightarrow> session_map"
    and invar :: "'st \<Rightarrow> bool"
  assumes pair_of: "invar st \<Longrightarrow> abss st k = Some se \<Longrightarrow> session_pair se = k \<and> UserSession_Validate se = None"
    and find_ok: "invar st \<Longrightarrow> uuid_text svc \<Longrightarrow> spFind R p svc st = Inr r \<Longrightarrow> r = abss st (p, svc)"
    and locked_error: "invar st \<Longrightarrow> spWithLockedSession R ended late p svc f lift (st, w) = (Inl e, st', w') \<Longrightarrow> st' = st"
    and locked_missing: "invar st \<Longrightarrow> uuid_text svc \<Longrightarrow> spWithLockedSession R ended late p svc f lift (st, w) = (Inr None, st', w') \<Longrightarrow>
      abss st (p, svc) = None \<and> st' = st \<and> w' = w"
    and locked_found: "invar st \<Longrightarrow> uuid_text svc \<Longrightarrow> spWithLockedSession R ended late p svc f lift (st, w) = (Inr (Some se), st', w') \<Longrightarrow>
      \<exists>current u session. abss st (p, svc) = Some current \<and> f current w = (Inr u, session, w') \<and> se = keep_client current session \<and>
        (u \<longrightarrow> same_session session current \<longrightarrow> invar st' \<and> abss st' = (abss st)((p, svc) \<mapsto> se)) \<and> (\<not> u \<longrightarrow> st' = st)"
    and locked_calls: "invar st \<Longrightarrow> uuid_text svc \<Longrightarrow> spWithLockedSession R ended late p svc f lift (st, w) = (res, st', w') \<Longrightarrow>
      w' = w \<or> (\<exists>current. abss st (p, svc) = Some current \<and> w' = snd (snd (f current w)))"
    and create_ok: "invar st \<Longrightarrow> uuid_text (usServiceID se) \<Longrightarrow> fresh_session_id (abss st) (usID se) \<Longrightarrow>
      spCreate R ended se st = (Inr se', st') \<Longrightarrow>
      invar st' \<and> (\<exists>i. se' = se\<lparr>usID := i\<rparr>) \<and>
      abss st' = (abss st)(session_pair se \<mapsto> se'\<lparr>usExpectedIssuerURI := [], usExpectedResource := []\<rparr>)"
    and create_error: "spCreate R ended se st = (Inl err, st') \<Longrightarrow> st' = st"
    and delete_ok: "invar st \<Longrightarrow> uuid_text svc \<Longrightarrow> spDeleteByPrincipalAndService R ended p svc st = (None, st') \<Longrightarrow>
      invar st' \<and> abss st' = (abss st)((p, svc) := None)"
    and delete_error: "spDeleteByPrincipalAndService R ended p svc st = (Some err, st') \<Longrightarrow> st' = st"

lemma Validate_fields:
  "UserSession_Validate (se\<lparr>usExpectedIssuerURI := a, usExpectedResource := b\<rparr>) = UserSession_Validate se"
  by (simp add: UserSession_Validate_def)

lemma session_create_ok:
  assumes inv: "session_invar s" and u: "uuid_text (usServiceID se)" and fresh: "fresh_session_id (session_abs s) (usID se)"
    and r: "session_create provider ended True se s = (Inr (caller, stored), s')"
  shows "session_invar s' \<and> (\<exists>i. caller = se\<lparr>usID := i\<rparr>) \<and> stored = caller\<lparr>usExpectedIssuerURI := [], usExpectedResource := []\<rparr> \<and>
    session_abs s' = (session_abs s)(session_pair se \<mapsto> stored)"
proof -
  from r have v: "UserSession_Validate se = None" by (auto simp: session_create_def split: option.splits)
  have notin: "map_of (ssSessions s) (usID se) = None"
  proof (rule ccontr)
    assume "map_of (ssSessions s) (usID se) \<noteq> None"
    then obtain d where "map_of (ssSessions s) (usID se) = Some d" by auto
    from session_invar_sessions [OF inv this] have "session_abs s (session_pair d) = Some d" "usID d = usID se"
      by (simp_all add: session_abs_def session_key_def)
    with fresh show False by (auto simp: fresh_session_id_def)
  qed
  show ?thesis
  proof (cases "map_of (ssIndex s) (session_key se)")
    case None
    then have s': "caller = se" "stored = se\<lparr>usExpectedIssuerURI := [], usExpectedResource := []\<rparr>"
        "s' = s\<lparr>ssSessions := AList.update (usID stored) stored (ssSessions s), ssIndex := AList.update (session_key stored) stored (ssIndex s)\<rparr>"
      using r v by (auto simp: session_create_def session_key_def Let_def split: option.splits if_splits)
    have "session_invar s'" unfolding s'(3)
      by (rule session_put_invar [OF inv]) (use s' v u None notin inv in \<open>auto simp: Validate_fields go_map_simps session_key_def session_invar_def simp del: map_of_eq_Some_iff\<close>)
    moreover have "session_abs s' = (session_abs s)(session_pair se \<mapsto> stored)"
      using session_abs_put [of stored s] u s' by simp
    moreover have "\<exists>i. caller = se\<lparr>usID := i\<rparr>" using s'(1) by (intro exI [of _ "usID se"]) simp
    ultimately show ?thesis using s'(1,2) by simp
  next
    case (Some old)
    then have s': "caller = se\<lparr>usID := usID old\<rparr>" "stored = caller\<lparr>usExpectedIssuerURI := [], usExpectedResource := []\<rparr>"
        "s' = s\<lparr>ssSessions := AList.update (usID stored) stored (AList.delete (usID old) (ssSessions s)), ssIndex := AList.update (session_key stored) stored (ssIndex s)\<rparr>"
      using r v by (auto simp: session_create_def session_key_def Let_def split: option.splits if_splits)
    have old: "usID old \<noteq> uuid_nil" using session_invar_index(3) [OF inv Some] by (auto simp: UserSession_Validate_def split: if_splits)
    have "session_invar s'" unfolding s'(3)
      by (rule session_put_invar [OF inv]) (use s' v u Some old inv in \<open>auto simp: Validate_fields go_map_simps session_key_def session_invar_def UserSession_Validate_def simp del: map_of_eq_Some_iff split: if_splits\<close>)
    moreover have "session_abs s' = (session_abs s)(session_pair se \<mapsto> stored)"
      using session_abs_put [of stored s] u s' by simp
    ultimately show ?thesis using s' by blast
  qed
qed

lemma session_locked_found:
  assumes inv: "session_invar s" and u: "uuid_text svc"
    and r: "session_WithLockedSession ended late p svc f lift (s, w) = (Inr (Some se), s', w')"
  shows "\<exists>current u session. session_abs s (p, svc) = Some current \<and> f current w = (Inr u, session, w') \<and> se = keep_client current session \<and>
    (u \<longrightarrow> same_session session current \<longrightarrow> session_invar s' \<and> session_abs s' = (session_abs s)((p, svc) \<mapsto> se)) \<and> (\<not> u \<longrightarrow> s' = s)"
proof -
  from r obtain current where c: "map_of (ssIndex s) (principalServiceKey p svc) = Some current"
    by (auto simp: session_WithLockedSession_def Let_def split: if_splits option.splits)
  from r c obtain b session where f: "f current w = (Inr b, session, w')"
    by (auto simp: session_WithLockedSession_def Let_def split: if_splits option.splits prod.splits sum.splits)
  from r c f have se: "se = keep_client current session"
      and upd: "b \<Longrightarrow> UserSession_Validate se = None \<and>
        s' = s\<lparr>ssIndex := AList.update (principalServiceKey p svc) se (ssIndex s), ssSessions := AList.update (usID se) se (ssSessions s)\<rparr>"
      and keep: "\<not> b \<Longrightarrow> s' = s"
    by (auto simp: session_WithLockedSession_def keep_client_def Let_def split: if_splits option.splits)
  note idx = session_invar_index [OF inv c]
  have pair: "usPrincipal current = p" "usServiceID current = svc"
    using idx(1,4) u by (simp_all add: session_key_def principalServiceKey_inject)
  have "session_invar s' \<and> session_abs s' = (session_abs s)((p, svc) \<mapsto> se)" if b: b and same: "same_session session current"
  proof -
    have id: "usID se = usID current" "usPrincipal se = p" "usServiceID se = svc" "session_key se = principalServiceKey p svc"
      using same pair by (auto simp: se keep_client_def same_session_def session_key_def)
    have s': "s' = s\<lparr>ssSessions := AList.update (usID se) se (ssSessions s), ssIndex := AList.update (session_key se) se (ssIndex s)\<rparr>"
      using upd [OF b] id(4) by simp
    have "session_invar s'" unfolding s'
      by (rule session_put_invar [OF inv]) (use upd [OF b] id u c inv in \<open>auto simp: map_of_update session_invar_def simp del: map_of_eq_Some_iff\<close>)
    with session_abs_put [of se s] id u s' show ?thesis by simp
  qed
  with c f se keep u show ?thesis by (auto simp: session_abs_def)
qed

lemma session_locked_cases:
  assumes "uuid_text svc" and "session_WithLockedSession ended late p svc f lift (s, w) = (r, s', w')"
  shows "r = Inl e \<Longrightarrow> s' = s" and "r = Inr None \<Longrightarrow> session_abs s (p, svc) = None \<and> s' = s \<and> w' = w"
    and "w' = w \<or> (\<exists>current. session_abs s (p, svc) = Some current \<and> w' = snd (snd (f current w)))"
  using assms by (auto simp: session_WithLockedSession_def session_abs_def Let_def split: if_splits option.splits prod.splits sum.splits)

lemma session_delete_ok:
  assumes inv: "session_invar s" and u: "uuid_text svc" and r: "session_DeleteByPrincipalAndService ended p svc s = (None, s')"
  shows "session_invar s' \<and> session_abs s' = (session_abs s)((p, svc) := None)"
proof (cases "map_of (ssIndex s) (principalServiceKey p svc)")
  case None
  with r u show ?thesis using inv by (auto simp: session_DeleteByPrincipalAndService_def session_abs_def fun_eq_iff split: if_splits)
next
  case (Some se)
  note idx = session_invar_index [OF inv Some]
  have pair: "usPrincipal se = p" "usServiceID se = svc" "principalServiceKey p svc = session_key se"
    using idx(1,4) u by (simp_all add: session_key_def principalServiceKey_inject)
  with Some r have s': "s' = s\<lparr>ssSessions := AList.delete (usID se) (ssSessions s), ssIndex := AList.delete (session_key se) (ssIndex s)\<rparr>"
    by (auto simp: session_DeleteByPrincipalAndService_def Let_def split: if_splits)
  with session_remove_invar [OF inv] Some pair session_abs_remove [of se s] u show ?thesis by simp
qed

interpretation mem_sessions: session_repository "memory_session_port provider" session_abs session_invar for provider
proof (unfold_locales, goal_cases)
  case (1 st k se)
  then show ?case using session_abs_Some [of st "fst k" "snd k" se] by (cases k) simp
next
  case (2 st svc p r)
  then show ?case by (auto simp: memory_session_port_def session_FindByPrincipalAndService_def session_abs_def split: if_splits)
next
  case (3 st ended late p svc f lift w e st' w')
  then show ?case
    by (auto simp: memory_session_port_def session_WithLockedSession_def Let_def split: if_splits option.splits prod.splits sum.splits)
next
  case (4 st svc ended late p f lift w st' w')
  then show ?case using session_locked_cases(2) [OF 4(2) _ refl] by (simp add: memory_session_port_def)
next
  case (5 st svc ended late p f lift w se st' w')
  then show ?case using session_locked_found by (simp add: memory_session_port_def)
next
  case (6 st svc ended late p f lift w res st' w')
  then show ?case using session_locked_cases(3) by (simp add: memory_session_port_def)
next
  case (7 st se ended se' st')
  then obtain stored where r: "session_create provider ended True se st = (Inr (se', stored), st')"
    by (auto simp: memory_session_port_def split: prod.splits sum.splits)
  from session_create_ok [OF 7(1,2,3) r] show ?case by blast
next
  case (8 ended se st err st')
  then show ?case
    by (auto simp: memory_session_port_def session_create_def Let_def split: prod.splits sum.splits option.splits if_splits)
next
  case (9 st svc ended p st')
  then show ?case using session_delete_ok by (simp add: memory_session_port_def)
next
  case (10 ended p svc st err st')
  then show ?case
    by (auto simp: memory_session_port_def session_DeleteByPrincipalAndService_def Let_def split: option.splits if_splits)
qed



section \<open>Listing and counting\<close>

lemma session_ids_distinct:
  assumes "session_invar s"
  shows "inj_on expiry_key (set (map snd (ssSessions s)))" "distinct (map snd (ssSessions s))"
proof -
  have id: "usID se = i" if "(i, se) \<in> set (ssSessions s)" for i se
    using session_invar_sessions(1) [OF assms] that assms by (auto simp: session_invar_def)
  have wf: "wf_gomap (ssSessions s)" using assms by (simp add: session_invar_def)
  have eq: "map usID (map snd (ssSessions s)) = map fst (ssSessions s)" using id by (auto intro: map_cong)
  have "distinct (map usID (map snd (ssSessions s)))" unfolding eq by (rule wf)
  then have "inj_on usID (set (map snd (ssSessions s)))" "distinct (map snd (ssSessions s))"
    by (metis distinct_map)+
  then show "inj_on expiry_key (set (map snd (ssSessions s)))" "distinct (map snd (ssSessions s))"
    by (auto simp: inj_on_def expiry_key_def)
qed

definition due_sessions :: "time \<Rightarrow> SessionExpiryCursor \<Rightarrow> session_store \<Rightarrow> UserSession list" where
  "due_sessions threshold cursor s = filter (is_due threshold cursor) (map snd (ssSessions s))"

lemma ListExpiringSessions_page:
  assumes inv: "session_invar s" and limit: "1 \<le> limit" "limit \<le> 1000"
    and cursor: "cuID cursor = uuid_nil \<Longrightarrow> cuAccessTokenExpiresAt cursor = 0"
  shows "ListExpiringSessions False threshold cursor limit s =
    Inr (take (nat limit) (sort_key expiry_key (due_sessions threshold cursor s)))"
proof -
  have "earliest (nat limit) expiry_key (mset (due_sessions threshold cursor s) + {#})
      (mset (fold (\<lambda>(k, session) selected. if is_due threshold cursor session then keep_earliest (nat limit) session selected else selected)
        (ssSessions s) []))"
    unfolding due_sessions_def by (rule keep_earliest_fold) (use limit in \<open>simp_all add: max_heap_def earliest_empty\<close>)
  moreover have "inj_on expiry_key (set (due_sessions threshold cursor s))"
    using session_ids_distinct(1) [OF inv] by (rule inj_on_subset) (auto simp: due_sessions_def)
  ultimately have "sort_key expiry_key (fold (\<lambda>(k, session) selected. if is_due threshold cursor session then keep_earliest (nat limit) session selected else selected)
        (ssSessions s) []) = take (nat limit) (sort_key expiry_key (due_sessions threshold cursor s))"
    by (intro earliest_sorted_prefix) simp_all
  with limit cursor show ?thesis by (simp add: ListExpiringSessions_def Let_def time_is_zero_def)
qed

text \<open>
  C33. The bounded heap is a sort. A page of the sessions that are due for a refresh is the prefix
  of the due sessions after the cursor in the order of expiry and identifier, at most as long as the limit.
\<close>

theorem ListExpiringSessions_sorted_prefix:
  assumes "session_invar s" and "1 \<le> limit" and "limit \<le> 1000" and "cuID cursor = uuid_nil \<Longrightarrow> cuAccessTokenExpiresAt cursor = 0"
  shows "ListExpiringSessions False threshold cursor limit s =
    Inr (take (nat limit) (sort_key expiry_key (due_sessions threshold cursor s)))"
  using assms by (rule ListExpiringSessions_page)

lemma count_one_fold:
  "wf_gomap m \<Longrightarrow> wf_gomap (fold (\<lambda>(k, se). count_one (g se)) kvs m) \<and>
   (case map_of (fold (\<lambda>(k, se). count_one (g se)) kvs m) key of None \<Rightarrow> 0 | Some n \<Rightarrow> n) =
     (case map_of m key of None \<Rightarrow> 0 | Some n \<Rightarrow> n) + length (filter (\<lambda>se. g se = key) (map snd kvs))"
proof (induction kvs arbitrary: m)
  case (Cons a kvs)
  have "wf_gomap (count_one (g (snd a)) m)" using Cons.prems by (simp add: count_one_def)
  from Cons.IH [OF this] show ?case
    by (auto simp: case_prod_unfold count_one_def map_of_update split: option.splits)
qed simp

lemma count_one_positive:
  "(\<And>k n. map_of m k = Some n \<Longrightarrow> 0 < n) \<Longrightarrow> map_of (fold (\<lambda>(k, se). count_one (g se)) kvs m) key = Some n \<Longrightarrow> 0 < n"
proof (induction kvs arbitrary: m)
  case (Cons a kvs)
  show ?case
    by (rule Cons.IH [of "count_one (g (snd a)) m"])
       (use Cons.prems in \<open>auto simp: case_prod_unfold count_one_def map_of_update split: if_splits\<close>)
qed simp

text \<open>The groups of the health metric: every session is counted in exactly one group.\<close>

theorem CountSessionsByExpiry_groups:
  assumes "CountSessionsByExpiry False threshold now s = Inr groups"
  shows "distinct (map (\<lambda>g. (sgServiceID g, sgAccessExpiry g, sgRefreshUsable g)) groups) \<and>
    (\<forall>g \<in> set groups. 0 < sgCount g \<and> sgCount g = length (filter (\<lambda>se. session_group threshold now se =
       (sgServiceID g, sgAccessExpiry g, sgRefreshUsable g)) (map snd (ssSessions s)))) \<and>
    (\<forall>se \<in> set (map snd (ssSessions s)). \<exists>g \<in> set groups. (sgServiceID g, sgAccessExpiry g, sgRefreshUsable g) = session_group threshold now se)"
proof -
  define m where "m = fold (\<lambda>(k, session). count_one (session_group threshold now session)) (ssSessions s) []"
  have g: "groups = map (\<lambda>((serviceID, class, usable), n). \<lparr>sgServiceID = serviceID, sgAccessExpiry = class, sgRefreshUsable = usable, sgCount = n\<rparr>) m"
    using assms by (simp add: CountSessionsByExpiry_def m_def)
  have wf: "wf_gomap m" and count: "\<And>key. (case map_of m key of None \<Rightarrow> 0 | Some n \<Rightarrow> n) = length (filter (\<lambda>se. session_group threshold now se = key) (map snd (ssSessions s)))"
    using count_one_fold [of "[]" "session_group threshold now" "ssSessions s"] by (simp_all add: m_def)
  have pos: "map_of m key = Some n \<Longrightarrow> 0 < n" for key n
    using count_one_positive [of "[]" "session_group threshold now" "ssSessions s"] by (simp add: m_def)
  have keys: "map (\<lambda>g. (sgServiceID g, sgAccessExpiry g, sgRefreshUsable g)) groups = map fst m"
    unfolding g by (auto simp: case_prod_unfold)
  have "0 < n \<and> n = length (filter (\<lambda>se. session_group threshold now se = key) (map snd (ssSessions s)))" if "(key, n) \<in> set m" for key n
    using that pos [of key n] count [of key] wf by simp
  then have "0 < sgCount g \<and> sgCount g = length (filter (\<lambda>se. session_group threshold now se =
       (sgServiceID g, sgAccessExpiry g, sgRefreshUsable g)) (map snd (ssSessions s)))" if "g \<in> set groups" for g
    using that unfolding g by auto
  moreover have "\<exists>g \<in> set groups. (sgServiceID g, sgAccessExpiry g, sgRefreshUsable g) = session_group threshold now se"
    if "se \<in> set (map snd (ssSessions s))" for se
  proof -
    have "0 < length (filter (\<lambda>x. session_group threshold now x = session_group threshold now se) (map snd (ssSessions s)))"
      using that by (auto simp: filter_empty_conv)
    with count [of "session_group threshold now se"] have "map_of m (session_group threshold now se) \<noteq> None" by (auto split: option.splits)
    then have "session_group threshold now se \<in> set (map (\<lambda>g. (sgServiceID g, sgAccessExpiry g, sgRefreshUsable g)) groups)"
      unfolding keys by (simp add: map_of_eq_None_iff)
    then show ?thesis by auto
  qed
  moreover have "distinct (map (\<lambda>g. (sgServiceID g, sgAccessExpiry g, sgRefreshUsable g)) groups)" unfolding keys by (rule wf)
  ultimately show ?thesis by blast
qed

text \<open>Three sessions of one user, the second rejected by its provider, for the witnesses.\<close>

definition demo_session :: "char \<Rightarrow> time option \<Rightarrow> time option \<Rightarrow> UserSession" where
  "demo_session c e rejected =
     \<lparr>usID = c # replicate 35 (CHR ''0''), usPrincipal = ''alice'', usServiceID = c # replicate 35 (CHR ''1''), usCallbackID = [],
      usUpstreamClientID = None, usExpectedIssuerURI = [], usExpectedResource = [], usEncryptedAccessToken = ''at'',
      usEncryptedRefreshToken = ''rt'', usTokenType = ''Bearer'', usAccessTokenExpiresAt = e, usRefreshRejectedAt = rejected,
      usScope = [''read''], usEncryptionContext = c # replicate 35 (CHR ''1''), usInitiatedAt = 1, usCreatedAt = 1, usUpdatedAt = 1\<rparr>"

definition store_of :: "UserSession list \<Rightarrow> session_store" where
  "store_of ses = \<lparr>ssSessions = map (\<lambda>se. (usID se, se)) ses, ssIndex = map (\<lambda>se. (session_key se, se)) ses\<rparr>"

lemma store_of_invar:
  assumes "list_all (\<lambda>se. UserSession_Validate se = None \<and> uuid_text (usServiceID se)) ses"
    and "distinct (map usID ses)" and "distinct (map session_key ses)"
  shows "session_invar (store_of ses)"
proof -
  have 1: "map fst (ssSessions (store_of ses)) = map usID ses" "map fst (ssIndex (store_of ses)) = map session_key ses"
    by (simp_all add: store_of_def)
  show ?thesis using assms unfolding session_invar_def 1
    by (auto simp: store_of_def list_all_iff comp_def dest!: map_of_SomeD)
qed

definition demo_store :: session_store where
  "demo_store = store_of [demo_session (CHR ''c'') (Some 50) None, demo_session (CHR ''b'') (Some 40) (Some 5),
     demo_session (CHR ''a'') (Some 60) None, demo_session (CHR ''d'') None None]"

lemma demo_store_invar: "session_invar demo_store"
  unfolding demo_store_def by (rule store_of_invar) (code_simp, code_simp, code_simp)

definition scan_start :: SessionExpiryCursor where
  "scan_start = \<lparr>cuAccessTokenExpiresAt = 0, cuID = uuid_nil\<rparr>"

theorem ListExpiringSessions_sorted_prefix_witness:
  "ListExpiringSessions False 100 scan_start 1 demo_store = Inr [demo_session (CHR ''c'') (Some 50) None]"
proof -
  have "take (nat 1) (sort_key expiry_key (due_sessions 100 scan_start demo_store)) = [demo_session (CHR ''c'') (Some 50) None]"
    by code_simp
  then show ?thesis
    using ListExpiringSessions_sorted_prefix [OF demo_store_invar, of 1 scan_start 100] by (simp add: scan_start_def)
qed

end
