(* ===== verification/Session_Locks.thy ===== *)
theory Session_Locks
  imports Prelude
begin

text \<open>
  The gates of the in-memory session repository (\<^verbatim>\<open>lockSession\<close> and \<^verbatim>\<open>unlockSession\<close> of
  \<^verbatim>\<open>internal/adapters/storage/memory/user_session.go\<close>). A gate is a channel with room for one token and a
  count of the goroutines that use it; a map leads from the key of a session to its gate, and the
  last user removes the entry. Each section under the store's mutex and each channel operation is
  one step of \<open>gate_step\<close>, so the steps of the goroutines interleave freely.

  The theorems: two goroutines never hold the gate of one session, a release never blocks, a waiter
  whose gate nobody holds can always take it, and no entry is left behind. \<open>User_Sessions\<close> takes
  each call as one step on the strength of the first.
\<close>

record gate =
  gaAvailable :: bool
  gaUsers :: nat

datatype phase =
    Idle
  | Waiting string nat
  | Holding string nat
  | Leaving string nat

record locks =
  lkGates :: "gate list"
  lkLocks :: "(string, nat) gomap"
  lkPhases :: "phase list"

text \<open>Gates are named by their position in \<open>lkGates\<close>, goroutines by theirs in \<open>lkPhases\<close>.\<close>

definition enter_gate :: "string \<Rightarrow> locks \<Rightarrow> nat \<times> locks" where
  "enter_gate key s =
     (case map_of (lkLocks s) key of
        Some g \<Rightarrow> (g, s\<lparr>lkGates := (lkGates s)[g := (lkGates s ! g)\<lparr>gaUsers := gaUsers (lkGates s ! g) + 1\<rparr>]\<rparr>)
      | None \<Rightarrow>
          let g = length (lkGates s)
          in (g, s\<lparr>lkGates := lkGates s @ [\<lparr>gaAvailable = True, gaUsers = 1\<rparr>], lkLocks := AList.update key g (lkLocks s)\<rparr>))"

definition leave_gate :: "string \<Rightarrow> nat \<Rightarrow> locks \<Rightarrow> locks" where
  "leave_gate key g s =
     (let users = gaUsers (lkGates s ! g) - 1;
          s' = s\<lparr>lkGates := (lkGates s)[g := (lkGates s ! g)\<lparr>gaUsers := users\<rparr>]\<rparr>
      in if users = 0 then s'\<lparr>lkLocks := AList.delete key (lkLocks s')\<rparr> else s')"

definition set_token :: "nat \<Rightarrow> bool \<Rightarrow> locks \<Rightarrow> locks" where
  "set_token g b s = s\<lparr>lkGates := (lkGates s)[g := (lkGates s ! g)\<lparr>gaAvailable := b\<rparr>]\<rparr>"

definition set_phase :: "nat \<Rightarrow> phase \<Rightarrow> locks \<Rightarrow> locks" where
  "set_phase t p s = s\<lparr>lkPhases := (lkPhases s)[t := p]\<rparr>"

definition phase_of :: "locks \<Rightarrow> nat \<Rightarrow> phase" where
  "phase_of s t = (if t < length (lkPhases s) then lkPhases s ! t else Idle)"

text \<open>A goroutine enters under the mutex, then waits for the token or for the end of its context. A
  holder puts the token back and leaves under the mutex; the check of the context after the token is
  taken may make it leave at once.\<close>

inductive gate_step :: "locks \<Rightarrow> locks \<Rightarrow> bool" where
  enter: "t < length (lkPhases s) \<Longrightarrow> lkPhases s ! t = Idle \<Longrightarrow> enter_gate key s = (g, s') \<Longrightarrow>
    gate_step s (set_phase t (Waiting key g) s')"
| take_token: "t < length (lkPhases s) \<Longrightarrow> lkPhases s ! t = Waiting key g \<Longrightarrow> gaAvailable (lkGates s ! g) \<Longrightarrow>
    gate_step s (set_phase t (Holding key g) (set_token g False s))"
| cancel: "t < length (lkPhases s) \<Longrightarrow> lkPhases s ! t = Waiting key g \<Longrightarrow> gate_step s (set_phase t (Leaving key g) s)"
| release: "t < length (lkPhases s) \<Longrightarrow> lkPhases s ! t = Holding key g \<Longrightarrow> \<not> gaAvailable (lkGates s ! g) \<Longrightarrow>
    gate_step s (set_phase t (Leaving key g) (set_token g True s))"
| leave: "t < length (lkPhases s) \<Longrightarrow> lkPhases s ! t = Leaving key g \<Longrightarrow>
    gate_step s (set_phase t Idle (leave_gate key g s))"

inductive gate_run :: "locks \<Rightarrow> locks \<Rightarrow> bool" where
  refl: "gate_run s s"
| step: "gate_run s s' \<Longrightarrow> gate_step s' s'' \<Longrightarrow> gate_run s s''"

definition no_locks :: "nat \<Rightarrow> locks" where
  "no_locks n = \<lparr>lkGates = [], lkLocks = [], lkPhases = replicate n Idle\<rparr>"

section \<open>The invariant\<close>

fun at_gate :: "nat \<Rightarrow> phase \<Rightarrow> bool" where
  "at_gate g Idle = False"
| "at_gate g (Waiting k h) = (h = g)"
| "at_gate g (Holding k h) = (h = g)"
| "at_gate g (Leaving k h) = (h = g)"

fun holds_gate :: "nat \<Rightarrow> phase \<Rightarrow> bool" where
  "holds_gate g (Holding k h) = (h = g)"
| "holds_gate g p = False"

fun phase_key :: "phase \<Rightarrow> (string \<times> nat) option" where
  "phase_key Idle = None"
| "phase_key (Waiting k g) = Some (k, g)"
| "phase_key (Holding k g) = Some (k, g)"
| "phase_key (Leaving k g) = Some (k, g)"

definition count :: "('a \<Rightarrow> bool) \<Rightarrow> 'a list \<Rightarrow> nat" where
  "count P xs = length (filter P xs)"

lemma count_update:
  "i < length xs \<Longrightarrow> count P (xs[i := x]) + (if P (xs ! i) then 1 else 0) = count P xs + (if P x then 1 else 0)"
proof -
  assume i: "i < length xs"
  have "xs = take i xs @ xs ! i # drop (Suc i) xs" using i by (rule id_take_nth_drop)
  then have "filter P xs = filter P (take i xs) @ filter P [xs ! i] @ filter P (drop (Suc i) xs)"
    by (metis append.assoc append_Cons append_Nil filter_append)
  moreover have "filter P (xs[i := x]) = filter P (take i xs) @ filter P [x] @ filter P (drop (Suc i) xs)"
    using i by (simp add: upd_conv_take_nth_drop)
  ultimately show ?thesis by (simp add: count_def)
qed

lemma count_zero: "count P xs = 0 \<longleftrightarrow> (\<forall>i < length xs. \<not> P (xs ! i))"
  by (simp add: count_def filter_empty_conv all_set_conv_all_nth)

lemma count_two:
  assumes "i < length xs" "j < length xs" "i \<noteq> j" "P (xs ! i)" "P (xs ! j)"
  shows "2 \<le> count P xs"
proof -
  have "{i, j} \<subseteq> {k. k < length xs \<and> P (xs ! k)}" using assms by auto
  then have "card {i, j} \<le> card {k. k < length xs \<and> P (xs ! k)}" by (intro card_mono) auto
  with assms(3) show ?thesis by (simp add: count_def length_filter_conv_card)
qed

definition locks_ok :: "locks \<Rightarrow> bool" where
  "locks_ok s \<longleftrightarrow>
     (\<forall>g < length (lkGates s). gaUsers (lkGates s ! g) = count (at_gate g) (lkPhases s) \<and>
        count (holds_gate g) (lkPhases s) + (if gaAvailable (lkGates s ! g) then 1 else 0) = 1) \<and>
     (\<forall>t < length (lkPhases s). \<forall>k g. phase_key (lkPhases s ! t) = Some (k, g) \<longrightarrow> map_of (lkLocks s) k = Some g) \<and>
     (\<forall>k g. map_of (lkLocks s) k = Some g \<longrightarrow> g < length (lkGates s) \<and> gaUsers (lkGates s ! g) \<noteq> 0) \<and>
     (\<forall>k k' g. map_of (lkLocks s) k = Some g \<longrightarrow> map_of (lkLocks s) k' = Some g \<longrightarrow> k = k')"

lemma at_gate_key: "at_gate g p \<longleftrightarrow> (\<exists>k. phase_key p = Some (k, g))"
  by (cases p) auto

lemma holds_at_gate: "holds_gate g p \<Longrightarrow> at_gate g p"
  by (cases p) auto

lemma locks_okD:
  assumes "locks_ok s"
  shows "g < length (lkGates s) \<Longrightarrow> gaUsers (lkGates s ! g) = count (at_gate g) (lkPhases s)"
    and "g < length (lkGates s) \<Longrightarrow> count (holds_gate g) (lkPhases s) + (if gaAvailable (lkGates s ! g) then 1 else 0) = 1"
    and "t < length (lkPhases s) \<Longrightarrow> phase_key (lkPhases s ! t) = Some (k, g) \<Longrightarrow> map_of (lkLocks s) k = Some g"
    and "map_of (lkLocks s) k = Some g \<Longrightarrow> g < length (lkGates s) \<and> gaUsers (lkGates s ! g) \<noteq> 0"
    and "map_of (lkLocks s) k = Some g \<Longrightarrow> map_of (lkLocks s) k' = Some g \<Longrightarrow> k = k'"
  using assms unfolding locks_ok_def by blast+

lemma locks_ok_gate:
  assumes "locks_ok s" and "t < length (lkPhases s)" and "phase_key (lkPhases s ! t) = Some (k, g)"
  shows "g < length (lkGates s)" "gaUsers (lkGates s ! g) \<noteq> 0" "map_of (lkLocks s) k = Some g"
  using locks_okD(3) [OF assms] locks_okD(4) [OF assms(1)] by blast+

lemma no_phase_beyond:
  assumes "locks_ok s" and "length (lkGates s) \<le> g"
  shows "count (at_gate g) (lkPhases s) = 0" "count (holds_gate g) (lkPhases s) = 0"
  using locks_ok_gate(1) [OF assms(1)] assms(2) by (auto simp: count_zero at_gate_key dest!: holds_at_gate) fastforce+

text \<open>A step that changes the phase of one goroutine and the gate it is at.\<close>

lemma locks_ok_change:
  assumes ok: "locks_ok s" and t: "t < length (lkPhases s)" and g: "g < length (lkGates s)"
    and users: "gaUsers ga + (if at_gate g (lkPhases s ! t) then 1 else 0) = gaUsers (lkGates s ! g) + (if at_gate g p then 1 else 0)"
    and token: "(if gaAvailable ga then 1 else 0) + (if holds_gate g p then 1 else 0) =
      (if gaAvailable (lkGates s ! g) then 1 else 0) + (if holds_gate g (lkPhases s ! t) then 1 else (0::nat))"
    and other: "\<And>h. h \<noteq> g \<Longrightarrow> \<not> at_gate h p \<and> \<not> at_gate h (lkPhases s ! t)"
    and key: "\<And>k h. phase_key p = Some (k, h) \<Longrightarrow> map_of (lkLocks s) k = Some h"
    and some: "gaUsers ga \<noteq> 0"
  shows "locks_ok (s\<lparr>lkGates := (lkGates s)[g := ga], lkPhases := (lkPhases s)[t := p]\<rparr>)" (is "locks_ok ?s")
  unfolding locks_ok_def
proof (intro conjI allI impI)
  fix h assume "h < length (lkGates ?s)"
  then have h: "h < length (lkGates s)" by simp
  note at = count_update [OF t, of "at_gate h" p] and ho = count_update [OF t, of "holds_gate h" p]
  have "h \<noteq> g \<Longrightarrow> \<not> holds_gate h p \<and> \<not> holds_gate h (lkPhases s ! t)" using other holds_at_gate by blast
  then show "gaUsers (lkGates ?s ! h) = count (at_gate h) (lkPhases ?s)"
      "count (holds_gate h) (lkPhases ?s) + (if gaAvailable (lkGates ?s ! h) then 1 else 0) = 1"
    using locks_okD(1,2) [OF ok h] users token at ho other [of h] g
    by (cases "h = g"; simp split: if_splits)+
next
  fix u k h assume u: "u < length (lkPhases ?s)" "phase_key (lkPhases ?s ! u) = Some (k, h)"
  then show "map_of (lkLocks ?s) k = Some h" using key locks_okD(3) [OF ok, of u] by (cases "u = t") auto
next
  fix k h assume "map_of (lkLocks ?s) k = Some h"
  with locks_okD(4) [OF ok, of k h] some g show "h < length (lkGates ?s)" "gaUsers (lkGates ?s ! h) \<noteq> 0"
    by (cases "h = g"; simp)+
next
  fix k k' h assume "map_of (lkLocks ?s) k = Some h" "map_of (lkLocks ?s) k' = Some h"
  then show "k = k'" using locks_okD(5) [OF ok, of k h k'] by simp
qed

lemma enter_new_ok:
  assumes ok: "locks_ok s" and t: "t < length (lkPhases s)" "lkPhases s ! t = Idle" and new: "map_of (lkLocks s) key = None"
  shows "locks_ok (s\<lparr>lkGates := lkGates s @ [\<lparr>gaAvailable = True, gaUsers = 1\<rparr>],
    lkLocks := AList.update key (length (lkGates s)) (lkLocks s), lkPhases := (lkPhases s)[t := Waiting key (length (lkGates s))]\<rparr>)"
    (is "locks_ok ?s")
  unfolding locks_ok_def
proof (intro conjI allI impI)
  let ?n = "length (lkGates s)"
  fix h assume "h < length (lkGates ?s)"
  then consider (old) "h < ?n" | (new) "h = ?n" by force
  then show "gaUsers (lkGates ?s ! h) = count (at_gate h) (lkPhases ?s)"
      "count (holds_gate h) (lkPhases ?s) + (if gaAvailable (lkGates ?s ! h) then 1 else 0) = 1"
    using count_update [OF t(1), of "at_gate h" "Waiting key ?n"] count_update [OF t(1), of "holds_gate h" "Waiting key ?n"]
      locks_okD(1,2) [OF ok, of h] no_phase_beyond [OF ok, of ?n] t(2)
    by (cases; simp add: nth_append)+
next
  fix u k h assume u: "u < length (lkPhases ?s)" "phase_key (lkPhases ?s ! u) = Some (k, h)"
  then show "map_of (lkLocks ?s) k = Some h"
    using locks_okD(3) [OF ok, of u k h] new by (cases "u = t") (auto simp: map_of_update)
next
  fix k h assume "map_of (lkLocks ?s) k = Some h"
  with locks_okD(4) [OF ok, of k h] show "h < length (lkGates ?s)" "gaUsers (lkGates ?s ! h) \<noteq> 0"
    by (auto simp: map_of_update nth_append split: if_splits)
next
  fix k k' h assume "map_of (lkLocks ?s) k = Some h" "map_of (lkLocks ?s) k' = Some h"
  then show "k = k'" using locks_okD(4) [OF ok, of k h] locks_okD(4) [OF ok, of k' h] locks_okD(5) [OF ok, of k h k']
    by (auto simp: map_of_update split: if_splits)
qed

lemma leave_last_ok:
  assumes ok: "locks_ok s" and t: "t < length (lkPhases s)" "lkPhases s ! t = Leaving key g" and last: "gaUsers (lkGates s ! g) = 1"
  shows "locks_ok (s\<lparr>lkGates := (lkGates s)[g := (lkGates s ! g)\<lparr>gaUsers := 0\<rparr>], lkLocks := AList.delete key (lkLocks s),
    lkPhases := (lkPhases s)[t := Idle]\<rparr>)" (is "locks_ok ?s")
  unfolding locks_ok_def
proof (intro conjI allI impI)
  have g: "g < length (lkGates s)" using locks_ok_gate(1) [OF ok t(1)] t(2) by simp
  have alone: "u = t" if "u < length (lkPhases s)" "at_gate g (lkPhases s ! u)" for u
    using count_two [of u "lkPhases s" t "at_gate g"] that t last locks_okD(1) [OF ok g] by force
  {
    fix h assume "h < length (lkGates ?s)"
    then show "gaUsers (lkGates ?s ! h) = count (at_gate h) (lkPhases ?s)"
        "count (holds_gate h) (lkPhases ?s) + (if gaAvailable (lkGates ?s ! h) then 1 else 0) = 1"
      using count_update [OF t(1), of "at_gate h" Idle] count_update [OF t(1), of "holds_gate h" Idle]
        locks_okD(1,2) [OF ok, of h] t(2) last g
      by (cases "h = g"; simp split: if_splits)+
  next
    fix u k h assume "u < length (lkPhases ?s)" "phase_key (lkPhases ?s ! u) = Some (k, h)"
    then have u: "u < length (lkPhases s)" "u \<noteq> t" "phase_key (lkPhases s ! u) = Some (k, h)"
      using t(1) by (cases "u = t"; simp)+
    have "k \<noteq> key"
    proof
      assume "k = key"
      with locks_okD(3) [OF ok u(1,3)] locks_okD(3) [OF ok t(1)] t(2) have "h = g" by simp
      with alone [OF u(1)] u(2,3) at_gate_key show False by blast
    qed
    with locks_okD(3) [OF ok u(1,3)] show "map_of (lkLocks ?s) k = Some h" by (simp add: map_of_delete)
  next
    fix k h assume "map_of (lkLocks ?s) k = Some h"
    then have k: "k \<noteq> key" "map_of (lkLocks s) k = Some h" by (auto simp: map_of_delete split: if_splits)
    with locks_okD(5) [OF ok, of k h key] locks_okD(3) [OF ok t(1)] t(2) have "h \<noteq> g" by auto
    with locks_okD(4) [OF ok k(2)] show "h < length (lkGates ?s)" "gaUsers (lkGates ?s ! h) \<noteq> 0" by simp_all
  next
    fix k k' h assume "map_of (lkLocks ?s) k = Some h" "map_of (lkLocks ?s) k' = Some h"
    then show "k = k'" using locks_okD(5) [OF ok, of k h k'] by (auto simp: map_of_delete split: if_splits)
  }
qed

lemma gate_step_ok: "gate_step s s' \<Longrightarrow> locks_ok s \<Longrightarrow> locks_ok s'"
proof (induction rule: gate_step.induct)
  case (enter t s key g s')
  show ?case
  proof (cases "map_of (lkLocks s) key")
    case None
    with enter enter_new_ok [OF enter.prems enter.hyps(1,2) None] show ?thesis
      by (auto simp: enter_gate_def set_phase_def Let_def)
  next
    case (Some h)
    with locks_okD(4) [OF enter.prems Some] enter show ?thesis
      by (auto simp: enter_gate_def set_phase_def intro!: locks_ok_change)
  qed
next
  case (take_token t s key g)
  with locks_ok_gate [OF take_token.prems take_token.hyps(1), of key g] show ?case
    by (auto simp: set_phase_def set_token_def intro!: locks_ok_change)
next
  case (cancel t s key g)
  have "locks_ok (s\<lparr>lkGates := (lkGates s)[g := lkGates s ! g], lkPhases := (lkPhases s)[t := Leaving key g]\<rparr>)"
    using cancel locks_ok_gate [OF cancel.prems cancel.hyps(1), of key g]
    by (intro locks_ok_change) auto
  then show ?case by (simp add: set_phase_def)
next
  case (release t s key g)
  with locks_ok_gate [OF release.prems release.hyps(1), of key g] show ?case
    by (auto simp: set_phase_def set_token_def intro!: locks_ok_change)
next
  case (leave t s key g)
  have g: "g < length (lkGates s)" "gaUsers (lkGates s ! g) \<noteq> 0"
    using locks_ok_gate [OF leave.prems leave.hyps(1)] leave.hyps(2) by simp_all
  show ?case
  proof (cases "gaUsers (lkGates s ! g) = 1")
    case True
    with leave_last_ok [OF leave.prems leave.hyps True] show ?thesis by (simp add: leave_gate_def set_phase_def Let_def)
  next
    case False
    with g leave show ?thesis
      by (auto simp: leave_gate_def set_phase_def Let_def intro!: locks_ok_change)
  qed
qed

lemma no_locks_ok: "locks_ok (no_locks n)"
  by (auto simp: locks_ok_def no_locks_def)

lemma gate_run_ok: "gate_run s s' \<Longrightarrow> locks_ok s \<Longrightarrow> locks_ok s'"
  by (induction rule: gate_run.induct) (auto intro: gate_step_ok)

lemma holder_unique:
  assumes ok: "locks_ok s" and t: "phase_of s t = Holding key g" and u: "phase_of s u = Holding key h"
  shows "u = t"
proof (rule ccontr)
  assume ne: "u \<noteq> t"
  from t u have tu: "t < length (lkPhases s)" "lkPhases s ! t = Holding key g" "u < length (lkPhases s)" "lkPhases s ! u = Holding key h"
    by (auto simp: phase_of_def split: if_splits)
  have "g < length (lkGates s)" using locks_ok_gate(1) [OF ok tu(1)] tu(2) by simp
  note one = locks_okD(2) [OF ok this]
  have "h = g" using locks_okD(3) [OF ok tu(3)] locks_okD(3) [OF ok tu(1)] tu(2,4) by simp
  with ne have "2 \<le> count (holds_gate g) (lkPhases s)"
    using count_two [of u "lkPhases s" t "holds_gate g"] tu by simp
  with one show False by simp
qed

lemma holder_can_release:
  assumes ok: "locks_ok s" and t: "phase_of s t = Holding key g"
  shows "gate_step s (set_phase t (Leaving key g) (set_token g True s))"
proof -
  from t have t': "t < length (lkPhases s)" "lkPhases s ! t = Holding key g" by (auto simp: phase_of_def split: if_splits)
  have "g < length (lkGates s)" using locks_ok_gate(1) [OF ok t'(1)] t'(2) by simp
  note one = locks_okD(2) [OF ok this]
  have "\<not> gaAvailable (lkGates s ! g)"
  proof
    assume "gaAvailable (lkGates s ! g)"
    with one have "count (holds_gate g) (lkPhases s) = 0" by simp
    with t' show False by (auto simp: count_zero)
  qed
  with t' show ?thesis using gate_step.release by blast
qed

lemma free_gate_can_be_taken:
  assumes ok: "locks_ok s" and u: "phase_of s u = Waiting k h" and free: "\<And>v. phase_of s v \<noteq> Holding k h"
  shows "gate_step s (set_phase u (Holding k h) (set_token h False s))"
proof -
  from u have u': "u < length (lkPhases s)" "lkPhases s ! u = Waiting k h" by (auto simp: phase_of_def split: if_splits)
  have k: "map_of (lkLocks s) k = Some h" using locks_okD(3) [OF ok u'(1)] u'(2) by simp
  have "\<not> holds_gate h (lkPhases s ! v)" if v: "v < length (lkPhases s)" for v
    using locks_okD(3) [OF ok v] locks_okD(5) [OF ok k] free [of v] v by (cases "lkPhases s ! v") (auto simp: phase_of_def)
  then have "count (holds_gate h) (lkPhases s) = 0" by (simp add: count_zero)
  with locks_okD(2) [OF ok, of h] locks_okD(4) [OF ok k] have "gaAvailable (lkGates s ! h)" by (auto split: if_splits)
  with gate_step.take_token u' show ?thesis by blast
qed

lemma unused_key_has_no_gate:
  assumes ok: "locks_ok s" and none: "\<And>v h. phase_key (phase_of s v) \<noteq> Some (k, h)"
  shows "map_of (lkLocks s) k = None"
proof (rule ccontr)
  assume "map_of (lkLocks s) k \<noteq> None"
  then obtain h where k: "map_of (lkLocks s) k = Some h" by auto
  with locks_okD(1,4) [OF ok] have "count (at_gate h) (lkPhases s) \<noteq> 0" by fastforce
  then obtain v k' where v: "v < length (lkPhases s)" "phase_key (lkPhases s ! v) = Some (k', h)"
    by (auto simp: count_zero at_gate_key)
  from locks_okD(3) [OF ok v] locks_okD(5) [OF ok k] have "k' = k" by blast
  with none [of v h] v show False by (simp add: phase_of_def)
qed

text \<open>
  C34. One holder per session. However the goroutines of a program interleave, in every state they
  reach: two of them never hold the gate of the same session; a holder's release never blocks; a
  goroutine that waits at a gate nobody holds can take it, so no session is ever locked for good by
  a gate without its token; and a key nobody uses has no gate left.
\<close>

theorem gate_mutual_exclusion:
  assumes "gate_run (no_locks n) s"
  shows "(\<forall>t u key g h. phase_of s t = Holding key g \<longrightarrow> phase_of s u = Holding key h \<longrightarrow> u = t) \<and>
    (\<forall>t key g. phase_of s t = Holding key g \<longrightarrow> gate_step s (set_phase t (Leaving key g) (set_token g True s))) \<and>
    (\<forall>u key g. phase_of s u = Waiting key g \<longrightarrow> (\<forall>v. phase_of s v \<noteq> Holding key g) \<longrightarrow>
       gate_step s (set_phase u (Holding key g) (set_token g False s))) \<and>
    (\<forall>key. (\<forall>v g. phase_key (phase_of s v) \<noteq> Some (key, g)) \<longrightarrow> map_of (lkLocks s) key = None)"
proof -
  have "locks_ok s" using gate_run_ok [OF assms] no_locks_ok by blast
  then show ?thesis
    using holder_unique holder_can_release free_gate_can_be_taken unused_key_has_no_gate by meson
qed

theorem gate_mutual_exclusion_witness:
  "\<exists>s s'. gate_run (no_locks 2) s \<and> lkPhases s = [Holding ''k'' 0, Waiting ''k'' 0] \<and>
     gate_step s (set_phase 0 (Leaving ''k'' 0) (set_token 0 True s)) \<and>
     gate_run s s' \<and> lkPhases s' = [Idle, Waiting ''k'' 0] \<and>
     gate_step s' (set_phase 1 (Holding ''k'' 0) (set_token 0 False s'))"
proof -
  let ?s1 = "set_phase 0 (Waiting ''k'' 0) (snd (enter_gate ''k'' (no_locks 2)))"
  let ?s2 = "set_phase 0 (Holding ''k'' 0) (set_token 0 False ?s1)"
  let ?s3 = "set_phase 1 (Waiting ''k'' 0) (snd (enter_gate ''k'' ?s2))"
  let ?s4 = "set_phase 0 (Leaving ''k'' 0) (set_token 0 True ?s3)"
  let ?s5 = "set_phase 0 Idle (leave_gate ''k'' 0 ?s4)"
  have 1: "gate_step (no_locks 2) ?s1" by (rule gate_step.enter) (code_simp, code_simp, code_simp)
  have 3: "gate_step ?s2 ?s3" by (rule gate_step.enter) (code_simp, code_simp, code_simp)
  have 2: "gate_step ?s1 ?s2"
    by (rule gate_step.take_token) (code_simp, code_simp, code_simp)
  have run: "gate_run (no_locks 2) ?s3"
    by (rule gate_run.step [OF gate_run.step [OF gate_run.step [OF gate_run.refl 1] 2] 3])
  have p: "lkPhases ?s3 = [Holding ''k'' 0, Waiting ''k'' 0]" by code_simp
  have "phase_of ?s3 0 = Holding ''k'' 0" by code_simp
  with gate_mutual_exclusion [OF run] have 4: "gate_step ?s3 ?s4" by blast
  have 5: "gate_step ?s4 ?s5" by (rule gate_step.leave) (code_simp, code_simp)
  have run': "gate_run ?s3 ?s5" by (rule gate_run.step [OF gate_run.step [OF gate_run.refl 4] 5])
  have p': "lkPhases ?s5 = [Idle, Waiting ''k'' 0]" by code_simp
  have w: "phase_of ?s5 1 = Waiting ''k'' 0" by code_simp
  have "phase_of ?s5 v \<noteq> Holding ''k'' 0" for v unfolding phase_of_def p' by (simp add: nth_Cons split: nat.splits)
  with w gate_mutual_exclusion [OF gate_run.step [OF gate_run.step [OF run 4] 5]]
  have "gate_step ?s5 (set_phase 1 (Holding ''k'' 0) (set_token 0 False ?s5))" by blast
  with run p 4 run' p' show ?thesis by blast
qed

end
