(* ===== verification/Session_Refresh.thy ===== *)
theory Session_Refresh
  imports User_Sessions
begin

text \<open>
  Tokens of third-party sessions (\<^verbatim>\<open>internal/domain/oauth2session\<close>): reading a valid access token,
  refreshing it at the provider with retries, and recording a rejected refresh token. The classified
  errors are those of \<^verbatim>\<open>errors.go\<close>, the numbers of a token answer those of \<^verbatim>\<open>token_response.go\<close>, the
  choice of credentials that of \<^verbatim>\<open>credentials.go\<close>.

  What is outside is an argument (\<open>refresh_env\<close>): one HTTP exchange with the token endpoint, the
  encryption of tokens, the provider's stored entity, the files of credentials, the signer of client
  assertions, and whether the context still allows a wait. The checks of the token endpoint's address
  (\<^verbatim>\<open>tokenHTTPClient\<close> and the query part of \<^verbatim>\<open>validateSecretlessClientOutboundConfiguration\<close>) parse
  URLs and are arguments too. Log and audit lines are left out.
\<close>

section \<open>Errors\<close>

datatype Operation = OperationUnknown | OperationSessionLookup | OperationRefresh | OperationScopeValidation | OperationCodeExchange

datatype ErrorDetail =
    SdSessionMissing | SdAccessTokenExpired | SdRefreshUnavailable | SdRefreshRejected | SdProviderClientRejected
  | SdProviderRejected | SdProviderUnavailable | SdProviderResponseInvalid | SdCredentialSourceUnavailable
  | SdRepositoryUnavailable | SdDecryptionFailed | SdEncryptionFailed | SdPersistenceFailed | SdConfiguration
  | SdCallerCanceled | SdInternalUnclassified

datatype session_kind = KindSession | KindProvider | KindInfrastructure | KindConfiguration | KindCanceled | KindInternal

datatype Dependency =
    DependencyNone | DependencySessionRepository | DependencyProviderRepository | DependencyProvider
  | DependencyEncryption | DependencyCredentialSource | DependencySigning

record ErrorMetadata =
  emOperation :: Operation
  emDetail :: ErrorDetail
  emKind :: session_kind
  emDependency :: Dependency
  emStatusCode :: int
  emOAuthCode :: string

definition NewErrorMetadata :: "Operation \<Rightarrow> ErrorDetail \<Rightarrow> ErrorMetadata" where
  "NewErrorMetadata operation detail =
     (let m = (\<lambda>k d. \<lparr>emOperation = operation, emDetail = detail, emKind = k, emDependency = d, emStatusCode = 0, emOAuthCode = []\<rparr>)
      in case detail of
           SdSessionMissing \<Rightarrow> m KindSession DependencySessionRepository
         | SdAccessTokenExpired \<Rightarrow> m KindSession DependencySessionRepository
         | SdRefreshUnavailable \<Rightarrow> m KindSession DependencySessionRepository
         | SdRefreshRejected \<Rightarrow> m KindProvider DependencyProvider
         | SdProviderRejected \<Rightarrow> m KindProvider DependencyProvider
         | SdProviderResponseInvalid \<Rightarrow> m KindProvider DependencyProvider
         | SdProviderClientRejected \<Rightarrow> m KindConfiguration DependencyProvider
         | SdProviderUnavailable \<Rightarrow> m KindInfrastructure DependencyProvider
         | SdCredentialSourceUnavailable \<Rightarrow> m KindInfrastructure DependencyCredentialSource
         | SdRepositoryUnavailable \<Rightarrow> m KindInfrastructure DependencySessionRepository
         | SdPersistenceFailed \<Rightarrow> m KindInfrastructure DependencySessionRepository
         | SdDecryptionFailed \<Rightarrow> m KindInfrastructure DependencyEncryption
         | SdEncryptionFailed \<Rightarrow> m KindInfrastructure DependencyEncryption
         | SdConfiguration \<Rightarrow> m KindConfiguration DependencyNone
         | SdCallerCanceled \<Rightarrow> m KindCanceled DependencyNone
         | SdInternalUnclassified \<Rightarrow> m KindInternal DependencyNone)"

definition WithDependency :: "Dependency \<Rightarrow> ErrorMetadata \<Rightarrow> ErrorMetadata" where
  "WithDependency d m = m\<lparr>emDependency := d\<rparr>"

definition IsSafeOAuthErrorCode :: "string \<Rightarrow> bool" where
  "IsSafeOAuthErrorCode code \<longleftrightarrow>
     code \<in> {''invalid_request'', ''invalid_client'', ''invalid_grant'', ''unauthorized_client'', ''unsupported_grant_type'',
       ''invalid_scope'', ''invalid_target''}"

definition WithProviderResponse :: "int \<Rightarrow> string \<Rightarrow> ErrorMetadata \<Rightarrow> ErrorMetadata" where
  "WithProviderResponse status code m =
     m\<lparr>emStatusCode := (if 100 \<le> status \<and> status \<le> 599 then status else 0),
       emOAuthCode := (if code \<noteq> [] \<and> \<not> IsSafeOAuthErrorCode code then ''unknown'' else code)\<rparr>"

text \<open>The sentinels an error wraps, for \<^verbatim>\<open>errors.Is\<close>; a chain of wrapped errors is the list of its
  sentinels below the classification of its outermost \<^verbatim>\<open>OperationError\<close>.\<close>

datatype cause =
    ErrSessionNotFound | ErrServiceNotFound | ErrReauthenticationRequired | ErrRefreshFailed | ErrRefreshRejected
  | ErrRefreshNotAvailable | ErrEncryptionFailed | ErrInvalidConfiguration | ErrProviderConfiguration | ErrSecretDecryption
  | CredentialSourceError string | NotFoundStored | ContextEnded | OtherCause string

datatype op_error = PlainError (causes: "cause list") | OperationError (Metadata: ErrorMetadata) (causes: "cause list")

definition errors_Is :: "op_error \<Rightarrow> cause \<Rightarrow> bool" where
  "errors_Is e c \<longleftrightarrow> c \<in> set (causes e)"

definition is_credential_source :: "op_error \<Rightarrow> bool" where
  "is_credential_source e \<longleftrightarrow> list_ex (\<lambda>c. case c of CredentialSourceError _ \<Rightarrow> True | _ \<Rightarrow> False) (causes e)"

text \<open>\<open>gone\<close> says that the context has ended and is not the one of a shared refresh.\<close>

definition sessionOperationError :: "bool \<Rightarrow> Operation \<Rightarrow> ErrorDetail \<Rightarrow> cause list \<Rightarrow> op_error" where
  "sessionOperationError gone operation detail cs =
     (let detail1 = (if detail = SdProviderResponseInvalid \<and> ContextEnded \<in> set cs then SdProviderUnavailable else detail)
      in if gone then OperationError (NewErrorMetadata operation SdCallerCanceled) (cs @ [ContextEnded])
         else OperationError (NewErrorMetadata operation detail1) cs)"

definition refreshResponseError :: "bool \<Rightarrow> int \<Rightarrow> cause list \<Rightarrow> op_error" where
  "refreshResponseError gone status cs =
     (case sessionOperationError gone OperationRefresh SdProviderResponseInvalid cs of
        OperationError m cs' \<Rightarrow> OperationError (WithProviderResponse status [] m) cs'
      | PlainError cs' \<Rightarrow> PlainError cs')"

definition sessionFailureMetadata :: "op_error \<Rightarrow> ErrorMetadata" where
  "sessionFailureMetadata e =
     (case e of OperationError m _ \<Rightarrow> m | PlainError _ \<Rightarrow> NewErrorMetadata OperationUnknown SdInternalUnclassified)"

definition callerCanceledError :: "Operation \<Rightarrow> op_error \<Rightarrow> op_error" where
  "callerCanceledError fallback cs =
     (let m = sessionFailureMetadata cs;
          m' = (if emOperation m = OperationUnknown then m\<lparr>emOperation := fallback\<rparr> else m)
      in OperationError (m'\<lparr>emDetail := SdCallerCanceled, emKind := KindCanceled\<rparr>) (causes cs @ [ContextEnded]))"

definition sessionRepositoryError :: "bool \<Rightarrow> ErrorDetail \<Rightarrow> op_error \<Rightarrow> op_error" where
  "sessionRepositoryError gone detail e =
     (case e of
        OperationError m cs \<Rightarrow> OperationError m cs
      | PlainError cs \<Rightarrow>
          if NotFoundStored \<in> set cs then sessionOperationError gone OperationSessionLookup SdSessionMissing (ErrSessionNotFound # cs)
          else sessionOperationError gone OperationRefresh detail cs)"

definition tokenAcquisitionError :: "bool \<Rightarrow> Operation \<Rightarrow> cause list \<Rightarrow> op_error" where
  "tokenAcquisitionError gone operation cs =
     (let cs1 = (if NotFoundStored \<in> set cs then ErrServiceNotFound # cs else cs);
          config = (NotFoundStored \<in> set cs \<or> ErrProviderConfiguration \<in> set cs1);
          decrypt = (ErrSecretDecryption \<in> set cs1);
          detail = (if decrypt then SdDecryptionFailed else if config then SdConfiguration else SdRepositoryUnavailable);
          dependency = (if decrypt then DependencyEncryption else DependencyProviderRepository)
      in case sessionOperationError gone operation detail cs1 of
           OperationError m cs' \<Rightarrow>
             if emDetail m = SdCallerCanceled then OperationError m cs' else OperationError (WithDependency dependency m) cs'
         | e \<Rightarrow> e)"

text \<open>An error of the repository as the service sees it.\<close>

definition repo_error :: "session_error \<Rightarrow> op_error" where
  "repo_error e =
     PlainError
       (case e of
          SessionFault _ \<Rightarrow> [OtherCause ''session store'']
        | SessionStorageError se \<Rightarrow> (if seKind se = ErrorKindNotFound then [NotFoundStored] else [OtherCause ''session store''])
        | ContextDone \<Rightarrow> [ContextEnded])"

section \<open>Numbers of a token answer\<close>

text \<open>An integer literal, as \<^verbatim>\<open>strconv.ParseInt\<close> reads it: out of range it is \<^verbatim>\<open>ErrRange\<close>, not a syntax
  error, and the value is the nearer end of the range.\<close>

definition integer_literal :: "string \<Rightarrow> bool" where
  "integer_literal s \<longleftrightarrow>
     (let ds = (if HasPrefix s ''-'' \<or> HasPrefix s ''+'' then drop 1 s else s) in ds \<noteq> [] \<and> list_all is_digit ds)"

definition maxLifetimeSeconds :: int where
  "maxLifetimeSeconds = max_int64 div 1000000000"

text \<open>A parsed float64: its floor and whether a fraction is left.\<close>

datatype parsed_float = NotFinite | Floor int bool

definition cut_before :: "char \<Rightarrow> string \<Rightarrow> string" where
  "cut_before c s = takeWhile ((\<noteq>) c) s"

definition numberSeconds :: "(string \<Rightarrow> parsed_float option) \<Rightarrow> string \<Rightarrow> int option" where
  "numberSeconds parseFloat v =
     (let s = TrimSpace v
      in if s = [] then None
         else case ParseInt64 s of
             Some seconds \<Rightarrow> if seconds \<le> maxLifetimeSeconds then Some (max seconds 0) else None
           | None \<Rightarrow>
               if integer_literal s then None
               else case parseFloat s of
                   None \<Rightarrow> None
                 | Some NotFinite \<Rightarrow> None
                 | Some (Floor n fraction) \<Rightarrow>
                     if maxLifetimeSeconds < n \<or> (n = maxLifetimeSeconds \<and> fraction) \<or> n < min_int64 then None
                     else if n = 0 \<and> list_ex (\<lambda>c. c \<in> set ''123456789'') (cut_before (CHR ''E'') (cut_before (CHR ''e'') s)) then None
                     else Some (max n 0))"

definition maxRetryAfter :: duration where
  "maxRetryAfter = 10000000000"

definition retryAfter :: "(string \<Rightarrow> time option) \<Rightarrow> string \<Rightarrow> time \<Rightarrow> duration" where
  "retryAfter parseTime header now =
     (let h = TrimSpace header
      in if h = [] then 0
         else if integer_literal h
         then let seconds = (case ParseInt64 h of Some v \<Rightarrow> v | None \<Rightarrow> if HasPrefix h ''-'' then min_int64 else max_int64)
              in if maxRetryAfter div 1000000000 < seconds then maxRetryAfter + 1000000000 else max seconds 0 * 1000000000
         else case parseTime h of
             Some at \<Rightarrow> max (time_sub at now) 0
           | None \<Rightarrow> 0)"

lemma retryAfter_bounds:
  "0 \<le> retryAfter parseTime header now"
  "integer_literal (TrimSpace header) \<Longrightarrow> retryAfter parseTime header now \<le> maxRetryAfter + 1000000000"
  by (auto simp: retryAfter_def Let_def maxRetryAfter_def split: option.splits)

lemma numberSeconds_bounds: "numberSeconds parseFloat v = Some n \<Longrightarrow> 0 \<le> n \<and> n * 1000000000 \<le> max_int64"
  by (auto simp: numberSeconds_def Let_def maxLifetimeSeconds_def max_int64_def split: if_splits option.splits parsed_float.splits)

section \<open>The provider\<close>

datatype Secret = AbsentSecret | PlaintextSecret string | EncryptedSecret string

definition GetPlaintext :: "Secret \<Rightarrow> string option" where
  "GetPlaintext s = (case s of PlaintextSecret p \<Rightarrow> if p = [] then None else Some p | _ \<Rightarrow> None)"

definition IsAbsent :: "Secret \<Rightarrow> bool" where
  "IsAbsent s \<longleftrightarrow> s = AbsentSecret"

definition IsPlaintext :: "Secret \<Rightarrow> bool" where
  "IsPlaintext s = (case s of PlaintextSecret _ \<Rightarrow> True | _ \<Rightarrow> False)"

text \<open>The fields of \<^verbatim>\<open>ThirdpartyOAuth2ProviderEntity\<close> that the session service reads.\<close>

record provider_entity =
  peID :: service_id
  peCanonicalID :: "string option"
  peClearCanonicalID :: bool
  peDisplayName :: string
  peClientID :: string
  peSecret :: Secret
  peCredentialSource :: string
  peCredentialSourceTransitioned :: bool
  peCredentialSourceProvided :: bool
  peClientIDProvided :: bool
  peClientSecretProvided :: bool
  peTokenEndpointAuthMethod :: string
  peFlavor :: string
  peIssuerURI :: string
  peResourceURL :: "string option"
  peClientMethod :: string
  peTokenEndpoint :: string
  peAuthorizationParams :: "(string, string) gomap"

definition IsPublicClient :: "provider_entity \<Rightarrow> bool" where
  "IsPublicClient e \<longleftrightarrow> peTokenEndpointAuthMethod e = ''none''"

definition IsCIMDConfidentialClient :: "provider_entity \<Rightarrow> bool" where
  "IsCIMDConfidentialClient e \<longleftrightarrow> peTokenEndpointAuthMethod e = ''private_key_jwt''"

definition ScopeSeparator :: "string \<Rightarrow> char" where
  "ScopeSeparator flavor = (if flavor = ''github'' then CHR '','' else CHR '' '')"

definition reservedAuthorizationParamNames :: "string list" where
  "reservedAuthorizationParamNames =
     [''client_id'', ''client_secret'', ''redirect_uri'', ''response_type'', ''scope'', ''state'', ''code'', ''grant_type'',
      ''code_verifier'', ''code_challenge'', ''code_challenge_method'', ''nonce'', ''request'', ''request_uri'', ''refresh_token'']"

definition IsReservedAuthorizationParamName :: "string \<Rightarrow> bool" where
  "IsReservedAuthorizationParamName name \<longleftrightarrow> ToLower name \<in> set reservedAuthorizationParamNames"

definition validateCredentialSource :: "(string \<Rightarrow> string option) \<Rightarrow> provider_entity \<Rightarrow> string option" where
  "validateCredentialSource parse e =
     (let source = (if peCredentialSource e = [] \<and> \<not> peCredentialSourceProvided e then ''stored'' else peCredentialSource e)
      in if source = ''stored'' then None
         else if source = ''filesystem''
         then (if peTokenEndpointAuthMethod e \<noteq> [] \<or> peFlavor e = ''google'' \<or> peResourceURL e \<noteq> None \<or> peClientMethod e \<noteq> []
               then Some ''filesystem credential_source is not supported for this authentication mode''
               else if peCanonicalID e = None \<or> peClearCanonicalID e then Some ''canonical_id is required for filesystem credential_source''
               else if canonical_Validate parse (peCanonicalID e) \<noteq> None then Some ''canonical_id is invalid''
               else if peClientIDProvided e \<or> peClientSecretProvided e \<or> peClientID e \<noteq> [] \<or> \<not> IsAbsent (peSecret e)
               then Some ''inline credentials must be absent for filesystem credential_source''
               else None)
         else Some ''credential_source must be stored or filesystem'')"

section \<open>The environment\<close>

text \<open>A refresh runs in the context of \<^verbatim>\<open>refreshOperationContext\<close>, which marks it as shared: its end is
  not the caller's, so no error below is turned into a cancellation. \<open>reExpired\<close> says that this
  context has ended before the exchange begins.\<close>

record refresh_form =
  rfRefreshToken :: string
  rfClientID :: "string option"
  rfClientSecret :: "string option"
  rfBasicAuth :: "(string \<times> string) option"
  rfParams :: "(string, string) gomap"
  rfClientAssertion :: "string option"

record token_response =
  trAccessToken :: string
  trTokenType :: string
  trExpiresIn :: "string option"
  trRefreshToken :: string
  trScope :: "string option"

text \<open>One exchange with the token endpoint. Of an error answer the code reads the status, the
  \<^verbatim>\<open>Retry-After\<close> header and at most 64 KiB of the body; of a success the token response, of at most
  1 MiB. \<open>haAt\<close> is the clock when the answer is there.\<close>

record http_answer =
  haStatus :: int
  haRetryAfter :: string
  haErrorRead :: bool
  haErrorFits :: bool
  haErrorCode :: "string option"
  haToken :: "string + token_response"
  haAt :: time

datatype http_outcome = RequestNotBuilt | DialFailed bool | Answer http_answer

record 'w refresh_env =
  reGetProvider :: "service_id \<Rightarrow> cause list + provider_entity"
  reDecryptSecret :: "provider_entity \<Rightarrow> string + provider_entity"
  reTokenClient :: "provider_entity \<Rightarrow> string option"
  reSecretless :: "provider_entity \<Rightarrow> string option"
  reParseUUID :: "string \<Rightarrow> string option"
  reCredentialFiles :: "string \<Rightarrow> bool"
  reReadPair :: "(string \<Rightarrow> string + string \<times> string) option"
  reSigner :: "(provider_entity \<Rightarrow> string option) option"
  rePost :: "refresh_form \<Rightarrow> 'w \<Rightarrow> http_outcome \<times> 'w"
  reMayWait :: "nat \<Rightarrow> duration \<Rightarrow> bool"
  reEncrypt :: "service_id \<Rightarrow> string \<Rightarrow> string option"
  reDecrypt :: "service_id \<Rightarrow> string \<Rightarrow> string option"
  reParseTime :: "string \<Rightarrow> time option"
  reParseFloat :: "string \<Rightarrow> parsed_float option"
  reExpired :: bool
  reMaxRetries :: int
  reRetryBaseDelay :: duration

definition ValidateOutboundCredentials :: "'w refresh_env \<Rightarrow> provider_entity \<Rightarrow> string option" where
  "ValidateOutboundCredentials E e =
     (case (if peCredentialSource e \<noteq> [] \<or> peCredentialSourceProvided e then validateCredentialSource (reParseUUID E) e else None) of
        Some err \<Rightarrow> Some err
      | None \<Rightarrow> if \<not> IsPublicClient e \<and> \<not> IsCIMDConfidentialClient e then None else reSecretless E e)"

definition GetForTokenAcquisition :: "'w refresh_env \<Rightarrow> service_id \<Rightarrow> cause list + provider_entity" where
  "GetForTokenAcquisition E serviceID =
     (case reGetProvider E serviceID of
        Inl cs \<Rightarrow> Inl cs
      | Inr e \<Rightarrow>
          if peID e \<noteq> serviceID then Inl [ErrProviderConfiguration]
          else if peCredentialSource e = ''filesystem'' \<or> IsPublicClient e \<or> IsCIMDConfidentialClient e \<or> IsPlaintext (peSecret e)
          then Inr e
          else case reDecryptSecret E e of
              Inl c \<Rightarrow> Inl [ErrSecretDecryption, OtherCause c]
            | Inr e' \<Rightarrow> Inr e')"

definition credentialSourceEligible :: "provider_entity \<Rightarrow> bool" where
  "credentialSourceEligible e \<longleftrightarrow> \<not> IsPublicClient e \<and> \<not> IsCIMDConfidentialClient e \<and> peFlavor e \<noteq> ''google''"

text \<open>\<^verbatim>\<open>selectCredentials\<close> for a refresh; a failure of the credential source is classified on the way out.\<close>

definition source_unavailable :: "string \<Rightarrow> op_error" where
  "source_unavailable reason =
     sessionOperationError False OperationRefresh SdCredentialSourceUnavailable [CredentialSourceError reason]"

definition selectCredentials ::
  "'w refresh_env \<Rightarrow> provider_entity \<Rightarrow> string option \<Rightarrow> op_error + string \<times> string" where
  "selectCredentials E entity established =
     (let candidate = (if peCredentialSource entity = [] \<and> \<not> peCredentialSourceProvided entity
                       then entity\<lparr>peCredentialSource := ''stored''\<rparr> else entity)
      in case ValidateOutboundCredentials E candidate of
           Some err \<Rightarrow> Inl (sessionOperationError False OperationRefresh SdConfiguration [ErrInvalidConfiguration, OtherCause err])
         | None \<Rightarrow>
             (case (if peCredentialSource candidate = ''filesystem''
                    then (case peCanonicalID candidate of
                            None \<Rightarrow> Inl (source_unavailable ''missing_binding'')
                          | Some cid \<Rightarrow>
                              if \<not> reCredentialFiles E cid then Inl (source_unavailable ''missing_binding'')
                              else case reReadPair E of
                                  None \<Rightarrow> Inl (source_unavailable ''read_failed'')
                                | Some read \<Rightarrow>
                                    (case read cid of Inl reason \<Rightarrow> Inl (source_unavailable reason) | Inr pair \<Rightarrow> Inr pair))
                    else if \<not> IsPublicClient candidate \<and> \<not> IsCIMDConfidentialClient candidate
                    then (case GetPlaintext (peSecret candidate) of
                            None \<Rightarrow> Inl (sessionOperationError False OperationRefresh SdDecryptionFailed [OtherCause ''provider secret not in plaintext state''])
                          | Some secret \<Rightarrow> Inr (peClientID candidate, secret))
                    else Inr (peClientID candidate, [])) of
                Inl err \<Rightarrow> Inl err
              | Inr (clientID, secret) \<Rightarrow>
                  if credentialSourceEligible candidate
                  then (case established of
                          None \<Rightarrow>
                            if peCredentialSource candidate \<noteq> ''stored'' \<or> peCredentialSourceTransitioned candidate
                            then Inl (source_unavailable ''identity_missing'') else Inr (clientID, secret)
                        | Some cid \<Rightarrow>
                            if cid = [] then Inl (source_unavailable ''identity_missing'')
                            else if clientID \<noteq> cid then Inl (source_unavailable ''identity_mismatch'')
                            else Inr (clientID, secret))
                  else Inr (clientID, secret)))"

section \<open>One attempt\<close>

record oauth_token =
  otAccessToken :: string
  otTokenType :: string
  otRefreshToken :: string
  otExpiry :: time
  otScope :: "string option"

record refreshAttemptOutcome =
  raoRetryable :: bool
  raoRetryAfter :: duration

definition no_retry :: refreshAttemptOutcome where
  "no_retry = \<lparr>raoRetryable = False, raoRetryAfter = 0\<rparr>"

definition thirdpartyRefreshError :: "http_answer \<Rightarrow> op_error \<times> bool" where
  "thirdpartyRefreshError resp =
     (let complete = haErrorRead resp \<and> haErrorFits resp;
          payload = (if complete then (case haErrorCode resp of None \<Rightarrow> [] | Some c \<Rightarrow> c) else []);
          code = (if IsSafeOAuthErrorCode payload then payload else []);
          status = haStatus resp;
          client_error = (400 \<le> status \<and> status \<le> 499);
          detail = (if status = 429 \<or> (500 \<le> status \<and> status \<le> 599) then SdProviderUnavailable
                    else if \<not> haErrorRead resp then SdProviderUnavailable
                    else if client_error \<and> code = ''invalid_grant'' then SdRefreshRejected
                    else if client_error \<and> (code = ''invalid_client'' \<or> code = ''unauthorized_client'') then SdProviderClientRejected
                    else SdProviderRejected)
      in (OperationError (WithProviderResponse status payload (NewErrorMetadata OperationRefresh detail))
            ((if code = ''invalid_grant'' \<and> client_error \<and> status \<noteq> 429 then [ErrRefreshRejected] else []) @ [OtherCause ''provider answer'']),
          complete))"

definition refresh_form_of :: "provider_entity \<Rightarrow> string \<Rightarrow> string \<Rightarrow> string \<Rightarrow> string option \<Rightarrow> refresh_form" where
  "refresh_form_of entity refreshToken clientID clientSecret assertion =
     (let basic = (peClientMethod entity = ''dcr'' \<and> peTokenEndpointAuthMethod entity = ''client_secret_basic'')
      in \<lparr>rfRefreshToken = refreshToken,
          rfClientID = (if basic then None else Some clientID),
          rfClientSecret = (if clientSecret \<noteq> [] \<and> \<not> basic then Some clientSecret else None),
          rfBasicAuth = (if basic then Some (clientID, clientSecret) else None),
          rfParams = filter (\<lambda>(name, _). \<not> IsReservedAuthorizationParamName name) (peAuthorizationParams entity),
          rfClientAssertion = assertion\<rparr>)"

definition token_of :: "token_response \<Rightarrow> int \<Rightarrow> time \<Rightarrow> oauth_token" where
  "token_of r expiresIn at =
     \<lparr>otAccessToken = trAccessToken r, otTokenType = trTokenType r, otRefreshToken = trRefreshToken r,
      otExpiry = (if 0 < expiresIn then at + expiresIn * 1000000000 else 0), otScope = trScope r\<rparr>"

definition read_answer :: "'w refresh_env \<Rightarrow> http_answer \<Rightarrow> (op_error \<times> refreshAttemptOutcome) + oauth_token" where
  "read_answer E resp =
     (if haStatus resp < 200 \<or> 300 \<le> haStatus resp
      then (case thirdpartyRefreshError resp of
              (failure, complete) \<Rightarrow>
                Inl (failure, \<lparr>raoRetryable = ((haStatus resp = 429 \<or> (500 \<le> haStatus resp \<and> haStatus resp \<le> 599)) \<and> complete),
                               raoRetryAfter = retryAfter (reParseTime E) (haRetryAfter resp) (haAt resp)\<rparr>))
      else case haToken resp of
          Inl c \<Rightarrow> Inl (refreshResponseError False (haStatus resp) [OtherCause c], no_retry)
        | Inr r \<Rightarrow>
            (case (case trExpiresIn r of None \<Rightarrow> Some 0 | Some v \<Rightarrow> numberSeconds (reParseFloat E) v) of
               None \<Rightarrow> Inl (refreshResponseError False (haStatus resp) [OtherCause ''invalid expires_in lifetime''], no_retry)
             | Some expiresIn \<Rightarrow>
                 if trAccessToken r = []
                 then Inl (refreshResponseError False (haStatus resp) [OtherCause ''upstream token response missing access_token''], no_retry)
                 else Inr (token_of r expiresIn (haAt resp))))"

definition refreshOnce ::
  "'w refresh_env \<Rightarrow> provider_entity \<Rightarrow> string \<Rightarrow> string \<Rightarrow> string \<Rightarrow> 'w \<Rightarrow>
    ((op_error \<times> refreshAttemptOutcome) + oauth_token) \<times> 'w" where
  "refreshOnce E entity refreshToken clientID clientSecret w =
     (case (if IsCIMDConfidentialClient entity
            then (case reSigner E of
                    None \<Rightarrow> Inl (OperationError (WithDependency DependencySigning (NewErrorMetadata OperationRefresh SdConfiguration)) [OtherCause ''CIMD key unavailable''])
                  | Some sign \<Rightarrow>
                      (case sign entity of
                         None \<Rightarrow> Inl (case sessionOperationError False OperationRefresh SdProviderUnavailable [OtherCause ''CIMD key unavailable''] of
                                       OperationError m cs \<Rightarrow> OperationError (WithDependency DependencySigning m) cs | e \<Rightarrow> e)
                       | Some assertion \<Rightarrow> Inr (Some assertion)))
            else Inr None) of
        Inl e \<Rightarrow> (Inl (e, no_retry), w)
      | Inr assertion \<Rightarrow>
          (case rePost E (refresh_form_of entity refreshToken clientID clientSecret assertion) w of
             (RequestNotBuilt, w') \<Rightarrow> (Inl (sessionOperationError False OperationRefresh SdConfiguration [OtherCause ''request''], no_retry), w')
           | (DialFailed retryable, w') \<Rightarrow>
               (Inl (sessionOperationError False OperationRefresh SdProviderUnavailable [OtherCause ''transport''],
                     \<lparr>raoRetryable = retryable, raoRetryAfter = 0\<rparr>), w')
           | (Answer resp, w') \<Rightarrow> (read_answer E resp, w')))"

section \<open>Retries\<close>

text \<open>\<open>left\<close> attempts are left, the current one has number \<open>attempt\<close>. \<^verbatim>\<open>1<<attempt\<close> and the product
  with the base delay are int64. \<open>reMayWait\<close> says that the context is alive and its deadline is
  further away than the delay, and that the wait was not cut short.\<close>

definition shift_one :: "nat \<Rightarrow> int" where
  "shift_one n = wrap_int64 (2 ^ n)"

fun refresh_attempts ::
  "'w refresh_env \<Rightarrow> provider_entity \<Rightarrow> string \<Rightarrow> string \<Rightarrow> string \<Rightarrow> nat \<Rightarrow> nat \<Rightarrow> 'w \<Rightarrow> (op_error + oauth_token) \<times> 'w" where
  "refresh_attempts E entity refreshToken clientID clientSecret attempt left w =
     (case refreshOnce E entity refreshToken clientID clientSecret w of
        (Inr token, w') \<Rightarrow> (Inr token, w')
      | (Inl (err, outcome), w') \<Rightarrow>
          (case left of
             0 \<Rightarrow> (Inl err, w')
           | Suc rest \<Rightarrow>
               if \<not> raoRetryable outcome \<or> maxRetryAfter < raoRetryAfter outcome \<or>
                  \<not> reMayWait E attempt (max (wrap_int64 (reRetryBaseDelay E * shift_one attempt)) (raoRetryAfter outcome))
               then (Inl err, w')
               else refresh_attempts E entity refreshToken clientID clientSecret (Suc attempt) rest w'))"

declare refresh_attempts.simps [simp del]

definition RefreshAccessToken ::
  "'w refresh_env \<Rightarrow> provider_entity \<Rightarrow> string \<Rightarrow> string option \<Rightarrow> 'w \<Rightarrow> (op_error + oauth_token) \<times> 'w" where
  "RefreshAccessToken E entity refreshToken established w =
     (if reExpired E then (Inl (sessionOperationError False OperationRefresh SdProviderUnavailable [ContextEnded]), w)
      else case reTokenClient E entity of
        Some err \<Rightarrow> (Inl (sessionOperationError False OperationRefresh SdConfiguration [ErrInvalidConfiguration, OtherCause err]), w)
      | None \<Rightarrow>
          (case ValidateOutboundCredentials E entity of
             Some err \<Rightarrow> (Inl (sessionOperationError False OperationRefresh SdConfiguration [ErrInvalidConfiguration, OtherCause err]), w)
           | None \<Rightarrow>
               if refreshToken = [] then (Inl (sessionOperationError False OperationRefresh SdRefreshUnavailable [ErrRefreshNotAvailable]), w)
               else case selectCredentials E entity established of
                   Inl e \<Rightarrow> (Inl e, w)
                 | Inr (clientID, secret) \<Rightarrow>
                     refresh_attempts E entity refreshToken clientID secret 0 (nat (max (reMaxRetries E) 1) - 1) w))"
section \<open>The session's tokens\<close>

fun split_on :: "char \<Rightarrow> string \<Rightarrow> string list" where
  "split_on c [] = [[]]"
| "split_on c (x # xs) =
     (if x = c then [] # split_on c xs
      else case split_on c xs of [] \<Rightarrow> [[x]] | y # ys \<Rightarrow> (x # y) # ys)"

definition scopes_of :: "string \<Rightarrow> string \<Rightarrow> string list" where
  "scopes_of flavor scope = filter (\<lambda>v. v \<noteq> []) (map TrimSpace (split_on (ScopeSeparator flavor) scope))"

text \<open>\<^verbatim>\<open>setSessionTokens\<close> changes the session it is given; when it fails the caller drops that copy.\<close>

definition setSessionTokens :: "'w refresh_env \<Rightarrow> time \<Rightarrow> UserSession \<Rightarrow> oauth_token \<Rightarrow> string \<Rightarrow> op_error + UserSession" where
  "setSessionTokens E wnow session newToken flavor =
     (let failed = sessionOperationError False OperationRefresh SdEncryptionFailed [ErrEncryptionFailed]
      in case reEncrypt E (usServiceID session) (otAccessToken newToken) of
           None \<Rightarrow> Inl failed
         | Some access \<Rightarrow>
             let s1 = session\<lparr>usEncryptedAccessToken := access,
                   usAccessTokenExpiresAt := (if time_is_zero (otExpiry newToken) then None else Some (otExpiry newToken))\<rparr>
             in case (if otRefreshToken newToken = [] then Inr s1
                      else case reEncrypt E (usServiceID session) (otRefreshToken newToken) of
                          None \<Rightarrow> Inl failed
                        | Some refresh \<Rightarrow> Inr (s1\<lparr>usEncryptedRefreshToken := refresh, usRefreshRejectedAt := None\<rparr>)) of
                  Inl e \<Rightarrow> Inl e
                | Inr s2 \<Rightarrow>
                    let s3 = (if otTokenType newToken = [] then s2 else s2\<lparr>usTokenType := otTokenType newToken\<rparr>);
                        s4 = (case otScope newToken of None \<Rightarrow> s3 | Some scope \<Rightarrow> s3\<lparr>usScope := scopes_of flavor scope\<rparr>)
                    in Inr (s4\<lparr>usUpdatedAt := wnow\<rparr>))"

definition DecryptAccessToken :: "'w refresh_env \<Rightarrow> UserSession \<Rightarrow> string option" where
  "DecryptAccessToken E session = reDecrypt E (usServiceID session) (usEncryptedAccessToken session)"

definition DecryptRefreshToken :: "'w refresh_env \<Rightarrow> UserSession \<Rightarrow> string option" where
  "DecryptRefreshToken E session =
     (if usEncryptedRefreshToken session = [] then Some []
      else reDecrypt E (usServiceID session) (usEncryptedRefreshToken session))"

definition getRefreshProvider :: "'w refresh_env \<Rightarrow> service_id \<Rightarrow> op_error + provider_entity" where
  "getRefreshProvider E serviceID =
     (case GetForTokenAcquisition E serviceID of
        Inl cs \<Rightarrow> Inl (tokenAcquisitionError False OperationRefresh cs)
      | Inr service \<Rightarrow>
          if peClientMethod service = ''dcr'' \<and> peID service \<noteq> serviceID
          then Inl (PlainError [OtherCause ''DCR token identity does not match the requested service''])
          else Inr service)"

definition refreshSessionTokens ::
  "'w refresh_env \<Rightarrow> time \<Rightarrow> UserSession \<Rightarrow> provider_entity \<Rightarrow> 'w \<Rightarrow> (op_error + UserSession) \<times> 'w" where
  "refreshSessionTokens E wnow session service w =
     (if peClientMethod service = ''dcr'' \<and> peID service \<noteq> usServiceID session
      then (Inl (PlainError [OtherCause ''DCR token identity does not match the stored session'']), w)
      else case DecryptRefreshToken E session of
          None \<Rightarrow> (Inl (sessionOperationError False OperationRefresh SdDecryptionFailed [OtherCause ''failed to decrypt refresh token'']), w)
        | Some refreshToken \<Rightarrow>
            if refreshToken = [] then (Inl (sessionOperationError False OperationRefresh SdRefreshUnavailable [ErrRefreshNotAvailable]), w)
            else case RefreshAccessToken E service refreshToken (usUpstreamClientID session) w of
                (Inl err, w') \<Rightarrow>
                  (Inl (if is_credential_source err then err
                        else OperationError (sessionFailureMetadata err) (ErrRefreshFailed # causes err)), w')
              | (Inr newToken, w') \<Rightarrow> (setSessionTokens E wnow session newToken (peFlavor service), w'))"

section \<open>Refresh under the session's gate\<close>

datatype RefreshTrigger = RefreshTriggerOnDemand | RefreshTriggerBackground | RefreshTriggerSweep

text \<open>\<open>now\<close> is the clock reading of the check of the expired access token.\<close>

definition refreshUnavailableError :: "time \<Rightarrow> UserSession \<Rightarrow> bool \<Rightarrow> op_error" where
  "refreshUnavailableError now current thresholdSet =
     (if RefreshRejected current
      then sessionOperationError False OperationRefresh SdRefreshRejected [ErrRefreshRejected, ErrReauthenticationRequired]
      else if \<not> thresholdSet then sessionOperationError False OperationRefresh SdRefreshUnavailable [ErrRefreshNotAvailable]
      else sessionOperationError False OperationRefresh
             (case usAccessTokenExpiresAt current of
                None \<Rightarrow> SdRefreshUnavailable
              | Some e \<Rightarrow> if time_after e now then SdRefreshUnavailable else SdAccessTokenExpired)
             [ErrReauthenticationRequired, ErrRefreshNotAvailable])"

text \<open>The variables the callback of \<^verbatim>\<open>refreshLockedSession\<close> shares with it, and \<^verbatim>\<open>needsRefresh\<close> of
  \<^verbatim>\<open>checkUnrefreshableSweepCandidate\<close>.\<close>

record flight_vars =
  fvRefreshed :: bool
  fvRejected :: "op_error option"
  fvNeedsRefresh :: bool

definition no_flight :: flight_vars where
  "no_flight = \<lparr>fvRefreshed = False, fvRejected = None, fvNeedsRefresh = False\<rparr>"

record refresh_clock =
  rcCheck :: time
  rcWrite :: time

definition refresh_callback ::
  "'w refresh_env \<Rightarrow> refresh_clock \<Rightarrow> (op_error + provider_entity) \<Rightarrow> time option \<Rightarrow> RefreshTrigger \<Rightarrow> UserSession \<Rightarrow>
    'w \<times> flight_vars \<Rightarrow> (op_error + bool) \<times> UserSession \<times> 'w \<times> flight_vars" where
  "refresh_callback E c provider dueBy trigger current wv =
     (case wv of
        (w, v) \<Rightarrow>
          if RefreshRejected current
          then (if trigger \<noteq> RefreshTriggerOnDemand then Inr False else Inl (refreshUnavailableError (rcCheck c) current False), current, w, v)
          else if (case dueBy of None \<Rightarrow> False | Some due \<Rightarrow> \<not> AccessTokenExpiresBy due current) then (Inr False, current, w, v)
          else if \<not> CanRefresh current then (Inl (refreshUnavailableError (rcCheck c) current (dueBy \<noteq> None)), current, w, v)
          else case provider of
              Inl e \<Rightarrow> (Inl e, current, w, v)
            | Inr service \<Rightarrow>
                (case refreshSessionTokens E (rcWrite c) current service w of
                   (Inl err, w') \<Rightarrow>
                     if emDetail (sessionFailureMetadata err) \<noteq> SdRefreshRejected then (Inl err, current, w', v)
                     else (Inr True, current\<lparr>usRefreshRejectedAt := Some (rcWrite c), usUpdatedAt := rcWrite c\<rparr>, w', v\<lparr>fvRejected := Some err\<rparr>)
                 | (Inr session, w') \<Rightarrow> (Inr True, session, w', v\<lparr>fvRefreshed := True\<rparr>)))"

text \<open>\<open>ended\<close> and \<open>late\<close> say when the context of the refresh ends: before the gate is free, or before
  the session is written.\<close>

definition refreshLockedSession ::
  "('st, 'w \<times> flight_vars, op_error) session_port \<Rightarrow> 'w refresh_env \<Rightarrow> bool \<Rightarrow> bool \<Rightarrow> refresh_clock \<Rightarrow> principal \<Rightarrow> service_id \<Rightarrow>
    time option \<Rightarrow> RefreshTrigger \<Rightarrow> 'st \<times> 'w \<Rightarrow> (op_error + UserSession \<times> bool) \<times> 'st \<times> 'w" where
  "refreshLockedSession R E ended late c p serviceID dueBy trigger sw =
     (case spWithLockedSession R ended late p serviceID (refresh_callback E c (getRefreshProvider E serviceID) dueBy trigger) repo_error
             (fst sw, snd sw, no_flight) of
        (Inl e, st, w, v) \<Rightarrow>
          (Inl (sessionRepositoryError False
             (if fvRefreshed v \<or> fvRejected v \<noteq> None then SdPersistenceFailed else SdRepositoryUnavailable) e), st, w)
      | (Inr current, st, w, v) \<Rightarrow>
          (case fvRejected v of
             Some err \<Rightarrow> (Inl err, st, w)
           | None \<Rightarrow>
               (case current of
                  None \<Rightarrow> (Inl (sessionOperationError False OperationSessionLookup SdSessionMissing [ErrSessionNotFound]), st, w)
                | Some session \<Rightarrow> (Inr (session, fvRefreshed v), st, w))))"

section \<open>Reading a valid token\<close>

text \<open>When the caller's context ends: not at all, before the call, before the refresh is started, or
  while the caller waits for it. The refresh itself does not follow the caller's context.\<close>

datatype departure = Stays | GoneAtStart | GoneBeforeRefresh | GoneWaiting

definition finish_flight :: "'w refresh_env \<Rightarrow> (op_error + UserSession \<times> bool) \<Rightarrow> op_error + UserSession \<times> string" where
  "finish_flight E flight =
     (case flight of
        Inl e \<Rightarrow> Inl e
      | Inr (current, _) \<Rightarrow>
          if RefreshRejected current then Inl (refreshUnavailableError 0 current False)
          else case DecryptAccessToken E current of
              None \<Rightarrow> Inl (sessionOperationError False OperationRefresh SdDecryptionFailed [OtherCause ''failed to decrypt access token''])
            | Some token \<Rightarrow> Inr (current, token))"

text \<open>The first step: an answer, or the need of a refresh. Other callers may change the store before the
  refresh holds the session's gate: \<open>between\<close> is what they do.\<close>

definition lookup_valid_token ::
  "('st, 'w \<times> flight_vars, op_error) session_port \<Rightarrow> 'w refresh_env \<Rightarrow> bool \<Rightarrow> time \<Rightarrow> principal \<Rightarrow> service_id \<Rightarrow> 'st \<Rightarrow>
    (op_error + UserSession \<times> string) option" where
  "lookup_valid_token R E gone now p serviceID st =
     (case spFind R p serviceID st of
        Inl e \<Rightarrow>
          (case repo_error e of
             PlainError cs \<Rightarrow>
               if NotFoundStored \<in> set cs
               then Some (Inl (sessionOperationError gone OperationSessionLookup SdSessionMissing (ErrSessionNotFound # cs)))
               else Some (Inl (sessionOperationError gone OperationSessionLookup SdRepositoryUnavailable cs))
           | err \<Rightarrow> Some (Inl err))
      | Inr None \<Rightarrow> Some (Inl (sessionOperationError gone OperationSessionLookup SdSessionMissing [ErrSessionNotFound]))
      | Inr (Some session) \<Rightarrow>
          if RefreshRejected session then Some (Inl (refreshUnavailableError now session False))
          else if HasValidAccessToken now session
          then Some (case DecryptAccessToken E session of
                       None \<Rightarrow> Inl (sessionOperationError gone OperationSessionLookup SdDecryptionFailed [OtherCause ''failed to decrypt access token''])
                     | Some token \<Rightarrow> Inr (session, token))
          else None)"

definition as_canceled :: "Operation \<Rightarrow> (op_error + 'a) \<Rightarrow> op_error + 'a" where
  "as_canceled operation r = (case r of Inl e \<Rightarrow> Inl (callerCanceledError operation e) | Inr x \<Rightarrow> Inr x)"

text \<open>Requests for one session share a refresh (\<^verbatim>\<open>refreshGroup.DoChan\<close>); that sharing is not modelled:
  \<open>between\<close> stands for what other requests did before this one holds the session's lock.\<close>

definition GetValidAccessToken ::
  "('st, 'w \<times> flight_vars, op_error) session_port \<Rightarrow> 'w refresh_env \<Rightarrow> ('st \<Rightarrow> 'st) \<Rightarrow> departure \<Rightarrow> bool \<Rightarrow> bool \<Rightarrow> time \<Rightarrow> time \<Rightarrow> refresh_clock \<Rightarrow>
    principal \<Rightarrow> service_id \<Rightarrow> 'st \<times> 'w \<Rightarrow> (op_error + UserSession \<times> string) \<times> 'st \<times> 'w" where
  "GetValidAccessToken R E between dep ended late now due c p serviceID sw =
     (if dep = GoneAtStart
      then (as_canceled OperationSessionLookup (Inl (sessionOperationError True OperationSessionLookup SdCallerCanceled [ContextEnded])), sw)
      else case lookup_valid_token R E (dep = GoneBeforeRefresh) now p serviceID (fst sw) of
          Some r \<Rightarrow> (if dep = GoneBeforeRefresh then as_canceled OperationSessionLookup r else r, sw)
        | None \<Rightarrow>
            if dep = GoneBeforeRefresh
            then (as_canceled OperationSessionLookup (Inl (sessionOperationError True OperationRefresh SdCallerCanceled [ContextEnded])), sw)
            else case refreshLockedSession R E ended late c p serviceID (Some due) RefreshTriggerOnDemand (between (fst sw), snd sw) of
                (flight, sw') \<Rightarrow>
                  (if dep = GoneWaiting
                   then as_canceled OperationSessionLookup (Inl (sessionOperationError True OperationRefresh SdCallerCanceled [ContextEnded]))
                   else finish_flight E flight, sw'))"

text \<open>Whether the call also hands the session to the background workers, which refresh it by the same
  locked refresh.\<close>

definition submits_background :: "duration \<Rightarrow> time \<Rightarrow> UserSession \<Rightarrow> bool" where
  "submits_background lookahead now session \<longleftrightarrow> CanRefresh session \<and> AccessTokenExpiresBy (now + lookahead) session"

definition ForceRefreshSession ::
  "('st, 'w \<times> flight_vars, op_error) session_port \<Rightarrow> 'w refresh_env \<Rightarrow> bool \<Rightarrow> bool \<Rightarrow> bool \<Rightarrow> time \<Rightarrow> refresh_clock \<Rightarrow> string + nat \<Rightarrow>
    principal \<Rightarrow> service_id \<Rightarrow> 'st \<times> 'w \<Rightarrow> (op_error + UserSessionSummary) \<times> 'st \<times> 'w" where
  "ForceRefreshSession R E gone ended late now c agents p serviceID sw =
     (let answer = (\<lambda>r. if gone then as_canceled OperationRefresh r else r);
          missing = (\<lambda>cs. Inl (sessionOperationError False OperationSessionLookup SdSessionMissing (ErrSessionNotFound # cs)))
      in case spFind R p serviceID (fst sw) of
           Inl e \<Rightarrow>
             (answer (if NotFoundStored \<in> set (causes (repo_error e)) then missing (causes (repo_error e))
                      else Inl (sessionOperationError False OperationRefresh SdRepositoryUnavailable (causes (repo_error e)))), sw)
         | Inr None \<Rightarrow> (answer (missing []), sw)
         | Inr (Some existing) \<Rightarrow>
             (case refreshLockedSession R E ended late c p serviceID None RefreshTriggerOnDemand sw of
                (Inl e, sw') \<Rightarrow> (answer (Inl e), sw')
              | (Inr (session, _), sw') \<Rightarrow>
                  (Inr (NewUserSessionSummary now session
                     (case getRefreshProvider E serviceID of Inr service \<Rightarrow> peDisplayName service | Inl _ \<Rightarrow> [])
                     (case agents of Inl _ \<Rightarrow> 0 | Inr n \<Rightarrow> n)), sw')))"
section \<open>What the locked refresh does\<close>

lemma setSessionTokens_Inr:
  assumes "setSessionTokens E wnow session t flavor = Inr se"
  shows "same_session se session \<and> usCallbackID se = usCallbackID session \<and> usUpstreamClientID se = usUpstreamClientID session \<and>
    reEncrypt E (usServiceID session) (otAccessToken t) = Some (usEncryptedAccessToken se) \<and>
    usAccessTokenExpiresAt se = (if otExpiry t = 0 then None else Some (otExpiry t)) \<and>
    (if otRefreshToken t = [] then usEncryptedRefreshToken se = usEncryptedRefreshToken session \<and> usRefreshRejectedAt se = usRefreshRejectedAt session
     else reEncrypt E (usServiceID session) (otRefreshToken t) = Some (usEncryptedRefreshToken se) \<and> usRefreshRejectedAt se = None)"
  using assms
  by (auto simp: setSessionTokens_def Let_def same_session_def time_is_zero_def split: option.splits if_splits sum.splits)

lemma refreshSessionTokens_Inr:
  assumes "refreshSessionTokens E wnow session service w = (Inr se, w')"
  obtains rt t where "DecryptRefreshToken E session = Some rt" and "rt \<noteq> []"
    and "RefreshAccessToken E service rt (usUpstreamClientID session) w = (Inr t, w')"
    and "setSessionTokens E wnow session t (peFlavor service) = Inr se"
  using assms by (auto simp: refreshSessionTokens_def split: if_splits option.splits prod.splits sum.splits)

lemma keep_client_same: "usUpstreamClientID se = usUpstreamClientID current \<Longrightarrow> keep_client current se = se"
  by (simp add: keep_client_def)

lemma callback_rejected:
  "RefreshRejected current \<Longrightarrow> \<exists>r. refresh_callback E c provider dueBy trigger current (w, v) = (r, current, w, v) \<and> r \<noteq> Inr True"
  by (auto simp: refresh_callback_def)

lemma callback_write:
  assumes "refresh_callback E c provider dueBy trigger current (w, v) = (Inr True, se, w', v')"
  shows "\<not> RefreshRejected current \<and> CanRefresh current \<and> same_session se current \<and> keep_client current se = se \<and>
    ((\<exists>err. v' = v\<lparr>fvRejected := Some err\<rparr> \<and> emDetail (sessionFailureMetadata err) = SdRefreshRejected \<and>
        se = current\<lparr>usRefreshRejectedAt := Some (rcWrite c), usUpdatedAt := rcWrite c\<rparr>) \<or>
     (\<exists>service. provider = Inr service \<and> v' = v\<lparr>fvRefreshed := True\<rparr> \<and> refreshSessionTokens E (rcWrite c) current service w = (Inr se, w')))"
proof -
  from assms obtain service where s: "provider = Inr service" "\<not> RefreshRejected current" "CanRefresh current"
    by (auto simp: refresh_callback_def split: if_splits sum.splits)
  from assms s show ?thesis
    by (auto simp: refresh_callback_def same_session_def keep_client_def split: if_splits sum.splits prod.splits
        elim!: refreshSessionTokens_Inr dest!: setSessionTokens_Inr)
qed

lemma callback_keep:
  assumes "refresh_callback E c provider dueBy trigger current (w, v) = (r, se, w', v')" and "r \<noteq> Inr True"
  shows "se = current \<and> v' = v \<and>
    (r = Inr False \<longrightarrow> w' = w \<and> (RefreshRejected current \<or> (\<exists>due. dueBy = Some due \<and> \<not> AccessTokenExpiresBy due current)))"
  using assms by (auto simp: refresh_callback_def split: if_splits option.splits sum.splits prod.splits)

locale refresh_repository = session_repository R abss invar
  for R :: "('st, 'w \<times> flight_vars, op_error) session_port" and abss invar
begin

text \<open>A refresh that answers with a session returns the stored one, unchanged or with the new tokens.\<close>

lemma locked_refresh_Inr:
  assumes inv: "invar st" and u: "uuid_text svc"
    and r: "refreshLockedSession R E ended late c p svc dueBy trigger (st, w) = (Inr (se, b), st', w')"
  shows "invar st' \<and> abss st' (p, svc) = Some se \<and>
    (if b then \<exists>current service. abss st (p, svc) = Some current \<and> \<not> RefreshRejected current \<and> getRefreshProvider E svc = Inr service \<and>
         refreshSessionTokens E (rcWrite c) current service w = (Inr se, w') \<and> abss st' = (abss st)((p, svc) \<mapsto> se)
     else st' = st \<and> w' = w \<and> (RefreshRejected se \<or> (\<exists>due. dueBy = Some due \<and> \<not> AccessTokenExpiresBy due se)))"
proof -
  let ?f = "refresh_callback E c (getRefreshProvider E svc) dueBy trigger"
  from r obtain v where l: "spWithLockedSession R ended late p svc ?f repo_error (st, w, no_flight) = (Inr (Some se), st', w', v)"
      and v: "fvRejected v = None" "b = fvRefreshed v"
    by (auto simp: refreshLockedSession_def split: prod.splits sum.splits option.splits)
  from locked_found [OF inv u l] obtain current wr session where c: "abss st (p, svc) = Some current"
      and f: "?f current (w, no_flight) = (Inr wr, session, w', v)" and se: "se = keep_client current session"
      and upd: "wr \<Longrightarrow> same_session session current \<Longrightarrow> invar st' \<and> abss st' = (abss st)((p, svc) \<mapsto> se)" and keep: "\<not> wr \<Longrightarrow> st' = st"
    by auto
  show ?thesis
  proof (cases wr)
    case True
    from callback_write [of E c "getRefreshProvider E svc" dueBy trigger current w no_flight session w' v] f True v upd se c
    show ?thesis by (auto simp: no_flight_def)
  next
    case False
    from callback_keep [OF f] False keep se c inv v show ?thesis by (simp add: no_flight_def keep_client_def)
  qed
qed

text \<open>A refresh that fails leaves the store alone, but for the mark of a rejected refresh token.\<close>

lemma locked_refresh_Inl:
  assumes inv: "invar st" and u: "uuid_text svc"
    and r: "refreshLockedSession R E ended late c p svc dueBy trigger (st, w) = (Inl e, st', w')"
  shows "invar st' \<and> (st' = st \<or>
    (\<exists>current. abss st (p, svc) = Some current \<and> \<not> RefreshRejected current \<and> emDetail (sessionFailureMetadata e) = SdRefreshRejected \<and>
       abss st' = (abss st)((p, svc) \<mapsto> current\<lparr>usRefreshRejectedAt := Some (rcWrite c), usUpdatedAt := rcWrite c\<rparr>)))"
proof -
  let ?f = "refresh_callback E c (getRefreshProvider E svc) dueBy trigger"
  obtain x v where l: "spWithLockedSession R ended late p svc ?f repo_error (st, w, no_flight) = (x, st', w', v)"
    using r by (auto simp: refreshLockedSession_def split: prod.splits sum.splits option.splits)
  show ?thesis
  proof (cases x)
    case (Inl err)
    with locked_error [OF inv] l inv show ?thesis by blast
  next
    case (Inr found)
    show ?thesis
    proof (cases found)
      case None
      with locked_missing [OF inv u] l Inr inv show ?thesis by blast
    next
      case (Some se)
      with l Inr have l': "spWithLockedSession R ended late p svc ?f repo_error (st, w, no_flight) = (Inr (Some se), st', w', v)" by simp
      with r obtain err where v: "fvRejected v = Some err" "e = err"
        by (auto simp: refreshLockedSession_def split: option.splits)
      from locked_found [OF inv u l'] obtain current wr session where c: "abss st (p, svc) = Some current"
          and f: "?f current (w, no_flight) = (Inr wr, session, w', v)" and se: "se = keep_client current session"
          and upd: "wr \<Longrightarrow> same_session session current \<Longrightarrow> invar st' \<and> abss st' = (abss st)((p, svc) \<mapsto> se)" and keep: "\<not> wr \<Longrightarrow> st' = st"
        by auto
      show ?thesis
      proof (cases wr)
        case True
        from callback_write [of E c "getRefreshProvider E svc" dueBy trigger current w no_flight session w' v] f True v upd se c
        show ?thesis by (auto simp: no_flight_def)
      next
        case False
        with keep inv show ?thesis by blast
      qed
    qed
  qed
qed

text \<open>A rejected session is left alone, and its provider is not asked again.\<close>

lemma locked_refresh_rejected:
  assumes inv: "invar st" and u: "uuid_text svc" and se: "abss st (p, svc) = Some se" "RefreshRejected se"
    and r: "refreshLockedSession R E ended late c p svc dueBy trigger (st, w) = (res, st', w')"
  shows "st' = st \<and> w' = w"
proof -
  let ?f = "refresh_callback E c (getRefreshProvider E svc) dueBy trigger"
  obtain x v where l: "spWithLockedSession R ended late p svc ?f repo_error (st, w, no_flight) = (x, st', w', v)"
    using r by (auto simp: refreshLockedSession_def split: prod.splits sum.splits option.splits)
  from callback_rejected [OF se(2), of E c "getRefreshProvider E svc" dueBy trigger w no_flight] obtain y where f: "?f se (w, no_flight) = (y, se, w, no_flight)" "y \<noteq> Inr True" by blast
  have "w' = w" using locked_calls [OF inv u l] f(1) se(1) by auto
  moreover have "st' = st"
  proof (cases x)
    case (Inl err)
    with locked_error [OF inv] l show ?thesis by blast
  next
    case (Inr found)
    show ?thesis
    proof (cases found)
      case None
      with locked_missing [OF inv u] l Inr show ?thesis by blast
    next
      case (Some s)
      with locked_found [OF inv u, of ended late p ?f repo_error "(w, no_flight)" s st' "(w', v)"] l Inr f se(1) show ?thesis by auto
    qed
  qed
  ultimately show ?thesis by blast
qed

lemma lookup_cases:
  assumes inv: "invar st" and u: "uuid_text svc"
  shows "lookup_valid_token R E gone now p svc st = None \<Longrightarrow> \<exists>se. abss st (p, svc) = Some se \<and> \<not> RefreshRejected se \<and> \<not> HasValidAccessToken now se"
    and "lookup_valid_token R E gone now p svc st = Some (Inr (se, tok)) \<Longrightarrow>
      abss st (p, svc) = Some se \<and> \<not> RefreshRejected se \<and> HasValidAccessToken now se \<and> DecryptAccessToken E se = Some tok"
  using find_ok [OF inv u]
  by (auto simp: lookup_valid_token_def split: sum.splits op_error.splits option.splits if_splits)

lemma valid_token_sound:
  assumes inv: "invar st" "invar (between st)" and u: "uuid_text svc"
    and r: "GetValidAccessToken R E between dep ended late now due c p svc (st, w) = (Inr (se, tok), st', w')"
  shows "invar st' \<and> abss st' (p, svc) = Some se \<and> session_pair se = (p, svc) \<and> \<not> RefreshRejected se \<and> DecryptAccessToken E se = Some tok \<and>
    (HasValidAccessToken now se \<and> st' = st \<and> w' = w \<or>
     \<not> AccessTokenExpiresBy due se \<and> st' = between st \<and> w' = w \<or>
     (\<exists>current service. abss (between st) (p, svc) = Some current \<and> \<not> RefreshRejected current \<and> getRefreshProvider E svc = Inr service \<and>
        refreshSessionTokens E (rcWrite c) current service w = (Inr se, w') \<and> abss st' = (abss (between st))((p, svc) \<mapsto> se)))"
proof (cases "lookup_valid_token R E (dep = GoneBeforeRefresh) now p svc st")
  case None
  with r obtain flight where f: "refreshLockedSession R E ended late c p svc (Some due) RefreshTriggerOnDemand (between st, w) = (flight, st', w')"
      and fin: "finish_flight E flight = Inr (se, tok)"
    by (auto simp: GetValidAccessToken_def as_canceled_def split: if_splits prod.splits sum.splits)
  from fin obtain b where b: "flight = Inr (se, b)" "\<not> RefreshRejected se" "DecryptAccessToken E se = Some tok"
    by (auto simp: finish_flight_def split: sum.splits if_splits option.splits)
  note l = locked_refresh_Inr [OF inv(2) u f [unfolded b(1)]]
  from l have "invar st'" "abss st' (p, svc) = Some se" by auto
  moreover from this have "session_pair se = (p, svc)" using pair_of by blast
  moreover from l b(2) have "\<not> AccessTokenExpiresBy due se \<and> st' = between st \<and> w' = w \<or>
     (\<exists>current service. abss (between st) (p, svc) = Some current \<and> \<not> RefreshRejected current \<and> getRefreshProvider E svc = Inr service \<and>
        refreshSessionTokens E (rcWrite c) current service w = (Inr se, w') \<and> abss st' = (abss (between st))((p, svc) \<mapsto> se))"
    by (cases b) simp_all
  ultimately show ?thesis using b by blast
next
  case (Some x)
  with r have "x = Inr (se, tok)" "st' = st" "w' = w"
    by (auto simp: GetValidAccessToken_def as_canceled_def split: if_splits sum.splits)
  with lookup_cases(2) [OF inv(1) u] Some inv pair_of show ?thesis by blast
qed

lemma valid_token_rejected:
  assumes inv: "invar st" and u: "uuid_text svc" and se: "abss st (p, svc) = Some se" "RefreshRejected se"
  shows "\<exists>e. GetValidAccessToken R E between dep ended late now due c p svc (st, w) = (Inl e, st, w)"
proof (cases "lookup_valid_token R E (dep = GoneBeforeRefresh) now p svc st")
  case None
  with lookup_cases(1) [OF inv u None] se show ?thesis by auto
next
  case (Some x)
  have "\<nexists>y. x = Inr y" using lookup_cases(2) [OF inv u, of E "dep = GoneBeforeRefresh" now p] Some se by fastforce
  with Some show ?thesis by (cases x) (auto simp: GetValidAccessToken_def as_canceled_def)
qed

end

interpretation mem_refresh: refresh_repository "memory_session_port provider" session_abs session_invar for provider
  by unfold_locales

section \<open>Theorems\<close>

text \<open>The stored refresh token after a refresh is the one the provider issued last.\<close>

lemma refreshed_tokens_decrypt:
  assumes enc: "\<And>k c. reEncrypt E (usServiceID session) k = Some c \<Longrightarrow> c \<noteq> [] \<and> reDecrypt E (usServiceID session) c = Some k"
    and r: "refreshSessionTokens E wnow session service w = (Inr se, w')"
  shows "\<exists>rt t. DecryptRefreshToken E session = Some rt \<and> rt \<noteq> [] \<and>
    RefreshAccessToken E service rt (usUpstreamClientID session) w = (Inr t, w') \<and>
    DecryptAccessToken E se = Some (otAccessToken t) \<and>
    DecryptRefreshToken E se = Some (if otRefreshToken t = [] then rt else otRefreshToken t)"
proof -
  from r obtain rt t where t: "DecryptRefreshToken E session = Some rt" "rt \<noteq> []"
      "RefreshAccessToken E service rt (usUpstreamClientID session) w = (Inr t, w')"
      "setSessionTokens E wnow session t (peFlavor service) = Inr se"
    by (rule refreshSessionTokens_Inr)
  from setSessionTokens_Inr [OF t(4)] have s: "usServiceID se = usServiceID session"
      "reEncrypt E (usServiceID session) (otAccessToken t) = Some (usEncryptedAccessToken se)"
      "otRefreshToken t = [] \<Longrightarrow> usEncryptedRefreshToken se = usEncryptedRefreshToken session"
      "otRefreshToken t \<noteq> [] \<Longrightarrow> reEncrypt E (usServiceID session) (otRefreshToken t) = Some (usEncryptedRefreshToken se)"
    by (auto simp: same_session_def split: if_splits)
  have "DecryptAccessToken E se = Some (otAccessToken t)" using enc [OF s(2)] s(1) by (simp add: DecryptAccessToken_def)
  moreover have "DecryptRefreshToken E se = Some (if otRefreshToken t = [] then rt else otRefreshToken t)"
    using enc [OF s(4)] s(1,3) t(1) by (simp add: DecryptRefreshToken_def split: if_splits)
  ultimately show ?thesis using t by blast
qed

text \<open>A count of exchanges that each exchange raises by at most one.\<close>

lemma refreshOnce_counts:
  fixes m :: "'w \<Rightarrow> nat"
  assumes "\<And>f w. m (snd (rePost E f w)) \<le> Suc (m w)"
  shows "m (snd (refreshOnce E entity rt cid sec w)) \<le> Suc (m w)"
proof -
  have "snd (refreshOnce E entity rt cid sec w) = w \<or> (\<exists>f. snd (refreshOnce E entity rt cid sec w) = snd (rePost E f w))"
    unfolding refreshOnce_def by (auto split: sum.splits prod.splits http_outcome.splits) (metis snd_conv)+
  with assms show ?thesis by (metis le_SucI order_refl)
qed

lemma refresh_attempts_counts:
  fixes m :: "'w \<Rightarrow> nat"
  assumes "\<And>f w. m (snd (rePost E f w)) \<le> Suc (m w)"
  shows "m (snd (refresh_attempts E entity rt cid sec attempt left w)) \<le> m w + Suc left"
proof (induction left arbitrary: attempt w)
  case 0
  with refreshOnce_counts [where m = m, OF assms, of entity rt cid sec w] show ?case
    by (subst refresh_attempts.simps) (auto split: sum.splits prod.splits)
next
  case (Suc left)
  from refreshOnce_counts [where m = m, OF assms, of entity rt cid sec w] Suc.IH show ?case
    by (subst refresh_attempts.simps) (fastforce split: sum.splits prod.splits intro: le_trans)
qed

text \<open>
  C10. Reading an access token: what is handed out is the decryption of the session stored for this
  user and service once the call is over, never of a session whose refresh token was rejected. The
  token was valid when it was looked up (nothing changed then), or a concurrent refresh had renewed it
  past the threshold, or the provider renewed it in this call and the renewed session is the one stored.
\<close>

theorem GetValidAccessToken_sound:
  assumes "session_invar st" and "session_invar (between st)" and "uuid_text svc"
    and "GetValidAccessToken (memory_session_port provider) E between dep ended late now due c p svc (st, w) = (Inr (se, tok), st', w')"
  shows "session_invar st' \<and> session_abs st' (p, svc) = Some se \<and> usPrincipal se = p \<and> usServiceID se = svc \<and>
    \<not> RefreshRejected se \<and> DecryptAccessToken E se = Some tok \<and>
    (HasValidAccessToken now se \<and> st' = st \<and> w' = w \<or>
     \<not> AccessTokenExpiresBy due se \<and> st' = between st \<and> w' = w \<or>
     (\<exists>current service. session_abs (between st) (p, svc) = Some current \<and> \<not> RefreshRejected current \<and>
        getRefreshProvider E svc = Inr service \<and> refreshSessionTokens E (rcWrite c) current service w = (Inr se, w') \<and>
        session_abs st' = (session_abs (between st))((p, svc) \<mapsto> se)))"
  using mem_refresh.valid_token_sound [OF assms] by (simp only: prod.inject) blast

text \<open>
  C35. A rejected refresh token is never used again: while the stored session carries the mark of the
  rejection, a locked refresh by any trigger and a request for a token neither contact the provider nor
  change the store, and the request fails.
\<close>

theorem rejected_session_left_alone:
  assumes "session_invar st" and "uuid_text svc" and "session_abs st (p, svc) = Some se" and "RefreshRejected se"
  shows "snd (refreshLockedSession (memory_session_port provider) E ended late c p svc dueBy trigger (st, w)) = (st, w) \<and>
    (\<exists>e. GetValidAccessToken (memory_session_port provider) E between dep ended late now due c p svc (st, w) = (Inl e, st, w))"
proof
  show "snd (refreshLockedSession (memory_session_port provider) E ended late c p svc dueBy trigger (st, w)) = (st, w)"
    using mem_refresh.locked_refresh_rejected [OF assms] by (metis prod.collapse)
qed (rule mem_refresh.valid_token_rejected [OF assms])

text \<open>
  C36. A refresh that fails leaves every stored session as it was, with one exception: when the provider
  answered that the refresh token is no longer valid, the session of this user and service, and no
  other, gets the mark of the rejection and keeps its tokens.
\<close>

theorem failed_refresh_leaves_store:
  assumes "session_invar st" and "uuid_text svc"
    and "refreshLockedSession (memory_session_port provider) E ended late c p svc dueBy trigger (st, w) = (Inl e, st', w')"
  shows "session_invar st' \<and> (st' = st \<or>
    (\<exists>current. session_abs st (p, svc) = Some current \<and> \<not> RefreshRejected current \<and> emDetail (sessionFailureMetadata e) = SdRefreshRejected \<and>
       session_abs st' = (session_abs st)((p, svc) \<mapsto> current\<lparr>usRefreshRejectedAt := Some (rcWrite c), usUpdatedAt := rcWrite c\<rparr>)))"
  using mem_refresh.locked_refresh_Inl [OF assms] .

text \<open>
  C37. Rotation: when the encryption of the service's tokens can be undone, a refresh that succeeds used
  the stored refresh token, and what is stored afterwards decrypts to the access token the provider
  answered with and to the refresh token it issued, or to the old one when it issued none.
\<close>

theorem rotated_tokens_stored:
  assumes "session_invar st" and "uuid_text svc"
    and "\<And>k c. reEncrypt E svc k = Some c \<Longrightarrow> c \<noteq> [] \<and> reDecrypt E svc c = Some k"
    and "refreshLockedSession (memory_session_port provider) E ended late c p svc dueBy trigger (st, w) = (Inr (se, True), st', w')"
  shows "\<exists>current service rt t. session_abs st (p, svc) = Some current \<and> DecryptRefreshToken E current = Some rt \<and>
    RefreshAccessToken E service rt (usUpstreamClientID current) w = (Inr t, w') \<and>
    session_abs st' = (session_abs st)((p, svc) \<mapsto> se) \<and> DecryptAccessToken E se = Some (otAccessToken t) \<and>
    DecryptRefreshToken E se = Some (if otRefreshToken t = [] then rt else otRefreshToken t)"
proof -
  from mem_refresh.locked_refresh_Inr [OF assms(1,2,4)] obtain current service where c: "session_abs st (p, svc) = Some current"
      "refreshSessionTokens E (rcWrite c) current service w = (Inr se, w')" "session_abs st' = (session_abs st)((p, svc) \<mapsto> se)"
    by auto
  from mem_sessions.pair_of [OF assms(1) c(1)] have "usServiceID current = svc" by simp
  with refreshed_tokens_decrypt [OF _ c(2)] assms(3) c show ?thesis by blast
qed

text \<open>
  A caller that leaves while it waits for a refresh gets the error of a cancellation, and the
  refresh goes on: store and provider end as they do for a caller that stays.
\<close>

theorem leaving_caller_does_not_stop_refresh:
  "snd (GetValidAccessToken R E between GoneWaiting ended late now due c p svc sw) =
     snd (GetValidAccessToken R E between Stays ended late now due c p svc sw)"
  by (simp add: GetValidAccessToken_def split: option.splits prod.splits)

text \<open>
  Retries are bounded: however the provider answers, one refresh makes at most
  \<^verbatim>\<open>max(MaxRetries, 1)\<close> exchanges with the token endpoint (counted by any measure of the world that an
  exchange raises by at most one).
\<close>

theorem refresh_exchanges_bounded:
  fixes m :: "'w \<Rightarrow> nat"
  assumes "\<And>f w. m (snd (rePost E f w)) \<le> Suc (m w)"
  shows "m (snd (RefreshAccessToken E entity refreshToken established w)) \<le> m w + nat (max (reMaxRetries E) 1)"
proof -
  have "m (snd (refresh_attempts E entity refreshToken a b 0 (nat (max (reMaxRetries E) 1) - 1) w)) \<le> m w + nat (max (reMaxRetries E) 1)" for a b
    using refresh_attempts_counts [of m E, OF assms, of entity refreshToken a b 0 "nat (max (reMaxRetries E) 1) - 1" w] by simp
  then show ?thesis by (auto simp: RefreshAccessToken_def split: option.splits sum.splits prod.splits)
qed

section \<open>A provider for the witnesses\<close>

text \<open>The world counts the exchanges. The provider answers with the given status; on success it rotates
  the refresh token. Encryption marks the text.\<close>

definition demo_provider :: "service_id \<Rightarrow> provider_entity" where
  "demo_provider svc =
     \<lparr>peID = svc, peCanonicalID = None, peClearCanonicalID = False, peDisplayName = ''Demo'', peClientID = ''client'',
      peSecret = PlaintextSecret ''s3cret'', peCredentialSource = [], peCredentialSourceTransitioned = False,
      peCredentialSourceProvided = False, peClientIDProvided = False, peClientSecretProvided = False, peTokenEndpointAuthMethod = [],
      peFlavor = ''generic'', peIssuerURI = [], peResourceURL = None, peClientMethod = [], peTokenEndpoint = ''https://idp/token'',
      peAuthorizationParams = []\<rparr>"

definition demo_answer :: "int \<Rightarrow> string \<Rightarrow> http_answer" where
  "demo_answer status code =
     \<lparr>haStatus = status, haRetryAfter = [], haErrorRead = True, haErrorFits = True, haErrorCode = Some code,
      haToken = Inr \<lparr>trAccessToken = ''at2'', trTokenType = ''Bearer'', trExpiresIn = Some ''60'', trRefreshToken = ''rt2'', trScope = None\<rparr>,
      haAt = 1000\<rparr>"

definition demo_env :: "int \<Rightarrow> string \<Rightarrow> nat refresh_env" where
  "demo_env status code =
     \<lparr>reGetProvider = (\<lambda>svc. Inr (demo_provider svc)), reDecryptSecret = Inr, reTokenClient = (\<lambda>_. None), reSecretless = (\<lambda>_. None),
      reParseUUID = (\<lambda>_. None), reCredentialFiles = (\<lambda>_. False), reReadPair = None, reSigner = None,
      rePost = (\<lambda>_ n. (Answer (demo_answer status code), Suc n)), reMayWait = (\<lambda>_ _. True),
      reEncrypt = (\<lambda>_ k. Some (CHR ''x'' # k)), reDecrypt = (\<lambda>_ c. if c = [] then None else Some (tl c)),
      reParseTime = (\<lambda>_. None), reParseFloat = (\<lambda>_. None), reExpired = False, reMaxRetries = 3, reRetryBaseDelay = 1\<rparr>"

definition demo_clock :: refresh_clock where
  "demo_clock = \<lparr>rcCheck = 100, rcWrite = 100\<rparr>"

abbreviation demo_port :: "(session_store, nat \<times> flight_vars, op_error) session_port" where
  "demo_port \<equiv> memory_session_port None"

definition demo_svc :: "char \<Rightarrow> service_id" where
  "demo_svc c = c # replicate 35 (CHR ''1'')"

lemma demo_svc_uuid: "uuid_text (demo_svc (CHR ''a''))" "uuid_text (demo_svc (CHR ''b''))" "uuid_text (demo_svc (CHR ''c''))"
  by code_simp+

text \<open>The renewed session of the witnesses.\<close>

definition demo_renewed :: UserSession where
  "demo_renewed = demo_session (CHR ''c'') (Some 60000001000) None
     \<lparr>usEncryptedAccessToken := ''xat2'', usEncryptedRefreshToken := ''xrt2'', usUpdatedAt := 100\<rparr>"

theorem GetValidAccessToken_sound_witness:
  "case GetValidAccessToken demo_port (demo_env 200 []) id Stays False False 100 100 demo_clock ''alice'' (demo_svc (CHR ''c'')) (demo_store, 0) of
     (r, st, n) \<Rightarrow> r = Inr (demo_renewed, ''at2'') \<and> n = 1 \<and> session_invar st \<and> session_abs st (''alice'', demo_svc (CHR ''c'')) = Some demo_renewed"
proof -
  let ?r = "GetValidAccessToken demo_port (demo_env 200 []) id Stays False False 100 100 demo_clock ''alice'' (demo_svc (CHR ''c'')) (demo_store, 0)"
  have f: "fst ?r = Inr (demo_renewed, ''at2'')" and n: "snd (snd ?r) = 1" by code_simp+
  have "?r = (Inr (demo_renewed, ''at2''), fst (snd ?r), snd (snd ?r))" unfolding f [symmetric] by simp
  from GetValidAccessToken_sound [OF demo_store_invar _ demo_svc_uuid(3) this] n f show ?thesis
    by (simp add: demo_store_invar split_beta)
qed

theorem rejected_session_left_alone_witness:
  "snd (refreshLockedSession demo_port (demo_env 200 []) False False demo_clock ''alice'' (demo_svc (CHR ''b'')) None RefreshTriggerSweep (demo_store, 0)) =
     (demo_store, 0)"
proof -
  have "session_abs demo_store (''alice'', demo_svc (CHR ''b'')) = Some (demo_session (CHR ''b'') (Some 40) (Some 5))"
    and "RefreshRejected (demo_session (CHR ''b'') (Some 40) (Some 5))" by code_simp+
  then show ?thesis by (rule rejected_session_left_alone [OF demo_store_invar demo_svc_uuid(2), THEN conjunct1])
qed

theorem failed_refresh_leaves_store_witness:
  "case refreshLockedSession demo_port (demo_env 400 ''invalid_grant'') False False demo_clock ''alice'' (demo_svc (CHR ''c'')) None
      RefreshTriggerOnDemand (demo_store, 0) of
     (r, st, n) \<Rightarrow> n = 1 \<and> session_invar st \<and>
       map_option usRefreshRejectedAt (session_abs st (''alice'', demo_svc (CHR ''c''))) = Some (Some 100)"
proof -
  let ?r = "refreshLockedSession demo_port (demo_env 400 ''invalid_grant'') False False demo_clock ''alice'' (demo_svc (CHR ''c'')) None
      RefreshTriggerOnDemand (demo_store, 0)"
  have f: "isl (fst ?r)" and n: "snd (snd ?r) = 1"
    and s: "map_option usRefreshRejectedAt (session_abs (fst (snd ?r)) (''alice'', demo_svc (CHR ''c''))) = Some (Some 100)" by code_simp+
  from f have "?r = (Inl (projl (fst ?r)), fst (snd ?r), snd (snd ?r))" by (simp add: prod_eq_iff)
  from failed_refresh_leaves_store [OF demo_store_invar demo_svc_uuid(3) this] n s show ?thesis
    by (simp add: split_beta)
qed

theorem rotated_tokens_stored_witness:
  "case refreshLockedSession demo_port (demo_env 200 []) False False demo_clock ''alice'' (demo_svc (CHR ''c'')) None RefreshTriggerOnDemand (demo_store, 0) of
     (r, st, n) \<Rightarrow> session_abs st (''alice'', demo_svc (CHR ''c'')) = Some demo_renewed \<and>
       DecryptRefreshToken (demo_env 200 []) demo_renewed = Some ''rt2''"
proof -
  let ?r = "refreshLockedSession demo_port (demo_env 200 []) False False demo_clock ''alice'' (demo_svc (CHR ''c'')) None RefreshTriggerOnDemand (demo_store, 0)"
  have f: "fst ?r = Inr (demo_renewed, True)" and d: "DecryptRefreshToken (demo_env 200 []) demo_renewed = Some ''rt2''" by code_simp+
  have r: "?r = (Inr (demo_renewed, True), fst (snd ?r), snd (snd ?r))" unfolding f [symmetric] by simp
  have enc: "\<And>k c. reEncrypt (demo_env 200 []) (demo_svc (CHR ''c'')) k = Some c \<Longrightarrow>
      c \<noteq> [] \<and> reDecrypt (demo_env 200 []) (demo_svc (CHR ''c'')) c = Some k"
    by (auto simp: demo_env_def)
  from rotated_tokens_stored [OF demo_store_invar demo_svc_uuid(3) enc r] d show ?thesis
    by (auto simp: split_beta)
qed

theorem refresh_exchanges_bounded_witness:
  "snd (RefreshAccessToken (demo_env 503 []) (demo_provider []) ''rt'' None 0) = 3 \<and>
   snd (RefreshAccessToken (demo_env 503 []) (demo_provider []) ''rt'' None 0) \<le> 0 + nat (max 3 1)"
proof
  show "snd (RefreshAccessToken (demo_env 503 []) (demo_provider []) ''rt'' None 0) = 3" by code_simp
  show "snd (RefreshAccessToken (demo_env 503 []) (demo_provider []) ''rt'' None 0) \<le> 0 + nat (max 3 1)"
    using refresh_exchanges_bounded [of id "demo_env 503 []" "demo_provider []" "''rt''" None 0] by (simp add: demo_env_def)
qed

end
