(* ===== verification/Session_Sweep.thy ===== *)
theory Session_Sweep
  imports Session_Refresh
begin

text \<open>
  The sweep over expiring sessions (\<^verbatim>\<open>internal/domain/oauth2session/sweep.go\<close>): pages of due sessions are
  read from the repository in the order of expiry and identifier, every candidate is refreshed under its
  gate and counted once. The loop over pages has no bound in the code; it is a partial function, and
  that it returns is a theorem.

  The context is asked at many places; \<open>swGone k\<close> is the answer to the \<open>k\<close>-th question. \<open>swClock\<close> and
  \<open>swEnds\<close> give, for the \<open>n\<close>-th candidate, the clock of its refresh and whether the context of the refresh
  ends before the gate or before the write. Metrics and log lines are left out.
\<close>

section \<open>The sweep\<close>

record SweepRequest =
  sqLookahead :: duration
  sqDryRun :: bool
  sqPageSize :: int

record SweepResult =
  srRefreshed :: nat
  srSkipped :: nat
  srFailed :: nat
  srTotalEvaluated :: nat
  srDryRun :: bool
  srEffectiveLookahead :: duration
  srEffectivePageSize :: int

datatype sweep_error = ErrInvalidSweepRequest string | SweepCanceled | SweepFailed op_error

record ('st, 'w) sweep_service =
  swPort :: "('st, 'w \<times> flight_vars, op_error) session_port"
  swExpiry :: "bool \<Rightarrow> time \<Rightarrow> SessionExpiryCursor \<Rightarrow> int \<Rightarrow> 'st \<Rightarrow> StorageError + UserSession list"
  swEnv :: "'w refresh_env"
  swRefreshLookahead :: duration
  swDefaultPageSize :: int
  swGone :: "nat \<Rightarrow> bool"
  swClock :: "nat \<Rightarrow> refresh_clock"
  swEnds :: "nat \<Rightarrow> bool \<times> bool"

record ('st, 'w) sweep_state =
  stChecks :: nat
  stSeen :: "session_id list"
  stResult :: SweepResult
  stStore :: 'st
  stWorld :: 'w

text \<open>\<^verbatim>\<open>nextSweepCursor\<close>; None is its error.\<close>

fun nextSweepCursor :: "UserSession list \<Rightarrow> SessionExpiryCursor \<Rightarrow> SessionExpiryCursor option" where
  "nextSweepCursor [] previous = Some previous"
| "nextSweepCursor (candidate # page) previous =
     (case usAccessTokenExpiresAt candidate of
        None \<Rightarrow> None
      | Some e \<Rightarrow>
          if usID candidate = uuid_nil then None
          else if cuID previous \<noteq> uuid_nil \<and>
             (e < cuAccessTokenExpiresAt previous \<or> (e = cuAccessTokenExpiresAt previous \<and> usID candidate \<le> cuID previous))
          then None
          else nextSweepCursor page \<lparr>cuAccessTokenExpiresAt = e, cuID = usID candidate\<rparr>)"

text \<open>The variable \<^verbatim>\<open>needsRefresh\<close> of the callback is \<open>fvNeedsRefresh\<close>.\<close>

definition unrefreshable_callback ::
  "refresh_clock \<Rightarrow> time \<Rightarrow> UserSession \<Rightarrow> 'w \<times> flight_vars \<Rightarrow> (op_error + bool) \<times> UserSession \<times> 'w \<times> flight_vars" where
  "unrefreshable_callback c threshold current wv =
     (case wv of
        (w, v) \<Rightarrow>
          if RefreshRejected current \<or> \<not> AccessTokenExpiresBy threshold current then (Inr False, current, w, v)
          else if \<not> CanRefresh current then (Inl (refreshUnavailableError (rcCheck c) current True), current, w, v)
          else (Inr False, current, w, v\<lparr>fvNeedsRefresh := True\<rparr>))"

definition checkUnrefreshableSweepCandidate ::
  "('st, 'w \<times> flight_vars, op_error) session_port \<Rightarrow> bool \<Rightarrow> bool \<Rightarrow> refresh_clock \<Rightarrow> principal \<Rightarrow> service_id \<Rightarrow> time \<Rightarrow> 'st \<times> 'w \<Rightarrow>
    (op_error + bool) \<times> 'st \<times> 'w" where
  "checkUnrefreshableSweepCandidate R ended late c p serviceID threshold sw =
     (case spWithLockedSession R ended late p serviceID (unrefreshable_callback c threshold) repo_error (fst sw, snd sw, no_flight) of
        (Inl e, st, w, v) \<Rightarrow> (Inl (sessionRepositoryError False SdRepositoryUnavailable e), st, w)
      | (Inr None, st, w, v) \<Rightarrow> (Inr False, st, w)
      | (Inr (Some _), st, w, v) \<Rightarrow> (Inr (fvNeedsRefresh v), st, w))"

text \<open>The refresh of one candidate: whether it was refreshed, or the error.\<close>

definition sweep_refresh ::
  "('st, 'w) sweep_service \<Rightarrow> time \<Rightarrow> nat \<Rightarrow> UserSession \<Rightarrow> 'st \<times> 'w \<Rightarrow> (op_error + bool) \<times> 'st \<times> 'w" where
  "sweep_refresh X threshold n candidate sw =
     (case swEnds X n of
        (ended, late) \<Rightarrow>
          let p = usPrincipal candidate; svc = usServiceID candidate; c = swClock X n;
              refreshDue = (\<lambda>sw. case refreshLockedSession (swPort X) (swEnv X) ended late c p svc (Some threshold) RefreshTriggerSweep sw of
                (Inl e, sw') \<Rightarrow> (Inl e, sw') | (Inr (_, refreshed), sw') \<Rightarrow> (Inr refreshed, sw'))
          in if \<not> CanRefresh candidate
             then (case checkUnrefreshableSweepCandidate (swPort X) ended late c p svc threshold sw of
                     (Inl e, sw') \<Rightarrow> (Inl e, sw')
                   | (Inr needsRefresh, sw') \<Rightarrow> if needsRefresh then refreshDue sw' else (Inr False, sw'))
             else refreshDue sw)"

datatype verdict = Refreshed | Skipped | Failed | Aborted op_error

definition dry_verdict :: "time \<Rightarrow> UserSession \<Rightarrow> verdict" where
  "dry_verdict threshold candidate =
     (if RefreshRejected candidate \<or> \<not> AccessTokenExpiresBy threshold candidate then Skipped
      else if \<not> CanRefresh candidate then Failed
      else Refreshed)"

definition refresh_verdict :: "op_error + bool \<Rightarrow> verdict" where
  "refresh_verdict r =
     (case r of
        Inr refreshed \<Rightarrow> if refreshed then Refreshed else Skipped
      | Inl e \<Rightarrow>
          let m = sessionFailureMetadata e
          in if emDetail m = SdSessionMissing then Skipped
             else if emKind m = KindCanceled then Aborted e
             else if emKind m = KindInfrastructure \<and> (emDependency m = DependencySessionRepository \<or> emDependency m = DependencyProviderRepository)
             then Aborted e
             else Failed)"

definition count_verdict :: "verdict \<Rightarrow> SweepResult \<Rightarrow> SweepResult" where
  "count_verdict v r =
     (let r1 = (case v of
            Refreshed \<Rightarrow> r\<lparr>srRefreshed := Suc (srRefreshed r)\<rparr>
          | Skipped \<Rightarrow> r\<lparr>srSkipped := Suc (srSkipped r)\<rparr>
          | Failed \<Rightarrow> r\<lparr>srFailed := Suc (srFailed r)\<rparr>
          | Aborted _ \<Rightarrow> r)
      in r1\<lparr>srTotalEvaluated := Suc (srTotalEvaluated r1)\<rparr>)"

fun sweep_page ::
  "('st, 'w) sweep_service \<Rightarrow> time \<Rightarrow> bool \<Rightarrow> UserSession list \<Rightarrow> ('st, 'w) sweep_state \<Rightarrow> ('st, 'w) sweep_state \<times> sweep_error option" where
  "sweep_page X threshold dry [] s = (s, None)"
| "sweep_page X threshold dry (candidate # page) s =
     (let s1 = s\<lparr>stChecks := Suc (stChecks s)\<rparr>
      in if swGone X (stChecks s) then (s1, Some SweepCanceled)
         else if usID candidate \<in> set (stSeen s) then sweep_page X threshold dry page s1
         else let s2 = s1\<lparr>stSeen := usID candidate # stSeen s\<rparr>;
                  n = srTotalEvaluated (stResult s);
                  (v, st, w) = (if dry then (dry_verdict threshold candidate, stStore s, stWorld s)
                    else case sweep_refresh X threshold n candidate (stStore s, stWorld s) of (r, st, w) \<Rightarrow> (refresh_verdict r, st, w));
                  s3 = s2\<lparr>stStore := st, stWorld := w\<rparr>
              in case v of
                   Aborted e \<Rightarrow> (s3, Some (SweepFailed e))
                 | _ \<Rightarrow> sweep_page X threshold dry page (s3\<lparr>stResult := count_verdict v (stResult s)\<rparr>))"

definition listing_failed :: "bool \<Rightarrow> sweep_error" where
  "listing_failed gone = SweepFailed (sessionOperationError gone OperationSessionLookup SdRepositoryUnavailable [OtherCause ''session store''])"

partial_function (option) sweep_loop ::
  "('st, 'w) sweep_service \<Rightarrow> time \<Rightarrow> int \<Rightarrow> bool \<Rightarrow> SessionExpiryCursor \<Rightarrow> ('st, 'w) sweep_state \<Rightarrow>
    (('st, 'w) sweep_state \<times> sweep_error option) option" where
  "sweep_loop X threshold pageSize dry cursor s =
     (let k = stChecks s; s1 = s\<lparr>stChecks := k + 4\<rparr>
      in if swGone X k then Some (s1, Some SweepCanceled)
         else case swExpiry X (swGone X (k + 1)) threshold cursor pageSize (stStore s) of
             Inl e \<Rightarrow> Some (s1, Some (if swGone X (k + 2) then SweepCanceled else listing_failed (swGone X (k + 3))))
           | Inr page \<Rightarrow>
               (case nextSweepCursor page cursor of
                  None \<Rightarrow> Some (s1, Some (listing_failed (swGone X (k + 3))))
                | Some cursor' \<Rightarrow>
                    (case sweep_page X threshold dry page s1 of
                       (s2, Some e) \<Rightarrow> Some (s2, Some e)
                     | (s2, None) \<Rightarrow>
                         if int (length page) < pageSize
                         then Some (s2\<lparr>stChecks := Suc (stChecks s2)\<rparr>, if swGone X (stChecks s2) then Some SweepCanceled else None)
                         else sweep_loop X threshold pageSize dry cursor' s2)))"

declare sweep_loop.simps [code]

definition sweep_start :: SessionExpiryCursor where
  "sweep_start = \<lparr>cuAccessTokenExpiresAt = 0, cuID = uuid_nil\<rparr>"

definition effective_request :: "('st, 'w) sweep_service \<Rightarrow> SweepRequest \<Rightarrow> SweepRequest" where
  "effective_request X req =
     (let req1 = (if sqLookahead req = 0 then req\<lparr>sqLookahead := swRefreshLookahead X\<rparr> else req)
      in if sqPageSize req1 = 0 then req1\<lparr>sqPageSize := swDefaultPageSize X\<rparr> else req1)"

definition empty_result :: "SweepRequest \<Rightarrow> SweepResult" where
  "empty_result req =
     \<lparr>srRefreshed = 0, srSkipped = 0, srFailed = 0, srTotalEvaluated = 0, srDryRun = sqDryRun req,
      srEffectiveLookahead = sqLookahead req, srEffectivePageSize = sqPageSize req\<rparr>"

definition sweep_initial :: "SweepRequest \<Rightarrow> 'st \<times> 'w \<Rightarrow> ('st, 'w) sweep_state" where
  "sweep_initial req sw = \<lparr>stChecks = 0, stSeen = [], stResult = empty_result req, stStore = fst sw, stWorld = snd sw\<rparr>"

definition Sweep ::
  "('st, 'w) sweep_service \<Rightarrow> time \<Rightarrow> SweepRequest \<Rightarrow> 'st \<times> 'w \<Rightarrow> (('st, 'w) sweep_state \<times> sweep_error option) option" where
  "Sweep X now req0 sw =
     (let req = effective_request X req0; s = sweep_initial req sw
      in if sqLookahead req \<le> 0 then Some (s, Some (ErrInvalidSweepRequest ''lookahead_duration must be greater than zero''))
         else if sqPageSize req < 1 \<or> 1000 < sqPageSize req then Some (s, Some (ErrInvalidSweepRequest ''page_size must be between 1 and 1000''))
         else sweep_loop X (now + sqLookahead req) (sqPageSize req) (sqDryRun req) sweep_start s)"

section \<open>What one candidate changes\<close>

definition counted_ok :: "SweepResult \<Rightarrow> bool" where
  "counted_ok r \<longleftrightarrow> srRefreshed r + srSkipped r + srFailed r = srTotalEvaluated r"

lemma count_verdict_ok: "counted_ok r \<Longrightarrow> \<not> (\<exists>e. v = Aborted e) \<Longrightarrow> counted_ok (count_verdict v r)"
  by (cases v) (auto simp: counted_ok_def count_verdict_def)

lemma count_verdict_total: "srTotalEvaluated (count_verdict v r) = Suc (srTotalEvaluated r)"
  by (cases v) (simp_all add: count_verdict_def)

lemma sweep_page_Cons:
  "sweep_page X threshold dry (candidate # page) s =
     (if swGone X (stChecks s) then (s\<lparr>stChecks := Suc (stChecks s)\<rparr>, Some SweepCanceled)
      else if usID candidate \<in> set (stSeen s) then sweep_page X threshold dry page (s\<lparr>stChecks := Suc (stChecks s)\<rparr>)
      else case (if dry then (dry_verdict threshold candidate, stStore s, stWorld s)
             else case sweep_refresh X threshold (srTotalEvaluated (stResult s)) candidate (stStore s, stWorld s) of
               (r, st, w) \<Rightarrow> (refresh_verdict r, st, w)) of
        (v, st, w) \<Rightarrow>
          let s3 = s\<lparr>stChecks := Suc (stChecks s), stSeen := usID candidate # stSeen s, stStore := st, stWorld := w\<rparr>
          in case v of
            Aborted e \<Rightarrow> (s3, Some (SweepFailed e))
          | _ \<Rightarrow> sweep_page X threshold dry page (s3\<lparr>stResult := count_verdict v (stResult s)\<rparr>))"
  by (simp add: Let_def split_beta split: verdict.splits)

declare sweep_page.simps(2) [simp del]

text \<open>An induction over a page: what holds at its start and is kept by a skipped and by a counted
  candidate holds at its end, whether the page is finished or not.\<close>

lemma sweep_page_cases:
  assumes "sweep_page X threshold dry (candidate # page) s = (s', e)"
  obtains (gone) "swGone X (stChecks s)" and "s' = s\<lparr>stChecks := Suc (stChecks s)\<rparr>" and "e = Some SweepCanceled"
  | (seen) "usID candidate \<in> set (stSeen s)" and "sweep_page X threshold dry page (s\<lparr>stChecks := Suc (stChecks s)\<rparr>) = (s', e)"
  | (evaluated) v st w where "usID candidate \<notin> set (stSeen s)"
      and "(v, st, w) = (if dry then (dry_verdict threshold candidate, stStore s, stWorld s)
             else case sweep_refresh X threshold (srTotalEvaluated (stResult s)) candidate (stStore s, stWorld s) of
               (r, st, w) \<Rightarrow> (refresh_verdict r, st, w))"
      and "(\<exists>a. v = Aborted a \<and> e = Some (SweepFailed a) \<and>
              s' = s\<lparr>stChecks := Suc (stChecks s), stSeen := usID candidate # stSeen s, stStore := st, stWorld := w\<rparr>) \<or>
           ((\<nexists>a. v = Aborted a) \<and>
            sweep_page X threshold dry page (s\<lparr>stChecks := Suc (stChecks s), stSeen := usID candidate # stSeen s, stStore := st, stWorld := w,
              stResult := count_verdict v (stResult s)\<rparr>) = (s', e))"
  using assms unfolding sweep_page_Cons
  by (auto simp: Let_def split: if_splits prod.splits verdict.splits)

definition counts_ok :: "('st, 'w) sweep_state \<Rightarrow> sweep_error option \<Rightarrow> bool" where
  "counts_ok s e \<longleftrightarrow> counted_ok (stResult s) \<and> distinct (stSeen s) \<and>
     (if e = None then srTotalEvaluated (stResult s) = length (stSeen s) else srTotalEvaluated (stResult s) \<le> length (stSeen s))"

lemma sweep_page_counts:
  "sweep_page X threshold dry page s = (s', e) \<Longrightarrow> counts_ok s None \<Longrightarrow> counts_ok s' e"
proof (induction page arbitrary: s)
  case (Cons candidate page)
  from Cons.prems(1) show ?case
  proof (cases rule: sweep_page_cases)
    case gone
    with Cons.prems show ?thesis by (auto simp: counts_ok_def)
  next
    case seen
    from Cons.IH [OF seen(2)] Cons.prems show ?thesis by (simp add: counts_ok_def)
  next
    case (evaluated v st w)
    from evaluated(3) show ?thesis
    proof (elim disjE exE conjE)
      fix a assume "v = Aborted a" "e = Some (SweepFailed a)"
        "s' = s\<lparr>stChecks := Suc (stChecks s), stSeen := usID candidate # stSeen s, stStore := st, stWorld := w\<rparr>"
      with Cons.prems evaluated(1) show ?thesis by (simp add: counts_ok_def)
    next
      assume a: "\<nexists>a. v = Aborted a" "sweep_page X threshold dry page (s\<lparr>stChecks := Suc (stChecks s), stSeen := usID candidate # stSeen s,
          stStore := st, stWorld := w, stResult := count_verdict v (stResult s)\<rparr>) = (s', e)"
      show ?thesis by (rule Cons.IH [OF a(2)]) (use Cons.prems(2) evaluated(1) a(1) in \<open>auto simp: counts_ok_def count_verdict_total count_verdict_ok\<close>)
    qed
  qed
qed simp

lemma unrefreshable_keeps:
  assumes "unrefreshable_callback c threshold current (w, v) = (r, se, w', v')"
  shows "se = current \<and> w' = w \<and> r \<noteq> Inr True"
  using assms by (auto simp: unrefreshable_callback_def split: if_splits)

lemma nextSweepCursor_last:
  "nextSweepCursor page previous = Some c \<Longrightarrow> page \<noteq> [] \<Longrightarrow>
   (cuAccessTokenExpiresAt c, cuID c) = expiry_key (last page) \<and> cuID c \<noteq> uuid_nil"
proof (induction page arbitrary: previous)
  case (Cons candidate page)
  then obtain e where e: "usAccessTokenExpiresAt candidate = Some e" "usID candidate \<noteq> uuid_nil"
      "nextSweepCursor page \<lparr>cuAccessTokenExpiresAt = e, cuID = usID candidate\<rparr> = Some c"
    by (auto split: option.splits if_splits)
  show ?case
  proof (cases "page = []")
    case True
    with e show ?thesis by (auto simp: expiry_key_def)
  next
    case False
    with Cons.IH [OF e(3)] show ?thesis by simp
  qed
qed simp

lemma is_due_cursor:
  "is_due threshold cursor se \<longleftrightarrow> is_due threshold sweep_start se \<and>
     (cuID cursor \<noteq> uuid_nil \<longrightarrow> (cuAccessTokenExpiresAt cursor, cuID cursor) < expiry_key se)"
  by (auto simp: is_due_def sweep_start_def compareSessionExpiryKey_def expiry_key_def Let_def split: if_splits)

section \<open>Every due session is evaluated once\<close>

text \<open>A step on the session of the pair \<open>k\<close> with the identifier \<open>i\<close> changes no other.\<close>

definition touched :: "principal \<times> service_id \<Rightarrow> session_id \<Rightarrow> session_map \<Rightarrow> session_map \<Rightarrow> bool" where
  "touched k i m m' \<longleftrightarrow> (\<forall>l. l \<noteq> k \<longrightarrow> m' l = m l) \<and> (\<exists>b. m' k = Some b \<and> usID b = i)"

locale expiry_repository = refresh_repository R abss invar
  for R :: "('st, 'w \<times> flight_vars, op_error) session_port" and abss invar +
  fixes list_expiring :: "bool \<Rightarrow> time \<Rightarrow> SessionExpiryCursor \<Rightarrow> int \<Rightarrow> 'st \<Rightarrow> StorageError + UserSession list"
  assumes pair_uuid: "invar st \<Longrightarrow> abss st (p, svc) = Some se \<Longrightarrow> uuid_text svc"
    and finite_sessions: "invar st \<Longrightarrow> finite (dom (abss st))"
    and page_ok: "invar st \<Longrightarrow> 1 \<le> limit \<Longrightarrow> limit \<le> 1000 \<Longrightarrow> list_expiring interrupted threshold cursor limit st = Inr page \<Longrightarrow>
      \<exists>ds. set ds = {se \<in> ran (abss st). is_due threshold cursor se} \<and> sorted_wrt (\<lambda>a b. expiry_key a < expiry_key b) ds \<and> page = take (nat limit) ds"
begin

lemma locked_refresh_touches:
  assumes inv: "invar st" and se: "abss st (p, svc) = Some se"
    and r: "refreshLockedSession R E ended late c p svc dueBy trigger (st, w) = (r, st', w')"
  shows "invar st' \<and> touched (p, svc) (usID se) (abss st) (abss st')"
proof (cases r)
  case (Inl e)
  from locked_refresh_Inl [OF inv pair_uuid [OF inv se] r [unfolded Inl]] inv se show ?thesis by (auto simp: touched_def)
next
  case (Inr x)
  obtain se' b where x: "x = (se', b)" by (cases x)
  have "usID se' = usID se" if "refreshSessionTokens E (rcWrite c) se service w = (Inr se', w')" for service
    using that by (auto elim!: refreshSessionTokens_Inr dest!: setSessionTokens_Inr simp: same_session_def)
  with locked_refresh_Inr [OF inv pair_uuid [OF inv se] r [unfolded Inr x]] inv se show ?thesis
    by (auto simp: touched_def split: if_splits)
qed

lemma check_keeps:
  assumes inv: "invar st" and se: "abss st (p, svc) = Some se"
    and r: "checkUnrefreshableSweepCandidate R ended late c p svc threshold (st, w) = (r, st', w')"
  shows "st' = st"
proof -
  obtain x v where l: "spWithLockedSession R ended late p svc (unrefreshable_callback c threshold) repo_error (st, w, no_flight) = (x, st', w', v)"
    using r by (auto simp: checkUnrefreshableSweepCandidate_def split: prod.splits sum.splits option.splits)
  note u = pair_uuid [OF inv se]
  consider (err) e where "x = Inl e" | (missing) "x = Inr None" | (found) s where "x = Inr (Some s)" by (cases x) auto
  then show ?thesis
  proof cases
    case err
    with locked_error [OF inv] l show ?thesis by blast
  next
    case missing
    with locked_missing [OF inv u] l show ?thesis by blast
  next
    case found
    from locked_found [OF inv u l [unfolded found]] obtain wr s' where "unrefreshable_callback c threshold se (w, no_flight) = (Inr wr, s', w', v)"
        "\<not> wr \<Longrightarrow> st' = st" using se by auto
    with unrefreshable_keeps [of c threshold se w no_flight "Inr wr" s' w' v] show ?thesis by auto
  qed
qed

lemma sweep_refresh_touches:
  assumes inv: "invar st" and X: "swPort X = R" and se: "abss st (session_pair se) = Some se"
    and r: "sweep_refresh X threshold n se (st, w) = (r, st', w')"
  shows "invar st' \<and> touched (session_pair se) (usID se) (abss st) (abss st')"
proof -
  obtain ended late where n: "swEnds X n = (ended, late)" by (cases "swEnds X n")
  have refl: "invar st \<and> touched (session_pair se) (usID se) (abss st) (abss st)" using inv se by (simp add: touched_def)
  have check: "st'' = st" if "checkUnrefreshableSweepCandidate R ended late (swClock X n) (usPrincipal se) (usServiceID se) threshold (st, w) = (x, st'', w'')" for x st'' w''
    using check_keeps [OF inv _ that] se by simp
  have due: "invar st'' \<and> touched (session_pair se) (usID se) (abss st) (abss st'')"
    if "refreshLockedSession R (swEnv X) ended late (swClock X n) (usPrincipal se) (usServiceID se) (Some threshold) RefreshTriggerSweep (st, y) = (x, st'', w'')" for x y st'' w''
    using locked_refresh_touches [OF inv _ that] se by simp
  show ?thesis using r check due refl
    by (auto simp: sweep_refresh_def n X Let_def split: if_splits prod.splits sum.splits)
qed

end

definition due_ids :: "session_map \<Rightarrow> time \<Rightarrow> session_id set" where
  "due_ids m threshold = usID ` {se \<in> ran m. is_due threshold sweep_start se}"

text \<open>Against the sessions \<open>m0\<close> at the start, only sessions that were seen may have changed.\<close>

definition sweep_inv :: "session_map \<Rightarrow> time \<Rightarrow> session_map \<Rightarrow> session_id list \<Rightarrow> bool" where
  "sweep_inv m0 threshold m seen \<longleftrightarrow>
     (\<forall>k se. usID se \<notin> set seen \<longrightarrow> (m k = Some se \<longleftrightarrow> m0 k = Some se)) \<and> set seen \<subseteq> due_ids m0 threshold"

lemma sweep_inv_step:
  assumes "sweep_inv m0 threshold m seen" and "touched (session_pair c) (usID c) m m'" and "m0 (session_pair c) = Some c"
    and "is_due threshold sweep_start c"
  shows "sweep_inv m0 threshold m' (usID c # seen)"
proof -
  have "m' k = Some se \<longleftrightarrow> m0 k = Some se" if "usID se \<notin> set (usID c # seen)" for k se
  proof (cases "k = session_pair c")
    case True
    moreover from assms(2) obtain b where "m' (session_pair c) = Some b" "usID b = usID c" unfolding touched_def by blast
    ultimately have "m' k \<noteq> Some se" and "m0 k \<noteq> Some se" using that assms(3) by auto
    then show ?thesis by blast
  next
    case False
    with assms(2) have "m' k = m k" unfolding touched_def by blast
    moreover from that have "usID se \<notin> set seen" by simp
    ultimately show ?thesis using assms(1) unfolding sweep_inv_def by metis
  qed
  moreover have "usID c \<in> due_ids m0 threshold" using assms(3,4) by (auto simp: due_ids_def ran_def)
  ultimately show ?thesis using assms(1) by (simp add: sweep_inv_def)
qed

context expiry_repository begin

lemma sweep_page_inv:
  assumes X: "swPort X = R"
  shows "sweep_page X threshold dry page s = (s', e) \<Longrightarrow> invar (stStore s) \<Longrightarrow> sweep_inv m0 threshold (abss (stStore s)) (stSeen s) \<Longrightarrow>
    (\<forall>c \<in> set page. usID c \<notin> set (stSeen s) \<longrightarrow> m0 (session_pair c) = Some c \<and> is_due threshold sweep_start c) \<Longrightarrow>
    invar (stStore s') \<and> sweep_inv m0 threshold (abss (stStore s')) (stSeen s') \<and> set (stSeen s) \<subseteq> set (stSeen s') \<and>
    (e = None \<longrightarrow> usID ` set page \<subseteq> set (stSeen s')) \<and>
    (usID ` set page \<subseteq> set (stSeen s) \<longrightarrow> stStore s' = stStore s \<and> stSeen s' = stSeen s)"
proof (induction page arbitrary: s)
  case (Cons c page)
  from Cons.prems(1) show ?case
  proof (cases rule: sweep_page_cases)
    case gone
    with Cons.prems show ?thesis by auto
  next
    case seen
    from Cons.IH [OF seen(2)] Cons.prems seen(1) show ?thesis by auto
  next
    case (evaluated v st w)
    from Cons.prems(4) evaluated(1) have c: "m0 (session_pair c) = Some c" "is_due threshold sweep_start c" by auto
    with Cons.prems(3) evaluated(1) have m: "abss (stStore s) (session_pair c) = Some c" by (simp add: sweep_inv_def)
    have t: "invar st \<and> touched (session_pair c) (usID c) (abss (stStore s)) (abss st)"
    proof (cases dry)
      case True
      with evaluated(2) Cons.prems(2) m show ?thesis by (auto simp: touched_def)
    next
      case False
      with evaluated(2) obtain r where "sweep_refresh X threshold (srTotalEvaluated (stResult s)) c (stStore s, stWorld s) = (r, st, w)"
        by (auto split: prod.splits)
      with sweep_refresh_touches [OF Cons.prems(2) X m] show ?thesis by blast
    qed
    note inv = sweep_inv_step [OF Cons.prems(3) conjunct2 [OF t] c]
    from evaluated(3) show ?thesis
    proof (elim disjE exE conjE)
      fix a assume "v = Aborted a" "e = Some (SweepFailed a)"
        "s' = s\<lparr>stChecks := Suc (stChecks s), stSeen := usID c # stSeen s, stStore := st, stWorld := w\<rparr>"
      with t inv evaluated(1) show ?thesis by auto
    next
      assume a: "sweep_page X threshold dry page (s\<lparr>stChecks := Suc (stChecks s), stSeen := usID c # stSeen s,
          stStore := st, stWorld := w, stResult := count_verdict v (stResult s)\<rparr>) = (s', e)"
      from Cons.IH [OF a] t inv Cons.prems(4) evaluated(1) show ?thesis by auto
    qed
  qed
qed auto

end

lemma sorted_take_last:
  assumes s: "sorted_wrt (\<lambda>a b. f a < f b) ds" and n: "0 < n" "n \<le> length ds" and x: "x \<in> set ds" "x \<notin> set (take n ds)"
  shows "f (last (take n ds)) < f x"
proof -
  from x have "x \<in> set (drop n ds)" by (metis append_take_drop_id set_append UnE)
  moreover from s have "sorted_wrt (\<lambda>a b. f a < f b) (take n ds @ drop n ds)" by simp
  moreover from n have "last (take n ds) \<in> set (take n ds)" by (intro last_in_set) auto
  ultimately show ?thesis unfolding sorted_wrt_append by blast
qed

text \<open>Behind a full page the cursor stands on its last session: what the page leaves out is still due,
  and at least this one is not.\<close>

lemma full_page_cursor:
  assumes ds: "set ds = {se \<in> D. is_due threshold cursor se}" "sorted_wrt (\<lambda>a b. expiry_key a < expiry_key b) ds" "page = take n ds"
    and n: "0 < n" "n \<le> length ds" and c: "nextSweepCursor page cursor = Some cursor'"
  shows "se \<in> set ds \<Longrightarrow> se \<notin> set page \<Longrightarrow> is_due threshold cursor' se"
    and "{se \<in> D. is_due threshold cursor' se} \<subset> {se \<in> D. is_due threshold cursor se}"
proof -
  have ne: "page \<noteq> []" using ds(3) n by auto
  note cur = nextSweepCursor_last [OF c ne]
  show "is_due threshold cursor' se" if "se \<in> set ds" "se \<notin> set page" for se
  proof -
    have "expiry_key (last page) < expiry_key se" using sorted_take_last [OF ds(2) n] that unfolding ds(3) by blast
    moreover from that(1) ds(1) have "is_due threshold sweep_start se" using is_due_cursor by blast
    ultimately show ?thesis using cur by (subst is_due_cursor) simp
  qed
  have last: "last page \<in> set ds" using ne ds(3) by (metis last_in_set in_set_takeD)
  have "\<not> is_due threshold cursor' (last page)" using cur by (subst is_due_cursor) simp
  moreover have "is_due threshold cursor se" if "is_due threshold cursor' se" for se
  proof -
    have "cuID cursor \<noteq> uuid_nil \<Longrightarrow> (cuAccessTokenExpiresAt cursor, cuID cursor) < expiry_key (last page)"
      using last ds(1) is_due_cursor by blast
    with that cur show ?thesis by (metis is_due_cursor less_trans)
  qed
  ultimately show "{se \<in> D. is_due threshold cursor' se} \<subset> {se \<in> D. is_due threshold cursor se}"
    using last ds(1) by blast
qed

definition unseen_due :: "session_map \<Rightarrow> time \<Rightarrow> SessionExpiryCursor \<Rightarrow> session_id list \<Rightarrow> bool" where
  "unseen_due m0 threshold cursor seen \<longleftrightarrow>
     (\<forall>se \<in> ran m0. is_due threshold sweep_start se \<longrightarrow> usID se \<notin> set seen \<longrightarrow> is_due threshold cursor se)"

lemma unseen_listed:
  assumes "sweep_inv m0 threshold m seen" and "unseen_due m0 threshold cursor seen" and "se \<in> ran m0"
    and "is_due threshold sweep_start se" and "usID se \<notin> set seen"
  shows "se \<in> ran m \<and> is_due threshold cursor se"
proof -
  from assms(3) obtain k where "m0 k = Some se" by (auto simp only: ran_def)
  with assms(1,5) have "m k = Some se" unfolding sweep_inv_def by blast
  then have "se \<in> ran m" by (rule ranI)
  moreover from assms(2-5) have "is_due threshold cursor se" by (simp add: unseen_due_def)
  ultimately show ?thesis ..
qed

context expiry_repository begin

text \<open>One page: the invariants it keeps, what it leaves, and why the loop makes progress.\<close>

lemma sweep_turn:
  assumes X: "swPort X = R" "swExpiry X = list_expiring" and limit: "1 \<le> pageSize" "pageSize \<le> 1000"
    and inv: "invar (stStore s)" "sweep_inv m0 threshold (abss (stStore s)) (stSeen s)" "unseen_due m0 threshold cursor (stSeen s)"
    and l: "swExpiry X i threshold cursor pageSize (stStore s) = Inr page" and c: "nextSweepCursor page cursor = Some cursor'"
    and p: "sweep_page X threshold dry page (s\<lparr>stChecks := k\<rparr>) = (s', e)"
  shows "invar (stStore s')" and "sweep_inv m0 threshold (abss (stStore s')) (stSeen s')"
    and "e = None \<Longrightarrow> int (length page) < pageSize \<Longrightarrow> set (stSeen s') = due_ids m0 threshold"
    and "e = None \<Longrightarrow> \<not> int (length page) < pageSize \<Longrightarrow> unseen_due m0 threshold cursor' (stSeen s')"
    and "e = None \<Longrightarrow> \<not> int (length page) < pageSize \<Longrightarrow> due_ids m0 threshold - set (stSeen s') \<subset> due_ids m0 threshold - set (stSeen s) \<or>
      set (stSeen s') = set (stSeen s) \<and> stStore s' = stStore s \<and>
      {se \<in> ran (abss (stStore s)). is_due threshold cursor' se} \<subset> {se \<in> ran (abss (stStore s)). is_due threshold cursor se}"
proof -
  from page_ok [OF inv(1) limit l [unfolded X(2)]] obtain ds where ds: "set ds = {se \<in> ran (abss (stStore s)). is_due threshold cursor se}"
      "sorted_wrt (\<lambda>a b. expiry_key a < expiry_key b) ds" "page = take (nat pageSize) ds" by blast
  have old: "m0 (session_pair c) = Some c \<and> is_due threshold sweep_start c" if "c \<in> set page" "usID c \<notin> set (stSeen s)" for c
  proof -
    from that(1) ds(1,3) obtain k where k: "abss (stStore s) k = Some c" "is_due threshold cursor c" by (auto simp: ran_def dest!: in_set_takeD)
    with pair_of [OF inv(1) k(1)] that(2) inv(2) have "m0 (session_pair c) = Some c" unfolding sweep_inv_def by metis
    with k(2) is_due_cursor show ?thesis by blast
  qed
  note P = sweep_page_inv [OF X(1) p, of m0, simplified, OF inv(1,2)]
  from P old show st': "invar (stStore s')" "sweep_inv m0 threshold (abss (stStore s')) (stSeen s')" by blast+
  from P old have P': "set (stSeen s) \<subseteq> set (stSeen s')" "e = None \<Longrightarrow> usID ` set page \<subseteq> set (stSeen s')"
      "usID ` set page \<subseteq> set (stSeen s) \<Longrightarrow> stStore s' = stStore s \<and> stSeen s' = stSeen s" by blast+
  have due: "se \<in> set ds" if "se \<in> ran m0" "is_due threshold sweep_start se" "usID se \<notin> set (stSeen s')" for se
    using unseen_listed [OF inv(2,3) that(1,2)] that(3) P'(1) ds(1) by blast
  show "set (stSeen s') = due_ids m0 threshold" if "e = None" "int (length page) < pageSize"
  proof
    from that(2) ds(3) have "page = ds" by (simp add: nat_less_iff min_def split: if_splits)
    with due P'(2) [OF that(1)] show "due_ids m0 threshold \<subseteq> set (stSeen s')" unfolding due_ids_def by blast
    from st'(2) show "set (stSeen s') \<subseteq> due_ids m0 threshold" by (simp add: sweep_inv_def)
  qed
  assume none: "e = None" and full: "\<not> int (length page) < pageSize"
  have len: "0 < nat pageSize" "nat pageSize \<le> length ds" using full limit(1) ds(3) by (auto simp: min_def split: if_splits)
  note cur = full_page_cursor [OF ds len c]
  from cur(1) due P'(2) [OF none] show "unseen_due m0 threshold cursor' (stSeen s')" unfolding unseen_due_def by blast
  show "due_ids m0 threshold - set (stSeen s') \<subset> due_ids m0 threshold - set (stSeen s) \<or>
      set (stSeen s') = set (stSeen s) \<and> stStore s' = stStore s \<and>
      {se \<in> ran (abss (stStore s)). is_due threshold cursor' se} \<subset> {se \<in> ran (abss (stStore s)). is_due threshold cursor se}"
  proof (cases "usID ` set page \<subseteq> set (stSeen s)")
    case True
    with P'(3) cur(2) show ?thesis by (intro disjI2) simp
  next
    case False
    then obtain c where c: "c \<in> set page" "usID c \<notin> set (stSeen s)" by blast
    with old have "usID c \<in> due_ids m0 threshold" unfolding due_ids_def by (metis (mono_tags, lifting) imageI mem_Collect_eq ranI)
    with c P'(1) P'(2) [OF none] show ?thesis by blast
  qed
qed

text \<open>The loop returns: in every turn a due session is seen for the first time, or the cursor passes one.\<close>

lemma sweep_loop_returns:
  assumes X: "swPort X = R" "swExpiry X = list_expiring" and limit: "1 \<le> pageSize" "pageSize \<le> 1000" and D: "finite (due_ids m0 threshold)"
  shows "invar (stStore s) \<Longrightarrow> sweep_inv m0 threshold (abss (stStore s)) (stSeen s) \<Longrightarrow> unseen_due m0 threshold cursor (stSeen s) \<Longrightarrow>
    counts_ok s None \<Longrightarrow>
    \<exists>s' e. sweep_loop X threshold pageSize dry cursor s = Some (s', e) \<and> invar (stStore s') \<and>
      sweep_inv m0 threshold (abss (stStore s')) (stSeen s') \<and> counts_ok s' e \<and> (e = None \<longrightarrow> set (stSeen s') = due_ids m0 threshold)"
proof (induction "(cursor, s)" arbitrary: cursor s
    rule: wf_induct_rule [OF wf_inv_image [OF wf_lex_prod [OF wf_less_than wf_less_than],
      of "\<lambda>(cursor, s). (card (due_ids m0 threshold - set (stSeen s)), card {se \<in> ran (abss (stStore s)). is_due threshold cursor se})"]])
  case (1 cursor s)
  note inv = "1.prems"
  let ?k = "stChecks s" let ?s1 = "s\<lparr>stChecks := ?k + 4\<rparr>"
  have c1: "counts_ok ?s1 (Some x)" "counts_ok ?s1 None" for x using inv(4) by (auto simp: counts_ok_def)
  consider (gone) "swGone X ?k" | (failed) e where "\<not> swGone X ?k" "swExpiry X (swGone X (?k + 1)) threshold cursor pageSize (stStore s) = Inl e"
    | (invalid) page where "\<not> swGone X ?k" "swExpiry X (swGone X (?k + 1)) threshold cursor pageSize (stStore s) = Inr page" "nextSweepCursor page cursor = None"
    | (page) page cursor' s' e where "\<not> swGone X ?k" "swExpiry X (swGone X (?k + 1)) threshold cursor pageSize (stStore s) = Inr page"
        "nextSweepCursor page cursor = Some cursor'" "sweep_page X threshold dry page ?s1 = (s', e)"
    by (metis not_None_eq old.prod.exhaust sum.exhaust)
  then show ?case
  proof cases
    case page
    note t = sweep_turn [OF X limit inv(1-3) page(2-4)]
    note s = sweep_loop.simps [of X threshold pageSize dry cursor s, unfolded Let_def]
    have n: "counts_ok s' e" using sweep_page_counts [OF page(4) c1(2)] .
    consider (aborted) a where "e = Some a" | (short) "e = None" "int (length page) < pageSize" | (full) "e = None" "\<not> int (length page) < pageSize"
      by (cases e) auto
    then show ?thesis
    proof cases
      case aborted
      with page t(1,2) n show ?thesis by (subst s) simp
    next
      case short
      with page t(1-3) n show ?thesis by (subst s) (auto simp: counts_ok_def)
    next
      case full
      have "finite {se \<in> ran (abss (stStore s)). is_due threshold cursor se}"
        using finite_sessions [OF inv(1)] by (simp add: finite_ran)
      with t(5) [OF full] D have "((cursor', s'), (cursor, s)) \<in> inv_image (less_than <*lex*> less_than)
          (\<lambda>(cursor, s). (card (due_ids m0 threshold - set (stSeen s)), card {se \<in> ran (abss (stStore s)). is_due threshold cursor se}))"
        by (elim disjE conjE) (simp_all add: psubset_card_mono )
      from "1.hyps" [OF this t(1,2) t(4) [OF full]] n full page show ?thesis by (subst s) simp
    qed
  qed (use inv c1 in \<open>subst sweep_loop.simps, auto simp: Let_def\<close>)+
qed

end

section \<open>The sweep over the sessions in memory\<close>

lemma ran_session_abs:
  assumes inv: "session_invar st"
  shows "ran (session_abs st) = set (map snd (ssSessions st))"
proof -
  have wf: "wf_gomap (ssSessions st)" using inv by (simp add: session_invar_def)
  have "se \<in> ran (session_abs st) \<longleftrightarrow> (\<exists>i. map_of (ssSessions st) i = Some se)" for se
  proof
    assume "se \<in> ran (session_abs st)"
    then obtain p svc where "session_abs st (p, svc) = Some se" by (auto simp: ran_def)
    with session_abs_Some [OF inv] show "\<exists>i. map_of (ssSessions st) i = Some se" by blast
  next
    assume "\<exists>i. map_of (ssSessions st) i = Some se"
    then obtain i where "map_of (ssSessions st) i = Some se" ..
    from session_invar_sessions [OF inv this] have "session_abs st (session_pair se) = Some se"
      by (simp add: session_abs_def session_key_def)
    then show "se \<in> ran (session_abs st)" by (rule ranI)
  qed
  then show ?thesis using wf by force
qed

lemma finite_session_abs: "session_invar st \<Longrightarrow> finite (dom (session_abs st))"
proof -
  assume inv: "session_invar st"
  have "dom (session_abs st) \<subseteq> session_pair ` ran (session_abs st)"
    using session_abs_Some [OF inv] by (force simp: dom_def ran_def)
  then show ?thesis using ran_session_abs [OF inv] by (simp add: finite_subset)
qed

lemma sort_key_strict:
  assumes "inj_on f (set xs)" and "distinct xs"
  shows "sorted_wrt (\<lambda>a b. f a < f b) (sort_key f xs)"
proof -
  have "sorted (map f (sort_key f xs))" and "distinct (map f (sort_key f xs))"
    using assms by (simp_all add: distinct_map)
  then have "sorted_wrt (<) (map f (sort_key f xs))" by (simp add: strict_sorted_iff)
  then show ?thesis by (simp add: sorted_wrt_map)
qed

interpretation mem_expiry: expiry_repository "memory_session_port provider" session_abs session_invar ListExpiringSessions for provider
proof
  fix st p svc se assume "session_invar st" "session_abs st (p, svc) = Some se"
  then show "uuid_text svc" by (simp add: session_abs_def split: if_splits)
next
  fix st assume "session_invar st"
  then show "finite (dom (session_abs st))" by (rule finite_session_abs)
next
  fix st limit interrupted threshold cursor page
  assume inv: "session_invar st" and limit: "1 \<le> limit" "limit \<le> (1000::int)"
    and l: "ListExpiringSessions interrupted threshold cursor limit st = Inr page"
  from l have c: "\<not> interrupted" "cuID cursor = uuid_nil \<Longrightarrow> cuAccessTokenExpiresAt cursor = 0"
    by (auto simp: ListExpiringSessions_def Let_def time_is_zero_def split: if_splits)
  let ?ds = "sort_key expiry_key (due_sessions threshold cursor st)"
  have "page = take (nat limit) ?ds" using ListExpiringSessions_page [OF inv limit c(2)] l c(1) by simp
  moreover have "set ?ds = {se \<in> ran (session_abs st). is_due threshold cursor se}"
    unfolding ran_session_abs [OF inv] by (auto simp: due_sessions_def)
  moreover have "sorted_wrt (\<lambda>a b. expiry_key a < expiry_key b) ?ds"
    using session_ids_distinct [OF inv] by (intro sort_key_strict) (auto simp: due_sessions_def intro: inj_on_subset)
  ultimately show "\<exists>ds. set ds = {se \<in> ran (session_abs st). is_due threshold cursor se} \<and>
      sorted_wrt (\<lambda>a b. expiry_key a < expiry_key b) ds \<and> page = take (nat limit) ds" by blast
qed

lemma due_ids_memory: "session_invar st \<Longrightarrow> due_ids (session_abs st) threshold = usID ` set (due_sessions threshold sweep_start st)"
  by (simp add: due_ids_def ran_session_abs due_sessions_def image_def)

lemma due_ids_card: "session_invar st \<Longrightarrow> card (due_ids (session_abs st) threshold) = length (due_sessions threshold sweep_start st)"
proof -
  assume inv: "session_invar st"
  have wf: "wf_gomap (ssSessions st)" using inv by (simp add: session_invar_def)
  have eq: "map usID (map snd (ssSessions st)) = map fst (ssSessions st)"
    using session_invar_sessions(1) [OF inv] wf by (auto intro!: map_cong)
  have "distinct (map usID (map snd (ssSessions st)))" unfolding eq by (rule wf)
  then have "distinct (map usID (due_sessions threshold sweep_start st))"
    by (simp add: due_sessions_def distinct_map_filter)
  from distinct_card [OF this] show ?thesis by (simp add: due_ids_memory [OF inv])
qed

lemma sweep_memory:
  assumes inv: "session_invar st" and X: "swPort X = memory_session_port provider" "swExpiry X = ListExpiringSessions"
    and req: "req = effective_request X req0" "0 < sqLookahead req" "1 \<le> sqPageSize req" "sqPageSize req \<le> 1000"
  shows "\<exists>s e. Sweep X now req0 (st, w) = Some (s, e) \<and> session_invar (stStore s) \<and> counts_ok s e \<and>
    set (stSeen s) \<subseteq> due_ids (session_abs st) (now + sqLookahead req) \<and>
    (e = None \<longrightarrow> set (stSeen s) = due_ids (session_abs st) (now + sqLookahead req))"
proof -
  have "finite (due_ids (session_abs st) (now + sqLookahead req))" by (simp add: due_ids_memory [OF inv])
  from mem_expiry.sweep_loop_returns [OF X req(3,4) this, of "sweep_initial req (st, w)" sweep_start "sqDryRun req"] inv
  obtain s e where "sweep_loop X (now + sqLookahead req) (sqPageSize req) (sqDryRun req) sweep_start (sweep_initial req (st, w)) = Some (s, e)"
      "session_invar (stStore s)" "counts_ok s e" "sweep_inv (session_abs st) (now + sqLookahead req) (session_abs (stStore s)) (stSeen s)"
      "e = None \<longrightarrow> set (stSeen s) = due_ids (session_abs st) (now + sqLookahead req)"
    by (auto simp: sweep_initial_def sweep_inv_def unseen_due_def counts_ok_def counted_ok_def empty_result_def)
  then show ?thesis using req by (auto simp: Sweep_def Let_def sweep_inv_def)
qed

lemma sweep_page_dry: "sweep_page X threshold True page s = (s', e) \<Longrightarrow> stStore s' = stStore s \<and> stWorld s' = stWorld s"
proof (induction page arbitrary: s)
  case (Cons candidate page)
  from Cons.prems show ?case by (cases rule: sweep_page_cases) (auto dest!: Cons.IH)
qed simp

lemma sweep_page_dry_fst:
  "stStore (fst (sweep_page X threshold True page s)) = stStore s" "stWorld (fst (sweep_page X threshold True page s)) = stWorld s"
  using sweep_page_dry by (metis prod.collapse)+

lemma sweep_loop_dry:
  assumes "sweep_loop X threshold pageSize dry cursor s = Some r" and dry
  shows "stStore (fst r) = stStore s \<and> stWorld (fst r) = stWorld s"
proof -
  have "dry \<longrightarrow> stStore (fst r) = stStore s \<and> stWorld (fst r) = stWorld s"
  proof (rule sweep_loop.raw_induct [of "\<lambda>X threshold pageSize dry cursor s r. dry \<longrightarrow> stStore (fst r) = stStore s \<and> stWorld (fst r) = stWorld s",
        OF _ assms(1)], goal_cases)
    case (1 f X threshold pageSize dry cursor s r)
    from 1(2) show ?case
      by (auto simp: Let_def split_beta sweep_page_dry_fst split: if_splits sum.splits option.splits dest!: 1(1))
  qed
  with assms(2) show ?thesis by blast
qed

section \<open>Theorems\<close>

text \<open>
  C11. A sweep over the sessions in memory returns, whatever the provider answers and whenever contexts
  end, though its loop has no bound: a session whose renewed token is due again is listed again but not
  refreshed twice, and the cursor only moves forward. The store stays well formed.
\<close>

theorem Sweep_returns:
  assumes "session_invar st" and "swPort X = memory_session_port provider" and "swExpiry X = ListExpiringSessions"
  shows "\<exists>s e. Sweep X now req (st, w) = Some (s, e) \<and> session_invar (stStore s)"
proof (cases "0 < sqLookahead (effective_request X req) \<and> 1 \<le> sqPageSize (effective_request X req) \<and> sqPageSize (effective_request X req) \<le> 1000")
  case True
  with sweep_memory [OF assms refl] show ?thesis by blast
next
  case False
  with assms(1) show ?thesis by (auto simp: Sweep_def Let_def sweep_initial_def)
qed

text \<open>
  C38. Every evaluated session is classified exactly once: refreshed, skipped and failed add up to the
  total, which never exceeds the number of sessions that were due when the sweep began. When the sweep
  ends without an error the evaluated sessions are exactly the due ones.
\<close>

theorem Sweep_evaluates_due_once:
  assumes "session_invar st" and "swPort X = memory_session_port provider" and "swExpiry X = ListExpiringSessions"
    and r: "Sweep X now req (st, w) = Some (s, e)" and t: "threshold = now + sqLookahead (effective_request X req)"
  shows "srRefreshed (stResult s) + srSkipped (stResult s) + srFailed (stResult s) = srTotalEvaluated (stResult s) \<and>
    srTotalEvaluated (stResult s) \<le> length (due_sessions threshold sweep_start st) \<and>
    (e = None \<longrightarrow> srTotalEvaluated (stResult s) = length (due_sessions threshold sweep_start st) \<and>
       set (stSeen s) = usID ` set (due_sessions threshold sweep_start st))"
proof (cases "0 < sqLookahead (effective_request X req) \<and> 1 \<le> sqPageSize (effective_request X req) \<and> sqPageSize (effective_request X req) \<le> 1000")
  case True
  with sweep_memory [OF assms(1-3) refl, of req now w] r t have c: "counts_ok s e" "set (stSeen s) \<subseteq> due_ids (session_abs st) threshold"
      "e = None \<Longrightarrow> set (stSeen s) = due_ids (session_abs st) threshold" by auto
  note ids = due_ids_memory [OF assms(1)] due_ids_card [OF assms(1), of threshold]
  have "finite (due_ids (session_abs st) threshold)" by (simp add: ids(1))
  from card_mono [OF this c(2)] c(1) have "length (stSeen s) \<le> length (due_sessions threshold sweep_start st)"
    by (simp add: ids(2) counts_ok_def distinct_card)
  moreover have "length (stSeen s) = length (due_sessions threshold sweep_start st)" if "e = None"
    using c(1) c(3) [OF that] ids(2) by (metis counts_ok_def distinct_card)
  ultimately show ?thesis using c(1,3) ids(1) by (auto simp: counts_ok_def counted_ok_def split: if_splits)
next
  case False
  with r show ?thesis by (auto simp: Sweep_def Let_def sweep_initial_def empty_result_def split: if_splits)
qed

text \<open>A dry run changes neither a session nor the provider.\<close>

theorem dry_sweep_changes_nothing:
  assumes "Sweep X now req (st, w) = Some (s, e)" and "sqDryRun req"
  shows "stStore s = st \<and> stWorld s = w"
proof -
  have "sqDryRun (effective_request X req)" using assms(2) by (simp add: effective_request_def Let_def)
  with sweep_loop_dry [where r = "(s, e)"] assms(1) show ?thesis
    by (fastforce simp: Sweep_def Let_def sweep_initial_def split: if_splits)
qed

text \<open>The sweep of the witnesses: a renewed token of the demo provider is valid for a minute.\<close>

definition demo_sweep :: "(session_store, nat) sweep_service" where
  "demo_sweep = \<lparr>swPort = demo_port, swExpiry = ListExpiringSessions, swEnv = demo_env 200 [], swRefreshLookahead = 100, swDefaultPageSize = 1,
     swGone = (\<lambda>_. False), swClock = (\<lambda>_. demo_clock), swEnds = (\<lambda>_. (False, False))\<rparr>"

definition demo_request :: SweepRequest where
  "demo_request = \<lparr>sqLookahead = 0, sqDryRun = False, sqPageSize = 0\<rparr>"

theorem Sweep_returns_witness: "\<exists>s e. Sweep demo_sweep 0 demo_request (demo_store, 0) = Some (s, e) \<and> session_invar (stStore s)"
  by (rule Sweep_returns [OF demo_store_invar]) (simp_all add: demo_sweep_def)

theorem Sweep_evaluates_due_once_witness:
  "map_option (\<lambda>(s, e). (e, srRefreshed (stResult s), srTotalEvaluated (stResult s), stWorld s)) (Sweep demo_sweep 0 demo_request (demo_store, 0)) =
     Some (None, 2, length (due_sessions 100 sweep_start demo_store), 2)"
proof -
  have v: "map_option (\<lambda>(s, e). (e, srRefreshed (stResult s), stWorld s)) (Sweep demo_sweep 0 demo_request (demo_store, 0)) = Some (None, 2, 2)"
    by code_simp
  then obtain s where s: "Sweep demo_sweep 0 demo_request (demo_store, 0) = Some (s, None)" "srRefreshed (stResult s) = 2" "stWorld s = 2"
    by auto
  have t: "(100::time) = 0 + sqLookahead (effective_request demo_sweep demo_request)" by code_simp
  have "srTotalEvaluated (stResult s) = length (due_sessions 100 sweep_start demo_store)"
    using Sweep_evaluates_due_once [OF demo_store_invar _ _ s(1) t, of None] by (simp add: demo_sweep_def)
  with s show ?thesis by simp
qed

end
