(* ===== verification/Token_Exchange.thy ===== *)
theory Token_Exchange
  imports Request_Auth Consent_Laws Session_Refresh
begin

text \<open>
  The token exchange (\<^verbatim>\<open>internal/domain/tokenexchange/service.go\<close>): an agent's gateway presents the token of
  a user and its own assertion, and receives the user's token for a third-party service. The tokens are
  checked as in \<^verbatim>\<open>jwt_validator.go\<close>, the subject must be a human, the client must be authorized, the user
  must have granted the agent access to the service, and only then is the session read.

  The resolution of a resource, the agents and the permission sets are arguments of the service, as
  they are for the consent service; the session's tokens come from \<open>GetValidAccessToken\<close>. The context is
  asked at the start (\<open>etCanceled\<close>), while keys are fetched (\<open>etFetchCanceled\<close>), and when an error leaves
  (\<open>etEnded\<close>). Traces and the security context are left out. \<^verbatim>\<open>expires_in\<close> is the whole seconds left; the
  rounding of \<^verbatim>\<open>float64\<close> in \<^verbatim>\<open>Seconds\<close> is left out.
\<close>

section \<open>Effective scopes\<close>

text \<open>The loops fill Go maps; here the later entry of an association list comes first.\<close>

definition latest :: "('a \<times> 'b) list \<Rightarrow> 'a \<rightharpoonup> 'b" where
  "latest kvs = map_of (rev kvs)"

definition trim_slashes :: "string \<Rightarrow> string" where
  "trim_slashes s = rev (dropWhile ((=) (CHR ''/'')) (rev s))"

definition agentConsentURL :: "string \<Rightarrow> agent_id \<Rightarrow> string" where
  "agentConsentURL base agentID = trim_slashes base @ ''/agents/'' @ agentID"

definition grant_denied :: "string \<Rightarrow> string \<Rightarrow> FailureDetail \<Rightarrow> TokenExchangeError" where
  "grant_denied msg uri detail =
     WithDiagnostic (NewDiagnostic StageGrantAuthorization detail) (WithErrorURI uri (NewAccessDeniedError msg))"

text \<open>The union over the entries: the scopes of every service that the entry and its permission set name.
  The flags say whether an entry includes the requested service and whether a set defines it.\<close>

record scope_union =
  suScopes :: "(service_id, string list) gomap"
  suIncluded :: bool
  suDefined :: bool

definition add_scopes :: "service_id list \<Rightarrow> service_id \<Rightarrow> ServiceScope \<Rightarrow> scope_union \<Rightarrow> scope_union" where
  "add_scopes included requested ss u =
     (if scServiceID ss \<notin> set included then u
      else let old = (case map_of (suScopes u) (scServiceID ss) of None \<Rightarrow> [] | Some l \<Rightarrow> l)
           in u\<lparr>suScopes := AList.update (scServiceID ss) (fold List.insert (scScopes ss) old) (suScopes u),
                suDefined := (suDefined u \<or> scServiceID ss = requested)\<rparr>)"

fun union_scopes ::
  "(permission_set_id \<rightharpoonup> PermissionSet) \<Rightarrow> (permission_set_id \<rightharpoonup> service_id list) \<Rightarrow> service_id \<Rightarrow> GrantedPermissionSetEntry list \<Rightarrow>
    scope_union \<Rightarrow> scope_union option" where
  "union_scopes psIndex grantIndex requested [] u = Some u"
| "union_scopes psIndex grantIndex requested (entry # entries) u =
     (case psIndex (fst entry) of
        None \<Rightarrow> None
      | Some ps \<Rightarrow>
          let included = (case grantIndex (fst entry) of None \<Rightarrow> [] | Some l \<Rightarrow> l);
              u1 = (if requested \<in> set included then u\<lparr>suIncluded := True\<rparr> else u)
          in union_scopes psIndex grantIndex requested entries (fold (add_scopes included requested) (psServiceScopes ps) u1))"

definition capped_scopes :: "ServiceRequirement list \<Rightarrow> service_id \<Rightarrow> string list \<Rightarrow> FailureDetail + string list" where
  "capped_scopes reqs svc scopeSet =
     (let hasSR = (reqs \<noteq> []);
          ceiling = latest (map (\<lambda>sr. (srServiceID sr, srRequiredScopes sr)) (filter (\<lambda>sr. \<not> srRequireAllScopes sr) reqs)) svc;
          allScopes = (\<exists>sr \<in> set reqs. srRequireAllScopes sr \<and> srServiceID sr = svc)
      in if hasSR \<and> ceiling = None \<and> \<not> allScopes then Inl DetailGrantServiceRequirementExcluded
         else let scopes = (if \<not> hasSR \<or> allScopes then sort scopeSet
                            else sort (filter (\<lambda>scope. scope \<in> set (case ceiling of None \<Rightarrow> [] | Some l \<Rightarrow> l)) scopeSet))
              in if scopes = [] \<and> scopeSet \<noteq> [] then Inl DetailGrantScopeIntersectionEmpty else Inr scopes)"

text \<open>Of the map of effective scopes the exchange reads the entry of the requested service only; \<open>None\<close>
  says that it has none.\<close>

definition resolveEffectiveScopes ::
  "(permission_set_id list \<Rightarrow> error_cause list + PermissionSet list) \<Rightarrow> string \<Rightarrow> UserGrant \<Rightarrow> Agent \<Rightarrow> service_id \<Rightarrow>
    TokenExchangeError + (string list option \<times> FailureDetail)" where
  "resolveEffectiveScopes getByIDs base grant agent requested =
     (let declared = set (map apPermissionSetID (agPermissionSets agent));
          entries = ugGrantedPermissionSets grant;
          uri = agentConsentURL base (agID agent)
      in if \<exists>entry \<in> set entries. fst entry \<notin> declared
         then Inl (grant_denied ''grant references a permission set not declared by the agent; re-consent required'' uri DetailGrantPermissionSetUndeclared)
         else case getByIDs (map fst entries) of
             Inl c \<Rightarrow> Inl (WithDiagnostic (NewDiagnostic StageGrantAuthorization DetailGrantRepositoryUnavailable)
                        (NewServerErrorWithCause ''failed to resolve permission sets'' c))
           | Inr resolved \<Rightarrow>
               (case union_scopes (latest (map (\<lambda>ps. (psID ps, ps)) resolved)) (latest entries) requested entries
                       \<lparr>suScopes = [], suIncluded = False, suDefined = False\<rparr> of
                  None \<Rightarrow> Inl (grant_denied ''grant references a missing permission set; re-consent required'' uri DetailGrantPermissionSetMissing)
                | Some u \<Rightarrow>
                    let capped = map_option (capped_scopes (agServiceRequirements agent) requested) (map_of (suScopes u) requested);
                        scopes = (case capped of Some (Inr l) \<Rightarrow> Some l | _ \<Rightarrow> None);
                        detail = (case capped of Some (Inl d) \<Rightarrow> d | _ \<Rightarrow> DetailNone)
                    in Inr (scopes, if \<not> suIncluded u then DetailGrantServiceOmitted
                                    else if \<not> suDefined u then DetailGrantServiceDefinitionMissing else detail)))"

section \<open>Errors of the session\<close>

definition sessionDiagnostic :: "op_error \<Rightarrow> Diagnostic" where
  "sessionDiagnostic err =
     (case err of
        PlainError _ \<Rightarrow> NewDiagnostic StageSessionLookup DetailInternalUnclassified
      | OperationError m cs \<Rightarrow>
          NewDiagnostic
            (case emOperation m of OperationRefresh \<Rightarrow> StageRefresh | OperationScopeValidation \<Rightarrow> StageScopeValidation | _ \<Rightarrow> StageSessionLookup)
            (case emDetail m of
               SdSessionMissing \<Rightarrow> DetailSessionMissing
             | SdAccessTokenExpired \<Rightarrow> DetailAccessTokenExpired
             | SdRefreshUnavailable \<Rightarrow> DetailRefreshUnavailable
             | SdRefreshRejected \<Rightarrow> DetailRefreshRejected
             | SdProviderClientRejected \<Rightarrow> DetailProviderClientRejected
             | SdProviderRejected \<Rightarrow> DetailProviderRejected
             | SdProviderUnavailable \<Rightarrow> DetailProviderUnavailable
             | SdProviderResponseInvalid \<Rightarrow> DetailProviderResponseInvalid
             | SdRepositoryUnavailable \<Rightarrow> DetailSessionRepositoryUnavailable
             | SdDecryptionFailed \<Rightarrow> DetailSessionDecryptionFailed
             | SdEncryptionFailed \<Rightarrow> DetailSessionEncryptionFailed
             | SdPersistenceFailed \<Rightarrow> DetailSessionPersistenceFailed
             | SdConfiguration \<Rightarrow> DetailSessionConfiguration
             | SdCredentialSourceUnavailable \<Rightarrow>
                 if list_ex (\<lambda>c. c = CredentialSourceError ''identity_mismatch'' \<or> c = CredentialSourceError ''identity_missing'') cs
                 then DetailCredentialIdentityChanged else DetailCredentialSourceUnavailable
             | SdCallerCanceled \<Rightarrow> DetailCallerCanceled
             | SdInternalUnclassified \<Rightarrow> DetailInternalUnclassified))"

definition session_cause :: "op_error \<Rightarrow> error_cause list" where
  "session_cause err = (if ContextEnded \<in> set (causes err) then [CallerCanceled] else [error_cause.OtherCause ''session''])"

section \<open>The exchange\<close>

record TokenExchangeResponse =
  rpAccessToken :: string
  rpTokenType :: string
  rpIssuedTokenType :: string
  rpExpiresIn :: "int option"
  rpRefreshToken :: string
  rpScope :: string
  rpGrantedPermissionSets :: "(permission_set_id, service_id list) gomap"
  rpPrincipal :: principal
  rpAgentID :: string
  rpService :: "ServiceRef option"
  rpAuthorization :: "AuthorizationRef option"

definition NewTokenExchangeResponseFull :: "string \<Rightarrow> string \<Rightarrow> string \<Rightarrow> string \<Rightarrow> string \<Rightarrow> int option \<Rightarrow> TokenExchangeResponse" where
  "NewTokenExchangeResponseFull accessToken tokenType issuedTokenType refreshToken scope expiresIn =
     \<lparr>rpAccessToken = accessToken, rpTokenType = tokenType, rpIssuedTokenType = issuedTokenType, rpExpiresIn = expiresIn,
      rpRefreshToken = refreshToken, rpScope = scope, rpGrantedPermissionSets = [], rpPrincipal = [], rpAgentID = [],
      rpService = None, rpAuthorization = None\<rparr>"

definition Response_Validate :: "TokenExchangeResponse \<Rightarrow> string option" where
  "Response_Validate resp =
     (if rpAccessToken resp = [] then Some ''access_token is required''
      else if rpTokenType resp = [] then Some ''token_type is required''
      else if rpIssuedTokenType resp = [] then Some ''issued_token_type is required''
      else if (case rpExpiresIn resp of None \<Rightarrow> False | Some n \<Rightarrow> n < 0) then Some ''expires_in must be non-negative''
      else None)"

record ('ks, 'g, 's, 'w) exchange_service =
  xsLib :: "'ks jwt_lib"
  xsValidator :: "'ks JWTValidator"
  xsCEL :: CELEvaluator
  xsResourceOK :: "string \<Rightarrow> bool"
  xsNormalize :: "string \<Rightarrow> string"
  xsFindByProtectedResource :: "string \<Rightarrow> (TokenExchangeError + error_cause list) + service_id"
  xsParseAgentID :: "string \<Rightarrow> agent_id option"
  xsAgentGet :: "agent_id \<Rightarrow> (bool \<times> error_cause list) + Agent"
  xsGrants :: "'g grant_port"
  xsPermissionSets :: "permission_set_id list \<Rightarrow> error_cause list + PermissionSet list"
  xsSessions :: "('s, 'w \<times> flight_vars, op_error) session_port"
  xsEnv :: "'w refresh_env"
  xsBaseURL :: string

record 's exchange_timing =
  etCanceled :: bool
  etFetchCanceled :: bool
  etEnded :: bool
  etNow :: time
  etGrantNow :: time
  etBetween :: "'s \<Rightarrow> 's"
  etDeparture :: departure
  etGateEnded :: bool
  etWriteLate :: bool
  etLookup :: time
  etDue :: time
  etClock :: refresh_clock
  etAnswer :: time

definition authorizationRef :: "agent_id \<Rightarrow> UserGrant option \<Rightarrow> AuthorizationRef" where
  "authorizationRef agentID grant =
     (case grant of
        None \<Rightarrow> \<lparr>auAgentID = agentID, auGrantID = uuid_nil, auGrantUpdatedAt = 0, auGrantValidUntil = 0, auGrantHasValidUntil = False\<rparr>
      | Some g \<Rightarrow>
          \<lparr>auAgentID = agentID, auGrantID = ugID g, auGrantUpdatedAt = ugUpdatedAt g,
           auGrantValidUntil = (case ugValidUntil g of None \<Rightarrow> 0 | Some v \<Rightarrow> v), auGrantHasValidUntil = (ugValidUntil g \<noteq> None)\<rparr>)"

text \<open>What the deferred function sees of a failure.\<close>

record failure =
  faStage :: FailureStage
  faService :: "ServiceRef option"
  faAgentID :: agent_id
  faGrant :: "UserGrant option"
  faSessionError :: bool
  faError :: TokenExchangeError

definition early :: "FailureStage \<Rightarrow> TokenExchangeError \<Rightarrow> failure" where
  "early stage e = \<lparr>faStage = stage, faService = None, faAgentID = uuid_nil, faGrant = None, faSessionError = False, faError = e\<rparr>"

definition observe_failure :: "bool \<Rightarrow> failure \<Rightarrow> TokenExchangeError" where
  "observe_failure ended f =
     (let d = Diagnostic_of (faError f);
          d1 = (if dgDetail d = DetailInternalUnclassified then NewDiagnostic (faStage f) DetailInternalUnclassified else d);
          d2 = (if ended \<and> CallerCanceled \<in> set (teCause (faError f)) \<and> \<not> faSessionError f
                then NewDiagnostic (dgStage d1) DetailCallerCanceled else d1)
      in WithObservation d2 (faService f) (authorizationRef (faAgentID f) (faGrant f)) (faError f))"

text \<open>Steps 1 to 6: the request, its tokens, the human subject and the client's authorization.\<close>

definition exchange_subject ::
  "('ks, 'g, 's, 'w) exchange_service \<Rightarrow> 's exchange_timing \<Rightarrow> TokenExchangeRequest \<Rightarrow> failure + (principal \<times> string)" where
  "exchange_subject S t req =
     (if etCanceled t
      then Inl (early StageRequestValidation (WithDiagnostic (NewDiagnostic StageRequestValidation DetailCallerCanceled)
             (NewServerErrorWithCause ''token exchange canceled'' [CallerCanceled])))
      else case TokenExchangeRequest_Validate (xsResourceOK S) req of
          Some e \<Rightarrow> Inl (early StageRequestValidation e)
        | None \<Rightarrow>
            (case ValidateSubjectToken (xsLib S) (etNow t) (etFetchCanceled t) (xsValidator S) (trSubjectToken req) of
               Inl e \<Rightarrow> Inl (early StageSubjectValidation e)
             | Inr subject \<Rightarrow>
                 (case ValidateClientAssertion (xsLib S) (etNow t) (etFetchCanceled t) (xsValidator S) (trClientAssertion req) of
                    Inl e \<Rightarrow> Inl (early StageClientValidation e)
                  | Inr client \<Rightarrow>
                      (case ResolveHumanSubject (xsCEL S) (FromToken subject) of
                         (p, agentID, Some e) \<Rightarrow> Inl (early StageIdentityResolution e)
                       | (p, agentID, None) \<Rightarrow>
                           (case AuthorizePrivilegedClient (xsCEL S) (FromToken client) (FromToken subject)
                                  \<lparr>cxResource = trResource req, cxGrantType = trGrantType req, cxScope = TokenExchangeRequest.trScope req,
                                   cxPrincipal = p, cxAgentID = agentID\<rparr> of
                              Inl e \<Rightarrow> Inl (early StageClientAuthorization e)
                            | Inr False \<Rightarrow> Inl (early StageClientAuthorization
                                (WithDiagnostic (NewDiagnostic StageClientAuthorization DetailClientPolicyDenied)
                                  (NewAccessDeniedError ''privileged client authorization failed'')))
                            | Inr True \<Rightarrow> Inr (p, agentID))))))"

text \<open>Steps 7 to 9: the service of the resource, the agent, the user's grant and the scopes it covers.\<close>

definition access_failure :: "string \<Rightarrow> access_error \<Rightarrow> TokenExchangeError" where
  "access_failure uri e =
     (case e of
        ErrAgentAccessDenied \<Rightarrow>
          WithDiagnostic (NewDiagnostic StageGrantAuthorization DetailGrantMissing) (WithErrorURI uri (WithCause [error_cause.OtherCause ''grant'']
            (NewAccessDeniedError ''user has not granted permission for this agent to access the requested service'')))
      | ErrGrantExpired \<Rightarrow>
          WithDiagnostic (NewDiagnostic StageGrantAuthorization DetailGrantExpired) (WithErrorURI uri (WithCause [error_cause.OtherCause ''grant'']
            (NewAccessDeniedError ''user grant has expired'')))
      | AccessFailure \<Rightarrow>
          WithDiagnostic (NewDiagnostic StageGrantAuthorization DetailGrantRepositoryUnavailable)
            (NewServerErrorWithCause ''failed to verify user grant'' [error_cause.OtherCause ''grant'']))"

definition exchange_grant ::
  "('ks, 'g, 's, 'w) exchange_service \<Rightarrow> 's exchange_timing \<Rightarrow> 'g \<Rightarrow> string \<Rightarrow> principal \<Rightarrow> string \<Rightarrow>
    failure + (service_id \<times> Agent \<times> UserGrant \<times> string list)" where
  "exchange_grant S t g resource p agentID =
     (case xsFindByProtectedResource S (xsNormalize S resource) of
        Inl (Inl e) \<Rightarrow> Inl (early StageResourceResolution e)
      | Inl (Inr c) \<Rightarrow> Inl (early StageResourceResolution
          (WithDiagnostic (NewDiagnostic StageResourceResolution DetailResourceRepositoryUnavailable)
            (NewServerErrorWithCause ''failed to lookup service by resource URI'' c)))
      | Inr service \<Rightarrow>
          let f1 = (\<lambda>e. (early StageIdentityResolution e)\<lparr>faService := Some \<lparr>sfID = service\<rparr>\<rparr>)
          in case xsParseAgentID S agentID of
              None \<Rightarrow> Inl (f1 (WithDiagnostic (NewDiagnostic StageIdentityResolution DetailAgentInvalid)
                (NewServerErrorWithCause ''agent identity configuration is invalid'' [error_cause.OtherCause ''uuid''])))
            | Some parsed \<Rightarrow>
                (case xsAgentGet S parsed of
                   Inl (missing, c) \<Rightarrow>
                     Inl (f1 (if missing
                       then WithDiagnostic (NewDiagnostic StageIdentityResolution DetailAgentMissing) (NewServerErrorWithCause ''agent is not configured'' c)
                       else WithDiagnostic (NewDiagnostic StageIdentityResolution DetailAgentRepositoryUnavailable) (NewServerErrorWithCause ''failed to lookup agent'' c)))
                 | Inr agent \<Rightarrow>
                     let uri = agentConsentURL (xsBaseURL S) (agID agent);
                         f2 = (\<lambda>gr e. (f1 e)\<lparr>faStage := StageGrantAuthorization, faAgentID := agID agent, faGrant := gr\<rparr>)
                     in case VerifyAgentAccess (xsGrants S) (etGrantNow t) g p (agID agent) of
                         Inl e \<Rightarrow> Inl (f2 None (access_failure uri e))
                       | Inr grant \<Rightarrow>
                           if ugGrantedPermissionSets grant = []
                           then Inl (f2 (Some grant) (grant_denied ''grant has no permission set entries; re-consent required'' uri DetailGrantEmpty))
                           else case resolveEffectiveScopes (xsPermissionSets S) (xsBaseURL S) grant agent service of
                               Inl e \<Rightarrow> Inl (f2 (Some grant) e)
                             | Inr (scopes, detail) \<Rightarrow>
                                 if detail \<noteq> DetailNone
                                 then Inl (f2 (Some grant) (grant_denied ''service is not authorized by the grant; re-consent required'' uri detail))
                                 else Inr (service, agent, grant, case scopes of None \<Rightarrow> [] | Some l \<Rightarrow> l)))"

text \<open>\<^verbatim>\<open>url.QueryEscape\<close> on bytes.\<close>

definition escape_byte :: "char \<Rightarrow> string" where
  "escape_byte c =
     (let n = of_char c :: nat; hex = ''0123456789ABCDEF''
      in if (48 \<le> n \<and> n \<le> 57) \<or> (65 \<le> n \<and> n \<le> 90) \<or> (97 \<le> n \<and> n \<le> 122) \<or> c \<in> set ''-_.~'' then [c]
         else if n = 32 then ''+'' else [CHR ''%'', hex ! (n div 16), hex ! (n mod 16)])"

definition QueryEscape :: "string \<Rightarrow> string" where
  "QueryEscape s = concat (map escape_byte s)"

definition ServiceAuthorizeURL :: "string \<Rightarrow> service_id \<Rightarrow> string" where
  "ServiceAuthorizeURL callbackBaseURL service =
     (let base = trim_slashes callbackBaseURL
      in base @ ''/api/third-party/'' @ service @ ''/oauth2/authorize?redirect_uri='' @ QueryEscape (base @ ''/sessions''))"

text \<open>Steps 10 and 11: the session's token, and that the session covers the granted scopes.\<close>

definition exchange_session ::
  "('ks, 'g, 's, 'w) exchange_service \<Rightarrow> 's exchange_timing \<Rightarrow> principal \<Rightarrow> service_id \<Rightarrow> string list \<Rightarrow> (bool \<Rightarrow> FailureStage \<Rightarrow> TokenExchangeError \<Rightarrow> failure) \<Rightarrow>
    's \<times> 'w \<Rightarrow> (failure + UserSession \<times> string) \<times> 's \<times> 'w" where
  "exchange_session S t p service serviceScopes fail sw =
     (case GetValidAccessToken (xsSessions S) (xsEnv S) (etBetween t) (etDeparture t) (etGateEnded t) (etWriteLate t) (etLookup t) (etDue t)
             (etClock t) p service sw of
        (Inl err, sw') \<Rightarrow>
          let d = sessionDiagnostic err; op = (case err of OperationError _ _ \<Rightarrow> True | PlainError _ \<Rightarrow> False)
          in (Inl (fail op StageSessionLookup
                (if dgOutcome d = OutcomeReauthRequired
                 then WithDiagnostic d (WithErrorURI (ServiceAuthorizeURL (xsBaseURL S) service) (WithCause (session_cause err)
                        (NewInvalidGrantError ''provider session is missing or unusable; re-authentication required'')))
                 else WithDiagnostic d (NewServerErrorWithCause ''failed to get valid access token'' (session_cause err)))), sw')
      | (Inr (session, accessToken), sw') \<Rightarrow>
          (if filter (\<lambda>scope. scope \<notin> set (usScope session)) serviceScopes \<noteq> []
           then Inl (fail False StageScopeValidation (WithDiagnostic (NewDiagnostic StageScopeValidation DetailSessionScopeInsufficient)
                  (WithErrorURI (ServiceAuthorizeURL (xsBaseURL S) service)
                    (NewInvalidGrantError ''provider session does not cover required scopes; re-authentication required''))))
           else Inr (session, accessToken), sw'))"

definition exchange_response :: "time \<Rightarrow> principal \<Rightarrow> service_id \<Rightarrow> Agent \<Rightarrow> UserGrant \<Rightarrow> UserSession \<Rightarrow> string \<Rightarrow> TokenExchangeResponse" where
  "exchange_response now p service agent grant session accessToken =
     (let expiresIn = (case usAccessTokenExpiresAt session of None \<Rightarrow> None | Some e \<Rightarrow> Some (max 0 (time_sub e now div 1000000000)))
      in (NewTokenExchangeResponseFull accessToken (usTokenType session) AccessTokenType [] (Join (usScope session) '' '') expiresIn)
           \<lparr>rpGrantedPermissionSets := fold (\<lambda>(k, v). AList.update k v) (ugGrantedPermissionSets grant) [],
            rpPrincipal := p, rpAgentID := agID agent, rpService := Some \<lparr>sfID = service\<rparr>,
            rpAuthorization := Some (authorizationRef (agID agent) (Some grant))\<rparr>)"

definition Exchange ::
  "('ks, 'g, 's, 'w) exchange_service \<Rightarrow> 's exchange_timing \<Rightarrow> TokenExchangeRequest \<Rightarrow> 'g \<Rightarrow> 's \<times> 'w \<Rightarrow>
    (TokenExchangeError + TokenExchangeResponse) \<times> 's \<times> 'w" where
  "Exchange S t req g sw =
     (case exchange_subject S t req of
        Inl f \<Rightarrow> (Inl (observe_failure (etEnded t) f), sw)
      | Inr (p, agentID) \<Rightarrow>
          (case exchange_grant S t g (trResource req) p agentID of
             Inl f \<Rightarrow> (Inl (observe_failure (etEnded t) f), sw)
           | Inr (service, agent, grant, serviceScopes) \<Rightarrow>
               (case exchange_session S t p service serviceScopes
                       (\<lambda>op stage e. \<lparr>faStage = stage, faService = Some \<lparr>sfID = service\<rparr>, faAgentID = agID agent, faGrant = Some grant,
                                    faSessionError = op, faError = e\<rparr>) sw of
                  (Inl f, sw') \<Rightarrow> (Inl (observe_failure (etEnded t) f), sw')
                | (Inr (session, accessToken), sw') \<Rightarrow>
                    (Inr (exchange_response (etAnswer t) p service agent grant session accessToken), sw'))))"

section \<open>What the effective scopes are\<close>

definition list_of :: "'a list option \<Rightarrow> 'a list" where
  "list_of l = (case l of None \<Rightarrow> [] | Some xs \<Rightarrow> xs)"

lemma list_of_simps [simp]: "list_of None = []" "list_of (Some xs) = xs"
  by (simp_all add: list_of_def)

lemma set_fold_insert: "set (fold List.insert xs ys) = set xs \<union> set ys" "distinct ys \<Longrightarrow> distinct (fold List.insert xs ys)"
  by (induction xs arbitrary: ys) auto

text \<open>The scopes that the services of one permission set contribute, given the included services.\<close>

definition set_scopes :: "service_id list \<Rightarrow> PermissionSet \<Rightarrow> service_id \<Rightarrow> string set" where
  "set_scopes included ps svc = {scope. svc \<in> set included \<and> (\<exists>ss \<in> set (psServiceScopes ps). scServiceID ss = svc \<and> scope \<in> set (scScopes ss))}"

definition set_defines :: "service_id list \<Rightarrow> PermissionSet \<Rightarrow> service_id \<Rightarrow> bool" where
  "set_defines included ps svc \<longleftrightarrow> svc \<in> set included \<and> (\<exists>ss \<in> set (psServiceScopes ps). scServiceID ss = svc)"

definition union_ok :: "scope_union \<Rightarrow> bool" where
  "union_ok u \<longleftrightarrow> (\<forall>svc l. map_of (suScopes u) svc = Some l \<longrightarrow> distinct l)"

lemma union_ok_scopes: "suScopes u' = suScopes u \<Longrightarrow> union_ok u' = union_ok u"
  by (simp only: union_ok_def)

text \<open>How a union grows: by the scopes \<open>more_scopes\<close> of the services \<open>more_services\<close>.\<close>

definition grows :: "service_id \<Rightarrow> scope_union \<Rightarrow> (service_id \<Rightarrow> string set) \<Rightarrow> (service_id \<Rightarrow> bool) \<Rightarrow> bool \<Rightarrow> scope_union \<Rightarrow> bool" where
  "grows requested u more_scopes more_services includes u' \<longleftrightarrow> union_ok u' \<and>
     (\<forall>svc. set (list_of (map_of (suScopes u') svc)) = set (list_of (map_of (suScopes u) svc)) \<union> more_scopes svc) \<and>
     (\<forall>svc. map_of (suScopes u') svc \<noteq> None \<longleftrightarrow> map_of (suScopes u) svc \<noteq> None \<or> more_services svc) \<and>
     (suDefined u' \<longleftrightarrow> suDefined u \<or> more_services requested) \<and> (suIncluded u' \<longleftrightarrow> suIncluded u \<or> includes)"

lemma grows_trans:
  assumes "grows requested u f1 g1 h1 u1" and "grows requested u1 f2 g2 h2 u2"
  shows "grows requested u (\<lambda>svc. f1 svc \<union> f2 svc) (\<lambda>svc. g1 svc \<or> g2 svc) (h1 \<or> h2) u2"
  using assms unfolding grows_def by (simp add: Un_assoc)

lemma grows_cong:
  assumes "grows requested u f g h u'" and "\<And>svc. f svc = f' svc" and "\<And>svc. g svc = g' svc" and "h = h'"
  shows "grows requested u f' g' h' u'"
  using assms by (simp add: grows_def)

lemma add_scopes_grows:
  assumes "union_ok u"
  shows "grows requested u (\<lambda>svc. {scope. svc \<in> set included \<and> scServiceID ss = svc \<and> scope \<in> set (scScopes ss)})
    (\<lambda>svc. svc \<in> set included \<and> scServiceID ss = svc) False (add_scopes included requested ss u)"
proof (cases "scServiceID ss \<in> set included")
  case False
  with assms show ?thesis by (auto simp: grows_def add_scopes_def)
next
  case True
  define old where "old = list_of (map_of (suScopes u) (scServiceID ss))"
  have d: "distinct old"
  proof (cases "map_of (suScopes u) (scServiceID ss)")
    case (Some l)
    with assms have "distinct l" unfolding union_ok_def by blast
    with Some show ?thesis by (simp add: old_def)
  qed (simp add: old_def)
  have eq: "add_scopes included requested ss u =
      u\<lparr>suScopes := AList.update (scServiceID ss) (fold List.insert (scScopes ss) old) (suScopes u), suDefined := (suDefined u \<or> scServiceID ss = requested)\<rparr>"
    using True by (simp add: add_scopes_def old_def list_of_def)
  have ok: "union_ok (add_scopes included requested ss u)"
    unfolding union_ok_def
  proof (intro allI impI)
    fix svc l assume "map_of (suScopes (add_scopes included requested ss u)) svc = Some l"
    then have "svc = scServiceID ss \<and> l = fold List.insert (scScopes ss) old \<or> map_of (suScopes u) svc = Some l"
      unfolding eq by (simp add: update_conv' split: if_splits)
    with assms d show "distinct l" unfolding union_ok_def by (metis set_fold_insert(2))
  qed
  have "set (list_of (map_of (suScopes (add_scopes included requested ss u)) svc)) =
      set (list_of (map_of (suScopes u) svc)) \<union> {scope. svc \<in> set included \<and> scServiceID ss = svc \<and> scope \<in> set (scScopes ss)}" for svc
    using True by (cases "svc = scServiceID ss") (auto simp: eq update_conv' set_fold_insert old_def)
  moreover have "map_of (suScopes (add_scopes included requested ss u)) svc \<noteq> None \<longleftrightarrow>
      map_of (suScopes u) svc \<noteq> None \<or> svc \<in> set included \<and> scServiceID ss = svc" for svc
    using True by (cases "svc = scServiceID ss") (simp_all add: eq update_conv')
  moreover have "suDefined (add_scopes included requested ss u) \<longleftrightarrow> suDefined u \<or> requested \<in> set included \<and> scServiceID ss = requested"
      "suIncluded (add_scopes included requested ss u) = suIncluded u" using True by (auto simp: eq)
  ultimately show ?thesis using ok by (simp add: grows_def)
qed

lemma add_scopes_fold:
  assumes "union_ok u"
  shows "grows requested u (\<lambda>svc. {scope. svc \<in> set included \<and> (\<exists>ss \<in> set sss. scServiceID ss = svc \<and> scope \<in> set (scScopes ss))})
    (\<lambda>svc. svc \<in> set included \<and> (\<exists>ss \<in> set sss. scServiceID ss = svc)) False (fold (add_scopes included requested) sss u)"
  using assms
proof (induction sss arbitrary: u)
  case Nil
  then show ?case by (simp add: grows_def)
next
  case (Cons ss sss)
  note g = add_scopes_grows [OF Cons.prems, of requested included ss]
  then have "union_ok (add_scopes included requested ss u)" by (simp add: grows_def)
  from grows_trans [OF g Cons.IH [OF this]] show ?case unfolding fold_simps comp_def by (rule grows_cong) auto
qed

lemma union_scopes_spec:
  assumes "union_scopes psI gI requested entries u = Some u'" and "union_ok u"
  shows "grows requested u (\<lambda>svc. {scope. \<exists>e \<in> set entries. \<exists>ps. psI (fst e) = Some ps \<and> scope \<in> set_scopes (list_of (gI (fst e))) ps svc})
      (\<lambda>svc. \<exists>e \<in> set entries. \<exists>ps. psI (fst e) = Some ps \<and> set_defines (list_of (gI (fst e))) ps svc)
      (\<exists>e \<in> set entries. requested \<in> set (list_of (gI (fst e)))) u' \<and> (\<forall>e \<in> set entries. psI (fst e) \<noteq> None)"
  using assms
proof (induction entries arbitrary: u)
  case Nil
  then show ?case by (simp add: grows_def)
next
  case (Cons e entries)
  from Cons.prems(1) obtain ps where ps: "psI (fst e) = Some ps" by (auto split: option.splits)
  define inc where "inc = list_of (gI (fst e))"
  define u1 where "u1 = (if requested \<in> set inc then u\<lparr>suIncluded := True\<rparr> else u)"
  have u1: "grows requested u (\<lambda>_. {}) (\<lambda>_. False) (requested \<in> set inc) u1"
    using Cons.prems(2) union_ok_scopes [of u1 u] by (simp add: u1_def grows_def)
  then have "union_ok u1" by (simp add: grows_def)
  note u2 = grows_trans [OF u1 add_scopes_fold [OF this, of requested inc "psServiceScopes ps"]]
  let ?u2 = "fold (add_scopes inc requested) (psServiceScopes ps) u1"
  from Cons.prems(1) ps have r: "union_scopes psI gI requested entries ?u2 = Some u'"
    by (simp add: Let_def u1_def inc_def list_of_def)
  moreover from u2 have "union_ok ?u2" by (simp add: grows_def)
  ultimately have IH: "grows requested ?u2 (\<lambda>svc. {scope. \<exists>e \<in> set entries. \<exists>ps. psI (fst e) = Some ps \<and> scope \<in> set_scopes (list_of (gI (fst e))) ps svc})
      (\<lambda>svc. \<exists>e \<in> set entries. \<exists>ps. psI (fst e) = Some ps \<and> set_defines (list_of (gI (fst e))) ps svc)
      (\<exists>e \<in> set entries. requested \<in> set (list_of (gI (fst e)))) u'" "\<forall>e \<in> set entries. psI (fst e) \<noteq> None"
    using Cons.IH by blast+
  show ?case
  proof
    from grows_trans [OF u2 IH(1)] show "grows requested u
        (\<lambda>svc. {scope. \<exists>e \<in> set (e # entries). \<exists>ps. psI (fst e) = Some ps \<and> scope \<in> set_scopes (list_of (gI (fst e))) ps svc})
        (\<lambda>svc. \<exists>e \<in> set (e # entries). \<exists>ps. psI (fst e) = Some ps \<and> set_defines (list_of (gI (fst e))) ps svc)
        (\<exists>e \<in> set (e # entries). requested \<in> set (list_of (gI (fst e)))) u'"
    proof (rule grows_cong)
      show "({} \<union> {scope. svc \<in> set inc \<and> (\<exists>ss \<in> set (psServiceScopes ps). scServiceID ss = svc \<and> scope \<in> set (scScopes ss))}) \<union>
          {scope. \<exists>e \<in> set entries. \<exists>ps. psI (fst e) = Some ps \<and> scope \<in> set_scopes (list_of (gI (fst e))) ps svc} =
        {scope. \<exists>e \<in> set (e # entries). \<exists>ps. psI (fst e) = Some ps \<and> scope \<in> set_scopes (list_of (gI (fst e))) ps svc}" for svc
        unfolding set_scopes_def [of inc, symmetric] using ps by (auto simp: inc_def)
      show "(False \<or> svc \<in> set inc \<and> (\<exists>ss \<in> set (psServiceScopes ps). scServiceID ss = svc)) \<or>
          (\<exists>e \<in> set entries. \<exists>ps. psI (fst e) = Some ps \<and> set_defines (list_of (gI (fst e))) ps svc) \<longleftrightarrow>
        (\<exists>e \<in> set (e # entries). \<exists>ps. psI (fst e) = Some ps \<and> set_defines (list_of (gI (fst e))) ps svc)" for svc
        unfolding set_defines_def [of inc, symmetric] using ps by (auto simp: inc_def)
    qed (auto simp: inc_def)
    show "\<forall>e \<in> set (e # entries). psI (fst e) \<noteq> None" using ps IH(2) by simp
  qed
qed

text \<open>What the agent's service requirements let through.\<close>

definition ceiling_of :: "ServiceRequirement list \<Rightarrow> service_id \<Rightarrow> string list option" where
  "ceiling_of reqs svc = latest (map (\<lambda>sr. (srServiceID sr, srRequiredScopes sr)) (filter (\<lambda>sr. \<not> srRequireAllScopes sr) reqs)) svc"

definition within_requirements :: "ServiceRequirement list \<Rightarrow> service_id \<Rightarrow> string \<Rightarrow> bool" where
  "within_requirements reqs svc scope \<longleftrightarrow>
     reqs = [] \<or> (\<exists>sr \<in> set reqs. srRequireAllScopes sr \<and> srServiceID sr = svc) \<or> scope \<in> set (list_of (ceiling_of reqs svc))"

lemma capped_scopes_Inr:
  assumes "capped_scopes reqs svc scopeSet = Inr l" and "distinct scopeSet"
  shows "set l = {scope \<in> set scopeSet. within_requirements reqs svc scope} \<and> sorted l \<and> distinct l \<and> (l = [] \<longrightarrow> scopeSet = [])"
  using assms
  by (auto simp: capped_scopes_def within_requirements_def ceiling_of_def list_of_def Let_def split: if_splits option.splits)

text \<open>The scopes of a service that the entries of a grant name in their permission sets.\<close>

definition granted_scopes :: "PermissionSet list \<Rightarrow> GrantedPermissionSetEntry list \<Rightarrow> service_id \<Rightarrow> string set" where
  "granted_scopes resolved entries svc =
     {scope. \<exists>e \<in> set entries. \<exists>ps. latest (map (\<lambda>ps. (psID ps, ps)) resolved) (fst e) = Some ps \<and>
        scope \<in> set_scopes (list_of (latest entries (fst e))) ps svc}"

lemma latest_in: "latest kvs k = Some v \<Longrightarrow> (k, v) \<in> set kvs"
  by (auto simp: latest_def dest!: map_of_SomeD)

lemma resolve_ok:
  assumes "resolveEffectiveScopes getByIDs base grant agent svc = Inr (scopes, DetailNone)"
  shows "\<exists>resolved l. getByIDs (map fst (ugGrantedPermissionSets grant)) = Inr resolved \<and> scopes = Some l \<and> sorted l \<and> distinct l \<and>
    set l = {scope \<in> granted_scopes resolved (ugGrantedPermissionSets grant) svc. within_requirements (agServiceRequirements agent) svc scope} \<and>
    (l = [] \<longrightarrow> granted_scopes resolved (ugGrantedPermissionSets grant) svc = {}) \<and>
    (\<exists>ps included. (ps, included) \<in> set (ugGrantedPermissionSets grant) \<and> svc \<in> set included) \<and>
    fst ` set (ugGrantedPermissionSets grant) \<subseteq> apPermissionSetID ` set (agPermissionSets agent) \<inter> psID ` set resolved"
proof -
  let ?entries = "ugGrantedPermissionSets grant"
  let ?u0 = "\<lparr>suScopes = [], suIncluded = False, suDefined = False\<rparr>"
  from assms obtain resolved where r: "getByIDs (map fst ?entries) = Inr resolved"
      and decl: "\<forall>e \<in> set ?entries. fst e \<in> apPermissionSetID ` set (agPermissionSets agent)"
    by (auto simp: resolveEffectiveScopes_def Let_def split: if_splits sum.splits)
  let ?psI = "latest (map (\<lambda>ps. (psID ps, ps)) resolved)"
  from assms r obtain u where u: "union_scopes ?psI (latest ?entries) svc ?entries ?u0 = Some u"
    by (auto simp: resolveEffectiveScopes_def Let_def split: if_splits option.splits)
  have "union_ok ?u0" by (simp add: union_ok_def)
  from union_scopes_spec [OF u this] have s: "union_ok u" "\<forall>e \<in> set ?entries. ?psI (fst e) \<noteq> None"
      "\<And>svc. set (list_of (map_of (suScopes u) svc)) = granted_scopes resolved ?entries svc"
      "suDefined u \<Longrightarrow> map_of (suScopes u) svc \<noteq> None"
      "suIncluded u \<longleftrightarrow> (\<exists>e \<in> set ?entries. svc \<in> set (list_of (latest ?entries (fst e))))"
    by (simp_all add: grows_def granted_scopes_def)
  from assms r u have inc: "suIncluded u" "suDefined u" by (auto simp: resolveEffectiveScopes_def Let_def split: if_splits)
  have "map_of (suScopes u) svc \<noteq> None" using s(4) inc(2) .
  then obtain scopeSet where m: "map_of (suScopes u) svc = Some scopeSet" by blast
  have cap: "capped_scopes (agServiceRequirements agent) svc scopeSet \<noteq> Inl DetailNone"
    by (auto simp: capped_scopes_def Let_def split: if_splits)
  with assms r u m inc obtain l where l: "capped_scopes (agServiceRequirements agent) svc scopeSet = Inr l" "scopes = Some l"
    by (auto simp: resolveEffectiveScopes_def Let_def split: if_splits sum.splits)
  have g: "set scopeSet = granted_scopes resolved ?entries svc"
    using s(3) [of svc] m by simp
  from s(1) m have d: "distinct scopeSet" unfolding union_ok_def by blast
  from s(5) inc(1) obtain e :: GrantedPermissionSetEntry where e: "svc \<in> set (list_of (latest ?entries (fst e)))" by blast
  then obtain included where i: "latest ?entries (fst e) = Some included" "svc \<in> set included"
    by (cases "latest ?entries (fst e)") simp_all
  with latest_in [OF i(1)] have cover: "\<exists>ps included. (ps, included) \<in> set ?entries \<and> svc \<in> set included" by blast
  have "fst e \<in> psID ` set resolved" if "e \<in> set ?entries" for e
    using s(2) that by (force dest!: latest_in)
  with capped_scopes_Inr [OF l(1) d] g r l(2) cover decl show ?thesis by auto
qed

section \<open>The stages\<close>

lemma subject_ok:
  assumes v: "NewJWTValidatorWithPolicies sp cp aud skew = Inr (xsValidator S)" and r: "exchange_subject S t req = Inr (p, agentID)"
  shows "\<exists>subject client. genuine (xsLib S) (etNow t) skew aud sp (trSubjectToken req) subject \<and>
    genuine (xsLib S) (etNow t) skew aud cp (trClientAssertion req) client \<and>
    ExtractPrincipal (xsCEL S) (FromToken subject) = Inr p \<and> IsAgentSubject (xsCEL S) (FromToken subject) = Inr False \<and>
    ExtractAgentID (xsCEL S) (FromToken subject) = Inr agentID \<and>
    AuthorizePrivilegedClient (xsCEL S) (FromToken client) (FromToken subject)
      \<lparr>cxResource = trResource req, cxGrantType = trGrantType req, cxScope = TokenExchangeRequest.trScope req, cxPrincipal = p, cxAgentID = agentID\<rparr> = Inr True"
proof -
  from r obtain subject client where s: "ValidateSubjectToken (xsLib S) (etNow t) (etFetchCanceled t) (xsValidator S) (trSubjectToken req) = Inr subject"
      "ValidateClientAssertion (xsLib S) (etNow t) (etFetchCanceled t) (xsValidator S) (trClientAssertion req) = Inr client"
      "ResolveHumanSubject (xsCEL S) (FromToken subject) = (p, agentID, None)"
      "AuthorizePrivilegedClient (xsCEL S) (FromToken client) (FromToken subject)
        \<lparr>cxResource = trResource req, cxGrantType = trGrantType req, cxScope = TokenExchangeRequest.trScope req, cxPrincipal = p, cxAgentID = agentID\<rparr> = Inr True"
    by (auto simp: exchange_subject_def split: if_splits option.splits sum.splits prod.splits bool.splits)
  with ValidateSubjectToken_genuine [OF v] ValidateClientAssertion_genuine [OF v] ResolveHumanSubject_ok [OF s(3)] show ?thesis by blast
qed

lemma grant_stage:
  assumes "exchange_grant S t g resource p agentID = Inr (service, agent, grant, l)"
  shows "xsFindByProtectedResource S (xsNormalize S resource) = Inr service \<and>
    (\<exists>a. xsParseAgentID S agentID = Some a \<and> xsAgentGet S a = Inr agent) \<and>
    VerifyAgentAccess (xsGrants S) (etGrantNow t) g p (agID agent) = Inr grant \<and>
    resolveEffectiveScopes (xsPermissionSets S) (xsBaseURL S) grant agent service = Inr (Some l, DetailNone)"
proof -
  from assms obtain scopes where s: "xsFindByProtectedResource S (xsNormalize S resource) = Inr service"
      "\<exists>a. xsParseAgentID S agentID = Some a \<and> xsAgentGet S a = Inr agent"
      "VerifyAgentAccess (xsGrants S) (etGrantNow t) g p (agID agent) = Inr grant"
      "resolveEffectiveScopes (xsPermissionSets S) (xsBaseURL S) grant agent service = Inr (scopes, DetailNone)" "l = list_of scopes"
    unfolding exchange_grant_def list_of_def [symmetric] by (auto simp: Let_def split: sum.splits option.splits prod.splits if_splits)
  from resolve_ok [OF s(4)] s show ?thesis by auto
qed

lemma session_stage:
  assumes "exchange_session S t p service l fail (st, w) = (Inr (se, tok), st', w')"
  shows "GetValidAccessToken (xsSessions S) (xsEnv S) (etBetween t) (etDeparture t) (etGateEnded t) (etWriteLate t) (etLookup t) (etDue t)
      (etClock t) p service (st, w) = (Inr (se, tok), st', w') \<and> set l \<subseteq> set (usScope se)"
  using assms by (auto simp: exchange_session_def Let_def filter_empty_conv split: prod.splits sum.splits if_splits)

lemma Exchange_Inr:
  assumes "Exchange S t req g (st, w) = (Inr resp, st', w')"
  obtains agentID service agent grant l se fail where "exchange_subject S t req = Inr (rpPrincipal resp, agentID)"
    and "exchange_grant S t g (trResource req) (rpPrincipal resp) agentID = Inr (service, agent, grant, l)"
    and "exchange_session S t (rpPrincipal resp) service l fail (st, w) = (Inr (se, rpAccessToken resp), st', w')"
    and "rpAgentID resp = agID agent" and "rpService resp = Some \<lparr>sfID = service\<rparr>" and "rpScope resp = Join (usScope se) '' ''"
proof -
  from assms obtain p agentID service agent grant l se tok fail where e: "exchange_subject S t req = Inr (p, agentID)"
      "exchange_grant S t g (trResource req) p agentID = Inr (service, agent, grant, l)"
      "exchange_session S t p service l fail (st, w) = (Inr (se, tok), st', w')"
      "resp = exchange_response (etAnswer t) p service agent grant se tok"
    by (auto simp: Exchange_def split: sum.splits prod.splits)
  have "rpPrincipal resp = p" "rpAccessToken resp = tok" "rpAgentID resp = agID agent" "rpService resp = Some \<lparr>sfID = service\<rparr>"
      "rpScope resp = Join (usScope se) '' ''"
    by (simp_all add: e(4) exchange_response_def NewTokenExchangeResponseFull_def)
  with e that [of agentID service agent grant l fail se] show thesis by simp
qed

text \<open>What must hold, given the grants \<open>gm\<close> and the sessions \<open>sm\<close> afterwards, for a token to be handed out.\<close>

definition consented ::
  "('ks, 'g, 's, 'w) exchange_service \<Rightarrow> 's exchange_timing \<Rightarrow> TokenExchangeRequest \<Rightarrow> (principal \<times> agent_id \<rightharpoonup> UserGrant) \<Rightarrow> session_map \<Rightarrow>
    string \<Rightarrow> TokenExchangeResponse \<Rightarrow> bool" where
  "consented S t req gm sm agentID resp \<longleftrightarrow>
     (\<exists>a agent service grant resolved se.
        xsParseAgentID S agentID = Some a \<and> xsAgentGet S a = Inr agent \<and> rpAgentID resp = agID agent \<and>
        xsFindByProtectedResource S (xsNormalize S (trResource req)) = Inr service \<and> rpService resp = Some \<lparr>sfID = service\<rparr> \<and>
        gm (rpPrincipal resp, agID agent) = Some grant \<and> \<not> grant_expired (etGrantNow t) grant \<and>
        (\<exists>ps included. (ps, included) \<in> set (ugGrantedPermissionSets grant) \<and> service \<in> set included) \<and>
        fst ` set (ugGrantedPermissionSets grant) \<subseteq> apPermissionSetID ` set (agPermissionSets agent) \<and>
        xsPermissionSets S (map fst (ugGrantedPermissionSets grant)) = Inr resolved \<and>
        {scope \<in> granted_scopes resolved (ugGrantedPermissionSets grant) service. within_requirements (agServiceRequirements agent) service scope}
          \<subseteq> set (usScope se) \<and>
        sm (rpPrincipal resp, service) = Some se \<and> \<not> RefreshRejected se \<and> DecryptAccessToken (xsEnv S) se = Some (rpAccessToken resp))"

locale exchange_stores = grants: grant_repository G absg ginvar + sessions: refresh_repository R abss sinvar
  for G :: "'g grant_port" and absg ginvar and R :: "('s, 'w \<times> flight_vars, op_error) session_port" and abss sinvar
begin

text \<open>A covered service: an entry of the user's grant to the agent that has not expired.\<close>

lemma stage_covered:
  assumes inv: "ginvar g" and S: "xsGrants S = G" and u: "uuid_text (agID agent)"
    and r: "exchange_grant S t g resource p agentID = Inr (service, agent, grant, l)"
  shows "absg g (p, agID agent) = Some grant \<and> \<not> grant_expired (etGrantNow t) grant \<and>
    (\<exists>ps included. (ps, included) \<in> set (ugGrantedPermissionSets grant) \<and> service \<in> set included)"
proof -
  note s = grant_stage [OF r]
  from s S have v: "VerifyAgentAccess G (etGrantNow t) g p (agID agent) = Inr grant" by simp
  from s have "resolveEffectiveScopes (xsPermissionSets S) (xsBaseURL S) grant agent service = Inr (Some l, DetailNone)" by blast
  from resolve_ok [OF this] grants.Verify_Inr [OF inv u v] show ?thesis by blast
qed

lemma exchange_sound:
  assumes inv: "ginvar g" "sinvar st" "sinvar (etBetween t st)" and S: "xsGrants S = G" "xsSessions S = R"
    and u: "\<And>a agent. xsAgentGet S a = Inr agent \<Longrightarrow> uuid_text (agID agent)"
      "\<And>r svc. xsFindByProtectedResource S r = Inr svc \<Longrightarrow> uuid_text svc"
    and r: "Exchange S t req g (st, w) = (Inr resp, st', w')"
  shows "\<exists>agentID. exchange_subject S t req = Inr (rpPrincipal resp, agentID) \<and> consented S t req (absg g) (abss st') agentID resp"
proof -
  from r obtain agentID service agent grant l se fail where e: "exchange_subject S t req = Inr (rpPrincipal resp, agentID)"
      "exchange_grant S t g (trResource req) (rpPrincipal resp) agentID = Inr (service, agent, grant, l)"
      "exchange_session S t (rpPrincipal resp) service l fail (st, w) = (Inr (se, rpAccessToken resp), st', w')"
      "rpAgentID resp = agID agent" "rpService resp = Some \<lparr>sfID = service\<rparr>"
    by (rule Exchange_Inr)
  note gs = grant_stage [OF e(2)]
  then obtain a where a: "xsAgentGet S a = Inr agent" "xsParseAgentID S agentID = Some a" by blast
  note cov = stage_covered [OF inv(1) S(1) u(1) [OF a(1)] e(2)]
  from gs have res: "resolveEffectiveScopes (xsPermissionSets S) (xsBaseURL S) grant agent service = Inr (Some l, DetailNone)"
      and svc: "xsFindByProtectedResource S (xsNormalize S (trResource req)) = Inr service" by blast+
  from resolve_ok [OF res] obtain resolved where rs: "xsPermissionSets S (map fst (ugGrantedPermissionSets grant)) = Inr resolved"
      "set l = {scope \<in> granted_scopes resolved (ugGrantedPermissionSets grant) service. within_requirements (agServiceRequirements agent) service scope}"
      "fst ` set (ugGrantedPermissionSets grant) \<subseteq> apPermissionSetID ` set (agPermissionSets agent)" by auto
  note ss = session_stage [OF e(3), unfolded S(2)]
  from sessions.valid_token_sound [OF inv(2,3) u(2) [OF svc] conjunct1 [OF ss]]
  have "abss st' (rpPrincipal resp, service) = Some se \<and> \<not> RefreshRejected se \<and> DecryptAccessToken (xsEnv S) se = Some (rpAccessToken resp)" by blast
  with a svc e(4,5) cov rs ss have "consented S t req (absg g) (abss st') agentID resp"
    unfolding consented_def by (intro exI [of _ a] exI [of _ agent] exI [of _ service] exI [of _ grant] exI [of _ resolved] exI [of _ se]) simp
  with e(1) show ?thesis by blast
qed

end

interpretation mem_exchange: exchange_stores memory_grant_port grant_abs grant_invar "memory_session_port provider" session_abs session_invar
  for provider
  by unfold_locales

section \<open>Theorems\<close>

text \<open>
  C1. The exchange hands out a user's token for a service only when all of this holds: the subject token
  and the client assertion are genuine, the subject is a human, the client is authorized for this
  request; the user has granted this agent access in a grant that has not expired and that includes the
  service; every permission set of the grant is declared by the agent; the session covers the scopes the
  grant gives within the agent's requirements; and the token is the one of the session stored for this
  user and this service, whose refresh token was not rejected.
\<close>

theorem exchange_requires_consent:
  assumes v: "NewJWTValidatorWithPolicies sp cp aud skew = Inr (xsValidator S)"
    and S: "xsGrants S = memory_grant_port" "xsSessions S = memory_session_port provider"
    and inv: "grant_invar g" "session_invar st" "session_invar (etBetween t st)"
    and u: "\<And>a agent. xsAgentGet S a = Inr agent \<Longrightarrow> uuid_text (agID agent)"
      "\<And>r svc. xsFindByProtectedResource S r = Inr svc \<Longrightarrow> uuid_text svc"
    and r: "Exchange S t req g (st, w) = (Inr resp, st', w')"
  shows "\<exists>subject client agentID.
    genuine (xsLib S) (etNow t) skew aud sp (trSubjectToken req) subject \<and>
    genuine (xsLib S) (etNow t) skew aud cp (trClientAssertion req) client \<and>
    ExtractPrincipal (xsCEL S) (FromToken subject) = Inr (rpPrincipal resp) \<and> IsAgentSubject (xsCEL S) (FromToken subject) = Inr False \<and>
    ExtractAgentID (xsCEL S) (FromToken subject) = Inr agentID \<and>
    AuthorizePrivilegedClient (xsCEL S) (FromToken client) (FromToken subject)
      \<lparr>cxResource = trResource req, cxGrantType = trGrantType req, cxScope = TokenExchangeRequest.trScope req,
       cxPrincipal = rpPrincipal resp, cxAgentID = agentID\<rparr> = Inr True \<and>
    consented S t req (grant_abs g) (session_abs st') agentID resp"
proof -
  have "\<exists>agentID. exchange_subject S t req = Inr (rpPrincipal resp, agentID) \<and> consented S t req (grant_abs g) (session_abs st') agentID resp"
    by (rule mem_exchange.exchange_sound [OF inv S _ _ r]) (use u in blast)+
  then obtain agentID where x: "exchange_subject S t req = Inr (rpPrincipal resp, agentID)"
      "consented S t req (grant_abs g) (session_abs st') agentID resp" by blast
  from subject_ok [OF v x(1)] x(2) show ?thesis by blast
qed

text \<open>
  C9. The grant is checked before the session: when the user has no grant to the agent that has not
  expired and includes the service, the exchange answers the same whatever sessions are stored and
  however providers would answer, and it changes neither. So an agent without consent learns nothing about
  the user's sessions.
\<close>

theorem uncovered_exchange_reads_no_session:
  assumes S: "xsGrants S = memory_grant_port" and inv: "grant_invar g"
    and u: "\<And>a agent. xsAgentGet S a = Inr agent \<Longrightarrow> uuid_text (agID agent)"
    and none: "\<And>p agentID a agent service grant. exchange_subject S t req = Inr (p, agentID) \<Longrightarrow> xsParseAgentID S agentID = Some a \<Longrightarrow>
      xsAgentGet S a = Inr agent \<Longrightarrow> xsFindByProtectedResource S (xsNormalize S (trResource req)) = Inr service \<Longrightarrow>
      grant_abs g (p, agID agent) = Some grant \<Longrightarrow>
      grant_expired (etGrantNow t) grant \<or> (\<forall>(ps, included) \<in> set (ugGrantedPermissionSets grant). service \<notin> set included)"
  shows "\<exists>e. \<forall>sw. Exchange S t req g sw = (Inl e, sw)"
proof (cases "exchange_subject S t req")
  case (Inl f)
  then show ?thesis by (simp add: Exchange_def)
next
  case (Inr x)
  obtain p agentID where x: "x = (p, agentID)" by (cases x)
  with Inr have sub: "exchange_subject S t req = Inr (p, agentID)" by simp
  show ?thesis
  proof (cases "exchange_grant S t g (trResource req) p agentID")
    case (Inl f)
    with sub show ?thesis by (simp add: Exchange_def)
  next
    case (Inr y)
    then obtain service agent grant l where e: "exchange_grant S t g (trResource req) p agentID = Inr (service, agent, grant, l)" by (cases y) auto
    note gs = grant_stage [OF e]
    then obtain a where a: "xsParseAgentID S agentID = Some a" "xsAgentGet S a = Inr agent" by blast
    from mem_exchange.stage_covered [OF inv S u [OF a(2)] e] obtain ps included where c: "grant_abs g (p, agID agent) = Some grant"
        "\<not> grant_expired (etGrantNow t) grant" "(ps, included) \<in> set (ugGrantedPermissionSets grant)" "service \<in> set included" by blast
    with none [of p agentID a agent service grant] sub gs a have False by auto
    then show ?thesis ..
  qed
qed

text \<open>
  C39. The scopes the exchange requires of a session are exactly those that the permission sets of the
  grant's entries name for an included service, within the ceiling of the agent's service requirements;
  they come sorted and without repetition, and are empty only when the sets name none.
\<close>

theorem effective_scopes_exact:
  assumes "resolveEffectiveScopes getByIDs base grant agent svc = Inr (scopes, DetailNone)"
  shows "\<exists>resolved l. getByIDs (map fst (ugGrantedPermissionSets grant)) = Inr resolved \<and> scopes = Some l \<and> sorted l \<and> distinct l \<and>
    set l = {scope \<in> granted_scopes resolved (ugGrantedPermissionSets grant) svc. within_requirements (agServiceRequirements agent) svc scope} \<and>
    (l = [] \<longrightarrow> granted_scopes resolved (ugGrantedPermissionSets grant) svc = {})"
  using resolve_ok [OF assms] by blast

section \<open>An exchange for the witnesses\<close>

definition alice_grant :: "service_id list \<Rightarrow> UserGrant" where
  "alice_grant svcs = demo_grant\<lparr>ugPrincipal := ''alice'', ugGrantedPermissionSets := [(''ps'', svcs)]\<rparr>"

definition alice_granted :: "service_id list \<Rightarrow> grant_store" where
  "alice_granted svcs = snd (grant_Create [] (alice_grant svcs) NewUserGrantRepository)"

lemma alice_granted_ok: "grant_invar (alice_granted svcs) \<and> grant_abs (alice_granted svcs) = [(''alice'', demo_uuid) \<mapsto> alice_grant svcs]"
proof -
  obtain g' st where c: "grant_Create [] (alice_grant svcs) NewUserGrantRepository = (g', st)" by force
  have "uuid_text (ugAgentID (alice_grant svcs))" "ugID (alice_grant svcs) \<noteq> uuid_nil" "grant_pair (alice_grant svcs) = (''alice'', demo_uuid)"
    by (simp_all add: uuid_text_def alice_grant_def demo_grant_def demo_uuid_def uuid_nil_def)
  with mem_Create [OF empty_grants(1) _ _ _ c] show ?thesis
    by (auto simp: empty_grants(2) fresh_grant_id_def alice_granted_def c)
qed

definition alice_service :: "(string, grant_store, session_store, nat) exchange_service" where
  "alice_service =
     \<lparr>xsLib = demo_lib, xsValidator = demo_validator, xsCEL = demo_cel, xsResourceOK = (\<lambda>_. True), xsNormalize = id,
      xsFindByProtectedResource = (\<lambda>_. Inr (demo_svc (CHR ''c''))), xsParseAgentID = (\<lambda>_. Some demo_uuid),
      xsAgentGet = (\<lambda>_. Inr (demo_agent\<lparr>agID := demo_uuid, agPermissionSets := [\<lparr>apPermissionSetID = ''ps'', apRequirementType = RequirementTypeMandatory\<rparr>],
        agServiceRequirements := []\<rparr>)),
      xsGrants = memory_grant_port,
      xsPermissionSets = (\<lambda>_. Inr [demo_set\<lparr>psServiceScopes := [\<lparr>scServiceID = demo_svc (CHR ''c''), scScopes = [''read''], scRequirementType = RequirementTypeMandatory\<rparr>]\<rparr>]),
      xsSessions = memory_session_port None, xsEnv = Session_Refresh.demo_env 200 [], xsBaseURL = ''https://aib''\<rparr>"

definition alice_timing :: "session_store exchange_timing" where
  "alice_timing =
     \<lparr>etCanceled = False, etFetchCanceled = False, etEnded = False, etNow = 7, etGrantNow = 20, etBetween = id, etDeparture = Stays,
      etGateEnded = False, etWriteLate = False, etLookup = 20, etDue = 20, etClock = demo_clock, etAnswer = 20\<rparr>"

definition alice_request :: TokenExchangeRequest where
  "alice_request =
     \<lparr>trGrantType = TokenExchangeGrantType, trSubjectToken = ''alice'', trSubjectTokenType = AccessTokenType, trClientAssertion = ''gateway'',
      trClientAssertionType = JWTBearerType, trResource = ''https://mail'', trScope = []\<rparr>"

lemma alice_ids: "xsAgentGet alice_service a = Inr agent \<Longrightarrow> uuid_text (agID agent)"
    "xsFindByProtectedResource alice_service r = Inr svc \<Longrightarrow> uuid_text svc"
  by (auto simp: alice_service_def uuid_text_def demo_uuid_def demo_svc_def)

theorem exchange_requires_consent_witness:
  "case Exchange alice_service alice_timing alice_request (alice_granted [demo_svc (CHR ''c'')]) (User_Sessions.demo_store, 0) of
     (Inr resp, st, n) \<Rightarrow> rpAccessToken resp = ''t'' \<and> rpPrincipal resp = ''alice'' \<and> n = 0 \<and>
       (\<exists>agentID. consented alice_service alice_timing alice_request (grant_abs (alice_granted [demo_svc (CHR ''c'')])) (session_abs st) agentID resp)
   | _ \<Rightarrow> False"
proof -
  let ?r = "Exchange alice_service alice_timing alice_request (alice_granted [demo_svc (CHR ''c'')]) (User_Sessions.demo_store, 0)"
  have f: "\<not> isl (fst ?r)" "rpAccessToken (projr (fst ?r)) = ''t''" "rpPrincipal (projr (fst ?r)) = ''alice''" "snd (snd ?r) = 0" by code_simp+
  obtain resp st n where r: "?r = (Inr resp, st, n)" using f(1) by (metis prod.collapse sum.collapse(2))
  have v: "NewJWTValidatorWithPolicies demo_policy demo_policy ''aib'' 60 = Inr (xsValidator alice_service)"
    using demo_validator_built by (simp add: alice_service_def)
  have S: "xsGrants alice_service = memory_grant_port" "xsSessions alice_service = memory_session_port None" by (simp_all add: alice_service_def)
  have i: "session_invar (etBetween alice_timing User_Sessions.demo_store)" by (simp add: alice_timing_def demo_store_invar)
  have "\<exists>agentID. consented alice_service alice_timing alice_request (grant_abs (alice_granted [demo_svc (CHR ''c'')])) (session_abs st) agentID resp"
    using exchange_requires_consent [OF v S conjunct1 [OF alice_granted_ok] demo_store_invar i _ _ r] alice_ids by blast
  with f r show ?thesis by simp
qed

theorem uncovered_exchange_reads_no_session_witness:
  "\<exists>e. \<forall>sw. Exchange alice_service alice_timing alice_request (alice_granted [demo_svc (CHR ''b'')]) sw = (Inl e, sw)"
proof (rule uncovered_exchange_reads_no_session [OF _ conjunct1 [OF alice_granted_ok]])
  fix p agentID a agent service grant
  assume "xsFindByProtectedResource alice_service (xsNormalize alice_service (trResource alice_request)) = Inr service"
    and "grant_abs (alice_granted [demo_svc (CHR ''b'')]) (p, agID agent) = Some grant"
  then show "grant_expired (etGrantNow alice_timing) grant \<or> (\<forall>(ps, included) \<in> set (ugGrantedPermissionSets grant). service \<notin> set included)"
    using alice_granted_ok by (auto simp: alice_service_def alice_grant_def demo_svc_def split: if_splits)
qed (simp_all add: alice_service_def uuid_text_def demo_uuid_def)

theorem effective_scopes_exact_witness:
  "\<exists>resolved. granted_scopes resolved (ugGrantedPermissionSets (alice_grant [demo_svc (CHR ''c'')])) (demo_svc (CHR ''c'')) = {''read''}"
proof -
  obtain agent where a: "xsAgentGet alice_service [] = Inr agent" by (simp add: alice_service_def)
  have q: "agServiceRequirements agent = []" using a by (auto simp: alice_service_def)
  have "map_sum (\<lambda>_. ()) id (resolveEffectiveScopes (xsPermissionSets alice_service) [] (alice_grant [demo_svc (CHR ''c'')]) (projr (xsAgentGet alice_service [])) (demo_svc (CHR ''c''))) =
      Inr (Some [''read''], DetailNone)" by code_simp
  then have "resolveEffectiveScopes (xsPermissionSets alice_service) [] (alice_grant [demo_svc (CHR ''c'')]) agent (demo_svc (CHR ''c'')) = Inr (Some [''read''], DetailNone)"
    using a by (auto simp: map_sum_def split: sum.splits)
  from effective_scopes_exact [OF this] show ?thesis using q by (auto simp: within_requirements_def)
qed

end
