(* ===== verification/Agent_Registry.thy ===== *)
theory Agent_Registry
  imports Agent_Model Go_Strings
begin

text \<open>
  The registry of agents: the checks of an agent (\<^verbatim>\<open>internal/domain/storage/agent.go\<close>), the in-memory
  repository with its four indexes (\<^verbatim>\<open>internal/adapters/storage/memory/agent_repository.go\<close>) and the service
  above it (\<^verbatim>\<open>internal/domain/agents\<close>), with the reconciliation of an agent by its external identifier.

  The checks of URLs rest on the URL parser and are arguments (\<open>uri_checks\<close>), as are the lookups of services
  and permission sets. Log lines are left out. New identifiers and clock readings are arguments.
\<close>

section \<open>Checks\<close>

record uri_checks =
  ucIsValidURL :: "string \<Rightarrow> bool"
  ucRedirectURI :: "string \<Rightarrow> bool"
  ucClientURI :: "string \<Rightarrow> string option"
  ucMatches :: "string \<Rightarrow> string \<Rightarrow> bool"
  ucParseUUID :: "string \<Rightarrow> string option"

text \<open>\<^verbatim>\<open>utf8.DecodeRuneInString\<close>: the size of the first rune, None for an invalid encoding.\<close>

definition continuation :: "nat \<Rightarrow> nat \<Rightarrow> nat \<Rightarrow> bool" where
  "continuation lo hi b \<longleftrightarrow> lo \<le> b \<and> b \<le> hi"

definition rune_size :: "string \<Rightarrow> nat option" where
  "rune_size s =
     (let bs = map (\<lambda>c. of_char c :: nat) (take 4 s); b0 = bs ! 0; cont = continuation 128 191;
          lo = (if b0 = 224 then 160 else if b0 = 240 then 144 else 128);
          hi = (if b0 = 237 then 159 else if b0 = 244 then 143 else 191)
      in if b0 < 128 then Some 1
         else if 194 \<le> b0 \<and> b0 \<le> 223 then (if 2 \<le> length bs \<and> cont (bs ! 1) then Some 2 else None)
         else if 224 \<le> b0 \<and> b0 \<le> 239 then (if 3 \<le> length bs \<and> continuation lo hi (bs ! 1) \<and> cont (bs ! 2) then Some 3 else None)
         else if 240 \<le> b0 \<and> b0 \<le> 244
         then (if 4 \<le> length bs \<and> continuation lo hi (bs ! 1) \<and> cont (bs ! 2) \<and> cont (bs ! 3) then Some 4 else None)
         else None)"

lemma rune_size_positive: "rune_size s = Some n \<Longrightarrow> 0 < n"
  by (auto simp: rune_size_def Let_def split: if_splits)

function external_loop :: "nat \<Rightarrow> string \<Rightarrow> string option" where
  "external_loop n v =
     (if v = [] then (if n = 0 then Some ''external_id must be 1 to 255 characters'' else None)
      else case rune_size v of
          None \<Rightarrow> Some ''external_id must be valid UTF-8 text''
        | Some width \<Rightarrow>
            if hd v = CHR 0x00 then Some ''external_id must not contain a NUL character''
            else if 255 < Suc n then Some ''external_id must be 1 to 255 characters''
            else external_loop (Suc n) (drop width v))"
  by pat_completeness auto
termination
  by (relation "measure (\<lambda>(_, v). length v)") (auto dest: rune_size_positive)

declare external_loop.simps [simp del]

definition ValidateExternalID :: "string \<Rightarrow> string option" where
  "ValidateExternalID externalID = external_loop 0 externalID"

fun client_uri_loop :: "(string \<Rightarrow> string option) \<Rightarrow> string list \<Rightarrow> nat \<Rightarrow> string list \<Rightarrow> record_error option" where
  "client_uri_loop check seen i [] = None"
| "client_uri_loop check seen i (uri # uris) =
     (if uri \<in> set seen then Some (Entry ''client_uris'' i (Fault ''duplicate''))
      else case check uri of
          Some e \<Rightarrow> Some (Entry ''client_uris'' i (Fault e))
        | None \<Rightarrow> client_uri_loop check (uri # seen) (Suc i) uris)"

definition validateClientURIFormats :: "uri_checks \<Rightarrow> string list \<Rightarrow> record_error option" where
  "validateClientURIFormats C uris = client_uri_loop (ucClientURI C) [] 0 uris"

definition url_fault :: "uri_checks \<Rightarrow> string option \<Rightarrow> bool" where
  "url_fault C url = (case url of None \<Rightarrow> False | Some u \<Rightarrow> \<not> ucIsValidURL C u)"

definition Agent_validateFields :: "uri_checks \<Rightarrow> Agent \<Rightarrow> record_error option" where
  "Agent_validateFields C a =
     (case canonical_Validate (ucParseUUID C) (agCanonicalID a) of Some e \<Rightarrow> Some e | None \<Rightarrow>
      case (case agExternalID a of None \<Rightarrow> None
            | Some x \<Rightarrow> if x = [] then Some ''external_id cannot be empty when provided'' else ValidateExternalID x) of
        Some e \<Rightarrow> Some (Fault e)
      | None \<Rightarrow>
          if (case agClientID a of None \<Rightarrow> False | Some c \<Rightarrow> TrimSpace c = []) then Some (Fault ''client_id cannot be empty when provided'')
          else if agClientID a \<noteq> None \<and> agClientURIs a \<noteq> [] then Some (Fault ''agent cannot have both client_id and client_uris set'')
          else if agDisplayName a = [] then Some (Fault ''display_name is required'')
          else if 255 < length (agDisplayName a) then Some (Fault ''display_name exceeds 255 characters'')
          else if agDescription a = [] then Some (Fault ''description is required'')
          else if 1000 < length (agDescription a) then Some (Fault ''description exceeds 1000 characters'')
          else if url_fault C (agGovernanceURL a) then Some (Fault ''governance_url is not a valid HTTP/HTTPS URL'')
          else if url_fault C (agUserDocumentationURL a) then Some (Fault ''user_documentation_url is not a valid HTTP/HTTPS URL'')
          else if url_fault C (agAgentInterfaceURL a) then Some (Fault ''agent_interface_url is not a valid HTTP/HTTPS URL'')
          else case first_fault ''redirect_uris'' (\<lambda>uri. if ucRedirectURI C uri then None else Some (Fault ''invalid'')) 0 (agRedirectURIs a) of
              Some e \<Rightarrow> Some e
            | None \<Rightarrow>
                (case validateClientURIFormats C (agClientURIs a) of
                   Some e \<Rightarrow> Some e
                 | None \<Rightarrow>
                     (case ValidateServiceRequirements a of Some e \<Rightarrow> Some e | None \<Rightarrow> ValidatePermissionSets a)))"

definition Agent_Validate :: "uri_checks \<Rightarrow> Agent \<Rightarrow> record_error option" where
  "Agent_Validate C a = (if agID a = uuid_nil then Some (Fault ''agent ID cannot be empty'') else Agent_validateFields C a)"

section \<open>The repository\<close>

record agent_store =
  asAgents :: "(agent_id, Agent) gomap"
  asByExternalID :: "(string, agent_id) gomap"
  asByCanonicalID :: "(string, agent_id) gomap"
  asByClientID :: "(string, agent_id list) gomap"
  asByClientURI :: "(string, agent_id) gomap"

definition NewAgentRepository :: agent_store where
  "NewAgentRepository = \<lparr>asAgents = [], asByExternalID = [], asByCanonicalID = [], asByClientID = [], asByClientURI = []\<rparr>"

definition agent_conflict :: "string \<Rightarrow> string \<Rightarrow> StorageError" where
  "agent_conflict op msg = StorageError op ErrorKindConflict msg"

definition agent_missing :: "string \<Rightarrow> StorageError" where
  "agent_missing op = StorageError op ErrorKindNotFound ''agent not found''"

definition held_by_other :: "(string, agent_id) gomap \<Rightarrow> agent_id \<Rightarrow> string \<Rightarrow> bool" where
  "held_by_other idx i x = (case map_of idx x of None \<Rightarrow> False | Some holder \<Rightarrow> holder \<noteq> i)"

definition checkExternalID :: "Agent \<Rightarrow> agent_store \<Rightarrow> StorageError option" where
  "checkExternalID a s =
     (case agExternalID a of
        None \<Rightarrow> None
      | Some x \<Rightarrow>
          if held_by_other (asByExternalID s) (agID a) x
          then Some (agent_conflict ''WriteAgent'' ''external_id is already held by another agent'') else None)"

definition index_opt :: "string option \<Rightarrow> agent_id \<Rightarrow> (string, agent_id) gomap \<Rightarrow> (string, agent_id) gomap" where
  "index_opt k i idx = (case k of None \<Rightarrow> idx | Some x \<Rightarrow> AList.update x i idx)"

definition unindex_opt :: "string option \<Rightarrow> (string, agent_id) gomap \<Rightarrow> (string, agent_id) gomap" where
  "unindex_opt k idx = (case k of None \<Rightarrow> idx | Some x \<Rightarrow> AList.delete x idx)"

definition client_ids :: "agent_store \<Rightarrow> string \<Rightarrow> agent_id list" where
  "client_ids s c = (case map_of (asByClientID s) c of None \<Rightarrow> [] | Some ids \<Rightarrow> ids)"

definition add_client :: "string option \<Rightarrow> agent_id \<Rightarrow> agent_store \<Rightarrow> agent_store" where
  "add_client k i s = (case k of None \<Rightarrow> s | Some c \<Rightarrow> s\<lparr>asByClientID := AList.update c (client_ids s c @ [i]) (asByClientID s)\<rparr>)"

text \<open>\<^verbatim>\<open>removeFromClientIDIndex\<close> takes the first occurrence out.\<close>

definition removeFromClientIDIndex :: "string \<Rightarrow> agent_id \<Rightarrow> agent_store \<Rightarrow> agent_store" where
  "removeFromClientIDIndex c i s =
     (let ids = remove1 i (client_ids s c)
      in s\<lparr>asByClientID := (if ids = [] then AList.delete c (asByClientID s) else AList.update c ids (asByClientID s))\<rparr>)"

definition remove_client :: "string option \<Rightarrow> agent_id \<Rightarrow> agent_store \<Rightarrow> agent_store" where
  "remove_client k i s = (case k of None \<Rightarrow> s | Some c \<Rightarrow> removeFromClientIDIndex c i s)"

text \<open>\<open>newID\<close> is the identifier that a zero one is replaced by; the caller's agent gets it too.\<close>

definition agent_Create :: "uri_checks \<Rightarrow> agent_id \<Rightarrow> Agent \<Rightarrow> agent_store \<Rightarrow> (StorageError + Agent) \<times> agent_store" where
  "agent_Create C newID a0 s =
     (let a = (if agID a0 = uuid_nil then a0\<lparr>agID := newID\<rparr> else a0)
      in if map_of (asAgents s) (agID a) \<noteq> None then (Inl (agent_conflict ''CreateAgent'' ''agent with this ID already exists''), s)
         else if Agent_validateFields C a \<noteq> None then (Inl (StorageError ''CreateAgent'' ErrorKindValidation ''agent validation failed''), s)
         else case checkExternalID a s of
             Some e \<Rightarrow> (Inl e, s)
           | None \<Rightarrow>
               if (case agCanonicalID a of None \<Rightarrow> False | Some x \<Rightarrow> map_of (asByCanonicalID s) x \<noteq> None)
               then (Inl (agent_conflict ''CreateAgent'' ''agent canonical_id already exists''), s)
               else if list_ex (held_by_other (asByClientURI s) (agID a)) (agClientURIs a)
               then (Inl (agent_conflict ''CreateAgent'' ''client_uri already registered to another agent''), s)
               else let s1 = s\<lparr>asAgents := AList.update (agID a) a (asAgents s),
                              asByExternalID := index_opt (agExternalID a) (agID a) (asByExternalID s),
                              asByCanonicalID := index_opt (agCanonicalID a) (agID a) (asByCanonicalID s)\<rparr>;
                        s2 = add_client (agClientID a) (agID a) s1
                    in (Inr a, s2\<lparr>asByClientURI := fold (\<lambda>uri. AList.update uri (agID a)) (agClientURIs a) (asByClientURI s2)\<rparr>))"

definition agent_Get :: "agent_id \<Rightarrow> agent_store \<Rightarrow> StorageError + Agent" where
  "agent_Get i s = (case map_of (asAgents s) i of None \<Rightarrow> Inl (agent_missing ''GetAgent'') | Some a \<Rightarrow> Inr a)"

fun agents_of :: "agent_store \<Rightarrow> agent_id list \<Rightarrow> agent_id list \<Rightarrow> Agent list" where
  "agents_of s seen [] = []"
| "agents_of s seen (i # is) =
     (case map_of (asAgents s) i of
        Some a \<Rightarrow> if i \<in> set seen then agents_of s seen is else a # agents_of s (i # seen) is
      | None \<Rightarrow> agents_of s seen is)"

definition agent_GetByIDs :: "agent_id list \<Rightarrow> agent_store \<Rightarrow> Agent list" where
  "agent_GetByIDs ids s = agents_of s [] ids"

text \<open>An index entry without its agent would be a nil dereference; \<open>None\<close> stands for it.\<close>

definition agent_via :: "string \<Rightarrow> (string, agent_id) gomap \<Rightarrow> string \<Rightarrow> agent_store \<Rightarrow> (StorageError + Agent) option" where
  "agent_via op idx x s =
     (case map_of idx x of None \<Rightarrow> Some (Inl (agent_missing op)) | Some i \<Rightarrow> map_option Inr (map_of (asAgents s) i))"

definition agent_GetByCanonicalID :: "string \<Rightarrow> agent_store \<Rightarrow> (StorageError + Agent) option" where
  "agent_GetByCanonicalID x s = agent_via ''GetAgentByCanonicalID'' (asByCanonicalID s) x s"

definition agent_GetByExternalID :: "string \<Rightarrow> agent_store \<Rightarrow> (StorageError + Agent) option" where
  "agent_GetByExternalID x s = agent_via ''GetAgentByExternalID'' (asByExternalID s) x s"

definition agent_Update :: "uri_checks \<Rightarrow> Agent \<Rightarrow> agent_store \<Rightarrow> StorageError option \<times> agent_store" where
  "agent_Update C a s =
     (case map_of (asAgents s) (agID a) of
        None \<Rightarrow> (Some (agent_missing ''UpdateAgent''), s)
      | Some existing \<Rightarrow>
          (case checkExternalID a s of
             Some e \<Rightarrow> (Some e, s)
           | None \<Rightarrow>
               if list_ex (held_by_other (asByClientURI s) (agID a)) (agClientURIs a)
               then (Some (agent_conflict ''UpdateAgent'' ''client_uri already registered to another agent''), s)
               else if Agent_Validate C a \<noteq> None then (Some (StorageError ''UpdateAgent'' ErrorKindValidation ''agent validation failed''), s)
               else if (case agCanonicalID a of None \<Rightarrow> False | Some x \<Rightarrow> held_by_other (asByCanonicalID s) (agID a) x)
               then (Some (agent_conflict ''UpdateAgent'' ''agent canonical_id already exists''), s)
               else let s1 = s\<lparr>asByExternalID := index_opt (agExternalID a) (agID a) (unindex_opt (agExternalID existing) (asByExternalID s))\<rparr>;
                        s2 = (if agClientID existing = agClientID a then s1
                              else add_client (agClientID a) (agID a) (remove_client (agClientID existing) (agID a) s1));
                        s3 = s2\<lparr>asByCanonicalID := index_opt (agCanonicalID a) (agID a) (unindex_opt (agCanonicalID existing) (asByCanonicalID s2)),
                               asByClientURI := fold (\<lambda>uri. AList.update uri (agID a)) (agClientURIs a)
                                 (fold AList.delete (agClientURIs existing) (asByClientURI s2))\<rparr>
                    in (None, s3\<lparr>asAgents := AList.update (agID a) a (asAgents s3)\<rparr>)))"

definition agent_Delete :: "agent_id \<Rightarrow> agent_store \<Rightarrow> bool \<times> agent_store" where
  "agent_Delete i s =
     (case map_of (asAgents s) i of
        None \<Rightarrow> (False, s)
      | Some a \<Rightarrow>
          let s1 = remove_client (agClientID a) i (s\<lparr>asByExternalID := unindex_opt (agExternalID a) (asByExternalID s)\<rparr>)
          in (True, s1\<lparr>asByClientURI := fold AList.delete (agClientURIs a) (asByClientURI s1), asAgents := AList.delete i (asAgents s1),
                       asByCanonicalID := unindex_opt (agCanonicalID a) (asByCanonicalID s1)\<rparr>))"

definition agent_List :: "agent_store \<Rightarrow> Agent list" where
  "agent_List s = map snd (asAgents s)"

definition agent_GetByClientID :: "string \<Rightarrow> agent_store \<Rightarrow> (StorageError + Agent) option" where
  "agent_GetByClientID c s =
     (case client_ids s c of [] \<Rightarrow> Some (Inl (agent_missing ''GetAgentByClientID'')) | i # _ \<Rightarrow> map_option Inr (map_of (asAgents s) i))"

definition agent_ExistsOtherWithClientID :: "string \<Rightarrow> agent_id option \<Rightarrow> agent_store \<Rightarrow> bool" where
  "agent_ExistsOtherWithClientID c exclude s = list_ex (\<lambda>i. exclude \<noteq> Some i) (client_ids s c)"

definition agent_GetByClientURI :: "uri_checks \<Rightarrow> string \<Rightarrow> agent_store \<Rightarrow> StorageError + Agent" where
  "agent_GetByClientURI C uri s =
     (case (case map_of (asByClientURI s) uri of None \<Rightarrow> None | Some i \<Rightarrow> map_of (asAgents s) i) of
        Some a \<Rightarrow> Inr a
      | None \<Rightarrow>
          let matched = remdups (map snd (filter (\<lambda>(registered, i). map_of (asAgents s) i \<noteq> None \<and> ucMatches C registered uri) (asByClientURI s)))
          in case matched of
               [] \<Rightarrow> Inl (agent_missing ''GetAgentByClientURI'')
             | [i] \<Rightarrow> (case map_of (asAgents s) i of Some a \<Rightarrow> Inr a | None \<Rightarrow> Inl (agent_missing ''GetAgentByClientURI''))
             | _ \<Rightarrow> Inl (agent_conflict ''GetAgentByClientURI'' ''CIMD client URI matches multiple agents''))"

section \<open>The indexes\<close>

text \<open>An index that gives every key its one holder; \<open>has a x\<close> says that the agent holds the key.\<close>

definition unique_index :: "(Agent \<Rightarrow> string \<Rightarrow> bool) \<Rightarrow> (agent_id \<rightharpoonup> Agent) \<Rightarrow> (string \<rightharpoonup> agent_id) \<Rightarrow> bool" where
  "unique_index has m idx \<longleftrightarrow> (\<forall>x i. idx x = Some i \<longleftrightarrow> (\<exists>a. m i = Some a \<and> has a x))"

lemma unique_index_one: "unique_index has m idx \<Longrightarrow> m i = Some a \<Longrightarrow> has a x \<Longrightarrow> m j = Some b \<Longrightarrow> has b x \<Longrightarrow> i = j"
  unfolding unique_index_def by (metis option.inject)

definition held :: "(Agent \<Rightarrow> string \<Rightarrow> bool) \<Rightarrow> Agent option \<Rightarrow> string \<Rightarrow> bool" where
  "held has old x = (case old of None \<Rightarrow> False | Some a \<Rightarrow> has a x)"

lemma unique_index_remove:
  assumes idx: "unique_index has m idx"
  shows "unique_index has (m(i := None)) (\<lambda>x. if held has (m i) x then None else idx x)"
proof -
  have idx': "idx x = Some j \<longleftrightarrow> (\<exists>b. m j = Some b \<and> has b x)" for x j using idx unfolding unique_index_def by blast
  have "(if held has (m i) x then None else idx x) = Some j \<longleftrightarrow> (\<exists>b. (m(i := None)) j = Some b \<and> has b x)" for x j
  proof (cases "held has (m i) x")
    case True
    then obtain c where c: "m i = Some c" "has c x" by (auto simp: held_def split: option.splits)
    then have "j = i" if "m j = Some b" "has b x" for b using unique_index_one [OF idx c that] by simp
    with True show ?thesis by auto
  next
    case False
    then have "\<not> has c x" if "m i = Some c" for c using that by (simp add: held_def)
    with False idx' [of x j] show ?thesis by auto
  qed
  then show ?thesis by (simp add: unique_index_def)
qed

lemma unique_index_put_new:
  assumes idx: "unique_index has m idx" and none: "m i = None" and free: "\<And>x. has a x \<Longrightarrow> idx x = None"
  shows "unique_index has (m(i \<mapsto> a)) (\<lambda>x. if has a x then Some i else idx x)"
proof -
  have idx': "idx x = Some j \<longleftrightarrow> (\<exists>b. m j = Some b \<and> has b x)" for x j using idx unfolding unique_index_def by blast
  have "(if has a x then Some i else idx x) = Some j \<longleftrightarrow> (\<exists>b. (m(i \<mapsto> a)) j = Some b \<and> has b x)" for x j
    using idx' [of x j] none free [of x] by (cases "j = i") auto
  then show ?thesis by (simp add: unique_index_def)
qed

text \<open>A key is free for an agent when nobody else holds it: without the agent's own keys it has no holder.\<close>

lemma unique_index_put:
  assumes idx: "unique_index has m idx" and free: "\<And>x j. has a x \<Longrightarrow> idx x = Some j \<Longrightarrow> j = i"
  shows "unique_index has (m(i \<mapsto> a)) (\<lambda>x. if has a x then Some i else if held has (m i) x then None else idx x)"
proof -
  have "unique_index has ((m(i := None))(i \<mapsto> a)) (\<lambda>x. if has a x then Some i else if held has (m i) x then None else idx x)"
  proof (rule unique_index_put_new [OF unique_index_remove [OF idx]])
    fix x assume a: "has a x"
    show "(if held has (m i) x then None else idx x) = None"
    proof (cases "idx x")
      case (Some j)
      with free [OF a] have "idx x = Some i" by simp
      then obtain c where "m i = Some c" "has c x" using idx unfolding unique_index_def by blast
      then show ?thesis by (simp add: held_def)
    qed simp
  qed simp
  then show ?thesis by simp
qed

lemma held_None [simp]: "held has None x \<longleftrightarrow> False" "held has (Some a) x \<longleftrightarrow> has a x"
  by (simp_all add: held_def)

definition client_index :: "(agent_id \<rightharpoonup> Agent) \<Rightarrow> (string \<Rightarrow> agent_id list) \<Rightarrow> bool" where
  "client_index m ids \<longleftrightarrow> (\<forall>c. distinct (ids c) \<and> set (ids c) = {i. \<exists>a. m i = Some a \<and> agClientID a = Some c})"

abbreviation has_external :: "Agent \<Rightarrow> string \<Rightarrow> bool" where "has_external a x \<equiv> agExternalID a = Some x"
abbreviation has_canonical :: "Agent \<Rightarrow> string \<Rightarrow> bool" where "has_canonical a x \<equiv> agCanonicalID a = Some x"
abbreviation has_uri :: "Agent \<Rightarrow> string \<Rightarrow> bool" where "has_uri a x \<equiv> x \<in> set (agClientURIs a)"

definition agent_abs :: "agent_store \<Rightarrow> agent_id \<rightharpoonup> Agent" where
  "agent_abs s = map_of (asAgents s)"

definition agent_invar :: "agent_store \<Rightarrow> bool" where
  "agent_invar s \<longleftrightarrow> wf_gomap (asAgents s) \<and> (\<forall>i a. agent_abs s i = Some a \<longrightarrow> agID a = i) \<and>
     unique_index has_external (agent_abs s) (map_of (asByExternalID s)) \<and>
     unique_index has_canonical (agent_abs s) (map_of (asByCanonicalID s)) \<and>
     unique_index has_uri (agent_abs s) (map_of (asByClientURI s)) \<and> client_index (agent_abs s) (client_ids s)"

lemma index_maps:
  "map_of (index_opt k i idx) = (\<lambda>x. if k = Some x then Some i else map_of idx x)"
  "map_of (unindex_opt k idx) = (\<lambda>x. if k = Some x then None else map_of idx x)"
  by (auto simp: index_opt_def unindex_opt_def go_map_simps fun_eq_iff split: option.splits)

lemma fold_maps:
  "map_of (fold (\<lambda>uri. AList.update uri i) us idx) = (\<lambda>x. if x \<in> set us then Some i else map_of idx x)"
  "map_of (fold AList.delete us idx) = (\<lambda>x. if x \<in> set us then None else map_of idx x)"
  by (induction us arbitrary: idx) (auto simp: go_map_simps fun_eq_iff)

lemma client_ids_simps:
  "client_ids (add_client k i s) c = client_ids s c @ (if k = Some c then [i] else [])"
  "client_ids (remove_client k i s) c = (if k = Some c then remove1 i (client_ids s c) else client_ids s c)"
  by (auto simp: client_ids_def add_client_def remove_client_def removeFromClientIDIndex_def Let_def go_map_simps split: option.splits)

lemma client_fields [simp]:
  "asAgents (add_client k i s) = asAgents s" "asByExternalID (add_client k i s) = asByExternalID s"
  "asByCanonicalID (add_client k i s) = asByCanonicalID s" "asByClientURI (add_client k i s) = asByClientURI s"
  "asAgents (remove_client k i s) = asAgents s" "asByExternalID (remove_client k i s) = asByExternalID s"
  "asByCanonicalID (remove_client k i s) = asByCanonicalID s" "asByClientURI (remove_client k i s) = asByClientURI s"
  by (auto simp: add_client_def remove_client_def removeFromClientIDIndex_def Let_def split: option.splits)

lemma client_ids_other [simp]:
  "client_ids (s\<lparr>asAgents := x\<rparr>) = client_ids s" "client_ids (s\<lparr>asByExternalID := y\<rparr>) = client_ids s"
  "client_ids (s\<lparr>asByCanonicalID := y\<rparr>) = client_ids s" "client_ids (s\<lparr>asByClientURI := y\<rparr>) = client_ids s"
  by (simp_all add: client_ids_def fun_eq_iff)

lemma client_index_put:
  assumes idx: "client_index m ids" and old: "\<And>c. agClientID a = Some c \<Longrightarrow> i \<in> set (ids c) \<Longrightarrow> (\<exists>b. m i = Some b \<and> agClientID b = Some c)"
    and new: "\<And>c. ids' c = (if (case m i of None \<Rightarrow> None | Some b \<Rightarrow> agClientID b) = agClientID a then ids c
       else (if (case m i of None \<Rightarrow> None | Some b \<Rightarrow> agClientID b) = Some c then remove1 i (ids c) else ids c) @ (if agClientID a = Some c then [i] else []))"
  shows "client_index (m(i \<mapsto> a)) ids'"
proof -
  have ids: "distinct (ids c)" "\<And>j. j \<in> set (ids c) \<longleftrightarrow> (\<exists>b. m j = Some b \<and> agClientID b = Some c)" for c
    using idx unfolding client_index_def by blast+
  show ?thesis unfolding client_index_def
  proof (intro allI conjI set_eqI)
    fix c
    show "distinct (ids' c)" unfolding new using ids by (cases "m i") auto
    fix j show "j \<in> set (ids' c) \<longleftrightarrow> j \<in> {j. \<exists>b. (m(i \<mapsto> a)) j = Some b \<and> agClientID b = Some c}"
      unfolding new using ids by (cases "m i") (auto split: if_splits)
  qed
qed

lemma client_index_remove:
  assumes idx: "client_index m ids" and m: "m i = Some a" and new: "\<And>c. ids' c = (if agClientID a = Some c then remove1 i (ids c) else ids c)"
  shows "client_index (m(i := None)) ids'"
proof -
  have ids: "distinct (ids c)" "\<And>j. j \<in> set (ids c) \<longleftrightarrow> (\<exists>b. m j = Some b \<and> agClientID b = Some c)" for c
    using idx unfolding client_index_def by blast+
  show ?thesis unfolding client_index_def
  proof (intro allI conjI set_eqI)
    fix c
    show "distinct (ids' c)" unfolding new using ids by auto
    fix j show "j \<in> set (ids' c) \<longleftrightarrow> j \<in> {j. \<exists>b. (m(i := None)) j = Some b \<and> agClientID b = Some c}"
      unfolding new using ids m by (auto split: if_splits)
  qed
qed

lemma held_by_other_free: "\<not> held_by_other idx i x \<Longrightarrow> map_of idx x = Some j \<Longrightarrow> j = i"
  by (simp add: held_by_other_def)

lemma reindex_put:
  assumes "unique_index has m (map_of idx)" and b: "m i = Some b" and "\<And>x. has a x \<Longrightarrow> \<not> held_by_other idx i x"
    and idx': "\<And>x. map_of idx' x = (if has a x then Some i else if has b x then None else map_of idx x)"
  shows "unique_index has (m(i \<mapsto> a)) (map_of idx')"
proof -
  have eq: "map_of idx' = (\<lambda>x. if has a x then Some i else if held has (m i) x then None else map_of idx x)"
    unfolding b held_None using idx' by (rule ext)
  show ?thesis unfolding eq by (rule unique_index_put [OF assms(1)]) (use assms(3) held_by_other_free in blast)
qed

lemma new_agents_invar: "agent_invar NewAgentRepository" "agent_abs NewAgentRepository = Map.empty"
  by (simp_all add: agent_invar_def agent_abs_def NewAgentRepository_def unique_index_def client_index_def client_ids_def)

lemma agent_Create_ok:
  assumes inv: "agent_invar s" and r: "agent_Create C newID a0 s = (Inr a, s')"
  shows "agent_invar s' \<and> agent_abs s' = (agent_abs s)(agID a \<mapsto> a) \<and> agent_abs s (agID a) = None \<and>
    a = (if agID a0 = uuid_nil then a0\<lparr>agID := newID\<rparr> else a0) \<and> Agent_validateFields C a = None"
proof -
  note I = inv [unfolded agent_invar_def]
  let ?m = "agent_abs s"
  from r have a: "a = (if agID a0 = uuid_nil then a0\<lparr>agID := newID\<rparr> else a0)" and v: "Agent_validateFields C a = None"
      and n: "?m (agID a) = None" and e: "checkExternalID a s = None"
      and c: "\<And>x. agCanonicalID a = Some x \<Longrightarrow> map_of (asByCanonicalID s) x = None"
      and u: "\<And>x. x \<in> set (agClientURIs a) \<Longrightarrow> \<not> held_by_other (asByClientURI s) (agID a) x"
      and s': "s' = (add_client (agClientID a) (agID a) (s\<lparr>asAgents := AList.update (agID a) a (asAgents s),
                asByExternalID := index_opt (agExternalID a) (agID a) (asByExternalID s),
                asByCanonicalID := index_opt (agCanonicalID a) (agID a) (asByCanonicalID s)\<rparr>))
              \<lparr>asByClientURI := fold (\<lambda>uri. AList.update uri (agID a)) (agClientURIs a) (asByClientURI s)\<rparr>"
    by (auto simp: agent_Create_def Let_def agent_abs_def list_ex_iff split: if_splits option.splits)
  have m: "agent_abs s' = ?m(agID a \<mapsto> a)" by (simp add: s' agent_abs_def go_map_simps)
  have free: "map_of idx x = None" if "unique_index has ?m (map_of idx)" "\<not> held_by_other idx (agID a) x" for has idx x
    using that n unfolding unique_index_def held_by_other_def by (cases "map_of idx x") force+
  have "unique_index has_external (?m(agID a \<mapsto> a)) (map_of (asByExternalID s'))"
  proof -
    have "unique_index has_external (?m(agID a \<mapsto> a))
        (\<lambda>x. if has_external a x then Some (agID a) else map_of (asByExternalID s) x)"
      by (rule unique_index_put_new [where m = ?m and i = "agID a", OF _ n]) (use I e free in \<open>auto simp: checkExternalID_def split: if_splits\<close>)
    then show ?thesis by (simp add: s' index_maps)
  qed
  moreover have "unique_index has_canonical (?m(agID a \<mapsto> a)) (map_of (asByCanonicalID s'))"
  proof -
    have "unique_index has_canonical (?m(agID a \<mapsto> a))
        (\<lambda>x. if has_canonical a x then Some (agID a) else map_of (asByCanonicalID s) x)"
      by (rule unique_index_put_new [where m = ?m and i = "agID a", OF _ n]) (use I c in auto)
    then show ?thesis by (simp add: s' index_maps)
  qed
  moreover have "unique_index has_uri (?m(agID a \<mapsto> a)) (map_of (asByClientURI s'))"
  proof -
    have "unique_index has_uri (?m(agID a \<mapsto> a))
        (\<lambda>x. if has_uri a x then Some (agID a) else map_of (asByClientURI s) x)"
      by (rule unique_index_put_new [where m = ?m and i = "agID a", OF _ n]) (use I u free in auto)
    then show ?thesis by (simp add: s' fold_maps)
  qed
  moreover have "client_index (?m(agID a \<mapsto> a)) (client_ids s')"
  proof (rule client_index_put)
    show "client_index ?m (client_ids s)" using I by blast
    show "client_ids s' c = (if (case ?m (agID a) of None \<Rightarrow> None | Some b \<Rightarrow> agClientID b) = agClientID a then client_ids s c
       else (if (case ?m (agID a) of None \<Rightarrow> None | Some b \<Rightarrow> agClientID b) = Some c then remove1 (agID a) (client_ids s c) else client_ids s c) @ (if agClientID a = Some c then [agID a] else []))" for c
      using n by (auto simp: s' client_ids_simps)
    show "\<exists>b. ?m (agID a) = Some b \<and> agClientID b = Some c" if "agClientID a = Some c" "agID a \<in> set (client_ids s c)" for c
      using that I n unfolding client_index_def by blast
  qed
  ultimately have "agent_invar s'" unfolding agent_invar_def m using I by (auto simp: s')
  with m n a v show ?thesis by blast
qed

lemma agent_Update_ok:
  assumes inv: "agent_invar s" and r: "agent_Update C a s = (None, s')"
  shows "agent_invar s' \<and> agent_abs s' = (agent_abs s)(agID a \<mapsto> a) \<and> agent_abs s (agID a) \<noteq> None \<and> Agent_Validate C a = None"
proof -
  note I = inv [unfolded agent_invar_def]
  let ?m = "agent_abs s"
  from r obtain b where b: "?m (agID a) = Some b" and e: "checkExternalID a s = None" and v: "Agent_Validate C a = None"
      and c: "\<And>x. agCanonicalID a = Some x \<Longrightarrow> \<not> held_by_other (asByCanonicalID s) (agID a) x"
      and u: "\<And>x. x \<in> set (agClientURIs a) \<Longrightarrow> \<not> held_by_other (asByClientURI s) (agID a) x"
      and s': "asAgents s' = AList.update (agID a) a (asAgents s)"
        "asByExternalID s' = index_opt (agExternalID a) (agID a) (unindex_opt (agExternalID b) (asByExternalID s))"
        "asByCanonicalID s' = index_opt (agCanonicalID a) (agID a) (unindex_opt (agCanonicalID b) (asByCanonicalID s))"
        "asByClientURI s' = fold (\<lambda>uri. AList.update uri (agID a)) (agClientURIs a) (fold AList.delete (agClientURIs b) (asByClientURI s))"
        "client_ids s' = client_ids (if agClientID b = agClientID a then s else add_client (agClientID a) (agID a) (remove_client (agClientID b) (agID a) s))"
    by (auto simp: agent_Update_def Let_def agent_abs_def list_ex_iff client_ids_simps fun_eq_iff split: if_splits option.splits)
  have m: "agent_abs s' = ?m(agID a \<mapsto> a)" by (simp add: s' agent_abs_def go_map_simps)
  have "unique_index has_external (?m(agID a \<mapsto> a)) (map_of (asByExternalID s'))"
    by (rule reindex_put [of has_external ?m "asByExternalID s" "agID a" b])
      (use I e b in \<open>auto simp: s' index_maps checkExternalID_def split: if_splits\<close>)
  moreover have "unique_index has_canonical (?m(agID a \<mapsto> a)) (map_of (asByCanonicalID s'))"
    by (rule reindex_put [of has_canonical ?m "asByCanonicalID s" "agID a" b]) (use I c b in \<open>auto simp: s' index_maps\<close>)
  moreover have "unique_index has_uri (?m(agID a \<mapsto> a)) (map_of (asByClientURI s'))"
    by (rule reindex_put [of has_uri ?m "asByClientURI s" "agID a" b]) (use I u b in \<open>auto simp: s' fold_maps\<close>)
  moreover have "client_index (?m(agID a \<mapsto> a)) (client_ids s')"
  proof (rule client_index_put)
    show "client_index ?m (client_ids s)" using I by blast
    show "client_ids s' c = (if (case ?m (agID a) of None \<Rightarrow> None | Some b \<Rightarrow> agClientID b) = agClientID a then client_ids s c
       else (if (case ?m (agID a) of None \<Rightarrow> None | Some b \<Rightarrow> agClientID b) = Some c then remove1 (agID a) (client_ids s c) else client_ids s c) @ (if agClientID a = Some c then [agID a] else []))" for c
      using b by (auto simp: s' client_ids_simps)
    show "\<exists>b. ?m (agID a) = Some b \<and> agClientID b = Some c" if "agClientID a = Some c" "agID a \<in> set (client_ids s c)" for c
      using that I unfolding client_index_def by blast
  qed
  ultimately have "agent_invar s'" unfolding agent_invar_def m using I by (auto simp: s')
  with m b v show ?thesis by simp
qed

lemma agent_Delete_ok:
  assumes inv: "agent_invar s" and r: "agent_Delete i s = (d, s')"
  shows "agent_invar s' \<and> agent_abs s' = (agent_abs s)(i := None) \<and> (d \<longleftrightarrow> agent_abs s i \<noteq> None)"
proof (cases "agent_abs s i")
  case None
  with r inv show ?thesis by (auto simp: agent_Delete_def agent_abs_def fun_eq_iff)
next
  case (Some a)
  note I = inv [unfolded agent_invar_def]
  let ?m = "agent_abs s"
  from r Some have d: "d" and s': "asAgents s' = AList.delete i (asAgents s)" "asByExternalID s' = unindex_opt (agExternalID a) (asByExternalID s)"
      "asByCanonicalID s' = unindex_opt (agCanonicalID a) (asByCanonicalID s)" "asByClientURI s' = fold AList.delete (agClientURIs a) (asByClientURI s)"
      "client_ids s' = client_ids (remove_client (agClientID a) i s)"
    by (auto simp: agent_Delete_def agent_abs_def Let_def client_ids_simps fun_eq_iff)
  have m: "agent_abs s' = ?m(i := None)" by (simp add: s' agent_abs_def go_map_simps)
  have "unique_index has_external (?m(i := None)) (map_of (asByExternalID s'))"
    using unique_index_remove [of has_external ?m "map_of (asByExternalID s)" i] I Some by (simp add: s' index_maps)
  moreover have "unique_index has_canonical (?m(i := None)) (map_of (asByCanonicalID s'))"
    using unique_index_remove [of has_canonical ?m "map_of (asByCanonicalID s)" i] I Some by (simp add: s' index_maps)
  moreover have "unique_index has_uri (?m(i := None)) (map_of (asByClientURI s'))"
    using unique_index_remove [of has_uri ?m "map_of (asByClientURI s)" i] I Some by (simp add: s' fold_maps)
  moreover have "client_index (?m(i := None)) (client_ids s')"
    by (rule client_index_remove [where m = ?m and i = i, OF _ Some]) (use I in \<open>auto simp: s' client_ids_simps\<close>)
  ultimately have "agent_invar s'" unfolding agent_invar_def m using I by (auto simp: s')
  with m d Some show ?thesis by simp
qed

section \<open>The repository port\<close>

text \<open>A lookup by key that would dereference nil is \<open>None\<close>.\<close>

record 'st agent_port =
  arCreate :: "agent_id \<Rightarrow> Agent \<Rightarrow> 'st \<Rightarrow> (StorageError + Agent) \<times> 'st"
  arGet :: "agent_id \<Rightarrow> 'st \<Rightarrow> StorageError + Agent"
  arUpdate :: "Agent \<Rightarrow> 'st \<Rightarrow> StorageError option \<times> 'st"
  arDelete :: "agent_id \<Rightarrow> 'st \<Rightarrow> bool \<times> 'st"
  arList :: "'st \<Rightarrow> Agent list"
  arGetByCanonicalID :: "string \<Rightarrow> 'st \<Rightarrow> (StorageError + Agent) option"
  arGetByExternalID :: "string \<Rightarrow> 'st \<Rightarrow> (StorageError + Agent) option"
  arGetByClientID :: "string \<Rightarrow> 'st \<Rightarrow> (StorageError + Agent) option"
  arExistsOtherWithClientID :: "string \<Rightarrow> agent_id option \<Rightarrow> 'st \<Rightarrow> bool"

definition memory_agent_port :: "uri_checks \<Rightarrow> agent_store agent_port" where
  "memory_agent_port C =
     \<lparr>arCreate = agent_Create C, arGet = agent_Get, arUpdate = agent_Update C, arDelete = agent_Delete, arList = agent_List,
      arGetByCanonicalID = agent_GetByCanonicalID, arGetByExternalID = agent_GetByExternalID, arGetByClientID = agent_GetByClientID,
      arExistsOtherWithClientID = agent_ExistsOtherWithClientID\<rparr>"

definition create_id :: "agent_id \<Rightarrow> Agent \<Rightarrow> Agent" where
  "create_id newID a = (if agID a = uuid_nil then a\<lparr>agID := newID\<rparr> else a)"

locale agent_repository =
  fixes R :: "'st agent_port" and absa :: "'st \<Rightarrow> agent_id \<rightharpoonup> Agent" and invar :: "'st \<Rightarrow> bool"
  assumes ids: "invar s \<Longrightarrow> absa s i = Some a \<Longrightarrow> agID a = i"
    and one_external: "invar s \<Longrightarrow> absa s i = Some a \<Longrightarrow> absa s j = Some b \<Longrightarrow> agExternalID a = Some x \<Longrightarrow> agExternalID b = Some x \<Longrightarrow> i = j"
    and get_ok: "arGet R i s = Inr a \<longleftrightarrow> absa s i = Some a"
    and external_found: "invar s \<Longrightarrow> absa s i = Some a \<Longrightarrow> agExternalID a = Some x \<Longrightarrow> arGetByExternalID R x s = Some (Inr a)"
    and external_missing: "invar s \<Longrightarrow> \<nexists>i a. absa s i = Some a \<and> agExternalID a = Some x \<Longrightarrow>
      \<exists>e. arGetByExternalID R x s = Some (Inl e) \<and> seKind e = ErrorKindNotFound"
    and client_found: "invar s \<Longrightarrow> arGetByClientID R c s = Some (Inr a) \<Longrightarrow> \<exists>i. absa s i = Some a \<and> agClientID a = Some c"
    and client_total: "invar s \<Longrightarrow> absa s i = Some a \<Longrightarrow> agClientID a = Some c \<Longrightarrow> \<exists>b. arGetByClientID R c s = Some (Inr b)"
    and other_client: "invar s \<Longrightarrow> arExistsOtherWithClientID R c exclude s \<longleftrightarrow> (\<exists>i a. absa s i = Some a \<and> agClientID a = Some c \<and> exclude \<noteq> Some i)"
    and create_ok: "invar s \<Longrightarrow> arCreate R newID a0 s = (Inr a, s') \<Longrightarrow>
      invar s' \<and> absa s' = (absa s)(agID a \<mapsto> a) \<and> absa s (agID a) = None \<and> a = create_id newID a0"
    and create_error: "arCreate R newID a0 s = (Inl e, s') \<Longrightarrow> s' = s"
    and update_ok: "invar s \<Longrightarrow> arUpdate R a s = (None, s') \<Longrightarrow> invar s' \<and> absa s' = (absa s)(agID a \<mapsto> a) \<and> absa s (agID a) \<noteq> None"
    and update_error: "arUpdate R a s = (Some e, s') \<Longrightarrow> s' = s"
    and update_missing: "arUpdate R a s = (Some e, s') \<Longrightarrow> seKind e = ErrorKindNotFound \<Longrightarrow> absa s (agID a) = None"
    and delete_ok: "invar s \<Longrightarrow> arDelete R i s = (d, s') \<Longrightarrow> invar s' \<and> absa s' = (absa s)(i := None)"

lemma agent_client_ids:
  assumes "agent_invar s"
  shows "i \<in> set (client_ids s c) \<longleftrightarrow> (\<exists>a. agent_abs s i = Some a \<and> agClientID a = Some c)"
  using assms by (auto simp: agent_invar_def client_index_def)

lemma agent_via_ok:
  assumes idx: "unique_index has (agent_abs s) (map_of idx)"
  shows "agent_abs s i = Some a \<Longrightarrow> has a x \<Longrightarrow> agent_via op idx x s = Some (Inr a)"
    and "\<nexists>i a. agent_abs s i = Some a \<and> has a x \<Longrightarrow> agent_via op idx x s = Some (Inl (agent_missing op))"
proof -
  have k: "map_of idx x = Some j \<longleftrightarrow> (\<exists>a. agent_abs s j = Some a \<and> has a x)" for j using idx unfolding unique_index_def by blast
  show "agent_via op idx x s = Some (Inr a)" if "agent_abs s i = Some a" "has a x"
  proof -
    from that k have "map_of idx x = Some i" by blast
    with that(1) show ?thesis by (simp add: agent_via_def agent_abs_def)
  qed
  show "agent_via op idx x s = Some (Inl (agent_missing op))" if "\<nexists>i a. agent_abs s i = Some a \<and> has a x"
  proof -
    from that k have "map_of idx x = None" by (metis option.exhaust)
    then show ?thesis by (simp add: agent_via_def)
  qed
qed


interpretation mem_agents: agent_repository "memory_agent_port C" agent_abs agent_invar for C
proof
  fix s i a assume "agent_invar s" "agent_abs s i = Some a"
  then show "agID a = i" by (simp add: agent_invar_def)
next
  fix s i j a b x assume "agent_invar s" "agent_abs s i = Some a" "agent_abs s j = Some b" "agExternalID a = Some x" "agExternalID b = Some x"
  then show "i = j" unfolding agent_invar_def using unique_index_one [of has_external] by blast
next
  fix i s a show "arGet (memory_agent_port C) i s = Inr a \<longleftrightarrow> agent_abs s i = Some a"
    by (auto simp: memory_agent_port_def agent_Get_def agent_abs_def split: option.splits)
next
  fix s i a x assume "agent_invar s" "agent_abs s i = Some a" "agExternalID a = Some x"
  with agent_via_ok(1) [of has_external s "asByExternalID s" i a x] show "arGetByExternalID (memory_agent_port C) x s = Some (Inr a)"
    by (simp add: memory_agent_port_def agent_GetByExternalID_def agent_invar_def)
next
  fix s x assume "agent_invar s" "\<nexists>i a. agent_abs s i = Some a \<and> agExternalID a = Some x"
  with agent_via_ok(2) [of has_external s "asByExternalID s" x] show "\<exists>e. arGetByExternalID (memory_agent_port C) x s = Some (Inl e) \<and> seKind e = ErrorKindNotFound"
    by (simp add: memory_agent_port_def agent_GetByExternalID_def agent_invar_def agent_missing_def)
next
  fix s c a assume inv: "agent_invar s" and found: "arGetByClientID (memory_agent_port C) c s = Some (Inr a)"
  from found obtain j js where j: "client_ids s c = j # js" "map_of (asAgents s) j = Some a"
    by (auto simp: memory_agent_port_def agent_GetByClientID_def split: list.splits)
  with agent_client_ids [OF inv, of j c] show "\<exists>i. agent_abs s i = Some a \<and> agClientID a = Some c" by (auto simp: agent_abs_def)
next
  fix s i a c assume inv: "agent_invar s" and a: "agent_abs s i = Some a" "agClientID a = Some c"
  show "\<exists>b. arGetByClientID (memory_agent_port C) c s = Some (Inr b)"
  proof (cases "client_ids s c")
    case Nil
    with agent_client_ids [OF inv, of i c] a show ?thesis by simp
  next
    case (Cons j js)
    with agent_client_ids [OF inv, of j c] show ?thesis by (auto simp: memory_agent_port_def agent_GetByClientID_def agent_abs_def)
  qed
next
  fix s c exclude assume "agent_invar s"
  then show "arExistsOtherWithClientID (memory_agent_port C) c exclude s \<longleftrightarrow> (\<exists>i a. agent_abs s i = Some a \<and> agClientID a = Some c \<and> exclude \<noteq> Some i)"
    using agent_client_ids by (auto simp: memory_agent_port_def agent_ExistsOtherWithClientID_def list_ex_iff) blast+
next
  fix s newID a0 a s' assume "agent_invar s" "arCreate (memory_agent_port C) newID a0 s = (Inr a, s')"
  then show "agent_invar s' \<and> agent_abs s' = (agent_abs s)(agID a \<mapsto> a) \<and> agent_abs s (agID a) = None \<and> a = create_id newID a0"
    using agent_Create_ok by (simp add: memory_agent_port_def create_id_def)
next
  fix newID a0 s e s' assume "arCreate (memory_agent_port C) newID a0 s = (Inl e, s')"
  then show "s' = s" by (auto simp: memory_agent_port_def agent_Create_def Let_def split: if_splits option.splits)
next
  fix s a s' assume "agent_invar s" "arUpdate (memory_agent_port C) a s = (None, s')"
  then show "agent_invar s' \<and> agent_abs s' = (agent_abs s)(agID a \<mapsto> a) \<and> agent_abs s (agID a) \<noteq> None"
    using agent_Update_ok by (simp add: memory_agent_port_def)
next
  fix a s e s' assume "arUpdate (memory_agent_port C) a s = (Some e, s')"
  then show "s' = s" by (auto simp: memory_agent_port_def agent_Update_def Let_def split: if_splits option.splits)
next
  fix a s e s' assume "arUpdate (memory_agent_port C) a s = (Some e, s')" "seKind e = ErrorKindNotFound"
  then show "agent_abs s (agID a) = None"
    by (auto simp: memory_agent_port_def agent_Update_def checkExternalID_def agent_conflict_def agent_abs_def Let_def split: if_splits option.splits)
next
  fix s i d s' assume "agent_invar s" "arDelete (memory_agent_port C) i s = (d, s')"
  then show "agent_invar s' \<and> agent_abs s' = (agent_abs s)(i := None)" using agent_Delete_ok by (simp add: memory_agent_port_def)
qed

section \<open>The service\<close>

datatype agents_error = AgentStorage StorageError | ErrAmbiguousClientID | AgentsFailed string

record 'st agents_service =
  avRepo :: "'st agent_port"
  avChecks :: uri_checks
  avValidateRequirements :: "ServiceRequirement list \<Rightarrow> agents_error option"
  avPermissionSets :: "(permission_set_id list \<Rightarrow> string + PermissionSet list) option"
  avMultiAgentEnabled :: bool

definition agents_ResolveID :: "'st agents_service \<Rightarrow> string \<Rightarrow> 'st \<Rightarrow> (agents_error + agent_id) option" where
  "agents_ResolveID S v st =
     (case ucParseUUID (avChecks S) v of
        Some parsed \<Rightarrow> Some (Inr parsed)
      | None \<Rightarrow> map_option (map_sum AgentStorage agID) (arGetByCanonicalID (avRepo S) v st))"

definition validateServiceRequirementsCoverage ::
  "'st agents_service \<Rightarrow> ServiceRequirement list \<Rightarrow> AgentPermissionSetEntry list \<Rightarrow> agents_error option" where
  "validateServiceRequirementsCoverage S reqs entries =
     (if reqs = [] then None
      else case avPermissionSets S of
          None \<Rightarrow> Some (AgentStorage (StorageError ''ValidateAgent'' ErrorKindValidation ''permission set resolver is required for service coverage''))
        | Some getByIDs \<Rightarrow>
            (case getByIDs (map apPermissionSetID entries) of
               Inl _ \<Rightarrow> Some (AgentsFailed ''failed to resolve permission sets for coverage check'')
             | Inr resolved \<Rightarrow>
                 if filter (\<lambda>sr. srServiceID sr \<notin> set (map scServiceID (concat (map psServiceScopes resolved)))) reqs \<noteq> []
                 then Some (AgentStorage (StorageError ''ValidateAgent'' ErrorKindValidation ''service_requirements reference services not covered by any permission set''))
                 else None))"

definition checkClientIDUniqueness :: "'st agents_service \<Rightarrow> string \<Rightarrow> agent_id option \<Rightarrow> 'st \<Rightarrow> agents_error option" where
  "checkClientIDUniqueness S c exclude st =
     (if arExistsOtherWithClientID (avRepo S) c exclude st
      then Some (AgentStorage (agent_conflict ''checkClientIDUniqueness'' ''agent with this client_id already exists'')) else None)"

text \<open>The checks that creation and update share, after the checks of the fields.\<close>

definition agent_checks :: "'st agents_service \<Rightarrow> Agent \<Rightarrow> agent_id option \<Rightarrow> 'st \<Rightarrow> agents_error option" where
  "agent_checks S a exclude st =
     (case validateServiceRequirementsCoverage S (agServiceRequirements a) (agPermissionSets a) of
        Some e \<Rightarrow> Some e
      | None \<Rightarrow>
          (case avValidateRequirements S (agServiceRequirements a) of
             Some e \<Rightarrow> Some e
           | None \<Rightarrow>
               (case (if avMultiAgentEnabled S then None else agClientID a) of
                  None \<Rightarrow> None
                | Some c \<Rightarrow> checkClientIDUniqueness S c exclude st)))"

definition agents_Create :: "'st agents_service \<Rightarrow> agent_id \<Rightarrow> Agent \<Rightarrow> 'st \<Rightarrow> (agents_error + Agent) \<times> 'st" where
  "agents_Create S newID a0 st =
     (let a = create_id newID a0
      in if Agent_validateFields (avChecks S) a \<noteq> None then (Inl (AgentStorage (StorageError ''Create'' ErrorKindValidation ''invalid agent'')), st)
         else case agent_checks S a None st of
             Some e \<Rightarrow> (Inl e, st)
           | None \<Rightarrow> (case arCreate (avRepo S) newID a st of (r, st') \<Rightarrow> (map_sum AgentStorage id r, st')))"

record UpdateInput =
  uiClearClientID :: bool
  uiCanonicalIDPresent :: bool

text \<open>The description to store: identity and creation time are kept, an omitted canonical or client identifier too.\<close>

definition merged :: "Agent \<Rightarrow> Agent \<Rightarrow> UpdateInput \<Rightarrow> Agent" where
  "merged existing desired input =
     (let a1 = desired\<lparr>agID := agID existing\<rparr>;
          a2 = (if agCanonicalID a1 = None \<and> \<not> uiCanonicalIDPresent input then a1\<lparr>agCanonicalID := agCanonicalID existing\<rparr> else a1);
          a3 = a2\<lparr>agCreatedAt := agCreatedAt existing\<rparr>
      in if uiClearClientID input then a3\<lparr>agClientID := None\<rparr>
         else if agClientID a3 = None then a3\<lparr>agClientID := agClientID existing\<rparr> else a3)"

definition updateCandidate :: "'st agents_service \<Rightarrow> Agent \<Rightarrow> Agent \<Rightarrow> UpdateInput \<Rightarrow> 'st \<Rightarrow> agents_error + Agent" where
  "updateCandidate S existing desired input st =
     (let a = merged existing desired input
      in if Agent_Validate (avChecks S) a \<noteq> None then Inl (AgentStorage (StorageError ''Update'' ErrorKindValidation ''invalid agent''))
         else case agent_checks S a (Some (agID existing)) st of Some e \<Rightarrow> Inl e | None \<Rightarrow> Inr a)"

definition persistUpdate :: "'st agents_service \<Rightarrow> Agent \<Rightarrow> 'st \<Rightarrow> agents_error option \<times> 'st" where
  "persistUpdate S a st = (case arUpdate (avRepo S) a st of (e, st') \<Rightarrow> (map_option AgentStorage e, st'))"

definition agents_Update :: "'st agents_service \<Rightarrow> agent_id \<Rightarrow> Agent \<Rightarrow> UpdateInput \<Rightarrow> 'st \<Rightarrow> (agents_error + Agent) \<times> 'st" where
  "agents_Update S i desired input st =
     (case arGet (avRepo S) i st of
        Inl e \<Rightarrow> (Inl (AgentStorage e), st)
      | Inr existing \<Rightarrow>
          (case updateCandidate S existing desired input st of
             Inl e \<Rightarrow> (Inl e, st)
           | Inr a \<Rightarrow> (case persistUpdate S a st of (None, st') \<Rightarrow> (Inr a, st') | (Some e, st') \<Rightarrow> (Inl e, st'))))"

definition ResolveUniqueByClientID :: "'st agents_service \<Rightarrow> string \<Rightarrow> 'st \<Rightarrow> (agents_error + Agent) option" where
  "ResolveUniqueByClientID S c st =
     (case arGetByClientID (avRepo S) c st of
        None \<Rightarrow> None
      | Some (Inl e) \<Rightarrow> Some (Inl (AgentStorage e))
      | Some (Inr a) \<Rightarrow> Some (if arExistsOtherWithClientID (avRepo S) c (Some (agID a)) st then Inl ErrAmbiguousClientID else Inr a))"

definition agents_Delete :: "'st agents_service \<Rightarrow> agent_id \<Rightarrow> 'st \<Rightarrow> 'st" where
  "agents_Delete S i st = snd (arDelete (avRepo S) i st)"

definition invalidExternalID :: "string \<Rightarrow> agents_error" where
  "invalidExternalID msg = AgentStorage (StorageError ''ValidateExternalID'' ErrorKindValidation msg)"

definition ListByExternalID :: "'st agents_service \<Rightarrow> string \<Rightarrow> 'st \<Rightarrow> (agents_error + Agent list) option" where
  "ListByExternalID S x st =
     (case ValidateExternalID x of
        Some e \<Rightarrow> Some (Inl (invalidExternalID e))
      | None \<Rightarrow>
          map_option (\<lambda>r. case r of
              Inl e \<Rightarrow> if seKind e = ErrorKindNotFound then Inr [] else Inl (AgentStorage e)
            | Inr a \<Rightarrow> Inr [a]) (arGetByExternalID (avRepo S) x st))"

section \<open>Reconciliation\<close>

record ReconcileInput =
  riCanonicalIDPresent :: bool
  riExternalIDPresent :: bool
  riExternalIDNull :: bool

datatype ReconcileOutcome = ReconcileCreated | ReconcileUpdated | ReconcileUnchanged

definition sameDefinition :: "Agent \<Rightarrow> Agent \<Rightarrow> bool" where
  "sameDefinition a b \<longleftrightarrow>
     agCanonicalID a = agCanonicalID b \<and> agClientID a = agClientID b \<and> agExternalID a = agExternalID b \<and>
     agDisplayName a = agDisplayName b \<and> agDescription a = agDescription b \<and> agGovernanceURL a = agGovernanceURL b \<and>
     agUserDocumentationURL a = agUserDocumentationURL b \<and> agAgentInterfaceURL a = agAgentInterfaceURL b \<and>
     agPermissionSets a = agPermissionSets b \<and> agRedirectURIs a = agRedirectURIs b \<and> agAllowedScopes a = agAllowedScopes b \<and>
     agServiceRequirements a = agServiceRequirements b \<and> sort (agClientURIs a) = sort (agClientURIs b)"

datatype reconcile_error = AgentRemoved | ReconcileFailed agents_error

definition reconcileExisting ::
  "'st agents_service \<Rightarrow> time \<Rightarrow> Agent \<Rightarrow> Agent \<Rightarrow> string \<Rightarrow> ReconcileInput \<Rightarrow> 'st \<Rightarrow> (reconcile_error + Agent \<times> ReconcileOutcome) \<times> 'st" where
  "reconcileExisting S now existing desired selector input st =
     (case updateCandidate S existing (desired\<lparr>agExternalID := Some selector\<rparr>)
            \<lparr>uiClearClientID = False, uiCanonicalIDPresent = riCanonicalIDPresent input\<rparr> st of
        Inl e \<Rightarrow> (Inl (ReconcileFailed e), st)
      | Inr candidate \<Rightarrow>
          if sameDefinition existing candidate then (Inr (existing, ReconcileUnchanged), st)
          else let candidate' = candidate\<lparr>agUpdatedAt := now\<rparr>
               in case persistUpdate S candidate' st of
                    (None, st') \<Rightarrow> (Inr (candidate', ReconcileUpdated), st')
                  | (Some e, st') \<Rightarrow>
                      (Inl (case e of AgentStorage se \<Rightarrow> if seKind se = ErrorKindNotFound then AgentRemoved else ReconcileFailed e
                            | _ \<Rightarrow> ReconcileFailed e), st'))"

definition reconcileNew ::
  "'st agents_service \<Rightarrow> agent_id \<Rightarrow> time \<Rightarrow> Agent \<Rightarrow> string \<Rightarrow> ReconcileInput \<Rightarrow> 'st \<Rightarrow>
    (agents_error + Agent \<times> ReconcileOutcome) option \<times> 'st" where
  "reconcileNew S newID now desired selector input st =
     (let candidate = desired\<lparr>agID := newID, agExternalID := Some selector, agCreatedAt := now, agUpdatedAt := now\<rparr>
      in case agents_Create S newID candidate st of
           (Inr a, st') \<Rightarrow> (Some (Inr (a, ReconcileCreated)), st')
         | (Inl e, st') \<Rightarrow>
             if \<not> (case e of AgentStorage se \<Rightarrow> seKind se = ErrorKindConflict | _ \<Rightarrow> False) then (Some (Inl e), st')
             else (case arGetByExternalID (avRepo S) selector st' of
                     None \<Rightarrow> (None, st')
                   | Some (Inl le) \<Rightarrow> (Some (Inl (if seKind le = ErrorKindNotFound then e else AgentStorage le)), st')
                   | Some (Inr holder) \<Rightarrow>
                       (case reconcileExisting S now holder desired selector input st' of
                          (Inr r, st2) \<Rightarrow> (Some (Inr r), st2)
                        | (Inl AgentRemoved, st2) \<Rightarrow> (Some (Inl e), st2)
                        | (Inl (ReconcileFailed e2), st2) \<Rightarrow> (Some (Inl e2), st2))))"

definition ReconcileByExternalID ::
  "'st agents_service \<Rightarrow> agent_id \<Rightarrow> time \<Rightarrow> string \<Rightarrow> Agent \<Rightarrow> ReconcileInput \<Rightarrow> 'st \<Rightarrow>
    (agents_error + Agent \<times> ReconcileOutcome) option \<times> 'st" where
  "ReconcileByExternalID S newID now selector desired input st =
     (case ValidateExternalID selector of
        Some e \<Rightarrow> (Some (Inl (invalidExternalID e)), st)
      | None \<Rightarrow>
          if riExternalIDNull input then (Some (Inl (invalidExternalID ''external_id must not be null'')), st)
          else if riExternalIDPresent input \<and> agExternalID desired \<noteq> Some selector
          then (Some (Inl (invalidExternalID ''body external_id must equal the selector'')), st)
          else (case arGetByExternalID (avRepo S) selector st of
                  None \<Rightarrow> (None, st)
                | Some (Inl e) \<Rightarrow>
                    if seKind e = ErrorKindNotFound then reconcileNew S newID now desired selector input st
                    else (Some (Inl (AgentStorage e)), st)
                | Some (Inr existing) \<Rightarrow>
                    (case reconcileExisting S now existing desired selector input st of
                       (Inl AgentRemoved, st') \<Rightarrow> reconcileNew S newID now desired selector input st'
                     | (Inl (ReconcileFailed e), st') \<Rightarrow> (Some (Inl e), st')
                     | (Inr r, st') \<Rightarrow> (Some (Inr r), st'))))"

section \<open>What the service keeps\<close>

definition one_per_client :: "(agent_id \<rightharpoonup> Agent) \<Rightarrow> bool" where
  "one_per_client m \<longleftrightarrow> (\<forall>i j a b c. m i = Some a \<longrightarrow> m j = Some b \<longrightarrow> agClientID a = Some c \<longrightarrow> agClientID b = Some c \<longrightarrow> i = j)"

lemma one_per_client_put:
  assumes "one_per_client m" and "\<And>c j b. agClientID a = Some c \<Longrightarrow> m j = Some b \<Longrightarrow> agClientID b = Some c \<Longrightarrow> j = i"
  shows "one_per_client (m(i \<mapsto> a))"
proof -
  have "j = k" if "(m(i \<mapsto> a)) j = Some b" "(m(i \<mapsto> a)) k = Some b'" "agClientID b = Some c" "agClientID b' = Some c" for j k b b' c
    using that assms unfolding one_per_client_def by (cases "j = i"; cases "k = i") auto
  then show ?thesis unfolding one_per_client_def by blast
qed

lemma one_per_client_remove: "one_per_client m \<Longrightarrow> one_per_client (m(i := None))"
  unfolding one_per_client_def by auto

datatype agent_call =
  CreateAgent agent_id Agent
| UpdateAgent agent_id Agent UpdateInput
| DeleteAgent agent_id
| ReconcileAgent agent_id time string Agent ReconcileInput

fun agent_exec :: "'st agents_service \<Rightarrow> agent_call \<Rightarrow> 'st \<Rightarrow> 'st" where
  "agent_exec S (CreateAgent newID a) st = snd (agents_Create S newID a st)"
| "agent_exec S (UpdateAgent i a input) st = snd (agents_Update S i a input st)"
| "agent_exec S (DeleteAgent i) st = agents_Delete S i st"
| "agent_exec S (ReconcileAgent newID now x a input) st = snd (ReconcileByExternalID S newID now x a input st)"

lemma agents_Create_success:
  "agents_Create S newID a0 st = (Inr a, st') \<longleftrightarrow>
     Agent_validateFields (avChecks S) (create_id newID a0) = None \<and> agent_checks S (create_id newID a0) None st = None \<and>
     arCreate (avRepo S) newID (create_id newID a0) st = (Inr a, st')"
  by (auto simp: agents_Create_def Let_def map_sum_def split: option.splits prod.splits sum.splits)

lemma updateCandidate_merged:
  "updateCandidate S e d input st = Inr a \<longleftrightarrow>
    a = merged e d input \<and> Agent_Validate (avChecks S) a = None \<and> agent_checks S a (Some (agID e)) st = None"
  unfolding updateCandidate_def Let_def by (auto split: option.splits)

lemma merged_id [simp]: "agID (merged e d input) = agID e" "agExternalID (merged e d input) = agExternalID d"
  by (simp_all add: merged_def Let_def)

lemma updateCandidate_checks:
  "updateCandidate S e desired input st = Inr a \<Longrightarrow>
    agent_checks S a (Some (agID e)) st = None \<and> agID a = agID e \<and> Agent_Validate (avChecks S) a = None"
  unfolding updateCandidate_merged by auto

lemma persistUpdate_success: "persistUpdate S a st = (None, st') \<longleftrightarrow> arUpdate (avRepo S) a st = (None, st')"
  by (auto simp: persistUpdate_def split: prod.splits)

lemma agents_Update_success:
  "agents_Update S i desired input st = (Inr a, st') \<Longrightarrow>
    \<exists>e. arGet (avRepo S) i st = Inr e \<and> updateCandidate S e desired input st = Inr a \<and> arUpdate (avRepo S) a st = (None, st')"
  by (auto simp: agents_Update_def persistUpdate_success split: sum.splits prod.splits option.splits)

lemma agent_checks_client:
  "agent_checks S a exclude st = None \<Longrightarrow> \<not> avMultiAgentEnabled S \<Longrightarrow> agClientID a = Some c \<Longrightarrow>
    \<not> arExistsOtherWithClientID (avRepo S) c exclude st"
  by (auto simp: agent_checks_def checkClientIDUniqueness_def split: option.splits if_splits)

lemma reconcileExisting_success:
  "reconcileExisting S now e desired x input st = (Inr (a, out), st') \<Longrightarrow>
    \<exists>cand. updateCandidate S e (desired\<lparr>agExternalID := Some x\<rparr>) \<lparr>uiClearClientID = False, uiCanonicalIDPresent = riCanonicalIDPresent input\<rparr> st = Inr cand \<and>
      (sameDefinition e cand \<and> out = ReconcileUnchanged \<and> a = e \<and> st' = st \<or>
       out = ReconcileUpdated \<and> a = cand\<lparr>agUpdatedAt := now\<rparr> \<and> arUpdate (avRepo S) a st = (None, st'))"
  by (auto simp: reconcileExisting_def persistUpdate_success Let_def split: sum.splits prod.splits option.splits if_splits)

definition reconcile_guard :: "string \<Rightarrow> Agent \<Rightarrow> ReconcileInput \<Rightarrow> bool" where
  "reconcile_guard x desired input \<longleftrightarrow>
     ValidateExternalID x = None \<and> \<not> riExternalIDNull input \<and> (riExternalIDPresent input \<longrightarrow> agExternalID desired = Some x)"

definition new_candidate :: "agent_id \<Rightarrow> time \<Rightarrow> string \<Rightarrow> Agent \<Rightarrow> Agent" where
  "new_candidate newID now x desired = desired\<lparr>agID := newID, agExternalID := Some x, agCreatedAt := now, agUpdatedAt := now\<rparr>"

context agent_repository
begin

lemma create_fails: "avRepo S = R \<Longrightarrow> agents_Create S newID a0 st = (Inl e, st') \<Longrightarrow> st' = st"
  using create_error by (auto simp: agents_Create_def Let_def map_sum_def split: option.splits prod.splits sum.splits if_splits)

lemma persist_fails: "avRepo S = R \<Longrightarrow> persistUpdate S a st = (Some e, st') \<Longrightarrow> st' = st"
  using update_error by (auto simp: persistUpdate_def split: prod.splits)

lemma update_fails: "avRepo S = R \<Longrightarrow> agents_Update S i a input st = (Inl e, st') \<Longrightarrow> st' = st"
  using persist_fails by (auto simp: agents_Update_def split: sum.splits prod.splits option.splits)

lemma existing_fails: "avRepo S = R \<Longrightarrow> reconcileExisting S now e desired x input st = (Inl er, st') \<Longrightarrow> st' = st"
  using persist_fails by (auto simp: reconcileExisting_def Let_def split: sum.splits prod.splits option.splits if_splits)

lemma existing_present:
  assumes "avRepo S = R" "invar st" "absa st i = Some e" "reconcileExisting S now e desired x input st = (Inl er, st')"
  shows "er \<noteq> AgentRemoved"
proof
  assume "er = AgentRemoved"
  with assms(1,4) obtain cand where c: "updateCandidate S e (desired\<lparr>agExternalID := Some x\<rparr>) \<lparr>uiClearClientID = False, uiCanonicalIDPresent = riCanonicalIDPresent input\<rparr> st = Inr cand"
      and "\<exists>se. arUpdate R (cand\<lparr>agUpdatedAt := now\<rparr>) st = (Some se, st') \<and> seKind se = ErrorKindNotFound"
    by (auto simp: reconcileExisting_def persistUpdate_def Let_def split: sum.splits prod.splits option.splits if_splits agents_error.splits)
  then have "absa st (agID cand) = None" using update_missing by fastforce
  with updateCandidate_checks [OF c] ids [OF assms(2,3)] assms(3) show False by simp
qed

lemma holder_dec:
  assumes "invar st"
  obtains (holder) i e where "absa st i = Some e" "agExternalID e = Some x" "arGetByExternalID R x st = Some (Inr e)"
  | (free) er where "\<nexists>i e. absa st i = Some e \<and> agExternalID e = Some x" "arGetByExternalID R x st = Some (Inl er)" "seKind er = ErrorKindNotFound"
  using external_found [OF assms] external_missing [OF assms, of x] by metis

lemma new_outcome:
  assumes S: "avRepo S = R" and inv: "invar st" and free: "\<nexists>i e. absa st i = Some e \<and> agExternalID e = Some x"
    and r: "reconcileNew S newID now desired x input st = (res, st')"
  shows "(\<exists>a. res = Some (Inr (a, ReconcileCreated)) \<and> agents_Create S newID (new_candidate newID now x desired) st = (Inr a, st')) \<or>
    (\<exists>e. res = Some (Inl e)) \<and> st' = st"
proof -
  obtain er where er: "arGetByExternalID R x st = Some (Inl er)" "seKind er = ErrorKindNotFound" using external_missing [OF inv free] by blast
  show ?thesis
  proof (cases "agents_Create S newID (new_candidate newID now x desired) st")
    case (Pair c st2)
    show ?thesis
    proof (cases c)
      case (Inl e)
      with create_fails [OF S] Pair have st2: "st2 = st" by blast
      from r show ?thesis using Pair Inl er S unfolding st2 by (auto simp: reconcileNew_def new_candidate_def Let_def split: if_splits)
    next
      case (Inr a)
      with r Pair show ?thesis by (auto simp: reconcileNew_def new_candidate_def Let_def)
    qed
  qed
qed

lemma reconcile_outcome:
  assumes S: "avRepo S = R" and inv: "invar st" and r: "ReconcileByExternalID S newID now x desired input st = (res, st')"
  obtains (failed) e where "res = Some (Inl e)" "st' = st"
  | (existing) i e a out where "reconcile_guard x desired input" "absa st i = Some e" "agExternalID e = Some x"
      "reconcileExisting S now e desired x input st = (Inr (a, out), st')" "res = Some (Inr (a, out))"
  | (created) a where "reconcile_guard x desired input" "\<nexists>i e. absa st i = Some e \<and> agExternalID e = Some x"
      "agents_Create S newID (new_candidate newID now x desired) st = (Inr a, st')" "res = Some (Inr (a, ReconcileCreated))"
proof (cases "reconcile_guard x desired input")
  case False
  with r have "\<exists>e. res = Some (Inl e) \<and> st' = st" by (auto simp: ReconcileByExternalID_def reconcile_guard_def split: option.splits if_splits)
  with failed show ?thesis by blast
next
  case True
  note g = True [unfolded reconcile_guard_def]
  from inv show ?thesis
  proof (cases rule: holder_dec [where x = x])
    case (holder i e)
    show ?thesis
    proof (cases "reconcileExisting S now e desired x input st")
      case (Pair q st2)
      show ?thesis
      proof (cases q)
        case (Inl er)
        from Inl Pair existing_present [OF S inv holder(1)] obtain f where "er = ReconcileFailed f" by (cases er) blast+
        moreover from Inl Pair existing_fails [OF S] have "st2 = st" by blast
        ultimately show ?thesis using r g Pair Inl holder(3) S failed by (auto simp: ReconcileByExternalID_def)
      next
        case (Inr q')
        with r g Pair holder(3) S have "res = Some (Inr q')" "st' = st2" by (auto simp: ReconcileByExternalID_def)
        with Inr Pair holder(1,2) existing [OF True] show ?thesis by (cases q') blast
      qed
    qed
  next
    case (free er)
    with r g S have "reconcileNew S newID now desired x input st = (res, st')" by (auto simp: ReconcileByExternalID_def)
    from new_outcome [OF S inv free(1) this] True free(1) failed created show ?thesis by blast
  qed
qed

end

lemma create_id_twice [simp]: "create_id n (create_id n a) = create_id n a" by (simp add: create_id_def)

lemma validateFields_times [simp]: "Agent_validateFields C (a\<lparr>agUpdatedAt := t\<rparr>) = Agent_validateFields C a"
  by (cases a) (simp only: Agent_validateFields_def ValidateServiceRequirements_def ValidatePermissionSets_def Agent.update_convs Agent.select_convs)

context agent_repository
begin

lemma created_store:
  assumes S: "avRepo S = R" and inv: "invar st" and r: "agents_Create S newID a0 st = (Inr a, st')"
  shows "invar st'" "absa st' = (absa st)(agID a \<mapsto> a)" "a = create_id newID a0" "absa st (agID a) = None"
    and "agent_checks S a None st = None" "Agent_validateFields (avChecks S) a = None"
  using r [unfolded agents_Create_success S] create_ok [OF inv, of newID "create_id newID a0" a st'] by auto

lemma updated_store:
  assumes S: "avRepo S = R" and inv: "invar st" and c: "updateCandidate S e desired input st = Inr cand" and r: "arUpdate R (cand\<lparr>agUpdatedAt := t\<rparr>) st = (None, st')"
  shows "invar st'" "absa st' = (absa st)(agID e \<mapsto> cand\<lparr>agUpdatedAt := t\<rparr>)" "agent_checks S cand (Some (agID e)) st = None"
  using update_ok [OF inv r] updateCandidate_checks [OF c] by auto

lemma client_free:
  assumes "avRepo S = R" "invar st" "\<not> avMultiAgentEnabled S" "agent_checks S a exclude st = None" "agClientID a = Some c"
    "absa st j = Some b" "agClientID b = Some c"
  shows "exclude = Some j"
  using agent_checks_client [OF assms(4,3,5)] other_client [OF assms(2), of c exclude] assms(1,6,7) by auto

lemma kept_by_update:
  assumes S: "avRepo S = R" and inv: "invar st"
    and c: "updateCandidate S e desired input st = Inr cand" and r: "arUpdate R (cand\<lparr>agUpdatedAt := t\<rparr>) st = (None, st')"
  shows "invar st' \<and> (\<not> avMultiAgentEnabled S \<longrightarrow> one_per_client (absa st) \<longrightarrow> one_per_client (absa st'))"
proof (intro conjI impI)
  note u = updated_store [OF S inv c r]
  show "invar st'" by (rule u(1))
  assume single: "\<not> avMultiAgentEnabled S" and one: "one_per_client (absa st)"
  show "one_per_client (absa st')" unfolding u(2)
  proof (rule one_per_client_put [OF one])
    fix k j b assume "agClientID (cand\<lparr>agUpdatedAt := t\<rparr>) = Some k" "absa st j = Some b" "agClientID b = Some k"
    with client_free [OF S inv single u(3), of k j b] show "j = agID e" by simp
  qed
qed

lemma kept_by_create:
  assumes S: "avRepo S = R" and inv: "invar st" and r: "agents_Create S newID a0 st = (Inr a, st')"
  shows "invar st' \<and> (\<not> avMultiAgentEnabled S \<longrightarrow> one_per_client (absa st) \<longrightarrow> one_per_client (absa st'))"
proof (intro conjI impI)
  note u = created_store [OF S inv r]
  show "invar st'" by (rule u(1))
  assume single: "\<not> avMultiAgentEnabled S" and one: "one_per_client (absa st)"
  show "one_per_client (absa st')" unfolding u(2)
    by (rule one_per_client_put [OF one]) (use client_free [OF S inv single u(5)] in blast)
qed

lemma exec_keeps:
  assumes S: "avRepo S = R" and inv: "invar st" and st': "agent_exec S call st = st'"
  shows "invar st' \<and> (\<not> avMultiAgentEnabled S \<longrightarrow> one_per_client (absa st) \<longrightarrow> one_per_client (absa st'))"
proof (cases call)
  case (CreateAgent newID a)
  show ?thesis
  proof (cases "fst (agents_Create S newID a st)")
    case (Inl e)
    with create_fails [OF S, of newID a st e st'] CreateAgent st' inv show ?thesis by (auto simp: prod_eq_iff)
  next
    case (Inr b)
    with kept_by_create [OF S inv, of newID a b st'] CreateAgent st' show ?thesis by (auto simp: prod_eq_iff)
  qed
next
  case (UpdateAgent i a input)
  show ?thesis
  proof (cases "fst (agents_Update S i a input st)")
    case (Inl e)
    with update_fails [OF S, of i a input st e st'] UpdateAgent st' inv show ?thesis by (auto simp: prod_eq_iff)
  next
    case (Inr b)
    then have "agents_Update S i a input st = (Inr b, st')" using UpdateAgent st' by (auto simp: prod_eq_iff)
    from agents_Update_success [OF this] S obtain e where c: "updateCandidate S e a input st = Inr b" and u: "arUpdate R b st = (None, st')" by auto
    have "b\<lparr>agUpdatedAt := agUpdatedAt b\<rparr> = b" by simp
    with kept_by_update [OF S inv c, of "agUpdatedAt b" st'] u show ?thesis by simp
  qed
next
  case (DeleteAgent i)
  with delete_ok [OF inv, of i "fst (arDelete R i st)" st'] st' S one_per_client_remove show ?thesis
    by (auto simp: agents_Delete_def prod_eq_iff)
next
  case (ReconcileAgent newID now x a input)
  obtain res where "ReconcileByExternalID S newID now x a input st = (res, st')" using ReconcileAgent st' by (auto simp: prod_eq_iff)
  with S inv show ?thesis
  proof (cases rule: reconcile_outcome)
    case failed
    with inv show ?thesis by simp
  next
    case (existing i e b out)
    from reconcileExisting_success [OF existing(4)] S inv kept_by_update [OF S inv] show ?thesis by blast
  next
    case (created b)
    from kept_by_create [OF S inv created(3)] show ?thesis .
  qed
qed

lemma calls_keep:
  assumes S: "avRepo S = R" and inv: "invar st" and st': "fold (agent_exec S) calls st = st'"
  shows "invar st' \<and> (\<not> avMultiAgentEnabled S \<longrightarrow> one_per_client (absa st) \<longrightarrow> one_per_client (absa st'))"
  using inv st'
proof (induction calls arbitrary: st)
  case (Cons call calls)
  from exec_keeps [OF S Cons.prems(1) refl, of call] Cons.IH [of "agent_exec S call st"] Cons.prems(2) show ?case by simp
qed simp

lemma resolved:
  assumes S: "avRepo S = R" and inv: "invar st" "one_per_client (absa st)" and a: "absa st i = Some a" "agClientID a = Some c"
  shows "ResolveUniqueByClientID S c st = Some (Inr a)"
proof -
  obtain b where b: "arGetByClientID R c st = Some (Inr b)" using client_total [OF inv(1) a] by blast
  then obtain j where j: "absa st j = Some b" "agClientID b = Some c" using client_found [OF inv(1)] by blast
  with a inv(2) have "j = i" unfolding one_per_client_def by blast
  with j(1) a(1) have ab: "b = a" by simp
  have "\<not> arExistsOtherWithClientID R c (Some (agID a)) st"
    using other_client [OF inv(1)] inv(2) a ids [OF inv(1) a(1)] unfolding one_per_client_def by blast
  with b ab S show ?thesis by (simp add: ResolveUniqueByClientID_def)
qed

end

section \<open>Reconciliation settles\<close>

lemma merged_again [simp]: "merged ((merged e d input)\<lparr>agUpdatedAt := t\<rparr>) d input = merged e d input"
  by (cases d) (auto simp: merged_def Let_def)

lemma merged_new:
  "merged (new_candidate newID now x desired) (desired\<lparr>agExternalID := Some x\<rparr>) \<lparr>uiClearClientID = False, uiCanonicalIDPresent = p\<rparr> =
     (new_candidate newID now x desired)\<lparr>agUpdatedAt := agUpdatedAt desired\<rparr>"
  by (cases desired) (simp add: merged_def new_candidate_def Let_def)

lemma same_times [simp]: "sameDefinition (a\<lparr>agUpdatedAt := t\<rparr>) a" "sameDefinition a (a\<lparr>agUpdatedAt := t\<rparr>)"
  by (simp_all add: sameDefinition_def)

lemma agent_checks_iff:
  "agent_checks S a exclude st = None \<longleftrightarrow>
     validateServiceRequirementsCoverage S (agServiceRequirements a) (agPermissionSets a) = None \<and>
     avValidateRequirements S (agServiceRequirements a) = None \<and>
     (\<not> avMultiAgentEnabled S \<longrightarrow> (\<forall>c. agClientID a = Some c \<longrightarrow> \<not> arExistsOtherWithClientID (avRepo S) c exclude st))"
  by (auto simp: agent_checks_def checkClientIDUniqueness_def split: option.splits)

lemma Agent_Validate_iff: "Agent_Validate C a = None \<longleftrightarrow> agID a \<noteq> uuid_nil \<and> Agent_validateFields C a = None"
  by (simp add: Agent_Validate_def)

lemma existing_unchanged:
  assumes m: "m = merged e (desired\<lparr>agExternalID := Some x\<rparr>) \<lparr>uiClearClientID = False, uiCanonicalIDPresent = riCanonicalIDPresent input\<rparr>"
    and ok: "Agent_Validate (avChecks S) m = None" "agent_checks S m (Some (agID e)) st = None" "sameDefinition e m"
  shows "reconcileExisting S now e desired x input st = (Inr (e, ReconcileUnchanged), st)"
proof -
  from m ok(1,2) have "updateCandidate S e (desired\<lparr>agExternalID := Some x\<rparr>) \<lparr>uiClearClientID = False, uiCanonicalIDPresent = riCanonicalIDPresent input\<rparr> st = Inr m"
    unfolding updateCandidate_merged by blast
  with ok(3) show ?thesis by (simp add: reconcileExisting_def)
qed

context agent_repository
begin

lemma checks_after:
  assumes S: "avRepo S = R" and inv: "invar st" "invar st'" and st': "absa st' = (absa st)(i \<mapsto> b)"
    and c: "agent_checks S a exclude st = None" and ex: "exclude = None \<or> exclude = Some i"
  shows "agent_checks S (a\<lparr>agUpdatedAt := t\<rparr>) (Some i) st' = None"
proof -
  have "\<not> arExistsOtherWithClientID R k (Some i) st'" if k: "\<not> arExistsOtherWithClientID R k exclude st" for k
    using k ex unfolding other_client [OF inv(1)] other_client [OF inv(2)] st' by auto
  with c S show ?thesis by (simp add: agent_checks_iff)
qed

lemma found_again:
  assumes S: "avRepo S = R" and inv: "invar st" and a: "absa st i = Some a" "agExternalID a = Some x" and g: "reconcile_guard x desired input"
    and r: "reconcileExisting S now a desired x input st = (Inr out, st')"
  shows "ReconcileByExternalID S newID now x desired input st = (Some (Inr out), st')"
  using external_found [OF inv a] g r S by (auto simp: ReconcileByExternalID_def reconcile_guard_def)

lemma reconcile_settles:
  assumes S: "avRepo S = R" and inv: "invar st" and n: "newID \<noteq> uuid_nil"
    and r: "ReconcileByExternalID S newID now x desired input st = (Some (Inr (a, out)), st')"
  shows "ReconcileByExternalID S newID' now' x desired input st' = (Some (Inr (a, ReconcileUnchanged)), st')"
  using S inv r
proof (cases rule: reconcile_outcome)
  case (existing i e b out')
  let ?d = "desired\<lparr>agExternalID := Some x\<rparr>" and ?in = "\<lparr>uiClearClientID = False, uiCanonicalIDPresent = riCanonicalIDPresent input\<rparr>"
  from existing(5) have b: "b = a" by simp
  from reconcileExisting_success [OF existing(4)] S obtain cand where c: "updateCandidate S e ?d ?in st = Inr cand"
    and u: "sameDefinition e cand \<and> b = e \<and> st' = st \<or> b = cand\<lparr>agUpdatedAt := now\<rparr> \<and> arUpdate R b st = (None, st')" by blast
  note m = c [unfolded updateCandidate_merged]
  note e = ids [OF inv existing(2)]
  from u show ?thesis
  proof (elim disjE conjE)
    assume u: "sameDefinition e cand" "b = e" "st' = st"
    with m existing_unchanged [of cand e x desired input S st now'] have "reconcileExisting S now' e desired x input st = (Inr (e, ReconcileUnchanged), st)" by blast
    from found_again [OF S inv existing(2,3,1) this] u b show ?thesis by simp
  next
    assume u: "b = cand\<lparr>agUpdatedAt := now\<rparr>" "arUpdate R b st = (None, st')"
    note us = updated_store [OF S inv c u(2) [unfolded u(1)]]
    have ib: "agID b = i" and xb: "agExternalID b = Some x" using u(1) m e by auto
    have mb: "merged b ?d ?in = cand" using u(1) m by simp
    have ck: "agent_checks S (cand\<lparr>agUpdatedAt := agUpdatedAt cand\<rparr>) (Some i) st' = None"
      by (rule checks_after [OF S inv us(1) _ us(3)]) (use us(2) u(1) e in auto)
    have "reconcileExisting S now' b desired x input st' = (Inr (b, ReconcileUnchanged), st')"
    proof (rule existing_unchanged [OF mb [symmetric]])
      show "Agent_Validate (avChecks S) cand = None" using m by blast
      show "agent_checks S cand (Some (agID b)) st' = None" using ck ib by simp
      show "sameDefinition b cand" using u(1) by simp
    qed
    from found_again [OF S us(1) _ xb existing(1) this, of i] us(2) u(1) e b show ?thesis by simp
  qed
next
  case (created b)
  let ?d = "desired\<lparr>agExternalID := Some x\<rparr>" and ?in = "\<lparr>uiClearClientID = False, uiCanonicalIDPresent = riCanonicalIDPresent input\<rparr>"
  note us = created_store [OF S inv created(3)]
  from created(4) have b: "b = a" by simp
  have bn: "b = new_candidate newID now x desired" using us(3) n by (simp add: create_id_def new_candidate_def)
  have ib: "agID b = newID" and xb: "agExternalID b = Some x" using bn by (auto simp: new_candidate_def)
  have mb: "merged b ?d ?in = b\<lparr>agUpdatedAt := agUpdatedAt desired\<rparr>" unfolding bn by (rule merged_new)
  have "agent_checks S (b\<lparr>agUpdatedAt := agUpdatedAt desired\<rparr>) (Some (agID b)) st' = None"
    by (rule checks_after [OF S inv us(1) us(2) us(5)]) simp
  with existing_unchanged [OF mb [symmetric], of S st' now'] us(6) ib n
  have "reconcileExisting S now' b desired x input st' = (Inr (b, ReconcileUnchanged), st')" by (simp add: Agent_Validate_iff)
  from found_again [OF S us(1) _ xb created(1) this, of "agID b"] us(2) b show ?thesis by simp
qed simp

end

section \<open>Theorems\<close>

text \<open>
  C14. Reconciling an agent by its external identifier is idempotent: after a successful reconciliation, a second
  one with the same description returns the agent that the first one returned, reports it unchanged and leaves
  the registry as it is, whatever the clock reads and whatever fresh identifier is offered.
\<close>

theorem ReconcileByExternalID_idempotent:
  assumes "avRepo S = memory_agent_port C" and "agent_invar st" and "newID \<noteq> uuid_nil"
    and "ReconcileByExternalID S newID now x desired input st = (Some (Inr (a, out)), st')"
  shows "ReconcileByExternalID S newID' now' x desired input st' = (Some (Inr (a, ReconcileUnchanged)), st')"
  using assms by (rule mem_agents.reconcile_settles)

text \<open>
  C13. With one agent per client, the default, a client identifier stays unambiguous whatever calls the service
  has served: for every registered agent with a client identifier, resolving that identifier returns this agent.
\<close>

theorem client_id_unambiguous:
  assumes "avRepo S = memory_agent_port C" and "\<not> avMultiAgentEnabled S"
    and "agent_Get i (fold (agent_exec S) calls NewAgentRepository) = Inr a" and "agClientID a = Some c"
  shows "ResolveUniqueByClientID S c (fold (agent_exec S) calls NewAgentRepository) = Some (Inr a)"
proof (rule mem_agents.resolved [OF assms(1)])
  let ?st = "fold (agent_exec S) calls NewAgentRepository"
  have "agent_invar ?st \<and> one_per_client (agent_abs ?st)"
    using mem_agents.calls_keep [OF assms(1) new_agents_invar(1) refl, of calls] assms(2) by (simp add: new_agents_invar one_per_client_def)
  then show "agent_invar ?st" "one_per_client (agent_abs ?st)" by simp_all
  show "agent_abs ?st i = Some a" using assms(3) by (simp add: agent_Get_def agent_abs_def split: option.splits)
qed (rule assms(4))


definition demo_uri_checks :: uri_checks where
  "demo_uri_checks = \<lparr>ucIsValidURL = (\<lambda>_. True), ucRedirectURI = (\<lambda>_. True), ucClientURI = (\<lambda>_. None), ucMatches = (\<lambda>_ _. False), ucParseUUID = (\<lambda>_. None)\<rparr>"

definition demo_agents :: "agent_store agents_service" where
  "demo_agents = \<lparr>avRepo = memory_agent_port demo_uri_checks, avChecks = demo_uri_checks, avValidateRequirements = (\<lambda>_. None),
     avPermissionSets = None, avMultiAgentEnabled = False\<rparr>"

definition demo_described :: Agent where
  "demo_described = \<lparr>agID = uuid_nil, agCanonicalID = None, agClientID = Some ''client'', agExternalID = None, agDisplayName = ''A'',
     agDescription = ''d'', agGovernanceURL = None, agUserDocumentationURL = None, agAgentInterfaceURL = None, agServiceRequirements = [],
     agPermissionSets = [\<lparr>apPermissionSetID = ''p'', apRequirementType = RequirementTypeMandatory\<rparr>], agRedirectURIs = [], agAllowedScopes = [], agClientURIs = [], agCreatedAt = 0, agUpdatedAt = 0\<rparr>"

definition demo_reconcile_input :: ReconcileInput where
  "demo_reconcile_input = \<lparr>riCanonicalIDPresent = False, riExternalIDPresent = False, riExternalIDNull = False\<rparr>"

definition demo_registered :: Agent where
  "demo_registered = new_candidate ''1'' 5 ''x'' demo_described"

definition demo_registry :: agent_store where
  "demo_registry = snd (ReconcileByExternalID demo_agents ''1'' 5 ''x'' demo_described demo_reconcile_input NewAgentRepository)"

lemma demo_first: "ReconcileByExternalID demo_agents ''1'' 5 ''x'' demo_described demo_reconcile_input NewAgentRepository =
  (Some (Inr (demo_registered, ReconcileCreated)), demo_registry)"
  by code_simp

theorem ReconcileByExternalID_idempotent_witness:
  "ReconcileByExternalID demo_agents ''2'' 9 ''x'' demo_described demo_reconcile_input demo_registry =
     (Some (Inr (demo_registered, ReconcileUnchanged)), demo_registry)"
  using ReconcileByExternalID_idempotent [OF _ new_agents_invar(1) _ demo_first, of demo_uri_checks "''2''" 9] by (simp add: demo_agents_def uuid_nil_def)

theorem client_id_unambiguous_witness:
  "ResolveUniqueByClientID demo_agents ''client'' (fold (agent_exec demo_agents)
     [ReconcileAgent ''1'' 5 ''x'' demo_described demo_reconcile_input, CreateAgent ''2'' demo_described] NewAgentRepository) = Some (Inr demo_registered)"
proof (rule client_id_unambiguous)
  show "avRepo demo_agents = memory_agent_port demo_uri_checks" "\<not> avMultiAgentEnabled demo_agents" by (simp_all add: demo_agents_def)
  show "agent_Get ''1'' (fold (agent_exec demo_agents)
     [ReconcileAgent ''1'' 5 ''x'' demo_described demo_reconcile_input, CreateAgent ''2'' demo_described] NewAgentRepository) = Inr demo_registered"
    by code_simp
  show "agClientID demo_registered = Some ''client''" by code_simp
qed

end
