(* ===== verification/Impersonation.thy ===== *)
theory Impersonation
  imports Token_Exchange Agent_Registry
begin

text \<open>
  Impersonation (\<^verbatim>\<open>internal/domain/impersonation\<close>): a privileged client obtains a locally minted token that
  represents a user, or the target agent itself. The request (\<^verbatim>\<open>request.go\<close>), the target
  (\<^verbatim>\<open>audience.go\<close>), the rules and their compilation (\<^verbatim>\<open>rule.go\<close>, \<^verbatim>\<open>cel.go\<close>, \<^verbatim>\<open>subject_category.go\<close>),
  the validation of credentials (\<^verbatim>\<open>validator.go\<close>, \<^verbatim>\<open>unverified.go\<close>), the first-match evaluation
  (\<^verbatim>\<open>service.go\<close>, \<^verbatim>\<open>errors.go\<close>), and the delegation check (\<^verbatim>\<open>internal/app/impersonation_delegation.go\<close>)
  that ties it to the consent service.

  The JWT, CEL, URL and UUID libraries are the record \<open>imp_lib\<close>. A key set provider answers its fetches in
  order (\<open>pvKeySet n\<close> is its answer to the fetch number n of a call) and has an identity when it is a
  pointer. The token issuer is an argument. \<open>icCanceled\<close> says whether the context of the call had ended when
  a rule failed at a stage. Audit records are modelled; log lines are not.
\<close>

section \<open>Libraries\<close>

record parsed_url =
  puScheme :: string
  puHost :: string
  puHasUser :: bool
  puForceQuery :: bool
  puRawQuery :: string
  puFragment :: string
  puPath :: string

datatype cel_var = VarClaims claims | VarBool bool | VarRequest "(string, string) gomap"

text \<open>A checked and planned expression: its output type is bool, the names it refers to, the fields it selects
  as \<^verbatim>\<open>name.field\<close>, and its evaluation within a time limit.\<close>

record cel_program =
  cpOutputBool :: bool
  cpReferences :: "string list"
  cpSelections :: "string list"
  cpEval :: "duration \<Rightarrow> (string \<times> cel_var) list \<Rightarrow> string + cel_value"

record 'ks imp_lib =
  ilRead :: "string \<Rightarrow> jwt_error + claims_token"
  ilSignatures :: "string \<Rightarrow> (string \<times> string option) list option"
  ilVerify :: "string \<Rightarrow> 'ks \<Rightarrow> jwt_error + claims_token"
  ilValidate :: "time \<Rightarrow> claims_token \<Rightarrow> string \<Rightarrow> string option \<Rightarrow> duration \<Rightarrow> jwt_error option"
  ilLookupAlgorithm :: "string \<Rightarrow> string option"
  ilCompile :: "string list \<Rightarrow> string \<Rightarrow> string + cel_program"
  ilParseAgentID :: "string \<Rightarrow> agent_id option"
  ilParseURL :: "string \<Rightarrow> parsed_url option"

record 'ks jwks_provider =
  pvPointer :: "nat option"
  pvKeySet :: "nat \<Rightarrow> string + 'ks"

section \<open>Errors\<close>

definition impersonationDiagnostic :: "FailureStage \<Rightarrow> FailureDetail \<Rightarrow> Diagnostic" where
  "impersonationDiagnostic stage detail = WithExchangeKind ExchangeImpersonation (NewDiagnostic stage detail)"

definition invalidRequest :: "string \<Rightarrow> TokenExchangeError" where
  "invalidRequest d = WithDiagnostic (impersonationDiagnostic StageRequestValidation DetailRequestMalformed) (NewInvalidRequestError d)"

definition invalidScope :: "string \<Rightarrow> TokenExchangeError" where
  "invalidScope d = WithDiagnostic (impersonationDiagnostic StageRequestValidation DetailRequestMalformed) (NewInvalidScopeError d)"

definition invalidClient :: "string \<Rightarrow> TokenExchangeError" where
  "invalidClient d = WithDiagnostic (impersonationDiagnostic StageClientValidation DetailClientInvalid) (NewInvalidClientError d)"

definition accessDenied :: "string \<Rightarrow> TokenExchangeError" where
  "accessDenied d = WithDiagnostic (impersonationDiagnostic StageClientAuthorization DetailClientPolicyDenied) (NewAccessDeniedError d)"

definition categoryIneligible :: TokenExchangeError where
  "categoryIneligible = WithDiagnostic (impersonationDiagnostic StageClientAuthorization DetailSubjectCategoryIneligible)
     (accessDenied ''impersonation not authorized by policy'')"

definition consentRequired :: "string \<Rightarrow> TokenExchangeError" where
  "consentRequired url = WithErrorURI url (accessDenied ''user delegation is required before impersonation'')"

definition serverError :: "string \<Rightarrow> TokenExchangeError" where
  "serverError d = WithDiagnostic (impersonationDiagnostic StageExchangeRouting DetailInternalUnclassified) (NewServerError d)"

definition originError :: "bool \<Rightarrow> TokenExchangeError \<Rightarrow> error_cause list \<Rightarrow> FailureStage \<Rightarrow> FailureDetail \<Rightarrow> TokenExchangeError" where
  "originError canceled envelope cause stage detail =
     (if canceled then WithDiagnostic (impersonationDiagnostic stage DetailCallerCanceled) (WithCause (cause @ [CallerCanceled]) envelope)
      else WithDiagnostic (impersonationDiagnostic stage detail) (WithCause cause envelope))"

definition noMatchPrecedence :: "string \<Rightarrow> nat" where
  "noMatchPrecedence code = (if code = ''access_denied'' then 3 else if code = ''invalid_request'' then 2 else if code = ''invalid_client'' then 1 else 0)"

fun best_failure :: "TokenExchangeError option \<Rightarrow> nat \<Rightarrow> TokenExchangeError option list \<Rightarrow> TokenExchangeError option" where
  "best_failure best bestRank [] = best"
| "best_failure best bestRank (f # fs) =
     (case f of
        None \<Rightarrow> best_failure best bestRank fs
      | Some e \<Rightarrow>
          if bestRank < noMatchPrecedence (teCode e) then best_failure (Some e) (noMatchPrecedence (teCode e)) fs
          else best_failure best bestRank fs)"

definition selectNoMatchError :: "TokenExchangeError option list \<Rightarrow> TokenExchangeError" where
  "selectNoMatchError failures =
     (case best_failure None 0 failures of None \<Rightarrow> serverError ''impersonation request could not be authorized'' | Some e \<Rightarrow> e)"

section \<open>The request\<close>

record Request =
  iqClientAssertion :: string
  iqActorToken :: string
  iqSubjectToken :: string
  iqSubjectTokenType :: string
  iqRequestedTokenType :: string
  iqScope :: string
  iqScopes :: "string list"

definition JWTTokenType :: string where
  "JWTTokenType = ''urn:ietf:params:oauth:token-type:jwt''"

definition singleton :: "(string, string list) gomap \<Rightarrow> string \<Rightarrow> TokenExchangeError + string" where
  "singleton form key =
     (case map_of form key of
        None \<Rightarrow> Inl (invalidRequest (key @ '' is required''))
      | Some [] \<Rightarrow> Inl (invalidRequest (key @ '' is required''))
      | Some [v] \<Rightarrow> if v = [] then Inl (invalidRequest (key @ '' must not be empty'')) else Inr v
      | Some _ \<Rightarrow> Inl (invalidRequest (key @ '' must not be repeated'')))"

definition present :: "(string, string list) gomap \<Rightarrow> string \<Rightarrow> bool" where
  "present form key \<longleftrightarrow> map_of form key \<noteq> None"

text \<open>A credential with its type parameter.\<close>

definition typed_param :: "(string, string list) gomap \<Rightarrow> string \<Rightarrow> string \<Rightarrow> string \<Rightarrow> string \<Rightarrow> TokenExchangeError + string" where
  "typed_param form key typeKey wanted msg =
     (case singleton form key of
        Inl e \<Rightarrow> Inl e
      | Inr v \<Rightarrow> (case singleton form typeKey of Inl e \<Rightarrow> Inl e | Inr t \<Rightarrow> if t \<noteq> wanted then Inl (invalidRequest msg) else Inr v))"

definition ParseRequest :: "(string, string list) gomap \<Rightarrow> TokenExchangeError + Request" where
  "ParseRequest form =
     (if present form ''resource'' then Inl (invalidRequest ''resource parameter is not permitted for impersonation'')
      else case typed_param form ''client_assertion'' ''client_assertion_type'' JWTBearerType ''client_assertion_type must be the JWT bearer type'' of
          Inl e \<Rightarrow> Inl e
        | Inr clientAssertion \<Rightarrow>
      (case typed_param form ''actor_token'' ''actor_token_type'' JWTTokenType ''actor_token_type must be the RFC 8693 JWT token type'' of
          Inl e \<Rightarrow> Inl e
        | Inr actorToken \<Rightarrow>
      (case singleton form ''subject_token'' of
          Inl e \<Rightarrow> Inl e
        | Inr subjectToken \<Rightarrow>
      (case singleton form ''subject_token_type'' of
          Inl e \<Rightarrow> Inl e
        | Inr subjectTokenType \<Rightarrow>
            let scope = (case map_of form ''scope'' of None \<Rightarrow> [] | Some [] \<Rightarrow> [] | Some (v # _) \<Rightarrow> v);
                request = \<lparr>iqClientAssertion = clientAssertion, iqActorToken = actorToken, iqSubjectToken = subjectToken,
                  iqSubjectTokenType = subjectTokenType, iqRequestedTokenType = [], iqScope = scope, iqScopes = SplitScope scope\<rparr>
            in if \<not> present form ''requested_token_type'' then Inr request
               else case singleton form ''requested_token_type'' of
                   Inl e \<Rightarrow> Inl e
                 | Inr t \<Rightarrow> if t \<noteq> AccessTokenType then Inl (invalidRequest ''requested_token_type must be the access-token type'')
                           else Inr (request\<lparr>iqRequestedTokenType := t\<rparr>)))))"

section \<open>Expressions\<close>

datatype CredentialRole = CredentialRoleClientAssertion | CredentialRoleActor | CredentialRoleSubject

definition role_text :: "CredentialRole \<Rightarrow> string" where
  "role_text r = (case r of CredentialRoleClientAssertion \<Rightarrow> ''client_assertion'' | CredentialRoleActor \<Rightarrow> ''actor'' | CredentialRoleSubject \<Rightarrow> ''subject'')"

definition role_of_text :: "string \<Rightarrow> CredentialRole option" where
  "role_of_text s = find (\<lambda>r. role_text r = s) [CredentialRoleClientAssertion, CredentialRoleActor, CredentialRoleSubject]"

definition extractionVariable :: "CredentialRole \<Rightarrow> string" where
  "extractionVariable r = (case r of CredentialRoleClientAssertion \<Rightarrow> ''client_assertion'' | CredentialRoleActor \<Rightarrow> ''actor_token'' | CredentialRoleSubject \<Rightarrow> ''subject_token'')"

record requestContext =
  rcxResource :: string
  rcxGrantType :: string
  rcxScope :: string
  rcxAgentID :: string

definition toMap :: "requestContext \<Rightarrow> (string, string) gomap" where
  "toMap r = [(''resource'', rcxResource r), (''grant_type'', rcxGrantType r), (''scope'', rcxScope r), (''agent_id'', rcxAgentID r)]"

record authorizationProgram =
  azProgram :: cel_program
  azTimeout :: duration

definition defaultEvaluationTimeout :: duration where
  "defaultEvaluationTimeout = 100000000"

definition impersonation_variables :: "string list" where
  "impersonation_variables = [''client_assertion'', ''actor_token'', ''subject_token'', ''subject_unverified'', ''request'']"

definition compileAuthorization :: "'ks imp_lib \<Rightarrow> string \<Rightarrow> duration \<Rightarrow> string + authorizationProgram" where
  "compileAuthorization lib expression timeout =
     (if expression = [] then Inl ''authorization expression is required''
      else case ilCompile lib impersonation_variables expression of
          Inl e \<Rightarrow> Inl e
        | Inr program \<Rightarrow>
            if \<not> cpOutputBool program then Inl ''authorization expression must return bool''
            else Inr \<lparr>azProgram = program, azTimeout = (if timeout \<le> 0 then defaultEvaluationTimeout else timeout)\<rparr>)"

definition References :: "authorizationProgram \<Rightarrow> string \<Rightarrow> bool" where
  "References p v \<longleftrightarrow> v \<in> set (cpReferences (azProgram p))"

definition Binds :: "authorizationProgram \<Rightarrow> string \<Rightarrow> string \<Rightarrow> bool" where
  "Binds p v field \<longleftrightarrow> v @ ''.'' @ field \<in> set (cpSelections (azProgram p))"

definition authz_evaluate :: "authorizationProgram \<Rightarrow> claims \<Rightarrow> claims \<Rightarrow> claims \<Rightarrow> bool \<Rightarrow> requestContext \<Rightarrow> string + bool" where
  "authz_evaluate p client actor subject unverified request =
     (case cpEval (azProgram p) (azTimeout p)
        [(''client_assertion'', VarClaims client), (''actor_token'', VarClaims actor), (''subject_token'', VarClaims subject),
         (''subject_unverified'', VarBool unverified), (''request'', VarRequest (toMap request))] of
        Inl e \<Rightarrow> Inl e
      | Inr v \<Rightarrow> (case cel_truth v of Some b \<Rightarrow> Inr b | None \<Rightarrow> Inl ''authorization expression did not return a bool''))"

record extractionProgram =
  exProgram :: cel_program
  exVarName :: string
  exTimeout :: duration

definition compileExtraction :: "'ks imp_lib \<Rightarrow> CredentialRole \<Rightarrow> string \<Rightarrow> duration \<Rightarrow> string + extractionProgram" where
  "compileExtraction lib role expression timeout =
     (if expression = [] then Inl ''extraction expression is required''
      else case ilCompile lib [extractionVariable role] expression of
          Inl e \<Rightarrow> Inl e
        | Inr program \<Rightarrow> Inr \<lparr>exProgram = program, exVarName = extractionVariable role,
            exTimeout = (if timeout \<le> 0 then defaultEvaluationTimeout else timeout)\<rparr>)"

definition extract_text :: "extractionProgram \<Rightarrow> claims \<Rightarrow> string + string" where
  "extract_text p cl =
     (case cpEval (exProgram p) (exTimeout p) [(exVarName p, VarClaims cl)] of
        Inl e \<Rightarrow> Inl e
      | Inr v \<Rightarrow> (case cel_text v of Some s \<Rightarrow> Inr s | None \<Rightarrow> Inl ''extraction expression did not return a string''))"

section \<open>Credentials\<close>

definition IsApprovedAlgorithm :: "string \<Rightarrow> bool" where
  "IsApprovedAlgorithm name \<longleftrightarrow>
     name \<in> {''RS256'', ''RS384'', ''RS512'', ''PS256'', ''PS384'', ''PS512'', ''ES256'', ''ES384'', ''ES512'', ''EdDSA''}"

record 'ks signedValidator =
  svProvider :: "'ks jwks_provider"
  svIssuerURI :: string
  svAllowedAlgorithms :: "string list"
  svClockSkew :: duration
  svCacheByProvider :: bool

record compiledRole =
  crRole :: CredentialRole
  crExpectedAudience :: string
  crRequireAbsentAudience :: bool
  crPrincipal :: extractionProgram
  crEmail :: "extractionProgram option"
  crUnverified :: bool

record 'ks compiledIssuer =
  ciIssuerURI :: string
  ciSignsRoles :: "CredentialRole list"
  ciValidator :: "'ks signedValidator"

record 'ks compiledRule =
  clName :: string
  clRoles :: "CredentialRole \<Rightarrow> compiledRole"
  clIssuers :: "'ks compiledIssuer list"
  clAuthz :: authorizationProgram
  clAllowsHuman :: bool
  clAllowsAgent :: bool

datatype credential_error = CredentialJWT jwt_error | CredentialKeysUnavailable | CredentialRefused string

definition soleSignature :: "'ks imp_lib \<Rightarrow> string \<Rightarrow> credential_error + (string \<times> string option)" where
  "soleSignature lib token =
     (case ilSignatures lib token of
        None \<Rightarrow> Inl (CredentialRefused ''not a parseable compact JWS'')
      | Some [s] \<Rightarrow> Inr s
      | Some _ \<Rightarrow> Inl (CredentialRefused ''compact JWT must carry exactly one signature segment''))"

definition protectedHeaderAlgorithm :: "'ks imp_lib \<Rightarrow> string \<Rightarrow> credential_error + string" where
  "protectedHeaderAlgorithm lib token =
     (case soleSignature lib token of
        Inl e \<Rightarrow> Inl e
      | Inr (_, None) \<Rightarrow> Inl (CredentialRefused ''protected header has no alg'')
      | Inr (_, Some alg) \<Rightarrow> Inr alg)"

definition validateAlgorithm :: "'ks imp_lib \<Rightarrow> 'ks signedValidator \<Rightarrow> string \<Rightarrow> credential_error option" where
  "validateAlgorithm lib v token =
     (case protectedHeaderAlgorithm lib token of
        Inl e \<Rightarrow> Some e
      | Inr alg \<Rightarrow>
          if \<not> IsApprovedAlgorithm alg then Some (CredentialRefused ''algorithm is not an approved asymmetric algorithm'')
          else if alg \<notin> set (svAllowedAlgorithms v) then Some (CredentialRefused ''algorithm is not permitted for issuer'')
          else None)"

text \<open>The state of a call: the verified credentials, and the number of fetches so far.\<close>

type_synonym verification_state = "(CredentialRole \<times> string \<times> nat, credential_error + claims_token) gomap \<times> nat"

definition validator_verify :: "'ks imp_lib \<Rightarrow> 'ks signedValidator \<Rightarrow> string \<Rightarrow> nat \<Rightarrow> credential_error + claims_token" where
  "validator_verify lib v token n =
     (case pvKeySet (svProvider v) n of Inl _ \<Rightarrow> Inl CredentialKeysUnavailable | Inr ks \<Rightarrow> map_sum CredentialJWT id (ilVerify lib token ks))"

definition cache_verify ::
  "'ks imp_lib \<Rightarrow> CredentialRole \<Rightarrow> string \<Rightarrow> 'ks compiledIssuer \<Rightarrow> verification_state \<Rightarrow> (credential_error + claims_token) \<times> verification_state" where
  "cache_verify lib role token issuer st =
     (let v = ciValidator issuer; r = validator_verify lib v token (snd st)
      in case (if svCacheByProvider v then pvPointer (svProvider v) else None) of
           None \<Rightarrow> (r, fst st, Suc (snd st))
         | Some p \<Rightarrow>
             (case map_of (fst st) (role, token, p) of
                Some known \<Rightarrow> (known, st)
              | None \<Rightarrow> (r, AList.update (role, token, p) r (fst st), Suc (snd st))))"

definition signed_validateClaims :: "'ks imp_lib \<Rightarrow> time \<Rightarrow> 'ks signedValidator \<Rightarrow> claims_token \<Rightarrow> string \<Rightarrow> bool \<Rightarrow> credential_error + claims" where
  "signed_validateClaims lib now v token expectedAudience requireAbsentAudience =
     (case ilValidate lib now token (svIssuerURI v) (if requireAbsentAudience then None else Some expectedAudience) (svClockSkew v) of
        Some e \<Rightarrow> Inl (CredentialJWT e)
      | None \<Rightarrow>
          if requireAbsentAudience \<and> tkAudience token \<noteq> None then Inl (CredentialRefused ''token must not contain an audience claim'')
          else Inr (FromToken token))"

definition unverifiedIssuer :: "'ks imp_lib \<Rightarrow> string \<Rightarrow> credential_error + string" where
  "unverifiedIssuer lib token =
     (case ilRead lib token of
        Inl e \<Rightarrow> Inl (CredentialJWT e)
      | Inr t \<Rightarrow> Inr (case tkIssuer t of None \<Rightarrow> [] | Some iss \<Rightarrow> iss))"

definition issuerFor :: "'ks compiledRule \<Rightarrow> CredentialRole \<Rightarrow> string \<Rightarrow> 'ks compiledIssuer option" where
  "issuerFor rule role iss = find (\<lambda>i. ciIssuerURI i = iss \<and> role \<in> set (ciSignsRoles i)) (clIssuers rule)"

definition validateCredential ::
  "'ks imp_lib \<Rightarrow> time \<Rightarrow> 'ks compiledRule \<Rightarrow> CredentialRole \<Rightarrow> string \<Rightarrow> verification_state \<Rightarrow>
    (credential_error + claims \<times> 'ks compiledIssuer) \<times> verification_state" where
  "validateCredential lib now rule role token st =
     (case unverifiedIssuer lib token of
        Inl e \<Rightarrow> (Inl e, st)
      | Inr iss \<Rightarrow>
          (case issuerFor rule role iss of
             None \<Rightarrow> (Inl (CredentialRefused ''no trusted issuer authorized to sign role''), st)
           | Some issuer \<Rightarrow>
               (case validateAlgorithm lib (ciValidator issuer) token of
                  Some e \<Rightarrow> (Inl e, st)
                | None \<Rightarrow>
                    (case cache_verify lib role token issuer st of
                       (Inl e, st') \<Rightarrow> (Inl e, st')
                     | (Inr verified, st') \<Rightarrow>
                         (case signed_validateClaims lib now (ciValidator issuer) verified (crExpectedAudience (clRoles rule role)) (crRequireAbsentAudience (clRoles rule role)) of
                            Inl e \<Rightarrow> (Inl e, st')
                          | Inr cl \<Rightarrow> (Inr (cl, issuer), st'))))))"

definition parseUnverifiedSubject :: "'ks imp_lib \<Rightarrow> string \<Rightarrow> credential_error + claims" where
  "parseUnverifiedSubject lib token =
     (case soleSignature lib token of
        Inl e \<Rightarrow> Inl e
      | Inr (signature, alg) \<Rightarrow>
          if signature \<noteq> [] then Inl (CredentialRefused ''unverified subject must be unsigned with an empty signature segment'')
          else if alg \<noteq> Some ''none'' then Inl (CredentialRefused ''unverified subject must use alg:none'')
          else case ilRead lib token of Inl e \<Rightarrow> Inl (CredentialJWT e) | Inr t \<Rightarrow> Inr (FromToken t))"

section \<open>Rules\<close>

record ImpersonationRoleConfig =
  rgVerification :: string
  rgExpectedAudience :: string
  rgAudienceRequirement :: string
  rgPrincipalExpression :: string
  rgEmailExpression :: string

record TrustedTokenIssuerConfig =
  tiIssuerURI :: string
  tiJWKSURI :: string
  tiJWKS :: string
  tiJWKSFile :: string
  tiJWKSMinRefresh :: duration
  tiJWKSMaxRefresh :: duration
  tiAllowedAlgorithms :: "string list"
  tiSignsRoles :: "string list"

record ImpersonationRuleConfig =
  ruAllowedSubjectCategories :: "string list option"
  ruName :: string
  ruRoles :: "(string, ImpersonationRoleConfig) gomap"
  ruTrustedIssuers :: "TrustedTokenIssuerConfig list"
  ruAuthorizationType :: string
  ruExpression :: string
  ruEvaluationTimeout :: duration

datatype SubjectCategory = SubjectCategoryHuman | SubjectCategoryAgent

fun category_loop :: "bool \<Rightarrow> bool \<Rightarrow> string list \<Rightarrow> (bool \<times> bool) option" where
  "category_loop human agent [] = Some (human, agent)"
| "category_loop human agent (c # cs) =
     (if c = ''human'' then (if human then None else category_loop True agent cs)
      else if c = ''agent'' then (if agent then None else category_loop human True cs)
      else None)"

definition ParseAllowedSubjectCategories :: "string list option \<Rightarrow> (bool \<times> bool) option" where
  "ParseAllowedSubjectCategories categories =
     (case categories of
        None \<Rightarrow> Some (True, False)
      | Some cs \<Rightarrow> if length cs < 1 \<or> 2 < length cs then None else category_loop False False cs)"

definition all_roles :: "CredentialRole list" where
  "all_roles = [CredentialRoleClientAssertion, CredentialRoleActor, CredentialRoleSubject]"

definition absent_audience :: "ImpersonationRoleConfig \<Rightarrow> bool" where
  "absent_audience c \<longleftrightarrow> rgAudienceRequirement c = ''absent''"

definition role_fault :: "(string, ImpersonationRoleConfig) gomap \<Rightarrow> CredentialRole \<Rightarrow> string option" where
  "role_fault roles role =
     (case map_of roles (role_text role) of
        None \<Rightarrow> Some ''missing the role''
      | Some c \<Rightarrow>
          if rgPrincipalExpression c = [] then Some ''principal_expression is required''
          else if rgAudienceRequirement c \<noteq> [] \<and> \<not> absent_audience c then Some ''audience_requirement must be absent or unset''
          else if role = CredentialRoleSubject \<and> rgVerification c = ''none'' \<and> absent_audience c
          then Some ''audience_requirement is not valid for the unverified subject mode''
          else if role = CredentialRoleSubject \<and> rgVerification c = ''none'' \<and> rgExpectedAudience c \<noteq> []
          then Some ''expected_audience must be empty for the unverified subject mode''
          else if \<not> (role = CredentialRoleSubject \<and> rgVerification c = ''none'') \<and> absent_audience c \<and> rgExpectedAudience c \<noteq> []
          then Some ''expected_audience must be empty when audience_requirement is absent''
          else if \<not> (role = CredentialRoleSubject \<and> rgVerification c = ''none'') \<and> \<not> absent_audience c \<and> rgExpectedAudience c = []
          then Some ''expected_audience is required for a signed role''
          else if role \<noteq> CredentialRoleSubject \<and> rgEmailExpression c \<noteq> [] then Some ''email_expression is only valid on the subject role''
          else if role \<noteq> CredentialRoleSubject \<and> rgVerification c \<noteq> [] then Some ''verification is only valid on the subject role''
          else None)"

fun signs_loop :: "bool \<Rightarrow> CredentialRole list \<Rightarrow> string list \<Rightarrow> string + CredentialRole list" where
  "signs_loop subjectUnverified covered [] = Inr covered"
| "signs_loop subjectUnverified covered (r # rs) =
     (case role_of_text r of
        None \<Rightarrow> Inl ''issuer signs unknown role''
      | Some role \<Rightarrow>
          if role = CredentialRoleSubject \<and> subjectUnverified then Inl ''the unverified subject role must not appear in any signs_roles''
          else signs_loop subjectUnverified (role # covered) rs)"

fun issuer_loop :: "bool \<Rightarrow> string list \<Rightarrow> CredentialRole list \<Rightarrow> TrustedTokenIssuerConfig list \<Rightarrow> string + CredentialRole list" where
  "issuer_loop subjectUnverified seen covered [] = Inr covered"
| "issuer_loop subjectUnverified seen covered (i # is) =
     (if tiIssuerURI i = [] then Inl ''trusted_issuer issuer_uri is required''
      else if tiIssuerURI i \<in> set seen then Inl ''duplicate trusted_issuer issuer_uri''
      else case signs_loop subjectUnverified covered (tiSignsRoles i) of
          Inl e \<Rightarrow> Inl e
        | Inr covered' \<Rightarrow> issuer_loop subjectUnverified (tiIssuerURI i # seen) covered' is)"

definition first_some :: "('a \<Rightarrow> 'b option) \<Rightarrow> 'a list \<Rightarrow> 'b option" where
  "first_some f xs = (case List.map_filter f xs of [] \<Rightarrow> None | y # _ \<Rightarrow> Some y)"

definition validateRuleInvariants :: "ImpersonationRuleConfig \<Rightarrow> string option" where
  "validateRuleInvariants cfg =
     (if ParseAllowedSubjectCategories (ruAllowedSubjectCategories cfg) = None then Some ''invalid allowed_subject_categories''
      else if ruAuthorizationType cfg \<noteq> ''cel'' then Some ''authorization.type must be cel''
      else if ruEvaluationTimeout cfg \<noteq> 0 \<and> (ruEvaluationTimeout cfg < 10000000 \<or> 5000000000 < ruEvaluationTimeout cfg)
      then Some ''authorization.cel.evaluation_timeout must be between 10ms and 5s''
      else if list_ex (\<lambda>(name, _). role_of_text name = None) (ruRoles cfg) then Some ''unknown role''
      else case first_some (role_fault (ruRoles cfg)) all_roles of
          Some e \<Rightarrow> Some e
        | None \<Rightarrow>
            if ruTrustedIssuers cfg = [] then Some ''at least one trusted_issuer is required''
            else let subjectUnverified = (case map_of (ruRoles cfg) ''subject'' of None \<Rightarrow> False | Some c \<Rightarrow> rgVerification c = ''none'')
                 in case issuer_loop subjectUnverified [] [] (ruTrustedIssuers cfg) of
                      Inl e \<Rightarrow> Some e
                    | Inr covered \<Rightarrow>
                        if list_ex (\<lambda>role. role \<notin> set covered)
                             ([CredentialRoleClientAssertion, CredentialRoleActor] @ (if subjectUnverified then [] else [CredentialRoleSubject]))
                        then Some ''no trusted_issuer signs the role'' else None)"

definition compile_role :: "'ks imp_lib \<Rightarrow> duration \<Rightarrow> CredentialRole \<Rightarrow> ImpersonationRoleConfig \<Rightarrow> string + compiledRole" where
  "compile_role lib timeout role c =
     (case compileExtraction lib role (rgPrincipalExpression c) timeout of
        Inl e \<Rightarrow> Inl e
      | Inr identity \<Rightarrow>
          if role = CredentialRoleSubject \<and> rgVerification c \<noteq> [] \<and> rgVerification c \<noteq> ''jwks'' \<and> rgVerification c \<noteq> ''none''
          then Inl ''subject verification must be jwks or none''
          else let compiled = \<lparr>crRole = role, crExpectedAudience = rgExpectedAudience c, crRequireAbsentAudience = absent_audience c,
                     crPrincipal = identity, crEmail = None, crUnverified = (role = CredentialRoleSubject \<and> rgVerification c = ''none'')\<rparr>
               in if \<not> (role = CredentialRoleSubject \<and> rgEmailExpression c \<noteq> []) then Inr compiled
                  else case compileExtraction lib CredentialRoleSubject (rgEmailExpression c) timeout of
                      Inl e \<Rightarrow> Inl e
                    | Inr email \<Rightarrow> Inr (compiled\<lparr>crEmail := Some email\<rparr>))"

fun compile_roles :: "'ks imp_lib \<Rightarrow> duration \<Rightarrow> (CredentialRole, compiledRole) gomap \<Rightarrow> (string \<times> ImpersonationRoleConfig) list \<Rightarrow>
    string + (CredentialRole, compiledRole) gomap" where
  "compile_roles lib timeout acc [] = Inr acc"
| "compile_roles lib timeout acc ((name, c) # rest) =
     (case role_of_text name of
        None \<Rightarrow> Inl ''unknown credential role''
      | Some role \<Rightarrow>
          (case compile_role lib timeout role c of
             Inl e \<Rightarrow> Inl e
           | Inr compiled \<Rightarrow> compile_roles lib timeout (AList.update role compiled acc) rest))"

fun allowed_loop :: "'ks imp_lib \<Rightarrow> string list \<Rightarrow> string list \<Rightarrow> string list option" where
  "allowed_loop lib acc [] = Some acc"
| "allowed_loop lib acc (name # names) =
     (case ilLookupAlgorithm lib name of
        None \<Rightarrow> None
      | Some alg \<Rightarrow> if \<not> IsApprovedAlgorithm alg then None else allowed_loop lib (alg # acc) names)"

definition compile_issuer ::
  "'ks imp_lib \<Rightarrow> (TrustedTokenIssuerConfig \<Rightarrow> string + 'ks jwks_provider) \<Rightarrow> duration \<Rightarrow> TrustedTokenIssuerConfig \<Rightarrow> string + 'ks compiledIssuer" where
  "compile_issuer lib factory clockSkew i =
     (if tiAllowedAlgorithms i = [] then Inl ''allowed_algorithms must not be empty''
      else case allowed_loop lib [] (tiAllowedAlgorithms i) of
          None \<Rightarrow> Inl ''allowed_algorithms contains a non-approved algorithm''
        | Some allowed \<Rightarrow>
            if tiSignsRoles i = [] then Inl ''signs_roles must not be empty''
            else case factory i of
                Inl e \<Rightarrow> Inl e
              | Inr provider \<Rightarrow>
                  Inr \<lparr>ciIssuerURI = tiIssuerURI i, ciSignsRoles = List.map_filter role_of_text (tiSignsRoles i),
                    ciValidator = \<lparr>svProvider = provider, svIssuerURI = tiIssuerURI i, svAllowedAlgorithms = allowed,
                      svClockSkew = clockSkew, svCacheByProvider = (pvPointer provider \<noteq> None)\<rparr>\<rparr>)"

fun compile_all :: "('a \<Rightarrow> 'e + 'b) \<Rightarrow> 'a list \<Rightarrow> 'e + 'b list" where
  "compile_all f [] = Inr []"
| "compile_all f (x # xs) =
     (case f x of Inl e \<Rightarrow> Inl e | Inr y \<Rightarrow> (case compile_all f xs of Inl e \<Rightarrow> Inl e | Inr ys \<Rightarrow> Inr (y # ys)))"

definition compileRule ::
  "'ks imp_lib \<Rightarrow> (TrustedTokenIssuerConfig \<Rightarrow> string + 'ks jwks_provider) \<Rightarrow> duration \<Rightarrow> ImpersonationRuleConfig \<Rightarrow> string + 'ks compiledRule" where
  "compileRule lib factory clockSkew cfg =
     (case validateRuleInvariants cfg of
        Some e \<Rightarrow> Inl e
      | None \<Rightarrow>
     (case compileAuthorization lib (ruExpression cfg) (ruEvaluationTimeout cfg) of
        Inl e \<Rightarrow> Inl e
      | Inr authz \<Rightarrow>
     (case compile_roles lib (ruEvaluationTimeout cfg) [] (ruRoles cfg) of
        Inl e \<Rightarrow> Inl e
      | Inr roles \<Rightarrow>
     (case (map_of roles CredentialRoleClientAssertion, map_of roles CredentialRoleActor, map_of roles CredentialRoleSubject) of
        (Some client, Some actor, Some subject) \<Rightarrow>
          (let role = (\<lambda>r. case r of CredentialRoleClientAssertion \<Rightarrow> client | CredentialRoleActor \<Rightarrow> actor | CredentialRoleSubject \<Rightarrow> subject)
           in case compile_all (compile_issuer lib factory clockSkew) (ruTrustedIssuers cfg) of
                Inl e \<Rightarrow> Inl e
              | Inr issuers \<Rightarrow>
                  if crUnverified subject \<and> \<not> References authz ''subject_token''
                  then Inl ''the unverified subject mode requires the authorization predicate to reference subject_token''
                  else if list_ex (\<lambda>r. crRequireAbsentAudience (role r) \<and> \<not> References authz (extractionVariable r)) all_roles
                  then Inl ''audience_requirement absent requires the authorization predicate to reference the credential''
                  else case ParseAllowedSubjectCategories (ruAllowedSubjectCategories cfg) of
                      None \<Rightarrow> Inl ''invalid allowed_subject_categories''
                    | Some (human, agent) \<Rightarrow>
                        Inr \<lparr>clName = ruName cfg, clRoles = role, clIssuers = issuers, clAuthz = authz,
                             clAllowsHuman = human, clAllowsAgent = agent\<rparr>)
      | _ \<Rightarrow> Inl ''rule is missing a role''))))"

definition classifySubject :: "bool \<Rightarrow> bool \<Rightarrow> claims \<Rightarrow> agent_id \<Rightarrow> SubjectCategory" where
  "classifySubject unverified predicateBindsSub cl target =
     (if map_of cl ''sub'' \<noteq> Some (GString target) \<or> (unverified \<and> \<not> predicateBindsSub) then SubjectCategoryHuman else SubjectCategoryAgent)"

definition rule_allows :: "'ks compiledRule \<Rightarrow> SubjectCategory \<Rightarrow> bool" where
  "rule_allows rule category = (case category of SubjectCategoryHuman \<Rightarrow> clAllowsHuman rule | SubjectCategoryAgent \<Rightarrow> clAllowsAgent rule)"

section \<open>The service\<close>

datatype UserDelegationStatus = UserDelegationActive | UserDelegationMissing | UserDelegationExpired | UserDelegationOther string

record ImpersonationMintInput =
  miSubject :: string
  miEmail :: "string option"
  miActor :: string
  miActorIssuer :: string
  miTargetAgent :: Agent
  miScopes :: "string list"

text \<open>A lookup may return a nil agent without an error.\<close>

record imp_deps =
  idGet :: "agent_id \<Rightarrow> StorageError + Agent option"
  idGetByCanonicalID :: "string \<Rightarrow> StorageError + Agent option"
  idIssue :: "ImpersonationMintInput \<Rightarrow> string + string"
  idVerifyUserDelegation :: "principal \<Rightarrow> agent_id \<Rightarrow> string + UserDelegationStatus"

record 'ks imp_service =
  imAudiencePrefix :: string
  imRules :: "'ks compiledRule list"
  imDeps :: imp_deps
  imConsentBaseURL :: string

definition ValidateAudiencePrefix :: "'ks imp_lib \<Rightarrow> string \<Rightarrow> string option" where
  "ValidateAudiencePrefix lib prefix =
     (case ilParseURL lib prefix of
        None \<Rightarrow> Some ''audience_prefix must be an absolute HTTP(S) URI''
      | Some u \<Rightarrow>
          if puScheme u = [] \<or> (puScheme u \<noteq> ''http'' \<and> puScheme u \<noteq> ''https'') \<or> puHost u = [] \<or> puHasUser u \<or> puForceQuery u \<or>
             puRawQuery u \<noteq> [] \<or> puFragment u \<noteq> [] \<or> HasSuffix (puPath u) ''/''
          then Some ''audience_prefix must be an absolute HTTP(S) URI'' else None)"

definition clockSkewOrDefault :: "duration \<Rightarrow> duration" where
  "clockSkewOrDefault skew = (if skew \<le> 0 then 60000000000 else skew)"

fun service_rules ::
  "'ks imp_lib \<Rightarrow> (TrustedTokenIssuerConfig \<Rightarrow> string + 'ks jwks_provider) \<Rightarrow> duration \<Rightarrow> string list \<Rightarrow> ImpersonationRuleConfig list \<Rightarrow>
    string + 'ks compiledRule list" where
  "service_rules lib factory skew seen [] = Inr []"
| "service_rules lib factory skew seen (c # cs) =
     (if ruName c = [] then Inl ''name is required''
      else if ruName c \<in> set seen then Inl ''duplicate rule name''
      else case compileRule lib factory (clockSkewOrDefault skew) c of
          Inl e \<Rightarrow> Inl e
        | Inr rule \<Rightarrow> (case service_rules lib factory skew (ruName c # seen) cs of Inl e \<Rightarrow> Inl e | Inr rules \<Rightarrow> Inr (rule # rules)))"

text \<open>The ports are given or not; the audience prefix and the rules are those of the configuration.\<close>

text \<open>The ports \<^verbatim>\<open>NewService\<close> is given, or the first of them that is \<^verbatim>\<open>nil\<close> or unfit.\<close>

datatype missing_port = NilAgents | NoCanonicalAgents | NilIssuer | NilDelegationVerifier

fun missing_port_error :: "missing_port \<Rightarrow> string" where
  "missing_port_error NilAgents = ''impersonation agent repository is nil''"
| "missing_port_error NoCanonicalAgents = ''impersonation agent repository must support canonical ID resolution''"
| "missing_port_error NilIssuer = ''impersonation token issuer is nil''"
| "missing_port_error NilDelegationVerifier = ''impersonation user delegation verifier is nil''"

definition NewService ::
  "'ks imp_lib \<Rightarrow> (string \<times> ImpersonationRuleConfig list) option \<Rightarrow> (TrustedTokenIssuerConfig \<Rightarrow> string + 'ks jwks_provider) \<Rightarrow>
    missing_port + imp_deps \<Rightarrow> duration \<Rightarrow> string \<Rightarrow> string + 'ks imp_service" where
  "NewService lib cfg factory deps clockSkew consentBaseURL =
     (case cfg of
        None \<Rightarrow> Inl ''impersonation config is nil''
      | Some (prefix, rules) \<Rightarrow>
          (case deps of
             Inl missing \<Rightarrow> Inl (missing_port_error missing)
           | Inr ports \<Rightarrow>
               if consentBaseURL = [] then Inl ''impersonation consent base URL is required''
               else case ValidateAudiencePrefix lib prefix of
                   Some e \<Rightarrow> Inl e
                 | None \<Rightarrow>
                     if rules = [] then Inl ''at least one impersonation rule is required''
                     else case service_rules lib factory clockSkew [] rules of
                         Inl e \<Rightarrow> Inl e
                       | Inr compiled \<Rightarrow>
                           Inr \<lparr>imAudiencePrefix = prefix, imRules = compiled, imDeps = ports, imConsentBaseURL = consentBaseURL\<rparr>))"

definition invalidTargetSuffix :: TokenExchangeError where
  "invalidTargetSuffix = invalidRequest ''audience target must be an agent UUID or canonical ID''"

definition resolved_target :: "bool \<Rightarrow> StorageError + Agent option \<Rightarrow> TokenExchangeError + Agent" where
  "resolved_target canceled found =
     (case found of
        Inl e \<Rightarrow>
          if seKind e = ErrorKindNotFound
          then Inl (originError canceled (NewInvalidTargetError ''audience target agent was not found'') [error_cause.OtherCause ''lookup''] StageIdentityResolution DetailAgentMissing)
          else Inl (originError canceled (serverError ''audience target agent lookup failed'') [error_cause.OtherCause ''lookup''] StageIdentityResolution DetailAgentRepositoryUnavailable)
      | Inr None \<Rightarrow> Inl (originError canceled (serverError ''audience target agent lookup returned an invalid agent'') [] StageIdentityResolution DetailAgentInvalid)
      | Inr (Some agent) \<Rightarrow>
          if agID agent = uuid_nil
          then Inl (originError canceled (serverError ''audience target agent lookup returned an invalid agent'') [] StageIdentityResolution DetailAgentInvalid)
          else Inr agent)"

text \<open>\<open>None\<close>: the audience does not activate impersonation.\<close>

definition ResolveTarget :: "'ks imp_lib \<Rightarrow> 'ks imp_service \<Rightarrow> bool \<Rightarrow> string list \<Rightarrow> (TokenExchangeError + Agent) option" where
  "ResolveTarget lib S canceled audiences =
     (case audiences of
        [aud] \<Rightarrow>
          if aud = imAudiencePrefix S then Some (Inl invalidTargetSuffix)
          else if \<not> HasPrefix aud (imAudiencePrefix S @ ''/'') then None
          else let suffix = drop (length (imAudiencePrefix S) + 1) aud
               in Some (case ilParseAgentID lib suffix of
                    Some targetID \<Rightarrow> if targetID \<noteq> suffix then Inl invalidTargetSuffix else resolved_target canceled (idGet (imDeps S) targetID)
                  | None \<Rightarrow>
                      if canonical_Validate (ilParseAgentID lib) (Some suffix) \<noteq> None then Inl invalidTargetSuffix
                      else resolved_target canceled (idGetByCanonicalID (imDeps S) suffix))
      | _ \<Rightarrow> None)"

section \<open>Evaluation of a rule\<close>

record imp_call =
  icNow :: time
  icCanceled :: "string \<Rightarrow> FailureStage \<Rightarrow> bool"

record ruleResult =
  rrRuleName :: string
  rrMatched :: bool
  rrResponse :: "TokenExchangeResponse option"
  rrFailure :: "TokenExchangeError option"
  rrAbort :: "TokenExchangeError option"
  rrCategory :: "SubjectCategory option"
  rrClient :: string
  rrActor :: string
  rrSubject :: string
  rrIssuerRoles :: "string list"

definition new_result :: "string \<Rightarrow> ruleResult" where
  "new_result name = \<lparr>rrRuleName = name, rrMatched = False, rrResponse = None, rrFailure = None, rrAbort = None, rrCategory = None,
     rrClient = [], rrActor = [], rrSubject = [], rrIssuerRoles = []\<rparr>"

definition failed :: "ruleResult \<Rightarrow> TokenExchangeError \<Rightarrow> ruleResult" where
  "failed res e = res\<lparr>rrFailure := Some e\<rparr>"

definition aborted :: "ruleResult \<Rightarrow> TokenExchangeError \<Rightarrow> ruleResult" where
  "aborted res e = res\<lparr>rrAbort := Some e\<rparr>"

definition credentialError :: "bool \<Rightarrow> TokenExchangeError \<Rightarrow> credential_error \<Rightarrow> FailureStage \<Rightarrow> TokenExchangeError" where
  "credentialError canceled envelope cause stage =
     (let client = (stage = StageClientValidation);
          detail = (if cause = CredentialKeysUnavailable then DetailJWKSUnavailable
                    else if cause = CredentialJWT TokenExpiredError then (if client then DetailClientExpired else DetailSubjectExpired)
                    else if client then DetailClientInvalid else DetailSubjectInvalid)
      in originError canceled envelope [error_cause.OtherCause ''credential''] stage detail)"

definition credential_failure :: "imp_call \<Rightarrow> ruleResult \<Rightarrow> TokenExchangeError \<Rightarrow> credential_error \<Rightarrow> FailureStage \<Rightarrow> ruleResult" where
  "credential_failure call res envelope e stage = failed res (credentialError (icCanceled call (rrRuleName res) stage) envelope e stage)"

text \<open>The credentials: the claims of the client, of the actor with its issuer, and of the subject.\<close>

definition rule_credentials ::
  "'ks imp_lib \<Rightarrow> imp_call \<Rightarrow> 'ks compiledRule \<Rightarrow> Request \<Rightarrow> verification_state \<Rightarrow>
    (ruleResult + ruleResult \<times> claims \<times> claims \<times> 'ks compiledIssuer \<times> claims) \<times> verification_state" where
  "rule_credentials lib call rule req st =
     (let res = new_result (clName rule)
      in case validateCredential lib (icNow call) rule CredentialRoleClientAssertion (iqClientAssertion req) st of
           (Inl e, st1) \<Rightarrow> (Inl (credential_failure call res (invalidClient ''client assertion validation failed'') e StageClientValidation), st1)
         | (Inr (clientClaims, _), st1) \<Rightarrow>
             (let res1 = res\<lparr>rrIssuerRoles := [''client_assertion'']\<rparr>
              in case validateCredential lib (icNow call) rule CredentialRoleActor (iqActorToken req) st1 of
                   (Inl e, st2) \<Rightarrow> (Inl (credential_failure call res1 (invalidRequest ''actor token validation failed'') e StageSubjectValidation), st2)
                 | (Inr (actorClaims, actorIssuer), st2) \<Rightarrow>
                     (let res2 = res1\<lparr>rrIssuerRoles := [''client_assertion'', ''actor'']\<rparr>
                      in if iqSubjectTokenType req \<noteq> JWTTokenType
                         then (Inl (failed res2 (invalidRequest ''subject_token_type must be the RFC 8693 JWT token type'')), st2)
                         else if crUnverified (clRoles rule CredentialRoleSubject)
                         then (case parseUnverifiedSubject lib (iqSubjectToken req) of
                                 Inl e \<Rightarrow> (Inl (credential_failure call res2 (invalidRequest ''unverified subject token is invalid'') e StageSubjectValidation), st2)
                               | Inr subjectClaims \<Rightarrow> (Inr (res2, clientClaims, actorClaims, actorIssuer, subjectClaims), st2))
                         else (case validateCredential lib (icNow call) rule CredentialRoleSubject (iqSubjectToken req) st2 of
                                 (Inl e, st3) \<Rightarrow> (Inl (credential_failure call res2 (invalidRequest ''subject token validation failed'') e StageSubjectValidation), st3)
                               | (Inr (subjectClaims, _), st3) \<Rightarrow>
                                   (Inr (res2\<lparr>rrIssuerRoles := [''client_assertion'', ''actor'', ''subject'']\<rparr>, clientClaims, actorClaims, actorIssuer, subjectClaims), st3)))))"

definition identity_error :: "imp_call \<Rightarrow> ruleResult \<Rightarrow> string \<Rightarrow> string + string \<Rightarrow> TokenExchangeError" where
  "identity_error call res msg r =
     originError (icCanceled call (rrRuleName res) StageIdentityResolution) (invalidRequest msg)
       (case r of Inl e \<Rightarrow> [error_cause.OtherCause e] | Inr _ \<Rightarrow> []) StageIdentityResolution DetailCELEvaluationFailed"

definition rule_identity :: "imp_call \<Rightarrow> ruleResult \<Rightarrow> string \<Rightarrow> compiledRole \<Rightarrow> claims \<Rightarrow> ruleResult + string" where
  "rule_identity call res msg role cl =
     (let r = extract_text (crPrincipal role) cl
      in case r of Inr (c # cs) \<Rightarrow> Inr (c # cs) | _ \<Rightarrow> Inl (failed res (identity_error call res msg r)))"

definition rule_identities ::
  "imp_call \<Rightarrow> 'ks compiledRule \<Rightarrow> ruleResult \<Rightarrow> claims \<Rightarrow> claims \<Rightarrow> claims \<Rightarrow> ruleResult + ruleResult" where
  "rule_identities call rule res clientClaims actorClaims subjectClaims =
     (case rule_identity call res ''could not extract privileged client identity'' (clRoles rule CredentialRoleClientAssertion) clientClaims of
        Inl f \<Rightarrow> Inl f
      | Inr clientID \<Rightarrow>
          (let res1 = res\<lparr>rrClient := clientID\<rparr>
           in case rule_identity call res1 ''could not extract actor identity'' (clRoles rule CredentialRoleActor) actorClaims of
                Inl f \<Rightarrow> Inl f
              | Inr actorID \<Rightarrow>
                  (let res2 = res1\<lparr>rrActor := actorID\<rparr>
                   in case rule_identity call res2 ''could not extract subject identity'' (clRoles rule CredentialRoleSubject) subjectClaims of
                        Inl f \<Rightarrow> Inl f
                      | Inr subjectID \<Rightarrow> Inr (res2\<lparr>rrSubject := subjectID\<rparr>))))"

fun other_agent_loop :: "'ks imp_lib \<Rightarrow> (agent_id \<Rightarrow> StorageError + Agent option) \<Rightarrow> agent_id \<Rightarrow> agent_id list \<Rightarrow> string list \<Rightarrow> StorageError + bool" where
  "other_agent_loop lib get target checked [] = Inr False"
| "other_agent_loop lib get target checked (candidate # rest) =
     (case ilParseAgentID lib candidate of
        None \<Rightarrow> other_agent_loop lib get target checked rest
      | Some agentID \<Rightarrow>
          if agentID \<noteq> candidate \<or> agentID = target \<or> agentID \<in> set checked then other_agent_loop lib get target checked rest
          else case get agentID of
              Inl e \<Rightarrow> if seKind e = ErrorKindNotFound then other_agent_loop lib get target (agentID # checked) rest else Inl e
            | Inr _ \<Rightarrow> Inr True)"

definition isOtherRegisteredAgent :: "'ks imp_lib \<Rightarrow> 'ks imp_service \<Rightarrow> agent_id \<Rightarrow> string list \<Rightarrow> StorageError + bool" where
  "isOtherRegisteredAgent lib S target candidates = other_agent_loop lib (idGet (imDeps S)) target [] candidates"

definition raw_sub :: "claims \<Rightarrow> string" where
  "raw_sub cl = (case map_of cl ''sub'' of Some (GString s) \<Rightarrow> s | _ \<Rightarrow> [])"

text \<open>The category; the identity the expression gave stays the principal of the delegation.\<close>

definition rule_category ::
  "'ks imp_lib \<Rightarrow> 'ks imp_service \<Rightarrow> imp_call \<Rightarrow> 'ks compiledRule \<Rightarrow> agent_id \<Rightarrow> ruleResult \<Rightarrow> claims \<Rightarrow> ruleResult + ruleResult \<times> SubjectCategory" where
  "rule_category lib S call rule target res subjectClaims =
     (let unverified = crUnverified (clRoles rule CredentialRoleSubject);
          subBound = Binds (clAuthz rule) ''subject_token'' ''sub'';
          category = classifySubject unverified subBound subjectClaims target;
          res1 = res\<lparr>rrCategory := Some category, rrSubject := (if category = SubjectCategoryAgent then target else rrSubject res)\<rparr>;
          eligible = (if rule_allows rule category then Inr (res1, category) else Inl (failed res1 categoryIneligible))
      in if category = SubjectCategoryHuman \<and> (\<not> unverified \<or> subBound)
         then (case isOtherRegisteredAgent lib S target [raw_sub subjectClaims, rrSubject res] of
                 Inl _ \<Rightarrow> Inl (aborted res1 (originError (icCanceled call (rrRuleName res) StageIdentityResolution) (serverError ''subject agent lookup failed'')
                             [error_cause.OtherCause ''lookup''] StageIdentityResolution DetailAgentRepositoryUnavailable))
               | Inr True \<Rightarrow> Inl (failed (res1\<lparr>rrCategory := Some SubjectCategoryAgent\<rparr>) categoryIneligible)
               | Inr False \<Rightarrow> eligible)
         else eligible)"

definition rule_email :: "imp_call \<Rightarrow> 'ks compiledRule \<Rightarrow> SubjectCategory \<Rightarrow> ruleResult \<Rightarrow> claims \<Rightarrow> ruleResult + string option" where
  "rule_email call rule category res subjectClaims =
     (case crEmail (clRoles rule CredentialRoleSubject) of
        None \<Rightarrow> Inr None
      | Some extractor \<Rightarrow>
          if category = SubjectCategoryHuman \<and> (\<not> crUnverified (clRoles rule CredentialRoleSubject) \<or> Binds (clAuthz rule) ''subject_token'' ''email'')
          then (case extract_text extractor subjectClaims of
                  Inl e \<Rightarrow> Inl (failed res (identity_error call res ''could not extract subject email'' (Inl e)))
                | Inr v \<Rightarrow> Inr (if v = [] then None else Some v))
          else Inr None)"

definition rule_authorized ::
  "imp_call \<Rightarrow> 'ks compiledRule \<Rightarrow> ruleResult \<Rightarrow> claims \<Rightarrow> claims \<Rightarrow> claims \<Rightarrow> requestContext \<Rightarrow> ruleResult option" where
  "rule_authorized call rule res clientClaims actorClaims subjectClaims request =
     (case authz_evaluate (clAuthz rule) clientClaims actorClaims subjectClaims (crUnverified (clRoles rule CredentialRoleSubject)) request of
        Inl e \<Rightarrow> Some (aborted res (originError (icCanceled call (rrRuleName res) StageClientAuthorization) (serverError ''authorization evaluation failed'')
                   [error_cause.OtherCause e] StageClientAuthorization DetailCELEvaluationFailed))
      | Inr ok \<Rightarrow> if ok then None else Some (failed res (accessDenied ''impersonation not authorized by policy'')))"

definition rule_delegated :: "'ks imp_service \<Rightarrow> imp_call \<Rightarrow> ruleResult \<Rightarrow> principal \<Rightarrow> agent_id \<Rightarrow> ruleResult option" where
  "rule_delegated S call res p target =
     (let canceled = icCanceled call (rrRuleName res) StageGrantAuthorization;
          consent = (\<lambda>detail. Some (aborted res (WithDiagnostic (impersonationDiagnostic StageGrantAuthorization detail)
                      (consentRequired (agentConsentURL (imConsentBaseURL S) target)))))
      in case idVerifyUserDelegation (imDeps S) p target of
           Inl e \<Rightarrow> Some (aborted res (originError canceled (serverError ''user delegation verification failed'') [error_cause.OtherCause e]
                     StageGrantAuthorization DetailGrantRepositoryUnavailable))
         | Inr UserDelegationActive \<Rightarrow> None
         | Inr UserDelegationMissing \<Rightarrow> consent DetailGrantMissing
         | Inr UserDelegationExpired \<Rightarrow> consent DetailGrantExpired
         | Inr (UserDelegationOther _) \<Rightarrow> Some (aborted res (originError canceled (serverError ''user delegation verification returned an unknown status'') []
                     StageGrantAuthorization DetailInternalUnclassified)))"

definition rule_mint ::
  "'ks imp_service \<Rightarrow> imp_call \<Rightarrow> Request \<Rightarrow> Agent \<Rightarrow> ruleResult \<Rightarrow> string option \<Rightarrow> string \<Rightarrow> ruleResult" where
  "rule_mint S call req target res email actorIssuer =
     (case idIssue (imDeps S) \<lparr>miSubject = rrSubject res, miEmail = email, miActor = rrActor res, miActorIssuer = actorIssuer,
             miTargetAgent = target, miScopes = iqScopes req\<rparr> of
        Inl e \<Rightarrow> aborted res (originError (icCanceled call (rrRuleName res) StageExchangeRouting) (serverError ''failed to mint impersonation token'')
                  [error_cause.OtherCause e] StageExchangeRouting DetailInternalUnclassified)
      | Inr token \<Rightarrow> res\<lparr>rrMatched := True,
          rrResponse := Some ((NewTokenExchangeResponseFull token ''Bearer'' AccessTokenType [] [] None)\<lparr>rpScope := Join (iqScopes req) '' ''\<rparr>)\<rparr>)"

definition evaluateRule ::
  "'ks imp_lib \<Rightarrow> 'ks imp_service \<Rightarrow> imp_call \<Rightarrow> 'ks compiledRule \<Rightarrow> Request \<Rightarrow> requestContext \<Rightarrow> Agent \<Rightarrow> verification_state \<Rightarrow> ruleResult \<times> verification_state" where
  "evaluateRule lib S call rule req request target st =
     (case rule_credentials lib call rule req st of
        (Inl res, st') \<Rightarrow> (res, st')
      | (Inr (res, clientClaims, actorClaims, actorIssuer, subjectClaims), st') \<Rightarrow>
          ((case rule_identities call rule res clientClaims actorClaims subjectClaims of
              Inl r \<Rightarrow> r
            | Inr res1 \<Rightarrow>
           (case rule_category lib S call rule (agID target) res1 subjectClaims of
              Inl r \<Rightarrow> r
            | Inr (res2, category) \<Rightarrow>
           (case rule_email call rule category res2 subjectClaims of
              Inl r \<Rightarrow> r
            | Inr email \<Rightarrow>
           (case rule_authorized call rule res2 clientClaims actorClaims subjectClaims request of
              Some r \<Rightarrow> r
            | None \<Rightarrow>
           (case (if category = SubjectCategoryHuman then rule_delegated S call res2 (rrSubject res1) (agID target) else None) of
              Some r \<Rightarrow> r
            | None \<Rightarrow> rule_mint S call req target res2 email (ciIssuerURI actorIssuer)))))), st'))"

section \<open>First match\<close>

record AuditRecord =
  arSubjectCategory :: "SubjectCategory option"
  arOutcome :: string
  arTargetAgentID :: string
  arSelectedRule :: string
  arIssuerRoles :: "string list"
  arPrivilegedClientIdentity :: string
  arActorIdentity :: string
  arSubjectIdentity :: string
  arOAuthErrorCode :: string

record ImpersonationOutcome =
  ocResponse :: "TokenExchangeResponse option"
  ocAudit :: AuditRecord

definition successAudit :: "string \<Rightarrow> ruleResult \<Rightarrow> AuditRecord" where
  "successAudit target res = \<lparr>arSubjectCategory = rrCategory res, arOutcome = ''success'', arTargetAgentID = target, arSelectedRule = rrRuleName res,
     arIssuerRoles = rrIssuerRoles res, arPrivilegedClientIdentity = rrClient res, arActorIdentity = rrActor res, arSubjectIdentity = rrSubject res,
     arOAuthErrorCode = []\<rparr>"

definition failureAudit :: "string \<Rightarrow> ruleResult option \<Rightarrow> TokenExchangeError \<Rightarrow> AuditRecord" where
  "failureAudit target r e =
     (let res = (case r of None \<Rightarrow> new_result [] | Some x \<Rightarrow> x)
      in \<lparr>arSubjectCategory = rrCategory res, arOutcome = teCode e, arTargetAgentID = target, arSelectedRule = rrRuleName res,
          arIssuerRoles = rrIssuerRoles res, arPrivilegedClientIdentity = rrClient res, arActorIdentity = rrActor res, arSubjectIdentity = rrSubject res,
          arOAuthErrorCode = teCode e\<rparr>)"

definition resultForCode :: "ruleResult list \<Rightarrow> string \<Rightarrow> ruleResult" where
  "resultForCode results code =
     (case find (\<lambda>r. case rrFailure r of None \<Rightarrow> False | Some e \<Rightarrow> teCode e = code) results of
        Some r \<Rightarrow> r
      | None \<Rightarrow> if results = [] then new_result [] else last results)"

fun rule_loop ::
  "'ks imp_lib \<Rightarrow> 'ks imp_service \<Rightarrow> imp_call \<Rightarrow> Request \<Rightarrow> requestContext \<Rightarrow> Agent \<Rightarrow> ruleResult list \<Rightarrow> verification_state \<Rightarrow>
    'ks compiledRule list \<Rightarrow> ImpersonationOutcome \<times> TokenExchangeError option" where
  "rule_loop lib S call req request target results st [] =
     (let selected = selectNoMatchError (map rrFailure results)
      in (\<lparr>ocResponse = None, ocAudit = failureAudit (agID target) (Some (resultForCode results (teCode selected))) selected\<rparr>, Some selected))"
| "rule_loop lib S call req request target results st (rule # rules) =
     (case evaluateRule lib S call rule req request target st of
        (res, st') \<Rightarrow>
          if rrMatched res then (\<lparr>ocResponse = rrResponse res, ocAudit = successAudit (agID target) res\<rparr>, None)
          else case rrAbort res of
              Some e \<Rightarrow> (\<lparr>ocResponse = None, ocAudit = failureAudit (agID target) (Some res) e\<rparr>, Some e)
            | None \<Rightarrow> rule_loop lib S call req request target (results @ [res]) st' rules)"

definition imp_request :: "Request \<Rightarrow> Agent \<Rightarrow> requestContext" where
  "imp_request req agent = \<lparr>rcxResource = [], rcxGrantType = TokenExchangeGrantType, rcxScope = iqScope req, rcxAgentID = agID agent\<rparr>"

definition Impersonate :: "'ks imp_lib \<Rightarrow> 'ks imp_service \<Rightarrow> imp_call \<Rightarrow> Request \<Rightarrow> Agent option \<Rightarrow> ImpersonationOutcome \<times> TokenExchangeError option" where
  "Impersonate lib S call req target =
     (let no_target = WithDiagnostic (impersonationDiagnostic StageIdentityResolution DetailAgentInvalid) (serverError ''impersonation target agent is required'');
          refuse = (\<lambda>aid e. (\<lparr>ocResponse = None, ocAudit = failureAudit aid None e\<rparr>, Some e))
      in case target of
           None \<Rightarrow> refuse [] no_target
         | Some agent \<Rightarrow>
             if agID agent = uuid_nil then refuse [] no_target
             else if list_ex (\<lambda>scope. \<not> IsScopeAllowed (agAllowedScopes agent) scope) (iqScopes req)
             then refuse (agID agent) (invalidScope ''requested scope is not permitted'')
             else rule_loop lib S call req (imp_request req agent) agent [] ([], 0) (imRules S))"

text \<open>\<^verbatim>\<open>userDelegationVerifier\<close>, over the access check of the consent service.\<close>

definition VerifyUserDelegation :: "'st grant_port \<Rightarrow> time \<Rightarrow> 'st \<Rightarrow> principal \<Rightarrow> agent_id \<Rightarrow> string + UserDelegationStatus" where
  "VerifyUserDelegation R now st p agentID =
     (case VerifyAgentAccess R now st p agentID of
        Inr _ \<Rightarrow> Inr UserDelegationActive
      | Inl ErrAgentAccessDenied \<Rightarrow> Inr UserDelegationMissing
      | Inl ErrGrantExpired \<Rightarrow> Inr UserDelegationExpired
      | Inl AccessFailure \<Rightarrow> Inl ''verify user delegation'')"

section \<open>What a validated credential has\<close>

definition service_issuers :: "'ks imp_service \<Rightarrow> 'ks compiledIssuer set" where
  "service_issuers S = (\<Union>rule \<in> set (imRules S). set (clIssuers rule))"

text \<open>Go compares providers by pointer: issuers with the same pointer share one provider.\<close>

definition pointers_ok :: "'ks imp_service \<Rightarrow> bool" where
  "pointers_ok S \<longleftrightarrow> (\<forall>i \<in> service_issuers S. \<forall>j \<in> service_issuers S.
     pvPointer (svProvider (ciValidator i)) \<noteq> None \<longrightarrow> pvPointer (svProvider (ciValidator i)) = pvPointer (svProvider (ciValidator j)) \<longrightarrow>
     svProvider (ciValidator i) = svProvider (ciValidator j))"

definition cache_ok :: "'ks imp_lib \<Rightarrow> 'ks imp_service \<Rightarrow> verification_state \<Rightarrow> bool" where
  "cache_ok lib S st \<longleftrightarrow> (\<forall>role token p tok. map_of (fst st) (role, token, p) = Some (Inr tok) \<longrightarrow>
     (\<exists>i \<in> service_issuers S. \<exists>k. pvPointer (svProvider (ciValidator i)) = Some p \<and> validator_verify lib (ciValidator i) token k = Inr tok))"

lemma cache_okD:
  "cache_ok lib S st \<Longrightarrow> map_of (fst st) (role, token, p) = Some (Inr tok) \<Longrightarrow>
    \<exists>i \<in> service_issuers S. \<exists>k. pvPointer (svProvider (ciValidator i)) = Some p \<and> validator_verify lib (ciValidator i) token k = Inr tok"
  unfolding cache_ok_def by blast

lemma cache_ok_new: "cache_ok lib S ([], n)"
  by (simp add: cache_ok_def)

lemma verify_same_provider: "svProvider v = svProvider w \<Longrightarrow> validator_verify lib v token k = validator_verify lib w token k"
  by (simp add: validator_verify_def)

lemma cache_verify_ok:
  assumes P: "pointers_ok S" and I: "issuer \<in> service_issuers S" and c: "cache_ok lib S st"
    and r: "cache_verify lib role token issuer st = (r, st')"
  shows "cache_ok lib S st' \<and> (\<forall>tok. r = Inr tok \<longrightarrow> (\<exists>k. validator_verify lib (ciValidator issuer) token k = Inr tok))"
proof -
  let ?v = "ciValidator issuer"
  let ?r = "validator_verify lib ?v token (snd st)"
  consider (plain) "(r, st') = (?r, fst st, Suc (snd st))"
    | (known) p where "pvPointer (svProvider ?v) = Some p" "map_of (fst st) (role, token, p) = Some r" "st' = st"
    | (fresh) p where "pvPointer (svProvider ?v) = Some p" "r = ?r" "st' = (AList.update (role, token, p) ?r (fst st), Suc (snd st))"
  proof (cases "if svCacheByProvider ?v then pvPointer (svProvider ?v) else None")
    case None
    with r have "(r, st') = (?r, fst st, Suc (snd st))" by (simp add: cache_verify_def Let_def)
    then show ?thesis by (rule that(1))
  next
    case (Some p)
    then have p: "pvPointer (svProvider ?v) = Some p" by (simp split: if_splits)
    show ?thesis
    proof (cases "map_of (fst st) (role, token, p)")
      case None
      with r Some have "r = ?r" "st' = (AList.update (role, token, p) ?r (fst st), Suc (snd st))" by (auto simp: cache_verify_def Let_def)
      with p show ?thesis by (rule that(3))
    next
      case (Some known)
      with r \<open>(if svCacheByProvider ?v then pvPointer (svProvider ?v) else None) = Some p\<close>
      have "map_of (fst st) (role, token, p) = Some r" "st' = st" by (simp_all add: cache_verify_def Let_def)
      with p show ?thesis by (rule that(2))
    qed
  qed
  then show ?thesis
  proof cases
    case plain
    with c show ?thesis by (auto simp: cache_ok_def)
  next
    case known
    have "\<exists>k. validator_verify lib ?v token k = Inr tok" if "r = Inr tok" for tok
    proof -
      from cache_okD [OF c known(2) [unfolded that]] obtain i k where i: "i \<in> service_issuers S" "pvPointer (svProvider (ciValidator i)) = Some p"
          and k: "validator_verify lib (ciValidator i) token k = Inr tok" by blast
      with P I known(1) have "svProvider (ciValidator i) = svProvider ?v" unfolding pointers_ok_def by simp
      with k verify_same_provider show ?thesis by metis
    qed
    with c known(3) show ?thesis by blast
  next
    case fresh
    have "cache_ok lib S st'" unfolding cache_ok_def
    proof (intro allI impI)
      fix role' token' p' tok assume m: "map_of (fst st') (role', token', p') = Some (Inr tok)"
      show "\<exists>i \<in> service_issuers S. \<exists>k. pvPointer (svProvider (ciValidator i)) = Some p' \<and> validator_verify lib (ciValidator i) token' k = Inr tok"
      proof (cases "(role', token', p') = (role, token, p)")
        case True
        with m fresh(3) have "?r = Inr tok" by (simp add: go_map_simps)
        with True I fresh(1) show ?thesis by blast
      next
        case False
        with m fresh(3) have "map_of (fst st) (role', token', p') = Some (Inr tok)" by (auto simp: go_map_simps)
        from cache_okD [OF c this] show ?thesis .
      qed
    qed
    with fresh(2) show ?thesis by metis
  qed
qed

text \<open>A trusted credential: signed with an approved algorithm by an issuer of the rule that may sign the role,
  under a key set the issuer's provider served, with claims that are valid now for that issuer and audience.\<close>

definition trusted_credential ::
  "'ks imp_lib \<Rightarrow> time \<Rightarrow> 'ks compiledRule \<Rightarrow> CredentialRole \<Rightarrow> string \<Rightarrow> claims \<Rightarrow> 'ks compiledIssuer \<Rightarrow> bool" where
  "trusted_credential lib now rule role token cl issuer \<longleftrightarrow>
     issuer \<in> set (clIssuers rule) \<and> role \<in> set (ciSignsRoles issuer) \<and>
     (\<exists>alg. protectedHeaderAlgorithm lib token = Inr alg \<and> IsApprovedAlgorithm alg \<and> alg \<in> set (svAllowedAlgorithms (ciValidator issuer))) \<and>
     (\<exists>k ks tok. pvKeySet (svProvider (ciValidator issuer)) k = Inr ks \<and> ilVerify lib token ks = Inr tok \<and> cl = FromToken tok \<and>
        ilValidate lib now tok (svIssuerURI (ciValidator issuer))
          (if crRequireAbsentAudience (clRoles rule role) then None else Some (crExpectedAudience (clRoles rule role)))
          (svClockSkew (ciValidator issuer)) = None \<and>
        (crRequireAbsentAudience (clRoles rule role) \<longrightarrow> tkAudience tok = None))"

lemma validator_verify_Inr: "validator_verify lib v token k = Inr tok \<Longrightarrow> \<exists>ks. pvKeySet (svProvider v) k = Inr ks \<and> ilVerify lib token ks = Inr tok"
  by (auto simp: validator_verify_def map_sum_def split: sum.splits)

lemma validateCredential_ok:
  assumes P: "pointers_ok S" and R: "rule \<in> set (imRules S)" and c: "cache_ok lib S st"
    and r: "validateCredential lib now rule role token st = (r, st')"
  shows "cache_ok lib S st' \<and> (\<forall>cl issuer. r = Inr (cl, issuer) \<longrightarrow> trusted_credential lib now rule role token cl issuer)"
proof -
  consider (refused) e where "r = Inl e" "st' = st"
    | (checked) iss issuer q where "issuerFor rule role iss = Some issuer" "validateAlgorithm lib (ciValidator issuer) token = None"
        "cache_verify lib role token issuer st = (q, st')"
        "r = (case q of Inl e \<Rightarrow> Inl e | Inr tok \<Rightarrow> map_sum id (\<lambda>cl. (cl, issuer)) (signed_validateClaims lib now (ciValidator issuer) tok
                (crExpectedAudience (clRoles rule role)) (crRequireAbsentAudience (clRoles rule role))))"
    using r by (auto simp: validateCredential_def split: sum.splits option.splits prod.splits)
  then show ?thesis
  proof cases
    case refused
    with c show ?thesis by simp
  next
    case checked
    from checked(1) have i: "issuer \<in> set (clIssuers rule)" "role \<in> set (ciSignsRoles issuer)"
      unfolding issuerFor_def by (auto simp: find_Some_iff)
    with R have "issuer \<in> service_issuers S" unfolding service_issuers_def by blast
    note v = cache_verify_ok [OF P this c checked(3)]
    have "trusted_credential lib now rule role token cl issuer'" if res: "r = Inr (cl, issuer')" for cl issuer'
    proof -
      from res checked(4) obtain tok where q: "q = Inr tok" and same: "issuer' = issuer"
          and cl: "signed_validateClaims lib now (ciValidator issuer) tok (crExpectedAudience (clRoles rule role)) (crRequireAbsentAudience (clRoles rule role)) = Inr cl"
        by (auto simp: map_sum_def split: sum.splits)
      from v q obtain k ks where ks: "pvKeySet (svProvider (ciValidator issuer)) k = Inr ks" "ilVerify lib token ks = Inr tok"
        using validator_verify_Inr by blast
      from cl have "cl = FromToken tok" "ilValidate lib now tok (svIssuerURI (ciValidator issuer))
          (if crRequireAbsentAudience (clRoles rule role) then None else Some (crExpectedAudience (clRoles rule role)))
          (svClockSkew (ciValidator issuer)) = None" "crRequireAbsentAudience (clRoles rule role) \<longrightarrow> tkAudience tok = None"
        by (auto simp: signed_validateClaims_def split: option.splits if_splits)
      moreover from checked(2) have "\<exists>alg. protectedHeaderAlgorithm lib token = Inr alg \<and> IsApprovedAlgorithm alg \<and> alg \<in> set (svAllowedAlgorithms (ciValidator issuer))"
        by (auto simp: validateAlgorithm_def split: sum.splits if_splits)
      ultimately show ?thesis unfolding trusted_credential_def same using i ks by blast
    qed
    with v show ?thesis by blast
  qed
qed

definition trusted_subject :: "'ks imp_lib \<Rightarrow> time \<Rightarrow> 'ks compiledRule \<Rightarrow> string \<Rightarrow> claims \<Rightarrow> bool" where
  "trusted_subject lib now rule token cl \<longleftrightarrow>
     (if crUnverified (clRoles rule CredentialRoleSubject) then parseUnverifiedSubject lib token = Inr cl
      else \<exists>issuer. trusted_credential lib now rule CredentialRoleSubject token cl issuer)"

lemma rule_credentials_ok:
  assumes P: "pointers_ok S" and R: "rule \<in> set (imRules S)" and c: "cache_ok lib S st"
    and r: "rule_credentials lib call rule req st = (r, st')"
  shows "cache_ok lib S st'"
    and "r = Inl res \<Longrightarrow> \<not> rrMatched res"
    and "r = Inr (res, cc, ac, ai, sc) \<Longrightarrow> \<not> rrMatched res \<and> (\<exists>ci. trusted_credential lib (icNow call) rule CredentialRoleClientAssertion (iqClientAssertion req) cc ci) \<and>
      trusted_credential lib (icNow call) rule CredentialRoleActor (iqActorToken req) ac ai \<and> trusted_subject lib (icNow call) rule (iqSubjectToken req) sc"
proof -
  note ok = validateCredential_ok [OF P R]
  obtain q1 st1 where q1: "validateCredential lib (icNow call) rule CredentialRoleClientAssertion (iqClientAssertion req) st = (q1, st1)" by (metis surj_pair)
  obtain q2 st2 where q2: "validateCredential lib (icNow call) rule CredentialRoleActor (iqActorToken req) st1 = (q2, st2)" by (metis surj_pair)
  obtain q3 st3 where q3: "validateCredential lib (icNow call) rule CredentialRoleSubject (iqSubjectToken req) st2 = (q3, st3)" by (metis surj_pair)
  note o1 = ok [OF c q1] and o2 = ok [OF conjunct1 [OF ok [OF c q1]] q2]
  note o3 = ok [OF conjunct1 [OF o2] q3]
  note defs = rule_credentials_def Let_def new_result_def failed_def credential_failure_def q1 q2 q3 trusted_subject_def
  show "cache_ok lib S st'" using r o1 o2 o3 by (auto simp: defs split: sum.splits if_splits)
  show "\<not> rrMatched res" if "r = Inl res" using r that by (auto simp: defs split: sum.splits if_splits)
  show "\<not> rrMatched res \<and> (\<exists>ci. trusted_credential lib (icNow call) rule CredentialRoleClientAssertion (iqClientAssertion req) cc ci) \<and>
      trusted_credential lib (icNow call) rule CredentialRoleActor (iqActorToken req) ac ai \<and> trusted_subject lib (icNow call) rule (iqSubjectToken req) sc"
    if "r = Inr (res, cc, ac, ai, sc)" using r o1 o2 o3 unfolding that by (auto simp: defs split: sum.splits if_splits) blast+
qed

section \<open>What a minted token rests on\<close>

definition minted_subject :: "SubjectCategory \<Rightarrow> string \<Rightarrow> Agent \<Rightarrow> string" where
  "minted_subject category subjectID agent = (if category = SubjectCategoryAgent then agID agent else subjectID)"

text \<open>No candidate is the identifier of a registered agent other than the target.\<close>

definition no_other_agent :: "'ks imp_lib \<Rightarrow> 'ks imp_service \<Rightarrow> agent_id \<Rightarrow> string list \<Rightarrow> bool" where
  "no_other_agent lib S target candidates \<longleftrightarrow>
     (\<forall>c \<in> set candidates. ilParseAgentID lib c = Some c \<longrightarrow> c \<noteq> target \<longrightarrow> (\<exists>e. idGet (imDeps S) c = Inl e \<and> seKind e = ErrorKindNotFound))"

lemma other_agent_loop_False:
  "other_agent_loop lib get target checked cs = Inr False \<Longrightarrow> \<forall>i \<in> set checked. \<exists>e. get i = Inl e \<and> seKind e = ErrorKindNotFound \<Longrightarrow>
    \<forall>c \<in> set cs. ilParseAgentID lib c = Some c \<longrightarrow> c \<noteq> target \<longrightarrow> (\<exists>e. get c = Inl e \<and> seKind e = ErrorKindNotFound)"
proof (induction cs arbitrary: checked)
  case (Cons c cs)
  show ?case
  proof (cases "ilParseAgentID lib c = Some c \<and> c \<noteq> target \<and> c \<notin> set checked")
    case True
    with Cons.prems(1) obtain e where e: "get c = Inl e" "seKind e = ErrorKindNotFound" "other_agent_loop lib get target (c # checked) cs = Inr False"
      by (auto split: sum.splits if_splits)
    from Cons.IH [OF e(3)] Cons.prems(2) e(1,2) show ?thesis by auto
  next
    case False
    with Cons.prems(1) have "other_agent_loop lib get target checked cs = Inr False" by (auto split: option.splits if_splits)
    from Cons.IH [OF this Cons.prems(2)] Cons.prems(2) False show ?thesis by auto
  qed
qed simp

lemma not_other_agent: "isOtherRegisteredAgent lib S target cs = Inr False \<Longrightarrow> no_other_agent lib S target cs"
  using other_agent_loop_False [of lib "idGet (imDeps S)" target "[]" cs] by (simp add: isOtherRegisteredAgent_def no_other_agent_def)

definition rule_permits ::
  "'ks imp_lib \<Rightarrow> 'ks imp_service \<Rightarrow> imp_call \<Rightarrow> Request \<Rightarrow> Agent \<Rightarrow> 'ks compiledRule \<Rightarrow> SubjectCategory \<Rightarrow> string \<Rightarrow> string \<Rightarrow> bool" where
  "rule_permits lib S call req agent rule category subjectID token \<longleftrightarrow>
     (\<exists>cc ci ac ai sc actorID email.
        trusted_credential lib (icNow call) rule CredentialRoleClientAssertion (iqClientAssertion req) cc ci \<and>
        trusted_credential lib (icNow call) rule CredentialRoleActor (iqActorToken req) ac ai \<and>
        trusted_subject lib (icNow call) rule (iqSubjectToken req) sc \<and>
        extract_text (crPrincipal (clRoles rule CredentialRoleActor)) ac = Inr actorID \<and> actorID \<noteq> [] \<and>
        extract_text (crPrincipal (clRoles rule CredentialRoleSubject)) sc = Inr subjectID \<and> subjectID \<noteq> [] \<and>
        category = classifySubject (crUnverified (clRoles rule CredentialRoleSubject)) (Binds (clAuthz rule) ''subject_token'' ''sub'') sc (agID agent) \<and>
        rule_allows rule category \<and>
        (category = SubjectCategoryHuman \<longrightarrow> \<not> crUnverified (clRoles rule CredentialRoleSubject) \<longrightarrow> no_other_agent lib S (agID agent) [raw_sub sc, subjectID]) \<and>
        authz_evaluate (clAuthz rule) cc ac sc (crUnverified (clRoles rule CredentialRoleSubject)) (imp_request req agent) = Inr True \<and>
        (category = SubjectCategoryHuman \<longrightarrow> idVerifyUserDelegation (imDeps S) subjectID (agID agent) = Inr UserDelegationActive) \<and>
        idIssue (imDeps S) \<lparr>miSubject = minted_subject category subjectID agent, miEmail = email, miActor = actorID,
          miActorIssuer = ciIssuerURI ai, miTargetAgent = agent, miScopes = iqScopes req\<rparr> = Inr token)"

lemma rule_identity_cases:
  "rule_identity call res msg role cl = Inl r \<Longrightarrow> rrMatched r = rrMatched res"
  "rule_identity call res msg role cl = Inr s \<Longrightarrow> extract_text (crPrincipal role) cl = Inr s \<and> s \<noteq> []"
  by (auto simp: rule_identity_def Let_def failed_def split: sum.splits list.splits)

lemma rule_identities_cases:
  "rule_identities call rule res cc ac sc = Inl r \<Longrightarrow> rrMatched r = rrMatched res"
  "rule_identities call rule res cc ac sc = Inr r \<Longrightarrow> rrMatched r = rrMatched res \<and> rrRuleName r = rrRuleName res \<and>
     extract_text (crPrincipal (clRoles rule CredentialRoleActor)) ac = Inr (rrActor r) \<and> rrActor r \<noteq> [] \<and>
     extract_text (crPrincipal (clRoles rule CredentialRoleSubject)) sc = Inr (rrSubject r) \<and> rrSubject r \<noteq> []"
  by (auto simp: rule_identities_def Let_def dest!: rule_identity_cases split: sum.splits)

lemma rule_category_cases:
  "rule_category lib S call rule target res sc = Inl r \<Longrightarrow> rrMatched r = rrMatched res"
  "rule_category lib S call rule target res sc = Inr (r, category) \<Longrightarrow>
     category = classifySubject (crUnverified (clRoles rule CredentialRoleSubject)) (Binds (clAuthz rule) ''subject_token'' ''sub'') sc target \<and>
     rule_allows rule category \<and>
     (category = SubjectCategoryHuman \<longrightarrow> \<not> crUnverified (clRoles rule CredentialRoleSubject) \<longrightarrow> no_other_agent lib S target [raw_sub sc, rrSubject res]) \<and>
     r = res\<lparr>rrCategory := Some category, rrSubject := (if category = SubjectCategoryAgent then target else rrSubject res)\<rparr>"
  by (auto simp: rule_category_def Let_def failed_def aborted_def intro: not_other_agent split: sum.splits bool.splits if_splits)

lemma rule_email_fails: "rule_email call rule category res sc = Inl r \<Longrightarrow> rrMatched r = rrMatched res"
  by (auto simp: rule_email_def failed_def split: option.splits sum.splits if_splits)

lemma rule_authorized_cases:
  "rule_authorized call rule res cc ac sc request = Some r \<Longrightarrow> rrMatched r = rrMatched res"
  "rule_authorized call rule res cc ac sc request = None \<Longrightarrow>
     authz_evaluate (clAuthz rule) cc ac sc (crUnverified (clRoles rule CredentialRoleSubject)) request = Inr True"
  by (auto simp: rule_authorized_def failed_def aborted_def split: sum.splits if_splits)

lemma rule_delegated_cases:
  "rule_delegated S call res p target = Some r \<Longrightarrow> rrMatched r = rrMatched res"
  "rule_delegated S call res p target = None \<Longrightarrow> idVerifyUserDelegation (imDeps S) p target = Inr UserDelegationActive"
  by (auto simp: rule_delegated_def Let_def aborted_def split: sum.splits UserDelegationStatus.splits)

lemma rule_mint_cases:
  "rrMatched (rule_mint S call req agent res email iss) \<Longrightarrow> \<not> rrMatched res \<Longrightarrow>
    \<exists>token resp. idIssue (imDeps S) \<lparr>miSubject = rrSubject res, miEmail = email, miActor = rrActor res, miActorIssuer = iss,
        miTargetAgent = agent, miScopes = iqScopes req\<rparr> = Inr token \<and> rpAccessToken resp = token \<and>
      rule_mint S call req agent res email iss = res\<lparr>rrMatched := True, rrResponse := Some resp\<rparr>"
proof (cases "idIssue (imDeps S) \<lparr>miSubject = rrSubject res, miEmail = email, miActor = rrActor res, miActorIssuer = iss,
        miTargetAgent = agent, miScopes = iqScopes req\<rparr>")
  case (Inr token)
  let ?resp = "(NewTokenExchangeResponseFull token ''Bearer'' AccessTokenType [] [] None)\<lparr>rpScope := Join (iqScopes req) '' ''\<rparr>"
  have "rpAccessToken ?resp = token" by (simp add: NewTokenExchangeResponseFull_def)
  moreover have "rule_mint S call req agent res email iss = res\<lparr>rrMatched := True, rrResponse := Some ?resp\<rparr>" by (simp add: rule_mint_def Inr)
  ultimately show ?thesis using Inr by blast
qed (simp add: rule_mint_def aborted_def)

lemma evaluateRule_matched:
  assumes P: "pointers_ok S" and R: "rule \<in> set (imRules S)" and c: "cache_ok lib S st"
    and r: "evaluateRule lib S call rule req (imp_request req agent) agent st = (res, st')"
  shows "cache_ok lib S st'"
    and "rrMatched res \<Longrightarrow> \<exists>resp category subjectID. rrResponse res = Some resp \<and> rrCategory res = Some category \<and>
      rrSubject res = minted_subject category subjectID agent \<and> rule_permits lib S call req agent rule category subjectID (rpAccessToken resp)"
proof -
  obtain q stq where q: "rule_credentials lib call rule req st = (q, stq)" by (metis surj_pair)
  note creds = rule_credentials_ok [OF P R c q]
  have st: "st' = stq" using r q by (auto simp: evaluateRule_def split: sum.splits)
  with creds(1) show "cache_ok lib S st'" by simp
  assume m: "rrMatched res"
  show "\<exists>resp category subjectID. rrResponse res = Some resp \<and> rrCategory res = Some category \<and>
      rrSubject res = minted_subject category subjectID agent \<and> rule_permits lib S call req agent rule category subjectID (rpAccessToken resp)"
  proof (cases q)
    case (Inl f)
    with r q creds(2) m show ?thesis by (simp add: evaluateRule_def)
  next
    case (Inr tup)
    obtain r0 cc ac ai sc where q': "q = Inr (r0, cc, ac, ai, sc)" using Inr by (metis surj_pair)
    from creds(3) [OF q'] obtain ci where r0: "\<not> rrMatched r0"
      and t: "trusted_credential lib (icNow call) rule CredentialRoleClientAssertion (iqClientAssertion req) cc ci"
        "trusted_credential lib (icNow call) rule CredentialRoleActor (iqActorToken req) ac ai" "trusted_subject lib (icNow call) rule (iqSubjectToken req) sc" by blast
    note e = r [unfolded evaluateRule_def q q', simplified]
    obtain r1 where i: "rule_identities call rule r0 cc ac sc = Inr r1"
      using e m r0 rule_identities_cases(1) [of call rule r0 cc ac sc] by (cases "rule_identities call rule r0 cc ac sc") auto
    note i' = rule_identities_cases(2) [OF i]
    obtain r2 category where k: "rule_category lib S call rule (agID agent) r1 sc = Inr (r2, category)"
      using e m r0 i i' rule_category_cases(1) [of lib S call rule "agID agent" r1 sc] by (cases "rule_category lib S call rule (agID agent) r1 sc") auto
    note k' = rule_category_cases(2) [OF k]
    obtain email where em: "rule_email call rule category r2 sc = Inr email"
      using e m r0 i i' k k' rule_email_fails [of call rule category r2 sc] by (cases "rule_email call rule category r2 sc") auto
    have a: "rule_authorized call rule r2 cc ac sc (imp_request req agent) = None"
      using e m r0 i i' k k' em rule_authorized_cases(1) [of call rule r2 cc ac sc "imp_request req agent"]
      by (cases "rule_authorized call rule r2 cc ac sc (imp_request req agent)") auto
    have d: "category = SubjectCategoryHuman \<Longrightarrow> rule_delegated S call r2 (rrSubject r1) (agID agent) = None"
      using e m r0 i i' k k' em a rule_delegated_cases(1) [of S call r2 "rrSubject r1" "agID agent"]
      by (cases "rule_delegated S call r2 (rrSubject r1) (agID agent)") auto
    have res: "res = rule_mint S call req agent r2 email (ciIssuerURI ai)" using e i k em a d by (auto split: if_splits)
    have n2: "\<not> rrMatched r2" using k' i' r0 by simp
    from rule_mint_cases [OF m [unfolded res] n2] obtain resp where mint: "idIssue (imDeps S) \<lparr>miSubject = rrSubject r2, miEmail = email, miActor = rrActor r2,
        miActorIssuer = ciIssuerURI ai, miTargetAgent = agent, miScopes = iqScopes req\<rparr> = Inr (rpAccessToken resp)"
      and out: "res = r2\<lparr>rrMatched := True, rrResponse := Some resp\<rparr>" unfolding res by blast
    have sub: "rrSubject r2 = minted_subject category (rrSubject r1) agent" using k' by (simp add: minted_subject_def)
    have act: "rrActor r2 = rrActor r1" using k' by simp
    have "rule_permits lib S call req agent rule category (rrSubject r1) (rpAccessToken resp)"
      unfolding rule_permits_def
    proof (rule exI [of _ cc], rule exI [of _ ci], rule exI [of _ ac], rule exI [of _ ai], rule exI [of _ sc], rule exI [of _ "rrActor r1"],
        rule exI [of _ email], intro conjI impI t rule_authorized_cases(2) [OF a])
      show "idVerifyUserDelegation (imDeps S) (rrSubject r1) (agID agent) = Inr UserDelegationActive" if "category = SubjectCategoryHuman"
        by (rule rule_delegated_cases(2) [OF d [OF that]])
    qed (use i' k' mint [unfolded sub act] in blast)+
    with out sub k' show ?thesis by (intro exI [of _ resp] exI [of _ category] exI [of _ "rrSubject r1"]) simp
  qed
qed

lemma rule_loop_matched:
  assumes P: "pointers_ok S" and R: "set rules \<subseteq> set (imRules S)" and c: "cache_ok lib S st"
    and r: "rule_loop lib S call req (imp_request req agent) agent results st rules = (out, None)"
  shows "\<exists>rule \<in> set (imRules S). \<exists>resp category subjectID. ocResponse out = Some resp \<and> arSubjectCategory (ocAudit out) = Some category \<and>
    arSubjectIdentity (ocAudit out) = minted_subject category subjectID agent \<and> rule_permits lib S call req agent rule category subjectID (rpAccessToken resp)"
  using R c r
proof (induction rules arbitrary: results st)
  case Nil
  then show ?case by (simp add: Let_def)
next
  case (Cons rule rules)
  obtain res st' where e: "evaluateRule lib S call rule req (imp_request req agent) agent st = (res, st')" by (metis surj_pair)
  have R: "rule \<in> set (imRules S)" using Cons.prems(1) by simp
  note ok = evaluateRule_matched [OF P R Cons.prems(2) e]
  show ?case
  proof (cases "rrMatched res")
    case True
    with Cons.prems(3) e have "out = \<lparr>ocResponse = rrResponse res, ocAudit = successAudit (agID agent) res\<rparr>" by simp
    with ok(2) [OF True] R show ?thesis by (auto simp: successAudit_def)
  next
    case False
    with Cons.prems(3) e have "rule_loop lib S call req (imp_request req agent) agent (results @ [res]) st' rules = (out, None)"
      by (auto split: option.splits)
    with Cons.IH [OF _ ok(1)] Cons.prems(1) show ?thesis by simp
  qed
qed

lemma Impersonate_matched:
  assumes "pointers_ok S" and r: "Impersonate lib S call req target = (out, None)"
  shows "\<exists>agent. target = Some agent \<and> agID agent \<noteq> uuid_nil \<and> (\<forall>scope \<in> set (iqScopes req). IsScopeAllowed (agAllowedScopes agent) scope) \<and>
    (\<exists>rule \<in> set (imRules S). \<exists>resp category subjectID. ocResponse out = Some resp \<and> arSubjectCategory (ocAudit out) = Some category \<and>
      arSubjectIdentity (ocAudit out) = minted_subject category subjectID agent \<and> rule_permits lib S call req agent rule category subjectID (rpAccessToken resp))"
proof -
  from r obtain agent where a: "target = Some agent" "agID agent \<noteq> uuid_nil" "\<forall>scope \<in> set (iqScopes req). IsScopeAllowed (agAllowedScopes agent) scope"
    and l: "rule_loop lib S call req (imp_request req agent) agent [] ([], 0) (imRules S) = (out, None)"
    by (auto simp: Impersonate_def Let_def list_ex_iff split: option.splits if_splits)
  from rule_loop_matched [OF assms(1) subset_refl cache_ok_new l] a show ?thesis by blast
qed

section \<open>Rules that may start\<close>

definition rule_sound :: "'ks compiledRule \<Rightarrow> bool" where
  "rule_sound rule \<longleftrightarrow>
     (clAllowsHuman rule \<or> clAllowsAgent rule) \<and>
     (\<forall>i \<in> set (clIssuers rule). svIssuerURI (ciValidator i) = ciIssuerURI i \<and> svAllowedAlgorithms (ciValidator i) \<noteq> [] \<and>
        list_all IsApprovedAlgorithm (svAllowedAlgorithms (ciValidator i))) \<and>
     (crUnverified (clRoles rule CredentialRoleSubject) \<longrightarrow>
        References (clAuthz rule) ''subject_token'' \<and> (\<forall>i \<in> set (clIssuers rule). CredentialRoleSubject \<notin> set (ciSignsRoles i))) \<and>
     (\<forall>r. crRequireAbsentAudience (clRoles rule r) \<longrightarrow> References (clAuthz rule) (extractionVariable r)) \<and>
     (\<forall>r. \<not> crRequireAbsentAudience (clRoles rule r) \<longrightarrow> \<not> crUnverified (clRoles rule r) \<longrightarrow> crExpectedAudience (clRoles rule r) \<noteq> [])"

lemma role_texts: "role_of_text (role_text r) = Some r" "role_of_text s = Some r \<Longrightarrow> s = role_text r"
proof -
  show "role_of_text (role_text r) = Some r" by (cases r) (simp_all add: role_of_text_def role_text_def)
  show "s = role_text r" if "role_of_text s = Some r" using that unfolding role_of_text_def find_Some_iff by auto
qed

lemma signed_roles: "set (List.map_filter role_of_text rs) = {r. role_text r \<in> set rs}"
proof (induction rs)
  case (Cons s rs)
  show ?case
  proof (cases "role_of_text s")
    case None
    have "role_text r \<noteq> s" for r
    proof
      assume "role_text r = s"
      with role_texts(1) [of r] None show False by simp
    qed
    with Cons None show ?thesis by (simp add: map_filter_simps)
  next
    case (Some r)
    have "role_text q = s \<longleftrightarrow> q = r" for q
    proof
      assume "role_text q = s"
      with role_texts(1) [of q] Some show "q = r" by simp
    qed (use role_texts(2) [OF Some] in blast)
    then have "{q. role_text q \<in> set (s # rs)} = insert r {q. role_text q \<in> set rs}" by auto
    with Cons Some show ?thesis by (simp add: map_filter_simps)
  qed
qed (simp add: map_filter_simps)

lemma compile_all_Inr: "compile_all f xs = Inr ys \<Longrightarrow> y \<in> set ys \<Longrightarrow> \<exists>x \<in> set xs. f x = Inr y"
  by (induction xs arbitrary: ys) (auto split: sum.splits)

lemma allowed_loop_approved: "allowed_loop lib acc names = Some out \<Longrightarrow> list_all IsApprovedAlgorithm acc \<Longrightarrow>
    list_all IsApprovedAlgorithm out \<and> length out = length acc + length names"
  by (induction names arbitrary: acc) (auto split: option.splits if_splits)

lemma compile_issuer_ok:
  "compile_issuer lib factory skew i = Inr ci \<Longrightarrow> ciIssuerURI ci = tiIssuerURI i \<and> svIssuerURI (ciValidator ci) = ciIssuerURI ci \<and>
     svAllowedAlgorithms (ciValidator ci) \<noteq> [] \<and> list_all IsApprovedAlgorithm (svAllowedAlgorithms (ciValidator ci)) \<and>
     set (ciSignsRoles ci) = {r. role_text r \<in> set (tiSignsRoles i)}"
proof -
  assume "compile_issuer lib factory skew i = Inr ci"
  then obtain allowed where a: "tiAllowedAlgorithms i \<noteq> []" "allowed_loop lib [] (tiAllowedAlgorithms i) = Some allowed"
      and ci: "ciIssuerURI ci = tiIssuerURI i" "svIssuerURI (ciValidator ci) = tiIssuerURI i" "svAllowedAlgorithms (ciValidator ci) = allowed"
        "ciSignsRoles ci = List.map_filter role_of_text (tiSignsRoles i)"
    by (auto simp: compile_issuer_def split: if_splits option.splits sum.splits)
  have "set (ciSignsRoles ci) = {r. role_text r \<in> set (tiSignsRoles i)}" unfolding ci(4) by (rule signed_roles)
  with allowed_loop_approved [OF a(2)] a(1) ci show ?thesis by auto
qed

lemma signs_loop_ok: "signs_loop u covered rs = Inr out \<Longrightarrow> u \<Longrightarrow> role_text CredentialRoleSubject \<notin> set rs"
  by (induction rs arbitrary: covered) (auto simp: role_texts split: option.splits if_splits)

lemma issuer_loop_ok: "issuer_loop u seen covered is = Inr out \<Longrightarrow> u \<Longrightarrow> i \<in> set is \<Longrightarrow> role_text CredentialRoleSubject \<notin> set (tiSignsRoles i)"
  by (induction "is" arbitrary: seen covered) (auto dest: signs_loop_ok split: sum.splits if_splits)

lemma compile_roles_other: "compile_roles lib t acc roles = Inr out \<Longrightarrow> role_text r \<notin> fst ` set roles \<Longrightarrow> map_of out r = map_of acc r"
proof (induction lib t acc roles rule: compile_roles.induct)
  case (2 lib t acc name c rest)
  then show ?case by (auto simp: go_map_simps dest: role_texts(2) split: option.splits sum.splits)
qed simp

lemma compile_roles_ok:
  "compile_roles lib t acc roles = Inr out \<Longrightarrow> distinct (map fst roles) \<Longrightarrow> map_of roles (role_text r) = Some c \<Longrightarrow>
    \<exists>compiled. compile_role lib t r c = Inr compiled \<and> map_of out r = Some compiled"
proof (induction lib t acc roles rule: compile_roles.induct)
  case (2 lib t acc name d rest)
  from "2.prems"(1) obtain role compiled where n: "role_of_text name = Some role" and c: "compile_role lib t role d = Inr compiled"
      and rest: "compile_roles lib t (AList.update role compiled acc) rest = Inr out"
    by (auto split: option.splits sum.splits)
  show ?case
  proof (cases "name = role_text r")
    case True
    then have rr: "role = r" using n role_texts(1) [of r] by simp
    moreover have "c = d" using "2.prems"(3) True by simp
    moreover have "map_of out r = Some compiled" using compile_roles_other [OF rest, of r] "2.prems"(2) True rr by (auto simp: go_map_simps)
    ultimately show ?thesis using c by blast
  next
    case False
    with "2.prems" have "map_of rest (role_text r) = Some c" by auto
    with "2.IH" [OF n c rest] "2.prems"(2) show ?thesis by simp
  qed
qed simp

lemma compile_role_ok:
  "compile_role lib t r c = Inr compiled \<Longrightarrow> crExpectedAudience compiled = rgExpectedAudience c \<and> crRequireAbsentAudience compiled = absent_audience c \<and>
    crUnverified compiled = (r = CredentialRoleSubject \<and> rgVerification c = ''none'')"
  by (auto simp: compile_role_def Let_def split: sum.splits if_splits)

lemma first_some_None: "first_some f xs = None \<longleftrightarrow> (\<forall>x \<in> set xs. f x = None)"
  by (induction xs) (auto simp: first_some_def map_filter_def split: list.splits)

lemma category_loop_ok: "category_loop h a cs = Some (h', a') \<Longrightarrow> cs \<noteq> [] \<or> h \<or> a \<Longrightarrow> h' \<or> a'"
  by (induction h a cs rule: category_loop.induct) (auto split: if_splits)

lemma categories_ok: "ParseAllowedSubjectCategories c = Some (h, a) \<Longrightarrow> h \<or> a"
  using category_loop_ok [of False False _ h a] by (fastforce simp: ParseAllowedSubjectCategories_def split: option.splits if_splits)

lemma invariants_ok:
  assumes "validateRuleInvariants cfg = None"
  shows "\<exists>c. map_of (ruRoles cfg) (role_text r) = Some c \<and>
      (\<not> (r = CredentialRoleSubject \<and> rgVerification c = ''none'') \<longrightarrow> \<not> absent_audience c \<longrightarrow> rgExpectedAudience c \<noteq> [])"
    and "map_of (ruRoles cfg) (role_text CredentialRoleSubject) = Some c \<Longrightarrow> rgVerification c = ''none'' \<Longrightarrow> i \<in> set (ruTrustedIssuers cfg) \<Longrightarrow>
      role_text CredentialRoleSubject \<notin> set (tiSignsRoles i)"
proof -
  from assms have f: "first_some (role_fault (ruRoles cfg)) all_roles = None"
      and l: "\<exists>out. issuer_loop (case map_of (ruRoles cfg) ''subject'' of None \<Rightarrow> False | Some c \<Rightarrow> rgVerification c = ''none'') [] [] (ruTrustedIssuers cfg) = Inr out"
    by (auto simp: validateRuleInvariants_def Let_def split: if_splits option.splits sum.splits)
  have "role_fault (ruRoles cfg) r = None" using f unfolding first_some_None by (cases r) (auto simp: all_roles_def)
  then show "\<exists>c. map_of (ruRoles cfg) (role_text r) = Some c \<and>
      (\<not> (r = CredentialRoleSubject \<and> rgVerification c = ''none'') \<longrightarrow> \<not> absent_audience c \<longrightarrow> rgExpectedAudience c \<noteq> [])"
    by (auto simp: role_fault_def split: option.splits if_splits)
  show "role_text CredentialRoleSubject \<notin> set (tiSignsRoles i)"
    if "map_of (ruRoles cfg) (role_text CredentialRoleSubject) = Some c" "rgVerification c = ''none''" "i \<in> set (ruTrustedIssuers cfg)"
    using l that issuer_loop_ok by (fastforce simp: role_text_def)
qed

lemma compileRule_sound:
  assumes wf: "wf_gomap (ruRoles cfg)" and r: "compileRule lib factory skew cfg = Inr rule"
  shows "rule_sound rule"
proof -
  from r obtain authz roles client actor subject issuers h a where v: "validateRuleInvariants cfg = None"
      and roles: "compile_roles lib (ruEvaluationTimeout cfg) [] (ruRoles cfg) = Inr roles"
      and found: "map_of roles CredentialRoleClientAssertion = Some client" "map_of roles CredentialRoleActor = Some actor" "map_of roles CredentialRoleSubject = Some subject"
      and issuers: "compile_all (compile_issuer lib factory skew) (ruTrustedIssuers cfg) = Inr issuers"
      and refs: "crUnverified subject \<longrightarrow> References authz ''subject_token''"
      and cats: "ParseAllowedSubjectCategories (ruAllowedSubjectCategories cfg) = Some (h, a)"
      and rule: "rule = \<lparr>clName = ruName cfg, clRoles = (\<lambda>r. case r of CredentialRoleClientAssertion \<Rightarrow> client | CredentialRoleActor \<Rightarrow> actor | CredentialRoleSubject \<Rightarrow> subject),
        clIssuers = issuers, clAuthz = authz, clAllowsHuman = h, clAllowsAgent = a\<rparr>"
      and absent: "\<not> list_ex (\<lambda>r. crRequireAbsentAudience (clRoles rule r) \<and> \<not> References authz (extractionVariable r)) all_roles"
    by (auto simp: compileRule_def Let_def split: option.splits sum.splits if_splits)
  have role: "map_of roles q = Some (clRoles rule q)" for q using found by (cases q) (simp_all add: rule)
  have compiled: "\<exists>c. map_of (ruRoles cfg) (role_text q) = Some c \<and> crExpectedAudience (clRoles rule q) = rgExpectedAudience c \<and>
      crRequireAbsentAudience (clRoles rule q) = absent_audience c \<and> crUnverified (clRoles rule q) = (q = CredentialRoleSubject \<and> rgVerification c = ''none'') \<and>
      (\<not> (q = CredentialRoleSubject \<and> rgVerification c = ''none'') \<longrightarrow> \<not> absent_audience c \<longrightarrow> rgExpectedAudience c \<noteq> [])" for q
  proof -
    obtain c where c: "map_of (ruRoles cfg) (role_text q) = Some c"
        "\<not> (q = CredentialRoleSubject \<and> rgVerification c = ''none'') \<longrightarrow> \<not> absent_audience c \<longrightarrow> rgExpectedAudience c \<noteq> []"
      using invariants_ok(1) [OF v, of q] by blast
    from compile_roles_ok [OF roles wf c(1)] role [of q] have "compile_role lib (ruEvaluationTimeout cfg) q c = Inr (clRoles rule q)" by auto
    from compile_role_ok [OF this] c show ?thesis by blast
  qed
  have ci: "\<exists>i \<in> set (ruTrustedIssuers cfg). compile_issuer lib factory skew i = Inr x" if "x \<in> set (clIssuers rule)" for x
    using compile_all_Inr [OF issuers, of x] that by (simp add: rule)
  have "CredentialRoleSubject \<notin> set (ciSignsRoles x)" if u: "crUnverified (clRoles rule CredentialRoleSubject)" and x: "x \<in> set (clIssuers rule)" for x
  proof -
    obtain i where i: "i \<in> set (ruTrustedIssuers cfg)" "compile_issuer lib factory skew i = Inr x" using ci [OF x] by blast
    obtain c where c: "map_of (ruRoles cfg) (role_text CredentialRoleSubject) = Some c" "rgVerification c = ''none''"
      using compiled [of CredentialRoleSubject] u by auto
    from invariants_ok(2) [OF v c i(1)] compile_issuer_ok [OF i(2)] show ?thesis by simp
  qed
  moreover have "svIssuerURI (ciValidator x) = ciIssuerURI x \<and> svAllowedAlgorithms (ciValidator x) \<noteq> [] \<and>
      list_all IsApprovedAlgorithm (svAllowedAlgorithms (ciValidator x))" if "x \<in> set (clIssuers rule)" for x
    using ci [OF that] compile_issuer_ok by blast
  moreover have "References (clAuthz rule) (extractionVariable q)" if "crRequireAbsentAudience (clRoles rule q)" for q
    using absent that unfolding list_ex_iff all_roles_def by (cases q) (auto simp: rule)
  moreover have "crExpectedAudience (clRoles rule q) \<noteq> []" if "\<not> crRequireAbsentAudience (clRoles rule q)" "\<not> crUnverified (clRoles rule q)" for q
    using compiled [of q] that by auto
  moreover have "clAllowsHuman rule \<or> clAllowsAgent rule" using categories_ok [OF cats] by (simp add: rule)
  moreover have "crUnverified (clRoles rule CredentialRoleSubject) \<longrightarrow> References (clAuthz rule) ''subject_token''" using refs by (simp add: rule)
  ultimately show ?thesis unfolding rule_sound_def by blast
qed

lemma service_rules_sound:
  "service_rules lib factory skew seen cfgs = Inr rules \<Longrightarrow> \<forall>c \<in> set cfgs. wf_gomap (ruRoles c) \<Longrightarrow> rule \<in> set rules \<Longrightarrow> rule_sound rule"
proof (induction cfgs arbitrary: seen rules)
  case (Cons c cfgs)
  from Cons.prems(1) obtain r rs where r: "compileRule lib factory (clockSkewOrDefault skew) c = Inr r"
      and rs: "service_rules lib factory skew (ruName c # seen) cfgs = Inr rs" "rules = r # rs"
    by (auto split: if_splits sum.splits)
  from compileRule_sound [OF _ r] Cons.IH [OF rs(1)] Cons.prems(2,3) rs(2) show ?case by auto
qed simp

section \<open>Delegation\<close>

text \<open>What impersonation relies on: an active status comes from an active grant of the user to the agent.\<close>

locale delegation_verifier =
  fixes verify :: "time \<Rightarrow> 'g \<Rightarrow> principal \<Rightarrow> agent_id \<Rightarrow> string + UserDelegationStatus"
    and grants :: "'g \<Rightarrow> principal \<times> agent_id \<rightharpoonup> UserGrant" and ginvar :: "'g \<Rightarrow> bool"
  assumes active: "ginvar g \<Longrightarrow> uuid_text a \<Longrightarrow> verify now g p a = Inr UserDelegationActive \<Longrightarrow>
    \<exists>grant. grants g (p, a) = Some grant \<and> \<not> grant_expired now grant"
begin

lemma human_consented:
  assumes P: "pointers_ok S" and g: "ginvar g" and d: "idVerifyUserDelegation (imDeps S) = verify now g" and u: "uuid_text (agID agent)"
    and r: "Impersonate lib S call req (Some agent) = (out, None)" and h: "arSubjectCategory (ocAudit out) = Some SubjectCategoryHuman"
  shows "\<exists>grant. grants g (arSubjectIdentity (ocAudit out), agID agent) = Some grant \<and> \<not> grant_expired now grant"
proof -
  from Impersonate_matched [OF P r] h obtain rule subjectID token where s: "arSubjectIdentity (ocAudit out) = minted_subject SubjectCategoryHuman subjectID agent"
    and p: "rule_permits lib S call req agent rule SubjectCategoryHuman subjectID token" by auto
  from p have "verify now g subjectID (agID agent) = Inr UserDelegationActive" unfolding rule_permits_def d by blast
  from active [OF g u this] s show ?thesis by (simp add: minted_subject_def)
qed

end

interpretation mem_delegation: delegation_verifier "\<lambda>now. VerifyUserDelegation memory_grant_port now" grant_abs grant_invar
proof
  fix g a now p assume g: "grant_invar g" "uuid_text a" and v: "VerifyUserDelegation memory_grant_port now g p a = Inr UserDelegationActive"
  from v obtain grant where "VerifyAgentAccess memory_grant_port now g p a = Inr grant"
    by (auto simp: VerifyUserDelegation_def split: sum.splits access_error.splits)
  from mem_grants.Verify_Inr [OF g this] show "\<exists>grant. grant_abs g (p, a) = Some grant \<and> \<not> grant_expired now grant" by blast
qed

section \<open>Theorems\<close>

text \<open>
  C2. A token is minted by impersonation only under a rule of the configuration whose demands are all met: the
  client assertion and the actor token are signed with an approved algorithm, under a key set served for an
  issuer that the rule trusts for that role, with claims valid now for issuer and audience; the subject token is
  such a credential too, or the unsigned token of a rule that accepts one; the rule admits the category of the
  subject, a human subject with a signed token is no other registered agent, and the predicate holds of these
  very claims and the target agent; a human subject has an active delegation to the agent; and the agent may use
  every requested scope. The minted token names that subject, the actor and the issuer of the actor.
\<close>

theorem impersonation_requires_rule:
  assumes "pointers_ok S" and "Impersonate lib S call req target = (out, None)"
  shows "\<exists>agent. target = Some agent \<and> agID agent \<noteq> uuid_nil \<and> (\<forall>scope \<in> set (iqScopes req). IsScopeAllowed (agAllowedScopes agent) scope) \<and>
    (\<exists>rule \<in> set (imRules S). \<exists>resp category subjectID. ocResponse out = Some resp \<and> arSubjectCategory (ocAudit out) = Some category \<and>
      arSubjectIdentity (ocAudit out) = minted_subject category subjectID agent \<and> rule_permits lib S call req agent rule category subjectID (rpAccessToken resp))"
  by (rule Impersonate_matched [OF assms])

text \<open>
  C3. With the consent service over the grants in memory, impersonation of a human succeeds only while that
  user has an unexpired grant for the target agent.
\<close>

theorem impersonated_human_has_consented:
  assumes "pointers_ok S" and "grant_invar g" and "idVerifyUserDelegation (imDeps S) = VerifyUserDelegation memory_grant_port now g"
    and "uuid_text (agID agent)" and "Impersonate lib S call req (Some agent) = (out, None)" and "arSubjectCategory (ocAudit out) = Some SubjectCategoryHuman"
  shows "\<exists>grant. grant_abs g (arSubjectIdentity (ocAudit out), agID agent) = Some grant \<and> \<not> grant_expired now grant"
  using assms by (rule mem_delegation.human_consented)

text \<open>
  C12. The service starts only with sound rules: every trusted issuer has a non-empty list of approved
  asymmetric algorithms, a rule that accepts an unsigned subject refers to it in its predicate and lets no
  issuer sign it, a role that demands an absent audience is referred to by the predicate, and every other
  signed role demands an audience.
\<close>

theorem NewService_rules_sound:
  assumes "NewService lib (Some (prefix, cfgs)) factory deps skew base = Inr S" and "\<forall>c \<in> set cfgs. wf_gomap (ruRoles c)"
  shows "\<forall>rule \<in> set (imRules S). rule_sound rule"
proof
  fix rule assume "rule \<in> set (imRules S)"
  moreover from assms(1) have "service_rules lib factory skew [] cfgs = Inr (imRules S)"
    by (auto simp: NewService_def split: option.splits if_splits sum.splits)
  ultimately show "rule_sound rule" using service_rules_sound assms(2) by blast
qed

section \<open>Witnesses\<close>

lemma one_issuer_pointers: "length (concat (map clIssuers (imRules S))) = 1 \<Longrightarrow> pointers_ok S"
proof -
  assume "length (concat (map clIssuers (imRules S))) = 1"
  then obtain i where "concat (map clIssuers (imRules S)) = [i]" by (auto simp: length_Suc_conv)
  moreover have "service_issuers S = set (concat (map clIssuers (imRules S)))" by (auto simp: service_issuers_def)
  ultimately show ?thesis by (simp add: pointers_ok_def)
qed

definition demo_claims_token :: "string \<Rightarrow> claims_token" where
  "demo_claims_token token = \<lparr>tkIssuer = Some ''https://idp'', tkSubject = Some token, tkAudience = Some [''aib''], tkExpiration = Some 90,
     tkIssuedAt = None, tkNotBefore = None, tkJwtID = None, tkClaims = []\<rparr>"

text \<open>A toy library: a token is its subject, every expression reads the subject of its one variable or holds.\<close>

definition demo_program :: cel_program where
  "demo_program = \<lparr>cpOutputBool = True, cpReferences = [''subject_token''], cpSelections = [],
     cpEval = (\<lambda>_ vars. case vars of [(_, VarClaims cl)] \<Rightarrow> Inr (NativeString (raw_sub cl)) | _ \<Rightarrow> Inr (NativeBool True))\<rparr>"

definition demo_imp_lib :: "unit imp_lib" where
  "demo_imp_lib = \<lparr>ilRead = (\<lambda>t. Inr (demo_claims_token t)), ilSignatures = (\<lambda>_. Some [(''sig'', Some ''ES256'')]),
     ilVerify = (\<lambda>t _. Inr (demo_claims_token t)), ilValidate = (\<lambda>_ _ _ _ _. None), ilLookupAlgorithm = Some, ilCompile = (\<lambda>_ _. Inr demo_program),
     ilParseAgentID = (\<lambda>_. None), ilParseURL = (\<lambda>_. Some \<lparr>puScheme = ''https'', puHost = ''aib'', puHasUser = False, puForceQuery = False,
       puRawQuery = [], puFragment = [], puPath = ''/imp''\<rparr>)\<rparr>"

definition demo_role_config :: ImpersonationRoleConfig where
  "demo_role_config = \<lparr>rgVerification = [], rgExpectedAudience = ''aib'', rgAudienceRequirement = [], rgPrincipalExpression = ''sub'', rgEmailExpression = []\<rparr>"

definition demo_rule_config :: ImpersonationRuleConfig where
  "demo_rule_config = \<lparr>ruAllowedSubjectCategories = None, ruName = ''r'',
     ruRoles = [(''client_assertion'', demo_role_config), (''actor'', demo_role_config), (''subject'', demo_role_config)],
     ruTrustedIssuers = [\<lparr>tiIssuerURI = ''https://idp'', tiJWKSURI = [], tiJWKS = [], tiJWKSFile = [], tiJWKSMinRefresh = 0, tiJWKSMaxRefresh = 0,
       tiAllowedAlgorithms = [''ES256''], tiSignsRoles = [''client_assertion'', ''actor'', ''subject'']\<rparr>],
     ruAuthorizationType = ''cel'', ruExpression = ''true'', ruEvaluationTimeout = 0\<rparr>"

definition demo_deps :: imp_deps where
  "demo_deps = \<lparr>idGet = (\<lambda>_. Inl (agent_missing ''Get'')), idGetByCanonicalID = (\<lambda>_. Inl (agent_missing ''Get'')), idIssue = (\<lambda>m. Inr (''token:'' @ miSubject m)),
     idVerifyUserDelegation = VerifyUserDelegation memory_grant_port 15 demo_granted\<rparr>"

definition demo_new_service :: "string + unit imp_service" where
  "demo_new_service = NewService demo_imp_lib (Some (''https://aib/imp'', [demo_rule_config])) (\<lambda>_. Inr \<lparr>pvPointer = Some 1, pvKeySet = (\<lambda>_. Inr ())\<rparr>)
     (Inr demo_deps) 0 ''https://aib''"

definition demo_impersonator :: "unit imp_service" where
  "demo_impersonator = projr demo_new_service"

definition demo_imp_call :: imp_call where
  "demo_imp_call = \<lparr>icNow = 15, icCanceled = (\<lambda>_ _. False)\<rparr>"

definition demo_imp_request :: Request where
  "demo_imp_request = \<lparr>iqClientAssertion = ''gateway'', iqActorToken = ''bot'', iqSubjectToken = ''u'', iqSubjectTokenType = JWTTokenType,
     iqRequestedTokenType = [], iqScope = ''read'', iqScopes = [''read'']\<rparr>"

definition demo_target :: Agent where
  "demo_target = demo_described\<lparr>agID := demo_uuid\<rparr>"

definition demo_impersonated :: ImpersonationOutcome where
  "demo_impersonated = fst (Impersonate demo_imp_lib demo_impersonator demo_imp_call demo_imp_request (Some demo_target))"

lemma demo_impersonator_ok: "demo_new_service = Inr demo_impersonator" "pointers_ok demo_impersonator" "idVerifyUserDelegation (imDeps demo_impersonator) = VerifyUserDelegation memory_grant_port 15 demo_granted"
proof -
  have n: "\<not> isl demo_new_service" by code_simp
  then show "demo_new_service = Inr demo_impersonator" by (simp add: demo_impersonator_def)
  have "length (concat (map clIssuers (imRules demo_impersonator))) = 1" by code_simp
  then show "pointers_ok demo_impersonator" by (rule one_issuer_pointers)
  from n have "imDeps demo_impersonator = demo_deps"
    by (auto simp: demo_impersonator_def demo_new_service_def NewService_def split: option.splits if_splits sum.splits)
  then show "idVerifyUserDelegation (imDeps demo_impersonator) = VerifyUserDelegation memory_grant_port 15 demo_granted" by (simp add: demo_deps_def)
qed

lemma demo_impersonated_ok:
  "Impersonate demo_imp_lib demo_impersonator demo_imp_call demo_imp_request (Some demo_target) = (demo_impersonated, None)"
  "arSubjectCategory (ocAudit demo_impersonated) = Some SubjectCategoryHuman" "arSubjectIdentity (ocAudit demo_impersonated) = ''u''"
  "map_option rpAccessToken (ocResponse demo_impersonated) = Some ''token:u''"
proof -
  have "snd (Impersonate demo_imp_lib demo_impersonator demo_imp_call demo_imp_request (Some demo_target)) = None" by code_simp
  then show "Impersonate demo_imp_lib demo_impersonator demo_imp_call demo_imp_request (Some demo_target) = (demo_impersonated, None)"
    by (simp add: demo_impersonated_def prod_eq_iff)
  show "arSubjectCategory (ocAudit demo_impersonated) = Some SubjectCategoryHuman" "arSubjectIdentity (ocAudit demo_impersonated) = ''u''"
    "map_option rpAccessToken (ocResponse demo_impersonated) = Some ''token:u''" by code_simp+
qed

theorem impersonation_requires_rule_witness:
  "\<exists>rule \<in> set (imRules demo_impersonator). rule_permits demo_imp_lib demo_impersonator demo_imp_call demo_imp_request demo_target rule SubjectCategoryHuman ''u'' ''token:u''"
  using impersonation_requires_rule [OF demo_impersonator_ok(2) demo_impersonated_ok(1)] demo_impersonated_ok(2-4)
  by (auto simp: minted_subject_def)

theorem impersonated_human_has_consented_witness:
  "\<exists>grant. grant_abs demo_granted (''u'', demo_uuid) = Some grant \<and> \<not> grant_expired 15 grant"
proof -
  have a: "agID demo_target = demo_uuid" by (simp add: demo_target_def)
  have u: "uuid_text (agID demo_target)" by (simp add: a uuid_text_def demo_uuid_def)
  show ?thesis using impersonated_human_has_consented [OF demo_impersonator_ok(2) conjunct1 [OF demo_granted_ok] demo_impersonator_ok(3) u demo_impersonated_ok(1,2)]
    by (simp add: demo_impersonated_ok(3) a)
qed

theorem NewService_rules_sound_witness: "length (imRules demo_impersonator) = 1 \<and> list_all rule_sound (imRules demo_impersonator)"
proof
  show "length (imRules demo_impersonator) = 1" by code_simp
  have "\<forall>c \<in> set [demo_rule_config]. wf_gomap (ruRoles c)" by (simp add: demo_rule_config_def)
  from NewService_rules_sound [OF demo_impersonator_ok(1) [unfolded demo_new_service_def] this] show "list_all rule_sound (imRules demo_impersonator)"
    by (simp add: list_all_iff)
qed

end
