(* ===== verification/Spec2Isabelle.thy ===== *)
theory Spec2Isabelle
  imports Approval_End_To_End Key_Lifecycle Consent_Laws User_Sessions Session_Locks Session_Sweep Impersonation
begin

text \<open>
  A model of the agentic identity broker: a service that stands between users, the agents that
  act for them and the tools and third-party services the agents call. The broker keeps what a
  user allowed, issues the agents' tokens, and a gateway beside it (the \<^verbatim>\<open>extproc\<close> filter) asks
  the broker before a tool call passes.

  \<^bold>\<open>The parts of the program and the theories that model them.\<close> Paths are below \<^verbatim>\<open>src/\<close>.

  \<^item> Ground. \<open>Prelude\<close>: Go's time and durations, Go maps, storage errors
    (\<^verbatim>\<open>internal/domain/storage/errors.go\<close>). \<open>Go_Strings\<close>: the functions of \<^verbatim>\<open>strings\<close> and
    \<^verbatim>\<open>strconv\<close> the code calls.
  \<^item> Tool approvals at the broker. \<open>Tool_Pattern\<close>: the pattern grammar
    (\<^verbatim>\<open>internal/domain/approval/toolpattern\<close>). \<open>Tool_Approval\<close>: the approval record and its
    transitions. \<open>Approval_Port\<close>: the repository interface and its contract. \<open>Approval_Store\<close>:
    the in-memory repository. \<open>Approval_Broadcast\<close>: change signals and the creation limit.
    \<open>Approval_Service\<close>: the operations of \<^verbatim>\<open>internal/domain/approval/service.go\<close>;
    \<open>Approval_Service_Laws\<close> proves what each guarantees and \<open>Approval_Interleaving\<close> what
    holds when requests interleave.
  \<^item> Tool approvals at the gateway (\<^verbatim>\<open>internal/extproc/approval\<close>). \<open>Precedence\<close>: which of
    several matching approvals decides. \<open>Approval_Cache\<close>: the local copy with reservations.
    \<open>Approval_Gate\<close>: the decision for one call, over the cache and the broker, and the
    back-off of the sync loop.
  \<^item> Signing keys. \<open>Signing_Key_Store\<close>: the in-memory store. \<open>Key_Lifecycle\<close>: the engine of
    \<^verbatim>\<open>internal/domain/keylifecycle/engine.go\<close> over the repository port.
  \<^item> The local token issuer. \<open>Token_Stores\<close>: codes, PKCE sessions, refresh sessions, spent
    assertions, credentials and their cleanup. \<open>Client_Keys\<close>: the keys a client publishes
    (\<^verbatim>\<open>internal/domain/oauth2/cimd/keyset.go\<close>). \<open>Client_Assertion\<close>: client authentication
    by a signed assertion. \<open>Fosite_Storage\<close>: the storage behind the OAuth2 library
    (\<^verbatim>\<open>internal/domain/oauth2server/fosite_storage.go\<close>). \<open>Issuer_Runs\<close>: histories of the
    issuer.
  \<^item> Consent. \<open>Agent_Model\<close>: the agent record, service requirements and permission sets with
    their checks (\<^verbatim>\<open>internal/domain/model\<close>). \<open>User_Grants\<close>: the grant a user gave an agent
    and its in-memory repository. \<open>Consent_Service\<close>: granting, renewing, revoking and
    listing consent (\<^verbatim>\<open>internal/domain/consent/service.go\<close>). \<open>Consent_Laws\<close>: what each of
    these guarantees, and histories of consent calls and issued tokens.
  \<^item> Agents. \<open>Agent_Registry\<close>: the checks of an agent, the in-memory repository with its four
    indexes, and the service with the reconciliation by external identifier
    (\<^verbatim>\<open>internal/domain/agents\<close>).
  \<^item> Who is calling. \<open>Exchange_Tokens\<close>: validation of subject tokens and client assertions, the
    claims of a token, the human behind it, the request of a token exchange, its errors and their
    diagnostics (\<^verbatim>\<open>internal/domain/tokenexchange\<close>, \<^verbatim>\<open>internal/domain/jwtclaims\<close>).
    \<open>Request_Auth\<close>: the middlewares that find the principal of a request and authenticate the
    calls of the gateway (\<^verbatim>\<open>internal/adapters/http/middleware\<close>).
  \<^item> Sessions of users at third-party services. \<open>User_Sessions\<close>: the session record and its
    in-memory repository. \<open>Session_Locks\<close>: the gates that serialise the work on one session, as
    steps of goroutines. \<open>Session_Refresh\<close>: reading a valid token, with the locked refresh, its
    retries and its classified failures (\<^verbatim>\<open>internal/domain/oauth2session/service.go\<close>).
    \<open>Session_Sweep\<close>: the background sweep of expiring sessions
    (\<^verbatim>\<open>internal/domain/oauth2session/sweep.go\<close>).
  \<^item> Tokens handed out for a user. \<open>Token_Exchange\<close>: the exchange of an agent's tokens for the
    user's token of a service, over grants and sessions
    (\<^verbatim>\<open>internal/domain/tokenexchange/service.go\<close>). \<open>Impersonation\<close>: the minting of a token that
    represents a user or an agent under configured rules (\<^verbatim>\<open>internal/domain/impersonation\<close>), tied
    to the consent service by \<^verbatim>\<open>internal/app/impersonation_delegation.go\<close>.
  \<^item> The approval API and the deployment. \<open>Approval_Handlers\<close>: the handlers of
    \<^verbatim>\<open>internal/adapters/http/handlers/approval\<close>, from the decoded request to status and body, with
    the phases of the long poll. \<open>Approval_End_To_End\<close>: the gateway's client, middleware, handlers
    and service composed into the broker a gate talks to, and histories of one broker with any
    number of gateways.

  \<^bold>\<open>How the model reads.\<close> A struct is a record with the fields the code reads, an
  enumeration a datatype, an interface a record of functions over a state type, and an error a
  value of a sum. A Go map is an association list with distinct keys; the order of the list is
  the one a \<^verbatim>\<open>range\<close> loop happens to take, so a theorem about such a loop holds for every order.
  Where two maps reach the same object and the code changes it in place, the store has a heap
  and the maps hold addresses (\<open>Signing_Key_Store\<close>, the codes of \<open>Token_Stores\<close>). Time is an
  integer number of nanoseconds, as in \<^verbatim>\<open>time.Duration\<close>; each reading of the clock is an argument
  of the function that reads it. A method that holds its lock throughout is one function and one
  step; calls that interleave are steps of an inductive relation (\<open>broker_step\<close>, \<open>issuer_step\<close>,
  \<open>key_step\<close>, \<open>assertion_run\<close>, \<open>consent_step\<close>, \<open>mesh_step\<close>, \<open>gate_step\<close>). The operations of the
  approval service release the lock between reading and writing: \<open>broker_step\<close> takes them in two phases,
  the first being the \<open>prepare\<close> definition the operation itself is made of. Where several store calls are
  taken as one step, the text at the definition says so. Loops over data recurse on the
  data; the glob matcher, an index loop with one backtracking point, and the scan of an external
  identifier are each a \<open>function\<close> with a termination measure. The loop of the sweep depends on what
  the repository answers and is a \<open>partial_function\<close> into option; that it returns is a theorem
  (\<open>Sweep_returns\<close>). No fuel is used.

  \<^bold>\<open>Parameters.\<close> Code outside the repository is an argument: JOSE parsing and signature checks
  (\<open>jose\<close>), JWK parsing and the fetch of key sets (\<open>jwk_lib\<close>), key generation, derivation and
  encryption (\<open>key_material\<close>), the token bucket of the rate limiter, the text of a
  floating-point number (\<open>float_io\<close>), the requests the OAuth2 library builds (\<open>requester\<close>),
  the parsing and checking of a JWT (\<open>jwt_lib\<close>), the compiled CEL programs of the configuration
  (\<open>CELEvaluator\<close>), the JWT authenticator of the principal middleware (\<open>principal_auth\<close>), the
  token endpoint, cipher and credential source of a refresh (\<open>refresh_env\<close>), the lookups of resources, agents and
  permission sets of an exchange (\<open>exchange_service\<close>), the URL and UUID checks of an agent (\<open>uri_checks\<close>),
  the libraries and ports of impersonation (\<open>imp_lib\<close>, \<open>imp_deps\<close>), and
  at the gateway whatever answers its calls to the broker (\<open>broker_client\<close>).

  \<^bold>\<open>Interfaces.\<close> \<open>approval_repository\<close> is the contract of the approval repository and
  \<open>counting_repository\<close> extends it with the count of open approvals; the service's laws are
  proved inside them and reach the program by the interpretations \<open>mem\<close> and \<open>mem_count\<close> on the
  in-memory adapter. \<open>key_repository\<close> is the contract of the key store, interpreted as
  \<open>mem_keys\<close>. \<open>grant_repository\<close> is the contract of the grant store, interpreted as
  \<open>mem_grants\<close>; the consent service's laws are proved inside it. \<open>steady_broker\<close> is what a gateway relies
  on in the broker behind its client, interpreted as \<open>served\<close> on the broker's own handlers.
  \<open>expiring_store\<close> is what the cleanup relies on, interpreted for the four stores it
  sweeps. The session repository has the contract \<open>session_repository\<close> (\<open>mem_sessions\<close>), with
  \<open>refresh_repository\<close> (\<open>mem_refresh\<close>) for the refresh and \<open>expiry_repository\<close> (\<open>mem_expiry\<close>) for the
  sweep; \<open>exchange_stores\<close> (\<open>mem_exchange\<close>) is what the exchange needs of grants and sessions;
  \<open>agent_repository\<close> (\<open>mem_agents\<close>) is the contract of the agent repository; and
  \<open>delegation_verifier\<close> (\<open>mem_delegation\<close>) is what impersonation needs of the consent service.

  \<^bold>\<open>What the theorems show.\<close>

  \<^item> An approval never grants more than the reviewed call or another tool, only its owner decides
    it, decisions are final under every interleaving, a one-use approval is consumed once, refused
    requests change nothing, and the number of open approvals is bounded where a rate limiter and the
    metrics port are configured. Each operation of the service implements the contract
    \<open>approval_spec\<close>, which is written without the code.
  \<^item> The gate lets a call pass only on an approval that covers it, denials win, and without a
    decision or an answer it refuses.
  \<^item> The glob matcher accepts the language of the glob, and exact patterns match exactly the
    reviewed call.
  \<^item> A key domain has at most one current key, never loses its last key, and other domains are
    left alone.
  \<^item> A client assertion is accepted once; used authorization codes, rotated and revoked refresh
    tokens stay spent; cleanup removes the expired records only.
  \<^item> A grant holds no more than the agent declares, a user has at most one grant per agent in
    every history, a refused consent changes no grant, consenting again changes nothing but the
    stamps, and after a revocation no refresh token of that user and agent is ever accepted.
  \<^item> In every history of one broker and any number of gateways a call passes only on an approval
    its user gave earlier in that history, and a one-use approval is consumed by then; it may pass once at
    each gateway that holds a copy. A long poll misses
    no decision, and versions travel unchanged between broker and gateway.
  \<^item> An approval request that is let in carries a genuine token of a human subject; with token
    authentication configured the plain header decides nothing.

  \<^item> A third-party token is handed out only with a grant that covers service and scopes, and without
    one no session is read. A token read from a session is fresh and belongs to it; a failed refresh
    leaves the stored tokens, a successful one stores the rotated ones, one goroutine at a time works on
    a session, and the sweep returns after it has evaluated every due session once.
  \<^item> Impersonation mints a token only under a rule with trusted client, actor and subject credentials
    and a predicate that holds, and for a human only while the grant of that user is active; the service
    starts only with sound rules.
  \<^item> Reconciling an agent twice changes nothing the second time, with one agent per client every
    client identifier stays unambiguous, and the indexes of the registry mirror its agents.

  \<^bold>\<open>Not modelled.\<close> The PostgreSQL adapters are SQL text: the repository contracts above say
  what they have to do. HTTP and gRPC transport (the gateway server with it), JSON decoding, configuration,
  wiring, telemetry and the encryption adapters are input and output around the modelled parts. The
  authorization-code flow that creates a third-party session, with its state tokens, the caches of permission
  sets and of client metadata documents, the records of third-party providers and the publication of signing
  keys are left out; where a modelled part reads them, the lookup is an argument.
\<close>

end
